(* ===== verification/Prelude.thy ===== *)
theory Prelude
  imports Complex_Main "HOL-Library.Char_ord" "HOL-Library.List_Lexorder" "HOL-Library.Sublist" "HOL-Library.Multiset"
begin

text \<open>
  What the components share: Python's exceptions as a datatype, computations that may raise
  as values of \<open>py_error + 'a\<close> with their sequencing operator \<open>bind_r\<close>, the string and list
  operations of the language the source uses, and the automation for all of them.

  A Python \<^verbatim>\<open>str\<close> is a \<open>string\<close>, one \<open>char\<close> per code point: the text model covers the code
  points U+0000 to U+00FF. A Python \<^verbatim>\<open>bytes\<close> is a \<open>string\<close> too, one \<open>char\<close> per byte.
\<close>

section \<open>Exceptions\<close>

text \<open>
  One constructor per exception class the modelled code raises or catches, carrying the message.
  \<open>is_ValueError\<close>, \<open>is_OSError\<close> follow the class hierarchy: \<^verbatim>\<open>UnsupportedSchemaVersion\<close>,
  \<^verbatim>\<open>JSONDecodeError\<close> and \<^verbatim>\<open>UnicodeError\<close> are subclasses of \<^verbatim>\<open>ValueError\<close>,
  \<^verbatim>\<open>FileNotFoundError\<close> of \<^verbatim>\<open>OSError\<close>; \<^verbatim>\<open>UnsafeStatePath\<close> is a \<^verbatim>\<open>RuntimeError\<close> and
  \<^verbatim>\<open>OverflowError\<close> an \<^verbatim>\<open>ArithmeticError\<close>.
\<close>

datatype py_error =
    ValueError string
  | UnsupportedSchemaVersion string
  | JSONDecodeError string
  | TypeError string
  | KeyError string
  | AssertionError string
  | OverflowError string
  | RuntimeError string
  | UnsafeStatePath string
  | OSError string
  | FileNotFoundError string
  | ProcessInspectionError string
  | PolicyRejection
  | TimeoutExpired
  | EOFError
  | AttributeError string
  | IndexError string
  | KeyboardInterrupt
  | UnsafeLifecyclePath string
  | ConcurrentLifecycleChange string
  | InjectedFailure string
  | LifecycleError int string

fun is_ValueError :: "py_error \<Rightarrow> bool" where
  "is_ValueError (ValueError _) = True"
| "is_ValueError (UnsupportedSchemaVersion _) = True"
| "is_ValueError (JSONDecodeError _) = True"
| "is_ValueError PolicyRejection = True"
| "is_ValueError _ = False"

fun is_OSError :: "py_error \<Rightarrow> bool" where
  "is_OSError (OSError _) = True"
| "is_OSError (FileNotFoundError _) = True"
| "is_OSError _ = False"

fun is_FileNotFoundError :: "py_error \<Rightarrow> bool" where
  "is_FileNotFoundError (FileNotFoundError _) = True"
| "is_FileNotFoundError _ = False"

section \<open>Computations that may raise\<close>

type_synonym 'a result = "py_error + 'a"

definition bind_r :: "'a result \<Rightarrow> ('a \<Rightarrow> 'b result) \<Rightarrow> 'b result" where
  "bind_r m f = (case m of Inl e \<Rightarrow> Inl e | Inr a \<Rightarrow> f a)"

definition raise_if :: "bool \<Rightarrow> py_error \<Rightarrow> unit result" where
  "raise_if b e = (if b then Inl e else Inr ())"

primrec traverse :: "('a \<Rightarrow> 'b result) \<Rightarrow> 'a list \<Rightarrow> 'b list result" where
  "traverse f [] = Inr []"
| "traverse f (x # xs) =
     bind_r (f x) (\<lambda>y. bind_r (traverse f xs) (\<lambda>ys. Inr (y # ys)))"

primrec check_all :: "('a \<Rightarrow> unit result) \<Rightarrow> 'a list \<Rightarrow> unit result" where
  "check_all f [] = Inr ()"
| "check_all f (x # xs) = bind_r (f x) (\<lambda>_. check_all f xs)"

lemma bind_r_simps [simp]:
  "bind_r (Inl e) f = Inl e" "bind_r (Inr a) f = f a"
  by (simp_all add: bind_r_def)

lemma bind_r_eq_Inr [simp]: "bind_r m f = Inr y \<longleftrightarrow> (\<exists>x. m = Inr x \<and> f x = Inr y)"
  by (cases m) auto

lemma bind_r_eq_Inl: "bind_r m f = Inl e \<longleftrightarrow> m = Inl e \<or> (\<exists>x. m = Inr x \<and> f x = Inl e)"
  by (cases m) auto

lemma bind_r_assoc: "bind_r (bind_r m f) g = bind_r m (\<lambda>x. bind_r (f x) g)"
  by (cases m) auto

lemma bind_r_cong [fundef_cong]:
  "m = m' \<Longrightarrow> (\<And>x. m' = Inr x \<Longrightarrow> f x = f' x) \<Longrightarrow> bind_r m f = bind_r m' f'"
  by (cases m') auto

lemma raise_if_simps [simp]:
  "raise_if True e = Inl e" "raise_if False e = Inr ()"
  by (simp_all add: raise_if_def)

lemma raise_if_eq [simp]:
  "raise_if b e = Inr u \<longleftrightarrow> \<not> b" "raise_if b e = Inl e' \<longleftrightarrow> b \<and> e' = e"
  by (auto simp: raise_if_def)

lemma traverse_eq_Inr: "traverse f xs = Inr ys \<longleftrightarrow> list_all2 (\<lambda>x y. f x = Inr y) xs ys"
  by (induction xs arbitrary: ys) (auto simp: list_all2_Cons1)

lemma traverse_map_Inr: "(\<And>x. x \<in> set xs \<Longrightarrow> f (g x) = Inr x) \<Longrightarrow> traverse f (map g xs) = Inr xs"
  by (induction xs) auto

lemma traverse_InrD: "traverse f xs = Inr ys \<Longrightarrow> y \<in> set ys \<Longrightarrow> \<exists>x \<in> set xs. f x = Inr y"
  by (induction xs arbitrary: ys) auto

lemma traverse_length: "traverse f xs = Inr ys \<Longrightarrow> length ys = length xs"
  by (induction xs arbitrary: ys) auto

lemma check_all_eq_Inr [simp]: "check_all f xs = Inr u \<longleftrightarrow> (\<forall>x \<in> set xs. f x = Inr ())"
  by (induction xs) auto

lemma recast_eq_Inr [simp]:
  "(case m of Inl e \<Rightarrow> Inl (f e) | Inr x \<Rightarrow> Inr x) = Inr y \<longleftrightarrow> m = Inr y"
  by (cases m) auto

lemma check_all_cong [fundef_cong]:
  "xs = ys \<Longrightarrow> (\<And>x. x \<in> set ys \<Longrightarrow> f x = g x) \<Longrightarrow> check_all f xs = check_all g ys"
  by (induction ys arbitrary: xs) auto

lemma traverse_cong [fundef_cong]:
  "xs = ys \<Longrightarrow> (\<And>x. x \<in> set ys \<Longrightarrow> f x = g x) \<Longrightarrow> traverse f xs = traverse g ys"
  by (induction ys arbitrary: xs) auto

lemma ex_unit_Inr [simp]: "(\<exists>x::unit. m = Inr x \<and> P x) \<longleftrightarrow> m = Inr () \<and> P ()"
  by auto

section \<open>Strings and lists as Python has them\<close>

definition startswith :: "'a list \<Rightarrow> 'a list \<Rightarrow> bool" where
  "startswith s p \<longleftrightarrow> take (length p) s = p"

definition endswith :: "'a list \<Rightarrow> 'a list \<Rightarrow> bool" where
  "endswith s p \<longleftrightarrow> length p \<le> length s \<and> drop (length s - length p) s = p"

text \<open>\<open>find_sub p s\<close> is \<^verbatim>\<open>s.find(p)\<close>, with \<open>None\<close> for the result -1.\<close>

fun find_sub :: "'a list \<Rightarrow> 'a list \<Rightarrow> nat option" where
  "find_sub p [] = (if p = [] then Some 0 else None)"
| "find_sub p (c # s) =
     (if startswith (c # s) p then Some 0 else map_option Suc (find_sub p s))"

definition contains :: "'a list \<Rightarrow> 'a list \<Rightarrow> bool" where
  "contains s p \<longleftrightarrow> find_sub p s \<noteq> None"

fun join :: "'a list \<Rightarrow> 'a list list \<Rightarrow> 'a list" where
  "join sep [] = []"
| "join sep [x] = x"
| "join sep (x # y # xs) = x @ sep @ join sep (y # xs)"

lemma set_join: "set (join sep ws) \<subseteq> \<Union> (set ` set ws) \<union> set sep"
  by (induction sep ws rule: join.induct) auto

lemma startswith_iff: "startswith s p \<longleftrightarrow> (\<exists>r. s = p @ r)"
proof
  assume "startswith s p"
  then have "s = p @ drop (length p) s"
    by (metis append_take_drop_id startswith_def)
  then show "\<exists>r. s = p @ r" by blast
qed (auto simp: startswith_def)

lemma endswith_iff: "endswith s p \<longleftrightarrow> (\<exists>r. s = r @ p)"
proof
  assume "endswith s p"
  then have "s = take (length s - length p) s @ p"
    by (metis append_take_drop_id endswith_def)
  then show "\<exists>r. s = r @ p" by blast
qed (auto simp: endswith_def)

lemma find_sub_Some:
  "find_sub p s = Some i \<Longrightarrow> i \<le> length s \<and> s = take i s @ p @ drop (i + length p) s"
proof (induction s arbitrary: i)
  case Nil
  then show ?case by (auto split: if_splits)
next
  case (Cons c s)
  show ?case
  proof (cases "startswith (c # s) p")
    case True
    with Cons.prems have "i = 0" by simp
    moreover from True have "c # s = p @ drop (length p) (c # s)"
      by (metis append_take_drop_id startswith_def)
    ultimately show ?thesis by simp
  next
    case False
    with Cons.prems obtain j where "find_sub p s = Some j" "i = Suc j" by auto
    with Cons.IH [of j] show ?thesis by auto
  qed
qed

lemma find_sub_None: "find_sub p s = None \<Longrightarrow> s \<noteq> a @ p @ b"
proof (induction s arbitrary: a)
  case Nil
  then show ?case by (auto split: if_splits)
next
  case (Cons c s)
  then have "\<not> startswith (c # s) p" "find_sub p s = None"
    by (auto split: if_splits)
  with Cons.IH [of "tl a"] show ?case
    by (cases a) (auto simp: startswith_iff)
qed

lemma find_sub_minimal:
  "find_sub p s = Some i \<Longrightarrow> s = a @ p @ b \<Longrightarrow> i \<le> length a"
proof (induction s arbitrary: i a)
  case Nil
  then show ?case by (auto split: if_splits)
next
  case (Cons c s)
  show ?case
  proof (cases "startswith (c # s) p")
    case True
    with Cons.prems(1) show ?thesis by simp
  next
    case False
    with Cons.prems(1) obtain j where "find_sub p s = Some j" "i = Suc j" by auto
    moreover from False Cons.prems(2) have "a \<noteq> []" by (auto simp: startswith_iff)
    moreover have "s = tl a @ p @ b" using Cons.prems(2) \<open>a \<noteq> []\<close> by (cases a) auto
    ultimately show ?thesis using Cons.IH [of j "tl a"] by (cases a) auto
  qed
qed

lemma contains_iff: "contains s p \<longleftrightarrow> (\<exists>a b. s = a @ p @ b)"
proof
  assume "contains s p"
  then obtain i where "find_sub p s = Some i" by (auto simp: contains_def)
  from find_sub_Some [OF this] show "\<exists>a b. s = a @ p @ b" by blast
next
  assume "\<exists>a b. s = a @ p @ b"
  then show "contains s p" using find_sub_None by (fastforce simp: contains_def)
qed

text \<open>Decimal text of an integer, as in an f-string.\<close>

fun digit_char :: "nat \<Rightarrow> char" where
  "digit_char n = char_of (48 + n)"

function nat_text :: "nat \<Rightarrow> string" where
  "nat_text n = (if n < 10 then [digit_char n] else nat_text (n div 10) @ [digit_char (n mod 10)])"
  by pat_completeness auto
termination
  by (relation "measure (\<lambda>n. n)") auto

declare nat_text.simps [simp del]

definition int_text :: "int \<Rightarrow> string" where
  "int_text i = (if i < 0 then ''-'' @ nat_text (nat (- i)) else nat_text (nat i))"

text \<open>\<^verbatim>\<open>sorted(set(xs))\<close>, and the replacement of the first entry that has a key.\<close>

text \<open>A stable sort, the greatest key first: \<^verbatim>\<open>sort(key=..., reverse=True)\<close>.\<close>

definition latest_by :: "('a \<Rightarrow> 'k::linorder) \<Rightarrow> 'a list \<Rightarrow> 'a list" where
  "latest_by key xs = rev (sort_key key (rev xs))"

lemma latest_by_spec: "mset (latest_by key xs) = mset xs" "sorted_wrt (\<lambda>a b. key b \<le> key a) (latest_by key xs)"
proof -
  show "mset (latest_by key xs) = mset xs" by (simp add: latest_by_def)
  have "sorted (map key (sort_key key (rev xs)))" by simp
  then show "sorted_wrt (\<lambda>a b. key b \<le> key a) (latest_by key xs)"
    by (simp add: latest_by_def sorted_map sorted_wrt_rev)
qed

definition sorted_set :: "string list \<Rightarrow> string list" where
  "sorted_set xs = sort (remdups xs)"

lemma set_sorted_set [simp]: "set (sorted_set xs) = set xs"
  by (simp add: sorted_set_def)

lemma sorted_set_distinct [simp]: "distinct (sorted_set xs)" "sorted (sorted_set xs)"
  by (simp_all add: sorted_set_def)

lemma sorted_set_eqI: "set xs = set ys \<Longrightarrow> sorted_set xs = sorted_set ys"
  by (simp add: sorted_set_def sorted_remdups sorted_distinct_set_unique)

section \<open>String enumerations\<close>

text \<open>
  The source's enumerations are \<^verbatim>\<open>StrEnum\<close>s: \<^verbatim>\<open>E(text)\<close> finds the member whose value is \<open>text\<close>
  or raises \<^verbatim>\<open>ValueError\<close>. Every decoder relies on the same contract: the members are all
  there, their values differ, and they fit the bound on identifiers.
\<close>

definition enum_of :: "('e \<Rightarrow> string) \<Rightarrow> 'e list \<Rightarrow> string \<Rightarrow> 'e option" where
  "enum_of val members text = find (\<lambda>m. val m = text) members"

locale str_enum =
  fixes val :: "'e \<Rightarrow> string"
    and members :: "'e list"
  assumes complete: "x \<in> set members"
    and val_inj: "val x = val y \<Longrightarrow> x = y"
    and val_short: "length (val x) \<le> 128"
    and val_nonempty: "val x \<noteq> []"
begin

lemma enum_of_val [simp]: "enum_of val members (val x) = Some x"
proof -
  have "find (\<lambda>m. val m = val x) members \<noteq> None"
    using complete [of x] by (simp add: find_None_iff) blast
  then obtain y where y: "find (\<lambda>m. val m = val x) members = Some y" by blast
  then have "val y = val x" by (auto simp: find_Some_iff)
  with y show ?thesis by (simp add: enum_of_def val_inj)
qed

lemma enum_of_SomeD: "enum_of val members t = Some x \<Longrightarrow> t = val x"
  by (auto simp: enum_of_def find_Some_iff)

lemma enum_of_iff: "enum_of val members t = Some x \<longleftrightarrow> t = val x"
  using enum_of_SomeD by auto

end

lemma str_enumI:
  assumes "\<And>x. x \<in> set members" and "distinct (map val members)"
    and "list_all (\<lambda>m. length (val m) \<le> 128 \<and> val m \<noteq> []) members"
  shows "str_enum val members"
proof
  fix x y
  show "x \<in> set members" by (rule assms(1))
  show "length (val x) \<le> 128" "val x \<noteq> []"
    using assms(1) [of x] assms(3) by (auto simp: list_all_iff)
  show "val x = val y \<Longrightarrow> x = y"
    using assms(1) [of x] assms(1) [of y] assms(2) by (auto simp: distinct_map dest: inj_onD)
qed

section \<open>Collections of the development\<close>

named_theorems wf_intros \<open>constructors establish the well-formedness of what they build\<close>
named_theorems decode_simps \<open>inversion of the decoders\<close>
named_theorems step_defs \<open>definitions of the operations of a state machine\<close>

end
