(* ===== verification/Json.thy ===== *)
theory Json
  imports Prelude "HOL-Library.Log_Nat"
begin

text \<open>
  The values that \<^verbatim>\<open>json.loads\<close> builds and \<^verbatim>\<open>json.dumps\<close> takes, and the operations on
  dictionaries the decoders use. A dictionary is an association list in insertion order;
  \<open>dict_keys\<close> are its keys. A finite \<^verbatim>\<open>float\<close> is the rational number it denotes.
\<close>

datatype pyfloat = Finite rat | PosInf | NegInf | NaN

datatype json =
    JNull
  | JBool bool
  | JInt int
  | JFloat pyfloat
  | JStr string
  | JArr "json list"
  | JObj "(string \<times> json) list"

type_synonym dict = "(string \<times> json) list"

fun is_finite :: "pyfloat \<Rightarrow> bool" where
  "is_finite (Finite _) = True"
| "is_finite _ = False"

text \<open>
  \<^verbatim>\<open>float(n)\<close> of an integer: rounding to 53 bits, half to even; too large an integer raises
  \<^verbatim>\<open>OverflowError\<close>.
\<close>

definition round53 :: "int \<Rightarrow> int" where
  "round53 n =
     (let a = \<bar>n\<bar>; k = nat (bitlen a) in
      if k \<le> 53 then n
      else let m = 2 ^ (k - 53); q = a div m; r = a mod m in
        sgn n * m * (if 2 * r < m \<or> (2 * r = m \<and> even q) then q else q + 1))"

definition float_of_int :: "int \<Rightarrow> pyfloat result" where
  "float_of_int n =
     (if 2 ^ 1024 - 2 ^ 970 \<le> \<bar>n\<bar> then Inl (OverflowError ''int too large to convert to float'')
      else Inr (Finite (of_int (round53 n))))"

definition dict_keys :: "dict \<Rightarrow> string list" where
  "dict_keys d = map fst d"

definition dict_get :: "dict \<Rightarrow> string \<Rightarrow> json option" where
  "dict_get d k = map_of d k"

text \<open>\<^verbatim>\<open>d[k]\<close> raises \<^verbatim>\<open>KeyError\<close> where the key is missing.\<close>

definition dict_item :: "dict \<Rightarrow> string \<Rightarrow> json result" where
  "dict_item d k = (case map_of d k of None \<Rightarrow> Inl (KeyError k) | Some v \<Rightarrow> Inr v)"

lemma dict_item_Inr [simp]: "dict_item d k = Inr v \<longleftrightarrow> map_of d k = Some v"
  by (auto simp: dict_item_def split: option.splits)

lemma dict_item_present: "k \<in> set (dict_keys d) \<Longrightarrow> \<exists>v. dict_item d k = Inr v"
  by (auto simp: dict_keys_def map_of_eq_None_iff) (metis (no_types) image_eqI map_of_eq_None_iff not_Some_eq fst_conv)

end
