(* ===== verification/Model.thy ===== *)
theory Model
  imports Json
begin

text \<open>
  The persisted data model of \<^verbatim>\<open>model.py\<close>: the enumerations, the frozen dataclasses with the
  checks of their \<^verbatim>\<open>__post_init__\<close>, and the conversions to and from dictionaries.

  Each dataclass is a record; \<open>X_init\<close> is its constructor, which raises where
  \<^verbatim>\<open>__post_init__\<close> does and returns the record otherwise. The fields are typed, so a check
  that a field has its declared type is left to HOL's types there; the \<open>*_from_dict\<close> functions
  work on JSON values and make every such check.
\<close>

section \<open>Limits and enumerations\<close>

definition SCHEMA_VERSION :: int where "SCHEMA_VERSION = 1"
definition MAX_COMMAND_CHARS :: nat where "MAX_COMMAND_CHARS = 3072"
definition MAX_PATH_CHARS :: nat where "MAX_PATH_CHARS = 768"
definition MAX_ID_CHARS :: nat where "MAX_ID_CHARS = 128"
definition MAX_ERROR_MESSAGE_CHARS :: nat where "MAX_ERROR_MESSAGE_CHARS = 96"
definition MAX_OUTCOME_MESSAGE_CHARS :: nat where "MAX_OUTCOME_MESSAGE_CHARS = 160"
definition MAX_DIAGNOSTIC_CHARS :: nat where "MAX_DIAGNOSTIC_CHARS = 160"
definition MAX_ITEMS :: nat where "MAX_ITEMS = 256"

lemmas limits =
  SCHEMA_VERSION_def MAX_COMMAND_CHARS_def MAX_PATH_CHARS_def MAX_ID_CHARS_def
  MAX_ERROR_MESSAGE_CHARS_def MAX_OUTCOME_MESSAGE_CHARS_def MAX_DIAGNOSTIC_CHARS_def MAX_ITEMS_def

datatype RestorationLevel = EXACT | RECONSTRUCTED | PARTIAL | UNAVAILABLE

datatype TerminationKind = EXPLICIT_EXIT | AMBIGUOUS

datatype CommandDisposition = REPLAYABLE | REDACTED | UNSAFE | UNREPRESENTABLE

datatype OutcomeKind = SUCCESS | WARNING | SKIP | FAILURE

definition RestorationLevel_members :: "RestorationLevel list" where
  "RestorationLevel_members = [EXACT, RECONSTRUCTED, PARTIAL, UNAVAILABLE]"

lemma RestorationLevel_all: "x \<in> set RestorationLevel_members"
  by (cases x) (simp_all add: RestorationLevel_members_def)

fun RestorationLevel_value :: "RestorationLevel \<Rightarrow> string" where
  "RestorationLevel_value EXACT = ''exact''"
| "RestorationLevel_value RECONSTRUCTED = ''reconstructed''"
| "RestorationLevel_value PARTIAL = ''partial''"
| "RestorationLevel_value UNAVAILABLE = ''unavailable''"

definition TerminationKind_members :: "TerminationKind list" where
  "TerminationKind_members = [EXPLICIT_EXIT, AMBIGUOUS]"

lemma TerminationKind_all: "x \<in> set TerminationKind_members"
  by (cases x) (simp_all add: TerminationKind_members_def)

fun TerminationKind_value :: "TerminationKind \<Rightarrow> string" where
  "TerminationKind_value EXPLICIT_EXIT = ''explicit_exit''"
| "TerminationKind_value AMBIGUOUS = ''ambiguous''"

definition CommandDisposition_members :: "CommandDisposition list" where
  "CommandDisposition_members = [REPLAYABLE, REDACTED, UNSAFE, UNREPRESENTABLE]"

lemma CommandDisposition_all: "x \<in> set CommandDisposition_members"
  by (cases x) (simp_all add: CommandDisposition_members_def)

fun CommandDisposition_value :: "CommandDisposition \<Rightarrow> string" where
  "CommandDisposition_value REPLAYABLE = ''replayable''"
| "CommandDisposition_value REDACTED = ''redacted''"
| "CommandDisposition_value UNSAFE = ''unsafe''"
| "CommandDisposition_value UNREPRESENTABLE = ''unrepresentable''"

definition OutcomeKind_members :: "OutcomeKind list" where
  "OutcomeKind_members = [SUCCESS, WARNING, SKIP, FAILURE]"

lemma OutcomeKind_all: "x \<in> set OutcomeKind_members"
  by (cases x) (simp_all add: OutcomeKind_members_def)

fun OutcomeKind_value :: "OutcomeKind \<Rightarrow> string" where
  "OutcomeKind_value SUCCESS = ''success''"
| "OutcomeKind_value WARNING = ''warning''"
| "OutcomeKind_value SKIP = ''skip''"
| "OutcomeKind_value FAILURE = ''failure''"

interpretation level_enum: str_enum RestorationLevel_value "RestorationLevel_members"
  by (rule str_enumI [OF RestorationLevel_all]) (simp_all add: RestorationLevel_members_def)

interpretation termination_enum: str_enum TerminationKind_value "TerminationKind_members"
  by (rule str_enumI [OF TerminationKind_all]) (simp_all add: TerminationKind_members_def)

interpretation disposition_enum: str_enum CommandDisposition_value "CommandDisposition_members"
  by (rule str_enumI [OF CommandDisposition_all]) (simp_all add: CommandDisposition_members_def)

interpretation outcome_enum: str_enum OutcomeKind_value "OutcomeKind_members"
  by (rule str_enumI [OF OutcomeKind_all]) (simp_all add: OutcomeKind_members_def)

section \<open>The checks\<close>

definition require_bounded_string :: "string \<Rightarrow> string \<Rightarrow> nat \<Rightarrow> unit result" where
  "require_bounded_string value context maximum =
     raise_if (length value > maximum)
       (ValueError (context @ '' exceeds maximum length '' @ nat_text maximum))"

definition require_bounded_sequence :: "'a list \<Rightarrow> string \<Rightarrow> unit result" where
  "require_bounded_sequence value context =
     raise_if (length value > MAX_ITEMS)
       (ValueError (context @ '' exceeds maximum items '' @ nat_text MAX_ITEMS))"

definition require_non_negative_integer :: "int \<Rightarrow> string \<Rightarrow> unit result" where
  "require_non_negative_integer value context =
     raise_if (value < 0) (ValueError (context @ '' must be non-negative''))"

definition require_finite_float :: "pyfloat \<Rightarrow> string \<Rightarrow> unit result" where
  "require_finite_float value context =
     raise_if (\<not> is_finite value) (ValueError (context @ '' must be finite''))"

definition require_unique :: "string list \<Rightarrow> string \<Rightarrow> unit result" where
  "require_unique values context =
     raise_if (length values \<noteq> length (remdups values)) (ValueError (''duplicate '' @ context))"

definition require_schema_one :: "int \<Rightarrow> unit result" where
  "require_schema_one version =
     raise_if (version \<noteq> SCHEMA_VERSION)
       (ValueError (''unsupported schema version '' @ int_text version @ ''; reader supports 1''))"

lemma require_Inr [simp]:
  "require_bounded_string s c n = Inr u \<longleftrightarrow> length s \<le> n"
  "require_bounded_sequence xs c = Inr u \<longleftrightarrow> length xs \<le> MAX_ITEMS"
  "require_non_negative_integer i c = Inr u \<longleftrightarrow> 0 \<le> i"
  "require_finite_float f c = Inr u \<longleftrightarrow> is_finite f"
  "require_unique ss c = Inr u \<longleftrightarrow> distinct ss"
  "require_schema_one v = Inr u \<longleftrightarrow> v = SCHEMA_VERSION"
  by (auto simp: require_bounded_string_def require_bounded_sequence_def
      require_non_negative_integer_def require_finite_float_def require_unique_def
      require_schema_one_def card_distinct distinct_card)
     (metis card_distinct length_remdups_card_conv, metis distinct_remdups_id)

section \<open>The dataclasses and their constructors\<close>

record ProcessIdentity =
  boot_id :: string
  pid :: int
  start_time :: int

definition ProcessIdentity_init :: "string \<Rightarrow> int \<Rightarrow> int \<Rightarrow> ProcessIdentity result" where
  "ProcessIdentity_init b p t =
     bind_r (require_bounded_string b ''boot_id'' MAX_ID_CHARS) (\<lambda>_.
     bind_r (raise_if (p \<le> 0) (ValueError ''pid must be positive'')) (\<lambda>_.
     bind_r (raise_if (t < 0) (ValueError ''start_time must be non-negative'')) (\<lambda>_.
     Inr \<lparr>boot_id = b, pid = p, start_time = t\<rparr>)))"

record CommandRecord =
  cmd_sequence :: int
  display :: string
  executable :: "string option"
  disposition :: CommandDisposition
  active :: bool

definition CommandRecord_init ::
  "int \<Rightarrow> string \<Rightarrow> string option \<Rightarrow> CommandDisposition \<Rightarrow> bool \<Rightarrow> CommandRecord result" where
  "CommandRecord_init q d x k a =
     bind_r (require_non_negative_integer q ''command sequence'') (\<lambda>_.
     bind_r (require_bounded_string d ''display''
       (if k = REDACTED then MAX_DIAGNOSTIC_CHARS else MAX_COMMAND_CHARS)) (\<lambda>_.
     bind_r (case x of None \<Rightarrow> Inr ()
             | Some e \<Rightarrow> require_bounded_string e ''executable'' MAX_COMMAND_CHARS) (\<lambda>_.
     bind_r (if k = REPLAYABLE then
               bind_r (raise_if (\<not> a) (ValueError ''completed command cannot be replayable'')) (\<lambda>_.
               raise_if (x = None)
                 (ValueError ''active replayable command requires executable body''))
             else Inr ()) (\<lambda>_.
     Inr \<lparr>cmd_sequence = q, display = d, executable = x, disposition = k, active = a\<rparr>))))"

record ShellRecord =
  shell_id :: string
  identity :: ProcessIdentity
  adapter :: string
  cwd :: string
  last_sequence :: int
  command :: "CommandRecord option"
  termination_kind :: "TerminationKind option"

text \<open>\<open>ShellRecord_check\<close> is \<^verbatim>\<open>__post_init__\<close>, run by the constructor and by \<^verbatim>\<open>replace\<close>.\<close>

definition ShellRecord_check :: "ShellRecord \<Rightarrow> ShellRecord result" where
  "ShellRecord_check s =
     bind_r (require_bounded_string (shell_id s) ''shell_id'' MAX_ID_CHARS) (\<lambda>_.
     bind_r (require_bounded_string (adapter s) ''adapter'' MAX_ID_CHARS) (\<lambda>_.
     bind_r (require_bounded_string (cwd s) ''cwd'' MAX_PATH_CHARS) (\<lambda>_.
     bind_r (require_non_negative_integer (last_sequence s) ''last_sequence'') (\<lambda>_.
     Inr s))))"

definition ShellRecord_init ::
  "string \<Rightarrow> ProcessIdentity \<Rightarrow> string \<Rightarrow> string \<Rightarrow> int \<Rightarrow> CommandRecord option
    \<Rightarrow> TerminationKind option \<Rightarrow> ShellRecord result" where
  "ShellRecord_init i p a d q c t =
     ShellRecord_check \<lparr>shell_id = i, identity = p, adapter = a, cwd = d, last_sequence = q,
       command = c, termination_kind = t\<rparr>"

record Outcome =
  outcome_item_id :: string
  outcome_kind :: OutcomeKind
  outcome_message :: string

definition Outcome_init :: "string \<Rightarrow> OutcomeKind \<Rightarrow> string \<Rightarrow> Outcome result" where
  "Outcome_init i k m =
     bind_r (require_bounded_string i ''item_id'' MAX_ID_CHARS) (\<lambda>_.
     bind_r (require_bounded_string m ''message'' MAX_OUTCOME_MESSAGE_CHARS) (\<lambda>_.
     Inr \<lparr>outcome_item_id = i, outcome_kind = k, outcome_message = m\<rparr>))"

record RestoreAttempt =
  attempt_id :: string
  attempt_workspace_id :: string
  selected_item_ids :: "string list"
  approved_item_ids :: "string list"
  outcomes :: "Outcome list"

definition RestoreAttempt_check :: "RestoreAttempt \<Rightarrow> RestoreAttempt result" where
  "RestoreAttempt_check a =
     bind_r (require_bounded_string (attempt_id a) ''attempt_id'' MAX_ID_CHARS) (\<lambda>_.
     bind_r (require_bounded_string (attempt_workspace_id a) ''workspace_id'' MAX_ID_CHARS) (\<lambda>_.
     bind_r (require_bounded_sequence (selected_item_ids a) ''selected_item_ids'') (\<lambda>_.
     bind_r (require_bounded_sequence (approved_item_ids a) ''approved_item_ids'') (\<lambda>_.
     bind_r (require_bounded_sequence (outcomes a) ''outcomes'') (\<lambda>_.
     bind_r (check_all (\<lambda>i. require_bounded_string i ''selected item ID'' MAX_ID_CHARS)
       (selected_item_ids a)) (\<lambda>_.
     bind_r (check_all (\<lambda>i. require_bounded_string i ''approved item ID'' MAX_ID_CHARS)
       (approved_item_ids a)) (\<lambda>_.
     bind_r (require_unique (selected_item_ids a) ''selected item ID'') (\<lambda>_.
     bind_r (require_unique (approved_item_ids a) ''approved item ID'') (\<lambda>_.
     bind_r (raise_if (\<not> set (approved_item_ids a) \<subseteq> set (selected_item_ids a))
       (ValueError ''approved item must be selected'')) (\<lambda>_.
     bind_r (raise_if (\<exists>p \<in> set (outcomes a). outcome_item_id p \<notin> set (selected_item_ids a))
       (ValueError ''outcome item must be selected'')) (\<lambda>_.
     bind_r (require_unique (map outcome_item_id (outcomes a)) ''outcome item ID'') (\<lambda>_.
     Inr a))))))))))))"

definition RestoreAttempt_init ::
  "string \<Rightarrow> string \<Rightarrow> string list \<Rightarrow> string list \<Rightarrow> Outcome list \<Rightarrow> RestoreAttempt result" where
  "RestoreAttempt_init i w sel app outs =
     RestoreAttempt_check \<lparr>attempt_id = i, attempt_workspace_id = w, selected_item_ids = sel,
       approved_item_ids = app, outcomes = outs\<rparr>"

record Snapshot =
  snap_schema_version :: int
  generation :: int
  captured_at :: pyfloat
  shells :: "ShellRecord list"

definition Snapshot_check :: "Snapshot \<Rightarrow> Snapshot result" where
  "Snapshot_check s =
     bind_r (require_schema_one (snap_schema_version s)) (\<lambda>_.
     bind_r (require_non_negative_integer (generation s) ''generation'') (\<lambda>_.
     bind_r (require_finite_float (captured_at s) ''captured_at'') (\<lambda>_.
     bind_r (require_bounded_sequence (shells s) ''shells'') (\<lambda>_.
     Inr s))))"

definition Snapshot_init :: "int \<Rightarrow> int \<Rightarrow> pyfloat \<Rightarrow> ShellRecord list \<Rightarrow> Snapshot result" where
  "Snapshot_init v g t ss =
     Snapshot_check \<lparr>snap_schema_version = v, generation = g, captured_at = t, shells = ss\<rparr>"

record RecoveryItemRecord =
  item_id :: string
  item_shell :: ShellRecord
  item_reason :: string

definition RecoveryItemRecord_init :: "string \<Rightarrow> ShellRecord \<Rightarrow> string \<Rightarrow> RecoveryItemRecord result" where
  "RecoveryItemRecord_init i s r =
     bind_r (require_bounded_string i ''item_id'' MAX_ID_CHARS) (\<lambda>_.
     bind_r (require_bounded_string r ''reason'' MAX_DIAGNOSTIC_CHARS) (\<lambda>_.
     Inr \<lparr>item_id = i, item_shell = s, item_reason = r\<rparr>))"

record RecoveryRecord =
  rec_schema_version :: int
  workspace_id :: string
  source_generation :: int
  created_at :: pyfloat
  items :: "RecoveryItemRecord list"
  attempts :: "RestoreAttempt list"
  completed_item_ids :: "string list"

definition terminal_item_ids :: "RestoreAttempt list \<Rightarrow> string list" where
  "terminal_item_ids as =
     map outcome_item_id
       (filter (\<lambda>p. outcome_kind p = SUCCESS \<or> outcome_kind p = WARNING) (concat (map outcomes as)))"

definition attempt_matches :: "string \<Rightarrow> string list \<Rightarrow> RestoreAttempt \<Rightarrow> unit result" where
  "attempt_matches w ids a =
     bind_r (raise_if (attempt_workspace_id a \<noteq> w)
       (ValueError ''restore attempt workspace does not match recovery workspace'')) (\<lambda>_.
     raise_if (\<not> set (selected_item_ids a) \<subseteq> set ids)
       (ValueError ''selected item must exist in recovery items''))"

definition RecoveryRecord_check :: "RecoveryRecord \<Rightarrow> RecoveryRecord result" where
  "RecoveryRecord_check r =
     bind_r (require_schema_one (rec_schema_version r)) (\<lambda>_.
     bind_r (require_bounded_string (workspace_id r) ''workspace_id'' MAX_ID_CHARS) (\<lambda>_.
     bind_r (require_non_negative_integer (source_generation r) ''source_generation'') (\<lambda>_.
     bind_r (require_finite_float (created_at r) ''created_at'') (\<lambda>_.
     bind_r (require_bounded_sequence (items r) ''items'') (\<lambda>_.
     bind_r (require_bounded_sequence (attempts r) ''attempts'') (\<lambda>_.
     bind_r (require_bounded_sequence (completed_item_ids r) ''completed_item_ids'') (\<lambda>_.
     bind_r (check_all (\<lambda>i. require_bounded_string i ''completed item ID'' MAX_ID_CHARS)
       (completed_item_ids r)) (\<lambda>_.
     bind_r (require_unique (map item_id (items r)) ''recovery item ID'') (\<lambda>_.
     bind_r (require_unique (map attempt_id (attempts r)) ''restore attempt ID'') (\<lambda>_.
     bind_r (require_unique (completed_item_ids r) ''completed item ID'') (\<lambda>_.
     bind_r (raise_if (\<not> set (completed_item_ids r) \<subseteq> set (map item_id (items r)))
       (ValueError ''completed item must exist in recovery items'')) (\<lambda>_.
     bind_r (check_all (attempt_matches (workspace_id r) (map item_id (items r))) (attempts r)) (\<lambda>_.
     bind_r (raise_if (\<not> set (completed_item_ids r) \<subseteq> set (terminal_item_ids (attempts r)))
       (ValueError ''completed item lacks terminal outcome'')) (\<lambda>_.
     Inr r))))))))))))))"

definition RecoveryRecord_init ::
  "int \<Rightarrow> string \<Rightarrow> int \<Rightarrow> pyfloat \<Rightarrow> RecoveryItemRecord list \<Rightarrow> RestoreAttempt list \<Rightarrow> string list
    \<Rightarrow> RecoveryRecord result" where
  "RecoveryRecord_init v w g t is as cs =
     RecoveryRecord_check \<lparr>rec_schema_version = v, workspace_id = w, source_generation = g,
       created_at = t, items = is, attempts = as, completed_item_ids = cs\<rparr>"

section \<open>Reading JSON values\<close>

definition as_mapping :: "json \<Rightarrow> string \<Rightarrow> dict result" where
  "as_mapping value context =
     (case value of JObj d \<Rightarrow> Inr d | _ \<Rightarrow> Inl (ValueError (context @ '' must be an object'')))"

definition as_sequence :: "json \<Rightarrow> string \<Rightarrow> json list result" where
  "as_sequence value context =
     (case value of
        JArr xs \<Rightarrow> bind_r (require_bounded_sequence xs context) (\<lambda>_. Inr xs)
      | _ \<Rightarrow> Inl (ValueError (context @ '' must be an array'')))"

definition as_string :: "json \<Rightarrow> string \<Rightarrow> string result" where
  "as_string value context =
     (case value of JStr t \<Rightarrow> Inr t | _ \<Rightarrow> Inl (ValueError (context @ '' must be a string'')))"

definition as_bounded_string :: "json \<Rightarrow> string \<Rightarrow> nat \<Rightarrow> string result" where
  "as_bounded_string value context maximum =
     bind_r (as_string value context) (\<lambda>text.
     bind_r (require_bounded_string text context maximum) (\<lambda>_. Inr text))"

definition as_integer :: "json \<Rightarrow> string \<Rightarrow> int result" where
  "as_integer value context =
     (case value of JInt i \<Rightarrow> Inr i | _ \<Rightarrow> Inl (ValueError (context @ '' must be an integer'')))"

definition as_number :: "json \<Rightarrow> string \<Rightarrow> pyfloat result" where
  "as_number value context =
     (case value of
        JInt i \<Rightarrow> float_of_int i
      | JFloat f \<Rightarrow> bind_r (require_finite_float f context) (\<lambda>_. Inr f)
      | _ \<Rightarrow> Inl (ValueError (context @ '' must be a number'')))"

definition as_boolean :: "json \<Rightarrow> string \<Rightarrow> bool result" where
  "as_boolean value context =
     (case value of JBool b \<Rightarrow> Inr b | _ \<Rightarrow> Inl (ValueError (context @ '' must be a boolean'')))"

definition as_enum :: "('e \<Rightarrow> string) \<Rightarrow> 'e list \<Rightarrow> json \<Rightarrow> string \<Rightarrow> 'e result" where
  "as_enum val members value context =
     bind_r (as_bounded_string value context MAX_ID_CHARS) (\<lambda>text.
     case enum_of val members text of
       None \<Rightarrow> Inl (ValueError (''invalid '' @ context @ '': '' @ text))
     | Some m \<Rightarrow> Inr m)"

definition require_exact_keys :: "dict \<Rightarrow> string list \<Rightarrow> string \<Rightarrow> unit result" where
  "require_exact_keys payload expected context =
     (let unknown = filter (\<lambda>k. k \<notin> set expected) (dict_keys payload);
          missing = filter (\<lambda>k. k \<notin> set (dict_keys payload)) expected in
      bind_r (raise_if (unknown \<noteq> [])
        (ValueError (''unknown keys in '' @ context @ '': '' @ join '', '' (sorted_set unknown)))) (\<lambda>_.
      raise_if (missing \<noteq> [])
        (ValueError (''missing keys in '' @ context @ '': '' @ join '', '' (sorted_set missing)))))"

definition read_schema_version :: "dict \<Rightarrow> int result" where
  "read_schema_version payload =
     (case dict_get payload ''schema_version'' of
        None \<Rightarrow> Inl (ValueError ''missing keys in schema: schema_version'')
      | Some v \<Rightarrow>
          bind_r (as_integer v ''schema_version'') (\<lambda>version.
          bind_r (require_schema_one version) (\<lambda>_. Inr version)))"

text \<open>\<open>field d k reader\<close> is \<^verbatim>\<open>reader(d[k])\<close>.\<close>

definition field :: "dict \<Rightarrow> string \<Rightarrow> (json \<Rightarrow> 'a result) \<Rightarrow> 'a result" where
  "field d k reader = bind_r (dict_item d k) reader"

text \<open>\<^verbatim>\<open>None if value is None else reader(value)\<close>.\<close>

definition nullable :: "(json \<Rightarrow> 'a result) \<Rightarrow> json \<Rightarrow> 'a option result" where
  "nullable reader value =
     (case value of JNull \<Rightarrow> Inr None | _ \<Rightarrow> bind_r (reader value) (\<lambda>a. Inr (Some a)))"

definition json_option :: "('a \<Rightarrow> json) \<Rightarrow> 'a option \<Rightarrow> json" where
  "json_option f x = (case x of None \<Rightarrow> JNull | Some a \<Rightarrow> f a)"

lemma nullable_simps [simp]:
  "nullable r JNull = Inr None"
  by (simp add: nullable_def)

lemma nullable_not_null: "v \<noteq> JNull \<Longrightarrow> nullable r v = bind_r (r v) (\<lambda>a. Inr (Some a))"
  by (cases v) (simp_all add: nullable_def)

lemma as_Inr [decode_simps]:
  "as_mapping v c = Inr d \<longleftrightarrow> v = JObj d"
  "as_sequence v c = Inr xs \<longleftrightarrow> v = JArr xs \<and> length xs \<le> MAX_ITEMS"
  "as_string v c = Inr t \<longleftrightarrow> v = JStr t"
  "as_bounded_string v c n = Inr t \<longleftrightarrow> v = JStr t \<and> length t \<le> n"
  "as_integer v c = Inr i \<longleftrightarrow> v = JInt i"
  "as_boolean v c = Inr b \<longleftrightarrow> v = JBool b"
  by (cases v; force simp: as_mapping_def as_sequence_def as_string_def as_bounded_string_def
      as_integer_def as_boolean_def)+

lemma as_number_finite: "as_number v c = Inr f \<Longrightarrow> is_finite f"
  by (cases v) (auto simp: as_number_def float_of_int_def split: if_splits)

lemma as_number_JFloat [decode_simps]: "as_number (JFloat f) c = Inr g \<longleftrightarrow> g = f \<and> is_finite f"
  by (auto simp: as_number_def)

lemma field_Inr [decode_simps]:
  "field d k r = Inr a \<longleftrightarrow> (\<exists>v. map_of d k = Some v \<and> r v = Inr a)"
  by (simp add: field_def)

lemma require_exact_keys_Inr [decode_simps]:
  "require_exact_keys d ks c = Inr u \<longleftrightarrow> set (dict_keys d) = set ks"
  by (auto simp: require_exact_keys_def Let_def filter_empty_conv)

lemma require_exact_keys_Inl:
  "set (dict_keys d) \<noteq> set ks \<Longrightarrow> \<exists>e. require_exact_keys d ks c = Inl e \<and> is_ValueError e"
  by (cases "require_exact_keys d ks c")
     (auto simp: require_exact_keys_Inr, auto simp: require_exact_keys_def Let_def bind_r_eq_Inl)

lemma as_enum_val [simp]:
  "str_enum val ms \<Longrightarrow> as_enum val ms (JStr (val x)) c = Inr x"
  by (simp add: as_enum_def as_Inr str_enum.val_short str_enum.enum_of_val as_bounded_string_def
      as_string_def require_bounded_string_def MAX_ID_CHARS_def linorder_not_less)

section \<open>Conversions to and from dictionaries\<close>

definition identity_to_dict :: "ProcessIdentity \<Rightarrow> json" where
  "identity_to_dict p =
     JObj [(''boot_id'', JStr (boot_id p)), (''pid'', JInt (pid p)), (''start_time'', JInt (start_time p))]"

definition identity_from_dict :: "json \<Rightarrow> ProcessIdentity result" where
  "identity_from_dict value =
     bind_r (as_mapping value ''identity'') (\<lambda>d.
     bind_r (require_exact_keys d [''boot_id'', ''pid'', ''start_time''] ''identity'') (\<lambda>_.
     bind_r (field d ''boot_id'' (\<lambda>v. as_bounded_string v ''boot_id'' MAX_ID_CHARS)) (\<lambda>b.
     bind_r (field d ''pid'' (\<lambda>v. as_integer v ''pid'')) (\<lambda>p.
     bind_r (field d ''start_time'' (\<lambda>v. as_integer v ''start_time'')) (\<lambda>t.
     ProcessIdentity_init b p t)))))"

definition command_to_dict :: "CommandRecord \<Rightarrow> json" where
  "command_to_dict c =
     JObj [(''sequence'', JInt (cmd_sequence c)), (''display'', JStr (display c)),
       (''executable'', json_option JStr (executable c)),
       (''disposition'', JStr (CommandDisposition_value (disposition c))),
       (''active'', JBool (active c))]"

definition command_from_dict :: "json \<Rightarrow> CommandRecord result" where
  "command_from_dict value =
     bind_r (as_mapping value ''command'') (\<lambda>d.
     bind_r (require_exact_keys d
       [''sequence'', ''display'', ''executable'', ''disposition'', ''active''] ''command'') (\<lambda>_.
     bind_r (field d ''display'' (\<lambda>v. as_bounded_string v ''display'' MAX_COMMAND_CHARS)) (\<lambda>t.
     bind_r (field d ''executable''
       (nullable (\<lambda>v. as_bounded_string v ''executable'' MAX_COMMAND_CHARS))) (\<lambda>x.
     bind_r (field d ''disposition''
       (\<lambda>v. bind_r (as_bounded_string v ''command disposition'' MAX_ID_CHARS)
         (\<lambda>text. as_enum CommandDisposition_value CommandDisposition_members (JStr text)
            ''command disposition''))) (\<lambda>k.
     bind_r (if k = REDACTED then require_bounded_string t ''display'' MAX_DIAGNOSTIC_CHARS
             else Inr ()) (\<lambda>_.
     bind_r (field d ''sequence'' (\<lambda>v. as_integer v ''command sequence'')) (\<lambda>q.
     bind_r (field d ''active'' (\<lambda>v. as_boolean v ''active'')) (\<lambda>a.
     CommandRecord_init q t x k a))))))))"

definition shell_to_dict :: "ShellRecord \<Rightarrow> json" where
  "shell_to_dict s =
     JObj [(''shell_id'', JStr (shell_id s)), (''identity'', identity_to_dict (identity s)),
       (''adapter'', JStr (adapter s)), (''cwd'', JStr (cwd s)),
       (''last_sequence'', JInt (last_sequence s)),
       (''command'', json_option command_to_dict (command s)),
       (''termination'', json_option (\<lambda>t. JStr (TerminationKind_value t)) (termination_kind s))]"

definition shell_from_dict :: "json \<Rightarrow> ShellRecord result" where
  "shell_from_dict value =
     bind_r (as_mapping value ''shell'') (\<lambda>d.
     bind_r (require_exact_keys d [''shell_id'', ''identity'', ''adapter'', ''cwd'',
       ''last_sequence'', ''command'', ''termination''] ''shell'') (\<lambda>_.
     bind_r (field d ''shell_id'' (\<lambda>v. as_bounded_string v ''shell_id'' MAX_ID_CHARS)) (\<lambda>i.
     bind_r (field d ''adapter'' (\<lambda>v. as_bounded_string v ''adapter'' MAX_ID_CHARS)) (\<lambda>a.
     bind_r (field d ''cwd'' (\<lambda>v. as_bounded_string v ''cwd'' MAX_PATH_CHARS)) (\<lambda>w.
     bind_r (field d ''termination''
       (nullable (\<lambda>v. as_enum TerminationKind_value TerminationKind_members v ''termination''))) (\<lambda>t.
     bind_r (field d ''identity'' identity_from_dict) (\<lambda>p.
     bind_r (field d ''last_sequence'' (\<lambda>v. as_integer v ''last_sequence'')) (\<lambda>q.
     bind_r (field d ''command'' (nullable command_from_dict)) (\<lambda>c.
     ShellRecord_init i p a w q c t)))))))))"

definition outcome_to_dict :: "Outcome \<Rightarrow> json" where
  "outcome_to_dict p =
     JObj [(''item_id'', JStr (outcome_item_id p)),
       (''kind'', JStr (OutcomeKind_value (outcome_kind p))),
       (''message'', JStr (outcome_message p))]"

definition outcome_from_dict :: "json \<Rightarrow> Outcome result" where
  "outcome_from_dict value =
     bind_r (as_mapping value ''outcome'') (\<lambda>d.
     bind_r (require_exact_keys d [''item_id'', ''kind'', ''message''] ''outcome'') (\<lambda>_.
     bind_r (field d ''item_id'' (\<lambda>v. as_bounded_string v ''item_id'' MAX_ID_CHARS)) (\<lambda>i.
     bind_r (field d ''message'' (\<lambda>v. as_bounded_string v ''message'' MAX_OUTCOME_MESSAGE_CHARS)) (\<lambda>m.
     bind_r (field d ''kind'' (\<lambda>v. as_enum OutcomeKind_value OutcomeKind_members v ''outcome kind'')) (\<lambda>k.
     Outcome_init i k m)))))"

definition attempt_to_dict :: "RestoreAttempt \<Rightarrow> json" where
  "attempt_to_dict a =
     JObj [(''attempt_id'', JStr (attempt_id a)), (''workspace_id'', JStr (attempt_workspace_id a)),
       (''selected_item_ids'', JArr (map JStr (selected_item_ids a))),
       (''approved_item_ids'', JArr (map JStr (approved_item_ids a))),
       (''outcomes'', JArr (map outcome_to_dict (outcomes a)))]"

definition attempt_from_dict :: "json \<Rightarrow> RestoreAttempt result" where
  "attempt_from_dict value =
     bind_r (as_mapping value ''restore attempt'') (\<lambda>d.
     bind_r (require_exact_keys d [''attempt_id'', ''workspace_id'', ''selected_item_ids'',
       ''approved_item_ids'', ''outcomes''] ''restore attempt'') (\<lambda>_.
     bind_r (field d ''attempt_id'' (\<lambda>v. as_bounded_string v ''attempt_id'' MAX_ID_CHARS)) (\<lambda>i.
     bind_r (field d ''workspace_id'' (\<lambda>v. as_bounded_string v ''workspace_id'' MAX_ID_CHARS)) (\<lambda>w.
     bind_r (field d ''selected_item_ids'' (\<lambda>v. as_sequence v ''selected_item_ids'')) (\<lambda>ss.
     bind_r (field d ''approved_item_ids'' (\<lambda>v. as_sequence v ''approved_item_ids'')) (\<lambda>ps.
     bind_r (field d ''outcomes'' (\<lambda>v. as_sequence v ''outcomes'')) (\<lambda>os.
     bind_r (traverse (\<lambda>v. as_bounded_string v ''selected item ID'' MAX_ID_CHARS) ss) (\<lambda>sel.
     bind_r (traverse (\<lambda>v. as_bounded_string v ''approved item ID'' MAX_ID_CHARS) ps) (\<lambda>app.
     bind_r (traverse outcome_from_dict os) (\<lambda>outs.
     RestoreAttempt_init i w sel app outs))))))))))"

definition recovery_item_to_dict :: "RecoveryItemRecord \<Rightarrow> json" where
  "recovery_item_to_dict r =
     JObj [(''item_id'', JStr (item_id r)), (''shell'', shell_to_dict (item_shell r)),
       (''reason'', JStr (item_reason r))]"

definition recovery_item_from_dict :: "json \<Rightarrow> RecoveryItemRecord result" where
  "recovery_item_from_dict value =
     bind_r (as_mapping value ''recovery item'') (\<lambda>d.
     bind_r (require_exact_keys d [''item_id'', ''shell'', ''reason''] ''recovery item'') (\<lambda>_.
     bind_r (field d ''item_id'' (\<lambda>v. as_bounded_string v ''item_id'' MAX_ID_CHARS)) (\<lambda>i.
     bind_r (field d ''reason'' (\<lambda>v. as_bounded_string v ''reason'' MAX_DIAGNOSTIC_CHARS)) (\<lambda>r.
     bind_r (field d ''shell'' shell_from_dict) (\<lambda>s.
     RecoveryItemRecord_init i s r)))))"

definition snapshot_to_dict :: "Snapshot \<Rightarrow> json result" where
  "snapshot_to_dict s =
     bind_r (require_schema_one (snap_schema_version s)) (\<lambda>_.
     Inr (JObj [(''schema_version'', JInt (snap_schema_version s)),
       (''generation'', JInt (generation s)), (''captured_at'', JFloat (captured_at s)),
       (''shells'', JArr (map shell_to_dict (shells s)))]))"

definition snapshot_from_dict :: "json \<Rightarrow> Snapshot result" where
  "snapshot_from_dict value =
     bind_r (as_mapping value ''snapshot'') (\<lambda>d.
     bind_r (read_schema_version d) (\<lambda>v.
     bind_r (require_exact_keys d [''schema_version'', ''generation'', ''captured_at'', ''shells'']
       ''snapshot'') (\<lambda>_.
     bind_r (field d ''generation'' (\<lambda>v. as_integer v ''generation'')) (\<lambda>g.
     bind_r (field d ''captured_at'' (\<lambda>v. as_number v ''captured_at'')) (\<lambda>t.
     bind_r (field d ''shells'' (\<lambda>v. bind_r (as_sequence v ''shells'') (traverse shell_from_dict))) (\<lambda>ss.
     Snapshot_init v g t ss))))))"

definition recovery_to_dict :: "RecoveryRecord \<Rightarrow> json result" where
  "recovery_to_dict r =
     bind_r (require_schema_one (rec_schema_version r)) (\<lambda>_.
     Inr (JObj [(''schema_version'', JInt (rec_schema_version r)),
       (''workspace_id'', JStr (workspace_id r)),
       (''source_generation'', JInt (source_generation r)),
       (''created_at'', JFloat (created_at r)),
       (''items'', JArr (map recovery_item_to_dict (items r))),
       (''attempts'', JArr (map attempt_to_dict (attempts r))),
       (''completed_item_ids'', JArr (map JStr (completed_item_ids r)))]))"

definition recovery_from_dict :: "json \<Rightarrow> RecoveryRecord result" where
  "recovery_from_dict value =
     bind_r (as_mapping value ''recovery'') (\<lambda>d.
     bind_r (read_schema_version d) (\<lambda>v.
     bind_r (require_exact_keys d [''schema_version'', ''workspace_id'', ''source_generation'',
       ''created_at'', ''items'', ''attempts'', ''completed_item_ids''] ''recovery'') (\<lambda>_.
     bind_r (field d ''workspace_id'' (\<lambda>v. as_bounded_string v ''workspace_id'' MAX_ID_CHARS)) (\<lambda>w.
     bind_r (field d ''items'' (\<lambda>v. as_sequence v ''items'')) (\<lambda>is.
     bind_r (field d ''attempts'' (\<lambda>v. as_sequence v ''attempts'')) (\<lambda>as.
     bind_r (field d ''completed_item_ids'' (\<lambda>v. as_sequence v ''completed_item_ids'')) (\<lambda>cs.
     bind_r (traverse (\<lambda>v. as_bounded_string v ''completed item ID'' MAX_ID_CHARS) cs) (\<lambda>ids.
     bind_r (field d ''source_generation'' (\<lambda>v. as_integer v ''source_generation'')) (\<lambda>g.
     bind_r (field d ''created_at'' (\<lambda>v. as_number v ''created_at'')) (\<lambda>t.
     bind_r (traverse recovery_item_from_dict is) (\<lambda>its.
     bind_r (traverse attempt_from_dict as) (\<lambda>ats.
     RecoveryRecord_init v w g t its ats ids))))))))))))"

section \<open>What the constructors guarantee\<close>

definition wf_identity :: "ProcessIdentity \<Rightarrow> bool" where
  "wf_identity p \<longleftrightarrow> length (boot_id p) \<le> MAX_ID_CHARS \<and> 0 < pid p \<and> 0 \<le> start_time p"

definition wf_command :: "CommandRecord \<Rightarrow> bool" where
  "wf_command c \<longleftrightarrow> 0 \<le> cmd_sequence c \<and> length (display c) \<le> MAX_COMMAND_CHARS \<and>
     (disposition c = REDACTED \<longrightarrow> length (display c) \<le> MAX_DIAGNOSTIC_CHARS) \<and>
     (\<forall>x. executable c = Some x \<longrightarrow> length x \<le> MAX_COMMAND_CHARS) \<and>
     (disposition c = REPLAYABLE \<longrightarrow> active c \<and> executable c \<noteq> None)"

definition wf_shell :: "ShellRecord \<Rightarrow> bool" where
  "wf_shell s \<longleftrightarrow> length (shell_id s) \<le> MAX_ID_CHARS \<and> length (adapter s) \<le> MAX_ID_CHARS \<and>
     length (cwd s) \<le> MAX_PATH_CHARS \<and> 0 \<le> last_sequence s \<and> wf_identity (identity s) \<and>
     pred_option wf_command (command s)"

definition wf_outcome :: "Outcome \<Rightarrow> bool" where
  "wf_outcome p \<longleftrightarrow> length (outcome_item_id p) \<le> MAX_ID_CHARS \<and>
     length (outcome_message p) \<le> MAX_OUTCOME_MESSAGE_CHARS"

definition wf_attempt :: "RestoreAttempt \<Rightarrow> bool" where
  "wf_attempt a \<longleftrightarrow> length (attempt_id a) \<le> MAX_ID_CHARS \<and>
     length (attempt_workspace_id a) \<le> MAX_ID_CHARS \<and>
     length (selected_item_ids a) \<le> MAX_ITEMS \<and> length (approved_item_ids a) \<le> MAX_ITEMS \<and>
     length (outcomes a) \<le> MAX_ITEMS \<and>
     (\<forall>i \<in> set (selected_item_ids a) \<union> set (approved_item_ids a). length i \<le> MAX_ID_CHARS) \<and>
     distinct (selected_item_ids a) \<and> distinct (approved_item_ids a) \<and>
     set (approved_item_ids a) \<subseteq> set (selected_item_ids a) \<and>
     outcome_item_id ` set (outcomes a) \<subseteq> set (selected_item_ids a) \<and>
     distinct (map outcome_item_id (outcomes a)) \<and> (\<forall>p \<in> set (outcomes a). wf_outcome p)"

definition wf_snapshot :: "Snapshot \<Rightarrow> bool" where
  "wf_snapshot s \<longleftrightarrow> snap_schema_version s = SCHEMA_VERSION \<and> 0 \<le> generation s \<and>
     is_finite (captured_at s) \<and> length (shells s) \<le> MAX_ITEMS \<and> (\<forall>x \<in> set (shells s). wf_shell x)"

definition wf_item :: "RecoveryItemRecord \<Rightarrow> bool" where
  "wf_item r \<longleftrightarrow> length (item_id r) \<le> MAX_ID_CHARS \<and> length (item_reason r) \<le> MAX_DIAGNOSTIC_CHARS \<and>
     wf_shell (item_shell r)"

definition wf_recovery :: "RecoveryRecord \<Rightarrow> bool" where
  "wf_recovery r \<longleftrightarrow> rec_schema_version r = SCHEMA_VERSION \<and>
     length (workspace_id r) \<le> MAX_ID_CHARS \<and> 0 \<le> source_generation r \<and> is_finite (created_at r) \<and>
     length (items r) \<le> MAX_ITEMS \<and> length (attempts r) \<le> MAX_ITEMS \<and>
     length (completed_item_ids r) \<le> MAX_ITEMS \<and>
     (\<forall>i \<in> set (completed_item_ids r). length i \<le> MAX_ID_CHARS) \<and>
     distinct (map item_id (items r)) \<and> distinct (map attempt_id (attempts r)) \<and>
     distinct (completed_item_ids r) \<and>
     set (completed_item_ids r) \<subseteq> item_id ` set (items r) \<and>
     (\<forall>a \<in> set (attempts r). attempt_workspace_id a = workspace_id r \<and>
        set (selected_item_ids a) \<subseteq> item_id ` set (items r)) \<and>
     set (completed_item_ids r) \<subseteq> set (terminal_item_ids (attempts r)) \<and>
     (\<forall>x \<in> set (items r). wf_item x) \<and> (\<forall>a \<in> set (attempts r). wf_attempt a)"

lemma ProcessIdentity_init_Inr [decode_simps]:
  "ProcessIdentity_init b p t = Inr r \<longleftrightarrow>
     r = \<lparr>boot_id = b, pid = p, start_time = t\<rparr> \<and> wf_identity r"
  by (auto simp: ProcessIdentity_init_def wf_identity_def)

lemma CommandRecord_init_Inr [decode_simps]:
  "CommandRecord_init q d x k a = Inr r \<longleftrightarrow>
     r = \<lparr>cmd_sequence = q, display = d, executable = x, disposition = k, active = a\<rparr> \<and> wf_command r"
  by (cases k; cases x) (auto simp: CommandRecord_init_def wf_command_def limits)

lemma ShellRecord_check_Inr [decode_simps]:
  "ShellRecord_check s = Inr r \<longleftrightarrow> r = s \<and> length (shell_id s) \<le> MAX_ID_CHARS \<and>
     length (adapter s) \<le> MAX_ID_CHARS \<and> length (cwd s) \<le> MAX_PATH_CHARS \<and> 0 \<le> last_sequence s"
  by (auto simp: ShellRecord_check_def)

lemma Outcome_init_Inr [decode_simps]:
  "Outcome_init i k m = Inr r \<longleftrightarrow>
     r = \<lparr>outcome_item_id = i, outcome_kind = k, outcome_message = m\<rparr> \<and> wf_outcome r"
  by (auto simp: Outcome_init_def wf_outcome_def)

lemma RestoreAttempt_check_Inr [decode_simps]:
  "(\<forall>p \<in> set (outcomes a). wf_outcome p) \<Longrightarrow> RestoreAttempt_check a = Inr r \<longleftrightarrow> r = a \<and> wf_attempt a"
  by (auto simp: RestoreAttempt_check_def wf_attempt_def)

lemma Snapshot_check_Inr [decode_simps]:
  "(\<forall>x \<in> set (shells s). wf_shell x) \<Longrightarrow> Snapshot_check s = Inr r \<longleftrightarrow> r = s \<and> wf_snapshot s"
  by (auto simp: Snapshot_check_def wf_snapshot_def)

lemma RecoveryItemRecord_init_Inr [decode_simps]:
  "wf_shell s \<Longrightarrow> RecoveryItemRecord_init i s t = Inr r \<longleftrightarrow>
     r = \<lparr>item_id = i, item_shell = s, item_reason = t\<rparr> \<and> wf_item r"
  by (auto simp: RecoveryItemRecord_init_def wf_item_def)

lemma attempt_matches_Inr [simp]:
  "attempt_matches w ids a = Inr u \<longleftrightarrow>
     attempt_workspace_id a = w \<and> set (selected_item_ids a) \<subseteq> set ids"
  by (auto simp: attempt_matches_def)

lemma RecoveryRecord_check_Inr [decode_simps]:
  "(\<forall>x \<in> set (items r). wf_item x) \<Longrightarrow> (\<forall>a \<in> set (attempts r). wf_attempt a) \<Longrightarrow>
   RecoveryRecord_check r = Inr r' \<longleftrightarrow> r' = r \<and> wf_recovery r"
  by (simp add: RecoveryRecord_check_def wf_recovery_def) blast

section \<open>The contract of an encoder and its decoder\<close>

text \<open>
  Every persisted type comes with an encoder and a decoder. The contract: decoding what was
  encoded gives the value back, and whatever decodes is well-formed. Lists and optional
  fields inherit it.
\<close>

locale dict_codec =
  fixes enc :: "'a \<Rightarrow> json"
    and dec :: "json \<Rightarrow> 'a result"
    and wf :: "'a \<Rightarrow> bool"
  assumes dec_enc: "wf x \<Longrightarrow> dec (enc x) = Inr x"
    and dec_wf: "dec v = Inr x \<Longrightarrow> wf x"
    and enc_not_null: "enc x \<noteq> JNull"
begin

lemma traverse_dec_enc: "(\<forall>x \<in> set xs. wf x) \<Longrightarrow> traverse dec (map enc xs) = Inr xs"
  by (induction xs) (auto simp: dec_enc)

lemma traverse_dec_wf: "traverse dec vs = Inr xs \<Longrightarrow> \<forall>x \<in> set xs. wf x"
  using traverse_InrD dec_wf by fastforce

lemma nullable_dec_enc: "pred_option wf x \<Longrightarrow> nullable dec (json_option enc x) = Inr x"
  by (cases x) (simp_all add: json_option_def nullable_not_null enc_not_null dec_enc)

lemma nullable_dec_wf: "nullable dec v = Inr x \<Longrightarrow> pred_option wf x"
  by (cases v) (auto simp: nullable_def dest: dec_wf)

lemma canonical: "dec v = Inr x \<Longrightarrow> dec (enc x) = Inr x"
  by (rule dec_enc) (rule dec_wf)

lemma enc_inj: "wf x \<Longrightarrow> wf y \<Longrightarrow> enc x = enc y \<Longrightarrow> x = y"
  by (metis dec_enc sum.inject(2))

end

lemma strings_dec_enc:
  "(\<forall>x \<in> set xs. length x \<le> n) \<Longrightarrow> traverse (\<lambda>v. as_bounded_string v c n) (map JStr xs) = Inr xs"
  by (induction xs) (auto simp: as_Inr)

lemma strings_dec:
  "traverse (\<lambda>v. as_bounded_string v c n) vs = Inr xs \<Longrightarrow> \<forall>x \<in> set xs. length x \<le> n"
  by (induction vs arbitrary: xs) (auto simp: as_Inr)

lemma nullable_string_dec_enc:
  "(\<forall>t. x = Some t \<longrightarrow> length t \<le> n) \<Longrightarrow>
   nullable (\<lambda>v. as_bounded_string v c n) (json_option JStr x) = Inr x"
  by (cases x) (auto simp: nullable_def json_option_def as_Inr)

lemma nullable_enum_dec_enc:
  "str_enum val ms \<Longrightarrow>
   nullable (\<lambda>v. as_enum val ms v c) (json_option (\<lambda>t. JStr (val t)) x) = Inr x"
  by (cases x) (simp_all add: nullable_def json_option_def)

lemmas encoders =
  identity_to_dict_def command_to_dict_def shell_to_dict_def outcome_to_dict_def
  attempt_to_dict_def recovery_item_to_dict_def

interpretation identity_codec: dict_codec identity_to_dict identity_from_dict wf_identity
proof
  show "identity_from_dict (identity_to_dict x) = Inr x" if "wf_identity x" for x
    using that by (simp add: identity_from_dict_def identity_to_dict_def decode_simps dict_keys_def)
      (simp add: wf_identity_def)
  show "wf_identity x" if "identity_from_dict v = Inr x" for v x
    using that by (auto simp: identity_from_dict_def decode_simps)
  show "identity_to_dict x \<noteq> JNull" for x
    by (simp add: encoders)
qed

interpretation command_codec: dict_codec command_to_dict command_from_dict wf_command
proof
  show "command_from_dict (command_to_dict x) = Inr x" if "wf_command x" for x
  proof -
    have "nullable (\<lambda>v. as_bounded_string v ''executable'' MAX_COMMAND_CHARS)
        (json_option JStr (executable x)) = Inr (executable x)"
      using that by (intro nullable_string_dec_enc) (simp add: wf_command_def)
    with that show ?thesis
      by (simp add: command_from_dict_def command_to_dict_def decode_simps dict_keys_def
          disposition_enum.str_enum_axioms disposition_enum.val_short MAX_ID_CHARS_def)
         (simp add: wf_command_def)
  qed
  show "wf_command x" if "command_from_dict v = Inr x" for v x
    using that by (auto simp: command_from_dict_def decode_simps)
  show "command_to_dict x \<noteq> JNull" for x
    by (simp add: encoders)
qed

interpretation shell_codec: dict_codec shell_to_dict shell_from_dict wf_shell
proof
  show "shell_from_dict (shell_to_dict x) = Inr x" if "wf_shell x" for x
    using that
    by (simp add: shell_from_dict_def shell_to_dict_def decode_simps dict_keys_def ShellRecord_init_def
        identity_codec.dec_enc command_codec.nullable_dec_enc nullable_enum_dec_enc
        termination_enum.str_enum_axioms wf_shell_def)
  show "wf_shell x" if "shell_from_dict v = Inr x" for v x
    using that
    by (clarsimp simp: shell_from_dict_def field_Inr ShellRecord_init_def ShellRecord_check_Inr
        wf_shell_def) (blast dest: identity_codec.dec_wf command_codec.nullable_dec_wf)
  show "shell_to_dict x \<noteq> JNull" for x
    by (simp add: encoders)
qed

interpretation outcome_codec: dict_codec outcome_to_dict outcome_from_dict wf_outcome
proof
  show "outcome_from_dict (outcome_to_dict x) = Inr x" if "wf_outcome x" for x
    using that
    by (simp add: outcome_from_dict_def outcome_to_dict_def decode_simps dict_keys_def
        outcome_enum.str_enum_axioms) (simp add: wf_outcome_def)
  show "wf_outcome x" if "outcome_from_dict v = Inr x" for v x
    using that by (auto simp: outcome_from_dict_def decode_simps)
  show "outcome_to_dict x \<noteq> JNull" for x
    by (simp add: encoders)
qed

interpretation attempt_codec: dict_codec attempt_to_dict attempt_from_dict wf_attempt
proof
  show "attempt_from_dict (attempt_to_dict x) = Inr x" if "wf_attempt x" for x
  proof -
    have "RestoreAttempt_check x = Inr x"
      using that by (subst RestoreAttempt_check_Inr) (auto simp: wf_attempt_def)
    with that show ?thesis
      by (simp add: attempt_from_dict_def attempt_to_dict_def decode_simps dict_keys_def
          RestoreAttempt_init_def strings_dec_enc outcome_codec.traverse_dec_enc wf_attempt_def)
  qed
  show "wf_attempt x" if "attempt_from_dict v = Inr x" for v x
    using that
    by (clarsimp simp: attempt_from_dict_def RestoreAttempt_init_def)
      (drule outcome_codec.traverse_dec_wf, simp add: RestoreAttempt_check_Inr)
  show "attempt_to_dict x \<noteq> JNull" for x
    by (simp add: encoders)
qed

interpretation item_codec: dict_codec recovery_item_to_dict recovery_item_from_dict wf_item
proof
  show "recovery_item_from_dict (recovery_item_to_dict x) = Inr x" if "wf_item x" for x
    using that
    by (simp add: recovery_item_from_dict_def recovery_item_to_dict_def decode_simps dict_keys_def
        RecoveryItemRecord_init_def shell_codec.dec_enc wf_item_def)
  show "wf_item x" if "recovery_item_from_dict v = Inr x" for v x
    using that
    by (clarsimp simp: recovery_item_from_dict_def field_Inr)
      (drule shell_codec.dec_wf, clarsimp simp: RecoveryItemRecord_init_Inr)
  show "recovery_item_to_dict x \<noteq> JNull" for x
    by (simp add: encoders)
qed

lemma snapshot_to_dict_wf: "wf_snapshot s \<Longrightarrow> \<exists>v. snapshot_to_dict s = Inr v"
  by (simp add: snapshot_to_dict_def wf_snapshot_def)

lemma recovery_to_dict_wf: "wf_recovery r \<Longrightarrow> \<exists>v. recovery_to_dict r = Inr v"
  by (simp add: recovery_to_dict_def wf_recovery_def)

lemma snapshot_dec_enc:
  assumes "wf_snapshot s" and "snapshot_to_dict s = Inr v"
  shows "snapshot_from_dict v = Inr s"
proof -
  have "Snapshot_check s = Inr s"
    using assms(1) by (subst Snapshot_check_Inr) (auto simp: wf_snapshot_def)
  with assms show ?thesis
    by (auto simp: snapshot_from_dict_def snapshot_to_dict_def decode_simps dict_keys_def
        read_schema_version_def dict_get_def Snapshot_init_def shell_codec.traverse_dec_enc
        wf_snapshot_def)
qed

lemma snapshot_dec_wf: "snapshot_from_dict v = Inr s \<Longrightarrow> wf_snapshot s"
  by (auto simp: snapshot_from_dict_def Snapshot_init_def field_Inr
      dest!: shell_codec.traverse_dec_wf simp: Snapshot_check_Inr)

lemma recovery_dec_enc:
  assumes "wf_recovery r" and "recovery_to_dict r = Inr v"
  shows "recovery_from_dict v = Inr r"
proof -
  have "RecoveryRecord_check r = Inr r"
    using assms(1) by (subst RecoveryRecord_check_Inr) (auto simp: wf_recovery_def)
  with assms show ?thesis
    by (auto simp: recovery_from_dict_def recovery_to_dict_def decode_simps dict_keys_def
        read_schema_version_def dict_get_def RecoveryRecord_init_def strings_dec_enc
        item_codec.traverse_dec_enc attempt_codec.traverse_dec_enc wf_recovery_def)
qed

lemma recovery_dec_wf: "recovery_from_dict v = Inr r \<Longrightarrow> wf_recovery r"
  by (auto simp: recovery_from_dict_def RecoveryRecord_init_def field_Inr
      dest!: item_codec.traverse_dec_wf attempt_codec.traverse_dec_wf simp: RecoveryRecord_check_Inr)

section \<open>Properties of the persisted model\<close>

text \<open>Encoding a well-formed snapshot succeeds and decoding the result gives the same snapshot back.\<close>

theorem snapshot_roundtrip:
  assumes "wf_snapshot s"
  shows "bind_r (snapshot_to_dict s) snapshot_from_dict = Inr s"
proof -
  from assms obtain v where "snapshot_to_dict s = Inr v" using snapshot_to_dict_wf by blast
  with assms show ?thesis by (simp add: snapshot_dec_enc)
qed

definition sample_identity :: ProcessIdentity where
  "sample_identity = \<lparr>boot_id = ''b'', pid = 7, start_time = 3\<rparr>"

definition sample_command :: CommandRecord where
  "sample_command = \<lparr>cmd_sequence = 2, display = ''htop'', executable = None,
     disposition = UNSAFE, active = True\<rparr>"

definition sample_shell :: ShellRecord where
  "sample_shell = \<lparr>shell_id = ''s1'', identity = sample_identity, adapter = ''kitty'', cwd = ''/a'',
     last_sequence = 4, command = Some sample_command, termination_kind = Some AMBIGUOUS\<rparr>"

definition sample_snapshot :: Snapshot where
  "sample_snapshot = \<lparr>snap_schema_version = 1, generation = 5, captured_at = Finite (3 / 2),
     shells = [sample_shell]\<rparr>"

lemmas samples = sample_identity_def sample_command_def sample_shell_def sample_snapshot_def

lemma sample_snapshot_wf: "wf_snapshot sample_snapshot"
  by (simp add: samples wf_snapshot_def wf_shell_def wf_identity_def wf_command_def limits)

theorem snapshot_roundtrip_witness:
  "wf_snapshot sample_snapshot \<and>
   bind_r (snapshot_to_dict sample_snapshot) snapshot_from_dict = Inr sample_snapshot"
  using snapshot_roundtrip [OF sample_snapshot_wf] sample_snapshot_wf by simp

text \<open>C22: encoding a well-formed recovery record succeeds and decoding the result gives the same record back.\<close>

theorem recovery_roundtrip:
  assumes "wf_recovery r"
  shows "bind_r (recovery_to_dict r) recovery_from_dict = Inr r"
proof -
  from assms obtain v where "recovery_to_dict r = Inr v" using recovery_to_dict_wf by blast
  with assms show ?thesis by (simp add: recovery_dec_enc)
qed

definition sample_recovery :: RecoveryRecord where
  "sample_recovery = \<lparr>rec_schema_version = 1, workspace_id = ''w'', source_generation = 5,
     created_at = Finite 2,
     items = [\<lparr>item_id = ''s1'', item_shell = sample_shell, item_reason = ''previous_boot''\<rparr>],
     attempts = [\<lparr>attempt_id = ''a1'', attempt_workspace_id = ''w'', selected_item_ids = [''s1''],
       approved_item_ids = [''s1''],
       outcomes = [\<lparr>outcome_item_id = ''s1'', outcome_kind = SUCCESS, outcome_message = ''ok''\<rparr>]\<rparr>],
     completed_item_ids = [''s1'']\<rparr>"

lemma sample_recovery_wf: "wf_recovery sample_recovery"
  by (simp add: sample_recovery_def samples wf_recovery_def wf_item_def wf_attempt_def wf_outcome_def
      wf_shell_def wf_identity_def wf_command_def terminal_item_ids_def limits)

theorem recovery_roundtrip_witness:
  "wf_recovery sample_recovery \<and>
   bind_r (recovery_to_dict sample_recovery) recovery_from_dict = Inr sample_recovery"
  using recovery_roundtrip [OF sample_recovery_wf] sample_recovery_wf by simp

text \<open>Whatever the recovery decoder accepts satisfies every invariant of a recovery record: item,
  attempt and completed identifiers are unique and bounded, attempts select and approve known
  items only, and each completed item has a successful or warned outcome in some attempt.\<close>

theorem recovery_from_dict_sound:
  assumes "recovery_from_dict v = Inr r"
  shows "wf_recovery r \<and>
    (\<forall>i \<in> set (completed_item_ids r). \<exists>a \<in> set (attempts r). \<exists>p \<in> set (outcomes a).
       outcome_item_id p = i \<and> outcome_kind p \<in> {SUCCESS, WARNING})"
proof
  show wf: "wf_recovery r" using assms by (rule recovery_dec_wf)
  show "\<forall>i \<in> set (completed_item_ids r). \<exists>a \<in> set (attempts r). \<exists>p \<in> set (outcomes a).
      outcome_item_id p = i \<and> outcome_kind p \<in> {SUCCESS, WARNING}"
  proof
    fix i assume "i \<in> set (completed_item_ids r)"
    with wf have "i \<in> set (terminal_item_ids (attempts r))" by (auto simp: wf_recovery_def)
    then show "\<exists>a \<in> set (attempts r). \<exists>p \<in> set (outcomes a).
        outcome_item_id p = i \<and> outcome_kind p \<in> {SUCCESS, WARNING}"
      by (auto simp: terminal_item_ids_def)
  qed
qed

lemma sample_recovery_decodes:
  "recovery_from_dict (projr (recovery_to_dict sample_recovery)) = Inr sample_recovery"
  using recovery_to_dict_wf [OF sample_recovery_wf] recovery_dec_enc [OF sample_recovery_wf] by auto

theorem recovery_from_dict_sound_witness:
  "\<exists>a \<in> set (attempts sample_recovery). \<exists>p \<in> set (outcomes a).
     outcome_item_id p = ''s1'' \<and> outcome_kind p \<in> {SUCCESS, WARNING}"
  using recovery_from_dict_sound [OF sample_recovery_decodes] by (simp add: sample_recovery_def)

text \<open>The snapshot decoder is strict: an object whose keys are not exactly the four of the schema,
  or whose schema version is not the integer 1, is rejected with a \<^verbatim>\<open>ValueError\<close>.\<close>

theorem snapshot_from_dict_strict:
  assumes "set (dict_keys d) \<noteq> {''schema_version'', ''generation'', ''captured_at'', ''shells''} \<or>
    dict_get d ''schema_version'' \<noteq> Some (JInt 1)"
  shows "\<exists>e. snapshot_from_dict (JObj d) = Inl e \<and> is_ValueError e"
proof (cases "read_schema_version d")
  case (Inl e)
  then have "is_ValueError e"
    by (auto simp: read_schema_version_def as_integer_def bind_r_eq_Inl require_schema_one_def
        split: option.splits json.splits)
  with Inl show ?thesis by (simp add: snapshot_from_dict_def as_mapping_def)
next
  case (Inr v)
  then have "dict_get d ''schema_version'' = Some (JInt 1)"
    by (auto simp: read_schema_version_def decode_simps SCHEMA_VERSION_def split: option.splits)
  with assms have "set (dict_keys d) \<noteq> set [''schema_version'', ''generation'', ''captured_at'', ''shells'']"
    by simp
  then obtain e where "require_exact_keys d [''schema_version'', ''generation'', ''captured_at'', ''shells'']
      ''snapshot'' = Inl e \<and> is_ValueError e"
    using require_exact_keys_Inl by blast
  with Inr show ?thesis by (simp add: snapshot_from_dict_def as_mapping_def)
qed

theorem snapshot_from_dict_strict_witness:
  "\<exists>e. snapshot_from_dict (JObj [(''schema_version'', JInt 2)]) = Inl e \<and> is_ValueError e"
  by (rule snapshot_from_dict_strict) (simp add: dict_get_def)

end
