(* ===== verification/Text_Tools.thy ===== *)
theory Text_Tools
  imports Prelude
begin

text \<open>
  The text processing of the standard library that the classifier rests on, for text in the code
  points U+0000 to U+00FF: \<^verbatim>\<open>str.lower\<close>, \<^verbatim>\<open>str.strip\<close>, the matching of the \<^verbatim>\<open>re\<close> module,
  \<^verbatim>\<open>shlex.split(s, posix=True)\<close> and \<^verbatim>\<open>PurePosixPath(s).name\<close>.
\<close>

section \<open>Character classes\<close>

definition code :: "char \<Rightarrow> nat" where
  "code c = of_char c"

definition is_space :: "char \<Rightarrow> bool" where
  "is_space c \<longleftrightarrow> (9 \<le> code c \<and> code c \<le> 13) \<or> (28 \<le> code c \<and> code c \<le> 32) \<or> code c = 133 \<or> code c = 160"

definition is_digit :: "char \<Rightarrow> bool" where
  "is_digit c \<longleftrightarrow> 48 \<le> code c \<and> code c \<le> 57"

definition is_upper :: "char \<Rightarrow> bool" where
  "is_upper c \<longleftrightarrow> 65 \<le> code c \<and> code c \<le> 90"

definition is_lower :: "char \<Rightarrow> bool" where
  "is_lower c \<longleftrightarrow> 97 \<le> code c \<and> code c \<le> 122"

definition is_letter :: "char \<Rightarrow> bool" where
  "is_letter c \<longleftrightarrow> is_upper c \<or> is_lower c"

text \<open>\<open>\w\<close>: the alphanumeric code points and the underscore.\<close>

definition is_word :: "char \<Rightarrow> bool" where
  "is_word c \<longleftrightarrow> is_letter c \<or> is_digit c \<or> c = CHR ''_'' \<or>
     code c \<in> {170, 178, 179, 181, 185, 186, 188, 189, 190} \<or>
     (192 \<le> code c \<and> code c \<noteq> 215 \<and> code c \<noteq> 247)"

definition lower_char :: "char \<Rightarrow> char" where
  "lower_char c =
     (if is_upper c \<or> (192 \<le> code c \<and> code c \<le> 222 \<and> code c \<noteq> 215) then char_of (code c + 32) else c)"

definition lower :: "string \<Rightarrow> string" where
  "lower s = map lower_char s"

definition strip :: "string \<Rightarrow> string" where
  "strip s = rev (dropWhile is_space (rev (dropWhile is_space s)))"

text \<open>Code equations on the bits of a character, so that evaluation needs no arithmetic.\<close>

lemma is_upper_code [code]:
  "is_upper (Char b0 b1 b2 b3 b4 b5 b6 b7) \<longleftrightarrow>
     b6 \<and> \<not> b7 \<and> \<not> b5 \<and> (b0 \<or> b1 \<or> b2 \<or> b3 \<or> b4) \<and> \<not> (b4 \<and> b3 \<and> (b2 \<or> (b1 \<and> b0)))"
  by (cases b7; cases b6; cases b5; cases b4; cases b3; cases b2; cases b1; cases b0;
      simp add: is_upper_def code_def)

lemma is_lower_code [code]:
  "is_lower (Char b0 b1 b2 b3 b4 b5 b6 b7) \<longleftrightarrow>
     b6 \<and> \<not> b7 \<and> b5 \<and> (b0 \<or> b1 \<or> b2 \<or> b3 \<or> b4) \<and> \<not> (b4 \<and> b3 \<and> (b2 \<or> (b1 \<and> b0)))"
  by (cases b7; cases b6; cases b5; cases b4; cases b3; cases b2; cases b1; cases b0;
      simp add: is_lower_def code_def)

lemma is_digit_code [code]:
  "is_digit (Char b0 b1 b2 b3 b4 b5 b6 b7) \<longleftrightarrow>
     b5 \<and> b4 \<and> \<not> b7 \<and> \<not> b6 \<and> (b3 \<longrightarrow> \<not> b2 \<and> \<not> b1)"
  by (cases b7; cases b6; cases b5; cases b4; cases b3; cases b2; cases b1; cases b0;
      simp add: is_digit_def code_def)

lemma is_space_code [code]:
  "is_space (Char b0 b1 b2 b3 b4 b5 b6 b7) \<longleftrightarrow>
     (if b7 then (if b5 then \<not> b6 \<and> \<not> b4 \<and> \<not> b3 \<and> \<not> b2 \<and> \<not> b1 \<and> \<not> b0
                  else \<not> b6 \<and> \<not> b4 \<and> \<not> b3 \<and> b2 \<and> \<not> b1 \<and> b0)
      else \<not> b6 \<and> (if b5 then \<not> b4 \<and> \<not> b3 \<and> \<not> b2 \<and> \<not> b1 \<and> \<not> b0
                   else b3 \<and> (if b4 then b2 else (b2 \<longrightarrow> \<not> b1) \<and> (b0 \<or> b1 \<or> b2))))"
  by (cases b7; cases b6; cases b5; cases b4; cases b3; cases b2; cases b1; cases b0;
      simp add: is_space_def code_def)

lemma char_of_plus_32:
  "char_of (code (Char b0 b1 b2 b3 b4 False b6 b7) + 32) = Char b0 b1 b2 b3 b4 True b6 b7"
proof -
  have "code (Char b0 b1 b2 b3 b4 False b6 b7) + 32 = code (Char b0 b1 b2 b3 b4 True b6 b7)"
    by (cases b7; cases b6; cases b4; cases b3; cases b2; cases b1; cases b0; simp add: code_def)
  then show ?thesis by (simp only: code_def char_of_char)
qed

lemma latin_capital:
  "192 \<le> code (Char b0 b1 b2 b3 b4 b5 b6 b7) \<and> code (Char b0 b1 b2 b3 b4 b5 b6 b7) \<le> 222 \<and>
     code (Char b0 b1 b2 b3 b4 b5 b6 b7) \<noteq> 215 \<longleftrightarrow> b7 \<and> b6 \<and> \<not> b5 \<and> \<not> (b4 \<and> b2 \<and> b1 \<and> b0)"
  by (cases b7; cases b6; cases b5; cases b4; cases b3; cases b2; cases b1; cases b0;
      simp add: code_def)

lemma lower_char_code [code]:
  "lower_char (Char b0 b1 b2 b3 b4 b5 b6 b7) =
     (if is_upper (Char b0 b1 b2 b3 b4 b5 b6 b7) \<or> (b7 \<and> b6 \<and> \<not> b5 \<and> \<not> (b4 \<and> b2 \<and> b1 \<and> b0))
      then Char b0 b1 b2 b3 b4 True b6 b7 else Char b0 b1 b2 b3 b4 b5 b6 b7)"
  unfolding lower_char_def latin_capital is_upper_code
  by (cases b5) (auto simp: char_of_plus_32)

section \<open>Regular expressions\<close>

text \<open>
  \<open>rests r s\<close> lists what can be left of \<open>s\<close> after a match of \<open>r\<close> at its start. Whether a search
  succeeds does not depend on the order in which the matcher tries the alternatives.
\<close>

datatype rx = Eps | Cls "char \<Rightarrow> bool" | Cat rx rx | Alt rx rx | Star rx

function rests :: "rx \<Rightarrow> string \<Rightarrow> string list" where
  "rests Eps s = [s]"
| "rests (Cls p) s = (case s of [] \<Rightarrow> [] | c # t \<Rightarrow> if p c then [t] else [])"
| "rests (Cat r q) s = concat (map (rests q) (rests r s))"
| "rests (Alt r q) s = rests r s @ rests q s"
| "rests (Star r) s =
     s # concat (map (\<lambda>t. if length t < length s then rests (Star r) t else []) (rests r s))"
  by pat_completeness auto
termination
  by (relation "measures [\<lambda>(r, s). size r, \<lambda>(r, s). length s]") auto

fun search :: "rx \<Rightarrow> string \<Rightarrow> bool" where
  "search r [] = (rests r [] \<noteq> [])"
| "search r (c # s) = (rests r (c # s) \<noteq> [] \<or> search r s)"

definition fullmatch :: "rx \<Rightarrow> string \<Rightarrow> bool" where
  "fullmatch r s \<longleftrightarrow> [] \<in> set (rests r s)"

definition rx_ch :: "char \<Rightarrow> rx" where "rx_ch c = Cls (\<lambda>x. x = c)"
definition rx_plus :: "rx \<Rightarrow> rx" where "rx_plus r = Cat r (Star r)"
definition rx_opt :: "rx \<Rightarrow> rx" where "rx_opt r = Alt r Eps"
definition rx_space :: rx where "rx_space = Cls is_space"

primrec rx_rep :: "nat \<Rightarrow> rx \<Rightarrow> rx" where
  "rx_rep 0 r = Eps"
| "rx_rep (Suc n) r = Cat r (rx_rep n r)"

primrec rx_seq :: "rx list \<Rightarrow> rx" where
  "rx_seq [] = Eps"
| "rx_seq (r # rs) = Cat r (rx_seq rs)"

fun rx_alt :: "rx list \<Rightarrow> rx" where
  "rx_alt [] = Cls (\<lambda>_. False)"
| "rx_alt [r] = r"
| "rx_alt (r # rs) = Alt r (rx_alt rs)"

text \<open>A literal, and a literal under \<^verbatim>\<open>re.IGNORECASE\<close> (given in lower case).\<close>

definition rx_str :: "string \<Rightarrow> rx" where
  "rx_str s = rx_seq (map rx_ch s)"

definition rx_istr :: "string \<Rightarrow> rx" where
  "rx_istr s = rx_seq (map (\<lambda>c. Cls (\<lambda>x. lower_char x = c)) s)"

declare rests.simps(5) [simp del]

lemma rests_Star_iff:
  "t \<in> set (rests (Star r) s) \<longleftrightarrow>
     t = s \<or> (\<exists>m \<in> set (rests r s). length m < length s \<and> t \<in> set (rests (Star r) m))"
  by (subst rests.simps(5)) auto

lemma rests_suffix: "t \<in> set (rests r s) \<Longrightarrow> \<exists>u. s = u @ t"
proof (induction r s arbitrary: t rule: rests.induct)
  case (3 r q s)
  then obtain m where m: "m \<in> set (rests r s)" and "t \<in> set (rests q m)" by auto
  with "3.IH"(1) [OF m] "3.IH"(2) [OF m] show ?case by fastforce
next
  case (5 r s)
  show ?case
  proof (cases "t = s")
    case False
    with "5.prems" obtain m where m: "m \<in> set (rests r s)" "length m < length s"
      and "t \<in> set (rests (Star r) m)" by (subst (asm) rests_Star_iff) blast
    with "5.IH"(1) [OF m(1)] "5.IH"(2) [OF m] show ?thesis by fastforce
  qed simp
qed (auto split: list.splits if_splits)

lemma search_iff: "search r s \<longleftrightarrow> (\<exists>a b. s = a @ b \<and> rests r b \<noteq> [])"
proof (induction s)
  case (Cons c s)
  have "(\<exists>a b. c # s = a @ b \<and> rests r b \<noteq> []) \<longleftrightarrow>
        rests r (c # s) \<noteq> [] \<or> (\<exists>a b. s = a @ b \<and> rests r b \<noteq> [])"
    by (auto simp: Cons_eq_append_conv)
  with Cons.IH show ?case by simp
qed simp

lemma rests_rx_str: "rests (rx_str p) s = (if startswith s p then [drop (length p) s] else [])"
  by (induction p arbitrary: s)
     (auto simp: rx_str_def rx_ch_def startswith_def split: list.splits)

lemma rests_rx_istr:
  "rests (rx_istr p) (h @ t) = [t]" if "lower h = p"
  using that
proof (induction h arbitrary: p)
  case Nil
  then show ?case by (simp add: rx_istr_def lower_def)
next
  case (Cons c h)
  then obtain q where "p = lower_char c # q" "lower h = q" by (auto simp: lower_def)
  with Cons.IH [of q] show ?case by (simp add: rx_istr_def)
qed

lemma rests_Star_Cls:
  assumes "\<forall>c \<in> set u. p c"
  shows "t \<in> set (rests (Star (Cls p)) (u @ t))"
  using assms
proof (induction u)
  case Nil
  then show ?case by (subst rests_Star_iff) simp
next
  case (Cons c u)
  then show ?case by (subst rests_Star_iff) auto
qed

lemma rests_CatI: "m \<in> set (rests r s) \<Longrightarrow> t \<in> set (rests q m) \<Longrightarrow> t \<in> set (rests (Cat r q) s)"
  by auto

lemma searchI: "t \<in> set (rests r b) \<Longrightarrow> search r (a @ b)"
  unfolding search_iff by (metis empty_iff list.set(1))

section \<open>\<^verbatim>\<open>shlex.split\<close> in POSIX mode\<close>

text \<open>
  The lexer's state between two characters: reading blanks (\<open>Blank\<close>), inside a word
  (\<open>InWord\<close>), inside quotes, or after a backslash, remembering where to return to. The
  token read so far is kept in reverse, with the flag of a token that had quotes.
\<close>

datatype shlex_state = Blank | InWord | InSingle | InDouble | EscWord | EscDouble

definition shlex_blank :: "char \<Rightarrow> bool" where
  "shlex_blank c \<longleftrightarrow> c = CHR '' '' \<or> code c = 9 \<or> code c = 13 \<or> code c = 10"

definition emit :: "string \<Rightarrow> bool \<Rightarrow> string list" where
  "emit token quoted = (if token \<noteq> [] \<or> quoted then [rev token] else [])"

definition prepend :: "string list \<Rightarrow> string list result \<Rightarrow> string list result" where
  "prepend ts r = bind_r r (\<lambda>us. Inr (ts @ us))"

fun shlex_run :: "shlex_state \<Rightarrow> string \<Rightarrow> bool \<Rightarrow> string \<Rightarrow> string list result" where
  "shlex_run Blank token quoted [] = Inr (emit token quoted)"
| "shlex_run InWord token quoted [] = Inr (emit token quoted)"
| "shlex_run InSingle token quoted [] = Inl (ValueError ''No closing quotation'')"
| "shlex_run InDouble token quoted [] = Inl (ValueError ''No closing quotation'')"
| "shlex_run EscWord token quoted [] = Inl (ValueError ''No escaped character'')"
| "shlex_run EscDouble token quoted [] = Inl (ValueError ''No escaped character'')"
| "shlex_run Blank token quoted (c # s) =
     (if shlex_blank c then
        (if token \<noteq> [] \<or> quoted then prepend (emit token quoted) (shlex_run Blank [] False s)
         else shlex_run Blank token quoted s)
      else if code c = 92 then shlex_run EscWord token quoted s
      else if code c = 39 then shlex_run InSingle token quoted s
      else if code c = 34 then shlex_run InDouble token quoted s
      else shlex_run InWord [c] quoted s)"
| "shlex_run InWord token quoted (c # s) =
     (if shlex_blank c then
        (if token \<noteq> [] \<or> quoted then prepend (emit token quoted) (shlex_run Blank [] False s)
         else shlex_run Blank token quoted s)
      else if code c = 39 then shlex_run InSingle token quoted s
      else if code c = 34 then shlex_run InDouble token quoted s
      else if code c = 92 then shlex_run EscWord token quoted s
      else shlex_run InWord (c # token) quoted s)"
| "shlex_run InSingle token quoted (c # s) =
     (if code c = 39 then shlex_run InWord token True s else shlex_run InSingle (c # token) True s)"
| "shlex_run InDouble token quoted (c # s) =
     (if code c = 34 then shlex_run InWord token True s
      else if code c = 92 then shlex_run EscDouble token True s
      else shlex_run InDouble (c # token) True s)"
| "shlex_run EscWord token quoted (c # s) = shlex_run InWord (c # token) quoted s"
| "shlex_run EscDouble token quoted (c # s) =
     (if code c \<noteq> 92 \<and> code c \<noteq> 34 then shlex_run InDouble (c # CHR 0x5C # token) quoted s
      else shlex_run InDouble (c # token) quoted s)"

definition shlex_split :: "string \<Rightarrow> string list result" where
  "shlex_split s = shlex_run Blank [] False s"

section \<open>Path names\<close>

fun split_on :: "char \<Rightarrow> string \<Rightarrow> string list" where
  "split_on d [] = [[]]"
| "split_on d (c # s) =
     (if c = d then [] # split_on d s
      else case split_on d s of [] \<Rightarrow> [[c]] | w # ws \<Rightarrow> (c # w) # ws)"

text \<open>The components of a pure POSIX path: empty ones and single dots are dropped.\<close>

definition path_parts :: "string \<Rightarrow> string list" where
  "path_parts s = filter (\<lambda>w. w \<noteq> [] \<and> w \<noteq> ''.'') (split_on CHR ''/'' s)"

definition path_name :: "string \<Rightarrow> string" where
  "path_name s = (case path_parts s of [] \<Rightarrow> [] | w # ws \<Rightarrow> last (w # ws))"

end
