(* ===== verification/Classifier.thy ===== *)
theory Classifier
  imports Model Text_Tools
begin

text \<open>
  \<^verbatim>\<open>classifier.py\<close>: the policy that decides which captured command lines may be replayed. A command
  is redacted when it looks like it carries a credential, unrepresentable when it is not one simple
  command, unsafe when its program is on a deny list, and replayable otherwise.
\<close>

section \<open>The patterns\<close>

definition SECRET_VALUE :: rx where
  "SECRET_VALUE = rx_alt
     [rx_seq [rx_ch CHR 0x27, rx_plus (Cls (\<lambda>c. c \<noteq> CHR 0x27)), rx_ch CHR 0x27],
      rx_seq [rx_ch CHR 0x22, rx_plus (Cls (\<lambda>c. c \<noteq> CHR 0x22)), rx_ch CHR 0x22],
      rx_plus (Cls (\<lambda>c. \<not> is_space c \<and> c \<noteq> CHR 0x27 \<and> c \<noteq> CHR 0x22 \<and> c \<noteq> CHR '';''))]"

definition dash_or_underscore :: rx where
  "dash_or_underscore = rx_opt (Cls (\<lambda>c. c = CHR ''_'' \<or> c = CHR ''-''))"

definition CREDENTIAL_NAME :: rx where
  "CREDENTIAL_NAME = Cat (rx_opt (rx_istr ''aws_'')) (rx_alt
     [rx_seq [rx_istr ''secret'', rx_opt (rx_istr ''_access''), rx_istr ''_key''],
      rx_istr ''access_key'',
      rx_seq [rx_istr ''api'', dash_or_underscore, Alt (rx_istr ''key'') (rx_istr ''token'')],
      rx_seq [rx_istr ''auth'', dash_or_underscore, rx_istr ''token''],
      rx_istr ''password'', rx_istr ''passwd'', rx_istr ''pwd'', rx_istr ''token''])"

definition option_dashes :: rx where
  "option_dashes = rx_opt (Cat (rx_ch CHR ''-'') (rx_opt (rx_ch CHR ''-'')))"

definition QUOTE_NORMALIZED_CREDENTIAL_NAME :: rx where
  "QUOTE_NORMALIZED_CREDENTIAL_NAME = rx_alt
     [rx_seq [rx_ch CHR 0x27, CREDENTIAL_NAME, rx_ch CHR 0x27],
      rx_seq [rx_ch CHR 0x22, CREDENTIAL_NAME, rx_ch CHR 0x22],
      Cat option_dashes CREDENTIAL_NAME]"

definition CREDENTIAL_RE :: rx where
  "CREDENTIAL_RE = rx_seq [QUOTE_NORMALIZED_CREDENTIAL_NAME, Star rx_space,
     Alt (Cat (Cls (\<lambda>c. c = CHR ''='' \<or> c = CHR '':'')) (Star rx_space)) (rx_plus rx_space),
     SECRET_VALUE]"

definition AUTHORIZATION_RE :: rx where
  "AUTHORIZATION_RE = rx_seq [rx_istr ''authorization'', Star rx_space, rx_ch CHR '':'', Star rx_space,
     rx_plus (Cls (\<lambda>c. \<not> is_space c \<and> c \<noteq> CHR 0x27 \<and> c \<noteq> CHR 0x22))]"

definition not_name_char :: "char \<Rightarrow> bool" where
  "not_name_char c \<longleftrightarrow> \<not> (is_letter c \<or> is_digit c \<or> c = CHR ''_'')"

text \<open>
  The fragment pattern is bracketed by the start of the text or a character that is in no name, and
  by the end of the text or such a character.
\<close>

definition credential_fragment_search :: "string \<Rightarrow> bool" where
  "credential_fragment_search s \<longleftrightarrow>
     rests (rx_seq [option_dashes, CREDENTIAL_NAME, Cls not_name_char]) s \<noteq> [] \<or>
     fullmatch (rx_seq [option_dashes, CREDENTIAL_NAME]) s \<or>
     search (rx_seq [Cls not_name_char, option_dashes, CREDENTIAL_NAME, Cls not_name_char]) s \<or>
     (\<exists>i < length s. fullmatch (rx_seq [Cls not_name_char, option_dashes, CREDENTIAL_NAME]) (drop i s))"

definition key_separator :: rx where
  "key_separator = rx_plus (Cls (\<lambda>c. is_space c \<or> c = CHR ''_'' \<or> c = CHR ''-''))"

definition PRIVATE_KEY_RE :: rx where
  "PRIVATE_KEY_RE = Alt
     (rx_seq [rx_str ''-----'', Star rx_space, rx_istr ''begin'', key_separator,
        rx_opt (Cat (rx_plus (Cls (\<lambda>c. is_letter c \<or> is_digit c))) key_separator),
        rx_istr ''private'', key_separator, rx_istr ''key'', Star rx_space, rx_str ''-----''])
     (rx_istr ''begin_private_key'')"

definition upper_or_digit :: "char \<Rightarrow> bool" where
  "upper_or_digit c \<longleftrightarrow> is_upper c \<or> is_digit c"

text \<open>The access key pattern, with its look-behind and look-ahead.\<close>

fun aws_access_key_search :: "char option \<Rightarrow> string \<Rightarrow> bool" where
  "aws_access_key_search before [] = False"
| "aws_access_key_search before (c # s) =
     ((\<not> (case before of None \<Rightarrow> False | Some b \<Rightarrow> upper_or_digit b) \<and>
       list_ex (\<lambda>t. case t of [] \<Rightarrow> True | a # _ \<Rightarrow> \<not> upper_or_digit a)
         (rests (Cat (Alt (rx_str ''AKIA'') (rx_str ''ASIA'')) (rx_rep 16 (Cls upper_or_digit))) (c # s)))
      \<or> aws_access_key_search (Some c) s)"

definition CREDENTIAL_URL_RE :: rx where
  "CREDENTIAL_URL_RE = rx_seq [Cls is_letter,
     Star (Cls (\<lambda>c. is_letter c \<or> is_digit c \<or> c = CHR ''+'' \<or> c = CHR ''.'' \<or> c = CHR ''-'')),
     rx_str ''://'',
     rx_plus (Cls (\<lambda>c. \<not> is_space c \<and> c \<noteq> CHR ''/'' \<and> c \<noteq> CHR '':'' \<and> c \<noteq> CHR ''@'')),
     rx_ch CHR '':'',
     rx_plus (Cls (\<lambda>c. \<not> is_space c \<and> c \<noteq> CHR ''/'' \<and> c \<noteq> CHR ''@'')),
     rx_ch CHR ''@'']"

fun credential_url_search :: "char option \<Rightarrow> string \<Rightarrow> bool" where
  "credential_url_search before [] = False"
| "credential_url_search before (c # s) =
     ((\<not> (case before of None \<Rightarrow> False | Some b \<Rightarrow> is_word b) \<and> rests CREDENTIAL_URL_RE (c # s) \<noteq> [])
      \<or> credential_url_search (Some c) s)"

definition name_start :: "char \<Rightarrow> bool" where
  "name_start c \<longleftrightarrow> is_letter c \<or> c = CHR ''_''"

definition name_char :: "char \<Rightarrow> bool" where
  "name_char c \<longleftrightarrow> is_letter c \<or> is_digit c \<or> c = CHR ''_''"

definition ENV_ASSIGNMENT_RE :: rx where
  "ENV_ASSIGNMENT_RE = rx_seq [Cls name_start, Star (Cls name_char), rx_ch CHR ''='',
     Star (Cls (\<lambda>c. code c \<noteq> 10))]"

definition PARAM_EXPANSION_RE :: rx where
  "PARAM_EXPANSION_RE = rx_alt
     [rx_seq [rx_str ''${'', Star (Cls (\<lambda>c. c \<noteq> CHR ''}'')), rx_ch CHR ''}''],
      Cat (rx_ch CHR ''$'') (Cls (\<lambda>c. is_digit c \<or> c \<in> set ''@#!?$*-'')),
      rx_seq [rx_ch CHR ''$'', Cls name_start, Star (Cls name_char)]]"

section \<open>The deny lists\<close>

definition PRIVILEGED_OR_DESTRUCTIVE :: "string list" where
  "PRIVILEGED_OR_DESTRUCTIVE = [''busybox'', ''sudo'', ''su'', ''doas'', ''pkexec'', ''shutdown'',
     ''reboot'', ''halt'', ''kill'', ''killall'', ''pkill'', ''poweroff'', ''systemctl'', ''toybox'',
     ''rm'', ''dd'', ''mkfs'', ''fdisk'', ''sfdisk'', ''parted'', ''wipefs'', ''shred'', ''truncate'']"

definition SHELL_STATEFUL :: "string list" where
  "SHELL_STATEFUL = [''.'', ''bash'', ''dash'', ''alias'', ''builtin'', ''cd'', ''command'',
     ''declare'', ''enable'', ''env'', ''eval'', ''exec'', ''export'', ''fish'', ''ksh'', ''nohup'',
     ''nice'', ''readonly'', ''set'', ''setsid'', ''sh'', ''source'', ''timeout'', ''trap'',
     ''typeset'', ''ulimit'', ''umask'', ''unalias'', ''unset'', ''zsh'']"

definition INTERACTIVE_STATEFUL :: "string list" where
  "INTERACTIVE_STATEFUL = [''ssh'', ''mosh'', ''telnet'', ''ftp'', ''sftp'', ''vim'', ''vi'', ''nvim'',
     ''nano'', ''emacs'', ''less'', ''more'', ''mysql'', ''psql'', ''redis-cli'', ''top'', ''htop'',
     ''tmux'', ''screen'']"

definition CODE_EXECUTING :: "string list" where
  "CODE_EXECUTING = [''awk'', ''gawk'', ''mawk'', ''nawk'', ''sed'', ''find'', ''make'', ''cmake'',
     ''gmake'', ''xargs'', ''tar'', ''git'', ''perl'', ''lua'', ''tclsh'', ''wish'', ''tcl'', ''php'',
     ''dd'']"

definition SHELL_RESERVED_WORDS :: "string list" where
  "SHELL_RESERVED_WORDS = [''time'', ''coproc'', ''!'', ''function'', ''let'', ''select'', ''for'',
     ''while'', ''until'', ''case'', ''if'', ''then'', ''else'', ''do'', ''done'', ''fi'', ''esac'',
     ''in'', ''local'']"

definition STATE_CHANGING :: "string list" where
  "STATE_CHANGING = [''touch'', ''mkdir'', ''rmdir'', ''cp'', ''mv'', ''install'', ''chmod'', ''chown'',
     ''chgrp'', ''ln'', ''link'', ''rename'', ''unlink'', ''truncate'', ''tee'', ''dd'', ''mkfifo'',
     ''mknod'', ''mount'', ''umount'', ''swapoff'', ''swapon'', ''pip'', ''pip3'', ''pipx'',
     ''poetry'', ''uv'', ''conda'', ''mamba'', ''npm'', ''npx'', ''yarn'', ''pnpm'', ''bun'', ''deno'',
     ''cargo'', ''rustup'', ''go'', ''gem'', ''bundle'', ''composer'', ''crontab'', ''at'', ''batch'',
     ''curl'', ''wget'', ''ftp'', ''scp'', ''rsync'', ''s3cmd'', ''aws'', ''gcloud'', ''kubectl'',
     ''systemctl'', ''service'', ''initctl'', ''update-rc.d'', ''chkconfig'', ''useradd'', ''usermod'',
     ''userdel'', ''groupadd'', ''groupmod'', ''groupdel'', ''passwd'', ''chpasswd'', ''chage'',
     ''docker'', ''podman'', ''nerdctl'']"

definition SCRIPT_INTERPRETERS :: "string list" where
  "SCRIPT_INTERPRETERS = [''python'', ''python3'', ''ruby'', ''rb'', ''node'', ''perl'', ''php'',
     ''lua'', ''tclsh'', ''wish'', ''tcl'', ''groovy'', ''gosh'', ''jrunscript'', ''rscript'', ''R'',
     ''julia'', ''awk'', ''gawk'', ''mawk'', ''nawk'']"

definition INTERPRETER_CODE_FLAGS :: "string list" where
  "INTERPRETER_CODE_FLAGS = [''-c'', ''-e'', ''-r'', ''-p'', ''-y'', ''--eval'', ''-i'', ''-Q'']"

definition INTERPRETER_MODULE_FLAGS :: "string list" where
  "INTERPRETER_MODULE_FLAGS = [''-m'', ''--module'']"

section \<open>Looking for credentials\<close>

definition contains_dollar_quote :: "string \<Rightarrow> bool" where
  "contains_dollar_quote cmd \<longleftrightarrow>
     contains cmd [CHR ''$'', CHR 0x27] \<or> contains cmd [CHR ''$'', CHR 0x22]"

definition authorization_skeleton :: "string \<Rightarrow> string" where
  "authorization_skeleton cmd =
     lower (filter (\<lambda>c. \<not> (c = CHR 0x27 \<or> c = CHR 0x22 \<or> c = CHR ''$'' \<or> c = CHR 0x5C \<or> is_space c)) cmd)"

definition contains_authorization_skeleton :: "string \<Rightarrow> bool" where
  "contains_authorization_skeleton cmd \<longleftrightarrow> contains (authorization_skeleton cmd) ''authorization:''"

definition contains_obfuscated_authorization_skeleton :: "string \<Rightarrow> bool" where
  "contains_obfuscated_authorization_skeleton cmd \<longleftrightarrow>
     contains_authorization_skeleton cmd \<and>
     \<not> search (rx_seq [rx_istr ''authorization'', Star rx_space, rx_ch CHR '':'']) cmd"

definition contains_raw_secret_marker :: "string \<Rightarrow> bool" where
  "contains_raw_secret_marker cmd \<longleftrightarrow> search AUTHORIZATION_RE cmd \<or> search PRIVATE_KEY_RE cmd"

text \<open>
  \<open>authorization_value token\<close> is the group of \<^verbatim>\<open>authorization\s*:(.*)\<close>: the text after the first
  colon, as long as it has no line break.
\<close>

definition authorization_value :: "string \<Rightarrow> string option" where
  "authorization_value token =
     (case rests (rx_seq [rx_istr ''authorization'', Star rx_space, rx_ch CHR '':'']) token of
        [] \<Rightarrow> None
      | v # _ \<Rightarrow> if list_all (\<lambda>c. code c \<noteq> 10) v then Some v else None)"

fun tokens_carry_authorization :: "string list \<Rightarrow> bool" where
  "tokens_carry_authorization [] = False"
| "tokens_carry_authorization (token # others) =
     (case authorization_value token of
        Some v \<Rightarrow> if strip v \<noteq> [] then True else tokens_carry_authorization others
      | None \<Rightarrow>
          if lower token = ''authorization'' \<and> others \<noteq> [] \<and> hd others = '':'' then length others > 1
          else tokens_carry_authorization others)"

definition contains_normalized_credential :: "string list \<Rightarrow> bool" where
  "contains_normalized_credential tokens \<longleftrightarrow>
     search CREDENTIAL_RE (join '' '' tokens) \<or> tokens_carry_authorization tokens"

definition contains_fragmented_credential :: "string \<Rightarrow> bool" where
  "contains_fragmented_credential cmd \<longleftrightarrow>
     (let fragments = filter (\<lambda>c. c \<noteq> CHR 0x27 \<and> c \<noteq> CHR 0x22) cmd in
      search CREDENTIAL_RE fragments \<or> credential_fragment_search fragments)"

section \<open>One simple command\<close>

record ParsedCommand =
  p_executable :: string
  p_argv :: "string list"
  p_prefix :: nat

definition is_operator :: "char \<Rightarrow> bool" where
  "is_operator c \<longleftrightarrow> c \<in> set '';&|<>()'' \<or> code c = 10"

text \<open>
  \<open>scan_command quote escaped s\<close> is the scanning loop from one index on: \<open>None\<close> is a rejection, \<open>Some\<close>
  the quote and the escape flag at the end of the text.
\<close>

fun scan_command :: "char option \<Rightarrow> bool \<Rightarrow> string \<Rightarrow> (char option \<times> bool) option" where
  "scan_command quote escaped [] = Some (quote, escaped)"
| "scan_command quote escaped (c # s) =
     (if quote = Some CHR 0x27 then
        scan_command (if c = CHR 0x27 then None else quote) escaped s
      else if escaped then
        (if quote = None \<and> is_operator c then None else scan_command quote False s)
      else if c = CHR 0x5C then scan_command quote True s
      else if quote = Some CHR 0x22 then
        (if c = CHR 0x22 then scan_command None escaped s
         else if c = CHR 0x60 \<or> startswith (c # s) ''$('' then None
         else scan_command quote escaped s)
      else if c = CHR 0x27 \<or> c = CHR 0x22 then scan_command (Some c) escaped s
      else if c = CHR 0x60 \<or> startswith (c # s) ''$('' then None
      else if is_operator c then None
      else scan_command quote escaped s)"

fun assignment_prefix :: "string list \<Rightarrow> nat" where
  "assignment_prefix [] = 0"
| "assignment_prefix (t # ts) = (if fullmatch ENV_ASSIGNMENT_RE t then Suc (assignment_prefix ts) else 0)"

definition parse_one_simple_command :: "string \<Rightarrow> string list option \<Rightarrow> ParsedCommand result" where
  "parse_one_simple_command cmd normalized =
     bind_r (raise_if (strip cmd = [] \<or> contains cmd [CHR 0x00] \<or> endswith cmd [CHR 0x5C])
       PolicyRejection) (\<lambda>_.
     bind_r (raise_if (\<exists>c \<in> set ''*?[''. c \<in> set cmd) PolicyRejection) (\<lambda>_.
     bind_r (raise_if (search PARAM_EXPANSION_RE cmd) PolicyRejection) (\<lambda>_.
     bind_r (case scan_command None False cmd of
               None \<Rightarrow> Inl PolicyRejection
             | Some (quote, escaped) \<Rightarrow> raise_if (quote \<noteq> None \<or> escaped) PolicyRejection) (\<lambda>_.
     bind_r (case normalized of
               Some ts \<Rightarrow> Inr ts
             | None \<Rightarrow> (case shlex_split cmd of Inl _ \<Rightarrow> Inl PolicyRejection | Inr ts \<Rightarrow> Inr ts)) (\<lambda>tokens.
     bind_r (raise_if (tokens = []) PolicyRejection) (\<lambda>_.
     let prefix = assignment_prefix tokens in
     bind_r (raise_if (prefix \<ge> length tokens) PolicyRejection) (\<lambda>_.
     bind_r (raise_if (prefix > 0) PolicyRejection) (\<lambda>_.
     Inr \<lparr>p_executable = lower (path_name (tokens ! prefix)), p_argv = tokens, p_prefix = prefix\<rparr>))))))))"

definition is_unsafe :: "string \<Rightarrow> bool" where
  "is_unsafe exe \<longleftrightarrow> exe \<in> set PRIVILEGED_OR_DESTRUCTIVE \<or> startswith exe ''mkfs.''"

definition requires_unavailable_interactive_state :: "string \<Rightarrow> string list \<Rightarrow> bool" where
  "requires_unavailable_interactive_state exe tokens \<longleftrightarrow>
     (if exe \<in> set INTERACTIVE_STATEFUL then True
      else if exe \<notin> {''node'', ''perl'', ''python'', ''python3'', ''ruby''} then False
      else case drop 1 tokens of
        [] \<Rightarrow> True
      | first # others \<Rightarrow>
          if exe \<in> {''python'', ''python3''} \<and> ''-i'' \<in> set (first # others) then True
          else if exe \<in> {''python'', ''python3''} \<and> first = ''-m'' then length (first # others) < 2
          else startswith first ''-'')"

definition interpreter_runs_script :: "string \<Rightarrow> ParsedCommand \<Rightarrow> bool" where
  "interpreter_runs_script exe parsed \<longleftrightarrow>
     (case drop (p_prefix parsed + 1) (p_argv parsed) of
        [] \<Rightarrow> True
      | first # others \<Rightarrow>
          if exe \<in> {''python'', ''python3''} then
            (if first \<in> set INTERPRETER_MODULE_FLAGS then length (first # others) < 2
             else if first \<in> set INTERPRETER_CODE_FLAGS then True
             else \<not> startswith first ''-'')
          else if \<exists>a \<in> set (first # others). a \<in> set INTERPRETER_CODE_FLAGS then True
          else \<exists>a \<in> set (first # others). \<not> startswith a ''-'')"

section \<open>The classification\<close>

record Classification =
  classified :: CommandRecord
  reason :: string

definition REDACTED_DISPLAY :: string where
  "REDACTED_DISPLAY = ''[sensitive command redacted]''"

definition bounded_display :: "string \<Rightarrow> string" where
  "bounded_display cmd = take MAX_COMMAND_CHARS cmd"

definition classification ::
  "int \<Rightarrow> string \<Rightarrow> string option \<Rightarrow> CommandDisposition \<Rightarrow> string \<Rightarrow> Classification result" where
  "classification seq shown exe kind why =
     bind_r (CommandRecord_init seq shown exe kind True) (\<lambda>r. Inr \<lparr>classified = r, reason = why\<rparr>)"

definition redacted :: "int \<Rightarrow> Classification result" where
  "redacted seq = classification seq REDACTED_DISPLAY None REDACTED ''likely credential or private-key material''"

definition carries_secret :: "string \<Rightarrow> bool" where
  "carries_secret cmd \<longleftrightarrow>
     contains_dollar_quote cmd \<or> contains_obfuscated_authorization_skeleton cmd \<or>
     contains_raw_secret_marker cmd \<or> aws_access_key_search None cmd \<or> credential_url_search None cmd \<or>
     (case shlex_split cmd of
        Inl _ \<Rightarrow> contains_authorization_skeleton cmd \<or> contains_fragmented_credential cmd
      | Inr tokens \<Rightarrow> contains_normalized_credential tokens)"

text \<open>The order of the tests after the parse, with the reason each gives for an unsafe command.\<close>

definition unsafe_reason :: "ParsedCommand \<Rightarrow> string option" where
  "unsafe_reason parsed =
     (let exe = p_executable parsed in
      if is_unsafe exe \<or> exe \<in> set SHELL_STATEFUL then Some ''privileged or destructive command''
      else if exe \<in> set CODE_EXECUTING then Some ''code-executing command''
      else if exe \<in> set SHELL_RESERVED_WORDS then Some ''shell reserved word''
      else if exe \<in> set STATE_CHANGING then Some ''state-changing command''
      else if exe \<in> set SCRIPT_INTERPRETERS \<and> interpreter_runs_script exe parsed
        then Some ''interpreter executes a script file''
      else if requires_unavailable_interactive_state exe (p_argv parsed)
        then Some ''interactive command requires unavailable state''
      else None)"

definition classify_command :: "string \<Rightarrow> int \<Rightarrow> Classification result" where
  "classify_command cmd seq =
     (if carries_secret cmd then redacted seq
      else
        let normalized = (case shlex_split cmd of Inl _ \<Rightarrow> None | Inr tokens \<Rightarrow> Some tokens) in
        case parse_one_simple_command cmd normalized of
          Inl _ \<Rightarrow> classification seq (bounded_display cmd) None UNREPRESENTABLE
            ''command cannot be represented as one simple command''
        | Inr parsed \<Rightarrow>
            (case unsafe_reason parsed of
               Some why \<Rightarrow> classification seq (bounded_display cmd) None UNSAFE why
             | None \<Rightarrow>
                 if length cmd > MAX_COMMAND_CHARS
                 then classification seq (bounded_display cmd) None UNREPRESENTABLE
                   ''command exceeds replay length limit''
                 else classification seq cmd (Some cmd) REPLAYABLE ''single simple command accepted''))"

text \<open>The older name resolution, past any assignments.\<close>

fun command_name :: "string list \<Rightarrow> string" where
  "command_name [] = ''export''"
| "command_name (t # ts) =
     (if fullmatch ENV_ASSIGNMENT_RE t then command_name ts else lower (path_name t))"

section \<open>Quoting\<close>

text \<open>
  The reference for the scanner: the POSIX quoting automaton, one character at a time.
  \<open>quoting cmd\<close> is its state after \<open>cmd\<close>.
\<close>

datatype quoting_state = Plain | Single | Double | PlainEsc | DoubleEsc

fun quoting_step :: "quoting_state \<Rightarrow> char \<Rightarrow> quoting_state" where
  "quoting_step Plain c =
     (if c = CHR 0x27 then Single else if c = CHR 0x22 then Double
      else if c = CHR 0x5C then PlainEsc else Plain)"
| "quoting_step Single c = (if c = CHR 0x27 then Plain else Single)"
| "quoting_step Double c =
     (if c = CHR 0x22 then Plain else if c = CHR 0x5C then DoubleEsc else Double)"
| "quoting_step PlainEsc c = Plain"
| "quoting_step DoubleEsc c = Double"

definition quoting :: "string \<Rightarrow> quoting_state" where
  "quoting s = foldl quoting_step Plain s"

fun scan_state :: "quoting_state \<Rightarrow> char option \<times> bool" where
  "scan_state Plain = (None, False)"
| "scan_state Single = (Some CHR 0x27, False)"
| "scan_state Double = (Some CHR 0x22, False)"
| "scan_state PlainEsc = (None, True)"
| "scan_state DoubleEsc = (Some CHR 0x22, True)"

fun shlex_quoting :: "shlex_state \<Rightarrow> quoting_state" where
  "shlex_quoting Blank = Plain"
| "shlex_quoting InWord = Plain"
| "shlex_quoting InSingle = Single"
| "shlex_quoting InDouble = Double"
| "shlex_quoting EscWord = PlainEsc"
| "shlex_quoting EscDouble = DoubleEsc"

text \<open>What the scanner refuses to see in a quoting state: control operators and substitutions.\<close>

fun refused :: "quoting_state \<Rightarrow> string \<Rightarrow> bool" where
  "refused Plain s = (s \<noteq> [] \<and> (is_operator (hd s) \<or> hd s = CHR 0x60 \<or> startswith s ''$(''))"
| "refused Double s = (s \<noteq> [] \<and> (hd s = CHR 0x60 \<or> startswith s ''$(''))"
| "refused PlainEsc s = (s \<noteq> [] \<and> is_operator (hd s))"
| "refused _ s = False"

lemma code_eq_iff: "code c = code d \<longleftrightarrow> c = d"
  unfolding code_def by (metis char_of_char)

lemma code_quotes [simp]:
  "code c = 39 \<longleftrightarrow> c = CHR 0x27" "code c = 34 \<longleftrightarrow> c = CHR 0x22" "code c = 92 \<longleftrightarrow> c = CHR 0x5C"
  using code_eq_iff [of c "CHR 0x27"] code_eq_iff [of c "CHR 0x22"] code_eq_iff [of c "CHR 0x5C"]
  by (simp_all add: code_def)

lemma not_shlex_blank [simp]:
  "\<not> shlex_blank CHR 0x27" "\<not> shlex_blank CHR 0x22" "\<not> shlex_blank CHR 0x5C"
  by (auto simp: shlex_blank_def code_def)

lemma scan_command_step:
  "scan_command (fst (scan_state q)) (snd (scan_state q)) (c # s) =
     (if refused q (c # s) then None
      else scan_command (fst (scan_state (quoting_step q c))) (snd (scan_state (quoting_step q c))) s)"
  by (cases q) (auto simp: is_operator_def code_def startswith_def)

lemma scan_command_iff:
  "scan_command (fst (scan_state q)) (snd (scan_state q)) s = Some r \<longleftrightarrow>
     r = scan_state (foldl quoting_step q s) \<and>
     (\<forall>a b. s = a @ b \<longrightarrow> \<not> refused (foldl quoting_step q a) b)"
proof (induction s arbitrary: q)
  case Nil
  then show ?case by (cases q) auto
next
  case (Cons c s)
  have split: "(\<forall>a b. c # s = a @ b \<longrightarrow> \<not> refused (foldl quoting_step q a) b) \<longleftrightarrow>
        \<not> refused q (c # s) \<and>
        (\<forall>a b. s = a @ b \<longrightarrow> \<not> refused (foldl quoting_step (quoting_step q c) a) b)"
  proof (intro iffI conjI allI impI)
    fix a b
    assume *: "\<forall>a b. c # s = a @ b \<longrightarrow> \<not> refused (foldl quoting_step q a) b"
    show "\<not> refused q (c # s)" using * [rule_format, of "[]" "c # s"] by simp
    assume "s = a @ b"
    then show "\<not> refused (foldl quoting_step (quoting_step q c) a) b"
      using * [rule_format, of "c # a" b] by simp
  qed (auto simp: Cons_eq_append_conv)
  show ?case
    by (simp only: scan_command_step split) (auto simp: Cons.IH)
qed

lemma scan_command_top:
  "scan_command None False s = Some r \<longleftrightarrow>
     r = scan_state (quoting s) \<and> (\<forall>a b. s = a @ b \<longrightarrow> \<not> refused (quoting a) b)"
  using scan_command_iff [of Plain s r] by (simp add: quoting_def)

lemma prepend_Inr [simp]: "(\<exists>ts. prepend us r = Inr ts) \<longleftrightarrow> (\<exists>ts. r = Inr ts)"
  by (auto simp: prepend_def)

lemma shlex_run_ok:
  "(\<exists>ts. shlex_run st token quoted s = Inr ts) \<longleftrightarrow> foldl quoting_step (shlex_quoting st) s = Plain"
  by (induction st token quoted s rule: shlex_run.induct)
     auto

lemma shlex_split_ok: "(\<exists>ts. shlex_split s = Inr ts) \<longleftrightarrow> quoting s = Plain"
  using shlex_run_ok [of Blank] by (simp add: shlex_split_def quoting_def)

lemma scan_accepts_iff:
  "(case scan_command None False s of
      None \<Rightarrow> Inl PolicyRejection
    | Some (quote, escaped) \<Rightarrow> raise_if (quote \<noteq> None \<or> escaped) PolicyRejection) = Inr u \<longleftrightarrow>
   quoting s = Plain \<and> (\<forall>a b. s = a @ b \<longrightarrow> \<not> refused (quoting a) b)"
proof (cases "scan_command None False s")
  case None
  with scan_command_top [of s "scan_state (quoting s)"] show ?thesis by simp
next
  case (Some r)
  with scan_command_top [of s r] have r: "r = scan_state (quoting s)"
    and ok: "\<forall>a b. s = a @ b \<longrightarrow> \<not> refused (quoting a) b" by simp_all
  have "scan_state q = (None, False) \<longleftrightarrow> q = Plain" for q by (cases q) auto
  with Some r ok show ?thesis by (auto simp: prod_eq_iff split: prod.splits)
qed

section \<open>What the parse accepts\<close>

definition simple_command :: "string \<Rightarrow> string list \<Rightarrow> bool" where
  "simple_command cmd tokens \<longleftrightarrow>
     shlex_split cmd = Inr tokens \<and> tokens \<noteq> [] \<and> \<not> fullmatch ENV_ASSIGNMENT_RE (hd tokens) \<and>
     CHR 0x00 \<notin> set cmd \<and> set cmd \<inter> set ''*?['' = {} \<and> \<not> search PARAM_EXPANSION_RE cmd \<and>
     (\<forall>a b. cmd = a @ b \<longrightarrow> \<not> refused (quoting a) b)"

lemma contains_singleton: "contains s [c] \<longleftrightarrow> c \<in> set s"
  by (auto simp: contains_iff dest: split_list)

lemma parse_accepts:
  assumes "parse_one_simple_command cmd (case shlex_split cmd of Inl _ \<Rightarrow> None | Inr ts \<Rightarrow> Some ts) = Inr p"
  shows "simple_command cmd (p_argv p) \<and> p_executable p = lower (path_name (hd (p_argv p))) \<and> p_prefix p = 0"
proof -
  from assms have scan: "quoting cmd = Plain \<and> (\<forall>a b. cmd = a @ b \<longrightarrow> \<not> refused (quoting a) b)"
    unfolding parse_one_simple_command_def Let_def by (auto simp: scan_accepts_iff)
  then obtain ts where ts: "shlex_split cmd = Inr ts" using shlex_split_ok by blast
  from assms scan ts show ?thesis
    unfolding parse_one_simple_command_def Let_def
    by (cases ts) (auto simp: simple_command_def contains_singleton split: if_splits)
qed

lemma classification_Inr [simp]:
  "classification q d x k why = Inr c \<longleftrightarrow>
     (let r = \<lparr>cmd_sequence = q, display = d, executable = x, disposition = k, active = True\<rparr> in
      wf_command r \<and> c = \<lparr>classified = r, reason = why\<rparr>)"
  by (auto simp: classification_def CommandRecord_init_Inr Let_def)

lemma classify_command_cases:
  assumes "classify_command cmd seq = Inr c"
  shows "let r = classified c in wf_command r \<and> cmd_sequence r = seq \<and> active r \<and>
    (executable r = None \<and> disposition r = REDACTED \<and> display r = REDACTED_DISPLAY \<and> carries_secret cmd \<or>
     executable r = None \<and> disposition r \<in> {UNSAFE, UNREPRESENTABLE} \<and>
       display r = bounded_display cmd \<and> \<not> carries_secret cmd \<or>
     executable r = Some cmd \<and> disposition r = REPLAYABLE \<and> display r = cmd \<and> \<not> carries_secret cmd \<and>
       length cmd \<le> MAX_COMMAND_CHARS \<and>
       (\<exists>tokens. simple_command cmd tokens \<and>
          unsafe_reason \<lparr>p_executable = lower (path_name (hd tokens)), p_argv = tokens, p_prefix = 0\<rparr> = None))"
proof (cases "carries_secret cmd")
  case True
  with assms show ?thesis by (auto simp: classify_command_def redacted_def Let_def)
next
  case False
  let ?n = "case shlex_split cmd of Inl _ \<Rightarrow> None | Inr ts \<Rightarrow> Some ts"
  show ?thesis
  proof (cases "parse_one_simple_command cmd ?n")
    case (Inl e)
    with assms False show ?thesis by (auto simp: classify_command_def Let_def)
  next
    case (Inr p)
    from parse_accepts [OF Inr] have sc: "simple_command cmd (p_argv p)"
      and p: "p = \<lparr>p_executable = lower (path_name (hd (p_argv p))), p_argv = p_argv p, p_prefix = 0\<rparr>"
      by (cases p; simp)+
    show ?thesis
      using assms False Inr sc arg_cong [OF p, of unsafe_reason]
      by (auto simp: classify_command_def Let_def split: option.splits if_splits)
  qed
qed

section \<open>Properties of the policy\<close>

lemma display_bounds:
  "length REDACTED_DISPLAY \<le> MAX_DIAGNOSTIC_CHARS" "length (bounded_display cmd) \<le> MAX_COMMAND_CHARS"
  by (simp_all add: REDACTED_DISPLAY_def MAX_DIAGNOSTIC_CHARS_def bounded_display_def)

lemma classification_ok:
  assumes "0 \<le> seq" "length d \<le> MAX_COMMAND_CHARS" "k \<noteq> REDACTED" "k \<noteq> REPLAYABLE"
  shows "\<exists>c. classification seq d None k why = Inr c"
  using assms by (auto simp: Let_def wf_command_def)

lemma classify_ok:
  assumes "0 \<le> seq"
  shows "\<exists>c. classify_command cmd seq = Inr c"
proof (cases "carries_secret cmd")
  case True
  with assms display_bounds(1) show ?thesis
    by (auto simp: classify_command_def redacted_def Let_def wf_command_def limits)
next
  case False
  with assms classification_ok [OF assms display_bounds(2) [of cmd]] show ?thesis
    by (auto simp: classify_command_def Let_def wf_command_def split: sum.splits option.splits)
qed

text \<open>The classifier is total on non-negative sequence numbers, and its record is well formed, keeps
  the number, is active, is bounded, and carries text to execute exactly when it is replayable.\<close>
theorem classify_total:
  assumes "0 \<le> seq"
  shows "\<exists>c. classify_command cmd seq = Inr c \<and> wf_command (classified c) \<and>
    cmd_sequence (classified c) = seq \<and> active (classified c) \<and>
    (executable (classified c) \<noteq> None \<longleftrightarrow> disposition (classified c) = REPLAYABLE) \<and>
    (\<forall>x. executable (classified c) = Some x \<longrightarrow> x = cmd)"
proof -
  from classify_ok [OF assms] obtain c where c: "classify_command cmd seq = Inr c" ..
  from classify_command_cases [OF c] c show ?thesis by (auto simp: Let_def)
qed

theorem classify_total_witness:
  "(0::int) \<le> 3 \<and> (\<exists>c. classify_command ''ls -l'' 3 = Inr c \<and> wf_command (classified c) \<and>
    cmd_sequence (classified c) = 3 \<and> active (classified c) \<and>
    (executable (classified c) \<noteq> None \<longleftrightarrow> disposition (classified c) = REPLAYABLE) \<and>
    (\<forall>x. executable (classified c) = Some x \<longrightarrow> x = ''ls -l''))"
  using classify_total [of 3 "''ls -l''"] by simp

definition denied :: "string \<Rightarrow> bool" where
  "denied exe \<longleftrightarrow> startswith exe ''mkfs.'' \<or>
     exe \<in> set (PRIVILEGED_OR_DESTRUCTIVE @ SHELL_STATEFUL @ CODE_EXECUTING @ SHELL_RESERVED_WORDS @
       STATE_CHANGING @ INTERACTIVE_STATEFUL)"

lemma unsafe_reason_None:
  "unsafe_reason p = None \<longleftrightarrow>
     \<not> denied (p_executable p) \<and>
     \<not> (p_executable p \<in> set SCRIPT_INTERPRETERS \<and> interpreter_runs_script (p_executable p) p) \<and>
     \<not> requires_unavailable_interactive_state (p_executable p) (p_argv p)"
  by (auto simp: unsafe_reason_def Let_def denied_def is_unsafe_def
      requires_unavailable_interactive_state_def)

lemma replayable_accepted:
  assumes "classify_command cmd seq = Inr c" "disposition (classified c) = REPLAYABLE"
  obtains tokens where "simple_command cmd tokens" "executable (classified c) = Some cmd"
    "display (classified c) = cmd" "\<not> carries_secret cmd" "length cmd \<le> MAX_COMMAND_CHARS"
    "unsafe_reason \<lparr>p_executable = lower (path_name (hd tokens)), p_argv = tokens, p_prefix = 0\<rparr> = None"
  using classify_command_cases [OF assms(1)] assms(2) that by (auto simp: Let_def)

text \<open>The concrete commands of the witnesses.\<close>

lemma classify_replayableI:
  assumes "\<not> carries_secret cmd" "shlex_split cmd = Inr ts"
    "parse_one_simple_command cmd (Some ts) = Inr p" "unsafe_reason p = None"
    "0 \<le> seq" "length cmd \<le> 3072"
  shows "classify_command cmd seq = Inr
     \<lparr>classified = \<lparr>cmd_sequence = seq, display = cmd, executable = Some cmd,
        disposition = REPLAYABLE, active = True\<rparr>, reason = ''single simple command accepted''\<rparr>"
  using assms by (simp add: classify_command_def Let_def wf_command_def limits)

lemma classify_sample:
  "classify_command ''ls -l /tmp'' 7 = Inr
     \<lparr>classified = \<lparr>cmd_sequence = 7, display = ''ls -l /tmp'', executable = Some ''ls -l /tmp'',
        disposition = REPLAYABLE, active = True\<rparr>, reason = ''single simple command accepted''\<rparr>"
proof (rule classify_replayableI)
  show "\<not> carries_secret ''ls -l /tmp''" by code_simp
  show "shlex_split ''ls -l /tmp'' = Inr [''ls'', ''-l'', ''/tmp'']" by code_simp
  show "parse_one_simple_command ''ls -l /tmp'' (Some [''ls'', ''-l'', ''/tmp'']) =
    Inr \<lparr>p_executable = ''ls'', p_argv = [''ls'', ''-l'', ''/tmp''], p_prefix = 0\<rparr>" by code_simp
  show "unsafe_reason \<lparr>p_executable = ''ls'', p_argv = [''ls'', ''-l'', ''/tmp''], p_prefix = 0\<rparr> = None"
    by code_simp
qed simp_all

lemma classify_quoted_sample:
  "classify_command ((''echo '' @ [CHR 0x27]) @ CHR '';'' # [CHR 0x27]) 1 = Inr
     \<lparr>classified = \<lparr>cmd_sequence = 1, display = (''echo '' @ [CHR 0x27]) @ CHR '';'' # [CHR 0x27],
        executable = Some ((''echo '' @ [CHR 0x27]) @ CHR '';'' # [CHR 0x27]),
        disposition = REPLAYABLE, active = True\<rparr>, reason = ''single simple command accepted''\<rparr>"
proof (rule classify_replayableI)
  show "\<not> carries_secret ((''echo '' @ [CHR 0x27]) @ CHR '';'' # [CHR 0x27])" by code_simp
  show "shlex_split ((''echo '' @ [CHR 0x27]) @ CHR '';'' # [CHR 0x27]) = Inr [''echo'', '';'']"
    by code_simp
  show "parse_one_simple_command ((''echo '' @ [CHR 0x27]) @ CHR '';'' # [CHR 0x27])
      (Some [''echo'', '';'']) =
    Inr \<lparr>p_executable = ''echo'', p_argv = [''echo'', '';''], p_prefix = 0\<rparr>" by code_simp
  show "unsafe_reason \<lparr>p_executable = ''echo'', p_argv = [''echo'', '';''], p_prefix = 0\<rparr> = None"
    by code_simp
qed simp_all

lemma classify_python_sample:
  "classify_command ''python -m foo'' 1 = Inr
     \<lparr>classified = \<lparr>cmd_sequence = 1, display = ''python -m foo'', executable = Some ''python -m foo'',
        disposition = REPLAYABLE, active = True\<rparr>, reason = ''single simple command accepted''\<rparr>"
proof (rule classify_replayableI)
  show "\<not> carries_secret ''python -m foo''" by code_simp
  show "shlex_split ''python -m foo'' = Inr [''python'', ''-m'', ''foo'']" by code_simp
  show "parse_one_simple_command ''python -m foo'' (Some [''python'', ''-m'', ''foo'']) =
    Inr \<lparr>p_executable = ''python'', p_argv = [''python'', ''-m'', ''foo''], p_prefix = 0\<rparr>" by code_simp
  show "unsafe_reason \<lparr>p_executable = ''python'', p_argv = [''python'', ''-m'', ''foo''], p_prefix = 0\<rparr> =
    None" by code_simp
qed simp_all

lemma path_name_plain:
  assumes "CHR ''/'' \<notin> set w" "w \<noteq> ''.''"
  shows "path_name w = w"
proof -
  have "split_on CHR ''/'' v = [v]" if "CHR ''/'' \<notin> set v" for v using that by (induction v) auto
  with assms show ?thesis by (simp add: path_name_def path_parts_def)
qed

text \<open>C13: a command marked replayable is kept verbatim, was found free of credentials, fits the length limit,
  lexes into words whose first one is no assignment, and has no NUL, no glob character and no parameter expansion. The
  last path component of its first word names no program of a deny list; so a first word without a slash is on no deny
  list, in any case of its letters, unless it is the dot of the shell, which has no path component.\<close>
theorem replayable_safe:
  assumes "classify_command cmd seq = Inr c" "disposition (classified c) = REPLAYABLE"
  shows "executable (classified c) = Some cmd \<and> display (classified c) = cmd \<and>
    \<not> carries_secret cmd \<and> length cmd \<le> 3072 \<and>
    (\<exists>tokens. shlex_split cmd = Inr tokens \<and> tokens \<noteq> [] \<and>
       \<not> fullmatch ENV_ASSIGNMENT_RE (hd tokens) \<and> \<not> denied (lower (path_name (hd tokens))) \<and>
       (CHR ''/'' \<in> set (hd tokens) \<or> hd tokens = ''.'' \<or> \<not> denied (lower (hd tokens)))) \<and>
    CHR 0x00 \<notin> set cmd \<and> set cmd \<inter> set ''*?['' = {} \<and> \<not> search PARAM_EXPANSION_RE cmd"
proof -
  from assms obtain tokens where t: "simple_command cmd tokens"
    "executable (classified c) = Some cmd" "display (classified c) = cmd" "\<not> carries_secret cmd"
    "length cmd \<le> MAX_COMMAND_CHARS"
    "unsafe_reason \<lparr>p_executable = lower (path_name (hd tokens)), p_argv = tokens, p_prefix = 0\<rparr> = None"
    by (rule replayable_accepted)
  moreover have "CHR ''/'' \<in> set (hd tokens) \<or> hd tokens = ''.'' \<or> \<not> denied (lower (hd tokens))"
    using t(6) path_name_plain [of "hd tokens"] by (auto simp: unsafe_reason_None)
  ultimately show ?thesis by (auto simp: simple_command_def unsafe_reason_None limits)
qed

theorem replayable_safe_witness:
  "\<exists>c. classify_command ''ls -l /tmp'' 7 = Inr c \<and> disposition (classified c) = REPLAYABLE \<and>
     executable (classified c) = Some ''ls -l /tmp'' \<and>
     (\<exists>tokens. shlex_split ''ls -l /tmp'' = Inr tokens \<and> \<not> denied (lower (path_name (hd tokens))))"
  using replayable_safe [OF classify_sample] classify_sample by auto

text \<open>C14: in a replayable command every control operator stands inside quotes, and every backquote and
  every start of a command substitution is inside single quotes or escaped.\<close>
theorem replayable_operators_quoted:
  assumes "classify_command (a @ x # b) seq = Inr c" "disposition (classified c) = REPLAYABLE"
  shows "(is_operator x \<longrightarrow> quoting a \<in> {Single, Double, DoubleEsc}) \<and>
    (x = CHR 0x60 \<or> startswith (x # b) ''$('' \<longrightarrow> quoting a \<in> {Single, PlainEsc, DoubleEsc})"
proof -
  from assms obtain tokens where "simple_command (a @ x # b) tokens" by (rule replayable_accepted)
  then have "\<not> refused (quoting a) (x # b)" by (auto simp: simple_command_def)
  then show ?thesis by (cases "quoting a") auto
qed

theorem replayable_operators_quoted_witness:
  "\<exists>c. classify_command ((''echo '' @ [CHR 0x27]) @ CHR '';'' # [CHR 0x27]) 1 = Inr c \<and>
     disposition (classified c) = REPLAYABLE \<and> is_operator CHR '';'' \<and>
     quoting (''echo '' @ [CHR 0x27]) \<in> {Single, Double, DoubleEsc}"
  using replayable_operators_quoted [OF classify_quoted_sample] classify_quoted_sample
  by (simp add: is_operator_def)

lemma option_prefix [simp]: "startswith (c # s) ''-'' \<longleftrightarrow> c = CHR ''-''"
  by (simp add: startswith_def)

lemma other_interpreter_refused:
  assumes "exe \<in> {''ruby'', ''node'', ''perl''}"
  shows "interpreter_runs_script exe \<lparr>p_executable = exe, p_argv = t # args, p_prefix = 0\<rparr> \<or>
    requires_unavailable_interactive_state exe (t # args)"
  using assms by (cases args)
    (auto simp: interpreter_runs_script_def requires_unavailable_interactive_state_def)

lemma python_accepted:
  assumes "exe \<in> {''python'', ''python3''}"
    "\<not> interpreter_runs_script exe \<lparr>p_executable = exe, p_argv = t # args, p_prefix = 0\<rparr>"
    "\<not> requires_unavailable_interactive_state exe (t # args)"
  shows "\<exists>m r. args = ''-m'' # m # r \<and> ''-i'' \<notin> set args"
proof (cases args)
  case Nil
  with assms(2) show ?thesis by (simp add: interpreter_runs_script_def)
next
  case (Cons f r)
  from assms(1,3) Cons have no_i: "''-i'' \<notin> set args"
    and f: "f = ''-m'' \<and> r \<noteq> [] \<or> f \<noteq> ''-m'' \<and> \<not> startswith f ''-''"
    by (auto simp: requires_unavailable_interactive_state_def split: if_splits)
  from assms(1,2) Cons have "f \<in> set INTERPRETER_MODULE_FLAGS \<or> startswith f ''-''"
    by (auto simp: interpreter_runs_script_def split: if_splits)
  then have "startswith f ''-''" by (auto simp: INTERPRETER_MODULE_FLAGS_def)
  with f no_i Cons show ?thesis by (cases r) auto
qed

text \<open>An interpreter is replayable only as \<^verbatim>\<open>python -m module\<close>: with a Python interpreter the first argument
  is \<^verbatim>\<open>-m\<close>, a module follows and no argument is \<^verbatim>\<open>-i\<close>; Ruby, Node and Perl are never replayable.\<close>
theorem replayable_interpreter:
  assumes "classify_command cmd seq = Inr c" "disposition (classified c) = REPLAYABLE"
    "shlex_split cmd = Inr tokens"
  shows "lower (path_name (hd tokens)) \<notin> {''ruby'', ''node'', ''perl''} \<and>
    (lower (path_name (hd tokens)) \<in> {''python'', ''python3''} \<longrightarrow>
       length tokens \<ge> 3 \<and> tokens ! 1 = ''-m'' \<and> ''-i'' \<notin> set (tl tokens))"
proof -
  from assms(1,2) obtain ts where ts: "simple_command cmd ts"
    "unsafe_reason \<lparr>p_executable = lower (path_name (hd ts)), p_argv = ts, p_prefix = 0\<rparr> = None"
    by (rule replayable_accepted)
  with assms(3) have [simp]: "ts = tokens" and ne: "tokens \<noteq> []" by (auto simp: simple_command_def)
  then obtain t args where t: "tokens = t # args" by (cases tokens) auto
  from ts(2) t have no: "lower (path_name t) \<in> set SCRIPT_INTERPRETERS \<longrightarrow>
       \<not> interpreter_runs_script (lower (path_name t))
           \<lparr>p_executable = lower (path_name t), p_argv = t # args, p_prefix = 0\<rparr>"
    "\<not> requires_unavailable_interactive_state (lower (path_name t)) (t # args)"
    by (simp_all add: unsafe_reason_None)
  have "{''ruby'', ''node'', ''perl'', ''python'', ''python3''} \<subseteq> set SCRIPT_INTERPRETERS"
    by (simp add: SCRIPT_INTERPRETERS_def)
  with no have "lower (path_name t) \<notin> {''ruby'', ''node'', ''perl''}"
    and "lower (path_name t) \<in> {''python'', ''python3''} \<longrightarrow>
      (\<exists>m r. args = ''-m'' # m # r \<and> ''-i'' \<notin> set args)"
    using other_interpreter_refused [of "lower (path_name t)" t args]
      python_accepted [of "lower (path_name t)" t args] by blast+
  with t show ?thesis by auto
qed

theorem replayable_interpreter_witness:
  "\<exists>c. classify_command ''python -m foo'' 1 = Inr c \<and> disposition (classified c) = REPLAYABLE \<and>
     shlex_split ''python -m foo'' = Inr [''python'', ''-m'', ''foo''] \<and>
     lower (path_name ''python'') \<in> {''python'', ''python3''} \<and> ''-i'' \<notin> set [''-m'', ''foo'']"
proof -
  have t: "shlex_split ''python -m foo'' = Inr [''python'', ''-m'', ''foo'']" by code_simp
  have e: "lower (path_name ''python'') = ''python''" by code_simp
  from replayable_interpreter [OF classify_python_sample _ t] classify_python_sample t e
  show ?thesis by simp
qed

text \<open>The mixed-case name in the interpreter list never matches a lower-cased program name.\<close>

lemma upper_case_interpreter_unreachable: "lower s \<noteq> ''R''"
proof
  assume "lower s = ''R''"
  then obtain c where "lower_char c = CHR ''R''" by (auto simp: lower_def)
  moreover have "lower_char c \<noteq> CHR ''R''"
    by (cases c) (auto simp: lower_char_code is_upper_code)
  ultimately show False by simp
qed

lemma authorization_found:
  assumes "lower h = ''authorization''" "\<forall>x \<in> set u. is_space x" "\<forall>x \<in> set w. is_space x"
    "\<not> is_space v" "v \<noteq> CHR 0x27" "v \<noteq> CHR 0x22"
  shows "search AUTHORIZATION_RE (a @ h @ u @ '':'' @ w @ v # b)"
proof (rule searchI)
  show "b \<in> set (rests AUTHORIZATION_RE (h @ u @ '':'' @ w @ v # b))"
    unfolding AUTHORIZATION_RE_def rx_seq.simps
  proof (intro rests_CatI)
    show "u @ '':'' @ w @ v # b \<in> set (rests (rx_istr ''authorization'') (h @ u @ '':'' @ w @ v # b))"
      by (simp add: rests_rx_istr assms(1))
    show "'':'' @ w @ v # b \<in> set (rests (Star rx_space) (u @ '':'' @ w @ v # b))"
      unfolding rx_space_def by (rule rests_Star_Cls) (rule assms(2))
    show "w @ v # b \<in> set (rests (rx_ch CHR '':'') ('':'' @ w @ v # b))" by (simp add: rx_ch_def)
    show "v # b \<in> set (rests (Star rx_space) (w @ v # b))"
      unfolding rx_space_def by (rule rests_Star_Cls) (rule assms(3))
    show "b \<in> set (rests (rx_plus (Cls (\<lambda>c. \<not> is_space c \<and> c \<noteq> CHR 0x27 \<and> c \<noteq> CHR 0x22))) (v # b))"
      unfolding rx_plus_def
    proof (rule rests_CatI)
      show "b \<in> set (rests (Cls (\<lambda>c. \<not> is_space c \<and> c \<noteq> CHR 0x27 \<and> c \<noteq> CHR 0x22)) (v # b))"
        using assms(4-6) by simp
      show "b \<in> set (rests (Star (Cls (\<lambda>c. \<not> is_space c \<and> c \<noteq> CHR 0x27 \<and> c \<noteq> CHR 0x22))) b)"
        using rests_Star_Cls [of "[]"] by simp
    qed
    show "b \<in> set (rests Eps b)" by simp
  qed
qed

text \<open>C15: a command with an authorization header that has a value - after the colon and any blanks, a character that is
  neither a blank nor a quote - is stored as the fixed redaction text, with nothing of the command, wherever the header
  stands in the text and whatever the case of its name. (A header without a value is no secret and is left alone.)\<close>
theorem authorization_redacted:
  assumes "0 \<le> seq" "lower h = ''authorization''"
    "\<forall>x \<in> set u. is_space x" "\<forall>x \<in> set w. is_space x"
    "\<not> is_space v" "v \<noteq> CHR 0x27" "v \<noteq> CHR 0x22"
  shows "classify_command (a @ h @ u @ '':'' @ w @ v # b) seq =
    Inr \<lparr>classified = \<lparr>cmd_sequence = seq, display = ''[sensitive command redacted]'', executable = None,
        disposition = REDACTED, active = True\<rparr>,
      reason = ''likely credential or private-key material''\<rparr>"
proof -
  from authorization_found [OF assms(2-7)] have "carries_secret (a @ h @ u @ '':'' @ w @ v # b)"
    unfolding carries_secret_def contains_raw_secret_marker_def by blast
  with assms(1) show ?thesis
    by (simp add: classify_command_def redacted_def Let_def wf_command_def REDACTED_DISPLAY_def limits)
qed

theorem authorization_redacted_witness:
  "\<exists>c. classify_command (''curl -H '' @ ''Authorization'' @ [] @ '':'' @ '' '' @ CHR ''x'' # ''yz'') 4 = Inr c \<and>
     executable (classified c) = None"
proof -
  have 1: "lower ''Authorization'' = ''authorization''" by code_simp
  have 2: "is_space CHR '' ''" "\<not> is_space CHR ''x''" by code_simp+
  from authorization_redacted [of 4 "''Authorization''" "[]" "'' ''" "CHR ''x''" "''curl -H ''" "''yz''"]
    1 2 show ?thesis by simp
qed

lemma r_script_unlisted:
  "unsafe_reason \<lparr>p_executable = lower (path_name ''R''), p_argv = [''R'', ''-f'', ''a''], p_prefix = 0\<rparr> = None"
  by code_simp

text \<open>The interpreter \<^verbatim>\<open>R\<close> is on the interpreter list only in upper case, while program names are compared in
  lower case: running a script file with it is marked replayable.\<close>
theorem r_script_replayable:
  "\<exists>c. classify_command ''R -f a'' 1 = Inr c \<and> disposition (classified c) = REPLAYABLE \<and>
     ''R'' \<in> set SCRIPT_INTERPRETERS \<and> (\<forall>s. lower s \<noteq> ''R'')"
proof -
  have 1: "\<not> carries_secret ''R -f a''" by code_simp
  have 2: "shlex_split ''R -f a'' = Inr [''R'', ''-f'', ''a'']" by code_simp
  have 3: "parse_one_simple_command ''R -f a'' (Some [''R'', ''-f'', ''a'']) =
    Inr \<lparr>p_executable = lower (path_name ''R''), p_argv = [''R'', ''-f'', ''a''], p_prefix = 0\<rparr>" by code_simp
  from classify_replayableI [OF 1 2 3 r_script_unlisted, of 1] upper_case_interpreter_unreachable
  show ?thesis by (simp add: SCRIPT_INTERPRETERS_def)
qed

text \<open>The shell reads a script into itself with the dot, which is on the deny list of commands that change the shell
  itself, like its other name \<^verbatim>\<open>source\<close>. But names are compared by their last path component, and the dot has
  none: sourcing a script with it is marked replayable, while \<^verbatim>\<open>source\<close> is refused.\<close>
theorem dot_command_replayable:
  "(\<exists>c. classify_command ''. x.sh'' 1 = Inr c \<and> disposition (classified c) = REPLAYABLE) \<and>
   (\<exists>c. classify_command ''source x.sh'' 1 = Inr c \<and> disposition (classified c) = UNSAFE) \<and>
   ''.'' \<in> set SHELL_STATEFUL \<and> ''source'' \<in> set SHELL_STATEFUL"
proof -
  have 1: "\<not> carries_secret ''. x.sh''" by code_simp
  have 2: "shlex_split ''. x.sh'' = Inr [''.'', ''x.sh'']" by code_simp
  have 3: "parse_one_simple_command ''. x.sh'' (Some [''.'', ''x.sh'']) =
    Inr \<lparr>p_executable = lower (path_name ''.''), p_argv = [''.'', ''x.sh''], p_prefix = 0\<rparr>" by code_simp
  have 4: "unsafe_reason \<lparr>p_executable = lower (path_name ''.''), p_argv = [''.'', ''x.sh''], p_prefix = 0\<rparr> = None"
    by code_simp
  have "\<not> carries_secret ''source x.sh''" by code_simp
  moreover have "shlex_split ''source x.sh'' = Inr [''source'', ''x.sh'']" by code_simp
  moreover have "parse_one_simple_command ''source x.sh'' (Some [''source'', ''x.sh'']) =
    Inr \<lparr>p_executable = ''source'', p_argv = [''source'', ''x.sh''], p_prefix = 0\<rparr>" by code_simp
  moreover have "unsafe_reason \<lparr>p_executable = ''source'', p_argv = [''source'', ''x.sh''], p_prefix = 0\<rparr> \<noteq> None"
    by code_simp
  moreover have "bounded_display ''source x.sh'' = ''source x.sh''" by code_simp
  ultimately have "\<exists>c. classify_command ''source x.sh'' 1 = Inr c \<and> disposition (classified c) = UNSAFE"
    by (auto simp: classify_command_def Let_def wf_command_def limits)
  with classify_replayableI [OF 1 2 3 4, of 1] show ?thesis by (simp add: SHELL_STATEFUL_def)
qed

end
