(* ===== verification/Uuid.thy ===== *)
theory Uuid
  imports Text_Tools
begin

text \<open>
  \<^verbatim>\<open>str(uuid.UUID(s))\<close>, which the protocol uses to check that a boot identifier is canonical: the
  prefixes, braces and hyphens are dropped, the remaining 32 characters are read by \<^verbatim>\<open>int(_, 16)\<close> (which
  admits blanks around, a sign, a radix prefix and single underscores), and the number is printed with 32
  digits in five groups.
\<close>

fun replace_all_fuel :: "nat \<Rightarrow> string \<Rightarrow> string \<Rightarrow> string" where
  "replace_all_fuel 0 p s = s"
| "replace_all_fuel (Suc n) p s =
     (case s of [] \<Rightarrow> []
      | c # t \<Rightarrow> if startswith s p then replace_all_fuel n p (drop (length p) s)
                 else c # replace_all_fuel n p t)"

text \<open>\<open>remove_all p s\<close> is \<^verbatim>\<open>s.replace(p, "")\<close> for a non-empty \<open>p\<close>; every step consumes a character.\<close>

definition remove_all :: "string \<Rightarrow> string \<Rightarrow> string" where
  "remove_all p s = replace_all_fuel (length s) p s"

definition strip_chars :: "string \<Rightarrow> string \<Rightarrow> string" where
  "strip_chars cs s =
     rev (dropWhile (\<lambda>c. c \<in> set cs) (rev (dropWhile (\<lambda>c. c \<in> set cs) s)))"

definition hex_alphabet :: string where
  "hex_alphabet = ''0123456789abcdef''"

fun index_of :: "char \<Rightarrow> string \<Rightarrow> nat option" where
  "index_of c [] = None"
| "index_of c (d # s) = (if c = d then Some 0 else map_option Suc (index_of c s))"

definition hex_value :: "char \<Rightarrow> nat option" where
  "hex_value c = index_of (lower_char c) hex_alphabet"

fun hex_digits :: "nat \<Rightarrow> bool \<Rightarrow> string \<Rightarrow> nat option" where
  "hex_digits acc after_digit [] = (if after_digit then Some acc else None)"
| "hex_digits acc after_digit (c # s) =
     (if c = CHR ''_'' then (if after_digit then hex_digits acc False s else None)
      else case hex_value c of None \<Rightarrow> None | Some d \<Rightarrow> hex_digits (16 * acc + d) True s)"

text \<open>The blanks \<^verbatim>\<open>int\<close> strips: the separators U+001C to U+001F are not among them.\<close>

definition int_space :: "char \<Rightarrow> bool" where
  "int_space c \<longleftrightarrow> is_space c \<and> \<not> (28 \<le> code c \<and> code c \<le> 31)"

definition int_strip :: "string \<Rightarrow> string" where
  "int_strip s = rev (dropWhile int_space (rev (dropWhile int_space s)))"

definition int_base16 :: "string \<Rightarrow> nat option" where
  "int_base16 s =
     (let t = int_strip s;
          u = (if startswith t ''+'' then drop 1 t else t);
          w = (if startswith u ''0x'' \<or> startswith u ''0X''
               then (if startswith (drop 2 u) ''_'' then drop 3 u else drop 2 u) else u) in
      hex_digits 0 False w)"

primrec hex_text :: "nat \<Rightarrow> nat \<Rightarrow> string" where
  "hex_text 0 n = []"
| "hex_text (Suc k) n = hex_text k (n div 16) @ [hex_alphabet ! (n mod 16)]"

definition uuid_text :: "string \<Rightarrow> string result" where
  "uuid_text s =
     (let h = remove_all ''-'' (strip_chars ''{}'' (remove_all ''uuid:'' (remove_all ''urn:'' s))) in
      if length h \<noteq> 32 then Inl (ValueError ''badly formed hexadecimal UUID string'')
      else case int_base16 h of
        None \<Rightarrow> Inl (ValueError ''invalid literal for int() with base 16'')
      | Some n \<Rightarrow> let x = hex_text 32 n in
          Inr (join ''-'' [take 8 x, take 4 (drop 8 x), take 4 (drop 12 x), take 4 (drop 16 x), drop 20 x]))"

section \<open>Canonical text is a fixed point\<close>

definition hex_char :: "char \<Rightarrow> bool" where
  "hex_char c \<longleftrightarrow> c \<in> set hex_alphabet"

definition canonical_uuid :: "string \<Rightarrow> bool" where
  "canonical_uuid s \<longleftrightarrow>
     (\<exists>a b c d e. s = join ''-'' [a, b, c, d, e] \<and> length a = 8 \<and> length b = 4 \<and> length c = 4 \<and>
        length d = 4 \<and> length e = 12 \<and> list_all hex_char (a @ b @ c @ d @ e))"

definition hex_number :: "string \<Rightarrow> nat" where
  "hex_number s = foldl (\<lambda>a c. 16 * a + the (hex_value c)) 0 s"

lemma hex_char_value:
  assumes "hex_char c"
  obtains v where "hex_value c = Some v" "v < 16" "hex_alphabet ! v = c"
proof -
  have "list_all (\<lambda>c. case hex_value c of None \<Rightarrow> False | Some v \<Rightarrow> v < 16 \<and> hex_alphabet ! v = c) hex_alphabet"
    by code_simp
  with assms that show ?thesis by (auto simp: hex_char_def list_all_iff split: option.splits)
qed

lemma hex_char_plain: "hex_char c \<Longrightarrow> c \<noteq> CHR ''-'' \<and> c \<noteq> CHR ''_'' \<and> c \<noteq> CHR ''{'' \<and> c \<noteq> CHR ''}'' \<and>
  c \<noteq> CHR ''+'' \<and> c \<noteq> CHR ''u'' \<and> c \<noteq> CHR ''x'' \<and> c \<noteq> CHR ''X'' \<and> \<not> is_space c"
proof -
  have "list_all (\<lambda>c. c \<noteq> CHR ''-'' \<and> c \<noteq> CHR ''_'' \<and> c \<noteq> CHR ''{'' \<and> c \<noteq> CHR ''}'' \<and> c \<noteq> CHR ''+'' \<and>
      c \<noteq> CHR ''u'' \<and> c \<noteq> CHR ''x'' \<and> c \<noteq> CHR ''X'' \<and> \<not> is_space c) hex_alphabet"
    by code_simp
  then show "hex_char c \<Longrightarrow> ?thesis" by (simp add: hex_char_def list_all_iff)
qed

lemma hex_digits_all:
  assumes "list_all hex_char s" and "s \<noteq> [] \<or> af"
  shows "hex_digits acc af s = Some (foldl (\<lambda>a c. 16 * a + the (hex_value c)) acc s)"
  using assms
proof (induction s arbitrary: acc af)
  case (Cons c s)
  then obtain v where "hex_value c = Some v" "c \<noteq> CHR ''_''" using hex_char_plain [of c] by (auto elim: hex_char_value)
  with Cons show ?case by simp
qed auto

lemma hex_text_number: "list_all hex_char s \<Longrightarrow> hex_text (length s) (hex_number s) = s"
proof (induction s rule: rev_induct)
  case (snoc c s)
  then obtain v where "hex_value c = Some v" "v < 16" "hex_alphabet ! v = c"
    by (auto elim: hex_char_value)
  with snoc show ?case by (simp add: hex_number_def)
qed simp

lemma length_hex_text [simp]: "length (hex_text k n) = k"
  by (induction k arbitrary: n) simp_all

lemma hex_text_chars: "list_all hex_char (hex_text k n)"
proof (induction k arbitrary: n)
  case (Suc k)
  have "hex_alphabet ! (n mod 16) \<in> set hex_alphabet" by (rule nth_mem) (simp add: hex_alphabet_def)
  with Suc show ?case by (simp add: hex_char_def)
qed simp

lemma replace_all_absent:
  "c \<notin> set s \<Longrightarrow> p \<noteq> [] \<Longrightarrow> hd p = c \<Longrightarrow> replace_all_fuel n p s = s"
proof (induction n arbitrary: s)
  case (Suc n)
  then show ?case by (cases s; cases p) (auto simp: startswith_def)
qed simp

lemma remove_all_absent: "p \<noteq> [] \<Longrightarrow> hd p \<notin> set s \<Longrightarrow> remove_all p s = s"
  by (simp add: remove_all_def replace_all_absent)

lemma remove_char: "remove_all [c] s = filter (\<lambda>x. x \<noteq> c) s"
proof -
  have "length s \<le> n \<Longrightarrow> replace_all_fuel n [c] s = filter (\<lambda>x. x \<noteq> c) s" for n
    by (induction n arbitrary: s) (auto simp: startswith_def split: list.splits)
  then show ?thesis by (simp add: remove_all_def)
qed

lemma dropWhile_none: "\<forall>c \<in> set s. \<not> P c \<Longrightarrow> dropWhile P s = s"
  by (cases s) auto

lemma strip_chars_absent: "set cs \<inter> set s = {} \<Longrightarrow> strip_chars cs s = s"
proof -
  assume "set cs \<inter> set s = {}"
  then have "\<forall>c \<in> set s. c \<notin> set cs" by auto
  then show "strip_chars cs s = s" by (simp add: strip_chars_def dropWhile_none)
qed

lemma int_base16_hex:
  assumes "list_all hex_char s" "s \<noteq> []"
  shows "int_base16 s = Some (hex_number s)"
proof -
  have "\<forall>c \<in> set s. \<not> is_space c"
    and plus: "\<forall>c \<in> set s. c \<noteq> CHR ''+'' \<and> c \<noteq> CHR ''x'' \<and> c \<noteq> CHR ''X''"
    using assms(1) hex_char_plain by (auto simp: list_all_iff)
  then have "int_strip s = s" by (simp add: int_strip_def int_space_def dropWhile_none)
  moreover have "\<not> startswith s (p @ c # q)" if "c \<in> {CHR ''+'', CHR ''x'', CHR ''X''}" for p c q
    using that plus by (force simp: startswith_iff)
  from this [of "CHR ''+''" "[]" "[]"] this [of "CHR ''x''" "''0''" "[]"]
    this [of "CHR ''X''" "''0''" "[]"]
  have "\<not> startswith s ''+''" "\<not> startswith s ''0x''" "\<not> startswith s ''0X''" by simp_all
  ultimately show ?thesis
    using hex_digits_all [OF assms(1), of False 0] assms(2) by (simp add: int_base16_def hex_number_def)
qed

lemma uuid_text_canonical: "canonical_uuid s \<Longrightarrow> uuid_text s = Inr s"
proof -
  assume "canonical_uuid s"
  then obtain a b c d e where s: "s = join ''-'' [a, b, c, d, e]"
    and len: "length a = 8" "length b = 4" "length c = 4" "length d = 4" "length e = 12"
    and hex: "list_all hex_char (a @ b @ c @ d @ e)" by (auto simp: canonical_uuid_def)
  have chars: "x \<in> set (a @ b @ c @ d @ e) \<Longrightarrow> hex_char x" for x
    using hex by (simp only: list_all_iff)
  have "x \<in> set s \<Longrightarrow> x = CHR ''-'' \<or> hex_char x" for x using chars [of x] s by auto
  then have "CHR ''u'' \<notin> set s" and "set ''{}'' \<inter> set s = {}" using hex_char_plain by fastforce+
  then have "remove_all ''-'' (strip_chars ''{}'' (remove_all ''uuid:'' (remove_all ''urn:'' s))) =
      filter (\<lambda>x. x \<noteq> CHR ''-'') s"
    by (simp add: remove_all_absent strip_chars_absent remove_char)
  also have "\<dots> = a @ b @ c @ d @ e"
  proof -
    have "filter (\<lambda>x. x \<noteq> CHR ''-'') y = y" if "y \<in> {a, b, c, d, e}" for y
      using that chars hex_char_plain by (intro filter_True) auto
    with s show ?thesis by simp
  qed
  finally have h: "remove_all ''-'' (strip_chars ''{}'' (remove_all ''uuid:'' (remove_all ''urn:'' s))) =
      a @ b @ c @ d @ e" .
  have "hex_text 32 (hex_number (a @ b @ c @ d @ e)) = a @ b @ c @ d @ e"
    using hex_text_number [OF hex] len by simp
  moreover have "a @ b @ c @ d @ e \<noteq> []" using len by auto
  then have "int_base16 (a @ b @ c @ d @ e) = Some (hex_number (a @ b @ c @ d @ e))"
    by (rule int_base16_hex [OF hex])
  ultimately show ?thesis
    unfolding uuid_text_def Let_def h by (simp add: s len)
qed

lemma uuid_text_is_canonical:
  assumes "uuid_text s = Inr t"
  shows "canonical_uuid t"
proof -
  from assms obtain n where t: "t = (let x = hex_text 32 n in
      join ''-'' [take 8 x, take 4 (drop 8 x), take 4 (drop 12 x), take 4 (drop 16 x), drop 20 x])"
    by (auto simp: uuid_text_def Let_def split: if_splits option.splits)
  let ?x = "hex_text 32 n"
  have "x \<in> set (take 8 ?x @ take 4 (drop 8 ?x) @ take 4 (drop 12 ?x) @ take 4 (drop 16 ?x) @ drop 20 ?x) \<Longrightarrow>
      x \<in> set ?x" for x by (auto dest: in_set_takeD in_set_dropD)
  then have "list_all hex_char
      (take 8 ?x @ take 4 (drop 8 ?x) @ take 4 (drop 12 ?x) @ take 4 (drop 16 ?x) @ drop 20 ?x)"
    using hex_text_chars [of 32 n] unfolding list_all_iff by blast
  with t show ?thesis unfolding canonical_uuid_def Let_def
    by (intro exI [of _ "take 8 ?x"] exI [of _ "take 4 (drop 8 ?x)"] exI [of _ "take 4 (drop 12 ?x)"]
        exI [of _ "take 4 (drop 16 ?x)"] exI [of _ "drop 20 ?x"]) simp
qed

theorem uuid_fixed_point: "uuid_text s = Inr s \<longleftrightarrow> canonical_uuid s"
  using uuid_text_canonical uuid_text_is_canonical by blast

end
