(* ===== verification/Protocol.thy ===== *)
theory Protocol
  imports Classifier Uuid
begin

text \<open>
  \<^verbatim>\<open>protocol.py\<close>: the requests and responses of the service socket and the frames of the
  bridge. Every message is a dictionary; a decoder checks its keys, types and bounds before it builds a
  value, and every encoder decodes what it wrote.
\<close>

section \<open>Limits and enumerations\<close>

definition MAX_INTEGER :: int where "MAX_INTEGER = 2 ^ 63 - 1"
definition MAX_JSON_NESTING :: nat where "MAX_JSON_NESTING = 16"

definition SUPPORTED_ADAPTERS :: "string list" where
  "SUPPORTED_ADAPTERS = [''gnome-terminal'', ''kitty'', ''ghostty'', ''xfce4-terminal'', ''konsole'']"

datatype EventType = Ev_COMMAND_STARTED | Ev_COMMAND_FINISHED | Ev_PROMPT_READY | Ev_CWD_CHANGED
  | Ev_EXPLICIT_EXIT

datatype Operation = Op_REGISTER | Op_COMMAND_STARTED | Op_COMMAND_FINISHED | Op_PROMPT_READY
  | Op_CWD_CHANGED | Op_EXPLICIT_EXIT | Op_STATUS | Op_SNAPSHOT | Op_RESTORE_LIST | Op_RESTORE_EXECUTE
  | Op_RESTORE_RETRY | Op_DISCARD

datatype ErrorCode = INVALID_REQUEST | PEER_REJECTED | UNAUTHORIZED | SEQUENCE_REJECTED
  | WORKSPACE_MISMATCH | UNKNOWN_ITEM | ATTEMPT_MISMATCH | ADAPTER_UNAVAILABLE | PERSISTENCE_FAILED
  | SERVICE_UNAVAILABLE | INTERNAL_ERROR

fun EventType_value :: "EventType \<Rightarrow> string" where
  "EventType_value Ev_COMMAND_STARTED = ''command_started''"
| "EventType_value Ev_COMMAND_FINISHED = ''command_finished''"
| "EventType_value Ev_PROMPT_READY = ''prompt_ready''"
| "EventType_value Ev_CWD_CHANGED = ''cwd_changed''"
| "EventType_value Ev_EXPLICIT_EXIT = ''explicit_exit''"

definition EventType_members :: "EventType list" where
  "EventType_members =
     [Ev_COMMAND_STARTED, Ev_COMMAND_FINISHED, Ev_PROMPT_READY, Ev_CWD_CHANGED, Ev_EXPLICIT_EXIT]"

fun Operation_value :: "Operation \<Rightarrow> string" where
  "Operation_value Op_REGISTER = ''register''"
| "Operation_value Op_COMMAND_STARTED = ''command_started''"
| "Operation_value Op_COMMAND_FINISHED = ''command_finished''"
| "Operation_value Op_PROMPT_READY = ''prompt_ready''"
| "Operation_value Op_CWD_CHANGED = ''cwd_changed''"
| "Operation_value Op_EXPLICIT_EXIT = ''explicit_exit''"
| "Operation_value Op_STATUS = ''status''"
| "Operation_value Op_SNAPSHOT = ''snapshot''"
| "Operation_value Op_RESTORE_LIST = ''restore_list''"
| "Operation_value Op_RESTORE_EXECUTE = ''restore_execute''"
| "Operation_value Op_RESTORE_RETRY = ''restore_retry''"
| "Operation_value Op_DISCARD = ''discard''"

definition Operation_members :: "Operation list" where
  "Operation_members =
     [Op_REGISTER, Op_COMMAND_STARTED, Op_COMMAND_FINISHED, Op_PROMPT_READY, Op_CWD_CHANGED,
      Op_EXPLICIT_EXIT, Op_STATUS, Op_SNAPSHOT, Op_RESTORE_LIST, Op_RESTORE_EXECUTE,
      Op_RESTORE_RETRY, Op_DISCARD]"

fun ErrorCode_value :: "ErrorCode \<Rightarrow> string" where
  "ErrorCode_value INVALID_REQUEST = ''invalid_request''"
| "ErrorCode_value PEER_REJECTED = ''peer_rejected''"
| "ErrorCode_value UNAUTHORIZED = ''unauthorized''"
| "ErrorCode_value SEQUENCE_REJECTED = ''sequence_rejected''"
| "ErrorCode_value WORKSPACE_MISMATCH = ''workspace_mismatch''"
| "ErrorCode_value UNKNOWN_ITEM = ''unknown_item''"
| "ErrorCode_value ATTEMPT_MISMATCH = ''attempt_mismatch''"
| "ErrorCode_value ADAPTER_UNAVAILABLE = ''adapter_unavailable''"
| "ErrorCode_value PERSISTENCE_FAILED = ''persistence_failed''"
| "ErrorCode_value SERVICE_UNAVAILABLE = ''service_unavailable''"
| "ErrorCode_value INTERNAL_ERROR = ''internal_error''"

definition ErrorCode_members :: "ErrorCode list" where
  "ErrorCode_members =
     [INVALID_REQUEST, PEER_REJECTED, UNAUTHORIZED, SEQUENCE_REJECTED, WORKSPACE_MISMATCH,
      UNKNOWN_ITEM, ATTEMPT_MISMATCH, ADAPTER_UNAVAILABLE, PERSISTENCE_FAILED,
      SERVICE_UNAVAILABLE, INTERNAL_ERROR]"

fun ERROR_MESSAGES :: "ErrorCode \<Rightarrow> string" where
  "ERROR_MESSAGES INVALID_REQUEST = ''request rejected''"
| "ERROR_MESSAGES PEER_REJECTED = ''peer uid rejected''"
| "ERROR_MESSAGES UNAUTHORIZED = ''event authority rejected''"
| "ERROR_MESSAGES SEQUENCE_REJECTED = ''event sequence rejected''"
| "ERROR_MESSAGES WORKSPACE_MISMATCH = ''recovery workspace rejected''"
| "ERROR_MESSAGES UNKNOWN_ITEM = ''recovery item rejected''"
| "ERROR_MESSAGES ATTEMPT_MISMATCH = ''recovery attempt rejected''"
| "ERROR_MESSAGES ADAPTER_UNAVAILABLE = ''terminal adapter unavailable''"
| "ERROR_MESSAGES PERSISTENCE_FAILED = ''recovery state was not saved''"
| "ERROR_MESSAGES SERVICE_UNAVAILABLE = ''service unavailable''"
| "ERROR_MESSAGES INTERNAL_ERROR = ''request could not be completed''"

lemma EventType_all: "x \<in> set EventType_members"
  by (cases x) (simp_all add: EventType_members_def)

lemma Operation_all: "x \<in> set Operation_members"
  by (cases x) (simp_all add: Operation_members_def)

lemma ErrorCode_all: "x \<in> set ErrorCode_members"
  by (cases x) (simp_all add: ErrorCode_members_def)

interpretation event_enum: str_enum EventType_value EventType_members
  by (rule str_enumI [OF EventType_all]) (simp_all add: EventType_members_def)

interpretation operation_enum: str_enum Operation_value Operation_members
  by (rule str_enumI [OF Operation_all]) (simp_all add: Operation_members_def)

interpretation error_enum: str_enum ErrorCode_value ErrorCode_members
  by (rule str_enumI [OF ErrorCode_all]) (simp_all add: ErrorCode_members_def)

section \<open>Text that may leave the service\<close>

definition SAFE_EXTERNAL_TEXT_CATALOG :: "string list" where
  "SAFE_EXTERNAL_TEXT_CATALOG = [''healthy'', ''partial'', ''prior_boot'', ''previous_boot'',
     ''same_boot_dead'', ''process_unknown'', ''explicit_exit'', ''still_alive'', ''restored'',
     ''details unavailable'']"

text \<open>The class has no public constructor: values come from \<open>catalog\<close> and \<open>sanitize\<close>.\<close>

datatype SafeExternalText = SafeText (text_value: string)

definition catalog :: "string \<Rightarrow> SafeExternalText result" where
  "catalog s =
     (if s \<in> set SAFE_EXTERNAL_TEXT_CATALOG then Inr (SafeText s)
      else Inl (ValueError ''external text is not in the fixed catalog''))"

definition sanitize :: "'a \<Rightarrow> SafeExternalText result" where
  "sanitize untrusted = catalog ''details unavailable''"

text \<open>A replay display either has classifier provenance or was read from the wire.\<close>

datatype ReplayDisplay = RedactedDisplay string | DecodedReplayDisplay string

definition SAFE_REPLAY_DISPLAY_RE :: rx where
  "SAFE_REPLAY_DISPLAY_RE = Cat (Cls (\<lambda>c. is_letter c \<or> is_digit c))
     (Star (Cls (\<lambda>c. is_letter c \<or> is_digit c \<or> c \<in> set '' ./_+-'')))"

definition from_command_record :: "CommandRecord \<Rightarrow> ReplayDisplay result" where
  "from_command_record record =
     (let source = (case executable record of Some x \<Rightarrow> if x \<noteq> [] then x else display record
                    | None \<Rightarrow> display record) in
      bind_r (classify_command source (cmd_sequence record)) (\<lambda>c.
      let classified' = classified c in
      bind_r (raise_if (disposition classified' \<noteq> REPLAYABLE \<or> \<not> active classified' \<or>
          executable classified' \<noteq> executable record \<or> display classified' \<noteq> display record \<or>
          \<not> active record)
        (ValueError ''command record does not match classifier policy'')) (\<lambda>_.
      let value = display classified' in
      bind_r (raise_if (length value > MAX_DIAGNOSTIC_CHARS \<or> \<not> fullmatch SAFE_REPLAY_DISPLAY_RE value)
        (ValueError ''classified display violates bounded display policy'')) (\<lambda>_.
      bind_r (raise_if (startswith value ''cat '' \<or> startswith value ''rm '' \<or>
          (\<exists>m \<in> set [''/etc/'', ''/private'', ''..'', ''='', '';'']. contains value m))
        (ValueError ''classified display violates bounded display policy'')) (\<lambda>_.
      Inr (RedactedDisplay value))))))"

section \<open>Messages\<close>

record LocalEvent =
  le_type :: EventType
  le_shell_id :: string
  le_cwd :: "string option"
  le_command_sequence :: "int option"
  le_command :: "string option"
  le_exit_status :: "int option"

record RegisterRequest =
  reg_shell_id :: string
  reg_identity :: ProcessIdentity
  reg_adapter :: string
  reg_cwd :: string
  reg_sequence :: int

record EventRequest =
  ev_operation :: Operation
  ev_shell_id :: string
  ev_capability :: string
  ev_identity :: ProcessIdentity
  ev_sequence :: int
  ev_cwd :: "string option"
  ev_command_sequence :: "int option"
  ev_command :: "string option"
  ev_exit_status :: "int option"

datatype ServiceRequest =
    Register RegisterRequest
  | Event EventRequest
  | StatusRequest
  | SnapshotRequest
  | RestoreListRequest "string option" "string option"
  | RestoreExecuteRequest string "string list" "string list"
  | RestoreRetryRequest string string "string list"
  | DiscardRequest string

record StatusView =
  registered_shells :: int
  st_dirty_generation :: int
  st_durable_generation :: int
  write_active :: bool
  durability_degraded :: bool
  st_last_error :: "SafeExternalText option"
  recovery_item_count :: int
  st_diagnostics :: "SafeExternalText list"

record RecoveryItemView =
  v_item_id :: string
  v_shell_id :: string
  v_reason :: SafeExternalText
  v_level :: RestorationLevel
  v_directory :: string
  v_directory_warning :: "SafeExternalText option"
  v_replay_display :: "ReplayDisplay option"
  v_replay_eligible :: bool
  v_resume_command :: string
  v_resume_summary :: string
  v_resume_session_count :: int

record OutcomeView =
  ov_item_id :: string
  ov_kind :: OutcomeKind
  ov_message :: SafeExternalText

datatype ServiceResponse =
    RegisterResponse string int
  | EventResponse int
  | StatusResponse StatusView
  | SnapshotResponse int
  | RestoreListResponse "string option" "RecoveryItemView list" "SafeExternalText list"
  | RestoreResultResponse string string "OutcomeView list" "string list"
  | DiscardResponse string
  | ErrorResponse ErrorCode string

section \<open>Reading a value\<close>

text \<open>
  The explicit stack of \<^verbatim>\<open>_require_json_depth\<close>, its top first: a popped node is tested, and its children are
  pushed one level deeper.
\<close>

fun children :: "json \<Rightarrow> json list" where
  "children (JObj kvs) = map snd kvs"
| "children (JArr vs) = vs"
| "children _ = []"

lemma children_smaller: "sum_list (map (\<lambda>v. Suc (size v)) (children v)) < Suc (size v)"
proof (cases v)
  case (JArr vs)
  then show ?thesis by (simp add: size_list_conv_sum_list sum_list_Suc)
next
  case (JObj kvs)
  have "sum_list (map (\<lambda>kv. Suc (size (snd kv))) kvs) \<le>
      sum_list (map (\<lambda>kv. Suc (size_prod (\<lambda>x. 0) size kv)) kvs)"
    by (rule sum_list_mono) (auto simp: size_prod_simp)
  with JObj show ?thesis by (simp add: size_list_conv_sum_list sum_list_Suc comp_def)
qed simp_all

function depth_loop :: "(json \<times> nat) list \<Rightarrow> unit result" where
  "depth_loop [] = Inr ()"
| "depth_loop ((current, depth) # stack) =
     (if depth > MAX_JSON_NESTING then Inl (ValueError ''JSON nesting exceeds limit'')
      else depth_loop (rev (map (\<lambda>child. (child, depth + 1)) (children current)) @ stack))"
  by pat_completeness auto
termination
proof (relation "measure (\<lambda>stack. sum_list (map (\<lambda>(v, d). Suc (size v)) stack))")
  fix current and depth :: nat and stack :: "(json \<times> nat) list"
  have "sum_list (map (\<lambda>(v, d). Suc (size v)) (rev (map (\<lambda>child. (child, depth + 1)) (children current)))) =
    sum_list (map (\<lambda>v. Suc (size v)) (children current))"
    by (simp add: rev_map sum_list_rev comp_def flip: rev_map)
  with children_smaller [of current]
  show "(rev (map (\<lambda>child. (child, depth + 1)) (children current)) @ stack, (current, depth) # stack)
    \<in> measure (\<lambda>stack. sum_list (map (\<lambda>(v, d). Suc (size v)) stack))" by simp
qed simp

definition require_json_depth :: "json \<Rightarrow> unit result" where
  "require_json_depth value = depth_loop [(value, 1)]"

definition exact :: "dict \<Rightarrow> string list \<Rightarrow> string \<Rightarrow> unit result" where
  "exact payload keys context =
     (let actual = dict_keys payload;
          unknown = filter (\<lambda>k. k \<notin> set keys) actual;
          missing = filter (\<lambda>k. k \<notin> set actual) keys in
      if unknown = [] \<and> missing = [] then Inr ()
      else if unknown \<noteq> [] then
        Inl (ValueError (''unknown keys in '' @ context @ '': '' @ join '', '' (sorted_set unknown)))
      else Inl (ValueError (''missing keys in '' @ context @ '': '' @ join '', '' (sorted_set missing))))"

text \<open>\<^verbatim>\<open>payload.get(key)\<close>, which is \<^verbatim>\<open>None\<close> for a missing key.\<close>

definition get :: "dict \<Rightarrow> string \<Rightarrow> json" where
  "get d k = (case dict_get d k of None \<Rightarrow> JNull | Some v \<Rightarrow> v)"

definition schema :: "dict \<Rightarrow> unit result" where
  "schema payload = raise_if (get payload ''schema_version'' \<noteq> JInt SCHEMA_VERSION)
     (ValueError ''unsupported schema version'')"

definition forbidden_char :: "char \<Rightarrow> bool" where
  "forbidden_char c \<longleftrightarrow> code c < 32 \<or> code c = 127"

definition read_string :: "json \<Rightarrow> string \<Rightarrow> nat \<Rightarrow> bool \<Rightarrow> string result" where
  "read_string value name limit may_be_empty =
     (case value of
        JStr s \<Rightarrow>
          bind_r (raise_if (\<not> may_be_empty \<and> s = []) (ValueError (name @ '' must be a string''))) (\<lambda>_.
          bind_r (raise_if (length s > limit) (ValueError (name @ '' exceeds character limit''))) (\<lambda>_.
          bind_r (raise_if (list_ex forbidden_char s)
            (ValueError (name @ '' contains forbidden characters''))) (\<lambda>_.
          Inr s)))
      | _ \<Rightarrow> Inl (ValueError (name @ '' must be a string'')))"

definition id_char :: "char \<Rightarrow> bool" where
  "id_char c \<longleftrightarrow> is_letter c \<or> is_digit c \<or> c = CHR ''_'' \<or> c = CHR ''-''"

definition matches_id :: "string \<Rightarrow> bool" where
  "matches_id s \<longleftrightarrow> 1 \<le> length s \<and> length s \<le> 128 \<and> list_all id_char s"

definition matches_capability :: "string \<Rightarrow> bool" where
  "matches_capability s \<longleftrightarrow> 32 \<le> length s \<and> length s \<le> 128 \<and> list_all id_char s"

definition read_id :: "json \<Rightarrow> string \<Rightarrow> bool \<Rightarrow> string result" where
  "read_id value name shell =
     bind_r (read_string value name MAX_ID_CHARS False) (\<lambda>r.
     bind_r (raise_if (\<not> matches_id r \<or> (shell \<and> length r < 16)) (ValueError (''invalid '' @ name))) (\<lambda>_.
     Inr r))"

definition read_capability :: "json \<Rightarrow> string result" where
  "read_capability value =
     bind_r (read_string value ''capability'' MAX_ID_CHARS False) (\<lambda>r.
     bind_r (raise_if (\<not> matches_capability r) (ValueError ''invalid capability'')) (\<lambda>_. Inr r))"

definition read_integer :: "json \<Rightarrow> string \<Rightarrow> int \<Rightarrow> int \<Rightarrow> int result" where
  "read_integer value name low high =
     (case value of
        JInt n \<Rightarrow> if low \<le> n \<and> n \<le> high then Inr n else Inl (ValueError (''invalid '' @ name))
      | _ \<Rightarrow> Inl (ValueError (''invalid '' @ name)))"

definition read_boolean :: "json \<Rightarrow> string \<Rightarrow> bool result" where
  "read_boolean value name =
     (case value of JBool b \<Rightarrow> Inr b | _ \<Rightarrow> Inl (ValueError (name @ '' must be boolean'')))"

definition read_absolute :: "json \<Rightarrow> string \<Rightarrow> string result" where
  "read_absolute value name =
     bind_r (read_string value name MAX_PATH_CHARS False) (\<lambda>r.
     bind_r (raise_if (\<not> startswith r ''/'') (ValueError (name @ '' must be absolute''))) (\<lambda>_. Inr r))"

definition read_enum :: "('e \<Rightarrow> string) \<Rightarrow> 'e list \<Rightarrow> json \<Rightarrow> string \<Rightarrow> 'e result" where
  "read_enum val members value name =
     bind_r (read_string value name MAX_ID_CHARS False) (\<lambda>bounded.
     case enum_of val members bounded of
       None \<Rightarrow> Inl (ValueError (''invalid '' @ name))
     | Some e \<Rightarrow> Inr e)"

definition read_identity :: "json \<Rightarrow> ProcessIdentity result" where
  "read_identity value =
     (case value of
        JObj d \<Rightarrow>
          bind_r (exact d [''boot_id'', ''pid'', ''start_time''] ''identity'') (\<lambda>_.
          bind_r (field d ''boot_id'' (\<lambda>v. read_string v ''boot_id'' MAX_ID_CHARS False)) (\<lambda>b.
          bind_r (case uuid_text b of Inl e \<Rightarrow> Inl (ValueError ''invalid boot_id'') | Inr t \<Rightarrow> Inr t) (\<lambda>canonical.
          bind_r (raise_if (canonical \<noteq> b) (ValueError ''boot_id must be canonical UUID text'')) (\<lambda>_.
          bind_r (field d ''pid'' (\<lambda>v. read_integer v ''pid'' 1 (2 ^ 31 - 1))) (\<lambda>p.
          bind_r (field d ''start_time'' (\<lambda>v. read_integer v ''start_time'' 0 MAX_INTEGER)) (\<lambda>t.
          ProcessIdentity_init canonical p t))))))
      | _ \<Rightarrow> Inl (ValueError ''identity must be an object''))"

definition bounded_typed_sequence :: "'a list \<Rightarrow> string \<Rightarrow> bool \<Rightarrow> 'a list result" where
  "bounded_typed_sequence xs name nonempty =
     (if length xs > MAX_ITEMS \<or> (nonempty \<and> xs = []) then Inl (ValueError (''invalid '' @ name))
      else Inr xs)"

definition json_sequence :: "json \<Rightarrow> string \<Rightarrow> json list result" where
  "json_sequence value name =
     (case value of JArr xs \<Rightarrow> Inr xs | _ \<Rightarrow> Inl (ValueError (''invalid '' @ name)))"

definition id_list :: "json list \<Rightarrow> string \<Rightarrow> bool \<Rightarrow> string list result" where
  "id_list xs name nonempty =
     bind_r (bounded_typed_sequence xs name nonempty) (\<lambda>seq.
     bind_r (traverse (\<lambda>v. read_id v name False) seq) (\<lambda>r.
     bind_r (raise_if (\<not> distinct r) (ValueError (''duplicate '' @ name))) (\<lambda>_. Inr r)))"

definition read_id_list :: "json \<Rightarrow> string \<Rightarrow> bool \<Rightarrow> string list result" where
  "read_id_list value name nonempty = bind_r (json_sequence value name) (\<lambda>xs. id_list xs name nonempty)"

definition safe_external_text_from_wire :: "json \<Rightarrow> string \<Rightarrow> SafeExternalText result" where
  "safe_external_text_from_wire value name =
     bind_r (read_string value name MAX_DIAGNOSTIC_CHARS True) catalog"

definition safe_external_text_list :: "json \<Rightarrow> string \<Rightarrow> SafeExternalText list result" where
  "safe_external_text_list value name =
     (case value of
        JArr xs \<Rightarrow>
          if length xs > MAX_ITEMS then Inl (ValueError (''invalid '' @ name))
          else traverse (\<lambda>v. safe_external_text_from_wire v name) xs
      | _ \<Rightarrow> Inl (ValueError (''invalid '' @ name)))"

section \<open>Frames of the bridge\<close>

definition when_in :: "string \<Rightarrow> string list \<Rightarrow> 'a result \<Rightarrow> 'a option result" where
  "when_in k extra r = (if k \<in> set extra then bind_r r (\<lambda>x. Inr (Some x)) else Inr None)"

fun local_extra :: "EventType \<Rightarrow> string list" where
  "local_extra Ev_COMMAND_STARTED = [''command_sequence'', ''command'']"
| "local_extra Ev_COMMAND_FINISHED = [''command_sequence'', ''exit_status'']"
| "local_extra Ev_PROMPT_READY = [''cwd'']"
| "local_extra Ev_CWD_CHANGED = [''cwd'']"
| "local_extra Ev_EXPLICIT_EXIT = []"

definition local_decoder :: "dict \<Rightarrow> LocalEvent result" where
  "local_decoder p =
     bind_r (schema p) (\<lambda>_.
     bind_r (read_enum EventType_value EventType_members (get p ''type'') ''type'') (\<lambda>ty.
     let extra = local_extra ty in
     bind_r (exact p ([''schema_version'', ''type'', ''shell_id''] @ extra) ''local event'') (\<lambda>_.
     bind_r (field p ''shell_id'' (\<lambda>v. read_id v ''shell_id'' True)) (\<lambda>sid.
     bind_r (when_in ''cwd'' extra (field p ''cwd'' (\<lambda>v. read_absolute v ''cwd''))) (\<lambda>dir.
     bind_r (when_in ''command_sequence'' extra
       (field p ''command_sequence'' (\<lambda>v. read_integer v ''command_sequence'' 1 MAX_INTEGER))) (\<lambda>cs.
     bind_r (when_in ''command'' extra
       (field p ''command'' (\<lambda>v. read_string v ''command'' MAX_COMMAND_CHARS False))) (\<lambda>cmd.
     bind_r (when_in ''exit_status'' extra
       (field p ''exit_status'' (\<lambda>v. read_integer v ''exit_status'' 0 255))) (\<lambda>st.
     Inr \<lparr>le_type = ty, le_shell_id = sid, le_cwd = dir, le_command_sequence = cs,
          le_command = cmd, le_exit_status = st\<rparr>))))))))"

definition opt_str :: "string option \<Rightarrow> json" where "opt_str x = (case x of None \<Rightarrow> JNull | Some s \<Rightarrow> JStr s)"
definition opt_int :: "int option \<Rightarrow> json" where "opt_int x = (case x of None \<Rightarrow> JNull | Some n \<Rightarrow> JInt n)"

definition local_to_dict :: "LocalEvent \<Rightarrow> dict" where
  "local_to_dict e =
     [(''schema_version'', JInt 1), (''type'', JStr (EventType_value (le_type e))),
      (''shell_id'', JStr (le_shell_id e))] @
     (if le_type e \<in> {Ev_PROMPT_READY, Ev_CWD_CHANGED} then [(''cwd'', opt_str (le_cwd e))]
      else if le_type e = Ev_COMMAND_STARTED then
        [(''command_sequence'', opt_int (le_command_sequence e)), (''command'', opt_str (le_command e))]
      else if le_type e = Ev_COMMAND_FINISHED then
        [(''command_sequence'', opt_int (le_command_sequence e)),
         (''exit_status'', opt_int (le_exit_status e))]
      else [])"

section \<open>Requests\<close>

fun event_extra :: "Operation \<Rightarrow> string list option" where
  "event_extra Op_COMMAND_STARTED = Some [''command_sequence'', ''command'']"
| "event_extra Op_COMMAND_FINISHED = Some [''command_sequence'', ''exit_status'']"
| "event_extra Op_PROMPT_READY = Some [''cwd'']"
| "event_extra Op_CWD_CHANGED = Some [''cwd'']"
| "event_extra Op_EXPLICIT_EXIT = Some []"
| "event_extra _ = None"

definition decode_register :: "dict \<Rightarrow> ServiceRequest result" where
  "decode_register p =
     bind_r (exact p [''schema_version'', ''operation'', ''shell_id'', ''identity'', ''adapter'', ''cwd'',
       ''sequence''] ''register request'') (\<lambda>_.
     bind_r (field p ''adapter'' (\<lambda>v. read_string v ''adapter'' MAX_ID_CHARS False)) (\<lambda>ad.
     bind_r (raise_if (ad \<notin> set SUPPORTED_ADAPTERS) (ValueError ''invalid adapter'')) (\<lambda>_.
     bind_r (field p ''shell_id'' (\<lambda>v. read_id v ''shell_id'' True)) (\<lambda>sid.
     bind_r (field p ''identity'' read_identity) (\<lambda>idn.
     bind_r (field p ''cwd'' (\<lambda>v. read_absolute v ''cwd'')) (\<lambda>dir.
     bind_r (field p ''sequence'' (\<lambda>v. read_integer v ''sequence'' 0 0)) (\<lambda>q.
     Inr (Register \<lparr>reg_shell_id = sid, reg_identity = idn, reg_adapter = ad, reg_cwd = dir,
       reg_sequence = q\<rparr>))))))))"

definition decode_event :: "dict \<Rightarrow> Operation \<Rightarrow> ServiceRequest result" where
  "decode_event p op =
     (case event_extra op of
        None \<Rightarrow> Inl (KeyError (Operation_value op))
      | Some extra \<Rightarrow>
     bind_r (exact p ([''schema_version'', ''operation'', ''shell_id'', ''capability'', ''identity'',
       ''sequence''] @ extra) ''event request'') (\<lambda>_.
     bind_r (field p ''shell_id'' (\<lambda>v. read_id v ''shell_id'' True)) (\<lambda>sid.
     bind_r (field p ''capability'' read_capability) (\<lambda>cap.
     bind_r (field p ''identity'' read_identity) (\<lambda>idn.
     bind_r (field p ''sequence'' (\<lambda>v. read_integer v ''sequence'' 1 MAX_INTEGER)) (\<lambda>q.
     bind_r (when_in ''cwd'' extra (field p ''cwd'' (\<lambda>v. read_absolute v ''cwd''))) (\<lambda>dir.
     bind_r (when_in ''command_sequence'' extra
       (field p ''command_sequence'' (\<lambda>v. read_integer v ''command_sequence'' 1 MAX_INTEGER))) (\<lambda>cs.
     bind_r (when_in ''command'' extra
       (field p ''command'' (\<lambda>v. read_string v ''command'' MAX_COMMAND_CHARS False))) (\<lambda>cmd.
     bind_r (when_in ''exit_status'' extra
       (field p ''exit_status'' (\<lambda>v. read_integer v ''exit_status'' 0 255))) (\<lambda>st.
     Inr (Event \<lparr>ev_operation = op, ev_shell_id = sid, ev_capability = cap, ev_identity = idn,
       ev_sequence = q, ev_cwd = dir, ev_command_sequence = cs, ev_command = cmd,
       ev_exit_status = st\<rparr>)))))))))))"

definition decode_control :: "dict \<Rightarrow> ServiceRequest \<Rightarrow> ServiceRequest result" where
  "decode_control p r =
     bind_r (exact p [''schema_version'', ''operation''] ''control request'') (\<lambda>_. Inr r)"

definition decode_restore_list :: "dict \<Rightarrow> ServiceRequest result" where
  "decode_restore_list p =
     (if set (dict_keys p) = {''schema_version'', ''operation''} then Inr (RestoreListRequest None None)
      else
        bind_r (exact p [''schema_version'', ''operation'', ''workspace_id'', ''attempt_id'']
          ''restore list request'') (\<lambda>_.
        bind_r (field p ''workspace_id'' (\<lambda>v. read_id v ''workspace_id'' False)) (\<lambda>w.
        bind_r (field p ''attempt_id'' (\<lambda>v. read_id v ''attempt_id'' False)) (\<lambda>a.
        Inr (RestoreListRequest (Some w) (Some a))))))"

definition decode_execute :: "dict \<Rightarrow> ServiceRequest result" where
  "decode_execute p =
     bind_r (exact p [''schema_version'', ''operation'', ''workspace_id'', ''selected_item_ids'',
       ''approved_item_ids''] ''restore execute request'') (\<lambda>_.
     bind_r (field p ''selected_item_ids'' (\<lambda>v. read_id_list v ''selected_item_ids'' True)) (\<lambda>selected.
     bind_r (field p ''approved_item_ids'' (\<lambda>v. read_id_list v ''approved_item_ids'' False)) (\<lambda>approved.
     bind_r (raise_if (\<not> set approved \<subseteq> set selected) (ValueError ''approved IDs must be selected'')) (\<lambda>_.
     bind_r (field p ''workspace_id'' (\<lambda>v. read_id v ''workspace_id'' False)) (\<lambda>w.
     Inr (RestoreExecuteRequest w selected approved))))))"

definition decode_retry :: "dict \<Rightarrow> ServiceRequest result" where
  "decode_retry p =
     bind_r (exact p [''schema_version'', ''operation'', ''workspace_id'', ''attempt_id'',
       ''approved_item_ids''] ''restore retry request'') (\<lambda>_.
     bind_r (field p ''workspace_id'' (\<lambda>v. read_id v ''workspace_id'' False)) (\<lambda>w.
     bind_r (field p ''attempt_id'' (\<lambda>v. read_id v ''attempt_id'' False)) (\<lambda>a.
     bind_r (field p ''approved_item_ids'' (\<lambda>v. read_id_list v ''approved_item_ids'' False)) (\<lambda>approved.
     Inr (RestoreRetryRequest w a approved)))))"

definition decode_discard :: "dict \<Rightarrow> ServiceRequest result" where
  "decode_discard p =
     bind_r (exact p [''schema_version'', ''operation'', ''workspace_id'', ''confirm''] ''discard request'') (\<lambda>_.
     bind_r (field p ''confirm'' (\<lambda>v. raise_if (v \<noteq> JBool True) (ValueError ''confirm must be true''))) (\<lambda>_.
     bind_r (field p ''workspace_id'' (\<lambda>v. read_id v ''workspace_id'' False)) (\<lambda>w.
     Inr (DiscardRequest w))))"

fun REQUEST_DECODERS :: "Operation \<Rightarrow> dict \<Rightarrow> ServiceRequest result" where
  "REQUEST_DECODERS Op_REGISTER p = decode_register p"
| "REQUEST_DECODERS Op_STATUS p = decode_control p StatusRequest"
| "REQUEST_DECODERS Op_SNAPSHOT p = decode_control p SnapshotRequest"
| "REQUEST_DECODERS Op_RESTORE_LIST p = decode_restore_list p"
| "REQUEST_DECODERS Op_RESTORE_EXECUTE p = decode_execute p"
| "REQUEST_DECODERS Op_RESTORE_RETRY p = decode_retry p"
| "REQUEST_DECODERS Op_DISCARD p = decode_discard p"
| "REQUEST_DECODERS op p = decode_event p op"

definition decode_request_payload :: "dict \<Rightarrow> ServiceRequest result" where
  "decode_request_payload p =
     bind_r (schema p) (\<lambda>_.
     bind_r (read_enum Operation_value Operation_members (get p ''operation'') ''operation'') (\<lambda>op.
     REQUEST_DECODERS op p))"

definition event_fields :: "EventRequest \<Rightarrow> dict" where
  "event_fields e =
     (if ev_operation e \<in> {Op_PROMPT_READY, Op_CWD_CHANGED} then [(''cwd'', opt_str (ev_cwd e))]
      else if ev_operation e = Op_COMMAND_STARTED then
        [(''command_sequence'', opt_int (ev_command_sequence e)), (''command'', opt_str (ev_command e))]
      else if ev_operation e = Op_COMMAND_FINISHED then
        [(''command_sequence'', opt_int (ev_command_sequence e)),
         (''exit_status'', opt_int (ev_exit_status e))]
      else [])"

fun request_to_dict :: "ServiceRequest \<Rightarrow> dict result" where
  "request_to_dict (Register r) =
     Inr [(''schema_version'', JInt 1), (''operation'', JStr ''register''),
          (''shell_id'', JStr (reg_shell_id r)), (''identity'', identity_to_dict (reg_identity r)),
          (''adapter'', JStr (reg_adapter r)), (''cwd'', JStr (reg_cwd r)),
          (''sequence'', JInt (reg_sequence r))]"
| "request_to_dict (Event e) =
     Inr ([(''schema_version'', JInt 1), (''operation'', JStr (Operation_value (ev_operation e))),
           (''shell_id'', JStr (ev_shell_id e)), (''capability'', JStr (ev_capability e)),
           (''identity'', identity_to_dict (ev_identity e)), (''sequence'', JInt (ev_sequence e))] @
          event_fields e)"
| "request_to_dict StatusRequest = Inr [(''schema_version'', JInt 1), (''operation'', JStr ''status'')]"
| "request_to_dict SnapshotRequest = Inr [(''schema_version'', JInt 1), (''operation'', JStr ''snapshot'')]"
| "request_to_dict (RestoreListRequest w a) =
     (case (w, a) of
        (None, None) \<Rightarrow> Inr [(''schema_version'', JInt 1), (''operation'', JStr ''restore_list'')]
      | (Some w', Some a') \<Rightarrow>
          bind_r (read_id (JStr w') ''workspace_id'' False) (\<lambda>wid.
          bind_r (read_id (JStr a') ''attempt_id'' False) (\<lambda>aid.
          Inr [(''schema_version'', JInt 1), (''operation'', JStr ''restore_list''),
               (''workspace_id'', JStr wid), (''attempt_id'', JStr aid)]))
      | _ \<Rightarrow> Inl (ValueError ''workspace_id and attempt_id must be provided together''))"
| "request_to_dict (RestoreExecuteRequest w selected approved) =
     bind_r (id_list (map JStr selected) ''selected_item_ids'' True) (\<lambda>ss.
     bind_r (id_list (map JStr approved) ''approved_item_ids'' False) (\<lambda>aa.
     Inr [(''schema_version'', JInt 1), (''operation'', JStr ''restore_execute''), (''workspace_id'', JStr w),
          (''selected_item_ids'', JArr (map JStr ss)), (''approved_item_ids'', JArr (map JStr aa))]))"
| "request_to_dict (RestoreRetryRequest w a approved) =
     bind_r (id_list (map JStr approved) ''approved_item_ids'' False) (\<lambda>aa.
     Inr [(''schema_version'', JInt 1), (''operation'', JStr ''restore_retry''), (''workspace_id'', JStr w),
          (''attempt_id'', JStr a), (''approved_item_ids'', JArr (map JStr aa))])"
| "request_to_dict (DiscardRequest w) =
     Inr [(''schema_version'', JInt 1), (''operation'', JStr ''discard''), (''workspace_id'', JStr w),
          (''confirm'', JBool True)]"

section \<open>Responses\<close>

definition read_item :: "json \<Rightarrow> RecoveryItemView result" where
  "read_item value =
     (case value of
        JObj d \<Rightarrow>
          bind_r (exact d [''item_id'', ''shell_id'', ''reason'', ''level'', ''directory'', ''directory_warning'',
            ''replay_display'', ''replay_eligible'', ''resume_command'', ''resume_summary'',
            ''resume_session_count''] ''item'') (\<lambda>_.
          bind_r (field d ''item_id'' (\<lambda>v. read_id v ''item_id'' False)) (\<lambda>i.
          bind_r (field d ''shell_id'' (\<lambda>v. read_id v ''shell_id'' True)) (\<lambda>s.
          bind_r (field d ''reason'' (\<lambda>v. safe_external_text_from_wire v ''reason'')) (\<lambda>r.
          bind_r (field d ''level'' (\<lambda>v. read_enum RestorationLevel_value RestorationLevel_members v ''level'')) (\<lambda>l.
          bind_r (field d ''directory'' (\<lambda>v. read_absolute v ''directory'')) (\<lambda>dir.
          bind_r (field d ''directory_warning''
            (nullable (\<lambda>v. safe_external_text_from_wire v ''directory_warning''))) (\<lambda>w.
          bind_r (field d ''replay_display''
            (nullable (\<lambda>v. bind_r (read_string v ''replay_display'' MAX_COMMAND_CHARS True)
               (\<lambda>s. Inr (DecodedReplayDisplay s))))) (\<lambda>rd.
          bind_r (field d ''replay_eligible'' (\<lambda>v. read_boolean v ''replay_eligible'')) (\<lambda>re.
          bind_r (field d ''resume_command'' (\<lambda>v. read_string v ''resume_command'' MAX_COMMAND_CHARS True)) (\<lambda>rc.
          bind_r (field d ''resume_summary'' (\<lambda>v. read_string v ''resume_summary'' MAX_COMMAND_CHARS True)) (\<lambda>rs.
          bind_r (field d ''resume_session_count''
            (\<lambda>v. read_integer v ''resume_session_count'' 0 MAX_INTEGER)) (\<lambda>n.
          Inr \<lparr>v_item_id = i, v_shell_id = s, v_reason = r, v_level = l, v_directory = dir,
            v_directory_warning = w, v_replay_display = rd, v_replay_eligible = re,
            v_resume_command = rc, v_resume_summary = rs, v_resume_session_count = n\<rparr>))))))))))))
      | _ \<Rightarrow> Inl (ValueError ''item must be object''))"

definition read_outcome :: "json \<Rightarrow> OutcomeView result" where
  "read_outcome value =
     (case value of
        JObj d \<Rightarrow>
          bind_r (exact d [''item_id'', ''kind'', ''message''] ''outcome'') (\<lambda>_.
          bind_r (field d ''item_id'' (\<lambda>v. read_id v ''item_id'' False)) (\<lambda>i.
          bind_r (field d ''kind'' (\<lambda>v. read_enum OutcomeKind_value OutcomeKind_members v ''kind'')) (\<lambda>k.
          bind_r (field d ''message'' (\<lambda>v. safe_external_text_from_wire v ''message'')) (\<lambda>m.
          Inr \<lparr>ov_item_id = i, ov_kind = k, ov_message = m\<rparr>))))
      | _ \<Rightarrow> Inl (ValueError ''outcome must be object''))"

definition object_list :: "json \<Rightarrow> string \<Rightarrow> (json \<Rightarrow> 'a result) \<Rightarrow> ('a \<Rightarrow> string) \<Rightarrow> 'a list result" where
  "object_list value name reader item_id_of =
     (case value of
        JArr xs \<Rightarrow>
          bind_r (raise_if (length xs > MAX_ITEMS) (ValueError (''invalid '' @ name))) (\<lambda>_.
          bind_r (traverse reader xs) (\<lambda>r.
          bind_r (raise_if (\<not> distinct (map item_id_of r)) (ValueError (''duplicate '' @ name @ '' IDs''))) (\<lambda>_.
          Inr r)))
      | _ \<Rightarrow> Inl (ValueError (''invalid '' @ name)))"

definition common_keys :: "string list" where
  "common_keys = [''schema_version'', ''ok'', ''response'']"

definition read_register_response :: "dict \<Rightarrow> ServiceResponse result" where
  "read_register_response p =
     bind_r (exact p (common_keys @ [''capability'', ''resume_sequence'']) ''register'') (\<lambda>_.
     bind_r (field p ''capability'' read_capability) (\<lambda>c.
     bind_r (field p ''resume_sequence'' (\<lambda>v. read_integer v ''resume_sequence'' 0 MAX_INTEGER)) (\<lambda>n.
     Inr (RegisterResponse c n))))"

definition read_event_response :: "dict \<Rightarrow> ServiceResponse result" where
  "read_event_response p =
     bind_r (exact p (common_keys @ [''sequence'']) ''event'') (\<lambda>_.
     bind_r (field p ''sequence'' (\<lambda>v. read_integer v ''sequence'' 1 MAX_INTEGER)) (\<lambda>n.
     Inr (EventResponse n)))"

definition read_status_response :: "dict \<Rightarrow> ServiceResponse result" where
  "read_status_response p =
     bind_r (exact p (common_keys @ [''ready'', ''registered_shells'', ''dirty_generation'',
       ''durable_generation'', ''write_active'', ''durability_degraded'', ''last_error'',
       ''recovery_item_count'', ''diagnostics'']) ''status'') (\<lambda>_.
     bind_r (field p ''ready'' (\<lambda>v. raise_if (v \<noteq> JBool True) (ValueError ''ready must be true''))) (\<lambda>_.
     bind_r (field p ''registered_shells'' (\<lambda>v. read_integer v ''registered_shells'' 0 MAX_INTEGER)) (\<lambda>n.
     bind_r (field p ''dirty_generation'' (\<lambda>v. read_integer v ''dirty_generation'' 0 MAX_INTEGER)) (\<lambda>g.
     bind_r (field p ''durable_generation'' (\<lambda>v. read_integer v ''durable_generation'' 0 MAX_INTEGER)) (\<lambda>u.
     bind_r (field p ''write_active'' (\<lambda>v. read_boolean v ''write_active'')) (\<lambda>w.
     bind_r (field p ''durability_degraded'' (\<lambda>v. read_boolean v ''durability_degraded'')) (\<lambda>dd.
     bind_r (field p ''last_error'' (nullable (\<lambda>v. safe_external_text_from_wire v ''last_error''))) (\<lambda>e.
     bind_r (field p ''recovery_item_count'' (\<lambda>v. read_integer v ''recovery_item_count'' 0 MAX_INTEGER)) (\<lambda>c.
     bind_r (field p ''diagnostics'' (\<lambda>v. safe_external_text_list v ''diagnostics'')) (\<lambda>ds.
     Inr (StatusResponse \<lparr>registered_shells = n, st_dirty_generation = g, st_durable_generation = u,
       write_active = w, durability_degraded = dd, st_last_error = e, recovery_item_count = c,
       st_diagnostics = ds\<rparr>)))))))))))"

definition read_snapshot_response :: "dict \<Rightarrow> ServiceResponse result" where
  "read_snapshot_response p =
     bind_r (exact p (common_keys @ [''durable_generation'']) ''snapshot'') (\<lambda>_.
     bind_r (field p ''durable_generation'' (\<lambda>v. read_integer v ''durable_generation'' 0 MAX_INTEGER)) (\<lambda>n.
     Inr (SnapshotResponse n)))"

definition read_restore_list_response :: "dict \<Rightarrow> ServiceResponse result" where
  "read_restore_list_response p =
     bind_r (exact p (common_keys @ [''workspace_id'', ''items'', ''diagnostics'']) ''restore_list'') (\<lambda>_.
     bind_r (field p ''items'' (\<lambda>v. object_list v ''items'' read_item v_item_id)) (\<lambda>its.
     bind_r (field p ''workspace_id'' (\<lambda>v.
       raise_if ((v = JNull) \<noteq> (its = [])) (ValueError ''workspace_id must be null iff items empty''))) (\<lambda>_.
     bind_r (field p ''workspace_id'' (nullable (\<lambda>v. read_id v ''workspace_id'' False))) (\<lambda>w.
     bind_r (field p ''diagnostics'' (\<lambda>v. safe_external_text_list v ''diagnostics'')) (\<lambda>ds.
     Inr (RestoreListResponse w its ds))))))"

definition read_restore_result_response :: "dict \<Rightarrow> ServiceResponse result" where
  "read_restore_result_response p =
     bind_r (exact p (common_keys @ [''workspace_id'', ''attempt_id'', ''outcomes'', ''remaining_item_ids''])
       ''restore_result'') (\<lambda>_.
     bind_r (field p ''workspace_id'' (\<lambda>v. read_id v ''workspace_id'' False)) (\<lambda>w.
     bind_r (field p ''attempt_id'' (\<lambda>v. read_id v ''attempt_id'' False)) (\<lambda>a.
     bind_r (field p ''outcomes'' (\<lambda>v. object_list v ''outcomes'' read_outcome ov_item_id)) (\<lambda>outs.
     bind_r (field p ''remaining_item_ids'' (\<lambda>v. read_id_list v ''remaining_item_ids'' False)) (\<lambda>ids.
     Inr (RestoreResultResponse w a outs ids))))))"

definition read_discard_response :: "dict \<Rightarrow> ServiceResponse result" where
  "read_discard_response p =
     bind_r (exact p (common_keys @ [''workspace_id'', ''discarded'']) ''discard'') (\<lambda>_.
     bind_r (field p ''discarded'' (\<lambda>v. raise_if (v \<noteq> JBool True) (ValueError ''discarded must be true''))) (\<lambda>_.
     bind_r (field p ''workspace_id'' (\<lambda>v. read_id v ''workspace_id'' False)) (\<lambda>w.
     Inr (DiscardResponse w))))"

definition read_error_response :: "dict \<Rightarrow> ServiceResponse result" where
  "read_error_response p =
     bind_r (exact p (common_keys @ [''error'']) ''error'') (\<lambda>_.
     bind_r (field p ''error'' (\<lambda>v. case v of JObj e \<Rightarrow> Inr e | _ \<Rightarrow> Inl (ValueError ''error must be object''))) (\<lambda>e.
     bind_r (exact e [''code'', ''message''] ''error'') (\<lambda>_.
     bind_r (field e ''code'' (\<lambda>v. read_enum ErrorCode_value ErrorCode_members v ''error code'')) (\<lambda>c.
     bind_r (field e ''message'' (\<lambda>v. read_string v ''error message'' MAX_ERROR_MESSAGE_CHARS True)) (\<lambda>m.
     bind_r (raise_if (m \<noteq> ERROR_MESSAGES c) (ValueError ''invalid fixed error message'')) (\<lambda>_.
     Inr (ErrorResponse c m)))))))"

definition decode_response_payload :: "dict \<Rightarrow> ServiceResponse result" where
  "decode_response_payload p =
     bind_r (schema p) (\<lambda>_.
     bind_r (read_boolean (get p ''ok'') ''ok'') (\<lambda>ok.
     bind_r (read_string (get p ''response'') ''response'' MAX_ID_CHARS False) (\<lambda>response.
     if response = ''register'' \<and> ok then read_register_response p
     else if response = ''event'' \<and> ok then read_event_response p
     else if response = ''status'' \<and> ok then read_status_response p
     else if response = ''snapshot'' \<and> ok then read_snapshot_response p
     else if response = ''restore_list'' \<and> ok then read_restore_list_response p
     else if response = ''restore_result'' \<and> ok then read_restore_result_response p
     else if response = ''discard'' \<and> ok then read_discard_response p
     else if response = ''error'' \<and> \<not> ok then read_error_response p
     else Inl (ValueError ''invalid response discriminator''))))"

definition text_json :: "SafeExternalText \<Rightarrow> json" where
  "text_json t = JStr (text_value t)"

definition item_dict :: "RecoveryItemView \<Rightarrow> json result" where
  "item_dict i =
     bind_r (case v_replay_display i of
               None \<Rightarrow> Inr JNull
             | Some (RedactedDisplay s) \<Rightarrow> Inr (JStr s)
             | Some (DecodedReplayDisplay _) \<Rightarrow> Inl (ValueError ''replay_display lacks classifier provenance'')) (\<lambda>rd.
     Inr (JObj [(''item_id'', JStr (v_item_id i)), (''shell_id'', JStr (v_shell_id i)),
       (''reason'', text_json (v_reason i)), (''level'', JStr (RestorationLevel_value (v_level i))),
       (''directory'', JStr (v_directory i)),
       (''directory_warning'', json_option text_json (v_directory_warning i)),
       (''replay_display'', rd), (''replay_eligible'', JBool (v_replay_eligible i)),
       (''resume_command'', JStr (v_resume_command i)), (''resume_summary'', JStr (v_resume_summary i)),
       (''resume_session_count'', JInt (v_resume_session_count i))]))"

definition outcome_dict :: "OutcomeView \<Rightarrow> json" where
  "outcome_dict o' = JObj [(''item_id'', JStr (ov_item_id o')), (''kind'', JStr (OutcomeKind_value (ov_kind o'))),
     (''message'', text_json (ov_message o'))]"

definition ok_head :: "string \<Rightarrow> dict" where
  "ok_head r = [(''schema_version'', JInt 1), (''ok'', JBool True), (''response'', JStr r)]"

fun response_to_dict :: "ServiceResponse \<Rightarrow> dict result" where
  "response_to_dict (RegisterResponse c n) =
     Inr (ok_head ''register'' @ [(''capability'', JStr c), (''resume_sequence'', JInt n)])"
| "response_to_dict (EventResponse n) = Inr (ok_head ''event'' @ [(''sequence'', JInt n)])"
| "response_to_dict (StatusResponse s) =
     bind_r (bounded_typed_sequence (st_diagnostics s) ''diagnostics'' False) (\<lambda>ds.
     Inr (ok_head ''status'' @ [(''ready'', JBool True), (''registered_shells'', JInt (registered_shells s)),
       (''dirty_generation'', JInt (st_dirty_generation s)),
       (''durable_generation'', JInt (st_durable_generation s)), (''write_active'', JBool (write_active s)),
       (''durability_degraded'', JBool (durability_degraded s)),
       (''last_error'', json_option text_json (st_last_error s)),
       (''recovery_item_count'', JInt (recovery_item_count s)),
       (''diagnostics'', JArr (map text_json ds))]))"
| "response_to_dict (SnapshotResponse n) = Inr (ok_head ''snapshot'' @ [(''durable_generation'', JInt n)])"
| "response_to_dict (RestoreListResponse w its ds) =
     bind_r (bounded_typed_sequence its ''items'' False) (\<lambda>its'.
     bind_r (traverse item_dict its') (\<lambda>vs.
     bind_r (bounded_typed_sequence ds ''diagnostics'' False) (\<lambda>ds'.
     Inr (ok_head ''restore_list'' @ [(''workspace_id'', json_option JStr w), (''items'', JArr vs),
       (''diagnostics'', JArr (map text_json ds'))]))))"
| "response_to_dict (RestoreResultResponse w a outs ids) =
     bind_r (bounded_typed_sequence outs ''outcomes'' False) (\<lambda>outs'.
     bind_r (id_list (map JStr ids) ''remaining_item_ids'' False) (\<lambda>ids'.
     Inr (ok_head ''restore_result'' @ [(''workspace_id'', JStr w), (''attempt_id'', JStr a),
       (''outcomes'', JArr (map outcome_dict outs')), (''remaining_item_ids'', JArr (map JStr ids'))])))"
| "response_to_dict (DiscardResponse w) =
     Inr (ok_head ''discard'' @ [(''workspace_id'', JStr w), (''discarded'', JBool True)])"
| "response_to_dict (ErrorResponse c m) =
     Inr [(''schema_version'', JInt 1), (''ok'', JBool False), (''response'', JStr ''error''),
       (''error'', JObj [(''code'', JStr (ErrorCode_value c)), (''message'', JStr m)])]"

definition sensitive_key :: "bool \<Rightarrow> string \<Rightarrow> bool" where
  "sensitive_key register k \<longleftrightarrow>
     k \<in> {''command'', ''approved_command'', ''argv'', ''executable''} \<or> (k = ''capability'' \<and> \<not> register)"

fun safe_response_tree :: "bool \<Rightarrow> json \<Rightarrow> unit result" where
  "safe_response_tree register (JObj kvs) =
     check_all (\<lambda>(k, v). bind_r (raise_if (sensitive_key register k)
         (ValueError ''sensitive response key forbidden'')) (\<lambda>_. safe_response_tree register v)) kvs"
| "safe_response_tree register (JArr vs) = check_all (safe_response_tree register) vs"
| "safe_response_tree register _ = Inr ()"

text \<open>
  \<open>encode_response_payload\<close> is \<^verbatim>\<open>encode_response\<close> up to the text of the message: the dictionary, the test of its
  keys, and the check that it decodes.
\<close>

definition encode_response_payload :: "ServiceResponse \<Rightarrow> dict result" where
  "encode_response_payload r =
     bind_r (response_to_dict r) (\<lambda>p.
     bind_r (safe_response_tree (case r of RegisterResponse _ _ \<Rightarrow> True | _ \<Rightarrow> False) (JObj p)) (\<lambda>_.
     bind_r (decode_response_payload p) (\<lambda>_. Inr p)))"

definition encode_request_payload :: "ServiceRequest \<Rightarrow> dict result" where
  "encode_request_payload r =
     bind_r (request_to_dict r) (\<lambda>p. bind_r (decode_request_payload p) (\<lambda>_. Inr p))"

section \<open>Inversion of the readers\<close>

lemma exact_Inr [decode_simps]: "exact d ks c = Inr u \<longleftrightarrow> set (dict_keys d) = set ks"
  by (auto simp: exact_def Let_def filter_empty_conv)

lemma schema_Inr [decode_simps]: "schema d = Inr u \<longleftrightarrow> map_of d ''schema_version'' = Some (JInt 1)"
  by (auto simp: schema_def get_def dict_get_def SCHEMA_VERSION_def split: option.splits)

lemma read_string_Inr [decode_simps]:
  "read_string v n l e = Inr s \<longleftrightarrow>
     v = JStr s \<and> (e \<or> s \<noteq> []) \<and> length s \<le> l \<and> \<not> list_ex forbidden_char s"
  by (cases v) (auto simp: read_string_def)

lemma id_char_allowed: "list_all id_char s \<Longrightarrow> \<not> list_ex forbidden_char s"
  by (auto simp: list_all_iff list_ex_iff id_char_def forbidden_char_def is_letter_def is_upper_def
      is_lower_def is_digit_def code_def)

lemma read_id_Inr [decode_simps]:
  "read_id v n sh = Inr s \<longleftrightarrow> v = JStr s \<and> matches_id s \<and> (sh \<longrightarrow> 16 \<le> length s)"
  by (auto simp: read_id_def read_string_Inr matches_id_def MAX_ID_CHARS_def id_char_allowed)

lemma read_capability_Inr [decode_simps]:
  "read_capability v = Inr s \<longleftrightarrow> v = JStr s \<and> matches_capability s"
  by (auto simp: read_capability_def read_string_Inr matches_capability_def MAX_ID_CHARS_def id_char_allowed)

lemma read_integer_Inr [decode_simps]: "read_integer v n l h = Inr i \<longleftrightarrow> v = JInt i \<and> l \<le> i \<and> i \<le> h"
  by (cases v) (auto simp: read_integer_def)

lemma read_boolean_Inr [decode_simps]: "read_boolean v n = Inr b \<longleftrightarrow> v = JBool b"
  by (cases v) (auto simp: read_boolean_def)

definition valid_path :: "string \<Rightarrow> bool" where
  "valid_path s \<longleftrightarrow> startswith s ''/'' \<and> length s \<le> MAX_PATH_CHARS \<and> \<not> list_ex forbidden_char s"

lemma read_absolute_Inr [decode_simps]: "read_absolute v n = Inr s \<longleftrightarrow> v = JStr s \<and> valid_path s"
  by (auto simp: read_absolute_def read_string_Inr valid_path_def startswith_def)

definition printable_enum :: "('e \<Rightarrow> string) \<Rightarrow> 'e list \<Rightarrow> bool" where
  "printable_enum val members \<longleftrightarrow>
     str_enum val members \<and> list_all (\<lambda>m. \<not> list_ex forbidden_char (val m)) members"

lemma read_enum_Inr:
  assumes "printable_enum val members"
  shows "read_enum val members v n = Inr e \<longleftrightarrow> v = JStr (val e)"
proof -
  from assms have e: "str_enum val members" by (simp add: printable_enum_def)
  with assms have "\<not> list_ex forbidden_char (val e)"
    by (auto simp: printable_enum_def list_all_iff dest: str_enum.complete)
  then have "read_string (JStr (val e)) n MAX_ID_CHARS False = Inr (val e)"
    by (simp add: read_string_Inr MAX_ID_CHARS_def str_enum.val_short [OF e] str_enum.val_nonempty [OF e])
  with str_enum.enum_of_val [OF e] have "read_enum val members (JStr (val e)) n = Inr e"
    by (simp add: read_enum_def)
  moreover have "v = JStr (val e)" if "read_enum val members v n = Inr e"
    using that str_enum.enum_of_SomeD [OF e]
    by (auto simp: read_enum_def read_string_Inr split: option.splits)
  ultimately show ?thesis by auto
qed

lemma printable_enumI:
  "str_enum val members \<Longrightarrow> list_all (\<lambda>m. \<not> list_ex forbidden_char (val m)) members \<Longrightarrow>
   printable_enum val members"
  by (simp add: printable_enum_def)

lemma printable_event: "printable_enum EventType_value EventType_members"
  by (rule printable_enumI [OF event_enum.str_enum_axioms])
    (simp add: EventType_members_def forbidden_char_def code_def)

lemma printable_operation: "printable_enum Operation_value Operation_members"
  by (rule printable_enumI [OF operation_enum.str_enum_axioms])
    (simp add: Operation_members_def forbidden_char_def code_def)

lemma printable_error: "printable_enum ErrorCode_value ErrorCode_members"
  by (rule printable_enumI [OF error_enum.str_enum_axioms])
    (simp add: ErrorCode_members_def forbidden_char_def code_def)

lemma printable_level: "printable_enum RestorationLevel_value RestorationLevel_members"
  by (rule printable_enumI [OF level_enum.str_enum_axioms])
    (simp add: RestorationLevel_members_def forbidden_char_def code_def)

lemma printable_outcome: "printable_enum OutcomeKind_value OutcomeKind_members"
  by (rule printable_enumI [OF outcome_enum.str_enum_axioms])
    (simp add: OutcomeKind_members_def forbidden_char_def code_def)

lemmas read_enums_Inr [decode_simps] = read_enum_Inr [OF printable_event]
  read_enum_Inr [OF printable_operation] read_enum_Inr [OF printable_error]
  read_enum_Inr [OF printable_level] read_enum_Inr [OF printable_outcome]

definition wire_identity :: "ProcessIdentity \<Rightarrow> bool" where
  "wire_identity i \<longleftrightarrow> canonical_uuid (boot_id i) \<and> 1 \<le> pid i \<and> pid i < 2 ^ 31 \<and>
     0 \<le> start_time i \<and> start_time i < 2 ^ 63"

lemma canonical_uuid_text:
  assumes "canonical_uuid s"
  shows "length s = 36 \<and> list_all id_char s"
proof -
  have "list_all id_char hex_alphabet" by code_simp
  then have hex: "hex_char c \<Longrightarrow> id_char c" for c by (simp add: list_all_iff hex_char_def)
  have dash: "id_char CHR ''-''" by (simp add: id_char_def)
  from assms obtain a b c d e where "s = join ''-'' [a, b, c, d, e]" "length a = 8" "length b = 4"
    "length c = 4" "length d = 4" "length e = 12" "list_all hex_char (a @ b @ c @ d @ e)"
    by (auto simp: canonical_uuid_def)
  with hex dash show ?thesis by (simp add: list_all_iff)
qed

lemma boot_id_read:
  "read_string (JStr b) n MAX_ID_CHARS False = Inr b" if "canonical_uuid b"
  using canonical_uuid_text [OF that] by (auto simp: read_string_Inr id_char_allowed MAX_ID_CHARS_def)

lemma wire_wf_identity: "wire_identity i \<Longrightarrow> wf_identity i"
  using canonical_uuid_text [of "boot_id i"] by (auto simp: wire_identity_def wf_identity_def MAX_ID_CHARS_def)

lemma read_identity_enc [simp]:
  assumes "wire_identity i"
  shows "read_identity (identity_to_dict i) = Inr i"
proof -
  from assms have c: "canonical_uuid (boot_id i)" by (simp add: wire_identity_def)
  have "ProcessIdentity_init (boot_id i) (pid i) (start_time i) = Inr i"
    using wire_wf_identity [OF assms] by (simp add: ProcessIdentity_init_Inr)
  with assms boot_id_read [OF c] uuid_text_canonical [OF c] show ?thesis
    by (simp add: read_identity_def identity_to_dict_def exact_def dict_keys_def field_def dict_item_def
        read_integer_def wire_identity_def MAX_INTEGER_def)
qed

lemma read_identity_wire: "read_identity v = Inr i \<Longrightarrow> wire_identity i"
proof (cases v)
  case (JObj d)
  assume "read_identity v = Inr i"
  with JObj show ?thesis
    by (clarsimp simp: read_identity_def field_Inr read_integer_Inr ProcessIdentity_init_Inr
        wire_identity_def MAX_INTEGER_def uuid_fixed_point)
qed (simp_all add: read_identity_def)

section \<open>Well-formed messages\<close>

definition valid_shell_id :: "string \<Rightarrow> bool" where
  "valid_shell_id s \<longleftrightarrow> matches_id s \<and> 16 \<le> length s"

definition valid_ids :: "string list \<Rightarrow> bool" where
  "valid_ids xs \<longleftrightarrow> length xs \<le> MAX_ITEMS \<and> list_all matches_id xs \<and> distinct xs"

definition valid_command :: "string \<Rightarrow> bool" where
  "valid_command s \<longleftrightarrow> s \<noteq> [] \<and> length s \<le> MAX_COMMAND_CHARS \<and> \<not> list_ex forbidden_char s"

definition present_iff :: "string \<Rightarrow> string list \<Rightarrow> ('a \<Rightarrow> bool) \<Rightarrow> 'a option \<Rightarrow> bool" where
  "present_iff k extra ok x \<longleftrightarrow> (case x of None \<Rightarrow> k \<notin> set extra | Some y \<Rightarrow> k \<in> set extra \<and> ok y)"

definition optional_fields ::
  "string list \<Rightarrow> string option \<Rightarrow> int option \<Rightarrow> string option \<Rightarrow> int option \<Rightarrow> bool" where
  "optional_fields extra dir cs cmd st \<longleftrightarrow>
     present_iff ''cwd'' extra valid_path dir \<and>
     present_iff ''command_sequence'' extra (\<lambda>n. 1 \<le> n \<and> n \<le> MAX_INTEGER) cs \<and>
     present_iff ''command'' extra valid_command cmd \<and>
     present_iff ''exit_status'' extra (\<lambda>n. 0 \<le> n \<and> n \<le> 255) st"

definition wf_local :: "LocalEvent \<Rightarrow> bool" where
  "wf_local e \<longleftrightarrow> valid_shell_id (le_shell_id e) \<and>
     optional_fields (local_extra (le_type e)) (le_cwd e) (le_command_sequence e) (le_command e) (le_exit_status e)"

definition wf_event :: "EventRequest \<Rightarrow> bool" where
  "wf_event e \<longleftrightarrow> valid_shell_id (ev_shell_id e) \<and> matches_capability (ev_capability e) \<and>
     wire_identity (ev_identity e) \<and> 1 \<le> ev_sequence e \<and> ev_sequence e \<le> MAX_INTEGER \<and>
     (\<exists>extra. event_extra (ev_operation e) = Some extra \<and>
        optional_fields extra (ev_cwd e) (ev_command_sequence e) (ev_command e) (ev_exit_status e))"

fun wf_request :: "ServiceRequest \<Rightarrow> bool" where
  "wf_request (Register r) \<longleftrightarrow> valid_shell_id (reg_shell_id r) \<and> wire_identity (reg_identity r) \<and>
     reg_adapter r \<in> set SUPPORTED_ADAPTERS \<and> valid_path (reg_cwd r) \<and> reg_sequence r = 0"
| "wf_request (Event e) \<longleftrightarrow> wf_event e"
| "wf_request StatusRequest \<longleftrightarrow> True"
| "wf_request SnapshotRequest \<longleftrightarrow> True"
| "wf_request (RestoreListRequest w a) \<longleftrightarrow> (w = None \<longleftrightarrow> a = None) \<and> pred_option matches_id w \<and> pred_option matches_id a"
| "wf_request (RestoreExecuteRequest w selected approved) \<longleftrightarrow> matches_id w \<and> valid_ids selected \<and>
     selected \<noteq> [] \<and> valid_ids approved \<and> set approved \<subseteq> set selected"
| "wf_request (RestoreRetryRequest w a approved) \<longleftrightarrow> matches_id w \<and> matches_id a \<and> valid_ids approved"
| "wf_request (DiscardRequest w) \<longleftrightarrow> matches_id w"

lemma traverse_read_id: "traverse (\<lambda>v. read_id v n False) vs = Inr xs \<longleftrightarrow> vs = map JStr xs \<and> list_all matches_id xs"
  by (auto simp: traverse_eq_Inr read_id_Inr list_all2_conv_all_nth list_all_length intro: nth_equalityI)

lemma id_list_Inr [decode_simps]:
  "id_list vs n ne = Inr xs \<longleftrightarrow> vs = map JStr xs \<and> valid_ids xs \<and> (ne \<longrightarrow> xs \<noteq> [])"
  by (auto simp: id_list_def bounded_typed_sequence_def traverse_read_id valid_ids_def)

lemma read_id_list_Inr [decode_simps]:
  "read_id_list v n ne = Inr xs \<longleftrightarrow> v = JArr (map JStr xs) \<and> valid_ids xs \<and> (ne \<longrightarrow> xs \<noteq> [])"
  by (cases v) (auto simp: read_id_list_def json_sequence_def id_list_Inr)

lemma when_in_Inr [decode_simps]:
  "when_in k ks r = Inr x \<longleftrightarrow> (case x of None \<Rightarrow> k \<notin> set ks | Some y \<Rightarrow> k \<in> set ks \<and> r = Inr y)"
  by (auto simp: when_in_def split: option.splits)

lemma when_in_present:
  "when_in k ks r = Inr x \<Longrightarrow> (\<And>y. r = Inr y \<Longrightarrow> ok y) \<Longrightarrow> present_iff k ks ok x"
  by (auto simp: when_in_Inr present_iff_def split: option.splits)

lemma optional_fieldsI:
  assumes "when_in ''cwd'' ks (field p ''cwd'' (\<lambda>v. read_absolute v ''cwd'')) = Inr dir"
    "when_in ''command_sequence'' ks
       (field p ''command_sequence'' (\<lambda>v. read_integer v ''command_sequence'' 1 MAX_INTEGER)) = Inr cs"
    "when_in ''command'' ks
       (field p ''command'' (\<lambda>v. read_string v ''command'' MAX_COMMAND_CHARS False)) = Inr cmd"
    "when_in ''exit_status'' ks (field p ''exit_status'' (\<lambda>v. read_integer v ''exit_status'' 0 255)) = Inr st"
  shows "optional_fields ks dir cs cmd st"
  unfolding optional_fields_def
  by (intro conjI when_in_present [OF assms(1)] when_in_present [OF assms(2)]
      when_in_present [OF assms(3)] when_in_present [OF assms(4)])
     (auto simp: field_Inr read_absolute_Inr read_integer_Inr read_string_Inr valid_command_def)

lemma adapter_readable: "a \<in> set SUPPORTED_ADAPTERS \<Longrightarrow> read_string (JStr a) n MAX_ID_CHARS False = Inr a"
proof -
  have "list_all (\<lambda>a. a \<noteq> [] \<and> length a \<le> 128 \<and> list_all id_char a) SUPPORTED_ADAPTERS" by code_simp
  then show "a \<in> set SUPPORTED_ADAPTERS \<Longrightarrow> ?thesis"
    by (auto simp: list_all_iff read_string_Inr MAX_ID_CHARS_def intro!: id_char_allowed [unfolded list_all_iff])
qed

section \<open>Codecs of messages\<close>

text \<open>
  What a client of a message format relies on: encoding a well-formed message succeeds, decoding what was
  encoded gives the message as the other side sees it, and every decoded message is well formed.
\<close>

locale message_codec =
  fixes enc :: "'a \<Rightarrow> dict result"
    and dec :: "dict \<Rightarrow> 'b result"
    and wf :: "'a \<Rightarrow> bool"
    and wf' :: "'b \<Rightarrow> bool"
    and view :: "'a \<Rightarrow> 'b"
  assumes enc_total: "wf x \<Longrightarrow> \<exists>p. enc x = Inr p"
    and dec_enc: "wf x \<Longrightarrow> enc x = Inr p \<Longrightarrow> dec p = Inr (view x)"
    and dec_wf: "dec p = Inr y \<Longrightarrow> wf' y"
begin

lemma checked_enc_total: "wf x \<Longrightarrow> \<exists>p. bind_r (enc x) (\<lambda>p. bind_r (dec p) (\<lambda>_. Inr p)) = Inr p \<and> enc x = Inr p"
  using enc_total dec_enc by fastforce

lemma roundtrip: "wf x \<Longrightarrow> bind_r (enc x) dec = Inr (view x)"
  using enc_total dec_enc by fastforce

lemma view_wf: "wf x \<Longrightarrow> wf' (view x)"
  using enc_total dec_enc dec_wf by blast

end

locale symmetric_codec = message_codec enc dec wf wf "\<lambda>x. x"
  for enc :: "'a \<Rightarrow> dict result" and dec :: "dict \<Rightarrow> 'a result" and wf :: "'a \<Rightarrow> bool"
begin

lemma enc_inj: "wf x \<Longrightarrow> wf y \<Longrightarrow> enc x = enc y \<Longrightarrow> x = y"
  using roundtrip by (metis sum.inject(2))

lemma wf_iff_decoded: "wf x \<longleftrightarrow> (\<exists>p. dec p = Inr x)"
  using enc_total dec_enc dec_wf by blast

end

lemmas payload_simps = dict_keys_def field_Inr schema_Inr exact_Inr read_id_Inr when_in_Inr read_absolute_Inr
  read_integer_Inr read_capability_Inr read_boolean_Inr read_enums_Inr get_def dict_get_def

lemma local_dec_enc:
  assumes "wf_local e"
  shows "local_decoder (local_to_dict e) = Inr e"
  using assms
  by (cases e; cases "le_type e")
   (auto simp: local_decoder_def payload_simps wf_local_def optional_fields_def present_iff_def
      valid_shell_id_def opt_str_def opt_int_def local_to_dict_def read_string_Inr valid_command_def Let_def
      split: option.splits)

lemma local_dec_wf: "local_decoder p = Inr e \<Longrightarrow> wf_local e"
  by (clarsimp simp: local_decoder_def field_Inr [of p "''shell_id''"] read_id_Inr wf_local_def
      valid_shell_id_def Let_def) (rule optional_fieldsI)

interpretation local_codec: symmetric_codec "\<lambda>e. Inr (local_to_dict e)" local_decoder wf_local
  by unfold_locales (auto intro: local_dec_enc dest: local_dec_wf)

lemma dispatch:
  "decode_request_payload ((''schema_version'', JInt 1) # (''operation'', JStr (Operation_value op)) # p) =
   REQUEST_DECODERS op ((''schema_version'', JInt 1) # (''operation'', JStr (Operation_value op)) # p)"
proof -
  have "read_enum Operation_value Operation_members (JStr (Operation_value op)) ''operation'' = Inr op"
    by (simp add: read_enums_Inr)
  then show ?thesis
    by (simp add: decode_request_payload_def get_def dict_get_def schema_def SCHEMA_VERSION_def)
qed

lemmas dispatches [simp] = dispatch [of Op_REGISTER, unfolded Operation_value.simps]
  dispatch [of Op_COMMAND_STARTED, unfolded Operation_value.simps]
  dispatch [of Op_COMMAND_FINISHED, unfolded Operation_value.simps]
  dispatch [of Op_PROMPT_READY, unfolded Operation_value.simps]
  dispatch [of Op_CWD_CHANGED, unfolded Operation_value.simps]
  dispatch [of Op_EXPLICIT_EXIT, unfolded Operation_value.simps]
  dispatch [of Op_STATUS, unfolded Operation_value.simps]
  dispatch [of Op_SNAPSHOT, unfolded Operation_value.simps]
  dispatch [of Op_RESTORE_LIST, unfolded Operation_value.simps]
  dispatch [of Op_RESTORE_EXECUTE, unfolded Operation_value.simps]
  dispatch [of Op_RESTORE_RETRY, unfolded Operation_value.simps]
  dispatch [of Op_DISCARD, unfolded Operation_value.simps]

lemma event_dec_enc:
  assumes "wf_event e"
  shows "bind_r (request_to_dict (Event e)) decode_request_payload = Inr (Event e)"
  using assms
  by (cases e; cases "ev_operation e")
   (auto simp: decode_event_def payload_simps wf_event_def optional_fields_def
      present_iff_def valid_shell_id_def opt_str_def opt_int_def event_fields_def read_string_Inr
      valid_command_def split: option.splits)

lemma event_dec_wf: "decode_event p op = Inr r \<Longrightarrow> wf_request r"
  by (cases "event_extra op")
   (clarsimp simp: decode_event_def field_Inr [of p "''shell_id''"] field_Inr [of p "''capability''"]
      field_Inr [of p "''identity''"] field_Inr [of p "''sequence''"] read_id_Inr read_capability_Inr
      read_integer_Inr wf_event_def valid_shell_id_def dest!: read_identity_wire; rule optional_fieldsI)+

lemma register_dec_wf: "decode_register p = Inr r \<Longrightarrow> wf_request r"
  by (clarsimp simp: decode_register_def field_Inr read_id_Inr read_absolute_Inr read_integer_Inr
      valid_shell_id_def dest!: read_identity_wire)

lemma restore_list_dec_wf: "decode_restore_list p = Inr r \<Longrightarrow> wf_request r"
  by (clarsimp simp: decode_restore_list_def field_Inr read_id_Inr split: if_splits)

lemma execute_dec_wf: "decode_execute p = Inr r \<Longrightarrow> wf_request r"
  by (clarsimp simp: decode_execute_def field_Inr read_id_Inr read_id_list_Inr)

lemma retry_dec_wf: "decode_retry p = Inr r \<Longrightarrow> wf_request r"
  by (clarsimp simp: decode_retry_def field_Inr read_id_Inr read_id_list_Inr)

lemma discard_dec_wf: "decode_discard p = Inr r \<Longrightarrow> wf_request r"
  by (clarsimp simp: decode_discard_def field_Inr read_id_Inr)

lemma control_dec: "decode_control p q = Inr r \<Longrightarrow> r = q"
  by (simp add: decode_control_def)

lemma request_dec_wf: "decode_request_payload p = Inr r \<Longrightarrow> wf_request r"
proof -
  assume "decode_request_payload p = Inr r"
  then obtain op where "REQUEST_DECODERS op p = Inr r" by (auto simp: decode_request_payload_def)
  then show "wf_request r"
    by (cases op) (auto dest: event_dec_wf register_dec_wf restore_list_dec_wf execute_dec_wf
        retry_dec_wf discard_dec_wf control_dec)
qed

lemma request_enc_total: "wf_request r \<Longrightarrow> \<exists>p. request_to_dict r = Inr p"
  by (cases r rule: request_to_dict.cases)
    (auto simp: read_id_Inr id_list_Inr split: option.splits prod.splits)

lemma restore_list_keys:
  "{''schema_version'', ''operation'', ''workspace_id'', ''attempt_id''} \<noteq> {''schema_version'', ''operation''}"
proof
  assume h: "{''schema_version'', ''operation'', ''workspace_id'', ''attempt_id''} = {''schema_version'', ''operation''}"
  have "''workspace_id'' \<in> {''schema_version'', ''operation''}" unfolding h [symmetric] by simp
  then show False by simp
qed

lemma request_dec_enc: "wf_request r \<Longrightarrow> request_to_dict r = Inr p \<Longrightarrow> decode_request_payload p = Inr r"
proof (cases r)
  case (Event e)
  assume "wf_request r" "request_to_dict r = Inr p"
  with Event event_dec_enc [of e] show ?thesis by (simp del: request_to_dict.simps)
next
  case (Register q)
  assume "wf_request r" "request_to_dict r = Inr p"
  with Register show ?thesis
    by (auto simp: decode_register_def payload_simps valid_shell_id_def adapter_readable)
next
  case (RestoreListRequest w a)
  assume "wf_request r" "request_to_dict r = Inr p"
  with RestoreListRequest show ?thesis
    by (cases w; cases a) (auto simp: decode_restore_list_def payload_simps restore_list_keys)
qed (auto simp: decode_control_def decode_execute_def decode_retry_def
  decode_discard_def payload_simps id_list_Inr read_id_list_Inr)

interpretation request_codec: symmetric_codec request_to_dict decode_request_payload wf_request
  by unfold_locales (auto intro: request_enc_total request_dec_enc dest: request_dec_wf)

section \<open>Well-formed responses\<close>

definition safe_text :: "SafeExternalText \<Rightarrow> bool" where
  "safe_text t \<longleftrightarrow> text_value t \<in> set SAFE_EXTERNAL_TEXT_CATALOG"

definition printable :: "nat \<Rightarrow> string \<Rightarrow> bool" where
  "printable n s \<longleftrightarrow> length s \<le> n \<and> \<not> list_ex forbidden_char s"

fun redacted_display :: "ReplayDisplay \<Rightarrow> bool" where
  "redacted_display (RedactedDisplay s) = printable MAX_COMMAND_CHARS s"
| "redacted_display _ = False"

fun decoded_display :: "ReplayDisplay \<Rightarrow> bool" where
  "decoded_display (DecodedReplayDisplay s) = printable MAX_COMMAND_CHARS s"
| "decoded_display _ = False"

definition wf_item_view :: "(ReplayDisplay \<Rightarrow> bool) \<Rightarrow> RecoveryItemView \<Rightarrow> bool" where
  "wf_item_view ok i \<longleftrightarrow> matches_id (v_item_id i) \<and> valid_shell_id (v_shell_id i) \<and> safe_text (v_reason i) \<and>
     valid_path (v_directory i) \<and> pred_option safe_text (v_directory_warning i) \<and>
     pred_option ok (v_replay_display i) \<and> printable MAX_COMMAND_CHARS (v_resume_command i) \<and>
     printable MAX_COMMAND_CHARS (v_resume_summary i) \<and>
     0 \<le> v_resume_session_count i \<and> v_resume_session_count i \<le> MAX_INTEGER"

definition wf_outcome_view :: "OutcomeView \<Rightarrow> bool" where
  "wf_outcome_view v \<longleftrightarrow> matches_id (ov_item_id v) \<and> safe_text (ov_message v)"

definition valid_count :: "int \<Rightarrow> bool" where
  "valid_count n \<longleftrightarrow> 0 \<le> n \<and> n \<le> MAX_INTEGER"

definition wf_texts :: "SafeExternalText list \<Rightarrow> bool" where
  "wf_texts ds \<longleftrightarrow> length ds \<le> MAX_ITEMS \<and> list_all safe_text ds"

definition wf_status_view :: "StatusView \<Rightarrow> bool" where
  "wf_status_view s \<longleftrightarrow> valid_count (registered_shells s) \<and> valid_count (st_dirty_generation s) \<and>
     valid_count (st_durable_generation s) \<and> pred_option safe_text (st_last_error s) \<and>
     valid_count (recovery_item_count s) \<and> wf_texts (st_diagnostics s)"

fun wf_response :: "(ReplayDisplay \<Rightarrow> bool) \<Rightarrow> ServiceResponse \<Rightarrow> bool" where
  "wf_response ok (RegisterResponse c n) \<longleftrightarrow> matches_capability c \<and> valid_count n"
| "wf_response ok (EventResponse n) \<longleftrightarrow> 1 \<le> n \<and> n \<le> MAX_INTEGER"
| "wf_response ok (StatusResponse s) \<longleftrightarrow> wf_status_view s"
| "wf_response ok (SnapshotResponse n) \<longleftrightarrow> valid_count n"
| "wf_response ok (RestoreListResponse w its ds) \<longleftrightarrow> (w = None \<longleftrightarrow> its = []) \<and> pred_option matches_id w \<and>
     length its \<le> MAX_ITEMS \<and> list_all (wf_item_view ok) its \<and> distinct (map v_item_id its) \<and> wf_texts ds"
| "wf_response ok (RestoreResultResponse w a outs ids) \<longleftrightarrow> matches_id w \<and> matches_id a \<and>
     length outs \<le> MAX_ITEMS \<and> list_all wf_outcome_view outs \<and> distinct (map ov_item_id outs) \<and> valid_ids ids"
| "wf_response ok (DiscardResponse w) \<longleftrightarrow> matches_id w"
| "wf_response ok (ErrorResponse c m) \<longleftrightarrow> m = ERROR_MESSAGES c"

text \<open>What the client sees of a response: the provenance of a display does not travel.\<close>

fun wire_display :: "ReplayDisplay \<Rightarrow> ReplayDisplay" where
  "wire_display (RedactedDisplay s) = DecodedReplayDisplay s"
| "wire_display (DecodedReplayDisplay s) = DecodedReplayDisplay s"

definition wire_item :: "RecoveryItemView \<Rightarrow> RecoveryItemView" where
  "wire_item i = i\<lparr>v_replay_display := map_option wire_display (v_replay_display i)\<rparr>"

fun wire_view :: "ServiceResponse \<Rightarrow> ServiceResponse" where
  "wire_view (RestoreListResponse w its ds) = RestoreListResponse w (map wire_item its) ds"
| "wire_view r = r"

lemma catalog_printable: "s \<in> set SAFE_EXTERNAL_TEXT_CATALOG \<Longrightarrow> printable MAX_DIAGNOSTIC_CHARS s"
proof -
  have "list_all (\<lambda>s. \<not> list_ex forbidden_char s) SAFE_EXTERNAL_TEXT_CATALOG"
    by (simp add: SAFE_EXTERNAL_TEXT_CATALOG_def forbidden_char_def code_def)
  moreover have "list_all (\<lambda>s. length s \<le> MAX_DIAGNOSTIC_CHARS) SAFE_EXTERNAL_TEXT_CATALOG"
    by (simp add: SAFE_EXTERNAL_TEXT_CATALOG_def MAX_DIAGNOSTIC_CHARS_def)
  ultimately show "s \<in> set SAFE_EXTERNAL_TEXT_CATALOG \<Longrightarrow> ?thesis" by (simp add: list_all_iff printable_def)
qed

lemma safe_wire_Inr [decode_simps]:
  "safe_external_text_from_wire v n = Inr t \<longleftrightarrow> v = text_json t \<and> safe_text t"
  using catalog_printable [of "text_value t"]
  by (cases t) (auto simp: safe_external_text_from_wire_def catalog_def text_json_def safe_text_def
      read_string_Inr printable_def split: if_splits)

lemma safe_list_Inr [decode_simps]:
  "safe_external_text_list v n = Inr ts \<longleftrightarrow> v = JArr (map text_json ts) \<and> wf_texts ts"
proof (cases v)
  case (JArr xs)
  have "traverse (\<lambda>v. safe_external_text_from_wire v n) xs = Inr ts \<longleftrightarrow>
      xs = map text_json ts \<and> list_all safe_text ts"
    by (auto simp: traverse_eq_Inr safe_wire_Inr list_all2_conv_all_nth list_all_length intro: nth_equalityI)
  with JArr show ?thesis by (auto simp: safe_external_text_list_def wf_texts_def)
qed (auto simp: safe_external_text_list_def)

lemma text_json_not_null [simp]: "text_json t \<noteq> JNull"
  by (simp add: text_json_def)

lemma nullable_safe_Inr [decode_simps]:
  "nullable (\<lambda>v. safe_external_text_from_wire v n) v = Inr t \<longleftrightarrow>
     v = json_option text_json t \<and> pred_option safe_text t"
  by (cases t; cases v) (auto simp: nullable_def json_option_def safe_wire_Inr text_json_def)

lemma nullable_display_Inr [decode_simps]:
  "nullable (\<lambda>v. bind_r (read_string v n MAX_COMMAND_CHARS True) (\<lambda>s. Inr (DecodedReplayDisplay s))) v = Inr x \<longleftrightarrow>
     v = JNull \<and> x = None \<or>
     (\<exists>s. v = JStr s \<and> x = Some (DecodedReplayDisplay s) \<and> printable MAX_COMMAND_CHARS s)"
  by (cases v) (auto simp: nullable_def read_string_Inr printable_def)

lemma item_dec_enc:
  assumes "wf_item_view redacted_display i" "item_dict i = Inr v"
  shows "read_item v = Inr (wire_item i)"
proof -
  have display: "v_replay_display i = None \<or> (\<exists>s. v_replay_display i = Some (RedactedDisplay s) \<and> printable MAX_COMMAND_CHARS s)"
    using assms(1) by (cases "v_replay_display i" rule: option.exhaust; cases "the (v_replay_display i)")
      (auto simp: wf_item_view_def)
  from assms display show ?thesis
    by (cases i) (auto simp: item_dict_def wf_item_view_def wire_item_def read_item_def exact_Inr dict_keys_def
        field_Inr read_id_Inr valid_shell_id_def safe_wire_Inr nullable_safe_Inr read_enums_Inr
        read_absolute_Inr read_boolean_Inr read_string_Inr read_integer_Inr printable_def nullable_display_Inr)
qed

lemma item_enc_total: "wf_item_view redacted_display i \<Longrightarrow> \<exists>v. item_dict i = Inr v"
  by (cases "v_replay_display i" rule: option.exhaust; cases "the (v_replay_display i)")
    (auto simp: item_dict_def wf_item_view_def)

lemma item_dec_wf: "read_item v = Inr i \<Longrightarrow> wf_item_view decoded_display i"
proof (cases v)
  case (JObj d)
  assume "read_item v = Inr i"
  with JObj show ?thesis
    by (clarsimp simp: read_item_def field_Inr read_id_Inr safe_wire_Inr nullable_safe_Inr read_absolute_Inr
        read_boolean_Inr read_integer_Inr read_string_Inr [of _ "''resume_command''"]
        read_string_Inr [of _ "''resume_summary''"] wf_item_view_def valid_shell_id_def nullable_display_Inr printable_def)
      (auto simp: printable_def)
qed (simp_all add: read_item_def)

lemma outcome_view_Inr: "read_outcome v = Inr u \<longleftrightarrow> (\<exists>d. v = JObj d \<and> read_outcome (JObj d) = Inr u)"
  by (cases v) (auto simp: read_outcome_def)

lemma outcome_view_dec_enc: "wf_outcome_view u \<Longrightarrow> read_outcome (outcome_dict u) = Inr u"
  by (cases u) (auto simp: read_outcome_def outcome_dict_def exact_Inr dict_keys_def field_Inr read_id_Inr
      read_enums_Inr safe_wire_Inr wf_outcome_view_def)

lemma outcome_view_dec_wf: "read_outcome v = Inr u \<Longrightarrow> wf_outcome_view u"
  by (cases v) (auto simp: read_outcome_def field_Inr read_id_Inr read_enums_Inr safe_wire_Inr wf_outcome_view_def)

lemma object_list_dec_enc:
  assumes "length xs \<le> MAX_ITEMS" "traverse f xs = Inr vs"
    "\<And>x v. x \<in> set xs \<Longrightarrow> f x = Inr v \<Longrightarrow> reader v = Inr (g x)" "distinct (map key (map g xs))"
  shows "object_list (JArr vs) n reader key = Inr (map g xs)"
proof -
  from assms(2) have all2: "list_all2 (\<lambda>x v. f x = Inr v) xs vs" by (simp add: traverse_eq_Inr)
  then have "length vs = length xs" by (simp add: list_all2_lengthD)
  moreover from all2 have "traverse reader vs = Inr (map g xs)"
    using assms(3) by (auto simp: traverse_eq_Inr list_all2_conv_all_nth)
  ultimately show ?thesis using assms(1,4) by (simp add: object_list_def)
qed

lemma object_list_wf:
  assumes "object_list v n reader key = Inr xs" "\<And>v x. reader v = Inr x \<Longrightarrow> ok x"
  shows "length xs \<le> MAX_ITEMS \<and> list_all ok xs \<and> distinct (map key xs)"
  using assms by (cases v) (auto simp: object_list_def list_all_iff dest: traverse_length traverse_InrD)

definition response_readers :: "string \<Rightarrow> (dict \<Rightarrow> ServiceResponse result) option" where
  "response_readers k = map_of [(''register'', read_register_response), (''event'', read_event_response),
     (''status'', read_status_response), (''snapshot'', read_snapshot_response),
     (''restore_list'', read_restore_list_response), (''restore_result'', read_restore_result_response),
     (''discard'', read_discard_response)] k"

lemma ok_dispatch:
  assumes "response_readers k = Some reader" "\<not> list_ex forbidden_char k" "length k \<le> 128" "k \<noteq> []"
  shows "decode_response_payload (ok_head k @ p) = reader (ok_head k @ p)"
proof -
  have "read_string (JStr k) ''response'' MAX_ID_CHARS False = Inr k"
    using assms(2-4) by (simp add: read_string_Inr MAX_ID_CHARS_def)
  with assms(1) show ?thesis
    by (auto simp: decode_response_payload_def ok_head_def get_def dict_get_def schema_def SCHEMA_VERSION_def
        read_boolean_def response_readers_def split: if_splits)
qed

lemma head_dispatches:
  "decode_response_payload (ok_head ''register'' @ p) = read_register_response (ok_head ''register'' @ p)"
  "decode_response_payload (ok_head ''event'' @ p) = read_event_response (ok_head ''event'' @ p)"
  "decode_response_payload (ok_head ''status'' @ p) = read_status_response (ok_head ''status'' @ p)"
  "decode_response_payload (ok_head ''snapshot'' @ p) = read_snapshot_response (ok_head ''snapshot'' @ p)"
  "decode_response_payload (ok_head ''restore_list'' @ p) = read_restore_list_response (ok_head ''restore_list'' @ p)"
  "decode_response_payload (ok_head ''restore_result'' @ p) =
     read_restore_result_response (ok_head ''restore_result'' @ p)"
  "decode_response_payload (ok_head ''discard'' @ p) = read_discard_response (ok_head ''discard'' @ p)"
  by (rule ok_dispatch; simp add: response_readers_def forbidden_char_def code_def)+

lemmas ok_dispatches = head_dispatches [unfolded ok_head_def append_Cons append_Nil]

lemmas response_simps = ok_head_def common_keys_def dict_keys_def field_Inr exact_Inr read_id_Inr
  read_integer_Inr read_boolean_Inr safe_list_Inr nullable_safe_Inr read_id_list_Inr valid_count_def
  bounded_typed_sequence_def

lemma status_dec_enc:
  assumes "wf_status_view s" "response_to_dict (StatusResponse s) = Inr p"
  shows "decode_response_payload p = Inr (StatusResponse s)"
  using assms by (cases s) (auto simp: ok_dispatches read_status_response_def response_simps wf_status_view_def
      wf_texts_def)

lemma error_dec_enc: "decode_response_payload [(''schema_version'', JInt 1), (''ok'', JBool False),
    (''response'', JStr ''error''),
    (''error'', JObj [(''code'', JStr (ErrorCode_value c)), (''message'', JStr (ERROR_MESSAGES c))])] =
  Inr (ErrorResponse c (ERROR_MESSAGES c))"
proof -
  have "read_string (JStr ''error'') ''response'' MAX_ID_CHARS False = Inr ''error''"
    by (simp add: read_string_Inr MAX_ID_CHARS_def forbidden_char_def code_def)
  moreover have "read_string (JStr (ERROR_MESSAGES c)) ''error message'' MAX_ERROR_MESSAGE_CHARS True =
      Inr (ERROR_MESSAGES c)"
    by (cases c) (simp_all add: read_string_Inr MAX_ERROR_MESSAGE_CHARS_def forbidden_char_def code_def)
  moreover have "read_enum ErrorCode_value ErrorCode_members (JStr (ErrorCode_value c)) ''error code'' = Inr c"
    by (simp add: read_enums_Inr)
  ultimately show ?thesis
    by (simp add: decode_response_payload_def read_error_response_def get_def dict_get_def schema_def
        SCHEMA_VERSION_def read_boolean_def exact_def common_keys_def dict_keys_def field_def dict_item_def)
qed

lemma restore_list_dec_enc:
  assumes "wf_response redacted_display (RestoreListResponse w its ds)"
    "response_to_dict (RestoreListResponse w its ds) = Inr p"
  shows "decode_response_payload p = Inr (RestoreListResponse w (map wire_item its) ds)"
proof -
  from assms(2) obtain vs where vs: "traverse item_dict its = Inr vs"
    and p: "p = ok_head ''restore_list'' @ [(''workspace_id'', json_option JStr w), (''items'', JArr vs),
       (''diagnostics'', JArr (map text_json ds))]"
    by (auto simp: bounded_typed_sequence_def split: if_splits)
  have "object_list (JArr vs) ''items'' read_item v_item_id = Inr (map wire_item its)"
    using assms(1) by (intro object_list_dec_enc [OF _ vs])
      (auto simp: list_all_iff wire_item_def comp_def intro: item_dec_enc [unfolded wire_item_def])
  with assms(1) p show ?thesis
    by (cases w) (auto simp: ok_dispatches read_restore_list_response_def response_simps nullable_def json_option_def)
qed

lemma result_dec_enc:
  assumes "wf_response ok (RestoreResultResponse w a outs ids)"
    "response_to_dict (RestoreResultResponse w a outs ids) = Inr p"
  shows "decode_response_payload p = Inr (RestoreResultResponse w a outs ids)"
proof -
  have "traverse (\<lambda>u. Inr (outcome_dict u)) outs = Inr (map outcome_dict outs)"
    by (simp add: traverse_eq_Inr list_all2_conv_all_nth)
  then have "object_list (JArr (map outcome_dict outs)) ''outcomes'' read_outcome ov_item_id = Inr (map (\<lambda>x. x) outs)"
    using assms(1) by (intro object_list_dec_enc) (auto simp: list_all_iff intro: outcome_view_dec_enc)
  with assms show ?thesis
    by (auto simp: ok_dispatches read_restore_result_response_def response_simps id_list_Inr)
qed

lemma response_enc_total: "wf_response redacted_display r \<Longrightarrow> \<exists>p. response_to_dict r = Inr p"
proof (cases r)
  case (RestoreListResponse w its ds)
  assume "wf_response redacted_display r"
  with RestoreListResponse have "\<forall>i \<in> set its. \<exists>v. item_dict i = Inr v"
    by (auto simp: list_all_iff intro: item_enc_total)
  then have "\<exists>vs. traverse item_dict its = Inr vs" by (induction its) auto
  with RestoreListResponse \<open>wf_response redacted_display r\<close> show ?thesis
    by (auto simp: bounded_typed_sequence_def wf_texts_def)
qed (auto simp: bounded_typed_sequence_def id_list_Inr wf_status_view_def wf_texts_def)

lemma response_dec_enc:
  "wf_response redacted_display r \<Longrightarrow> response_to_dict r = Inr p \<Longrightarrow> decode_response_payload p = Inr (wire_view r)"
  by (cases r) (auto simp: status_dec_enc error_dec_enc restore_list_dec_enc result_dec_enc
      ok_dispatches read_register_response_def read_event_response_def read_snapshot_response_def
      read_discard_response_def response_simps read_capability_Inr
      simp del: response_to_dict.simps(3,5,6))

lemma nullable_id_Inr [decode_simps]:
  "nullable (\<lambda>v. read_id v n False) v = Inr w \<longleftrightarrow> v = json_option JStr w \<and> pred_option matches_id w"
  by (cases v; cases w) (auto simp: nullable_def json_option_def read_id_Inr)

lemma status_dec_wf: "read_status_response p = Inr r \<Longrightarrow> wf_response ok r"
  by (clarsimp simp: read_status_response_def field_Inr read_integer_Inr nullable_safe_Inr safe_list_Inr
      wf_status_view_def valid_count_def)

lemma restore_list_response_wf: "read_restore_list_response p = Inr r \<Longrightarrow> wf_response decoded_display r"
  by (clarsimp simp: read_restore_list_response_def field_Inr nullable_id_Inr safe_list_Inr)
    (auto simp: json_option_def split: option.splits dest: object_list_wf [OF _ item_dec_wf])

lemma result_dec_wf: "read_restore_result_response p = Inr r \<Longrightarrow> wf_response ok r"
  by (clarsimp simp: read_restore_result_response_def field_Inr read_id_Inr read_id_list_Inr)
    (auto dest: object_list_wf [OF _ outcome_view_dec_wf])

lemma error_dec_wf: "read_error_response p = Inr r \<Longrightarrow> wf_response ok r"
  by (clarsimp simp: read_error_response_def)

lemma small_dec_wf:
  "read_register_response p = Inr r \<Longrightarrow> wf_response ok r"
  "read_event_response p = Inr r \<Longrightarrow> wf_response ok r"
  "read_snapshot_response p = Inr r \<Longrightarrow> wf_response ok r"
  "read_discard_response p = Inr r \<Longrightarrow> wf_response ok r"
  by (clarsimp simp: read_register_response_def read_event_response_def read_snapshot_response_def
      read_discard_response_def field_Inr read_capability_Inr read_integer_Inr read_id_Inr valid_count_def)+

lemma response_dec_wf: "decode_response_payload p = Inr r \<Longrightarrow> wf_response decoded_display r"
  unfolding decode_response_payload_def bind_r_eq_Inr
  by (elim exE conjE) (auto split: if_splits
      dest: status_dec_wf restore_list_response_wf result_dec_wf error_dec_wf small_dec_wf)

interpretation response_codec:
  message_codec response_to_dict decode_response_payload "wf_response redacted_display"
    "wf_response decoded_display" wire_view
  by unfold_locales (auto intro: response_enc_total response_dec_enc response_dec_wf)

section \<open>Keys and depth of a response\<close>

fun tree_keys :: "json \<Rightarrow> string set" where
  "tree_keys (JObj kvs) = (\<Union>(k, v) \<in> set kvs. insert k (tree_keys v))"
| "tree_keys (JArr vs) = (\<Union>v \<in> set vs. tree_keys v)"
| "tree_keys _ = {}"

lemma safe_response_tree_iff:
  "safe_response_tree register v = Inr u \<longleftrightarrow> (\<forall>k \<in> tree_keys v. \<not> sensitive_key register k)"
  by (induction register v rule: safe_response_tree.induct) (auto split: prod.splits)

lemma tree_keys_flat [simp]: "tree_keys (text_json t) = {}" "tree_keys (json_option text_json x) = {}"
    "tree_keys (json_option JStr y) = {}"
  by (auto simp: text_json_def json_option_def split: option.splits)

lemma item_safe: "item_dict i = Inr v \<Longrightarrow> \<forall>k \<in> tree_keys v. \<not> sensitive_key b k"
  by (auto simp: item_dict_def sensitive_key_def split: option.splits ReplayDisplay.splits)

lemma outcome_safe: "\<forall>k \<in> tree_keys (outcome_dict u). \<not> sensitive_key b k"
  by (simp add: outcome_dict_def sensitive_key_def)

lemma response_keys_safe:
  "response_to_dict r = Inr p \<Longrightarrow> k \<in> tree_keys (JObj p) \<Longrightarrow>
   \<not> sensitive_key (case r of RegisterResponse _ _ \<Rightarrow> True | _ \<Rightarrow> False) k"
proof (cases r)
  case (RestoreListResponse w its ds)
  assume r: "response_to_dict r = Inr p" and k: "k \<in> tree_keys (JObj p)"
  from r RestoreListResponse obtain vs where vs: "traverse item_dict its = Inr vs"
    and p: "p = ok_head ''restore_list'' @ [(''workspace_id'', json_option JStr w), (''items'', JArr vs),
       (''diagnostics'', JArr (map text_json ds))]"
    by (auto simp: bounded_typed_sequence_def split: if_splits)
  from vs have "\<forall>v \<in> set vs. \<forall>k \<in> tree_keys v. \<not> sensitive_key False k"
    using item_safe by (blast dest: traverse_InrD)
  with p k RestoreListResponse show ?thesis by (auto simp: ok_head_def) (auto simp: sensitive_key_def)
next
  case (RestoreResultResponse w a outs ids)
  assume r: "response_to_dict r = Inr p" and k: "k \<in> tree_keys (JObj p)"
  from r RestoreResultResponse have
    p: "p = ok_head ''restore_result'' @ [(''workspace_id'', JStr w), (''attempt_id'', JStr a),
       (''outcomes'', JArr (map outcome_dict outs)), (''remaining_item_ids'', JArr (map JStr ids))]"
    by (auto simp: bounded_typed_sequence_def id_list_Inr split: if_splits)
  with k RestoreResultResponse outcome_safe [of _ False] show ?thesis
    by (auto simp: ok_head_def) (auto simp: sensitive_key_def)
next
  case (StatusResponse s)
  assume r: "response_to_dict r = Inr p" and k: "k \<in> tree_keys (JObj p)"
  with StatusResponse show ?thesis
    by (auto simp: ok_head_def bounded_typed_sequence_def split: if_splits) (auto simp: sensitive_key_def)
qed (auto simp: ok_head_def sensitive_key_def)

lemma response_tree_safe:
  "response_to_dict r = Inr p \<Longrightarrow>
   safe_response_tree (case r of RegisterResponse _ _ \<Rightarrow> True | _ \<Rightarrow> False) (JObj p) = Inr ()"
  unfolding safe_response_tree_iff using response_keys_safe by blast

fun json_depth :: "json \<Rightarrow> nat" where
  "json_depth (JArr vs) = Suc (foldr max (map json_depth vs) 0)"
| "json_depth (JObj kvs) = Suc (foldr max (map (\<lambda>(k, v). json_depth v) kvs) 0)"
| "json_depth _ = 1"

lemma map_snd_depth: "map (\<lambda>(k, v). json_depth v) kvs = map json_depth (map snd kvs)"
  by auto

lemma json_depth_children: "json_depth v = Suc (foldr max (map json_depth (children v)) 0)"
  by (cases v) (simp_all only: json_depth.simps children.simps map_snd_depth list.map foldr.simps id_apply One_nat_def)

lemma foldr_max_le: "foldr max ns 0 \<le> (m::nat) \<longleftrightarrow> (\<forall>n \<in> set ns. n \<le> m)"
  by (induction ns) auto

lemma json_depth_le:
  "json_depth v + d \<le> m + 1 \<longleftrightarrow> d \<le> m \<and> (\<forall>c \<in> set (children v). json_depth c + Suc d \<le> m + 1)"
proof -
  have "json_depth v + d \<le> m + 1 \<longleftrightarrow> d \<le> m \<and> foldr max (map json_depth (children v)) 0 \<le> m - d"
    by (subst json_depth_children) auto
  moreover have "json_depth c \<le> m - d \<longleftrightarrow> json_depth c + Suc d \<le> m + 1" if "d \<le> m" for c using that by auto
  ultimately show ?thesis unfolding foldr_max_le by auto
qed

lemma depth_loop_iff:
  "depth_loop stack = Inr u \<longleftrightarrow> (\<forall>(v, d) \<in> set stack. json_depth v + d \<le> MAX_JSON_NESTING + 1)"
proof (induction stack rule: depth_loop.induct)
  case (2 current depth stack)
  have step: "(\<forall>(v, d) \<in> set ((current, depth) # stack). json_depth v + d \<le> MAX_JSON_NESTING + 1) \<longleftrightarrow>
      depth \<le> MAX_JSON_NESTING \<and>
      (\<forall>(v, d) \<in> set (rev (map (\<lambda>child. (child, depth + 1)) (children current)) @ stack).
         json_depth v + d \<le> MAX_JSON_NESTING + 1)"
    using json_depth_le [of current depth MAX_JSON_NESTING] by (simp add: ball_Un)
  show ?case
  proof (cases "depth > MAX_JSON_NESTING")
    case True
    then show ?thesis unfolding step by simp
  next
    case False
    then show ?thesis unfolding step using "2.IH" by simp
  qed
qed simp

lemma require_json_depth_iff: "require_json_depth v = Inr u \<longleftrightarrow> json_depth v \<le> MAX_JSON_NESTING"
  unfolding require_json_depth_def by (subst depth_loop_iff) simp

section \<open>Properties of the protocol\<close>

definition sample_event :: EventRequest where
  "sample_event = \<lparr>ev_operation = Op_COMMAND_STARTED, ev_shell_id = replicate 16 CHR ''a'',
     ev_capability = replicate 32 CHR ''c'', ev_identity = \<lparr>boot_id = ''01234567-89ab-cdef-0123-456789abcdef'',
       pid = 7, start_time = 9\<rparr>, ev_sequence = 1, ev_cwd = None, ev_command_sequence = Some 1,
     ev_command = Some ''ls'', ev_exit_status = None\<rparr>"

lemma canonical_sample: "canonical_uuid ''01234567-89ab-cdef-0123-456789abcdef''"
  unfolding canonical_uuid_def
  by (rule exI [of _ "''01234567''"], rule exI [of _ "''89ab''"], rule exI [of _ "''cdef''"],
      rule exI [of _ "''0123''"], rule exI [of _ "''456789abcdef''"])
    (simp add: hex_char_def hex_alphabet_def)

lemma sample_event_wf: "wf_event sample_event"
  using canonical_sample
  by (simp add: sample_event_def wf_event_def valid_shell_id_def matches_id_def matches_capability_def id_char_def
      wire_identity_def optional_fields_def present_iff_def valid_command_def MAX_COMMAND_CHARS_def
      MAX_INTEGER_def forbidden_char_def is_letter_def is_lower_def code_def list_all_iff)

text \<open>A well-formed request of any kind is encoded, passes the self-check of the encoder, and is decoded to itself.\<close>
theorem request_roundtrip:
  assumes "wf_request r"
  shows "\<exists>p. encode_request_payload r = Inr p \<and> decode_request_payload p = Inr r"
  using request_codec.checked_enc_total [OF assms] request_codec.dec_enc [OF assms]
  by (auto simp: encode_request_payload_def)

theorem request_roundtrip_witness:
  "wf_request (Event sample_event) \<and>
   (\<exists>p. encode_request_payload (Event sample_event) = Inr p \<and> decode_request_payload p = Inr (Event sample_event))"
  using request_roundtrip [of "Event sample_event"] sample_event_wf by simp

text \<open>A restore request that the decoder lets through approves only selected items, selects at least one and at
  most 256 of them, each once, by well-formed identifiers.\<close>
theorem execute_approval_bounded:
  assumes "decode_request_payload p = Inr (RestoreExecuteRequest w selected approved)"
  shows "set approved \<subseteq> set selected \<and> selected \<noteq> [] \<and> length selected \<le> 256 \<and> distinct selected \<and>
    distinct approved \<and> (\<forall>i \<in> set selected. 1 \<le> length i \<and> length i \<le> 128 \<and> list_all id_char i) \<and> matches_id w"
  using request_codec.dec_wf [OF assms]
  by (auto simp: valid_ids_def MAX_ITEMS_def list_all_iff matches_id_def)

theorem execute_approval_bounded_witness:
  "decode_request_payload [(''schema_version'', JInt 1), (''operation'', JStr ''restore_execute''),
     (''workspace_id'', JStr ''w''), (''selected_item_ids'', JArr [JStr ''a'', JStr ''b'']),
     (''approved_item_ids'', JArr [JStr ''b''])] = Inr (RestoreExecuteRequest ''w'' [''a'', ''b''] [''b'']) \<and>
   set [''b''] \<subseteq> set [''a'', ''b'']"
proof -
  have ids: "valid_ids [''a'', ''b'']" "valid_ids [''b'']" "matches_id ''w''"
    by (simp_all add: valid_ids_def matches_id_def id_char_def is_letter_def is_lower_def code_def MAX_ITEMS_def)
  then have "id_list [JStr ''a'', JStr ''b''] ''selected_item_ids'' True = Inr [''a'', ''b'']"
    "id_list [JStr ''b''] ''approved_item_ids'' False = Inr [''b'']" by (simp_all add: id_list_Inr)
  with ids have "decode_request_payload [(''schema_version'', JInt 1), (''operation'', JStr ''restore_execute''),
     (''workspace_id'', JStr ''w''), (''selected_item_ids'', JArr [JStr ''a'', JStr ''b'']),
     (''approved_item_ids'', JArr [JStr ''b''])] = Inr (RestoreExecuteRequest ''w'' [''a'', ''b''] [''b''])"
    by (intro request_codec.dec_enc) simp_all
  from execute_approval_bounded [OF this] this show ?thesis by blast
qed

text \<open>A well-formed response passes the key filter and the self-check of the encoder, and the client decodes it to
  the same response, with the display text stripped of its provenance.\<close>
theorem response_roundtrip:
  assumes "wf_response redacted_display r"
  shows "\<exists>p. encode_response_payload r = Inr p \<and> decode_response_payload p = Inr (wire_view r)"
proof -
  from response_codec.enc_total [OF assms] obtain p where p: "response_to_dict r = Inr p" ..
  with response_codec.dec_enc [OF assms p] response_tree_safe [OF p] show ?thesis
    by (auto simp: encode_response_payload_def)
qed

theorem response_roundtrip_witness:
  "wf_response redacted_display (ErrorResponse UNKNOWN_ITEM ''recovery item rejected'') \<and>
   (\<exists>p. encode_response_payload (ErrorResponse UNKNOWN_ITEM ''recovery item rejected'') = Inr p)"
  using response_roundtrip [of "ErrorResponse UNKNOWN_ITEM ''recovery item rejected''"] by auto

text \<open>No response of any kind has, at any depth, a key that could carry a command, an argument vector or an executable,
  and only the answer to a registration has a capability.\<close>
theorem response_keys_never_sensitive:
  assumes "response_to_dict r = Inr p" "k \<in> tree_keys (JObj p)"
  shows "k \<notin> {''command'', ''approved_command'', ''argv'', ''executable''} \<and>
    (k = ''capability'' \<longrightarrow> (\<exists>c n. r = RegisterResponse c n))"
  using response_keys_safe [OF assms] by (cases r) (auto simp: sensitive_key_def)

theorem response_keys_never_sensitive_witness:
  "\<exists>p. response_to_dict (RegisterResponse ''c'' 0) = Inr p \<and> ''capability'' \<in> tree_keys (JObj p) \<and>
     (\<exists>c n. RegisterResponse ''c'' 0 = RegisterResponse c n)"
  using response_keys_never_sensitive [of "RegisterResponse ''c'' 0" _ "''capability''"] by (simp add: ok_head_def)

text \<open>The stack loop of the depth check terminates for every value and accepts exactly the values nested at most
  sixteen deep.\<close>
theorem json_depth_checked: "require_json_depth v = Inr () \<longleftrightarrow> json_depth v \<le> 16"
  by (simp add: require_json_depth_iff MAX_JSON_NESTING_def)

end
