(* ===== verification/Engine.thy ===== *)
theory Engine
  imports Protocol "HOL-Library.AList"
begin

text \<open>
  \<^verbatim>\<open>state.py\<close>: the engine. Its state is the current snapshot, the registrations of the shells that are
  connected and the generation of the last change. The registrations are a dictionary: an association list whose
  update keeps the position of a key. The new capability that \<^verbatim>\<open>capability_factory\<close> returns is an argument.
\<close>

section \<open>State\<close>

record Registration =
  rg_capability :: string
  rg_identity :: ProcessIdentity
  rg_last_sequence :: int
  rg_last_command_sequence :: int

definition Registration_check :: "Registration \<Rightarrow> Registration result" where
  "Registration_check r =
     bind_r (raise_if (\<not> matches_capability (rg_capability r)) (ValueError ''invalid capability'')) (\<lambda>_.
     bind_r (raise_if (rg_last_sequence r < 0) (ValueError ''last_sequence must be non-negative'')) (\<lambda>_.
     bind_r (raise_if (rg_last_command_sequence r < 0)
       (ValueError ''last_command_sequence must be non-negative'')) (\<lambda>_.
     Inr r)))"

record EngineState =
  snapshot :: Snapshot
  registrations :: "(string \<times> Registration) list"
  dirty_generation :: int

definition EngineState_check :: "EngineState \<Rightarrow> EngineState result" where
  "EngineState_check st =
     bind_r (raise_if (dirty_generation st < 0) (ValueError ''dirty_generation must be non-negative'')) (\<lambda>_.
     Inr st)"

section \<open>Operations\<close>

fun find_shell :: "ShellRecord list \<Rightarrow> string \<Rightarrow> (nat \<times> ShellRecord) result" where
  "find_shell [] i = Inl (ValueError ''registered shell state not found'')"
| "find_shell (s # ss) i =
     (if shell_id s = i then Inr (0, s) else bind_r (find_shell ss i) (\<lambda>(n, t). Inr (Suc n, t)))"

fun replace_or_append_shell :: "ShellRecord list \<Rightarrow> ShellRecord \<Rightarrow> ShellRecord list" where
  "replace_or_append_shell [] r = [r]"
| "replace_or_append_shell (s # ss) r =
     (if shell_id s = shell_id r then r # ss else s # replace_or_append_shell ss r)"

definition register_shell ::
  "EngineState \<Rightarrow> RegisterRequest \<Rightarrow> string \<Rightarrow> int option \<Rightarrow> (EngineState \<times> string) result" where
  "register_shell st req fresh peer_pid =
     bind_r (raise_if (reg_sequence req \<noteq> 0) (ValueError ''registration sequence must be zero'')) (\<lambda>_.
     bind_r (raise_if (reg_adapter req \<notin> set SUPPORTED_ADAPTERS) (ValueError ''unsupported adapter'')) (\<lambda>_.
     bind_r (raise_if (case peer_pid of None \<Rightarrow> False | Some p \<Rightarrow> pid (reg_identity req) \<noteq> p)
       (ValueError ''identity does not match peer'')) (\<lambda>_.
     let existing = map_of (registrations st) (reg_shell_id req);
         existing_shell = find (\<lambda>s. shell_id s = reg_shell_id req) (shells (snapshot st));
         preserved = (case existing of
             None \<Rightarrow> reg_sequence req
           | Some r \<Rightarrow> (case existing_shell of Some s \<Rightarrow> last_sequence s | None \<Rightarrow> rg_last_sequence r)) in
     bind_r (ShellRecord_init (reg_shell_id req) (reg_identity req) (reg_adapter req) (reg_cwd req)
       preserved None None) (\<lambda>shell.
     bind_r (raise_if (\<exists>(k, r) \<in> set (registrations st). k \<noteq> reg_shell_id req \<and> rg_capability r = fresh)
       (ValueError ''capability collision'')) (\<lambda>_.
     bind_r (Registration_check (case existing of
         Some r \<Rightarrow> \<lparr>rg_capability = fresh, rg_identity = reg_identity req,
           rg_last_sequence = rg_last_sequence r, rg_last_command_sequence = rg_last_command_sequence r\<rparr>
       | None \<Rightarrow> \<lparr>rg_capability = fresh, rg_identity = reg_identity req,
           rg_last_sequence = reg_sequence req, rg_last_command_sequence = 0\<rparr>)) (\<lambda>registration.
     let gen = dirty_generation st + 1 in
     bind_r (Snapshot_check ((snapshot st)\<lparr>generation := gen,
       shells := replace_or_append_shell (shells (snapshot st)) shell\<rparr>)) (\<lambda>snap.
     bind_r (EngineState_check \<lparr>snapshot = snap,
       registrations = AList.update (reg_shell_id req) registration (registrations st),
       dirty_generation = gen\<rparr>) (\<lambda>st'.
     Inr (st', fresh)))))))))"

definition reduce_shell :: "ShellRecord \<Rightarrow> Registration \<Rightarrow> EventRequest \<Rightarrow> ShellRecord result" where
  "reduce_shell shell registration req =
     (case ev_operation req of
        Op_COMMAND_STARTED \<Rightarrow>
          (case (ev_command_sequence req, ev_command req) of
             (Some cs, Some cmd) \<Rightarrow>
               bind_r (raise_if (cs \<le> rg_last_command_sequence registration)
                 (ValueError ''command sequence rejected'')) (\<lambda>_.
               bind_r (classify_command cmd cs) (\<lambda>c.
               ShellRecord_check (shell\<lparr>command := Some (classified c)\<rparr>)))
           | _ \<Rightarrow> Inl (ValueError ''command start data missing''))
      | Op_COMMAND_FINISHED \<Rightarrow>
          (case ev_command_sequence req of
             None \<Rightarrow> Inl (ValueError ''command finish sequence missing'')
           | Some cs \<Rightarrow>
               bind_r (raise_if (case command shell of None \<Rightarrow> True | Some c \<Rightarrow> cmd_sequence c \<noteq> cs)
                 (ValueError ''command sequence rejected'')) (\<lambda>_.
               ShellRecord_check (shell\<lparr>command := None\<rparr>)))
      | Op_PROMPT_READY \<Rightarrow>
          (case ev_cwd req of
             None \<Rightarrow> Inl (ValueError ''prompt directory missing'')
           | Some d \<Rightarrow> ShellRecord_check (shell\<lparr>cwd := d, command := None\<rparr>))
      | Op_CWD_CHANGED \<Rightarrow>
          (case ev_cwd req of
             None \<Rightarrow> Inl (ValueError ''working directory missing'')
           | Some d \<Rightarrow> ShellRecord_check (shell\<lparr>cwd := d\<rparr>))
      | Op_EXPLICIT_EXIT \<Rightarrow> ShellRecord_check (shell\<lparr>termination_kind := Some EXPLICIT_EXIT\<rparr>)
      | _ \<Rightarrow> Inl (ValueError ''unsupported lifecycle operation''))"

text \<open>\<^verbatim>\<open>secrets.compare_digest\<close> on text raises \<^verbatim>\<open>TypeError\<close> outside ASCII.\<close>

definition compare_digest :: "string \<Rightarrow> string \<Rightarrow> bool result" where
  "compare_digest a b =
     (if list_ex (\<lambda>c. code c > 127) (a @ b)
      then Inl (TypeError ''comparing strings with non-ASCII characters is not supported'')
      else Inr (a = b))"

definition apply_event :: "EngineState \<Rightarrow> EventRequest \<Rightarrow> EngineState result" where
  "apply_event st req =
     (case map_of (registrations st) (ev_shell_id req) of
        None \<Rightarrow> Inl (ValueError ''shell registration not found'')
      | Some registration \<Rightarrow>
     bind_r (compare_digest (rg_capability registration) (ev_capability req)) (\<lambda>same.
     bind_r (raise_if (\<not> same) (ValueError ''event authority rejected'')) (\<lambda>_.
     bind_r (raise_if (rg_identity registration \<noteq> ev_identity req) (ValueError ''event identity rejected'')) (\<lambda>_.
     bind_r (raise_if (ev_sequence req \<le> rg_last_sequence registration) (ValueError ''event sequence rejected'')) (\<lambda>_.
     bind_r (find_shell (shells (snapshot st)) (ev_shell_id req)) (\<lambda>(index, shell).
     bind_r (raise_if (termination_kind shell = Some EXPLICIT_EXIT)
       (ValueError ''shell registration terminated'')) (\<lambda>_.
     bind_r (reduce_shell shell registration req) (\<lambda>updated.
     bind_r (ShellRecord_check (updated\<lparr>last_sequence := ev_sequence req\<rparr>)) (\<lambda>updated'.
     bind_r (if ev_operation req = Op_COMMAND_STARTED then
               (case ev_command_sequence req of None \<Rightarrow> Inl (AssertionError []) | Some cs \<Rightarrow> Inr cs)
             else Inr (rg_last_command_sequence registration)) (\<lambda>lcs.
     bind_r (Registration_check (registration\<lparr>rg_last_sequence := ev_sequence req,
       rg_last_command_sequence := lcs\<rparr>)) (\<lambda>registration'.
     let gen = dirty_generation st + 1 in
     bind_r (Snapshot_check ((snapshot st)\<lparr>generation := gen,
       shells := (shells (snapshot st))[index := updated']\<rparr>)) (\<lambda>snap.
     EngineState_check \<lparr>snapshot = snap,
       registrations = AList.update (ev_shell_id req) registration' (registrations st),
       dirty_generation = gen\<rparr>))))))))))))"

section \<open>Shells by identifier\<close>

definition shell_map :: "ShellRecord list \<Rightarrow> string \<Rightarrow> ShellRecord option" where
  "shell_map ss = map_of (map (\<lambda>s. (shell_id s, s)) ss)"

lemma shell_map_simps [simp]:
  "shell_map [] i = None"
  "shell_map (s # ss) i = (if shell_id s = i then Some s else shell_map ss i)"
  by (simp_all add: shell_map_def)

lemma find_eq_shell_map: "find (\<lambda>s. shell_id s = i) ss = shell_map ss i"
  by (induction ss) auto

lemma shell_map_SomeD: "shell_map ss i = Some s \<Longrightarrow> s \<in> set ss \<and> shell_id s = i"
  by (induction ss) (auto split: if_splits)

lemma shell_map_None: "shell_map ss i = None \<longleftrightarrow> i \<notin> shell_id ` set ss"
  by (induction ss) auto

lemma find_shell_InrD:
  "find_shell ss i = Inr (n, s) \<Longrightarrow> shell_map ss i = Some s \<and> n < length ss \<and> ss ! n = s \<and> shell_id s = i"
  by (induction ss arbitrary: n) (auto split: if_splits)

lemma find_shell_total: "shell_map ss i = Some s \<Longrightarrow> \<exists>n. find_shell ss i = Inr (n, s)"
  by (induction ss) (auto split: if_splits)

lemma shell_map_replace [simp]:
  "shell_map (replace_or_append_shell ss r) i = (if i = shell_id r then Some r else shell_map ss i)"
  by (induction ss) auto

lemma shell_map_update:
  "find_shell ss i = Inr (n, s) \<Longrightarrow> shell_id u = i \<Longrightarrow>
   shell_map (ss[n := u]) k = (if k = i then Some u else shell_map ss k)"
  by (induction ss arbitrary: n) (auto split: if_splits nat.splits)

lemma ids_replace:
  "map shell_id (replace_or_append_shell ss r) =
     (if shell_id r \<in> shell_id ` set ss then map shell_id ss else map shell_id ss @ [shell_id r])"
  by (induction ss) auto

lemma set_replace: "set (replace_or_append_shell ss r) \<subseteq> insert r (set ss)"
  by (induction ss) auto

lemma length_replace:
  "length (replace_or_append_shell ss r) = length ss + (if shell_id r \<in> shell_id ` set ss then 0 else 1)"
  using arg_cong [OF ids_replace [of ss r], of length] by simp

lemma ids_update: "find_shell ss i = Inr (n, s) \<Longrightarrow> shell_id u = i \<Longrightarrow> map shell_id (ss[n := u]) = map shell_id ss"
  by (induction ss arbitrary: n) (auto split: if_splits nat.splits)

section \<open>Inversion of the operations\<close>

lemma Registration_check_Inr [decode_simps]:
  "Registration_check r = Inr q \<longleftrightarrow> q = r \<and> matches_capability (rg_capability r) \<and>
     0 \<le> rg_last_sequence r \<and> 0 \<le> rg_last_command_sequence r"
  by (auto simp: Registration_check_def)

lemma EngineState_check_Inr [decode_simps]:
  "EngineState_check st = Inr q \<longleftrightarrow> q = st \<and> 0 \<le> dirty_generation st"
  by (auto simp: EngineState_check_def)

lemma ShellRecord_check_eq: "ShellRecord_check s = Inr r \<Longrightarrow> r = s"
  by (simp add: ShellRecord_check_Inr)

lemma Snapshot_check_eq: "Snapshot_check s = Inr r \<Longrightarrow>
    r = s \<and> snap_schema_version s = SCHEMA_VERSION \<and> 0 \<le> generation s \<and> is_finite (captured_at s) \<and>
    length (shells s) \<le> MAX_ITEMS"
  by (auto simp: Snapshot_check_def decode_simps)

text \<open>The record a registration leaves, from what was there before.\<close>

definition registered :: "Registration option \<Rightarrow> RegisterRequest \<Rightarrow> string \<Rightarrow> Registration" where
  "registered existing req fresh = (case existing of
      Some r \<Rightarrow> \<lparr>rg_capability = fresh, rg_identity = reg_identity req, rg_last_sequence = rg_last_sequence r,
        rg_last_command_sequence = rg_last_command_sequence r\<rparr>
    | None \<Rightarrow> \<lparr>rg_capability = fresh, rg_identity = reg_identity req, rg_last_sequence = 0,
        rg_last_command_sequence = 0\<rparr>)"

definition registered_shell :: "Registration option \<Rightarrow> ShellRecord option \<Rightarrow> RegisterRequest \<Rightarrow> ShellRecord" where
  "registered_shell existing known req = \<lparr>shell_id = reg_shell_id req, identity = reg_identity req,
     adapter = reg_adapter req, cwd = reg_cwd req,
     last_sequence = (case existing of None \<Rightarrow> 0
       | Some r \<Rightarrow> (case known of Some s \<Rightarrow> last_sequence s | None \<Rightarrow> rg_last_sequence r)),
     command = None, termination_kind = None\<rparr>"

lemma compare_digest_Inr: "compare_digest a b = Inr c \<Longrightarrow> c \<longleftrightarrow> a = b"
  by (auto simp: compare_digest_def split: if_splits)

lemma register_shell_InrD:
  assumes "register_shell st req fresh peer = Inr (st', c)"
  defines "existing \<equiv> map_of (registrations st) (reg_shell_id req)"
  defines "shell \<equiv> registered_shell existing (shell_map (shells (snapshot st)) (reg_shell_id req)) req"
  shows "c = fresh \<and> reg_sequence req = 0 \<and> reg_adapter req \<in> set SUPPORTED_ADAPTERS \<and>
    (\<forall>p. peer = Some p \<longrightarrow> pid (reg_identity req) = p) \<and>
    ShellRecord_check shell = Inr shell \<and>
    (\<forall>(k, r) \<in> set (registrations st). k \<noteq> reg_shell_id req \<longrightarrow> rg_capability r \<noteq> fresh) \<and>
    Registration_check (registered existing req fresh) = Inr (registered existing req fresh) \<and>
    st' = \<lparr>snapshot = (snapshot st)\<lparr>generation := dirty_generation st + 1,
              shells := replace_or_append_shell (shells (snapshot st)) shell\<rparr>,
           registrations = AList.update (reg_shell_id req) (registered existing req fresh) (registrations st),
           dirty_generation = dirty_generation st + 1\<rparr> \<and>
    Snapshot_check (snapshot st') = Inr (snapshot st') \<and> 0 \<le> dirty_generation st'"
proof (cases "map_of (registrations st) (reg_shell_id req)")
  case None
  with assms(1) show ?thesis
    unfolding existing_def shell_def
    by (clarsimp simp: register_shell_def Let_def find_eq_shell_map ShellRecord_init_def ShellRecord_check_Inr
        Registration_check_Inr EngineState_check_Inr registered_def registered_shell_def
        dest!: Snapshot_check_eq) (auto simp: Snapshot_check_def)
next
  case (Some r)
  with assms(1) show ?thesis
    unfolding existing_def shell_def
    by (clarsimp simp: register_shell_def Let_def find_eq_shell_map ShellRecord_init_def ShellRecord_check_Inr
        Registration_check_Inr EngineState_check_Inr registered_def registered_shell_def
        dest!: Snapshot_check_eq) (auto simp: Snapshot_check_def split: option.splits)
qed

text \<open>The state an accepted event leaves, where \<open>u\<close> is the reduced shell record at index \<open>n\<close>.\<close>

definition event_registration :: "EventRequest \<Rightarrow> Registration \<Rightarrow> Registration" where
  "event_registration req r = r\<lparr>rg_last_sequence := ev_sequence req,
     rg_last_command_sequence := (if ev_operation req = Op_COMMAND_STARTED
       then the (ev_command_sequence req) else rg_last_command_sequence r)\<rparr>"

definition after_event ::
  "EngineState \<Rightarrow> EventRequest \<Rightarrow> Registration \<Rightarrow> nat \<Rightarrow> ShellRecord \<Rightarrow> EngineState" where
  "after_event st req r n u = \<lparr>snapshot = (snapshot st)\<lparr>generation := dirty_generation st + 1,
       shells := (shells (snapshot st))[n := u\<lparr>last_sequence := ev_sequence req\<rparr>]\<rparr>,
     registrations = AList.update (ev_shell_id req) (event_registration req r) (registrations st),
     dirty_generation = dirty_generation st + 1\<rparr>"

lemma apply_event_InrD:
  assumes "apply_event st req = Inr st'"
  obtains r n s u where
    "map_of (registrations st) (ev_shell_id req) = Some r"
    "rg_capability r = ev_capability req" "rg_identity r = ev_identity req"
    "rg_last_sequence r < ev_sequence req"
    "find_shell (shells (snapshot st)) (ev_shell_id req) = Inr (n, s)"
    "termination_kind s \<noteq> Some EXPLICIT_EXIT"
    "reduce_shell s r req = Inr u"
    "ShellRecord_check (u\<lparr>last_sequence := ev_sequence req\<rparr>) = Inr (u\<lparr>last_sequence := ev_sequence req\<rparr>)"
    "st' = after_event st req r n u"
    "Snapshot_check (snapshot st') = Inr (snapshot st')" "0 \<le> dirty_generation st'"
    "ev_operation req = Op_COMMAND_STARTED \<Longrightarrow> \<exists>cs. ev_command_sequence req = Some cs \<and> 0 \<le> cs"
proof -
  from assms obtain r where r: "map_of (registrations st) (ev_shell_id req) = Some r"
    by (auto simp: apply_event_def split: option.splits)
  from assms r obtain same n s u lcs snap where
    d: "compare_digest (rg_capability r) (ev_capability req) = Inr same" "same"
      "rg_identity r = ev_identity req" "rg_last_sequence r < ev_sequence req"
    and f: "find_shell (shells (snapshot st)) (ev_shell_id req) = Inr (n, s)"
      "termination_kind s \<noteq> Some EXPLICIT_EXIT" "reduce_shell s r req = Inr u"
      "ShellRecord_check (u\<lparr>last_sequence := ev_sequence req\<rparr>) = Inr (u\<lparr>last_sequence := ev_sequence req\<rparr>)"
    and l: "(if ev_operation req = Op_COMMAND_STARTED then
         (case ev_command_sequence req of None \<Rightarrow> Inl (AssertionError []) | Some cs \<Rightarrow> Inr cs)
       else Inr (rg_last_command_sequence r)) = Inr lcs" "0 \<le> lcs"
    and e: "Snapshot_check ((snapshot st)\<lparr>generation := dirty_generation st + 1,
        shells := (shells (snapshot st))[n := u\<lparr>last_sequence := ev_sequence req\<rparr>]\<rparr>) = Inr snap"
      "EngineState_check \<lparr>snapshot = snap, registrations = AList.update (ev_shell_id req)
         (r\<lparr>rg_last_sequence := ev_sequence req, rg_last_command_sequence := lcs\<rparr>) (registrations st),
         dirty_generation = dirty_generation st + 1\<rparr> = Inr st'"
    by (clarsimp simp: apply_event_def Let_def Registration_check_Inr ShellRecord_check_Inr)
  from e have st': "st' = \<lparr>snapshot = (snapshot st)\<lparr>generation := dirty_generation st + 1,
        shells := (shells (snapshot st))[n := u\<lparr>last_sequence := ev_sequence req\<rparr>]\<rparr>,
      registrations = AList.update (ev_shell_id req)
         (r\<lparr>rg_last_sequence := ev_sequence req, rg_last_command_sequence := lcs\<rparr>) (registrations st),
      dirty_generation = dirty_generation st + 1\<rparr>"
    by (auto simp: EngineState_check_Inr dest!: Snapshot_check_eq)
  from l have lcs: "lcs = (if ev_operation req = Op_COMMAND_STARTED then the (ev_command_sequence req)
      else rg_last_command_sequence r)"
    and cs: "ev_operation req = Op_COMMAND_STARTED \<Longrightarrow> \<exists>cs. ev_command_sequence req = Some cs \<and> 0 \<le> cs"
    by (auto split: if_splits option.splits)
  from e have "Snapshot_check (snapshot st') = Inr (snapshot st')" "0 \<le> dirty_generation st'"
    by (auto simp: EngineState_check_Inr dest: Snapshot_check_eq)
  moreover from st' have "st' = after_event st req r n u"
    by (simp add: after_event_def event_registration_def lcs)
  ultimately show thesis using that [OF r _ d(3,4) f] d(1,2) compare_digest_Inr cs by blast
qed

section \<open>Invariant\<close>

text \<open>A registration and the shell record under the same identifier agree.\<close>

definition agrees :: "Registration \<Rightarrow> ShellRecord \<Rightarrow> bool" where
  "agrees r s \<longleftrightarrow> matches_capability (rg_capability r) \<and> 0 \<le> rg_last_sequence r \<and>
     0 \<le> rg_last_command_sequence r \<and> identity s = rg_identity r \<and> last_sequence s = rg_last_sequence r \<and>
     (\<forall>c. command s = Some c \<longrightarrow> cmd_sequence c \<le> rg_last_command_sequence r)"

definition engine_inv :: "EngineState \<Rightarrow> bool" where
  "engine_inv st \<longleftrightarrow> wf_snapshot (snapshot st) \<and> generation (snapshot st) = dirty_generation st \<and>
     distinct (map shell_id (shells (snapshot st))) \<and> distinct (map fst (registrations st)) \<and>
     (\<forall>i r. map_of (registrations st) i = Some r \<longrightarrow>
        (\<exists>s. shell_map (shells (snapshot st)) i = Some s \<and> agrees r s)) \<and>
     (\<forall>i j r q. map_of (registrations st) i = Some r \<longrightarrow> map_of (registrations st) j = Some q \<longrightarrow>
        rg_capability r = rg_capability q \<longrightarrow> i = j)"

text \<open>The state the service starts with: the stored snapshot, and no shell connected.\<close>

definition initial_state :: "Snapshot \<Rightarrow> EngineState" where
  "initial_state s = \<lparr>snapshot = s, registrations = [], dirty_generation = generation s\<rparr>"

lemma initial_inv:
  "wf_snapshot s \<Longrightarrow> distinct (map shell_id (shells s)) \<Longrightarrow> engine_inv (initial_state s)"
  by (simp add: initial_state_def engine_inv_def)

lemma map_of_alist_update: "map_of (AList.update k v al) = (map_of al)(k \<mapsto> v)"
  by (rule update_conv')

lemma engine_invI:
  assumes inv: "engine_inv st"
    and snap: "wf_snapshot sn" "generation sn = g" "distinct (map shell_id (shells sn))"
    and shell: "\<And>k. shell_map (shells sn) k = (if k = i then Some s else shell_map (shells (snapshot st)) k)"
    and ag: "agrees r s"
    and caps: "\<And>k q. k \<noteq> i \<Longrightarrow> map_of (registrations st) k = Some q \<Longrightarrow> rg_capability q \<noteq> rg_capability r"
  shows "engine_inv \<lparr>snapshot = sn, registrations = AList.update i r (registrations st), dirty_generation = g\<rparr>"
proof -
  have "distinct (map fst (AList.update i r (registrations st)))"
    using inv by (intro distinct_update) (simp add: engine_inv_def)
  moreover have "\<exists>t. shell_map (shells sn) k = Some t \<and> agrees q t"
    if "map_of (AList.update i r (registrations st)) k = Some q" for k q
    using that ag inv by (auto simp: shell map_of_alist_update engine_inv_def split: if_splits)
  moreover have "k = j" if "map_of (AList.update i r (registrations st)) k = Some q"
    "map_of (AList.update i r (registrations st)) j = Some p" "rg_capability q = rg_capability p" for k j q p
    using that caps [of k q] caps [of j p] inv
    by (auto simp: map_of_alist_update engine_inv_def split: if_splits)
  ultimately show ?thesis using snap by (simp add: engine_inv_def)
qed

lemma wf_snapshot_step:
  assumes "wf_snapshot sn" "Snapshot_check sn' = Inr sn'" "\<And>x. x \<in> set (shells sn') \<Longrightarrow> wf_shell x"
  shows "wf_snapshot sn'"
  using assms Snapshot_check_eq [OF assms(2)] by (auto simp: wf_snapshot_def)

lemma shell_of_inv: "engine_inv st \<Longrightarrow> shell_map (shells (snapshot st)) i = Some s \<Longrightarrow> wf_shell s"
  by (auto simp: engine_inv_def wf_snapshot_def dest: shell_map_SomeD)

lemma inv_agrees:
  "engine_inv st \<Longrightarrow> map_of (registrations st) i = Some r \<Longrightarrow>
   \<exists>s. shell_map (shells (snapshot st)) i = Some s \<and> agrees r s"
  by (simp add: engine_inv_def)

lemma register_shell_inv:
  assumes inv: "engine_inv st" and wf: "wf_identity (reg_identity req)"
    and step: "register_shell st req fresh peer = Inr (st', c)"
  shows "engine_inv st'"
proof -
  let ?old = "map_of (registrations st) (reg_shell_id req)"
  let ?s = "registered_shell ?old (shell_map (shells (snapshot st)) (reg_shell_id req)) req"
  let ?r = "registered ?old req fresh"
  note D = register_shell_InrD [OF step]
  have "wf_shell ?s" using D wf by (auto simp: ShellRecord_check_Inr wf_shell_def registered_shell_def)
  then have shells_wf: "x \<in> set (replace_or_append_shell (shells (snapshot st)) ?s) \<Longrightarrow> wf_shell x" for x
    using set_replace [of "shells (snapshot st)" ?s] inv by (auto simp: engine_inv_def wf_snapshot_def)
  have caps: "rg_capability q \<noteq> rg_capability ?r"
    if "k \<noteq> reg_shell_id req" "map_of (registrations st) k = Some q" for k q
    using that D map_of_SomeD [OF that(2)] by (auto simp: registered_def split: option.splits)
  have ag: "agrees ?r ?s"
  proof (cases ?old)
    case None
    with D show ?thesis by (auto simp: agrees_def registered_def registered_shell_def Registration_check_Inr)
  next
    case (Some r)
    with inv_agrees [OF inv Some] D show ?thesis
      by (auto simp: agrees_def registered_def registered_shell_def Registration_check_Inr)
  qed
  let ?sn = "(snapshot st)\<lparr>generation := dirty_generation st + 1,
      shells := replace_or_append_shell (shells (snapshot st)) ?s\<rparr>"
  from D have st': "st' = \<lparr>snapshot = ?sn, registrations = AList.update (reg_shell_id req) ?r (registrations st),
      dirty_generation = dirty_generation st + 1\<rparr>" and sn: "Snapshot_check ?sn = Inr ?sn" by auto
  have id: "shell_id ?s = reg_shell_id req" by (simp add: registered_shell_def)
  show ?thesis unfolding st'
  proof (rule engine_invI [OF inv])
    show "wf_snapshot ?sn"
      using inv shells_wf by (intro wf_snapshot_step [OF _ sn]) (auto simp: engine_inv_def)
    show "distinct (map shell_id (shells ?sn))"
      using inv by (simp add: ids_replace engine_inv_def image_iff del: distinct_map)
    show "shell_map (shells ?sn) k =
        (if k = reg_shell_id req then Some ?s else shell_map (shells (snapshot st)) k)" for k by (simp add: id)
  qed (use ag caps in simp_all)
qed

lemma reduce_shell_keeps:
  assumes "reduce_shell s r req = Inr u"
  shows "shell_id u = shell_id s \<and> identity u = identity s \<and> adapter u = adapter s \<and> last_sequence u = last_sequence s"
  using assms by (auto simp: reduce_shell_def ShellRecord_check_Inr split: Operation.splits option.splits)

lemma reduce_shell_command:
  assumes "reduce_shell s r req = Inr u" "command u = Some c"
  shows "if ev_operation req = Op_COMMAND_STARTED then
      rg_last_command_sequence r < cmd_sequence c \<and> Some (cmd_sequence c) = ev_command_sequence req \<and> wf_command c
    else command s = Some c"
  using assms by (auto simp: reduce_shell_def ShellRecord_check_Inr Let_def
      split: Operation.splits option.splits dest!: classify_command_cases)

lemma reduce_shell_started:
  "reduce_shell s r req = Inr u \<Longrightarrow> ev_operation req = Op_COMMAND_STARTED \<Longrightarrow>
   rg_last_command_sequence r < the (ev_command_sequence req)"
  by (auto simp: reduce_shell_def split: option.splits)

lemma reduce_shell_wf:
  assumes "reduce_shell s r req = Inr u" "wf_shell s"
  shows "wf_shell u"
proof (cases "command u")
  case None
  with assms reduce_shell_keeps [OF assms(1)] show ?thesis
    by (auto simp: reduce_shell_def ShellRecord_check_Inr wf_shell_def split: Operation.splits option.splits)
next
  case (Some c)
  then have "wf_command c" using reduce_shell_command [OF assms(1) Some] assms(2)
    by (auto simp: wf_shell_def split: if_splits)
  with Some assms reduce_shell_keeps [OF assms(1)] show ?thesis
    by (auto simp: reduce_shell_def ShellRecord_check_Inr wf_shell_def split: Operation.splits option.splits)
qed

lemma apply_event_inv:
  assumes inv: "engine_inv st" and step: "apply_event st req = Inr st'"
  shows "engine_inv st'"
proof -
  let ?i = "ev_shell_id req"
  from step obtain r n s u where r: "map_of (registrations st) ?i = Some r"
    and seq: "rg_last_sequence r < ev_sequence req"
    and f: "find_shell (shells (snapshot st)) ?i = Inr (n, s)"
    and u: "reduce_shell s r req = Inr u"
    and uc: "ShellRecord_check (u\<lparr>last_sequence := ev_sequence req\<rparr>) = Inr (u\<lparr>last_sequence := ev_sequence req\<rparr>)"
    and st': "st' = after_event st req r n u"
    and sn: "Snapshot_check (snapshot st') = Inr (snapshot st')"
    by (rule apply_event_InrD)
  from f have s: "shell_map (shells (snapshot st)) ?i = Some s" "shell_id s = ?i"
    by (auto dest: find_shell_InrD)
  with inv_agrees [OF inv r] have ag: "agrees r s" by simp
  note keep = reduce_shell_keeps [OF u]
  have wf: "wf_shell (u\<lparr>last_sequence := ev_sequence req\<rparr>)"
    using reduce_shell_wf [OF u] shell_of_inv [OF inv s(1)] uc by (auto simp: wf_shell_def ShellRecord_check_Inr)
  show ?thesis unfolding st' after_event_def
  proof (rule engine_invI [OF inv, where s = "u\<lparr>last_sequence := ev_sequence req\<rparr>"])
    show "wf_snapshot ((snapshot st)\<lparr>generation := dirty_generation st + 1,
        shells := (shells (snapshot st))[n := u\<lparr>last_sequence := ev_sequence req\<rparr>]\<rparr>)"
    proof (rule wf_snapshot_step [of "snapshot st"])
      show "wf_snapshot (snapshot st)" using inv by (simp add: engine_inv_def)
      fix x assume "x \<in> set (shells ((snapshot st)\<lparr>generation := dirty_generation st + 1,
        shells := (shells (snapshot st))[n := u\<lparr>last_sequence := ev_sequence req\<rparr>]\<rparr>))"
      then have "x = u\<lparr>last_sequence := ev_sequence req\<rparr> \<or> x \<in> set (shells (snapshot st))"
        using set_update_subset_insert by fastforce
      with wf inv show "wf_shell x" by (auto simp: engine_inv_def wf_snapshot_def)
    qed (use sn st' in \<open>simp add: after_event_def\<close>)
    show "distinct (map shell_id (shells ((snapshot st)\<lparr>generation := dirty_generation st + 1,
        shells := (shells (snapshot st))[n := u\<lparr>last_sequence := ev_sequence req\<rparr>]\<rparr>)))"
      using inv ids_update [OF f, of "u\<lparr>last_sequence := ev_sequence req\<rparr>"] keep s(2)
      by (simp add: engine_inv_def del: distinct_map)
    show "agrees (event_registration req r)
        (u\<lparr>last_sequence := ev_sequence req\<rparr>)"
    proof -
      have "cmd_sequence c \<le> (if ev_operation req = Op_COMMAND_STARTED
          then the (ev_command_sequence req) else rg_last_command_sequence r)" if "command u = Some c" for c
        using reduce_shell_command [OF u that] ag
        by (cases "ev_operation req = Op_COMMAND_STARTED") (auto simp: agrees_def dest: sym)
      moreover have "0 \<le> (if ev_operation req = Op_COMMAND_STARTED
          then the (ev_command_sequence req) else rg_last_command_sequence r)"
        using reduce_shell_started [OF u] ag
        by (cases "ev_operation req = Op_COMMAND_STARTED") (auto simp: agrees_def)
      ultimately show ?thesis using ag keep seq by (simp add: agrees_def event_registration_def)
    qed
    show "rg_capability q \<noteq> rg_capability (event_registration req r)"
      if "k \<noteq> ?i" "map_of (registrations st) k = Some q" for k q
      using that r inv unfolding engine_inv_def event_registration_def by fastforce
  qed (use shell_map_update [OF f, of "u\<lparr>last_sequence := ev_sequence req\<rparr>"] keep s(2) in simp_all)
qed

section \<open>Runs\<close>

text \<open>What the service does with the engine, one request at a time; a rejected request leaves the state alone.\<close>

datatype engine_input = InRegister RegisterRequest string "int option" | InEvent EventRequest

fun engine_apply :: "EngineState \<Rightarrow> engine_input \<Rightarrow> EngineState result" where
  "engine_apply st (InRegister req fresh peer) = bind_r (register_shell st req fresh peer) (\<lambda>(st', c). Inr st')"
| "engine_apply st (InEvent req) = apply_event st req"

fun valid_input :: "engine_input \<Rightarrow> bool" where
  "valid_input (InRegister req fresh peer) = wf_identity (reg_identity req)"
| "valid_input (InEvent req) = True"

inductive engine_run :: "EngineState \<Rightarrow> engine_input list \<Rightarrow> EngineState \<Rightarrow> bool" where
  refl: "engine_run st [] st"
| accept: "engine_apply st x = Inr st' \<Longrightarrow> valid_input x \<Longrightarrow> engine_run st' xs st'' \<Longrightarrow> engine_run st (x # xs) st''"
| reject: "engine_apply st x = Inl e \<Longrightarrow> engine_run st xs st'' \<Longrightarrow> engine_run st (x # xs) st''"

inductive_cases engine_run_NilE: "engine_run st [] st'"
inductive_cases engine_run_ConsE: "engine_run st (x # xs) st'"

lemma engine_apply_inv: "engine_inv st \<Longrightarrow> valid_input x \<Longrightarrow> engine_apply st x = Inr st' \<Longrightarrow> engine_inv st'"
  by (cases x) (auto intro: register_shell_inv apply_event_inv)

lemma engine_run_inv: "engine_run st xs st' \<Longrightarrow> engine_inv st \<Longrightarrow> engine_inv st'"
  by (induction rule: engine_run.induct) (auto intro: engine_apply_inv)

text \<open>Progress of a state: a registration is never dropped and its watermarks never fall, and no shell is forgotten.\<close>

definition advances :: "EngineState \<Rightarrow> EngineState \<Rightarrow> bool" where
  "advances st st' \<longleftrightarrow> dirty_generation st \<le> dirty_generation st' \<and>
     shell_id ` set (shells (snapshot st)) \<subseteq> shell_id ` set (shells (snapshot st')) \<and>
     (\<forall>i r. map_of (registrations st) i = Some r \<longrightarrow>
        (\<exists>r'. map_of (registrations st') i = Some r' \<and> rg_last_sequence r \<le> rg_last_sequence r' \<and>
           rg_last_command_sequence r \<le> rg_last_command_sequence r'))"

lemma advances_refl: "advances st st"
  by (auto simp: advances_def)

lemma advances_trans: "advances a b \<Longrightarrow> advances b c \<Longrightarrow> advances a c"
  unfolding advances_def by (meson order_trans subset_trans)

lemma register_advances: "register_shell st req fresh peer = Inr (st', c) \<Longrightarrow> advances st st'"
proof -
  assume "register_shell st req fresh peer = Inr (st', c)"
  from register_shell_InrD [OF this] show ?thesis
    by (auto simp: advances_def map_of_alist_update registered_def image_iff
        simp flip: set_map simp: ids_replace split: option.splits)
qed

lemma event_advances: "apply_event st req = Inr st' \<Longrightarrow> advances st st'"
proof (erule apply_event_InrD)
  fix r n s and u :: ShellRecord
  let ?u = "u\<lparr>last_sequence := ev_sequence req\<rparr>"
  assume f: "find_shell (shells (snapshot st)) (ev_shell_id req) = Inr (n, s)"
    and u: "reduce_shell s r req = Inr u" and r: "map_of (registrations st) (ev_shell_id req) = Some r"
    and seq: "rg_last_sequence r < ev_sequence req"
    and st': "st' = after_event st req r n u"
  have "map shell_id ((shells (snapshot st))[n := ?u]) = map shell_id (shells (snapshot st))"
    using ids_update [OF f, of ?u] reduce_shell_keeps [OF u] find_shell_InrD [OF f] by simp
  then have ids: "shell_id ` set ((shells (snapshot st))[n := ?u]) = shell_id ` set (shells (snapshot st))"
    by (metis set_map)
  show ?thesis
    using r seq reduce_shell_started [OF u] ids
    by (auto simp: advances_def st' after_event_def event_registration_def map_of_alist_update)
qed

lemma engine_run_advances: "engine_run st xs st' \<Longrightarrow> advances st st'"
proof (induction rule: engine_run.induct)
  case (accept st x st' xs st'')
  then have "advances st st'" by (cases x) (auto intro: register_advances event_advances)
  with accept show ?case by (blast intro: advances_trans)
qed (auto intro: advances_refl)

section \<open>A concrete session\<close>

definition demo_identity :: ProcessIdentity where
  "demo_identity = \<lparr>boot_id = ''01234567-89ab-cdef-0123-456789abcdef'', pid = 7, start_time = 9\<rparr>"

definition demo_id :: string where "demo_id = ''aaaaaaaaaaaaaaaa''"
definition demo_capability :: string where "demo_capability = ''cccccccccccccccccccccccccccccccc''"
definition demo_capability2 :: string where "demo_capability2 = ''dddddddddddddddddddddddddddddddd''"

definition demo_register :: RegisterRequest where
  "demo_register = \<lparr>reg_shell_id = demo_id, reg_identity = demo_identity, reg_adapter = ''kitty'',
     reg_cwd = ''/a'', reg_sequence = 0\<rparr>"

definition demo_event :: "Operation \<Rightarrow> int \<Rightarrow> string option \<Rightarrow> EventRequest" where
  "demo_event op q dir = \<lparr>ev_operation = op, ev_shell_id = demo_id, ev_capability = demo_capability,
     ev_identity = demo_identity, ev_sequence = q, ev_cwd = dir, ev_command_sequence = None,
     ev_command = None, ev_exit_status = None\<rparr>"

definition demo_shell :: "int \<Rightarrow> string \<Rightarrow> TerminationKind option \<Rightarrow> ShellRecord" where
  "demo_shell q dir t = \<lparr>shell_id = demo_id, identity = demo_identity, adapter = ''kitty'', cwd = dir,
     last_sequence = q, command = None, termination_kind = t\<rparr>"

definition demo_state :: "string \<Rightarrow> int \<Rightarrow> int \<Rightarrow> string \<Rightarrow> TerminationKind option \<Rightarrow> EngineState" where
  "demo_state c g q dir t = \<lparr>snapshot = \<lparr>snap_schema_version = 1, generation = g, captured_at = Finite 0,
       shells = [demo_shell q dir t]\<rparr>,
     registrations = [(demo_id, \<lparr>rg_capability = c, rg_identity = demo_identity, rg_last_sequence = q,
       rg_last_command_sequence = 0\<rparr>)],
     dirty_generation = g\<rparr>"

definition empty_snapshot :: Snapshot where
  "empty_snapshot = \<lparr>snap_schema_version = 1, generation = 0, captured_at = Finite 0, shells = []\<rparr>"

lemmas demo_defs = demo_register_def demo_event_def demo_shell_def demo_state_def demo_id_def
  demo_capability_def demo_capability2_def empty_snapshot_def initial_state_def

lemma demo_capability_ok: "matches_capability demo_capability" "matches_capability demo_capability2"
  by (simp_all add: demo_capability_def demo_capability2_def matches_capability_def id_char_def is_letter_def
      is_lower_def code_def)

lemma demo_ascii: "compare_digest demo_capability demo_capability = Inr True"
  "compare_digest demo_capability2 demo_capability = Inr False"
  by (simp_all add: demo_capability_def demo_capability2_def compare_digest_def code_def)

lemma demo_registered:
  "register_shell (initial_state empty_snapshot) demo_register demo_capability (Some 7) =
     Inr (demo_state demo_capability 1 0 ''/a'' None, demo_capability)"
  using demo_capability_ok
  by (simp add: register_shell_def demo_defs demo_identity_def Let_def ShellRecord_init_def ShellRecord_check_def
      Registration_check_def EngineState_check_def Snapshot_check_def SUPPORTED_ADAPTERS_def
      require_bounded_string_def require_non_negative_integer_def require_schema_one_def
      require_finite_float_def require_bounded_sequence_def limits)

lemma demo_reregistered:
  "register_shell (demo_state demo_capability 2 1 ''/b'' None) demo_register demo_capability2 (Some 7) =
     Inr (demo_state demo_capability2 3 1 ''/a'' None, demo_capability2)"
  using demo_capability_ok
  by (simp add: register_shell_def demo_defs demo_identity_def Let_def ShellRecord_init_def ShellRecord_check_def
      Registration_check_def EngineState_check_def Snapshot_check_def SUPPORTED_ADAPTERS_def
      require_bounded_string_def require_non_negative_integer_def require_schema_one_def
      require_finite_float_def require_bounded_sequence_def limits)

lemma demo_cwd_applied:
  "apply_event (demo_state demo_capability 1 0 ''/a'' None) (demo_event Op_CWD_CHANGED 1 (Some ''/b'')) =
     Inr (demo_state demo_capability 2 1 ''/b'' None)"
  using demo_capability_ok demo_ascii
  by (simp add: apply_event_def demo_event_def demo_state_def demo_shell_def Let_def reduce_shell_def
      ShellRecord_check_def Registration_check_def EngineState_check_def Snapshot_check_def
      require_bounded_string_def require_non_negative_integer_def require_schema_one_def
      require_finite_float_def require_bounded_sequence_def limits demo_id_def)

lemma demo_exit_applied:
  "apply_event (demo_state demo_capability 1 0 ''/a'' None) (demo_event Op_EXPLICIT_EXIT 1 None) =
     Inr (demo_state demo_capability 2 1 ''/a'' (Some EXPLICIT_EXIT))"
  using demo_capability_ok demo_ascii
  by (simp add: apply_event_def demo_event_def demo_state_def demo_shell_def Let_def reduce_shell_def
      ShellRecord_check_def Registration_check_def EngineState_check_def Snapshot_check_def
      require_bounded_string_def require_non_negative_integer_def require_schema_one_def
      require_finite_float_def require_bounded_sequence_def limits demo_id_def)

lemma demo_wf: "wf_identity demo_identity"
  by (simp add: demo_identity_def wf_identity_def limits)

lemma demo_run:
  "engine_run (demo_state demo_capability 2 1 ''/b'' None) [InRegister demo_register demo_capability2 (Some 7)]
     (demo_state demo_capability2 3 1 ''/a'' None)"
  using demo_reregistered demo_wf by (intro engine_run.accept [OF _ _ engine_run.refl]) (simp_all add: demo_register_def)

section \<open>Properties of the engine\<close>

lemma apply_event_reject:
  assumes "map_of (registrations st) (ev_shell_id req) = Some r"
    "rg_capability r = ev_capability req \<Longrightarrow> rg_identity r = ev_identity req \<Longrightarrow> ev_sequence req \<le> rg_last_sequence r"
  shows "\<exists>e. apply_event st req = Inl e"
  using assms by (cases "apply_event st req") (auto elim!: apply_event_InrD)

text \<open>C8: the invariant of the engine holds in every state the service can reach from a stored snapshot with distinct
  shell identifiers, whatever the clients send: every registration has a shell record that agrees with it on identity
  and sequence, capabilities are unique, and the snapshot is well formed and carries the current generation.\<close>
theorem engine_invariant:
  assumes "wf_snapshot s" "distinct (map shell_id (shells s))" "engine_run (initial_state s) xs st"
  shows "engine_inv st"
  using engine_run_inv [OF assms(3)] initial_inv [OF assms(1,2)] by simp

lemma sample_ids: "distinct (map shell_id (shells sample_snapshot))"
  by (simp add: samples)

theorem engine_invariant_witness:
  "engine_run (initial_state sample_snapshot) [] (initial_state sample_snapshot) \<and>
   engine_inv (initial_state sample_snapshot)"
  using engine_invariant [OF sample_snapshot_wf sample_ids engine_run.refl] by (simp add: engine_run.refl)

text \<open>C9: an accepted event can never be accepted again, nor any event of that shell with the same or a smaller number,
  in any later state, also after the shell has registered again.\<close>
theorem replay_rejected:
  assumes "apply_event st req = Inr st1" "engine_run st1 xs st2"
    "ev_shell_id again = ev_shell_id req" "ev_sequence again \<le> ev_sequence req"
  shows "\<exists>e. apply_event st2 again = Inl e"
proof -
  from assms(1) obtain r where "map_of (registrations st1) (ev_shell_id req) = Some r"
    "rg_last_sequence r = ev_sequence req"
    by (rule apply_event_InrD) (auto simp: after_event_def event_registration_def map_of_alist_update)
  moreover from assms(2) have "advances st1 st2" by (rule engine_run_advances)
  ultimately obtain r2 where "map_of (registrations st2) (ev_shell_id req) = Some r2"
    "ev_sequence req \<le> rg_last_sequence r2" unfolding advances_def by metis
  with assms(3,4) show ?thesis by (intro apply_event_reject [of st2 again r2]) auto
qed

theorem replay_rejected_witness:
  "apply_event (demo_state demo_capability 1 0 ''/a'' None) (demo_event Op_CWD_CHANGED 1 (Some ''/b'')) =
     Inr (demo_state demo_capability 2 1 ''/b'' None) \<and>
   (\<exists>e. apply_event (demo_state demo_capability2 3 1 ''/a'' None) (demo_event Op_CWD_CHANGED 1 (Some ''/b'')) = Inl e)"
  using replay_rejected [OF demo_cwd_applied demo_run, of "demo_event Op_CWD_CHANGED 1 (Some ''/b'')"]
    demo_cwd_applied by simp

text \<open>An accepted event leaves the registration and the record of every other shell as they were, and its own
  registration keeps its capability and identity.\<close>
theorem event_frame:
  assumes "apply_event st req = Inr st'"
  shows "(\<forall>i. i \<noteq> ev_shell_id req \<longrightarrow>
      map_of (registrations st') i = map_of (registrations st) i \<and>
      shell_map (shells (snapshot st')) i = shell_map (shells (snapshot st)) i) \<and>
    (\<exists>r r'. map_of (registrations st) (ev_shell_id req) = Some r \<and>
       map_of (registrations st') (ev_shell_id req) = Some r' \<and>
       rg_capability r' = ev_capability req \<and> rg_capability r = ev_capability req \<and>
       rg_identity r' = ev_identity req \<and> rg_identity r = ev_identity req \<and>
       rg_last_sequence r < ev_sequence req \<and> rg_last_sequence r' = ev_sequence req) \<and>
    dirty_generation st' = dirty_generation st + 1 \<and> generation (snapshot st') = dirty_generation st'"
  using assms
proof (rule apply_event_InrD)
  fix r n s and u :: ShellRecord
  let ?u = "u\<lparr>last_sequence := ev_sequence req\<rparr>"
  assume f: "find_shell (shells (snapshot st)) (ev_shell_id req) = Inr (n, s)" and u: "reduce_shell s r req = Inr u"
  have "shell_map ((shells (snapshot st))[n := ?u]) k =
      (if k = ev_shell_id req then Some ?u else shell_map (shells (snapshot st)) k)" for k
    using shell_map_update [OF f, of ?u] reduce_shell_keeps [OF u] find_shell_InrD [OF f] by simp
  then show "?thesis" if "map_of (registrations st) (ev_shell_id req) = Some r"
    "rg_capability r = ev_capability req" "rg_identity r = ev_identity req" "rg_last_sequence r < ev_sequence req"
    "st' = after_event st req r n u"
    using that by (simp add: after_event_def event_registration_def map_of_alist_update)
qed

theorem event_frame_witness:
  "\<exists>st'. apply_event (demo_state demo_capability 1 0 ''/a'' None) (demo_event Op_CWD_CHANGED 1 (Some ''/b'')) = Inr st' \<and>
     dirty_generation st' = 2 \<and> shell_map (shells (snapshot st')) ''x'' = None"
  using event_frame [OF demo_cwd_applied] demo_cwd_applied by (simp add: demo_defs)

text \<open>After a shell has reported its exit, every further event of it is rejected until it registers again.\<close>
theorem exit_is_final:
  assumes "apply_event st req = Inr st'" "ev_operation req = Op_EXPLICIT_EXIT" "ev_shell_id again = ev_shell_id req"
  shows "\<exists>e. apply_event st' again = Inl e"
proof (cases "apply_event st' again")
  case (Inr st2)
  from assms(1,2) have "\<exists>s. shell_map (shells (snapshot st')) (ev_shell_id req) = Some s \<and>
      termination_kind s = Some EXPLICIT_EXIT"
  proof (elim apply_event_InrD)
    fix r n s and u :: ShellRecord
    let ?u = "u\<lparr>last_sequence := ev_sequence req\<rparr>"
    assume f: "find_shell (shells (snapshot st)) (ev_shell_id req) = Inr (n, s)" and u: "reduce_shell s r req = Inr u"
      and op: "ev_operation req = Op_EXPLICIT_EXIT"
    have "shell_map ((shells (snapshot st))[n := ?u]) (ev_shell_id req) = Some ?u"
      using shell_map_update [OF f, of ?u] reduce_shell_keeps [OF u] find_shell_InrD [OF f] by simp
    moreover have "termination_kind u = Some EXPLICIT_EXIT"
      using u op by (auto simp: reduce_shell_def ShellRecord_check_Inr)
    ultimately show ?thesis if "st' = after_event st req r n u"
      using that by (simp add: after_event_def)
  qed
  with Inr assms(3) show ?thesis by (auto elim!: apply_event_InrD dest!: find_shell_InrD)
qed simp

theorem exit_is_final_witness:
  "apply_event (demo_state demo_capability 1 0 ''/a'' None) (demo_event Op_EXPLICIT_EXIT 1 None) =
     Inr (demo_state demo_capability 2 1 ''/a'' (Some EXPLICIT_EXIT)) \<and>
   (\<exists>e. apply_event (demo_state demo_capability 2 1 ''/a'' (Some EXPLICIT_EXIT))
      (demo_event Op_CWD_CHANGED 2 (Some ''/b'')) = Inl e)"
  using exit_is_final [OF demo_exit_applied, of "demo_event Op_CWD_CHANGED 2 (Some ''/b'')"] demo_exit_applied
  by (simp add: demo_event_def)

text \<open>When a connected shell registers again it gets the new capability, its event and command watermarks survive,
  and its record is reset to no running command and no exit; the old capability is refused from then on.\<close>
theorem reregister_rotates:
  assumes "engine_inv st" "map_of (registrations st) (reg_shell_id req) = Some old"
    "register_shell st req fresh peer = Inr (st', c)"
    "ev_shell_id ev = reg_shell_id req" "ev_capability ev = rg_capability old" "rg_capability old \<noteq> fresh"
  shows "(\<exists>new s. map_of (registrations st') (reg_shell_id req) = Some new \<and> rg_capability new = fresh \<and>
       rg_last_sequence new = rg_last_sequence old \<and> rg_last_command_sequence new = rg_last_command_sequence old \<and>
       shell_map (shells (snapshot st')) (reg_shell_id req) = Some s \<and> last_sequence s = rg_last_sequence old \<and>
       command s = None \<and> termination_kind s = None) \<and>
    apply_event st' ev = Inl (ValueError ''event authority rejected'')"
proof -
  from inv_agrees [OF assms(1,2)] obtain s where s: "shell_map (shells (snapshot st)) (reg_shell_id req) = Some s"
    "agrees old s" by blast
  note D = register_shell_InrD [OF assms(3)]
  have ascii: "matches_capability x \<Longrightarrow> \<not> list_ex (\<lambda>c. 127 < code c) x" for x
    by (auto simp: matches_capability_def list_all_iff list_ex_iff id_char_def is_letter_def is_upper_def
        is_lower_def is_digit_def code_def)
  from D assms(2) have "matches_capability fresh" by (simp add: registered_def Registration_check_Inr)
  with s(2) assms(5,6) have "compare_digest fresh (ev_capability ev) = Inr False"
    using ascii by (auto simp: compare_digest_def agrees_def)
  with D assms(2,4) s show ?thesis
    by (auto simp: map_of_alist_update registered_def registered_shell_def agrees_def apply_event_def)
qed

theorem reregister_rotates_witness:
  "engine_inv (demo_state demo_capability 2 1 ''/b'' None) \<and>
   apply_event (demo_state demo_capability2 3 1 ''/a'' None) (demo_event Op_CWD_CHANGED 2 (Some ''/c'')) =
     Inl (ValueError ''event authority rejected'')"
proof -
  have 0: "engine_inv (initial_state empty_snapshot)"
    by (rule initial_inv) (simp_all add: empty_snapshot_def wf_snapshot_def limits)
  have 1: "engine_inv (demo_state demo_capability 1 0 ''/a'' None)"
    by (rule register_shell_inv [OF 0 _ demo_registered]) (simp add: demo_register_def demo_wf)
  have 2: "engine_inv (demo_state demo_capability 2 1 ''/b'' None)"
    by (rule apply_event_inv [OF 1 demo_cwd_applied])
  let ?old = "\<lparr>rg_capability = demo_capability, rg_identity = demo_identity, rg_last_sequence = 1,
    rg_last_command_sequence = 0\<rparr>"
  have 3: "map_of (registrations (demo_state demo_capability 2 1 ''/b'' None)) (reg_shell_id demo_register) = Some ?old"
    by (simp add: demo_state_def demo_register_def)
  have "demo_capability \<noteq> demo_capability2" by (simp add: demo_capability_def demo_capability2_def)
  with reregister_rotates [OF 2 3 demo_reregistered, of "demo_event Op_CWD_CHANGED 2 (Some ''/c'')"] 2
  show ?thesis by (simp add: demo_event_def demo_register_def)
qed

lemma reduce_shell_total:
  assumes "wf_event req" "wf_shell s"
  shows "(\<exists>u. reduce_shell s r req = Inr u) \<longleftrightarrow>
    (ev_operation req = Op_COMMAND_STARTED \<longrightarrow> rg_last_command_sequence r < the (ev_command_sequence req)) \<and>
    (ev_operation req = Op_COMMAND_FINISHED \<longrightarrow>
       (\<exists>c. command s = Some c \<and> Some (cmd_sequence c) = ev_command_sequence req))"
proof -
  obtain extra where extra: "event_extra (ev_operation req) = Some extra"
    and opt: "optional_fields extra (ev_cwd req) (ev_command_sequence req) (ev_command req) (ev_exit_status req)"
    using assms(1) by (auto simp: wf_event_def)
  show ?thesis
  proof (cases "ev_operation req")
    case Op_COMMAND_STARTED
    with extra opt obtain cs cmd where cs: "ev_command_sequence req = Some cs" "ev_command req = Some cmd" "1 \<le> cs"
      by (auto simp: optional_fields_def present_iff_def split: option.splits)
    then obtain c where "classify_command cmd cs = Inr c" using classify_ok [of cs cmd] by auto
    with Op_COMMAND_STARTED cs assms(2) show ?thesis
      by (auto simp: reduce_shell_def ShellRecord_check_Inr wf_shell_def)
  next
    case Op_COMMAND_FINISHED
    with extra opt obtain cs where cs: "ev_command_sequence req = Some cs"
      by (auto simp: optional_fields_def present_iff_def split: option.splits)
    with Op_COMMAND_FINISHED assms(2) show ?thesis
      by (auto simp: reduce_shell_def ShellRecord_check_Inr wf_shell_def split: option.splits)
  qed (use extra opt assms(2) in \<open>auto simp: reduce_shell_def ShellRecord_check_Inr wf_shell_def
      optional_fields_def present_iff_def valid_path_def split: option.splits\<close>)
qed

lemma ascii_capability: "matches_capability x \<Longrightarrow> \<not> list_ex (\<lambda>c. 127 < code c) x"
  by (auto simp: matches_capability_def list_all_iff list_ex_iff id_char_def is_letter_def is_upper_def
      is_lower_def is_digit_def code_def)

text \<open>In a reachable state a well-formed event is accepted exactly when its shell is registered, the capability and
  the process identity are those of the registration, its number is new, the shell has not exited, a start has a new
  command number and a finish names the running command; nothing else can make the engine fail.\<close>
theorem event_accepted_iff:
  assumes "engine_inv st" "wf_event req"
  shows "(\<exists>st'. apply_event st req = Inr st') \<longleftrightarrow>
    (\<exists>r s. map_of (registrations st) (ev_shell_id req) = Some r \<and>
       shell_map (shells (snapshot st)) (ev_shell_id req) = Some s \<and>
       rg_capability r = ev_capability req \<and> rg_identity r = ev_identity req \<and>
       rg_last_sequence r < ev_sequence req \<and> termination_kind s \<noteq> Some EXPLICIT_EXIT \<and>
       (ev_operation req = Op_COMMAND_STARTED \<longrightarrow> rg_last_command_sequence r < the (ev_command_sequence req)) \<and>
       (ev_operation req = Op_COMMAND_FINISHED \<longrightarrow>
          (\<exists>c. command s = Some c \<and> Some (cmd_sequence c) = ev_command_sequence req)))"
    (is "?accepts \<longleftrightarrow> ?ok")
proof
  assume ?accepts
  then obtain st' where "apply_event st req = Inr st'" ..
  then show ?ok
  proof (rule apply_event_InrD)
    fix r n s u
    assume "find_shell (shells (snapshot st)) (ev_shell_id req) = Inr (n, s)" "reduce_shell s r req = Inr u"
      "map_of (registrations st) (ev_shell_id req) = Some r" "rg_capability r = ev_capability req"
      "rg_identity r = ev_identity req" "rg_last_sequence r < ev_sequence req"
      "termination_kind s \<noteq> Some EXPLICIT_EXIT"
    with reduce_shell_total [OF assms(2) shell_of_inv [OF assms(1)]] find_shell_InrD show ?ok by blast
  qed
next
  assume ?ok
  then obtain r s where r: "map_of (registrations st) (ev_shell_id req) = Some r"
    and s: "shell_map (shells (snapshot st)) (ev_shell_id req) = Some s"
    and ok: "rg_capability r = ev_capability req" "rg_identity r = ev_identity req"
      "rg_last_sequence r < ev_sequence req" "termination_kind s \<noteq> Some EXPLICIT_EXIT"
    and red: "\<exists>u. reduce_shell s r req = Inr u"
    using reduce_shell_total [OF assms(2) shell_of_inv [OF assms(1)]] by blast
  from red obtain u where u: "reduce_shell s r req = Inr u" ..
  from find_shell_total [OF s] obtain n where n: "find_shell (shells (snapshot st)) (ev_shell_id req) = Inr (n, s)" ..
  have ag: "agrees r s" using inv_agrees [OF assms(1) r] s by auto
  have wfu: "wf_shell u" by (rule reduce_shell_wf [OF u shell_of_inv [OF assms(1) s]])
  have "compare_digest (rg_capability r) (ev_capability req) = Inr True"
    using ag ascii_capability ok(1) by (simp add: compare_digest_def agrees_def)
  moreover have "ShellRecord_check (u\<lparr>last_sequence := ev_sequence req\<rparr>) = Inr (u\<lparr>last_sequence := ev_sequence req\<rparr>)"
    using wfu assms(2) by (simp add: ShellRecord_check_Inr wf_shell_def wf_event_def)
  moreover have "Snapshot_check ((snapshot st)\<lparr>generation := dirty_generation st + 1,
      shells := (shells (snapshot st))[n := u\<lparr>last_sequence := ev_sequence req\<rparr>]\<rparr>) =
    Inr ((snapshot st)\<lparr>generation := dirty_generation st + 1,
      shells := (shells (snapshot st))[n := u\<lparr>last_sequence := ev_sequence req\<rparr>]\<rparr>)"
    using assms(1) by (auto simp: Snapshot_check_def engine_inv_def wf_snapshot_def decode_simps)
  moreover have "ev_operation req = Op_COMMAND_STARTED \<longrightarrow> (\<exists>cs. ev_command_sequence req = Some cs \<and> 0 \<le> cs)"
    using assms(2) by (auto simp: wf_event_def optional_fields_def present_iff_def split: option.splits)
  moreover have "0 \<le> dirty_generation st" using assms(1) by (auto simp: engine_inv_def wf_snapshot_def)
  ultimately show ?accepts
    using r ok u n ag assms(2)
    by (auto simp: apply_event_def Let_def Registration_check_def EngineState_check_def agrees_def wf_event_def)
qed

theorem event_accepted_iff_witness:
  "\<exists>st'. apply_event (demo_state demo_capability 1 0 ''/a'' None) (demo_event Op_CWD_CHANGED 1 (Some ''/b'')) = Inr st'"
proof -
  have 0: "engine_inv (initial_state empty_snapshot)"
    by (rule initial_inv) (simp_all add: empty_snapshot_def wf_snapshot_def limits)
  have 1: "engine_inv (demo_state demo_capability 1 0 ''/a'' None)"
    by (rule register_shell_inv [OF 0 _ demo_registered]) (simp add: demo_register_def demo_wf)
  have 2: "wf_event (demo_event Op_CWD_CHANGED 1 (Some ''/b''))"
    using canonical_sample demo_capability_ok
    by (simp add: demo_event_def wf_event_def valid_shell_id_def matches_id_def id_char_def demo_id_def
        demo_identity_def wire_identity_def optional_fields_def present_iff_def valid_path_def startswith_def
        MAX_PATH_CHARS_def MAX_INTEGER_def forbidden_char_def is_letter_def is_lower_def code_def)
  from event_accepted_iff [OF 1 2] show ?thesis by (simp add: demo_state_def demo_event_def demo_shell_def)
qed

text \<open>No request ever removes a shell from the snapshot, and once it holds 256 of them every registration of another
  shell is refused: the table stays full until the stored state is deleted.\<close>
theorem full_registry_refuses:
  assumes "engine_run st xs st'" "engine_inv st" "length (shells (snapshot st)) = 256"
    "reg_shell_id req \<notin> shell_id ` set (shells (snapshot st'))"
  shows "\<exists>e. register_shell st' req fresh peer = Inl e"
proof (cases "register_shell st' req fresh peer")
  case (Inr x)
  then obtain st2 c where "register_shell st' req fresh peer = Inr (st2, c)" by (cases x) auto
  from register_shell_InrD [OF this] have
    "length (replace_or_append_shell (shells (snapshot st')) (registered_shell
       (map_of (registrations st') (reg_shell_id req)) (shell_map (shells (snapshot st')) (reg_shell_id req)) req)) \<le> 256"
    by (auto dest!: Snapshot_check_eq simp: limits)
  with assms(4) have "length (shells (snapshot st')) < 256"
    by (auto simp: length_replace registered_shell_def split: if_splits)
  moreover have "length (shells (snapshot st)) \<le> length (shells (snapshot st'))"
  proof -
    have "shell_id ` set (shells (snapshot st)) \<subseteq> shell_id ` set (shells (snapshot st'))"
      using engine_run_advances [OF assms(1)] by (simp add: advances_def)
    then have "card (set (map shell_id (shells (snapshot st)))) \<le> card (set (map shell_id (shells (snapshot st'))))"
      by (intro card_mono) simp_all
    moreover have "distinct (map shell_id (shells (snapshot st)))" using assms(2) by (simp add: engine_inv_def)
    ultimately show ?thesis
      using card_length [of "map shell_id (shells (snapshot st'))"] distinct_card [of "map shell_id (shells (snapshot st))"]
      by simp
  qed
  ultimately show ?thesis using assms(3) by simp
qed simp

definition full_snapshot :: Snapshot where
  "full_snapshot = \<lparr>snap_schema_version = 1, generation = 300, captured_at = Finite 0,
     shells = map (\<lambda>n. (demo_shell 0 ''/a'' None)\<lparr>shell_id := [char_of n]\<rparr>) [0..<256]\<rparr>"

theorem full_registry_refuses_witness:
  "\<exists>e. register_shell (initial_state full_snapshot) demo_register demo_capability (Some 7) = Inl e"
proof (rule full_registry_refuses [OF engine_run.refl])
  have "wf_shell x" if "x \<in> set (shells full_snapshot)" for x
    using that demo_wf by (auto simp: full_snapshot_def demo_shell_def wf_shell_def limits)
  moreover have "inj_on (\<lambda>n. [char_of n :: char]) {0..<256::nat}"
  proof (rule inj_onI)
    fix m n :: nat
    assume "m \<in> {0..<256}" "n \<in> {0..<256}" "[char_of m :: char] = [char_of n]"
    then show "m = n" using of_char_of [of m] of_char_of [of n] by simp
  qed
  ultimately show "engine_inv (initial_state full_snapshot)"
    by (intro initial_inv) (auto simp: full_snapshot_def wf_snapshot_def limits comp_def distinct_map)
qed (auto simp: full_snapshot_def initial_state_def demo_register_def demo_id_def)

end
