(* ===== verification/Checkpoint.thy ===== *)
theory Checkpoint
  imports Model
begin

text \<open>
  \<^verbatim>\<open>checkpoint.py\<close>: the manager that coalesces snapshot writes. Its fields are a record; each block that runs
  under the condition lock is one function of the record and of the clock reading it takes. The run loop, the
  writer thread, the clients and the clock interleave at those blocks: \<open>cp_step\<close> is the resulting step relation.
  Times are exact rational numbers of seconds.
\<close>

section \<open>The manager\<close>

record CheckpointConfig =
  start_delay :: rat
  deadline :: rat
  backoff :: "rat list"

definition CheckpointConfig_check :: "CheckpointConfig \<Rightarrow> CheckpointConfig result" where
  "CheckpointConfig_check cfg =
     bind_r (raise_if (start_delay cfg < 0 \<or> deadline cfg < 0)
       (ValueError ''checkpoint delays must be non-negative'')) (\<lambda>_.
     bind_r (raise_if (backoff cfg = [] \<or> list_ex (\<lambda>d. d < 0) (backoff cfg))
       (ValueError ''checkpoint backoff must contain non-negative delays'')) (\<lambda>_.
     Inr cfg))"

definition default_config :: CheckpointConfig where
  "default_config = \<lparr>start_delay = 1 / 4, deadline = 2, backoff = [1 / 4, 1 / 2, 1, 2]\<rparr>"

record CheckpointManager =
  cp_dirty :: int
  cp_durable :: int
  cp_write_active :: bool
  cp_last_error :: "string option"
  cp_next_retry_at :: "rat option"
  cp_first_dirty_at :: "rat option"
  cp_write_at :: "rat option"
  cp_retry_index :: nat
  cp_flush :: int
  cp_running :: bool

definition CheckpointManager_init :: CheckpointManager where
  "CheckpointManager_init = \<lparr>cp_dirty = 0, cp_durable = 0, cp_write_active = False, cp_last_error = None,
     cp_next_retry_at = None, cp_first_dirty_at = None, cp_write_at = None, cp_retry_index = 0, cp_flush = 0,
     cp_running = False\<rparr>"

record CheckpointStatus =
  cs_dirty_generation :: int
  cs_durable_generation :: int
  cs_write_active :: bool
  cs_last_error :: "string option"
  cs_next_retry_at :: "rat option"

definition status :: "CheckpointManager \<Rightarrow> CheckpointStatus" where
  "status m = \<lparr>cs_dirty_generation = cp_dirty m, cs_durable_generation = cp_durable m,
     cs_write_active = cp_write_active m, cs_last_error = cp_last_error m,
     cs_next_retry_at = cp_next_retry_at m\<rparr>"

definition mark_dirty :: "CheckpointConfig \<Rightarrow> rat \<Rightarrow> int \<Rightarrow> CheckpointManager \<Rightarrow> CheckpointManager result" where
  "mark_dirty cfg now gen m =
     bind_r (raise_if (gen < 0) (ValueError ''generation must be a non-negative integer'')) (\<lambda>_.
     if gen \<le> cp_dirty m then Inr m
     else
       let m1 = (if cp_dirty m \<le> cp_durable m
                 then (let m0 = m\<lparr>cp_first_dirty_at := Some now\<rparr> in
                       if cp_next_retry_at m = None
                       then m0\<lparr>cp_write_at := Some (min (now + start_delay cfg) (now + deadline cfg))\<rparr>
                       else m0)
                 else m) in
       Inr (m1\<lparr>cp_dirty := gen\<rparr>))"

text \<open>
  \<open>flush_begin\<close> is \<^verbatim>\<open>flush\<close> up to its wait: it answers at once, refuses, or waits for a target generation.
  \<open>flush_end\<close> is what it does when the condition it waits for holds.
\<close>

datatype flush_answer = FlushDone CheckpointStatus | FlushWait int

definition flush_begin :: "CheckpointManager \<Rightarrow> (flush_answer \<times> CheckpointManager) result" where
  "flush_begin m =
     (let target = cp_dirty m in
      if target \<le> cp_durable m then Inr (FlushDone (status m), m)
      else
        bind_r (raise_if (\<not> cp_running m) (RuntimeError ''checkpoint manager is not running'')) (\<lambda>_.
        Inr (FlushWait target, m\<lparr>cp_flush := max (cp_flush m) target\<rparr>)))"

definition flush_ready :: "int \<Rightarrow> CheckpointManager \<Rightarrow> bool" where
  "flush_ready target m \<longleftrightarrow> target \<le> cp_durable m \<or> \<not> cp_running m"

definition flush_end :: "int \<Rightarrow> CheckpointManager \<Rightarrow> CheckpointStatus result" where
  "flush_end target m =
     bind_r (raise_if (cp_durable m < target)
       (RuntimeError ''checkpoint manager stopped before flush completed'')) (\<lambda>_.
     Inr (status m))"

definition run_begin :: "CheckpointManager \<Rightarrow> CheckpointManager result" where
  "run_begin m =
     bind_r (raise_if (cp_running m) (RuntimeError ''checkpoint manager is already running'')) (\<lambda>_.
     Inr (m\<lparr>cp_running := True\<rparr>))"

definition run_end :: "CheckpointManager \<Rightarrow> CheckpointManager" where
  "run_end m = m\<lparr>cp_running := False, cp_write_active := False\<rparr>"

definition next_write_time :: "rat \<Rightarrow> CheckpointManager \<Rightarrow> rat option" where
  "next_write_time now m =
     (if cp_write_active m \<or> cp_dirty m \<le> cp_durable m then None
      else if cp_next_retry_at m \<noteq> None then cp_next_retry_at m
      else if cp_flush m > cp_durable m then Some now
      else cp_write_at m)"

text \<open>One decision of the run loop: wait for a change, wait for a while, or write.\<close>

datatype run_decision = WaitForChange | WaitFor rat | WriteNow

definition run_decide :: "rat \<Rightarrow> CheckpointManager \<Rightarrow> run_decision" where
  "run_decide now m =
     (case next_write_time now m of
        None \<Rightarrow> WaitForChange
      | Some due \<Rightarrow> if max 0 (due - now) \<noteq> 0 then WaitFor (max 0 (due - now)) else WriteNow)"

text \<open>The three blocks of \<^verbatim>\<open>_write_once\<close>: the start, with its target, and the two ways a write ends.\<close>

definition write_begin :: "CheckpointManager \<Rightarrow> (int \<times> CheckpointManager) option" where
  "write_begin m =
     (if cp_write_active m \<or> cp_dirty m \<le> cp_durable m then None
      else Some (cp_dirty m, m\<lparr>cp_write_active := True\<rparr>))"

definition write_failed :: "CheckpointConfig \<Rightarrow> rat \<Rightarrow> string \<Rightarrow> CheckpointManager \<Rightarrow> CheckpointManager" where
  "write_failed cfg now exc m =
     m\<lparr>cp_write_active := False,
       cp_last_error := Some (exc @ '': checkpoint write failed''),
       cp_retry_index := cp_retry_index m + 1,
       cp_next_retry_at := Some (now + backoff cfg ! min (cp_retry_index m) (length (backoff cfg) - 1))\<rparr>"

definition write_succeeded :: "CheckpointConfig \<Rightarrow> rat \<Rightarrow> int \<Rightarrow> CheckpointManager \<Rightarrow> CheckpointManager" where
  "write_succeeded cfg now target m =
     (let m1 = m\<lparr>cp_write_active := False, cp_durable := max (cp_durable m) target, cp_last_error := None,
                cp_next_retry_at := None, cp_retry_index := 0\<rparr>;
          m2 = (if cp_durable m1 \<ge> cp_dirty m1 then m1\<lparr>cp_first_dirty_at := None, cp_write_at := None\<rparr>
                else m1\<lparr>cp_write_at := Some (min (now + start_delay cfg)
                       ((case cp_first_dirty_at m1 of Some t \<Rightarrow> t | None \<Rightarrow> now) + deadline cfg))\<rparr>) in
      if cp_durable m2 \<ge> cp_flush m2 then m2\<lparr>cp_flush := 0\<rparr> else m2)"

section \<open>The interleaving\<close>

text \<open>
  Around the manager: the generation the engine has reached, the oldest change that no finished write covers with the
  time it was made, the write in progress as its target and the generation of the snapshot it stores, the finished
  writes as such pairs (the newest first), the generation on disk, and the clock. A service hands the manager only
  generations the engine has reached. The finished writes are a record for the proofs; the program keeps none.
\<close>

record CpSystem =
  manager :: CheckpointManager
  engine_generation :: int
  pending_since :: "rat option"
  in_flight :: "(int \<times> int) option"
  finished :: "(int \<times> int) list"
  disk_generation :: int
  clock :: rat

inductive cp_step :: "CheckpointConfig \<Rightarrow> CpSystem \<Rightarrow> CpSystem \<Rightarrow> bool" for cfg where
  tick: "clock s \<le> t \<Longrightarrow> cp_step cfg s (s\<lparr>clock := t\<rparr>)"
| change: "cp_step cfg s (s\<lparr>engine_generation := engine_generation s + 1\<rparr>)"
| mark: "gen \<le> engine_generation s \<Longrightarrow> mark_dirty cfg (clock s) gen (manager s) = Inr m \<Longrightarrow>
    cp_step cfg s (s\<lparr>manager := m, pending_since :=
      (if cp_dirty (manager s) < gen \<and> cp_dirty (manager s) \<le> cp_durable (manager s) then Some (clock s)
       else pending_since s)\<rparr>)"
| flush: "flush_begin (manager s) = Inr (a, m) \<Longrightarrow> cp_step cfg s (s\<lparr>manager := m\<rparr>)"
| start: "run_begin (manager s) = Inr m \<Longrightarrow> cp_step cfg s (s\<lparr>manager := m\<rparr>)"
| stop: "in_flight s = None \<Longrightarrow> cp_step cfg s (s\<lparr>manager := run_end (manager s)\<rparr>)"
| begin_write: "cp_running (manager s) \<Longrightarrow> in_flight s = None \<Longrightarrow> run_decide (clock s) (manager s) = WriteNow \<Longrightarrow>
    write_begin (manager s) = Some (target, m) \<Longrightarrow>
    cp_step cfg s (s\<lparr>manager := m, in_flight := Some (target, engine_generation s)\<rparr>)"
| fail: "in_flight s = Some (target, g) \<Longrightarrow>
    cp_step cfg s (s\<lparr>manager := write_failed cfg (clock s) exc (manager s), in_flight := None\<rparr>)"
| success: "in_flight s = Some (target, g) \<Longrightarrow>
    cp_step cfg s (s\<lparr>manager := write_succeeded cfg (clock s) target (manager s), in_flight := None,
      finished := (target, g) # finished s, disk_generation := g,
      pending_since := (if cp_dirty (manager s) \<le> target then None else pending_since s)\<rparr>)"

inductive cp_reachable :: "CheckpointConfig \<Rightarrow> CpSystem \<Rightarrow> bool" for cfg where
  init: "0 \<le> g \<Longrightarrow> cp_reachable cfg \<lparr>manager = CheckpointManager_init, engine_generation = g,
    pending_since = None, in_flight = None, finished = [], disk_generation = g, clock = t\<rparr>"
| step: "cp_reachable cfg s \<Longrightarrow> cp_step cfg s s' \<Longrightarrow> cp_reachable cfg s'"

inductive_cases cp_stepE: "cp_step cfg s s'"

section \<open>Invariants\<close>

text \<open>The finished writes account for what is durable and what is on disk.\<close>

definition written :: "int \<Rightarrow> int \<Rightarrow> (int \<times> int) list \<Rightarrow> bool" where
  "written durable disk ws \<longleftrightarrow>
     (case ws of [] \<Rightarrow> durable = 0 | (t, g) # _ \<Rightarrow> durable = t \<and> disk = g) \<and>
     list_all (\<lambda>(t, g). 0 < t \<and> t \<le> g) ws \<and> sorted_wrt (\<lambda>(t, g) (t', g'). t' < t \<and> g' \<le> g) ws"

lemma written_more:
  assumes "written d k ws" "0 \<le> d" "d < t" "t \<le> g" "k \<le> g"
  shows "written t g ((t, g) # ws)"
  using assms by (cases ws) (fastforce simp: written_def)+

definition cp_inv :: "CheckpointConfig \<Rightarrow> CpSystem \<Rightarrow> bool" where
  "cp_inv cfg s \<longleftrightarrow> (let m = manager s in
     0 \<le> cp_durable m \<and> cp_durable m \<le> cp_dirty m \<and> cp_dirty m \<le> engine_generation s \<and>
     cp_durable m \<le> disk_generation s \<and> disk_generation s \<le> engine_generation s \<and>
     (cp_write_active m \<longleftrightarrow> in_flight s \<noteq> None) \<and>
     (\<forall>t g. in_flight s = Some (t, g) \<longrightarrow>
        cp_durable m < t \<and> t \<le> cp_dirty m \<and> t \<le> g \<and> g \<le> engine_generation s \<and> disk_generation s \<le> g) \<and>
     (cp_dirty m > cp_durable m \<longrightarrow> cp_next_retry_at m \<noteq> None \<or> cp_write_at m \<noteq> None \<or> cp_write_active m) \<and>
     (cp_next_retry_at m \<noteq> None \<longrightarrow> cp_dirty m > cp_durable m) \<and>
     (cp_dirty m > cp_durable m \<longleftrightarrow> pending_since s \<noteq> None) \<and>
     cp_first_dirty_at m = pending_since s \<and>
     (\<forall>t. pending_since s = Some t \<longrightarrow> t \<le> clock s \<and>
        (\<forall>w. cp_write_at m = Some w \<longrightarrow> w \<le> t + deadline cfg)) \<and>
     written (cp_durable m) (disk_generation s) (finished s))"

lemma cp_inv_init: "0 \<le> g \<Longrightarrow> cp_inv cfg \<lparr>manager = CheckpointManager_init, engine_generation = g,
    pending_since = None, in_flight = None, finished = [], disk_generation = g, clock = t\<rparr>"
  by (simp add: cp_inv_def CheckpointManager_init_def written_def Let_def)

lemma cp_inv_frame [simp]:
  "cp_inv cfg (s\<lparr>manager := (manager s)\<lparr>cp_flush := f\<rparr>\<rparr>) = cp_inv cfg s"
  "cp_inv cfg (s\<lparr>manager := (manager s)\<lparr>cp_running := b\<rparr>\<rparr>) = cp_inv cfg s"
  by (simp_all add: cp_inv_def Let_def)

lemma cp_inv_idle: "cp_inv cfg s \<Longrightarrow> in_flight s = None \<Longrightarrow> \<not> cp_write_active (manager s)"
  by (simp add: cp_inv_def Let_def)

lemma cp_inv_mark:
  assumes "cp_inv cfg s" "gen \<le> engine_generation s" "mark_dirty cfg (clock s) gen (manager s) = Inr m"
  shows "cp_inv cfg (s\<lparr>manager := m, pending_since :=
      (if cp_dirty (manager s) < gen \<and> cp_dirty (manager s) \<le> cp_durable (manager s) then Some (clock s)
       else pending_since s)\<rparr>)"
proof (cases "gen \<le> cp_dirty (manager s)")
  case True
  with assms show ?thesis by (auto simp: mark_dirty_def)
next
  case False
  show ?thesis
  proof (cases "cp_dirty (manager s) \<le> cp_durable (manager s)")
    case True
    with assms(1) have retry: "cp_next_retry_at (manager s) = None" by (auto simp: cp_inv_def Let_def)
    from True assms(1) have idle: "in_flight s = None" by (cases "in_flight s") (auto simp: cp_inv_def Let_def)
    from retry True False assms(3) have "m = (manager s)\<lparr>cp_first_dirty_at := Some (clock s),
        cp_write_at := Some (min (clock s + start_delay cfg) (clock s + deadline cfg)), cp_dirty := gen\<rparr>"
      by (simp add: mark_dirty_def)
    with True False assms(1,2) idle show ?thesis by (auto simp: cp_inv_def Let_def)
  next
    case pending: False
    with False assms(3) have "m = (manager s)\<lparr>cp_dirty := gen\<rparr>" by (simp add: mark_dirty_def)
    with pending False assms(1,2) show ?thesis by (auto simp: cp_inv_def Let_def)
  qed
qed

lemma cp_inv_success:
  assumes "cp_inv cfg s" "in_flight s = Some (target, g)"
  shows "cp_inv cfg (s\<lparr>manager := write_succeeded cfg (clock s) target (manager s), in_flight := None,
      finished := (target, g) # finished s, disk_generation := g,
      pending_since := (if cp_dirty (manager s) \<le> target then None else pending_since s)\<rparr>)"
proof -
  from assms have t: "cp_durable (manager s) < target" "max (cp_durable (manager s)) target = target"
    and "written target g ((target, g) # finished s)" by (auto simp: cp_inv_def Let_def max_def intro: written_more)
  then show ?thesis using assms by (cases "pending_since s") (auto simp: cp_inv_def write_succeeded_def Let_def)
qed

lemma cp_inv_step: "cp_step cfg s s' \<Longrightarrow> cp_inv cfg s \<Longrightarrow> cp_inv cfg s'"
proof (induction rule: cp_step.induct)
  case (tick s t)
  then show ?case by (cases "pending_since s") (auto simp: cp_inv_def Let_def)
next
  case (change s)
  then show ?case by (auto simp: cp_inv_def Let_def)
next
  case (mark gen s m)
  then show ?case by (blast intro: cp_inv_mark)
next
  case (flush s a m)
  then show ?case by (auto simp: flush_begin_def Let_def split: if_splits)
next
  case (start s m)
  then show ?case by (auto simp: run_begin_def)
next
  case (stop s)
  then have "run_end (manager s) = (manager s)\<lparr>cp_running := False\<rparr>"
    using cp_inv_idle by (simp add: run_end_def)
  with stop show ?case by simp
next
  case (begin_write s target m)
  then show ?case by (auto simp: cp_inv_def write_begin_def Let_def split: if_splits)
next
  case (fail s target g exc)
  then show ?case by (auto simp: cp_inv_def write_failed_def Let_def)
next
  case (success s target g)
  then show ?case by (rule cp_inv_success [rotated])
qed

lemma cp_reachable_inv: "cp_reachable cfg s \<Longrightarrow> cp_inv cfg s"
  by (induction rule: cp_reachable.induct) (auto intro: cp_inv_init cp_inv_step)

lemma scheduled:
  assumes "cp_inv cfg s" "cp_durable (manager s) < cp_dirty (manager s)" "in_flight s = None"
  shows "\<exists>due. next_write_time (clock s) (manager s) = Some due"
proof -
  have "\<not> cp_write_active (manager s)" by (rule cp_inv_idle [OF assms(1,3)])
  moreover from assms(1,2) this have "cp_next_retry_at (manager s) \<noteq> None \<or> cp_write_at (manager s) \<noteq> None"
    by (auto simp: cp_inv_def Let_def)
  ultimately show ?thesis using assms(2) by (auto simp: next_write_time_def)
qed

text \<open>A running manager one change after the start.\<close>

definition demo_manager :: CheckpointManager where
  "demo_manager = CheckpointManager_init\<lparr>cp_running := True, cp_dirty := 1, cp_first_dirty_at := Some 5,
     cp_write_at := Some (21 / 4)\<rparr>"

definition demo_system :: CpSystem where
  "demo_system = \<lparr>manager = demo_manager, engine_generation = 1, pending_since = Some 5, in_flight = None,
     finished = [], disk_generation = 0, clock = 5\<rparr>"

lemma demo_reachable: "cp_reachable default_config demo_system"
proof -
  let ?s0 = "\<lparr>manager = CheckpointManager_init, engine_generation = 0, pending_since = None, in_flight = None,
    finished = [], disk_generation = 0, clock = 5\<rparr>"
  let ?s1 = "?s0\<lparr>manager := CheckpointManager_init\<lparr>cp_running := True\<rparr>\<rparr>"
  let ?s2 = "?s1\<lparr>engine_generation := 1\<rparr>"
  have 0: "cp_reachable default_config ?s0" by (rule cp_reachable.init) simp
  have 1: "cp_step default_config ?s0 ?s1"
    by (rule cp_step.start) (simp add: run_begin_def CheckpointManager_init_def)
  have 2: "cp_step default_config ?s1 ?s2" using cp_step.change [of default_config ?s1] by simp
  have "mark_dirty default_config (clock ?s2) 1 (manager ?s2) = Inr demo_manager"
    by (simp add: mark_dirty_def default_config_def CheckpointManager_init_def demo_manager_def)
  from cp_step.mark [OF _ this] have 3: "cp_step default_config ?s2 demo_system"
    by (simp add: demo_system_def CheckpointManager_init_def)
  from 0 1 2 3 show ?thesis by (blast intro: cp_reachable.step)
qed

section \<open>Properties of checkpointing\<close>

text \<open>C11: in every reachable state the generation reported as durable is exactly the target of the last write that
  finished (zero before the first one), and what that write stored, at least the target, is the generation on disk. The
  targets of the writes rise strictly and what they store never falls; a write in progress has a later target than what
  is durable and stores at least that; nothing is marked that the engine has not reached.\<close>
theorem durable_is_on_disk:
  assumes "cp_reachable cfg s"
  shows "(case finished s of
      [] \<Rightarrow> cp_durable (manager s) = 0
    | (t, g) # _ \<Rightarrow> cp_durable (manager s) = t \<and> disk_generation s = g) \<and>
    list_all (\<lambda>(t, g). 0 < t \<and> t \<le> g) (finished s) \<and>
    sorted_wrt (\<lambda>(t, g) (t', g'). t' < t \<and> g' \<le> g) (finished s) \<and>
    cp_durable (manager s) \<le> disk_generation s \<and>
    cp_durable (manager s) \<le> cp_dirty (manager s) \<and> cp_dirty (manager s) \<le> engine_generation s \<and>
    pred_option (\<lambda>(t, g). cp_durable (manager s) < t \<and> t \<le> cp_dirty (manager s) \<and> t \<le> g \<and> g \<le> engine_generation s)
      (in_flight s)"
  using cp_reachable_inv [OF assms] by (cases "in_flight s") (auto simp: cp_inv_def written_def Let_def)

lemma demo_written:
  obtains s where "cp_reachable default_config s" "finished s = [(1, 1)]"
proof -
  have pend: "cp_durable (manager demo_system) < cp_dirty (manager demo_system)" "in_flight demo_system = None"
    "cp_running (manager demo_system)" "clock demo_system \<le> 21 / 4"
    by (simp_all add: demo_system_def demo_manager_def CheckpointManager_init_def)
  let ?s = "demo_system\<lparr>clock := 21 / 4\<rparr>" and ?m = "demo_manager\<lparr>cp_write_active := True\<rparr>"
  let ?w = "?s\<lparr>manager := ?m, in_flight := Some (1, engine_generation ?s)\<rparr>"
  have 0: "cp_reachable default_config ?s" by (rule cp_reachable.step [OF demo_reachable cp_step.tick]) (rule pend(4))
  have "run_decide (clock ?s) (manager ?s) = WriteNow" "write_begin (manager ?s) = Some (1, ?m)"
    by (simp_all add: demo_system_def demo_manager_def CheckpointManager_init_def run_decide_def next_write_time_def write_begin_def)
  then have "cp_step default_config ?s ?w" using pend(2,3) by (intro cp_step.begin_write) simp_all
  then have 1: "cp_reachable default_config ?w" by (rule cp_reachable.step [OF 0])
  have "in_flight ?w = Some (1, 1)" by (simp add: demo_system_def)
  from cp_reachable.step [OF 1 cp_step.success [OF this]] show thesis by (rule that) (simp add: demo_system_def)
qed

theorem durable_is_on_disk_witness:
  "\<exists>s. cp_reachable default_config s \<and> finished s = [(1, 1)] \<and> cp_durable (manager s) = 1 \<and> disk_generation s = 1"
proof -
  obtain s where s: "cp_reachable default_config s" "finished s = [(1, 1)]" by (rule demo_written)
  from durable_is_on_disk [OF s(1)] s show ?thesis by (intro exI [of _ s]) simp
qed

text \<open>No change is forgotten: whenever a marked generation is not yet durable and no write is running, the loop has a
  time for the next write; unless a failed write is being retried, that time is at most the deadline after the oldest
  unsaved change, and never later than now when a flush is waiting.\<close>
theorem pending_change_scheduled:
  assumes "cp_reachable cfg s" "cp_durable (manager s) < cp_dirty (manager s)" "in_flight s = None"
  shows "\<exists>due t. next_write_time (clock s) (manager s) = Some due \<and> pending_since s = Some t \<and> t \<le> clock s \<and>
    (cp_next_retry_at (manager s) = None \<longrightarrow>
       (if cp_durable (manager s) < cp_flush (manager s) then due = clock s else due \<le> t + deadline cfg))"
proof -
  note inv = cp_reachable_inv [OF assms(1)]
  from inv assms(2) obtain t where t: "pending_since s = Some t" "t \<le> clock s"
    "\<forall>w. cp_write_at (manager s) = Some w \<longrightarrow> w \<le> t + deadline cfg" by (auto simp: cp_inv_def Let_def)
  from scheduled [OF inv assms(2,3)] obtain due where "next_write_time (clock s) (manager s) = Some due" ..
  with t show ?thesis by (auto simp: next_write_time_def split: if_splits)
qed

theorem pending_change_scheduled_witness:
  "cp_reachable default_config demo_system \<and> next_write_time (clock demo_system) (manager demo_system) = Some (21 / 4) \<and>
   (\<exists>due t. next_write_time (clock demo_system) (manager demo_system) = Some due \<and> pending_since demo_system = Some t \<and>
      due \<le> t + deadline default_config)"
  using pending_change_scheduled [OF demo_reachable] demo_reachable
  by (simp add: demo_system_def demo_manager_def CheckpointManager_init_def next_write_time_def)

lemma write_cycle:
  assumes inv: "cp_inv cfg s" and pend: "cp_durable (manager s) < cp_dirty (manager s)" and idle: "in_flight s = None"
    and run: "cp_running (manager s)" and due: "next_write_time (clock s) (manager s) = Some due" "due \<le> clock s"
  shows "\<exists>s1 s2. cp_step cfg s s1 \<and> cp_step cfg s1 s2 \<and> cp_durable (manager s2) = cp_dirty (manager s) \<and>
    cp_dirty (manager s2) = cp_dirty (manager s) \<and> disk_generation s2 = engine_generation s \<and>
    cp_last_error (manager s2) = None"
proof -
  let ?t = "cp_dirty (manager s)"
  let ?m = "(manager s)\<lparr>cp_write_active := True\<rparr>"
  let ?s1 = "s\<lparr>manager := ?m, in_flight := Some (?t, engine_generation s)\<rparr>"
  let ?s2 = "?s1\<lparr>manager := write_succeeded cfg (clock s) ?t ?m, in_flight := None,
    finished := (?t, engine_generation s) # finished s, disk_generation := engine_generation s, pending_since := None\<rparr>"
  have "write_begin (manager s) = Some (?t, ?m)"
    using pend cp_inv_idle [OF inv idle] by (simp add: write_begin_def)
  moreover have "run_decide (clock s) (manager s) = WriteNow" using due by (simp add: run_decide_def)
  ultimately have 1: "cp_step cfg s ?s1" using run idle by (intro cp_step.begin_write)
  have "cp_step cfg ?s1 (?s1\<lparr>manager := write_succeeded cfg (clock ?s1) ?t (manager ?s1), in_flight := None,
      finished := (?t, engine_generation s) # finished ?s1, disk_generation := engine_generation s,
      pending_since := (if cp_dirty (manager ?s1) \<le> ?t then None else pending_since ?s1)\<rparr>)"
    by (rule cp_step.success) simp
  then have 2: "cp_step cfg ?s1 ?s2" by simp
  have "cp_durable (manager ?s2) = ?t" "cp_dirty (manager ?s2) = ?t" "cp_last_error (manager ?s2) = None"
    using pend by (simp_all add: write_succeeded_def Let_def)
  with 1 2 show ?thesis by (intro exI [of _ ?s1] exI [of _ ?s2]) simp
qed

text \<open>C12: a running manager with an unsaved change can always make progress: once the clock has reached the due time, one
  successful write makes every marked generation durable.\<close>
theorem pending_change_saved:
  assumes "cp_reachable cfg s" "cp_durable (manager s) < cp_dirty (manager s)" "in_flight s = None" "cp_running (manager s)"
  shows "\<exists>t s1 s2. clock s \<le> t \<and> cp_step cfg (s\<lparr>clock := t\<rparr>) s1 \<and> cp_step cfg s1 s2 \<and>
    cp_step cfg s (s\<lparr>clock := t\<rparr>) \<and> cp_durable (manager s2) = cp_dirty (manager s) \<and>
    disk_generation s2 = engine_generation s \<and> cp_last_error (manager s2) = None"
proof -
  note inv = cp_reachable_inv [OF assms(1)]
  from scheduled [OF inv assms(2,3)] obtain due where due: "next_write_time (clock s) (manager s) = Some due" ..
  let ?t = "max due (clock s)"
  let ?s = "s\<lparr>clock := ?t\<rparr>"
  have step: "cp_step cfg s ?s" by (rule cp_step.tick) simp
  have "\<exists>d. next_write_time ?t (manager s) = Some d \<and> d \<le> ?t"
    using due by (auto simp: next_write_time_def split: if_splits)
  then obtain d where "next_write_time (clock ?s) (manager ?s) = Some d" "d \<le> clock ?s" by auto
  from write_cycle [OF cp_inv_step [OF step inv] _ _ _ this] assms(2-4)
  obtain s1 s2 where "cp_step cfg ?s s1" "cp_step cfg s1 s2" "cp_durable (manager s2) = cp_dirty (manager s)"
    "disk_generation s2 = engine_generation s" "cp_last_error (manager s2) = None" by auto
  with step show ?thesis by (intro exI [of _ ?t]) auto
qed

theorem pending_change_saved_witness:
  "cp_reachable default_config demo_system \<and> cp_running (manager demo_system) \<and>
   (\<exists>t s1 s2. cp_step default_config (demo_system\<lparr>clock := t\<rparr>) s1 \<and> cp_step default_config s1 s2 \<and>
      cp_durable (manager s2) = 1 \<and> disk_generation s2 = 1)"
  using pending_change_saved [OF demo_reachable] demo_reachable
  by (auto simp: demo_system_def demo_manager_def CheckpointManager_init_def)

primrec failures :: "nat \<Rightarrow> CheckpointConfig \<Rightarrow> rat \<Rightarrow> string \<Rightarrow> CheckpointManager \<Rightarrow> CheckpointManager" where
  "failures 0 cfg now exc m = m"
| "failures (Suc n) cfg now exc m = write_failed cfg now exc (failures n cfg now exc m)"

lemma failures_index: "cp_retry_index (failures n cfg now exc m) = cp_retry_index m + n"
  by (induction n) (simp_all add: write_failed_def)

text \<open>After the n-th failure in a row the next attempt waits for the n-th entry of the backoff table, or its last one; a
  failed write never changes what counts as durable or dirty.\<close>
theorem backoff_schedule:
  assumes "CheckpointConfig_check cfg = Inr cfg" "cp_retry_index m = 0"
  shows "\<exists>d \<in> set (backoff cfg). d = backoff cfg ! min n (length (backoff cfg) - 1) \<and> 0 \<le> d \<and>
    cp_next_retry_at (failures (Suc n) cfg now exc m) = Some (now + d) \<and>
    cp_durable (failures (Suc n) cfg now exc m) = cp_durable m \<and>
    cp_dirty (failures (Suc n) cfg now exc m) = cp_dirty m"
proof -
  let ?d = "backoff cfg ! min n (length (backoff cfg) - 1)"
  from assms(1) have "backoff cfg \<noteq> []" "\<forall>d \<in> set (backoff cfg). 0 \<le> d"
    by (auto simp: CheckpointConfig_check_def list_ex_iff)
  moreover from this have "min n (length (backoff cfg) - 1) < length (backoff cfg)" by (cases "backoff cfg") auto
  then have "?d \<in> set (backoff cfg)" by (rule nth_mem)
  moreover have "cp_durable (failures k cfg now exc m) = cp_durable m \<and>
      cp_dirty (failures k cfg now exc m) = cp_dirty m" for k by (induction k) (simp_all add: write_failed_def)
  ultimately show ?thesis
    by (intro bexI [of _ ?d]) (simp_all add: write_failed_def failures_index assms(2))
qed

theorem backoff_schedule_witness:
  "\<exists>d \<in> set (backoff default_config). d = 2 \<and>
     cp_next_retry_at (failures (Suc 9) default_config 10 ''OSError'' CheckpointManager_init) = Some (10 + d)"
  using backoff_schedule [of default_config CheckpointManager_init 9 10 "''OSError''"]
  by (simp add: CheckpointConfig_check_def default_config_def CheckpointManager_init_def)

text \<open>A flush answers at once only when everything marked is already durable; otherwise it waits for the generation
  marked at its start, the answer it then gives reports at least that generation as durable, and as long as the manager
  runs the wait ends with an answer and not with an error.\<close>
theorem flush_sound:
  assumes "cp_inv cfg s" "flush_begin (manager s) = Inr (a, m)"
  shows "(\<forall>st. a = FlushDone st \<longrightarrow> m = manager s \<and> cs_durable_generation st = cp_dirty (manager s)) \<and>
    (\<forall>target. a = FlushWait target \<longrightarrow> target = cp_dirty (manager s) \<and> cp_durable (manager s) < target \<and>
       target \<le> cp_flush m \<and>
       (\<forall>m' st. flush_end target m' = Inr st \<longrightarrow> target \<le> cs_durable_generation st) \<and>
       (\<forall>m'. flush_ready target m' \<longrightarrow> cp_running m' \<longrightarrow> flush_end target m' = Inr (status m')))"
  using assms by (auto simp: flush_begin_def Let_def status_def cp_inv_def flush_end_def flush_ready_def
      split: if_splits)

theorem flush_sound_witness:
  "flush_begin (manager demo_system) = Inr (FlushWait 1, demo_manager\<lparr>cp_flush := 1\<rparr>) \<and>
   cp_durable (manager demo_system) < 1 \<and> 1 \<le> cp_flush (demo_manager\<lparr>cp_flush := 1\<rparr>)"
proof -
  have 1: "flush_begin (manager demo_system) = Inr (FlushWait 1, demo_manager\<lparr>cp_flush := 1\<rparr>)"
    by (simp add: flush_begin_def demo_system_def demo_manager_def CheckpointManager_init_def)
  from flush_sound [OF cp_reachable_inv [OF demo_reachable] 1] 1 show ?thesis by blast
qed

end
