(* ===== verification/Json_Text.thy ===== *)
theory Json_Text
  imports Json Uuid "HOL-Library.AList"
begin

text \<open>
  The JSON text of the standard library, as the protocol and the store use it: \<^verbatim>\<open>json.dumps\<close> with the compact
  separators and \<^verbatim>\<open>ensure_ascii=False\<close>, \<^verbatim>\<open>json.loads\<close>, and UTF-8. The text of a finite float is an argument
  (\<^verbatim>\<open>float.__repr__\<close>); reading a float rounds the exact decimal value to a double. Text is in the code points up to
  U+00FF: bytes that encode anything else are refused by \<open>utf8_decode\<close>. Signed zero and the recursion limit of the
  interpreter are left out.
\<close>

section \<open>Printing\<close>

definition hex_digit :: "nat \<Rightarrow> char" where
  "hex_digit n = hex_alphabet ! n"

definition escape_char :: "char \<Rightarrow> string" where
  "escape_char c =
     (if c = CHR 0x22 then [CHR 0x5C, CHR 0x22]
      else if c = CHR 0x5C then [CHR 0x5C, CHR 0x5C]
      else if c = CHR 0x0A then [CHR 0x5C, CHR ''n'']
      else if c = CHR 0x0D then [CHR 0x5C, CHR ''r'']
      else if c = CHR 0x09 then [CHR 0x5C, CHR ''t'']
      else if c = CHR 0x0C then [CHR 0x5C, CHR ''f'']
      else if c = CHR 0x08 then [CHR 0x5C, CHR ''b'']
      else if code c < 32 then [CHR 0x5C, CHR ''u'', CHR ''0'', CHR ''0'', hex_digit (code c div 16), hex_digit (code c mod 16)]
      else [c])"

text \<open>\<^verbatim>\<open>ensure_ascii=True\<close> also escapes what is not printable ASCII.\<close>

definition ascii_escape :: "char \<Rightarrow> string" where
  "ascii_escape c =
     (if 127 \<le> code c then [CHR 0x5C, CHR ''u'', CHR ''0'', CHR ''0'', hex_digit (code c div 16), hex_digit (code c mod 16)]
      else escape_char c)"

definition json_string_with :: "(char \<Rightarrow> string) \<Rightarrow> string \<Rightarrow> string" where
  "json_string_with esc s = CHR 0x22 # concat (map esc s) @ [CHR 0x22]"

fun dumps_with :: "(char \<Rightarrow> string) \<Rightarrow> (rat \<Rightarrow> string) \<Rightarrow> json \<Rightarrow> string" where
  "dumps_with esc fr JNull = ''null''"
| "dumps_with esc fr (JBool b) = (if b then ''true'' else ''false'')"
| "dumps_with esc fr (JInt n) = int_text n"
| "dumps_with esc fr (JFloat (Finite x)) = fr x"
| "dumps_with esc fr (JFloat PosInf) = ''Infinity''"
| "dumps_with esc fr (JFloat NegInf) = ''-Infinity''"
| "dumps_with esc fr (JFloat NaN) = ''NaN''"
| "dumps_with esc fr (JStr s) = json_string_with esc s"
| "dumps_with esc fr (JArr vs) = ''['' @ join '','' (map (dumps_with esc fr) vs) @ '']''"
| "dumps_with esc fr (JObj kvs) =
     ''{'' @ join '','' (map (\<lambda>(k, v). json_string_with esc k @ '':'' @ dumps_with esc fr v) kvs) @ ''}''"

abbreviation json_string :: "string \<Rightarrow> string" where
  "json_string \<equiv> json_string_with escape_char"

abbreviation dumps :: "(rat \<Rightarrow> string) \<Rightarrow> json \<Rightarrow> string" where
  "dumps \<equiv> dumps_with escape_char"

text \<open>\<^verbatim>\<open>sort_keys=True\<close> prints every dictionary in the order of its keys.\<close>

fun sort_keys :: "json \<Rightarrow> json" where
  "sort_keys (JArr vs) = JArr (map sort_keys vs)"
| "sort_keys (JObj kvs) = JObj (sort_key fst (map (\<lambda>(k, v). (k, sort_keys v)) kvs))"
| "sort_keys v = v"

definition utf8_encode :: "string \<Rightarrow> string" where
  "utf8_encode s = concat (map (\<lambda>c. if code c < 128 then [c]
     else [char_of (192 + code c div 64), char_of (128 + code c mod 64)]) s)"

fun utf8_decode :: "string \<Rightarrow> string option" where
  "utf8_decode [] = Some []"
| "utf8_decode (c # s) =
     (if code c < 128 then map_option (Cons c) (utf8_decode s)
      else if code c = 194 \<or> code c = 195 then
        (case s of
           d # t \<Rightarrow> if 128 \<le> code d \<and> code d < 192
                    then map_option (Cons (char_of ((code c - 192) * 64 + (code d - 128)))) (utf8_decode t)
                    else None
         | [] \<Rightarrow> None)
      else None)"

section \<open>Reading\<close>

definition json_space :: "char \<Rightarrow> bool" where
  "json_space c \<longleftrightarrow> c = CHR '' '' \<or> c = CHR 0x09 \<or> c = CHR 0x0A \<or> c = CHR 0x0D"

definition skip_ws :: "string \<Rightarrow> string" where
  "skip_ws s = dropWhile json_space s"

fun simple_escape :: "char \<Rightarrow> char option" where
  "simple_escape c =
     (if c = CHR 0x22 \<or> c = CHR 0x5C \<or> c = CHR ''/'' then Some c
      else if c = CHR ''b'' then Some CHR 0x08
      else if c = CHR ''f'' then Some CHR 0x0C
      else if c = CHR ''n'' then Some CHR 0x0A
      else if c = CHR ''r'' then Some CHR 0x0D
      else if c = CHR ''t'' then Some CHR 0x09
      else None)"

declare simple_escape.simps [simp del]

definition hex4 :: "string \<Rightarrow> char option" where
  "hex4 h = (case map hex_value h of
     [Some a, Some b, Some c, Some d] \<Rightarrow>
       (let n = ((a * 16 + b) * 16 + c) * 16 + d in if n < 256 then Some (char_of n) else None)
   | _ \<Rightarrow> None)"

text \<open>The characters of a string literal after its opening quote, and what follows the closing one.\<close>

function scan_string :: "string \<Rightarrow> (string \<times> string) option" where
  "scan_string [] = None"
| "scan_string (c # s) =
     (if c = CHR 0x22 then Some ([], s)
      else if c = CHR 0x5C then
        (case s of
           [] \<Rightarrow> None
         | e # t \<Rightarrow>
             if e = CHR ''u'' then
               (if length t < 4 then None
                else case hex4 (take 4 t) of
                  None \<Rightarrow> None
                | Some x \<Rightarrow> map_option (apfst (Cons x)) (scan_string (drop 4 t)))
             else (case simple_escape e of
                 None \<Rightarrow> None
               | Some x \<Rightarrow> map_option (apfst (Cons x)) (scan_string t)))
      else if code c < 32 then None
      else map_option (apfst (Cons c)) (scan_string s))"
  by pat_completeness auto
termination
  by (relation "measure length") auto

definition digits_value :: "string \<Rightarrow> nat" where
  "digits_value s = foldl (\<lambda>a c. 10 * a + (code c - 48)) 0 s"

text \<open>Rounding a rational number to the nearest double, half to even.\<close>

definition floor_log2 :: "rat \<Rightarrow> int" where
  "floor_log2 x =
     (let (n, d) = quotient_of x; k = bitlen n - bitlen d in
      if 2 powi k \<le> x then k else k - 1)"

definition round_half_even :: "rat \<Rightarrow> int" where
  "round_half_even x =
     (let q = \<lfloor>x\<rfloor>; r = x - of_int q in
      if r < 1 / 2 \<or> (r = 1 / 2 \<and> even q) then q else q + 1)"

definition round_double :: "rat \<Rightarrow> pyfloat" where
  "round_double x =
     (if x = 0 then Finite 0
      else
        let u = 2 powi (max (floor_log2 \<bar>x\<bar>) (-1022) - 52);
            y = of_int (round_half_even (\<bar>x\<bar> / u)) * u in
        if y \<ge> 2 ^ 1024 then (if x > 0 then PosInf else NegInf) else Finite (sgn x * y))"

text \<open>The pieces of a number: sign, integer digits, fraction digits, exponent.\<close>

definition number_int :: "string \<Rightarrow> (string \<times> string) option" where
  "number_int s =
     (case s of
        [] \<Rightarrow> None
      | c # t \<Rightarrow>
          if c = CHR ''0'' then Some (''0'', t)
          else if is_digit c then Some (takeWhile is_digit s, dropWhile is_digit s)
          else None)"

definition number_frac :: "string \<Rightarrow> string \<times> string" where
  "number_frac s =
     (case s of
        c # t \<Rightarrow> if c = CHR ''.'' \<and> takeWhile is_digit t \<noteq> [] then (takeWhile is_digit t, dropWhile is_digit t) else ([], s)
      | [] \<Rightarrow> ([], s))"

definition number_exp :: "string \<Rightarrow> int option \<times> string" where
  "number_exp s =
     (case s of
        c # t \<Rightarrow>
          if c = CHR ''e'' \<or> c = CHR ''E'' then
            (let (sg, u) = (case t of
                 x # w \<Rightarrow> if x = CHR ''-'' then (- 1, w) else if x = CHR ''+'' then (1, w) else (1, t)
               | [] \<Rightarrow> (1, t)) in
             if takeWhile is_digit u \<noteq> []
             then (Some (sg * int (digits_value (takeWhile is_digit u))), dropWhile is_digit u) else (None, s))
          else (None, s)
      | [] \<Rightarrow> (None, s))"

definition MAX_INT_DIGITS :: nat where "MAX_INT_DIGITS = 4300"

definition parse_number :: "string \<Rightarrow> (json \<times> string) option" where
  "parse_number s =
     (let (neg, s0) = (if startswith s ''-'' then (True, tl s) else (False, s)) in
      case number_int s0 of
        None \<Rightarrow> None
      | Some (ds, s1) \<Rightarrow>
          (let (fs, s2) = number_frac s1; (ex, s3) = number_exp s2;
               sign = (if neg then - 1 else 1) in
           if fs = [] \<and> ex = None then
             (if length ds > MAX_INT_DIGITS then None else Some (JInt (sign * int (digits_value ds)), s3))
           else
             Some (JFloat (round_double (of_int sign * of_nat (digits_value (ds @ fs)) *
               10 powi ((case ex of None \<Rightarrow> 0 | Some e \<Rightarrow> e) - int (length fs)))), s3)))"

text \<open>
  A dictionary from the pairs of an object: the last value of a key wins, at the place of its first
  occurrence; or, with \<^verbatim>\<open>_duplicate_rejector\<close> as the hook, a repeated key is an error.
\<close>

definition object_of :: "bool \<Rightarrow> (string \<times> json) list \<Rightarrow> json option" where
  "object_of reject ps =
     (if reject then (if distinct (map fst ps) then Some (JObj ps) else None)
      else Some (JObj (foldl (\<lambda>d (k, v). AList.update k v d) [] ps)))"

text \<open>The scanner, with fuel: a call of \<open>parse_value\<close> below another one works on a shorter text, and at most one
  other call is between them, so twice the length of the text is enough.\<close>

fun parse_value :: "bool \<Rightarrow> nat \<Rightarrow> string \<Rightarrow> (json \<times> string) option"
and parse_elems :: "bool \<Rightarrow> nat \<Rightarrow> string \<Rightarrow> (json list \<times> string) option"
and parse_members :: "bool \<Rightarrow> nat \<Rightarrow> string \<Rightarrow> ((string \<times> json) list \<times> string) option" where
  "parse_value rj 0 s = None"
| "parse_value rj (Suc n) s =
     (if startswith s [CHR 0x22] then map_option (apfst JStr) (scan_string (tl s))
      else if startswith s ''{'' then
        (let u = skip_ws (tl s) in
         if startswith u ''}'' then Some (JObj [], tl u)
         else case parse_members rj n u of
           None \<Rightarrow> None
         | Some (ps, r) \<Rightarrow> map_option (\<lambda>v. (v, r)) (object_of rj ps))
      else if startswith s ''['' then
        (let u = skip_ws (tl s) in
         if startswith u '']'' then Some (JArr [], tl u) else map_option (apfst JArr) (parse_elems rj n u))
      else if startswith s ''null'' then Some (JNull, drop 4 s)
      else if startswith s ''true'' then Some (JBool True, drop 4 s)
      else if startswith s ''false'' then Some (JBool False, drop 5 s)
      else case parse_number s of
        Some r \<Rightarrow> Some r
      | None \<Rightarrow>
          if startswith s ''NaN'' then Some (JFloat NaN, drop 3 s)
          else if startswith s ''Infinity'' then Some (JFloat PosInf, drop 8 s)
          else if startswith s ''-Infinity'' then Some (JFloat NegInf, drop 9 s)
          else None)"
| "parse_elems rj 0 s = None"
| "parse_elems rj (Suc n) s =
     (case parse_value rj n s of
        None \<Rightarrow> None
      | Some (v, r) \<Rightarrow>
          (let u = skip_ws r in
           if startswith u '']'' then Some ([v], tl u)
           else if startswith u '','' then map_option (apfst (Cons v)) (parse_elems rj n (skip_ws (tl u)))
           else None))"
| "parse_members rj 0 s = None"
| "parse_members rj (Suc n) s =
     (if startswith s [CHR 0x22] then
        (case scan_string (tl s) of
           None \<Rightarrow> None
         | Some (k, r) \<Rightarrow>
             (let u = skip_ws r in
              if startswith u '':'' then
                (case parse_value rj n (skip_ws (tl u)) of
                   None \<Rightarrow> None
                 | Some (v, r') \<Rightarrow>
                     (let w = skip_ws r' in
                      if startswith w ''}'' then Some ([(k, v)], tl w)
                      else if startswith w '','' then
                        map_option (apfst (Cons (k, v))) (parse_members rj n (skip_ws (tl w)))
                      else None))
              else None))
      else None)"

definition loads :: "bool \<Rightarrow> string \<Rightarrow> json result" where
  "loads reject s =
     (case parse_value reject (2 * length s + 3) (skip_ws s) of
        None \<Rightarrow> Inl (JSONDecodeError ''invalid JSON'')
      | Some (v, r) \<Rightarrow> if skip_ws r = [] then Inr v else Inl (JSONDecodeError ''Extra data''))"

section \<open>The fuel is enough\<close>

lemma startswith_Cons [simp]: "startswith s (c # p) \<longleftrightarrow> (\<exists>t. s = c # t \<and> startswith t p)"
  by (cases s) (auto simp: startswith_def)

lemma startswith_Nil [simp]: "startswith s []"
  by (simp add: startswith_def)

lemma skip_ws_le: "length (skip_ws s) \<le> length s"
  by (simp add: skip_ws_def length_dropWhile_le)

lemma scan_string_shorter: "scan_string s = Some (x, r) \<Longrightarrow> length r < length s"
proof (induction s arbitrary: x r rule: scan_string.induct)
  case (2 c s)
  then show ?case by (fastforce split: if_splits list.splits option.splits)
qed simp

lemma number_int_shorter: "number_int s = Some (d, r) \<Longrightarrow> length r < length s"
  by (auto simp: number_int_def length_dropWhile_le less_Suc_eq_le split: list.splits if_splits)

lemma number_frac_le: "number_frac s = (f, r) \<Longrightarrow> length r \<le> length s"
  using length_dropWhile_le [of is_digit]
  by (auto simp: number_frac_def le_SucI split: list.splits if_splits)

lemma number_exp_le: "number_exp s = (e, r) \<Longrightarrow> length r \<le> length s"
  using length_dropWhile_le [of is_digit]
  by (auto simp: number_exp_def Let_def le_SucI split: list.splits if_splits)

lemma parse_number_shorter: "parse_number s = Some (v, r) \<Longrightarrow> length r < length s"
proof -
  assume p: "parse_number s = Some (v, r)"
  obtain s0 where s0: "s0 = (if startswith s ''-'' then tl s else s)" by simp
  from p s0 obtain ds s1 where i: "number_int s0 = Some (ds, s1)"
    by (auto simp: parse_number_def Let_def split: option.splits if_splits)
  obtain fs s2 where f: "number_frac s1 = (fs, s2)" by force
  obtain ex s3 where e: "number_exp s2 = (ex, s3)" by force
  from p s0 i f e have "r = s3" by (auto simp: parse_number_def Let_def split: if_splits)
  moreover have "length s0 \<le> length s" using s0 by auto
  ultimately show ?thesis
    using number_int_shorter [OF i] number_frac_le [OF f] number_exp_le [OF e] by simp
qed

lemma startswith_nonempty: "startswith s p \<Longrightarrow> p \<noteq> [] \<Longrightarrow> s \<noteq> []"
  by (cases s; cases p) (simp_all add: startswith_def)

lemma tl_shorter: "startswith s p \<Longrightarrow> p \<noteq> [] \<Longrightarrow> length (tl s) < length s"
  by (cases s; cases p) (simp_all add: startswith_def)

lemma drop_shorter: "startswith s p \<Longrightarrow> p \<noteq> [] \<Longrightarrow> length (drop (length p) s) < length s"
  by (cases s; cases p) (simp_all add: startswith_def)

lemma skip_tl_shorter: "startswith s p \<Longrightarrow> p \<noteq> [] \<Longrightarrow> length (skip_ws (tl s)) < length s"
  using skip_ws_le [of "tl s"] tl_shorter [of s p] by simp

lemma literal_shorter:
  "startswith s ''null'' \<Longrightarrow> length (drop 4 s) < length s"
  "startswith s ''true'' \<Longrightarrow> length (drop 4 s) < length s"
  "startswith s ''false'' \<Longrightarrow> length (drop 5 s) < length s"
  "startswith s ''NaN'' \<Longrightarrow> length (drop 3 s) < length s"
  "startswith s ''Infinity'' \<Longrightarrow> length (drop 8 s) < length s"
  "startswith s ''-Infinity'' \<Longrightarrow> length (drop 9 s) < length s"
  using drop_shorter by (fastforce simp del: startswith_Cons)+

lemma parse_shorter:
  "parse_value rj n s = Some (v, r) \<Longrightarrow> length r < length s"
  "parse_elems rj n s = Some (vs, r) \<Longrightarrow> length r < length s"
  "parse_members rj n s = Some (ps, r) \<Longrightarrow> length r < length s"
proof (induction rj n s and rj n s and rj n s arbitrary: v r and vs r and ps r
    rule: parse_value_parse_elems_parse_members.induct)
  case (2 rj n s)
  consider (str) "startswith s [CHR 0x22]"
    | (obj) "\<not> startswith s [CHR 0x22]" "startswith s ''{''"
    | (arr) "\<not> startswith s [CHR 0x22]" "\<not> startswith s ''{''" "startswith s ''[''"
    | (other) "\<not> startswith s [CHR 0x22]" "\<not> startswith s ''{''" "\<not> startswith s ''[''" by blast
  then show ?case
  proof cases
    case str
    with 2(3) show ?thesis using tl_shorter [OF str] by (auto dest!: scan_string_shorter)
  next
    case obj
    show ?thesis
    proof (cases "startswith (skip_ws (tl s)) ''}''")
      case True
      with 2(3) obj have "r = tl (skip_ws (tl s))" by (simp add: Let_def del: startswith_Cons)
      then show ?thesis using skip_tl_shorter [OF obj(2)] by simp
    next
      case False
      with 2(3) obj obtain ps where "parse_members rj n (skip_ws (tl s)) = Some (ps, r)"
        by (auto simp: Let_def simp del: startswith_Cons split: option.splits)
      from 2(1) [OF obj refl False this] skip_tl_shorter [OF obj(2)] show ?thesis by simp
    qed
  next
    case arr
    show ?thesis
    proof (cases "startswith (skip_ws (tl s)) '']''")
      case True
      with 2(3) arr have "r = tl (skip_ws (tl s))" by (simp add: Let_def del: startswith_Cons)
      then show ?thesis using skip_tl_shorter [OF arr(3)] by simp
    next
      case False
      with 2(3) arr obtain vs where "parse_elems rj n (skip_ws (tl s)) = Some (vs, r)"
        by (auto simp: Let_def simp del: startswith_Cons)
      from 2(2) [OF arr refl False this] skip_tl_shorter [OF arr(3)] show ?thesis by simp
    qed
  next
    case other
    with 2(3) show ?thesis
      by (auto simp del: startswith_Cons split: if_splits option.splits
          dest: parse_number_shorter literal_shorter)
  qed
next
  case (4 rj n s)
  from 4(3) obtain v u where v: "parse_value rj n s = Some (v, u)" by (auto split: option.splits)
  have u: "length (skip_ws u) < length s" using 4(1) [OF v] skip_ws_le [of u] by simp
  show ?case
  proof (cases "startswith (skip_ws u) '']''")
    case True
    with 4(3) v have "r = tl (skip_ws u)" by (simp add: Let_def del: startswith_Cons)
    with u show ?thesis by simp
  next
    case False
    with 4(3) v obtain ws where w: "startswith (skip_ws u) '',''"
      "parse_elems rj n (skip_ws (tl (skip_ws u))) = Some (ws, r)"
      by (auto simp: Let_def simp del: startswith_Cons split: if_splits)
    from 4(2) [OF v refl refl False w] skip_tl_shorter [OF w(1)] u show ?thesis by simp
  qed
next
  case (6 rj n s)
  from 6(3) obtain k u where q: "startswith s [CHR 0x22]" and k: "scan_string (tl s) = Some (k, u)"
    and c: "startswith (skip_ws u) '':''"
    by (auto simp: Let_def simp del: startswith_Cons split: if_splits option.splits)
  with 6(3) obtain v w where v: "parse_value rj n (skip_ws (tl (skip_ws u))) = Some (v, w)"
    by (auto simp: Let_def simp del: startswith_Cons split: option.splits)
  have u: "length (skip_ws u) < length s"
    using scan_string_shorter [OF k] skip_ws_le [of u] tl_shorter [OF q] by simp
  have w: "length (skip_ws w) < length s"
    using 6(1) [OF q k refl refl c v] skip_ws_le [of w] skip_tl_shorter [OF c] u by simp
  show ?case
  proof (cases "startswith (skip_ws w) ''}''")
    case True
    with 6(3) q k c v have "r = tl (skip_ws w)" by (simp add: Let_def del: startswith_Cons)
    with w show ?thesis by simp
  next
    case False
    with 6(3) q k c v obtain qs where p: "startswith (skip_ws w) '',''"
      "parse_members rj n (skip_ws (tl (skip_ws w))) = Some (qs, r)"
      by (auto simp: Let_def simp del: startswith_Cons split: if_splits)
    from 6(2) [OF q k refl refl c v refl refl False p] skip_tl_shorter [OF p(1)] w show ?thesis by simp
  qed
qed simp_all

text \<open>More fuel than twice the length of the text never changes the answer.\<close>

definition fuel_ok :: "bool \<Rightarrow> string \<Rightarrow> bool" where
  "fuel_ok rj s \<longleftrightarrow>
     (\<forall>n m. 2 * length s < n \<longrightarrow> 2 * length s < m \<longrightarrow> parse_value rj n s = parse_value rj m s) \<and>
     (\<forall>n m. 2 * length s + 1 < n \<longrightarrow> 2 * length s + 1 < m \<longrightarrow> parse_elems rj n s = parse_elems rj m s) \<and>
     (\<forall>n m. 2 * length s + 1 < n \<longrightarrow> 2 * length s + 1 < m \<longrightarrow> parse_members rj n s = parse_members rj m s)"

lemma fuel_okD:
  "fuel_ok rj s \<Longrightarrow> 2 * length s < n \<Longrightarrow> 2 * length s < m \<Longrightarrow> parse_value rj n s = parse_value rj m s"
  "fuel_ok rj s \<Longrightarrow> 2 * length s + 1 < n \<Longrightarrow> 2 * length s + 1 < m \<Longrightarrow> parse_elems rj n s = parse_elems rj m s"
  "fuel_ok rj s \<Longrightarrow> 2 * length s + 1 < n \<Longrightarrow> 2 * length s + 1 < m \<Longrightarrow> parse_members rj n s = parse_members rj m s"
  unfolding fuel_ok_def by blast+

lemma parse_value_fuel:
  assumes IH: "\<And>u. length u < length s \<Longrightarrow> fuel_ok rj u" and "2 * length s < n" "2 * length s < m"
  shows "parse_value rj n s = parse_value rj m s"
proof -
  from assms obtain a b where ab: "n = Suc a" "m = Suc b" by (cases n; cases m) auto
  show ?thesis
  proof (cases s)
    case Nil
    then show ?thesis by (simp add: ab)
  next
    case (Cons c t)
    then have "length (skip_ws (tl s)) < length s" using skip_ws_le [of "tl s"] by simp
    with IH have f: "fuel_ok rj (skip_ws (tl s))" by blast
    moreover have "2 * length (skip_ws (tl s)) + 1 < a" "2 * length (skip_ws (tl s)) + 1 < b"
      using assms(2,3) ab Cons skip_ws_le [of "tl s"] by auto
    ultimately have "parse_members rj a (skip_ws (tl s)) = parse_members rj b (skip_ws (tl s))"
      "parse_elems rj a (skip_ws (tl s)) = parse_elems rj b (skip_ws (tl s))" by (blast intro: fuel_okD)+
    then show ?thesis by (simp add: ab Let_def del: startswith_Cons)
  qed
qed

lemma parse_elems_fuel:
  assumes IH: "\<And>u. length u < length s \<Longrightarrow> fuel_ok rj u" and "2 * length s + 1 < n" "2 * length s + 1 < m"
  shows "parse_elems rj n s = parse_elems rj m s"
proof -
  from assms obtain a b where ab: "n = Suc a" "m = Suc b" by (cases n; cases m) auto
  with assms have v: "parse_value rj a s = parse_value rj b s" by (intro parse_value_fuel) auto
  have "parse_elems rj a (skip_ws (tl (skip_ws r))) = parse_elems rj b (skip_ws (tl (skip_ws r)))"
    if "parse_value rj b s = Some (x, r)" for x r
  proof -
    have l: "length (skip_ws (tl (skip_ws r))) < length s"
      using parse_shorter(1) [OF that] skip_ws_le [of r] skip_ws_le [of "tl (skip_ws r)"] by simp
    then have "2 * length (skip_ws (tl (skip_ws r))) + 1 < a" "2 * length (skip_ws (tl (skip_ws r))) + 1 < b"
      using assms(2,3) ab by auto
    then show ?thesis by (rule fuel_okD(2) [OF IH [OF l]])
  qed
  then show ?thesis
    by (simp add: ab v Let_def del: startswith_Cons split: option.splits)
qed

lemma parse_members_fuel:
  assumes IH: "\<And>u. length u < length s \<Longrightarrow> fuel_ok rj u" and "2 * length s + 1 < n" "2 * length s + 1 < m"
  shows "parse_members rj n s = parse_members rj m s"
proof -
  from assms obtain a b where ab: "n = Suc a" "m = Suc b" by (cases n; cases m) auto
  have small: "2 * length u + 1 < a" "2 * length u + 1 < b" if "length u < length s" for u
    using that assms(2,3) ab by auto
  show ?thesis
  proof (cases "startswith s [CHR 0x22] \<and> scan_string (tl s) \<noteq> None")
    case True
    then obtain k r where q: "startswith s [CHR 0x22]" and k: "scan_string (tl s) = Some (k, r)" by auto
    let ?u = "skip_ws (tl (skip_ws r))"
    have u: "length ?u < length s"
      using scan_string_shorter [OF k] tl_shorter [OF q] skip_ws_le [of r] skip_ws_le [of "tl (skip_ws r)"] by simp
    have v: "parse_value rj a ?u = parse_value rj b ?u"
      using small [OF u] by (intro fuel_okD(1) [OF IH [OF u]]) auto
    have "parse_members rj a (skip_ws (tl (skip_ws w))) = parse_members rj b (skip_ws (tl (skip_ws w)))"
      if "parse_value rj b ?u = Some (x, w)" for x w
    proof -
      have l: "length (skip_ws (tl (skip_ws w))) < length s"
        using parse_shorter(1) [OF that] u skip_ws_le [of w] skip_ws_le [of "tl (skip_ws w)"] by simp
      show ?thesis by (rule fuel_okD(3) [OF IH [OF l] small [OF l]])
    qed
    with q k v show ?thesis by (simp add: ab Let_def del: startswith_Cons split: option.splits)
  next
    case False
    then show ?thesis by (auto simp: ab simp del: startswith_Cons split: option.splits)
  qed
qed

lemma parse_fuel: "fuel_ok rj s"
proof (induction "length s" arbitrary: s rule: less_induct)
  case less
  show ?case unfolding fuel_ok_def
    by (intro conjI allI impI parse_value_fuel parse_elems_fuel parse_members_fuel less)
qed

section \<open>Reading back what was printed\<close>

lemma hex_digit_value: "n < 16 \<Longrightarrow> hex_value (hex_digit n) = Some n"
proof -
  have "list_all (\<lambda>n. hex_value (hex_digit n) = Some n) [0..<16]" by code_simp
  then show "n < 16 \<Longrightarrow> ?thesis" by (simp add: list_all_iff del: upt_rec_numeral)
qed

lemma code_less: "code c < 256"
  by (simp add: code_def)

lemma char_of_code [simp]: "char_of (code c) = c"
  by (simp add: code_def)

lemma hex4_code: "hex4 [CHR ''0'', CHR ''0'', hex_digit (code c div 16), hex_digit (code c mod 16)] = Some c"
proof -
  have "hex_value CHR ''0'' = Some 0" by code_simp
  moreover have "hex_value (hex_digit (code c div 16)) = Some (code c div 16)"
    using code_less [of c] by (intro hex_digit_value) auto
  moreover have "hex_value (hex_digit (code c mod 16)) = Some (code c mod 16)" by (intro hex_digit_value) auto
  moreover have "code c div 16 * 16 + code c mod 16 = code c" by simp
  ultimately show ?thesis using code_less [of c] by (simp add: hex4_def)
qed

lemma scan_control:
  assumes "hex4 h = Some c" "length h = 4"
  shows "scan_string (CHR 0x5C # CHR ''u'' # h @ t) = map_option (apfst (Cons c)) (scan_string t)"
  using assms by (subst scan_string.simps) simp

lemma scan_simple:
  assumes "simple_escape e = Some c" "e \<noteq> CHR ''u''"
  shows "scan_string (CHR 0x5C # e # t) = map_option (apfst (Cons c)) (scan_string t)"
  using assms by (subst scan_string.simps) simp

lemma scan_plain:
  assumes "c \<noteq> CHR 0x22" "c \<noteq> CHR 0x5C" "\<not> code c < 32"
  shows "scan_string (c # t) = map_option (apfst (Cons c)) (scan_string t)"
  using assms by (subst scan_string.simps) simp

lemma escape_simple:
  assumes "simple_escape e = Some c" "e \<noteq> CHR ''u''" "escape_char c = [CHR 0x5C, e]"
  shows "scan_string (escape_char c @ t) = map_option (apfst (Cons c)) (scan_string t)"
  using scan_simple [OF assms(1,2)] assms(3) by simp

lemma escapes:
  "escape_char CHR 0x22 = [CHR 0x5C, CHR 0x22]" "escape_char CHR 0x5C = [CHR 0x5C, CHR 0x5C]"
  "escape_char CHR 0x0A = [CHR 0x5C, CHR ''n'']" "escape_char CHR 0x0D = [CHR 0x5C, CHR ''r'']"
  "escape_char CHR 0x09 = [CHR 0x5C, CHR ''t'']" "escape_char CHR 0x0C = [CHR 0x5C, CHR ''f'']"
  "escape_char CHR 0x08 = [CHR 0x5C, CHR ''b'']"
  by (simp_all add: escape_char_def)

lemma scan_escaped: "scan_string (escape_char c @ t) = map_option (apfst (Cons c)) (scan_string t)"
proof (cases "c \<in> {CHR 0x22, CHR 0x5C, CHR 0x0A, CHR 0x0D, CHR 0x09, CHR 0x0C, CHR 0x08}")
  case True
  then obtain e where "simple_escape e = Some c \<and> e \<noteq> CHR ''u'' \<and> escape_char c = [CHR 0x5C, e]"
    using escapes by (elim insertE emptyE; (simp only:)?; force simp: simple_escape.simps)
  then show ?thesis by (blast intro: escape_simple)
next
  case special: False
  show ?thesis
  proof (cases "code c < 32")
    case True
    with special have e: "escape_char c = CHR 0x5C # CHR ''u'' #
        [CHR ''0'', CHR ''0'', hex_digit (code c div 16), hex_digit (code c mod 16)]"
      by (simp add: escape_char_def)
    from scan_control [OF hex4_code, of c t] show ?thesis unfolding e by simp
  next
    case False
    with special have "escape_char c = [c]" by (simp add: escape_char_def)
    with special False show ?thesis using scan_plain by simp
  qed
qed

lemma scan_ascii: "scan_string (ascii_escape c @ t) = map_option (apfst (Cons c)) (scan_string t)"
  using scan_escaped [of c t] scan_control [OF hex4_code, of c t] by (simp add: ascii_escape_def)

text \<open>A way to escape the characters of a string that the scanner undoes.\<close>

locale escaping =
  fixes esc :: "char \<Rightarrow> string"
  assumes scan_esc: "scan_string (esc c @ t) = map_option (apfst (Cons c)) (scan_string t)"
lemma code_digit: "d < 10 \<Longrightarrow> code (digit_char d) = 48 + d"
  by (simp add: code_def)

lemma is_digit_digit_char: "d < 10 \<Longrightarrow> is_digit (digit_char d)"
  using code_digit [of d] by (simp add: is_digit_def)

lemma nat_text_digits: "list_all is_digit (nat_text n) \<and> nat_text n \<noteq> [] \<and> digits_value (nat_text n) = n \<and>
    (0 < n \<longrightarrow> code (hd (nat_text n)) \<noteq> 48)"
proof (induction n rule: nat_text.induct)
  case (1 n)
  show ?case
  proof (cases "n < 10")
    case True
    then show ?thesis using code_digit [of n] is_digit_digit_char [of n]
      by (subst nat_text.simps, subst (2) nat_text.simps, subst (3) nat_text.simps, subst (4) nat_text.simps)
        (simp add: digits_value_def)
  next
    case False
    then have e: "nat_text n = nat_text (n div 10) @ [digit_char (n mod 10)]" by (subst nat_text.simps) simp
    have "digits_value (nat_text n) = 10 * (n div 10) + n mod 10"
      using "1.IH" [OF False] code_digit [of "n mod 10"] unfolding e by (simp add: digits_value_def)
    with "1.IH" [OF False] False is_digit_digit_char [of "n mod 10"] show ?thesis unfolding e by auto
  qed
qed

lemma nat_text_length: "0 < k \<Longrightarrow> length (nat_text n) \<le> k \<longleftrightarrow> n < 10 ^ k"
proof (induction n arbitrary: k rule: nat_text.induct)
  case (1 n)
  show ?case
  proof (cases "n < 10")
    case True
    have "(10::nat) ^ 1 \<le> 10 ^ k" using 1(2) by (intro power_increasing) auto
    with True 1(2) show ?thesis by (subst nat_text.simps) auto
  next
    case False
    then have l: "length (nat_text n) = length (nat_text (n div 10)) + 1" by (subst nat_text.simps) simp
    show ?thesis
    proof (cases "k = 1")
      case True
      then show ?thesis using l False nat_text_digits [of "n div 10"] by (auto simp: Suc_le_eq)
    next
      case k: False
      with 1(2) obtain j where j: "k = Suc j" "0 < j" by (cases k) auto
      have "length (nat_text n) \<le> k \<longleftrightarrow> n div 10 < 10 ^ j" using l j 1(1) [OF False j(2)] by simp
      also have "\<dots> \<longleftrightarrow> n < 10 ^ k" using j by (simp add: div_less_iff_less_mult mult.commute)
      finally show ?thesis .
    qed
  qed
qed

definition delimited :: "string \<Rightarrow> bool" where
  "delimited r \<longleftrightarrow> r = [] \<or> hd r = CHR '','' \<or> hd r = CHR '']'' \<or> hd r = CHR ''}'' \<or> hd r = CHR 0x0A"

lemma delimited_not_number:
  "delimited r \<Longrightarrow> takeWhile is_digit r = [] \<and> dropWhile is_digit r = r \<and> number_frac r = ([], r) \<and> number_exp r = (None, r)"
  by (cases r) (auto simp: delimited_def number_frac_def number_exp_def is_digit_def code_def)

lemma char_zero: "char_of (48::nat) = CHR ''0''"
  using char_of_code [of "CHR ''0''"] by (simp add: code_def)

lemma number_int_text:
  assumes "delimited r"
  shows "number_int (nat_text n @ r) = Some (nat_text n, r)"
proof (cases "n = 0")
  case True
  then have "nat_text n = ''0''" by (subst nat_text.simps) (simp add: char_zero)
  then show ?thesis by (simp add: number_int_def)
next
  case False
  obtain c t where c: "nat_text n = c # t" using nat_text_digits [of n] by (cases "nat_text n") auto
  with nat_text_digits [of n] False have "is_digit c" "c \<noteq> CHR ''0''" "\<forall>x \<in> set (c # t). is_digit x"
    by (auto simp: list_all_iff code_def)
  moreover have "takeWhile is_digit ((c # t) @ r) = (c # t) @ takeWhile is_digit r"
    "dropWhile is_digit ((c # t) @ r) = dropWhile is_digit r"
    using \<open>\<forall>x \<in> set (c # t). is_digit x\<close> by (auto simp: takeWhile_append2 dropWhile_append2)
  ultimately show ?thesis using delimited_not_number [OF assms] c by (simp add: number_int_def)
qed

lemma parse_int_text:
  assumes "delimited r" "length (nat_text (nat \<bar>n\<bar>)) \<le> MAX_INT_DIGITS"
  shows "parse_number (int_text n @ r) = Some (JInt n, r)"
proof -
  have "hd (nat_text m) \<noteq> CHR ''-''" for m
    using nat_text_digits [of m] by (cases "nat_text m") (auto simp: is_digit_def code_def)
  then have "\<not> startswith (nat_text m @ r) ''-''" for m
    using nat_text_digits [of m] by (cases "nat_text m") (force, metis list.sel(1) append_Cons list.inject startswith_Cons)
  with assms delimited_not_number [OF assms(1)] number_int_text [OF assms(1)] nat_text_digits show ?thesis
    by (cases "n < 0") (simp_all add: parse_number_def int_text_def Let_def del: startswith_Cons, simp_all)
qed

text \<open>
  What the reader takes as a number does not depend on the delimiter that follows. A float is printed as
  Python documents it when reading its text gives the same float; \<open>json_ok\<close> collects what a value needs to be
  read back: distinct keys, integers within the interpreter's limit on digits, floats printed that way.
\<close>

definition float_literal :: "(rat \<Rightarrow> string) \<Rightarrow> rat \<Rightarrow> bool" where
  "float_literal fr x \<longleftrightarrow> parse_number (fr x) = Some (JFloat (Finite x), [])"

fun json_ok :: "(rat \<Rightarrow> string) \<Rightarrow> json \<Rightarrow> bool" where
  "json_ok fr (JInt n) = (length (nat_text (nat \<bar>n\<bar>)) \<le> MAX_INT_DIGITS)"
| "json_ok fr (JFloat (Finite x)) = float_literal fr x"
| "json_ok fr (JArr vs) = (\<forall>v \<in> set vs. json_ok fr v)"
| "json_ok fr (JObj kvs) = (distinct (map fst kvs) \<and> (\<forall>(k, v) \<in> set kvs. json_ok fr v))"
| "json_ok fr _ = True"

lemma takeWhile_delimited:
  "delimited r \<Longrightarrow> takeWhile is_digit (s @ r) = takeWhile is_digit s"
  "delimited r \<Longrightarrow> dropWhile is_digit (s @ r) = dropWhile is_digit s @ r"
  using delimited_not_number [of r] by (induction s) auto

lemma number_int_delimited:
  "delimited r \<Longrightarrow> number_int s = Some (d, t) \<Longrightarrow> number_int (s @ r) = Some (d, t @ r)"
  using takeWhile_delimited [of r s] by (cases s) (auto simp: number_int_def split: if_splits)

lemma number_frac_delimited:
  "delimited r \<Longrightarrow> number_frac s = (f, t) \<Longrightarrow> number_frac (s @ r) = (f, t @ r)"
  using takeWhile_delimited [of r "tl s"] delimited_not_number [of r]
  by (cases s) (auto simp: number_frac_def split: if_splits)

lemma number_exp_delimited:
  assumes "delimited r" "number_exp s = (e, t)"
  shows "number_exp (s @ r) = (e, t @ r)"
proof (cases s)
  case Nil
  with assms delimited_not_number [of r] show ?thesis by (auto simp: number_exp_def)
next
  case (Cons c u)
  show ?thesis
  proof (cases u)
    case Nil
    with Cons assms show ?thesis
      by (cases r) (auto simp: number_exp_def Let_def delimited_def is_digit_def code_def split: if_splits)
  next
    case u: (Cons x w)
    show ?thesis using assms takeWhile_delimited [OF assms(1), of u] takeWhile_delimited [OF assms(1), of w]
      unfolding Cons u by (auto simp: number_exp_def Let_def split: if_splits)
  qed
qed

lemma parse_number_delimited:
  assumes "delimited r" "parse_number s = Some (v, [])"
  shows "parse_number (s @ r) = Some (v, r)"
proof -
  define s0 where "s0 = (if startswith s ''-'' then tl s else s)"
  obtain ds s1 where i: "number_int s0 = Some (ds, s1)"
    using assms(2) by (auto simp: parse_number_def s0_def Let_def split: option.splits if_splits)
  obtain fs s2 where f: "number_frac s1 = (fs, s2)" by force
  obtain ex s3 where e: "number_exp s2 = (ex, s3)" by force
  have s: "s \<noteq> []" using i by (auto simp: s0_def number_int_def split: if_splits)
  have neg: "startswith (s @ r) ''-'' = startswith s ''-''" and tl: "tl (s @ r) = tl s @ r"
    using s by (cases s; simp)+
  have "number_int (s0 @ r) = Some (ds, s1 @ r)" "number_frac (s1 @ r) = (fs, s2 @ r)" "number_exp (s2 @ r) = (ex, s3 @ r)"
    using i f e assms(1) by (auto intro: number_int_delimited number_frac_delimited number_exp_delimited)
  with assms(2) i f e show ?thesis
    by (cases "startswith s ''-''") (simp_all add: parse_number_def s0_def neg tl Let_def del: startswith_Cons split: if_splits, auto)
qed

text \<open>Every printed value starts with a character that is neither white space nor a closing bracket.\<close>

definition value_head :: "char \<Rightarrow> bool" where
  "value_head c \<longleftrightarrow> \<not> json_space c \<and> c \<notin> {CHR '']'', CHR ''}'', CHR '','', CHR '':''}"

lemma parse_number_head:
  "parse_number s = Some r \<Longrightarrow> \<exists>c t. s = c # t \<and> (is_digit c \<or> c = CHR ''-'')"
  by (cases s) (auto simp: parse_number_def number_int_def is_digit_def code_def Let_def split: if_splits option.splits)

lemma digit_char_cases: "is_digit c \<Longrightarrow> c \<noteq> CHR 0x22 \<and> c \<noteq> CHR ''{'' \<and> c \<noteq> CHR ''['' \<and> c \<noteq> CHR ''n'' \<and>
    c \<noteq> CHR ''t'' \<and> c \<noteq> CHR ''f'' \<and> c \<noteq> CHR ''-'' \<and> value_head c"
proof -
  assume d: "is_digit c"
  have n: "c \<noteq> x" if "\<not> is_digit x" for x using d that by blast
  have "\<not> is_digit CHR 0x22" "\<not> is_digit CHR ''{''" "\<not> is_digit CHR ''[''" "\<not> is_digit CHR ''n''"
    "\<not> is_digit CHR ''t''" "\<not> is_digit CHR ''f''" "\<not> is_digit CHR ''-''" "\<not> is_digit CHR '']''"
    "\<not> is_digit CHR ''}''" "\<not> is_digit CHR '',''" "\<not> is_digit CHR '':''" "\<not> is_digit CHR '' ''"
    "\<not> is_digit CHR 0x09" "\<not> is_digit CHR 0x0A" "\<not> is_digit CHR 0x0D"
    by (simp_all add: is_digit_def code_def)
  from this [THEN n] show ?thesis by (simp add: value_head_def json_space_def)
qed

lemma parse_value_number:
  assumes "parse_number s = Some r"
  shows "parse_value rj (Suc n) s = Some r"
proof -
  obtain c t where "s = c # t" "is_digit c \<or> c = CHR ''-''" using parse_number_head [OF assms] by blast
  then have "c \<noteq> CHR 0x22" "c \<noteq> CHR ''{''" "c \<noteq> CHR ''[''" "c \<noteq> CHR ''n''" "c \<noteq> CHR ''t''" "c \<noteq> CHR ''f''"
    using digit_char_cases [of c] by (elim disjE; simp)+
  with \<open>s = c # t\<close> have "\<not> startswith s [CHR 0x22]" "\<not> startswith s ''{''" "\<not> startswith s ''[''"
    "\<not> startswith s ''null''" "\<not> startswith s ''true''" "\<not> startswith s ''false''" by simp_all
  with assms show ?thesis by (simp del: startswith_Cons)
qed

lemma int_text_number: "length (nat_text (nat \<bar>n\<bar>)) \<le> MAX_INT_DIGITS \<Longrightarrow> parse_number (int_text n) = Some (JInt n, [])"
  using parse_int_text [of "[]" n] by (simp add: delimited_def)

lemma minus_head: "value_head CHR ''-''"
  by (simp add: value_head_def json_space_def)

lemma number_head: "parse_number s = Some r \<Longrightarrow> \<exists>c t. s = c # t \<and> value_head c"
  by (metis parse_number_head digit_char_cases minus_head)

lemma skip_ws_head: "value_head c \<Longrightarrow> skip_ws (c # t) = c # t"
  by (simp add: value_head_def skip_ws_def)

lemma skip_ws_simps [simp]:
  "skip_ws [] = []" "skip_ws (CHR '','' # t) = CHR '','' # t" "skip_ws (CHR '']'' # t) = CHR '']'' # t"
  "skip_ws (CHR ''}'' # t) = CHR ''}'' # t" "skip_ws (CHR '':'' # t) = CHR '':'' # t"
  "skip_ws (CHR 0x22 # t) = CHR 0x22 # t"
  by (simp_all add: skip_ws_def json_space_def)

lemma update_distinct: "k \<notin> fst ` set d \<Longrightarrow> AList.update k v d = d @ [(k, v)]"
  by (induction d) auto

lemma object_of_distinct: "distinct (map fst ps) \<Longrightarrow> object_of rj ps = Some (JObj ps)"
proof -
  have "distinct (map fst (d @ ps)) \<Longrightarrow> foldl (\<lambda>d (k, v). AList.update k v d) d ps = d @ ps" for d
  proof (induction ps arbitrary: d)
    case (Cons p ps)
    obtain k v where "p = (k, v)" by force
    with Cons.prems have "AList.update k v d = d @ [p]" by (auto intro: update_distinct)
    with Cons.IH [of "d @ [p]"] Cons.prems \<open>p = (k, v)\<close> show ?case by simp
  qed simp
  from this [of "[]"] show "distinct (map fst ps) \<Longrightarrow> ?thesis" by (simp add: object_of_def)
qed

lemma delimited_Cons [simp]:
  "delimited (CHR '','' # r)" "delimited (CHR '']'' # r)" "delimited (CHR ''}'' # r)" "delimited (CHR 0x0A # r)" "delimited []"
  by (simp_all add: delimited_def)

text \<open>One element, or one pair, is read back in front of any delimiter; then so is a whole list of them.\<close>

definition reads_back :: "(char \<Rightarrow> string) \<Rightarrow> (rat \<Rightarrow> string) \<Rightarrow> bool \<Rightarrow> json \<Rightarrow> bool" where
  "reads_back esc fr rj v \<longleftrightarrow>
     (\<forall>n r. delimited r \<longrightarrow> 2 * length (dumps_with esc fr v @ r) < n \<longrightarrow> parse_value rj n (dumps_with esc fr v @ r) = Some (v, r))"

lemma reads_backD:
  "reads_back esc fr rj v \<Longrightarrow> delimited r \<Longrightarrow> 2 * length (dumps_with esc fr v @ r) < n \<Longrightarrow> parse_value rj n (dumps_with esc fr v @ r) = Some (v, r)"
  unfolding reads_back_def by blast

lemma newline_space: "json_space CHR 0x0A"
  by code_simp

context escaping
begin

lemma scan_json_string: "scan_string (concat (map esc s) @ CHR 0x22 # r) = Some (s, r)"
  by (induction s) (simp_all add: scan_esc)

lemma dumps_head: "json_ok fr v \<Longrightarrow> \<exists>c t. dumps_with esc fr v = c # t \<and> value_head c"
proof (induction fr v rule: json_ok.induct)
  case (1 fr n)
  then show ?case using number_head [OF int_text_number [of n]] by simp
next
  case (2 fr x)
  then show ?case using number_head [of "fr x"] by (simp add: float_literal_def)
qed (auto simp: json_string_with_def value_head_def json_space_def)

lemma skip_ws_dumps: "json_ok fr v \<Longrightarrow> skip_ws (dumps_with esc fr v @ t) = dumps_with esc fr v @ t"
  using dumps_head [of fr v] skip_ws_head by fastforce

lemma dumps_not_closing:
  "json_ok fr v \<Longrightarrow> \<not> startswith (dumps_with esc fr v @ t) '']''" "json_ok fr v \<Longrightarrow> \<not> startswith (dumps_with esc fr v @ t) ''}''"
  using dumps_head [of fr v] by (auto simp: value_head_def)


lemma parse_elems_dumps:
  assumes "vs \<noteq> []" "\<forall>v \<in> set vs. json_ok fr v \<and> reads_back esc fr rj v"
    "2 * length (join '','' (map (dumps_with esc fr) vs) @ CHR '']'' # r) + 1 < n"
  shows "parse_elems rj n (join '','' (map (dumps_with esc fr) vs) @ CHR '']'' # r) = Some (vs, r)"
  using assms
proof (induction vs arbitrary: n)
  case (Cons v vs)
  then obtain m where m: "n = Suc m" by (cases n) auto
  show ?case
  proof (cases vs)
    case Nil
    with Cons.prems m reads_backD [of esc fr rj v "CHR '']'' # r" m] show ?thesis by simp
  next
    case (Cons w ws)
    let ?rest = "join '','' (map (dumps_with esc fr) vs) @ CHR '']'' # r"
    have j: "join '','' (map (dumps_with esc fr) (v # vs)) @ CHR '']'' # r = dumps_with esc fr v @ CHR '','' # ?rest"
      using Cons by simp
    have "skip_ws ?rest = ?rest"
      using Cons Cons.prems(2) skip_ws_dumps [of fr w] by (cases ws) simp_all
    moreover have "parse_value rj m (dumps_with esc fr v @ CHR '','' # ?rest) = Some (v, CHR '','' # ?rest)"
      using Cons.prems m unfolding j by (intro reads_backD) auto
    moreover have "parse_elems rj m ?rest = Some (vs, r)"
      using Cons Cons.prems m unfolding j by (intro Cons.IH) auto
    ultimately show ?thesis unfolding j m by simp
  qed
qed simp

lemma parse_members_dumps:
  assumes "ps \<noteq> []" "\<forall>(k, v) \<in> set ps. json_ok fr v \<and> reads_back esc fr rj v"
    "2 * length (join '','' (map (\<lambda>(k, v). json_string_with esc k @ '':'' @ dumps_with esc fr v) ps) @ CHR ''}'' # r) + 1 < n"
  shows "parse_members rj n (join '','' (map (\<lambda>(k, v). json_string_with esc k @ '':'' @ dumps_with esc fr v) ps) @ CHR ''}'' # r)
    = Some (ps, r)"
  using assms
proof (induction ps arbitrary: n)
  case (Cons p ps)
  obtain k v where p: "p = (k, v)" by force
  from Cons obtain m where m: "n = Suc m" by (cases n) auto
  let ?text = "\<lambda>ps. join '','' (map (\<lambda>(k, v). json_string_with esc k @ '':'' @ dumps_with esc fr v) ps) @ CHR ''}'' # r"
  have ok: "json_ok fr v" "reads_back esc fr rj v" using Cons.prems(2) p by auto
  show ?case
  proof (cases ps)
    case Nil
    have "parse_value rj m (dumps_with esc fr v @ CHR ''}'' # r) = Some (v, CHR ''}'' # r)"
      using Cons.prems Nil m p ok by (intro reads_backD) (auto simp: json_string_with_def)
    with Nil m p ok show ?thesis by (simp add: json_string_with_def scan_json_string skip_ws_dumps)
  next
    case (Cons q qs)
    have j: "?text (p # ps) = CHR 0x22 # concat (map esc k) @ CHR 0x22 # CHR '':'' # dumps_with esc fr v @ CHR '','' # ?text ps"
      using Cons p by (simp add: json_string_with_def)
    have "parse_value rj m (dumps_with esc fr v @ CHR '','' # ?text ps) = Some (v, CHR '','' # ?text ps)"
      using Cons.prems(3) m ok unfolding j by (intro reads_backD) auto
    moreover have "skip_ws (?text ps) = ?text ps"
      using Cons by (cases q; cases qs) (simp_all add: json_string_with_def)
    moreover have "parse_members rj m (?text ps) = Some (ps, r)"
      using Cons Cons.prems m unfolding j by (intro Cons.IH) auto
    ultimately show ?thesis unfolding j m using ok p by (simp add: scan_json_string skip_ws_dumps)
  qed
qed simp

lemma reads_back_number:
  assumes "parse_number (dumps_with esc fr v) = Some (v, [])"
  shows "reads_back esc fr rj v"
  unfolding reads_back_def
proof (intro allI impI)
  fix n r assume "delimited r" "2 * length (dumps_with esc fr v @ r) < n"
  then show "parse_value rj n (dumps_with esc fr v @ r) = Some (v, r)"
    using parse_value_number [OF parse_number_delimited [OF _ assms]] by (cases n) auto
qed


lemma reads_back_literal:
  assumes "\<And>n r. parse_value rj (Suc n) (dumps_with esc fr v @ r) = Some (v, r)"
  shows "reads_back esc fr rj v"
  unfolding reads_back_def
proof (intro allI impI)
  fix n r assume "2 * length (dumps_with esc fr v @ r) < n"
  with assms show "parse_value rj n (dumps_with esc fr v @ r) = Some (v, r)" by (cases n) auto
qed

lemma reads_back_array:
  assumes "\<forall>v \<in> set vs. json_ok fr v \<and> reads_back esc fr rj v"
  shows "reads_back esc fr rj (JArr vs)"
  unfolding reads_back_def
proof (intro allI impI)
  fix n r assume n: "2 * length (dumps_with esc fr (JArr vs) @ r) < n"
  then obtain m where m: "n = Suc m" by (cases n) auto
  show "parse_value rj n (dumps_with esc fr (JArr vs) @ r) = Some (JArr vs, r)"
  proof (cases vs)
    case Nil
    then show ?thesis by (simp add: m)
  next
    case (Cons v ws)
    let ?u = "join '','' (map (dumps_with esc fr) vs) @ CHR '']'' # r"
    have "?u = dumps_with esc fr v @ (case ws of [] \<Rightarrow> [] | _ \<Rightarrow> CHR '','' # join '','' (map (dumps_with esc fr) ws)) @ CHR '']'' # r"
      using Cons by (cases ws) simp_all
    then have "skip_ws ?u = ?u" "\<not> startswith ?u '']''"
      using assms Cons skip_ws_dumps [of fr v] dumps_not_closing(1) [of fr v] by auto
    moreover have "parse_elems rj m ?u = Some (vs, r)"
      using assms Cons n m by (intro parse_elems_dumps) auto
    ultimately show ?thesis by (simp add: m)
  qed
qed

lemma reads_back_object:
  assumes "\<forall>(k, v) \<in> set ps. json_ok fr v \<and> reads_back esc fr rj v" "distinct (map fst ps)"
  shows "reads_back esc fr rj (JObj ps)"
  unfolding reads_back_def
proof (intro allI impI)
  fix n r assume n: "2 * length (dumps_with esc fr (JObj ps) @ r) < n"
  then obtain m where m: "n = Suc m" by (cases n) auto
  show "parse_value rj n (dumps_with esc fr (JObj ps) @ r) = Some (JObj ps, r)"
  proof (cases ps)
    case Nil
    then show ?thesis by (simp add: m)
  next
    case (Cons p qs)
    let ?u = "join '','' (map (\<lambda>(k, v). json_string_with esc k @ '':'' @ dumps_with esc fr v) ps) @ CHR ''}'' # r"
    obtain w where u: "?u = CHR 0x22 # w" using Cons by (cases p; cases qs) (simp_all add: json_string_with_def)
    then have "skip_ws ?u = ?u" "\<not> startswith ?u ''}''" by simp_all
    moreover have "parse_members rj m ?u = Some (ps, r)"
      using assms Cons n m by (intro parse_members_dumps) auto
    ultimately show ?thesis using assms(2) by (simp add: m object_of_distinct)
  qed
qed

lemma dumps_reads_back: "json_ok fr v \<Longrightarrow> reads_back esc fr rj v"
proof (induction fr v rule: json_ok.induct)
  case (1 fr n)
  then show ?case by (intro reads_back_number) (simp add: int_text_number)
next
  case (2 fr x)
  then show ?case by (intro reads_back_number) (simp add: float_literal_def)
next
  case (3 fr vs)
  then show ?case by (intro reads_back_array) auto
next
  case (4 fr kvs)
  then show ?case by (intro reads_back_object) fastforce+
qed (rule reads_back_literal, simp add: json_string_with_def scan_json_string parse_number_def number_int_def is_digit_def code_def)+

lemma loads_dumps: "json_ok fr v \<Longrightarrow> loads rj (dumps_with esc fr v) = Inr v"
  using reads_backD [OF dumps_reads_back [of fr v rj], of "[]" "2 * length (dumps_with esc fr v) + 3"] skip_ws_dumps [of fr v "[]"]
  by (simp add: loads_def)

lemma loads_dumps_newline:
  assumes "json_ok fr v"
  shows "loads rj (dumps_with esc fr v @ [CHR 0x0A]) = Inr v"
proof -
  let ?t = "dumps_with esc fr v @ [CHR 0x0A]"
  have "parse_value rj (2 * length ?t + 3) ?t = Some (v, [CHR 0x0A])"
    using dumps_reads_back [OF assms] by (rule reads_backD) simp_all
  moreover have "skip_ws ?t = ?t" "skip_ws [CHR 0x0A] = []"
    using skip_ws_dumps [OF assms] newline_space by (simp_all add: skip_ws_def)
  ultimately show ?thesis by (simp add: loads_def)
qed

end

interpretation plain_text: escaping escape_char
  by unfold_locales (rule scan_escaped)

interpretation ascii_text: escaping ascii_escape
  by unfold_locales (rule scan_ascii)

lemmas loads_dumps = plain_text.loads_dumps

section \<open>UTF-8\<close>

lemma code_char_of: "n < 256 \<Longrightarrow> code (char_of n) = n"
  by (simp add: code_def)

lemma utf8_decode_encode: "utf8_decode (utf8_encode s) = Some s"
proof (induction s)
  case (Cons c s)
  show ?case
  proof (cases "code c < 128")
    case True
    with Cons show ?thesis by (simp add: utf8_encode_def)
  next
    case False
    have "code c < 256" by (rule code_less)
    define h where "h = char_of (192 + code c div 64)"
    define l where "l = char_of (128 + code c mod 64)"
    have "code c div 64 < 4" "code c mod 64 < 64"
      using \<open>code c < 256\<close> less_mult_imp_div_less [of "code c" 4 64] by auto
    then have "192 + code c div 64 < 256" "128 + code c mod 64 < 256" by linarith+
    then have h: "code h = 192 + code c div 64" and l: "code l = 128 + code c mod 64"
      unfolding h_def l_def using code_char_of by blast+
    have "code c div 64 = 2 \<or> code c div 64 = 3" 
      using False \<open>code c < 256\<close> div_le_mono [of 128 "code c" 64] less_mult_imp_div_less [of "code c" 4 64] by auto
    then have "code h = 194 \<or> code h = 195" using h by auto
    moreover have "char_of ((code h - 192) * 64 + (code l - 128)) = c" unfolding h l by simp
    moreover have "utf8_encode (c # s) = h # l # utf8_encode s"
      using False by (simp add: utf8_encode_def h_def l_def)
    ultimately show ?thesis using Cons l by auto
  qed
qed (simp add: utf8_encode_def)

end
