(* ===== verification/Persist.thy ===== *)
theory Persist
  imports Model Json_Text "HOL-Library.Multiset"
begin

text \<open>
  The bytes of a state file: \<^verbatim>\<open>json.dumps\<close> with sorted keys and compact separators, encoded in UTF-8, and
  \<^verbatim>\<open>json.loads\<close> of bytes. The persisted records come back from their bytes; the decoders do not depend on the order
  of keys. A file in UTF-16 or UTF-32, which \<^verbatim>\<open>json.loads\<close> detects by its null bytes, is refused here.
\<close>

section \<open>Encoding and reading bytes\<close>

text \<open>Printing an integer beyond the interpreter's limit on digits raises.\<close>

fun ints_printable :: "json \<Rightarrow> bool" where
  "ints_printable (JInt n) = (length (nat_text (nat \<bar>n\<bar>)) \<le> MAX_INT_DIGITS)"
| "ints_printable (JArr vs) = (\<forall>v \<in> set vs. ints_printable v)"
| "ints_printable (JObj kvs) = (\<forall>(k, v) \<in> set kvs. ints_printable v)"
| "ints_printable _ = True"

definition encode_state :: "(rat \<Rightarrow> string) \<Rightarrow> json \<Rightarrow> string result" where
  "encode_state fr v =
     (if ints_printable v then Inr (utf8_encode (dumps fr (sort_keys v)))
      else Inl (ValueError ''Exceeds the limit (4300 digits) for integer string conversion''))"

definition loads_bytes :: "string \<Rightarrow> json result" where
  "loads_bytes b =
     (case utf8_decode b of
        None \<Rightarrow> Inl (ValueError ''invalid utf-8'')
      | Some t \<Rightarrow> loads False t)"

section \<open>Sorting keys\<close>

definition sort_dict :: "dict \<Rightarrow> dict" where
  "sort_dict d = sort_key fst (map (\<lambda>(k, v). (k, sort_keys v)) d)"

lemma sort_keys_JObj [simp]: "sort_keys (JObj d) = JObj (sort_dict d)"
  by (simp add: sort_dict_def)

declare sort_keys.simps(2) [simp del]

lemma map_fst_sorted: "map fst (map (\<lambda>(k, v). (k, sort_keys v)) d) = map fst d"
  by (simp add: case_prod_unfold comp_def)

lemma fst_sort_dict [simp]: "fst ` set (sort_dict d) = fst ` set d"
  by (simp add: sort_dict_def image_image case_prod_unfold)

lemma set_keys_sort_dict [simp]: "set (dict_keys (sort_dict d)) = set (dict_keys d)"
  by (simp add: dict_keys_def)

lemma distinct_sort_dict: "distinct (map fst d) \<Longrightarrow> distinct (map fst (sort_dict d))"
proof -
  assume "distinct (map fst d)"
  then have "distinct (map fst (map (\<lambda>(k, v). (k, sort_keys v)) d))" by (simp only: map_fst_sorted)
  moreover have "mset (map fst (sort_dict d)) = mset (map fst (map (\<lambda>(k, v). (k, sort_keys v)) d))"
    by (simp only: sort_dict_def mset_map mset_sort)
  ultimately show ?thesis by (metis mset_eq_imp_distinct_iff)
qed

lemma map_of_sort_dict [simp]:
  "distinct (map fst d) \<Longrightarrow> map_of (sort_dict d) k = map_option sort_keys (map_of d k)"
proof -
  assume d: "distinct (map fst d)"
  let ?m = "map (\<lambda>(k, v). (k, sort_keys v)) d"
  have "distinct (map fst ?m)" using d by (simp only: map_fst_sorted)
  moreover have "set (sort_dict d) = set ?m" by (simp add: sort_dict_def)
  ultimately have "map_of (sort_dict d) = map_of ?m"
    using distinct_sort_dict [OF d] map_of_inject_set [of "sort_dict d" ?m] by blast
  then show ?thesis by (simp add: map_of_map)
qed

lemma json_ok_sort_keys: "json_ok fr v \<Longrightarrow> json_ok fr (sort_keys v)"
proof (induction fr v rule: json_ok.induct)
  case (4 fr kvs)
  then have "json_ok fr w" if "(k, w) \<in> set (sort_dict kvs)" for k w
    using that by (fastforce simp: sort_dict_def)
  with 4 show ?case by (auto intro: distinct_sort_dict)
qed auto

lemma encode_state_Inr:
  "encode_state fr v = Inr b \<longleftrightarrow> ints_printable v \<and> b = utf8_encode (dumps fr (sort_keys v))"
  by (auto simp: encode_state_def)

lemma loads_encode_state: "encode_state fr v = Inr b \<Longrightarrow> json_ok fr v \<Longrightarrow> loads_bytes b = Inr (sort_keys v)"
  by (auto simp: encode_state_Inr loads_bytes_def utf8_decode_encode json_ok_sort_keys loads_dumps)

section \<open>The persisted records survive the sorting\<close>

lemma sort_keys_leaf [simp]:
  "sort_keys (json_option JStr x) = json_option JStr x"
  "sort_keys (json_option (\<lambda>t. JStr (f t)) y) = json_option (\<lambda>t. JStr (f t)) y"
  by (cases x; simp add: json_option_def) (cases y; simp add: json_option_def)

lemma sort_keys_option: "sort_keys (json_option f x) = json_option (\<lambda>a. sort_keys (f a)) x"
  by (cases x) (simp_all add: json_option_def)

interpretation sorted_identity: dict_codec "\<lambda>p. sort_keys (identity_to_dict p)" identity_from_dict wf_identity
proof
  show "identity_from_dict (sort_keys (identity_to_dict x)) = Inr x" if "wf_identity x" for x
    using that by (simp add: identity_from_dict_def identity_to_dict_def decode_simps dict_keys_def)
      (simp add: wf_identity_def)
qed (auto simp: identity_to_dict_def dest: identity_codec.dec_wf)

interpretation sorted_command: dict_codec "\<lambda>c. sort_keys (command_to_dict c)" command_from_dict wf_command
proof
  show "command_from_dict (sort_keys (command_to_dict x)) = Inr x" if "wf_command x" for x
  proof -
    have "nullable (\<lambda>v. as_bounded_string v ''executable'' MAX_COMMAND_CHARS)
        (json_option JStr (executable x)) = Inr (executable x)"
      using that by (intro nullable_string_dec_enc) (simp add: wf_command_def)
    with that show ?thesis
      by (simp add: command_from_dict_def command_to_dict_def decode_simps dict_keys_def
          disposition_enum.str_enum_axioms disposition_enum.val_short MAX_ID_CHARS_def)
         (simp add: wf_command_def)
  qed
qed (auto simp: command_to_dict_def dest: command_codec.dec_wf)

interpretation sorted_shell: dict_codec "\<lambda>s. sort_keys (shell_to_dict s)" shell_from_dict wf_shell
proof
  show "shell_from_dict (sort_keys (shell_to_dict x)) = Inr x" if "wf_shell x" for x
    using that
    by (simp add: shell_from_dict_def shell_to_dict_def decode_simps dict_keys_def ShellRecord_init_def
        sort_keys_option sorted_identity.dec_enc sorted_command.nullable_dec_enc nullable_enum_dec_enc
        termination_enum.str_enum_axioms wf_shell_def)
qed (auto simp: shell_to_dict_def dest: shell_codec.dec_wf)

interpretation sorted_outcome: dict_codec "\<lambda>p. sort_keys (outcome_to_dict p)" outcome_from_dict wf_outcome
proof
  show "outcome_from_dict (sort_keys (outcome_to_dict x)) = Inr x" if "wf_outcome x" for x
    using that
    by (simp add: outcome_from_dict_def outcome_to_dict_def decode_simps dict_keys_def
        outcome_enum.str_enum_axioms) (simp add: wf_outcome_def)
qed (auto simp: outcome_to_dict_def dest: outcome_codec.dec_wf)

interpretation sorted_attempt: dict_codec "\<lambda>a. sort_keys (attempt_to_dict a)" attempt_from_dict wf_attempt
proof
  show "attempt_from_dict (sort_keys (attempt_to_dict x)) = Inr x" if "wf_attempt x" for x
  proof -
    have "RestoreAttempt_check x = Inr x"
      using that by (subst RestoreAttempt_check_Inr) (auto simp: wf_attempt_def)
    with that show ?thesis
      by (simp add: attempt_from_dict_def attempt_to_dict_def decode_simps dict_keys_def comp_def
          RestoreAttempt_init_def strings_dec_enc sorted_outcome.traverse_dec_enc wf_attempt_def)
  qed
qed (auto simp: attempt_to_dict_def dest: attempt_codec.dec_wf)

interpretation sorted_item: dict_codec "\<lambda>r. sort_keys (recovery_item_to_dict r)" recovery_item_from_dict wf_item
proof
  show "recovery_item_from_dict (sort_keys (recovery_item_to_dict x)) = Inr x" if "wf_item x" for x
    using that
    by (simp add: recovery_item_from_dict_def recovery_item_to_dict_def decode_simps dict_keys_def
        RecoveryItemRecord_init_def sorted_shell.dec_enc wf_item_def)
qed (auto simp: recovery_item_to_dict_def dest: item_codec.dec_wf)

lemma snapshot_sorted:
  assumes "wf_snapshot s" and "snapshot_to_dict s = Inr v"
  shows "snapshot_from_dict (sort_keys v) = Inr s"
proof -
  have "Snapshot_check s = Inr s"
    using assms(1) by (subst Snapshot_check_Inr) (auto simp: wf_snapshot_def)
  with assms show ?thesis
    by (auto simp: snapshot_from_dict_def snapshot_to_dict_def decode_simps dict_keys_def comp_def
        read_schema_version_def dict_get_def Snapshot_init_def sorted_shell.traverse_dec_enc wf_snapshot_def)
qed

lemma recovery_sorted:
  assumes "wf_recovery r" and "recovery_to_dict r = Inr v"
  shows "recovery_from_dict (sort_keys v) = Inr r"
proof -
  have "RecoveryRecord_check r = Inr r"
    using assms(1) by (subst RecoveryRecord_check_Inr) (auto simp: wf_recovery_def)
  with assms show ?thesis
    by (auto simp: recovery_from_dict_def recovery_to_dict_def decode_simps dict_keys_def comp_def
        read_schema_version_def dict_get_def RecoveryRecord_init_def strings_dec_enc
        sorted_item.traverse_dec_enc sorted_attempt.traverse_dec_enc wf_recovery_def)
qed


section \<open>What the bytes of a record need to be read back\<close>

lemma json_ok_encoders:
  "json_ok fr (identity_to_dict p) = ints_printable (identity_to_dict p)"
  "json_ok fr (command_to_dict c) = ints_printable (command_to_dict c)"
  "json_ok fr (outcome_to_dict q)" "json_ok fr (attempt_to_dict a)"
  by (auto simp: encoders json_option_def split: option.splits)

lemma json_ok_shell: "json_ok fr (shell_to_dict s) = ints_printable (shell_to_dict s)"
  by (auto simp: shell_to_dict_def json_ok_encoders json_option_def split: option.splits)

lemma json_ok_item: "json_ok fr (recovery_item_to_dict s) = ints_printable (recovery_item_to_dict s)"
  by (auto simp: recovery_item_to_dict_def json_ok_shell)

definition float_printable :: "(rat \<Rightarrow> string) \<Rightarrow> pyfloat \<Rightarrow> bool" where
  "float_printable fr f = json_ok fr (JFloat f)"

lemma json_ok_snapshot:
  "snapshot_to_dict s = Inr v \<Longrightarrow> ints_printable v \<Longrightarrow> float_printable fr (captured_at s) \<Longrightarrow> json_ok fr v"
  by (auto simp: snapshot_to_dict_def json_ok_shell float_printable_def)

lemma json_ok_recovery:
  "recovery_to_dict r = Inr v \<Longrightarrow> ints_printable v \<Longrightarrow> float_printable fr (created_at r) \<Longrightarrow> json_ok fr v"
  by (auto simp: recovery_to_dict_def json_ok_item json_ok_encoders float_printable_def)

text \<open>A snapshot or a recovery record that could be encoded is what its bytes decode to.\<close>

lemma snapshot_bytes:
  assumes "wf_snapshot s" "snapshot_to_dict s = Inr v" "encode_state fr v = Inr b" "float_printable fr (captured_at s)"
  shows "bind_r (loads_bytes b) snapshot_from_dict = Inr s"
proof -
  have "json_ok fr v" using assms by (auto simp: encode_state_Inr intro: json_ok_snapshot)
  with assms show ?thesis by (simp add: loads_encode_state snapshot_sorted)
qed

lemma recovery_bytes:
  assumes "wf_recovery r" "recovery_to_dict r = Inr v" "encode_state fr v = Inr b" "float_printable fr (created_at r)"
  shows "bind_r (loads_bytes b) recovery_from_dict = Inr r"
proof -
  have "json_ok fr v" using assms by (auto simp: encode_state_Inr intro: json_ok_recovery)
  with assms show ?thesis by (simp add: loads_encode_state recovery_sorted)
qed

end
