(* ===== verification/Effect.thy ===== *)
theory Effect
  imports Prelude
begin

text \<open>
  Operations that read and change a state and may raise: functions of the state that return a result and the
  state left behind, also when they raise. \<open>triple P m Q E\<close> says that \<open>m\<close> started in a state with \<open>P\<close> ends in one
  with \<open>Q\<close> when it returns and with \<open>E\<close> when it raises; the rules below follow the structure of an operation.
\<close>

type_synonym ('s, 'a) act = "'s \<Rightarrow> 'a result \<times> 's"

definition ret :: "'a \<Rightarrow> ('s, 'a) act" where
  "ret a = (\<lambda>s. (Inr a, s))"

definition raise_s :: "py_error \<Rightarrow> ('s, 'a) act" where
  "raise_s e = (\<lambda>s. (Inl e, s))"

definition lift_s :: "'a result \<Rightarrow> ('s, 'a) act" where
  "lift_s r = (\<lambda>s. (r, s))"

definition bind_s :: "('s, 'a) act \<Rightarrow> ('a \<Rightarrow> ('s, 'b) act) \<Rightarrow> ('s, 'b) act" where
  "bind_s m f = (\<lambda>s. case m s of (Inl e, t) \<Rightarrow> (Inl e, t) | (Inr a, t) \<Rightarrow> f a t)"

definition gets :: "('s \<Rightarrow> 'a) \<Rightarrow> ('s, 'a) act" where
  "gets f = (\<lambda>s. (Inr (f s), s))"

definition modify :: "('s \<Rightarrow> 's) \<Rightarrow> ('s, unit) act" where
  "modify f = (\<lambda>s. (Inr (), f s))"

definition when_s :: "bool \<Rightarrow> ('s, unit) act \<Rightarrow> ('s, unit) act" where
  "when_s b m = (if b then m else ret ())"

text \<open>\<^verbatim>\<open>try\<close> with a handler for every exception, which may raise again.\<close>

definition catch :: "('s, 'a) act \<Rightarrow> (py_error \<Rightarrow> ('s, 'a) act) \<Rightarrow> ('s, 'a) act" where
  "catch m h = (\<lambda>s. case m s of (Inl e, t) \<Rightarrow> h e t | (Inr a, t) \<Rightarrow> (Inr a, t))"

primrec for_each :: "('a \<Rightarrow> ('s, unit) act) \<Rightarrow> 'a list \<Rightarrow> ('s, unit) act" where
  "for_each f [] = ret ()"
| "for_each f (x # xs) = bind_s (f x) (\<lambda>_. for_each f xs)"

lemma run_simps [simp]:
  "ret a s = (Inr a, s)" "raise_s e s = (Inl e, s)" "lift_s r s = (r, s)" "gets f s = (Inr (f s), s)"
  "modify g s = (Inr (), g s)"
  by (simp_all add: ret_def raise_s_def lift_s_def gets_def modify_def)

lemma when_s_simps [simp]: "when_s True m = m" "when_s False m = ret ()"
  by (simp_all add: when_s_def)

lemma bind_s_run: "bind_s m f s = (case m s of (Inl e, t) \<Rightarrow> (Inl e, t) | (Inr a, t) \<Rightarrow> f a t)"
  by (simp add: bind_s_def)

lemma bind_s_Inr: "bind_s m f s = (Inr b, u) \<longleftrightarrow> (\<exists>a t. m s = (Inr a, t) \<and> f a t = (Inr b, u))"
  by (auto simp: bind_s_def split: prod.splits sum.splits)

lemma bind_s_Inl:
  "bind_s m f s = (Inl e, u) \<longleftrightarrow> m s = (Inl e, u) \<or> (\<exists>a t. m s = (Inr a, t) \<and> f a t = (Inl e, u))"
  by (auto simp: bind_s_def split: prod.splits sum.splits)

lemma bind_s_ret [simp]: "bind_s (ret a) f = f a" "bind_s (raise_s e) f = raise_s e"
  "bind_s (lift_s (Inr a)) f = f a" "bind_s (lift_s (Inl e)) f = raise_s e"
  by (simp_all add: bind_s_def ret_def raise_s_def lift_s_def)

section \<open>Triples\<close>

definition triple ::
  "('s \<Rightarrow> bool) \<Rightarrow> ('s, 'a) act \<Rightarrow> ('a \<Rightarrow> 's \<Rightarrow> bool) \<Rightarrow> (py_error \<Rightarrow> 's \<Rightarrow> bool) \<Rightarrow> bool" where
  "triple P m Q E \<longleftrightarrow> (\<forall>s. P s \<longrightarrow> (case m s of (Inr a, t) \<Rightarrow> Q a t | (Inl e, t) \<Rightarrow> E e t))"

lemma tripleI:
  "(\<And>s a t. P s \<Longrightarrow> m s = (Inr a, t) \<Longrightarrow> Q a t) \<Longrightarrow> (\<And>s e t. P s \<Longrightarrow> m s = (Inl e, t) \<Longrightarrow> E e t) \<Longrightarrow> triple P m Q E"
  by (force simp: triple_def split: prod.splits sum.splits)

lemma triple_InrD: "triple P m Q E \<Longrightarrow> P s \<Longrightarrow> m s = (Inr a, t) \<Longrightarrow> Q a t"
  by (force simp: triple_def)

lemma triple_InlD: "triple P m Q E \<Longrightarrow> P s \<Longrightarrow> m s = (Inl e, t) \<Longrightarrow> E e t"
  by (force simp: triple_def)

lemma triple_bind:
  assumes "triple P m R E" and "\<And>a. triple (R a) (f a) Q E"
  shows "triple P (bind_s m f) Q E"
  using assms by (fastforce simp: triple_def bind_s_def split: prod.splits sum.splits)

lemma triple_for_each:
  assumes "\<And>x. x \<in> set xs \<Longrightarrow> triple I (f x) (\<lambda>_. I) (\<lambda>_. I)"
  shows "triple I (for_each f xs) (\<lambda>_. I) (\<lambda>_. I)"
  using assms
proof (induction xs)
  case Nil
  show ?case by (simp add: triple_def)
next
  case (Cons x xs)
  then show ?case by (auto intro: triple_bind)
qed

text \<open>An invariant that every piece of an operation keeps is kept by the operation, also when it raises.\<close>

abbreviation keeps :: "('s \<Rightarrow> bool) \<Rightarrow> ('s, 'a) act \<Rightarrow> bool" where
  "keeps I m \<equiv> triple I m (\<lambda>_. I) (\<lambda>_. I)"

lemma keepsD: "keeps I m \<Longrightarrow> I s \<Longrightarrow> I (snd (m s))"
  by (cases "m s"; cases "fst (m s)") (auto simp: triple_def)

lemma keepsI: "(\<And>s. I s \<Longrightarrow> I (snd (m s))) \<Longrightarrow> keeps I m"
  by (force simp: triple_def split: prod.splits sum.splits)

lemma keeps_pure [simp, intro]:
  "keeps I (ret a)" "keeps I (raise_s e)" "keeps I (lift_s r)" "keeps I (gets f)"
  by (auto intro: keepsI)

lemma keeps_bind [intro]: "keeps I m \<Longrightarrow> (\<And>a. keeps I (f a)) \<Longrightarrow> keeps I (bind_s m f)"
  by (rule triple_bind)

lemma keeps_when_s [intro]: "(b \<Longrightarrow> keeps I m) \<Longrightarrow> keeps I (when_s b m)"
  by (cases b) auto

lemma keeps_catch [intro]:
  assumes "keeps I m" "\<And>e. keeps I (h e)"
  shows "keeps I (catch m h)"
proof (rule keepsI)
  fix s assume "I s"
  then have "I (snd (m s))" by (rule keepsD [OF assms(1)])
  then show "I (snd (catch m h s))"
    using keepsD [OF assms(2)] by (cases "m s"; cases "fst (m s)") (auto simp: catch_def)
qed

lemma keeps_if [intro]: "(b \<Longrightarrow> keeps I m) \<Longrightarrow> (\<not> b \<Longrightarrow> keeps I n) \<Longrightarrow> keeps I (if b then m else n)"
  by auto

section \<open>A part of the state\<close>

text \<open>\<open>on_part get put m\<close> runs \<open>m\<close> on a part of the state.\<close>

definition on_part :: "('s \<Rightarrow> 't) \<Rightarrow> ('t \<Rightarrow> 's \<Rightarrow> 's) \<Rightarrow> ('t, 'a) act \<Rightarrow> ('s, 'a) act" where
  "on_part get_part put_part m = (\<lambda>s. case m (get_part s) of (r, t) \<Rightarrow> (r, put_part t s))"

lemma on_part_run:
  "on_part g p m s = (r, s') \<longleftrightarrow> (\<exists>t. m (g s) = (r, t) \<and> s' = p t s)"
  by (auto simp: on_part_def split: prod.splits)

text \<open>An operation that leaves a part of the state alone, also when it raises.\<close>

definition frames :: "('s \<Rightarrow> 'b) \<Rightarrow> ('s, 'a) act \<Rightarrow> bool" where
  "frames f m \<longleftrightarrow> (\<forall>s. f (snd (m s)) = f s)"

lemma framesD: "frames f m \<Longrightarrow> f (snd (m s)) = f s"
  by (simp add: frames_def)

lemma frames_InrD: "frames f m \<Longrightarrow> m s = (x, t) \<Longrightarrow> f t = f s"
  by (metis frames_def snd_conv)

lemma frames_pure [intro!]:
  "frames f (ret a)" "frames f (raise_s e)" "frames f (lift_s x)" "frames f (gets g)" "frames f (Pair x)"
  by (auto simp: frames_def)

lemma frames_bind [intro!]: "frames f m \<Longrightarrow> (\<And>a. frames f (k a)) \<Longrightarrow> frames f (bind_s m k)"
  by (auto simp: frames_def bind_s_def split: prod.splits sum.splits) (metis snd_conv)+

lemma frames_catch [intro!]: "frames f m \<Longrightarrow> (\<And>e. frames f (h e)) \<Longrightarrow> frames f (catch m h)"
  by (auto simp: frames_def catch_def split: prod.splits sum.splits) (metis snd_conv)+

lemma frames_if [intro!]: "(b \<Longrightarrow> frames f u) \<Longrightarrow> (\<not> b \<Longrightarrow> frames f v) \<Longrightarrow> frames f (if b then u else v)"
  by simp

lemma frames_when_s [intro!]: "(b \<Longrightarrow> frames f u) \<Longrightarrow> frames f (when_s b u)"
  by (cases b) (auto simp: when_s_def)

lemma frames_modify: "(\<And>s. f (g s) = f s) \<Longrightarrow> frames f (modify g)"
  by (simp add: frames_def)

lemma frames_on_part: "(\<And>t s. f (put_part t s) = f s) \<Longrightarrow> frames f (on_part get_part put_part m)"
  by (simp add: frames_def on_part_def split: prod.splits)

lemma frames_keeps: "frames f m \<Longrightarrow> keeps (\<lambda>s. P (f s)) m"
  by (rule keepsI) (simp add: frames_def)

end
