(* ===== verification/Store.thy ===== *)
theory Store
  imports Persist Effect
begin

text \<open>
  \<^verbatim>\<open>store.py\<close>: checkpoints, the recovery record and its tombstones as files of one private directory. The directory
  is an association list from names to entries; an entry has the attributes \<^verbatim>\<open>fstat\<close> reports. An operation is an
  action on the store that returns or raises and leaves a directory behind. Every change of the directory is also
  appended to \<open>store_trace\<close>, so that the directories a crash can leave are those of the trace.

  The system calls that can fail, the sizes of partial writes, the random name of the temporary file and the clock
  are arguments (\<open>io\<close>); the user, what the kernel lets the user open and \<^verbatim>\<open>float.__repr__\<close> are in \<open>env\<close>.
\<close>

section \<open>The directory\<close>

datatype file_kind = Regular | Symlink | Directory | Special

record entry =
  f_kind :: file_kind
  f_owner :: int
  f_mode :: int
  f_content :: string

type_synonym directory = "(string \<times> entry) list"

datatype fault = Open_Fails | Write_Fails | Fsync_Fails | Replace_Fails | Unlink_Fails | Dir_Fsync_Fails

record io =
  io_token :: string
  io_sizes :: "nat list"
  io_fault :: "fault option"
  io_time :: pyfloat

record env =
  env_uid :: int
  env_may_read :: "entry \<Rightarrow> bool"
  env_repr :: "rat \<Rightarrow> string"

record Store =
  state_dir :: string
  store_files :: directory
  store_trace :: "directory list"
  store_diagnostics :: "(string \<times> py_error) list"
  store_closed :: bool
  transaction_depth :: nat

type_synonym 'a store_act = "(Store, 'a) act"

definition stat_file :: "string \<Rightarrow> Store \<Rightarrow> entry option" where
  "stat_file name st = map_of (store_files st) name"

definition put_files :: "directory \<Rightarrow> unit store_act" where
  "put_files d = modify (\<lambda>st. st\<lparr>store_files := d, store_trace := store_trace st @ [d]\<rparr>)"

definition set_file :: "string \<Rightarrow> entry \<Rightarrow> unit store_act" where
  "set_file name e = bind_s (gets store_files) (\<lambda>d. put_files (AList.update name e d))"

definition os_fails :: "io \<Rightarrow> fault \<Rightarrow> unit store_act" where
  "os_fails io f = (if io_fault io = Some f then raise_s (OSError ''I/O error'') else ret ())"

definition os_unlink :: "io \<Rightarrow> string \<Rightarrow> unit store_act" where
  "os_unlink io name =
     bind_s (gets (stat_file name)) (\<lambda>f.
     case f of
       None \<Rightarrow> raise_s (FileNotFoundError name)
     | Some e \<Rightarrow>
         if f_kind e = Directory then raise_s (OSError ''Is a directory'')
         else bind_s (os_fails io Unlink_Fails) (\<lambda>_.
              bind_s (gets store_files) (\<lambda>d. put_files (AList.delete name d))))"

definition os_replace :: "io \<Rightarrow> string \<Rightarrow> string \<Rightarrow> unit store_act" where
  "os_replace io src dst =
     bind_s (gets (stat_file src)) (\<lambda>f.
     case f of
       None \<Rightarrow> raise_s (FileNotFoundError src)
     | Some e \<Rightarrow>
         bind_s (gets (stat_file dst)) (\<lambda>g.
         if (\<exists>t. g = Some t \<and> f_kind t = Directory) then raise_s (OSError ''Is a directory'')
         else bind_s (os_fails io Replace_Fails) (\<lambda>_.
              bind_s (gets store_files) (\<lambda>d. put_files (AList.update dst e (AList.delete src d))))))"

definition fsync_dir :: "io \<Rightarrow> unit store_act" where
  "fsync_dir io = os_fails io Dir_Fsync_Fails"

section \<open>Reading and decoding a state file\<close>

definition MAX_SNAPSHOT_BYTES :: nat where "MAX_SNAPSHOT_BYTES = 2 * 1024 * 1024"
definition MAX_RECOVERY_BYTES :: nat where "MAX_RECOVERY_BYTES = 2 * 1024 * 1024"
definition MAX_TOMBSTONE_BYTES :: nat where "MAX_TOMBSTONE_BYTES = 4 * 1024"
definition CHECKPOINT_PREFIX :: string where "CHECKPOINT_PREFIX = ''checkpoint-''"
definition CHECKPOINT_SUFFIX :: string where "CHECKPOINT_SUFFIX = ''.json''"
definition CHECKPOINT_DIGITS :: nat where "CHECKPOINT_DIGITS = 20"
definition MAX_CHECKPOINTS :: nat where "MAX_CHECKPOINTS = 10"

lemmas store_limits = MAX_SNAPSHOT_BYTES_def MAX_RECOVERY_BYTES_def MAX_TOMBSTONE_BYTES_def
  CHECKPOINT_PREFIX_def CHECKPOINT_SUFFIX_def CHECKPOINT_DIGITS_def MAX_CHECKPOINTS_def

definition unsafe_file :: "env \<Rightarrow> string \<Rightarrow> entry \<Rightarrow> unit result" where
  "unsafe_file env name e =
     bind_r (raise_if (f_kind e \<noteq> Regular) (UnsafeStatePath (''unsafe state file type: '' @ name))) (\<lambda>_.
     bind_r (raise_if (f_owner e \<noteq> env_uid env) (UnsafeStatePath (''unsafe state file owner: '' @ name))) (\<lambda>_.
     raise_if (f_mode e \<noteq> 0x180) (UnsafeStatePath (''unsafe state file mode: '' @ name))))"

text \<open>The loop over \<^verbatim>\<open>os.read\<close>: at most 65536 bytes at a time until the limit is passed or the file ends.\<close>

function read_loop :: "nat \<Rightarrow> string \<Rightarrow> string" where
  "read_loop remaining s =
     (if remaining = 0 then []
      else let chunk = take (min 65536 remaining) s in
        if chunk = [] then [] else chunk @ read_loop (remaining - length chunk) (drop (length chunk) s))"
  by pat_completeness auto
termination
  by (relation "measure fst") auto

declare read_loop.simps [simp del]

definition exceeds :: "string \<Rightarrow> nat \<Rightarrow> py_error" where
  "exceeds kind maximum = ValueError (''serialized '' @ kind @ '' exceeds size limit '' @ nat_text maximum)"

definition read_json :: "env \<Rightarrow> string \<Rightarrow> nat \<Rightarrow> string \<Rightarrow> Store \<Rightarrow> dict result" where
  "read_json env name maximum kind st =
     (case stat_file name st of
        None \<Rightarrow> Inl (FileNotFoundError name)
      | Some e \<Rightarrow>
          bind_r (raise_if (f_kind e = Symlink) (OSError ''Too many levels of symbolic links'')) (\<lambda>_.
          bind_r (raise_if (\<not> env_may_read env e) (OSError ''Permission denied'')) (\<lambda>_.
          bind_r (unsafe_file env name e) (\<lambda>_.
          bind_r (raise_if (length (f_content e) > maximum) (exceeds kind maximum)) (\<lambda>_.
          let chunks = read_loop (maximum + 1) (f_content e) in
          bind_r (raise_if (length chunks > maximum) (exceeds kind maximum)) (\<lambda>_.
          bind_r (loads_bytes chunks) (\<lambda>value.
          case value of JObj d \<Rightarrow> Inr d | _ \<Rightarrow> Inl (ValueError ''persisted state must be an object'')))))))) "

text \<open>\<^verbatim>\<open>_decode\<close>; \<^verbatim>\<open>MIGRATIONS\<close> is empty.\<close>

definition decode_versioned :: "dict \<Rightarrow> (json \<Rightarrow> 'a result) \<Rightarrow> 'a result" where
  "decode_versioned payload decoder =
     (case dict_get payload ''schema_version'' of
        Some (JInt version) \<Rightarrow>
          if version \<noteq> SCHEMA_VERSION then
            Inl (UnsupportedSchemaVersion
              (if version < SCHEMA_VERSION then ''no migration for schema version '' @ int_text version
               else ''unsupported schema version '' @ int_text version))
          else decoder (JObj payload)
      | _ \<Rightarrow> Inl (ValueError ''schema_version must be an integer''))"

text \<open>\<^verbatim>\<open>value["schema_version"] != SCHEMA_VERSION\<close>: Python compares \<^verbatim>\<open>True\<close> and \<^verbatim>\<open>1.0\<close> equal to 1.\<close>

fun equals_one :: "json \<Rightarrow> bool" where
  "equals_one (JInt n) = (n = 1)"
| "equals_one (JBool b) = b"
| "equals_one (JFloat f) = (f = Finite 1)"
| "equals_one _ = False"

definition validate_tombstone :: "json \<Rightarrow> dict result" where
  "validate_tombstone value =
     bind_r (case value of JObj d \<Rightarrow> Inr d | _ \<Rightarrow> Inl (TypeError ''not a mapping'')) (\<lambda>d.
     bind_r (raise_if (set (dict_keys d) \<noteq> {''schema_version'', ''workspace_id'', ''disposition'', ''timestamp''})
       (ValueError ''invalid recovery tombstone'')) (\<lambda>_.
     bind_r (dict_item d ''schema_version'') (\<lambda>version.
     bind_r (raise_if (\<not> equals_one version) (ValueError ''invalid recovery tombstone'')) (\<lambda>_.
     bind_r (dict_item d ''workspace_id'') (\<lambda>w.
     bind_r (raise_if (case w of JStr t \<Rightarrow> t = [] | _ \<Rightarrow> True)
       (ValueError ''invalid recovery tombstone workspace'')) (\<lambda>_.
     bind_r (dict_item d ''disposition'') (\<lambda>p.
     bind_r (raise_if (p \<noteq> JStr ''completed'' \<and> p \<noteq> JStr ''discarded'')
       (ValueError ''invalid recovery tombstone disposition'')) (\<lambda>_.
     bind_r (dict_item d ''timestamp'') (\<lambda>t.
     bind_r (raise_if (case t of JInt _ \<Rightarrow> False | JFloat _ \<Rightarrow> False | _ \<Rightarrow> True)
       (ValueError ''invalid recovery tombstone timestamp'')) (\<lambda>_.
     Inr d))))))))))"


section \<open>The atomic write\<close>

definition own_file :: "env \<Rightarrow> string \<Rightarrow> entry" where
  "own_file env c = \<lparr>f_kind = Regular, f_owner = env_uid env, f_mode = 0x180, f_content = c\<rparr>"

definition verify_existing_destination :: "env \<Rightarrow> string \<Rightarrow> unit store_act" where
  "verify_existing_destination env name =
     bind_s (gets (stat_file name)) (\<lambda>f.
     case f of None \<Rightarrow> ret () | Some e \<Rightarrow> lift_s (unsafe_file env name e))"

definition remove_known_temporary :: "env \<Rightarrow> io \<Rightarrow> string \<Rightarrow> unit store_act" where
  "remove_known_temporary env io name =
     bind_s (gets (stat_file name)) (\<lambda>f.
     case f of
       None \<Rightarrow> ret ()
     | Some e \<Rightarrow> when_s (f_kind e = Regular \<and> f_owner e = env_uid env) (os_unlink io name))"

text \<open>
  The loop over \<^verbatim>\<open>os.write\<close>: \<open>sizes\<close> are the sizes of the partial writes, zero being a short write; when they are
  used up, the rest is written at once or the write fails.
\<close>

fun write_loop :: "env \<Rightarrow> io \<Rightarrow> string \<Rightarrow> nat list \<Rightarrow> string \<Rightarrow> string \<Rightarrow> unit store_act" where
  "write_loop env io name sizes written view =
     (if view = [] then ret ()
      else case sizes of
        [] \<Rightarrow> bind_s (os_fails io Write_Fails) (\<lambda>_. set_file name (own_file env (written @ view)))
      | n # ns \<Rightarrow>
          if n = 0 then raise_s (OSError ''short write while persisting state'')
          else bind_s (set_file name (own_file env (written @ take n view))) (\<lambda>_.
               write_loop env io name ns (written @ take n view) (drop n view)))"

declare write_loop.simps [simp del]

definition write_temporary :: "env \<Rightarrow> io \<Rightarrow> string \<Rightarrow> string \<Rightarrow> string \<Rightarrow> unit store_act" where
  "write_temporary env io temporary destination encoded =
     bind_s (os_fails io Open_Fails) (\<lambda>_.
     bind_s (gets (stat_file temporary)) (\<lambda>f.
     if f \<noteq> None then raise_s (OSError ''File exists'')
     else
       bind_s (set_file temporary (own_file env [])) (\<lambda>_.
       bind_s (gets (stat_file temporary)) (\<lambda>g.
       case g of
         None \<Rightarrow> raise_s (UnsafeStatePath ''unsafe temporary state file'')
       | Some e \<Rightarrow>
           if f_kind e \<noteq> Regular \<or> f_owner e \<noteq> env_uid env \<or> f_mode e \<noteq> 0x180
           then raise_s (UnsafeStatePath ''unsafe temporary state file'')
           else
             bind_s (write_loop env io temporary (io_sizes io) [] encoded) (\<lambda>_.
             bind_s (os_fails io Fsync_Fails) (\<lambda>_.
             bind_s (os_replace io temporary destination) (\<lambda>_.
             fsync_dir io)))))))"

definition temporary_name :: "io \<Rightarrow> string" where
  "temporary_name io = ''.tmp-'' @ io_token io"

definition atomic_json_write ::
  "env \<Rightarrow> io \<Rightarrow> string \<Rightarrow> json \<Rightarrow> (json \<Rightarrow> 'a result) \<Rightarrow> nat \<Rightarrow> string \<Rightarrow> unit store_act" where
  "atomic_json_write env io destination value decoder maximum kind =
     bind_s (verify_existing_destination env destination) (\<lambda>_.
     bind_s (lift_s (encode_state (env_repr env) value)) (\<lambda>encoded.
     bind_s (lift_s (raise_if (length encoded > maximum) (exceeds kind maximum))) (\<lambda>_.
     bind_s (lift_s (loads_bytes encoded)) (\<lambda>decoded.
     bind_s (lift_s (case decoded of JObj d \<Rightarrow> Inr d | _ \<Rightarrow> Inl (ValueError ''encoded state must be an object''))) (\<lambda>d.
     bind_s (lift_s (decode_versioned d decoder)) (\<lambda>_.
     catch (write_temporary env io (temporary_name io) destination encoded)
       (\<lambda>e. bind_s (remove_known_temporary env io (temporary_name io)) (\<lambda>_. raise_s e))))))))"

section \<open>Checkpoints\<close>

definition zero_pad :: "nat \<Rightarrow> string \<Rightarrow> string" where
  "zero_pad n s = replicate (n - length s) CHR ''0'' @ s"

definition checkpoint_name :: "int \<Rightarrow> string" where
  "checkpoint_name g = CHECKPOINT_PREFIX @ zero_pad CHECKPOINT_DIGITS (int_text g) @ CHECKPOINT_SUFFIX"

definition is_checkpoint_name :: "string \<Rightarrow> bool" where
  "is_checkpoint_name name \<longleftrightarrow>
     startswith name CHECKPOINT_PREFIX \<and> endswith name CHECKPOINT_SUFFIX \<and>
     (let gen = take (length name - length CHECKPOINT_SUFFIX - length CHECKPOINT_PREFIX)
                  (drop (length CHECKPOINT_PREFIX) name) in
      length gen = CHECKPOINT_DIGITS \<and> list_all is_digit gen)"

definition checkpoint_names :: "Store \<Rightarrow> string list" where
  "checkpoint_names st = rev (sort (filter is_checkpoint_name (map fst (store_files st))))"

definition load_checkpoint :: "env \<Rightarrow> Store \<Rightarrow> string \<Rightarrow> Snapshot result" where
  "load_checkpoint env st name =
     bind_r (read_json env name MAX_SNAPSHOT_BYTES ''snapshot'' st) (\<lambda>payload.
     decode_versioned payload snapshot_from_dict)"

text \<open>The exceptions the loading and pruning loops step over.\<close>

fun invalid_state :: "py_error \<Rightarrow> bool" where
  "invalid_state (UnsafeStatePath _) = True"
| "invalid_state (TypeError _) = True"
| "invalid_state e = (is_OSError e \<or> is_ValueError e)"

definition diagnose :: "string \<Rightarrow> py_error \<Rightarrow> unit store_act" where
  "diagnose text e = modify (\<lambda>st. st\<lparr>store_diagnostics := store_diagnostics st @ [(text, e)]\<rparr>)"

primrec load_loop :: "env \<Rightarrow> string list \<Rightarrow> Snapshot list \<Rightarrow> (Snapshot list) store_act" where
  "load_loop env [] valid = ret valid"
| "load_loop env (name # names) valid =
     bind_s (gets (\<lambda>st. load_checkpoint env st name)) (\<lambda>r.
     case r of
       Inr item \<Rightarrow> load_loop env names (valid @ [item])
     | Inl e \<Rightarrow>
         (case e of
            UnsupportedSchemaVersion _ \<Rightarrow>
              if valid = [] then raise_s e
              else bind_s (diagnose (''ignored older unsupported checkpoint '' @ name) e) (\<lambda>_. load_loop env names valid)
          | _ \<Rightarrow>
              if invalid_state e
              then bind_s (diagnose (''ignored invalid checkpoint '' @ name) e) (\<lambda>_. load_loop env names valid)
              else raise_s e))"

definition load_valid_checkpoints_unlocked :: "env \<Rightarrow> bool \<Rightarrow> (Snapshot list) store_act" where
  "load_valid_checkpoints_unlocked env newest_first =
     bind_s (gets checkpoint_names) (\<lambda>names.
     bind_s (load_loop env names []) (\<lambda>valid.
     ret (if newest_first then valid else rev valid)))"

primrec valid_names :: "env \<Rightarrow> Store \<Rightarrow> string list \<Rightarrow> string list result" where
  "valid_names env st [] = Inr []"
| "valid_names env st (name # names) =
     (case load_checkpoint env st name of
        Inr _ \<Rightarrow> bind_r (valid_names env st names) (\<lambda>ns. Inr (name # ns))
      | Inl e \<Rightarrow> if invalid_state e then valid_names env st names else Inl e)"

primrec unlink_each :: "io \<Rightarrow> string list \<Rightarrow> bool \<Rightarrow> bool store_act" where
  "unlink_each io [] removed = ret removed"
| "unlink_each io (name # names) removed =
     bind_s (catch (bind_s (os_unlink io name) (\<lambda>_. ret True))
       (\<lambda>e. if is_FileNotFoundError e then ret removed else raise_s e)) (\<lambda>r.
     unlink_each io names r)"

definition prune_checkpoints_unlocked :: "env \<Rightarrow> io \<Rightarrow> unit store_act" where
  "prune_checkpoints_unlocked env io =
     bind_s (gets (\<lambda>st. valid_names env st (checkpoint_names st))) (\<lambda>r.
     bind_s (lift_s r) (\<lambda>names.
     bind_s (unlink_each io (drop MAX_CHECKPOINTS names) False) (\<lambda>removed.
     when_s removed (fsync_dir io))))"

definition write_unlocked :: "env \<Rightarrow> io \<Rightarrow> Snapshot \<Rightarrow> string store_act" where
  "write_unlocked env io s =
     bind_s (lift_s (snapshot_to_dict s)) (\<lambda>payload.
     bind_s (atomic_json_write env io (checkpoint_name (generation s)) payload snapshot_from_dict
       MAX_SNAPSHOT_BYTES ''snapshot'') (\<lambda>_.
     bind_s (prune_checkpoints_unlocked env io) (\<lambda>_.
     gets (\<lambda>st. state_dir st @ ''/'' @ checkpoint_name (generation s)))))"

section \<open>The recovery record and its tombstones\<close>

definition tombstone_matches :: "env \<Rightarrow> string \<Rightarrow> string \<Rightarrow> Store \<Rightarrow> bool result" where
  "tombstone_matches env w name st =
     (case read_json env name MAX_TOMBSTONE_BYTES ''tombstone'' st of
        Inl e \<Rightarrow> if is_FileNotFoundError e then Inr False else Inl e
      | Inr payload \<Rightarrow>
          bind_r (validate_tombstone (JObj payload)) (\<lambda>validated.
          bind_r (dict_item validated ''workspace_id'') (\<lambda>v. Inr (v = JStr w))))"

definition has_terminal_tombstone :: "env \<Rightarrow> string \<Rightarrow> Store \<Rightarrow> bool result" where
  "has_terminal_tombstone env w st =
     bind_r (tombstone_matches env w ''recovery-completion.json'' st) (\<lambda>b.
     if b then Inr True else tombstone_matches env w ''recovery-discard.json'' st)"

fun py_message :: "py_error \<Rightarrow> string" where
  "py_message (ValueError m) = m"
| "py_message (UnsupportedSchemaVersion m) = m"
| "py_message (JSONDecodeError m) = m"
| "py_message (TypeError m) = m"
| "py_message _ = []"

definition recovery_file :: string where "recovery_file = ''recovery.json''"

definition read_recovery :: "env \<Rightarrow> Store \<Rightarrow> dict result" where
  "read_recovery env st = read_json env recovery_file MAX_RECOVERY_BYTES ''recovery'' st"

definition drop_recovery :: "io \<Rightarrow> unit store_act" where
  "drop_recovery io = bind_s (os_unlink io recovery_file) (\<lambda>_. fsync_dir io)"

definition load_recovery_unlocked :: "env \<Rightarrow> io \<Rightarrow> (RecoveryRecord option) store_act" where
  "load_recovery_unlocked env io =
     bind_s (gets (read_recovery env)) (\<lambda>r.
     case r of
       Inl e \<Rightarrow> if is_FileNotFoundError e then ret None else raise_s e
     | Inr payload \<Rightarrow>
         catch
           (bind_s (lift_s (decode_versioned payload recovery_from_dict)) (\<lambda>record.
            bind_s (gets (has_terminal_tombstone env (workspace_id record))) (\<lambda>t.
            bind_s (lift_s t) (\<lambda>terminal.
            if terminal then bind_s (drop_recovery io) (\<lambda>_. ret None)
            else ret (Some record)))))
           (\<lambda>e. case e of
               UnsupportedSchemaVersion _ \<Rightarrow> raise_s e
             | TypeError _ \<Rightarrow> raise_s (ValueError (''invalid recovery record: '' @ py_message e))
             | _ \<Rightarrow> if is_ValueError e then raise_s (ValueError (''invalid recovery record: '' @ py_message e))
                    else raise_s e))"

definition write_recovery_record :: "env \<Rightarrow> io \<Rightarrow> RecoveryRecord \<Rightarrow> unit store_act" where
  "write_recovery_record env io record =
     bind_s (lift_s (recovery_to_dict record)) (\<lambda>payload.
     atomic_json_write env io recovery_file payload recovery_from_dict MAX_RECOVERY_BYTES ''recovery'')"

definition write_recovery_if_absent_unlocked :: "env \<Rightarrow> io \<Rightarrow> RecoveryRecord \<Rightarrow> unit store_act" where
  "write_recovery_if_absent_unlocked env io record =
     bind_s (gets (read_recovery env)) (\<lambda>r.
     case r of
       Inr _ \<Rightarrow> ret ()
     | Inl e \<Rightarrow> if is_FileNotFoundError e then write_recovery_record env io record else raise_s e)"

definition update_recovery_unlocked :: "env \<Rightarrow> io \<Rightarrow> RecoveryRecord \<Rightarrow> string \<Rightarrow> int \<Rightarrow> unit store_act" where
  "update_recovery_unlocked env io record expected_workspace_id expected_generation =
     bind_s (load_recovery_unlocked env io) (\<lambda>c.
     case c of
       None \<Rightarrow> raise_s (ValueError ''no unresolved recovery workspace'')
     | Some current \<Rightarrow>
         bind_s (lift_s (raise_if
           (workspace_id current \<noteq> expected_workspace_id \<or> workspace_id record \<noteq> expected_workspace_id)
           (ValueError ''recovery workspace changed''))) (\<lambda>_.
         bind_s (lift_s (raise_if (source_generation current \<noteq> expected_generation)
           (ValueError ''recovery source generation changed''))) (\<lambda>_.
         bind_s (lift_s (raise_if (source_generation record \<noteq> expected_generation)
           (ValueError ''replacement recovery source generation changed''))) (\<lambda>_.
         write_recovery_record env io record))))"


definition terminal_outcome :: "Outcome \<Rightarrow> bool" where
  "terminal_outcome p \<longleftrightarrow> outcome_kind p = SUCCESS \<or> outcome_kind p = WARNING"

definition add_completed :: "string list \<Rightarrow> Outcome list \<Rightarrow> string list" where
  "add_completed completed outs =
     foldl (\<lambda>c p. if terminal_outcome p \<and> outcome_item_id p \<notin> set c then c @ [outcome_item_id p] else c) completed outs"

text \<open>The checks of \<^verbatim>\<open>_commit_outcomes_unlocked\<close> and the record it writes.\<close>

definition committed_record ::
  "RecoveryRecord \<Rightarrow> string \<Rightarrow> RestoreAttempt \<Rightarrow> Outcome list \<Rightarrow> RecoveryRecord result" where
  "committed_record record w attempt outs =
     bind_r (raise_if (w \<noteq> workspace_id record \<or> attempt_workspace_id attempt \<noteq> w)
       (ValueError ''restore attempt workspace does not match recovery workspace'')) (\<lambda>_.
     bind_r (raise_if (\<exists>a \<in> set (attempts record). attempt_id a = attempt_id attempt)
       (ValueError ''restore attempt ID already exists'')) (\<lambda>_.
     bind_r (raise_if (\<not> set (selected_item_ids attempt) \<subseteq> item_id ` set (items record))
       (ValueError ''selected item must exist in recovery items'')) (\<lambda>_.
     bind_r (raise_if (\<not> distinct (map outcome_item_id outs))
       (ValueError ''duplicate outcome item ID'')) (\<lambda>_.
     bind_r (raise_if (\<not> outcome_item_id ` set outs \<subseteq> set (selected_item_ids attempt))
       (ValueError ''outcome item must be selected'')) (\<lambda>_.
     bind_r (raise_if (outcomes attempt \<noteq> [] \<and> outcomes attempt \<noteq> outs)
       (ValueError ''attempt outcomes do not match committed outcomes'')) (\<lambda>_.
     bind_r (RestoreAttempt_check (attempt\<lparr>outcomes := outs\<rparr>)) (\<lambda>committed.
     RecoveryRecord_check (record\<lparr>attempts := attempts record @ [committed],
       completed_item_ids := add_completed (completed_item_ids record) outs\<rparr>))))))))"

definition commit_outcomes_unlocked ::
  "env \<Rightarrow> io \<Rightarrow> string \<Rightarrow> RestoreAttempt \<Rightarrow> Outcome list \<Rightarrow> RecoveryRecord store_act" where
  "commit_outcomes_unlocked env io w attempt outs =
     bind_s (load_recovery_unlocked env io) (\<lambda>c.
     case c of
       None \<Rightarrow> raise_s (ValueError ''no unresolved recovery workspace'')
     | Some record \<Rightarrow>
         bind_s (lift_s (committed_record record w attempt outs)) (\<lambda>updated.
         bind_s (update_recovery_unlocked env io updated w (source_generation record)) (\<lambda>_.
         ret updated)))"

definition tombstone :: "io \<Rightarrow> string \<Rightarrow> bool \<Rightarrow> json" where
  "tombstone io w discard =
     JObj [(''schema_version'', JInt SCHEMA_VERSION), (''workspace_id'', JStr w),
       (''disposition'', JStr (if discard then ''discarded'' else ''completed'')),
       (''timestamp'', JFloat (io_time io))]"

definition tombstone_file :: "bool \<Rightarrow> string" where
  "tombstone_file discard = (if discard then ''recovery-discard.json'' else ''recovery-completion.json'')"

definition complete_or_discard_unlocked :: "env \<Rightarrow> io \<Rightarrow> string \<Rightarrow> bool \<Rightarrow> unit store_act" where
  "complete_or_discard_unlocked env io w discard =
     bind_s (load_recovery_unlocked env io) (\<lambda>c.
     case c of
       None \<Rightarrow> raise_s (ValueError ''no unresolved recovery workspace'')
     | Some record \<Rightarrow>
         bind_s (lift_s (raise_if (workspace_id record \<noteq> w) (ValueError ''recovery workspace does not match''))) (\<lambda>_.
         bind_s (lift_s (raise_if (\<not> discard \<and> set (completed_item_ids record) \<noteq> item_id ` set (items record))
           (ValueError ''all recovery items must be terminally successful''))) (\<lambda>_.
         bind_s (atomic_json_write env io (tombstone_file discard) (tombstone io w discard) validate_tombstone
           MAX_TOMBSTONE_BYTES ''tombstone'') (\<lambda>_.
         drop_recovery io))))"

definition cleanup_stale_recovery_unlocked :: "env \<Rightarrow> io \<Rightarrow> unit store_act" where
  "cleanup_stale_recovery_unlocked env io =
     bind_s (gets (read_recovery env)) (\<lambda>r.
     case r of
       Inl e \<Rightarrow> if is_FileNotFoundError e then ret () else raise_s e
     | Inr payload \<Rightarrow>
         bind_s (lift_s (decode_versioned payload recovery_from_dict)) (\<lambda>record.
         bind_s (gets (has_terminal_tombstone env (workspace_id record))) (\<lambda>t.
         bind_s (lift_s t) (\<lambda>terminal. when_s terminal (drop_recovery io)))))"

section \<open>Opening, transactions, closing\<close>

text \<open>\<^verbatim>\<open>_open_lock_file\<close>: the lock file is created when missing and its mode is set by \<^verbatim>\<open>fchmod\<close>, which only its owner
  and the superuser may do.\<close>

definition lock_file :: string where "lock_file = ''.store.lock''"

definition open_lock_file :: "env \<Rightarrow> unit store_act" where
  "open_lock_file env =
     bind_s (gets (stat_file lock_file)) (\<lambda>f.
     case f of
       None \<Rightarrow> set_file lock_file (own_file env [])
     | Some e \<Rightarrow>
         if f_kind e = Symlink \<or> f_kind e = Directory \<or> \<not> env_may_read env e then raise_s (OSError ''cannot open'')
         else if f_owner e \<noteq> env_uid env \<and> env_uid env \<noteq> 0 then raise_s (OSError ''Operation not permitted'')
         else bind_s (set_file lock_file (e\<lparr>f_mode := 0x180\<rparr>)) (\<lambda>_.
           lift_s (raise_if (f_kind e \<noteq> Regular \<or> f_owner e \<noteq> env_uid env)
             (UnsafeStatePath ''unsafe state lock file''))))"

text \<open>One thread at a time is inside a transaction; \<open>transaction_depth\<close> counts the nesting of its calls.\<close>

definition transaction :: "'a store_act \<Rightarrow> 'a store_act" where
  "transaction m =
     (\<lambda>st. if store_closed st then (Inl (RuntimeError ''SnapshotStore is closed''), st)
           else case m (st\<lparr>transaction_depth := transaction_depth st + 1\<rparr>) of
             (r, t) \<Rightarrow> (r, t\<lparr>transaction_depth := transaction_depth t - 1\<rparr>))"

definition SnapshotStore_init :: "env \<Rightarrow> io \<Rightarrow> string \<Rightarrow> directory \<Rightarrow> unit result \<times> Store" where
  "SnapshotStore_init env io path files =
     bind_s (open_lock_file env) (\<lambda>_. transaction (cleanup_stale_recovery_unlocked env io))
       \<lparr>state_dir = path, store_files = files, store_trace = [], store_diagnostics = [], store_closed = False,
        transaction_depth = 0\<rparr>"

definition close_store :: "unit store_act" where
  "close_store =
     (\<lambda>st. if store_closed st then (Inr (), st)
           else if transaction_depth st \<noteq> 0
           then (Inl (RuntimeError ''cannot close SnapshotStore during a transaction''), st)
           else (Inr (), st\<lparr>store_closed := True\<rparr>))"

definition write_snapshot :: "env \<Rightarrow> io \<Rightarrow> Snapshot \<Rightarrow> string store_act" where
  "write_snapshot env io s = transaction (write_unlocked env io s)"

definition load_latest :: "env \<Rightarrow> (Snapshot option) store_act" where
  "load_latest env = transaction (bind_s (load_valid_checkpoints_unlocked env True) (\<lambda>valid.
     ret (case valid of [] \<Rightarrow> None | s # _ \<Rightarrow> Some s)))"

definition list_valid :: "env \<Rightarrow> (Snapshot list) store_act" where
  "list_valid env = transaction (bind_s (load_valid_checkpoints_unlocked env True) (\<lambda>valid. ret (rev valid)))"

definition load_recovery :: "env \<Rightarrow> io \<Rightarrow> (RecoveryRecord option) store_act" where
  "load_recovery env io = transaction (load_recovery_unlocked env io)"

definition write_recovery :: "env \<Rightarrow> io \<Rightarrow> RecoveryRecord \<Rightarrow> unit store_act" where
  "write_recovery env io record = transaction (write_recovery_if_absent_unlocked env io record)"

definition update_recovery :: "env \<Rightarrow> io \<Rightarrow> RecoveryRecord \<Rightarrow> string \<Rightarrow> int \<Rightarrow> unit store_act" where
  "update_recovery env io record w g = transaction (update_recovery_unlocked env io record w g)"

definition commit_outcomes ::
  "env \<Rightarrow> io \<Rightarrow> string \<Rightarrow> RestoreAttempt \<Rightarrow> Outcome list \<Rightarrow> RecoveryRecord store_act" where
  "commit_outcomes env io w attempt outs = transaction (commit_outcomes_unlocked env io w attempt outs)"

definition complete_or_discard :: "env \<Rightarrow> io \<Rightarrow> string \<Rightarrow> bool \<Rightarrow> unit store_act" where
  "complete_or_discard env io w discard = transaction (complete_or_discard_unlocked env io w discard)"

section \<open>What the primitive operations leave behind\<close>

lemma read_loop_take: "read_loop n s = take n s"
proof (induction n s rule: read_loop.induct)
  case (1 n s)
  show ?case
  proof (cases "n = 0 \<or> take (min 65536 n) s = []")
    case True
    then show ?thesis by (subst read_loop.simps) (auto simp: Let_def)
  next
    case False
    define c where "c = take (min 65536 n) s"
    have "read_loop n s = c @ read_loop (n - length c) (drop (length c) s)"
      using False by (subst read_loop.simps) (auto simp: Let_def c_def min_def)
    also have "\<dots> = c @ take (n - length c) (drop (length c) s)"
      using 1 [of c] False c_def by simp
    also have "\<dots> = take n s"
    proof -
      have "c = take (length c) s" "length c \<le> n" unfolding c_def by (auto simp: min_def)
      then show ?thesis by (metis le_add_diff_inverse take_add)
    qed
    finally show ?thesis .
  qed
qed

lemma read_json_regular:
  assumes "stat_file name st = Some (own_file env c)" "env_may_read env (own_file env c)" "length c \<le> maximum"
  shows "read_json env name maximum kind st =
    bind_r (loads_bytes c) (\<lambda>v. case v of JObj d \<Rightarrow> Inr d | _ \<Rightarrow> Inl (ValueError ''persisted state must be an object''))"
  using assms by (simp add: read_json_def own_file_def unsafe_file_def read_loop_take Let_def)

lemma stat_put [simp]:
  "stat_file n (st\<lparr>store_files := d\<rparr>) = map_of d n"
  "stat_file n (st\<lparr>store_trace := tr\<rparr>) = stat_file n st"
  "stat_file n (st\<lparr>transaction_depth := k\<rparr>) = stat_file n st"
  by (simp_all add: stat_file_def)

lemma read_json_cong:
  "stat_file name st = stat_file name st' \<Longrightarrow> read_json env name m k st = read_json env name m k st'"
  by (simp add: read_json_def)

lemma os_fails_cases: "os_fails io f st = (Inr (), st) \<or> (\<exists>e. os_fails io f st = (Inl e, st))"
  by (simp add: os_fails_def)

lemma os_fails_Inr [simp]: "os_fails io f st = (Inr u, t) \<longleftrightarrow> io_fault io \<noteq> Some f \<and> t = st"
  by (auto simp: os_fails_def)

lemma os_fails_Inl [simp]: "os_fails io f st = (Inl e, t) \<longleftrightarrow> io_fault io = Some f \<and> t = st \<and> e = OSError ''I/O error''"
  by (auto simp: os_fails_def)

lemma set_file_run [simp]:
  "set_file n e st = (Inr (), st\<lparr>store_files := AList.update n e (store_files st),
     store_trace := store_trace st @ [AList.update n e (store_files st)]\<rparr>)"
  by (simp add: set_file_def put_files_def bind_s_run)


section \<open>The atomic write never exposes a partial file\<close>

text \<open>
  \<open>written_dir\<close> is what a reader may find at any moment of a write: every other name as before, the destination as
  before or complete, the temporary file absent or private.
\<close>

definition written_dir :: "env \<Rightarrow> directory \<Rightarrow> string \<Rightarrow> string \<Rightarrow> string \<Rightarrow> directory \<Rightarrow> bool" where
  "written_dir env d0 tmp dest enc d \<longleftrightarrow>
     (\<forall>n. n \<noteq> tmp \<longrightarrow> n \<noteq> dest \<longrightarrow> map_of d n = map_of d0 n) \<and>
     (map_of d dest = map_of d0 dest \<or> map_of d dest = Some (own_file env enc)) \<and>
     (map_of d tmp = None \<or> (\<exists>c. map_of d tmp = Some (own_file env c))) \<and>
     (distinct (map fst d0) \<longrightarrow> distinct (map fst d))"

definition writing :: "env \<Rightarrow> Store \<Rightarrow> string \<Rightarrow> string \<Rightarrow> string \<Rightarrow> Store \<Rightarrow> bool" where
  "writing env st0 tmp dest enc st \<longleftrightarrow>
     st = st0\<lparr>store_files := store_files st, store_trace := store_trace st\<rparr> \<and>
     written_dir env (store_files st0) tmp dest enc (store_files st) \<and>
     (\<exists>ds. store_trace st = store_trace st0 @ ds \<and>
        (\<forall>d \<in> set ds. written_dir env (store_files st0) tmp dest enc d))"

definition dest_unchanged :: "Store \<Rightarrow> string \<Rightarrow> Store \<Rightarrow> bool" where
  "dest_unchanged st0 dest st \<longleftrightarrow> stat_file dest st = stat_file dest st0"

lemma writing_put:
  assumes "writing env st0 tmp dest enc st" "written_dir env (store_files st0) tmp dest enc d"
  shows "writing env st0 tmp dest enc (st\<lparr>store_files := d, store_trace := store_trace st @ [d]\<rparr>)"
proof -
  obtain ds where "store_trace st = store_trace st0 @ ds"
    "\<forall>d \<in> set ds. written_dir env (store_files st0) tmp dest enc d"
    using assms(1) by (auto simp: writing_def)
  then have "store_trace st @ [d] = store_trace st0 @ (ds @ [d])"
    "\<forall>d \<in> set (ds @ [d]). written_dir env (store_files st0) tmp dest enc d" using assms(2) by auto
  moreover have "st = st0\<lparr>store_files := store_files st, store_trace := store_trace st\<rparr>"
    using assms(1) by (simp add: writing_def)
  then have "st\<lparr>store_files := d, store_trace := store_trace st @ [d]\<rparr> =
      st0\<lparr>store_files := d, store_trace := store_trace st @ [d]\<rparr>"
    by (cases st; cases st0; simp)
  ultimately show ?thesis using assms(2) by (simp add: writing_def)
qed

lemma written_dir_temporary:
  assumes "tmp \<noteq> dest" "written_dir env d0 tmp dest enc d"
  shows "written_dir env d0 tmp dest enc (AList.update tmp (own_file env c) d)"
    "written_dir env d0 tmp dest enc (AList.delete tmp d)"
  using assms by (auto simp: written_dir_def update_conv' AList.delete_conv' distinct_update distinct_delete)

lemma written_dir_replace:
  assumes "tmp \<noteq> dest" "written_dir env d0 tmp dest enc d"
  shows "written_dir env d0 tmp dest enc (AList.update dest (own_file env enc) (AList.delete tmp d))"
  using assms by (auto simp: written_dir_def update_conv' AList.delete_conv' distinct_update distinct_delete)

lemma set_temporary:
  assumes "tmp \<noteq> dest"
  shows "triple (\<lambda>st. writing env st0 tmp dest enc st \<and> dest_unchanged st0 dest st)
    (set_file tmp (own_file env c))
    (\<lambda>_ st. writing env st0 tmp dest enc st \<and> dest_unchanged st0 dest st \<and> stat_file tmp st = Some (own_file env c)) E"
proof (rule tripleI)
  fix s a t
  assume w: "writing env st0 tmp dest enc s \<and> dest_unchanged st0 dest s"
    and r: "set_file tmp (own_file env c) s = (Inr a, t)"
  let ?d = "AList.update tmp (own_file env c) (store_files s)"
  have t: "t = s\<lparr>store_files := ?d, store_trace := store_trace s @ [?d]\<rparr>" using r by simp
  have "written_dir env (store_files st0) tmp dest enc ?d"
    using w assms by (intro written_dir_temporary(1)) (auto simp: writing_def)
  then have "writing env st0 tmp dest enc t" unfolding t using w writing_put by blast
  moreover have "dest_unchanged st0 dest t" "stat_file tmp t = Some (own_file env c)"
    using w assms unfolding t by (auto simp: dest_unchanged_def stat_file_def update_conv')
  ultimately show "writing env st0 tmp dest enc t \<and> dest_unchanged st0 dest t \<and> stat_file tmp t = Some (own_file env c)"
    by blast
qed simp

lemma os_fails_keeps: "triple P (os_fails io f) (\<lambda>_. P) (\<lambda>_. P)"
  by (rule tripleI) auto

lemma triple_weaken: "triple P m Q E \<Longrightarrow> (\<And>s. P' s \<Longrightarrow> P s) \<Longrightarrow> (\<And>a s. Q a s \<Longrightarrow> Q' a s) \<Longrightarrow> (\<And>e s. E e s \<Longrightarrow> E' e s) \<Longrightarrow> triple P' m Q' E'"
  by (fastforce simp: triple_def split: prod.splits sum.splits)

abbreviation unwritten :: "env \<Rightarrow> Store \<Rightarrow> string \<Rightarrow> string \<Rightarrow> string \<Rightarrow> Store \<Rightarrow> bool" where
  "unwritten env st0 tmp dest enc st \<equiv> writing env st0 tmp dest enc st \<and> dest_unchanged st0 dest st"

lemma write_loop_triple:
  assumes "tmp \<noteq> dest"
  shows "triple (\<lambda>st. unwritten env st0 tmp dest enc st \<and> stat_file tmp st = Some (own_file env written))
    (write_loop env io tmp sizes written view)
    (\<lambda>_ st. unwritten env st0 tmp dest enc st \<and> stat_file tmp st = Some (own_file env (written @ view)))
    (\<lambda>_. unwritten env st0 tmp dest enc)"
proof (induction sizes arbitrary: written view)
  case Nil
  show ?case
  proof (cases "view = []")
    case True
    then show ?thesis by (subst write_loop.simps) (auto simp: triple_def)
  next
    case False
    have "triple (unwritten env st0 tmp dest enc)
        (bind_s (os_fails io Write_Fails) (\<lambda>_. set_file tmp (own_file env (written @ view))))
        (\<lambda>_ st. unwritten env st0 tmp dest enc st \<and> stat_file tmp st = Some (own_file env (written @ view)))
        (\<lambda>_. unwritten env st0 tmp dest enc)"
      by (rule triple_bind [OF os_fails_keeps triple_weaken [OF set_temporary [OF assms]]]) auto
    with False show ?thesis by (subst write_loop.simps) (auto elim: triple_weaken)
  qed
next
  case (Cons n sizes)
  show ?case
  proof (cases "view = [] \<or> n = 0")
    case True
    then show ?thesis by (subst write_loop.simps) (auto simp: triple_def)
  next
    case False
    have "triple (\<lambda>st. unwritten env st0 tmp dest enc st \<and> stat_file tmp st = Some (own_file env written))
        (bind_s (set_file tmp (own_file env (written @ take n view))) (\<lambda>_.
           write_loop env io tmp sizes (written @ take n view) (drop n view)))
        (\<lambda>_ st. unwritten env st0 tmp dest enc st \<and> stat_file tmp st = Some (own_file env ((written @ take n view) @ drop n view)))
        (\<lambda>_. unwritten env st0 tmp dest enc)"
      by (rule triple_bind [OF _ Cons.IH]) (auto intro: triple_weaken [OF set_temporary [OF assms]])
    then show ?thesis using False by (subst write_loop.simps) simp
  qed
qed

lemma triple_gets: "(\<And>a. triple (\<lambda>s. P s \<and> f s = a) (g a) Q E) \<Longrightarrow> triple P (bind_s (gets f) g) Q E"
  by (simp add: triple_def bind_s_run)

lemma triple_lift: "(\<And>a. r = Inr a \<Longrightarrow> triple P (g a) Q E) \<Longrightarrow> (\<And>e s. r = Inl e \<Longrightarrow> P s \<Longrightarrow> E e s) \<Longrightarrow> triple P (bind_s (lift_s r) g) Q E"
  by (cases r) (auto simp: triple_def bind_s_run)

lemma triple_raise: "(\<And>s. P s \<Longrightarrow> E e s) \<Longrightarrow> triple P (raise_s e) Q E"
  by (simp add: triple_def)

lemma triple_ret: "(\<And>s. P s \<Longrightarrow> Q a s) \<Longrightarrow> triple P (ret a) Q E"
  by (simp add: triple_def)

definition replaced :: "env \<Rightarrow> Store \<Rightarrow> string \<Rightarrow> string \<Rightarrow> string \<Rightarrow> Store \<Rightarrow> bool" where
  "replaced env st0 tmp dest enc st \<longleftrightarrow>
     writing env st0 tmp dest enc st \<and> stat_file dest st = Some (own_file env enc) \<and> stat_file tmp st = None"

lemma os_replace_triple:
  assumes "tmp \<noteq> dest"
  shows "triple (\<lambda>st. unwritten env st0 tmp dest enc st \<and> stat_file tmp st = Some (own_file env enc))
    (os_replace io tmp dest)
    (\<lambda>_ st. replaced env st0 tmp dest enc st)
    (\<lambda>_. unwritten env st0 tmp dest enc)"
proof (rule tripleI)
  fix s a t
  assume w: "unwritten env st0 tmp dest enc s \<and> stat_file tmp s = Some (own_file env enc)"
    and r: "os_replace io tmp dest s = (Inr a, t)"
  let ?d = "AList.update dest (own_file env enc) (AList.delete tmp (store_files s))"
  have t: "t = s\<lparr>store_files := ?d, store_trace := store_trace s @ [?d]\<rparr>"
    using w r by (auto simp: os_replace_def put_files_def bind_s_run stat_file_def split: if_splits sum.splits prod.splits)
  have "written_dir env (store_files st0) tmp dest enc ?d"
    using w assms by (intro written_dir_replace) (auto simp: writing_def)
  then have "writing env st0 tmp dest enc t" unfolding t using w writing_put by blast
  then show "replaced env st0 tmp dest enc t"
    using assms unfolding t by (auto simp: replaced_def stat_file_def update_conv' AList.delete_conv')
next
  fix s e t
  assume w: "unwritten env st0 tmp dest enc s \<and> stat_file tmp s = Some (own_file env enc)"
    and r: "os_replace io tmp dest s = (Inl e, t)"
  then have "t = s"
    by (auto simp: os_replace_def put_files_def bind_s_run split: if_splits sum.splits prod.splits)
  with w show "unwritten env st0 tmp dest enc t" by blast
qed

text \<open>When the write fails, the destination is as before, or the last step, the synchronisation of the directory, failed.\<close>

definition failed_write :: "env \<Rightarrow> Store \<Rightarrow> string \<Rightarrow> string \<Rightarrow> string \<Rightarrow> Store \<Rightarrow> bool" where
  "failed_write env st0 tmp dest enc st \<longleftrightarrow>
     writing env st0 tmp dest enc st \<and>
     (dest_unchanged st0 dest st \<or> replaced env st0 tmp dest enc st)"

lemma write_temporary_triple:
  assumes "tmp \<noteq> dest"
  shows "triple (\<lambda>st. unwritten env st0 tmp dest enc st)
    (write_temporary env io tmp dest enc)
    (\<lambda>_. replaced env st0 tmp dest enc)
    (\<lambda>_. failed_write env st0 tmp dest enc)"
proof -
  let ?U = "unwritten env st0 tmp dest enc" and ?F = "\<lambda>_. failed_write env st0 tmp dest enc"
  have u: "?U s \<Longrightarrow> failed_write env st0 tmp dest enc s" for s by (simp add: failed_write_def)
  have rep: "triple (replaced env st0 tmp dest enc) (fsync_dir io) (\<lambda>_. replaced env st0 tmp dest enc) ?F"
    unfolding fsync_dir_def
    by (rule triple_weaken [OF os_fails_keeps [of "replaced env st0 tmp dest enc"]]) (auto simp: failed_write_def replaced_def)
  have tail: "triple (\<lambda>st. ?U st \<and> stat_file tmp st = Some (own_file env enc))
      (bind_s (os_fails io Fsync_Fails) (\<lambda>_. bind_s (os_replace io tmp dest) (\<lambda>_. fsync_dir io)))
      (\<lambda>_. replaced env st0 tmp dest enc) ?F"
  proof -
    let ?P = "\<lambda>st. ?U st \<and> stat_file tmp st = Some (own_file env enc)"
    have "triple ?P (os_fails io Fsync_Fails) (\<lambda>_. ?P) ?F"
      by (rule triple_weaken [OF os_fails_keeps [of ?P]]) (auto intro: u)
    moreover have "triple ?P (os_replace io tmp dest) (\<lambda>_. replaced env st0 tmp dest enc) ?F"
      by (rule triple_weaken [OF os_replace_triple [OF assms]]) (auto intro: u)
    ultimately show ?thesis by (blast intro: triple_bind rep)
  qed
  have loop: "triple (\<lambda>st. ?U st \<and> stat_file tmp st = Some (own_file env []))
      (bind_s (write_loop env io tmp (io_sizes io) [] enc) (\<lambda>_. bind_s (os_fails io Fsync_Fails) (\<lambda>_.
         bind_s (os_replace io tmp dest) (\<lambda>_. fsync_dir io))))
      (\<lambda>_. replaced env st0 tmp dest enc) ?F"
    by (rule triple_bind [OF triple_weaken [OF write_loop_triple [OF assms, of env st0 enc "[]" io "io_sizes io" enc]] tail])
      (auto intro: u)
  let ?rest = "bind_s (write_loop env io tmp (io_sizes io) [] enc) (\<lambda>_. bind_s (os_fails io Fsync_Fails) (\<lambda>_.
         bind_s (os_replace io tmp dest) (\<lambda>_. fsync_dir io)))"
  let ?check = "\<lambda>g. case g of None \<Rightarrow> raise_s (UnsafeStatePath ''unsafe temporary state file'')
    | Some e \<Rightarrow> if f_kind e \<noteq> Regular \<or> f_owner e \<noteq> env_uid env \<or> f_mode e \<noteq> 0x180
         then raise_s (UnsafeStatePath ''unsafe temporary state file'') else ?rest"
  have "?check (Some (own_file env [])) = ?rest" by (simp add: own_file_def)
  with loop have created: "triple (\<lambda>st. ?U st \<and> stat_file tmp st = Some (own_file env []))
      (bind_s (gets (stat_file tmp)) ?check) (\<lambda>_. replaced env st0 tmp dest enc) ?F"
    unfolding triple_def bind_s_run by (simp del: option.case)
  have opened: "triple ?U (bind_s (set_file tmp (own_file env [])) (\<lambda>_. bind_s (gets (stat_file tmp)) ?check))
      (\<lambda>_. replaced env st0 tmp dest enc) ?F"
    by (rule triple_bind [OF set_temporary [OF assms] triple_weaken [OF created]]) auto
  have guarded: "triple ?U (bind_s (gets (stat_file tmp)) (\<lambda>f. if f \<noteq> None then raise_s (OSError ''File exists'')
      else bind_s (set_file tmp (own_file env [])) (\<lambda>_. bind_s (gets (stat_file tmp)) ?check)))
      (\<lambda>_. replaced env st0 tmp dest enc) ?F"
  proof (rule triple_gets)
    fix f
    show "triple (\<lambda>s. ?U s \<and> stat_file tmp s = f) (if f \<noteq> None then raise_s (OSError ''File exists'')
        else bind_s (set_file tmp (own_file env [])) (\<lambda>_. bind_s (gets (stat_file tmp)) ?check))
        (\<lambda>_. replaced env st0 tmp dest enc) ?F"
    proof (cases "f = None")
      case True
      show ?thesis unfolding True by (simp only: simp_thms if_False, rule triple_weaken [OF opened]) auto
    next
      case False
      then show ?thesis by (auto intro!: triple_raise u)
    qed
  qed
  have "triple ?U (os_fails io Open_Fails) (\<lambda>_. ?U) ?F"
    by (rule triple_weaken [OF os_fails_keeps [of ?U]]) (auto intro: u)
  then show ?thesis unfolding write_temporary_def by (rule triple_bind [OF _ guarded])
qed

lemma remove_known_temporary_keeps:
  assumes "tmp \<noteq> dest" and "\<And>d st. I st \<Longrightarrow> stat_file tmp st \<noteq> None \<Longrightarrow>
    I (st\<lparr>store_files := AList.delete tmp (store_files st), store_trace := store_trace st @ [AList.delete tmp (store_files st)]\<rparr>)"
  shows "keeps I (remove_known_temporary env io tmp)"
  using assms(2)
  by (auto simp: triple_def remove_known_temporary_def os_unlink_def put_files_def bind_s_run when_s_def
      split: option.splits prod.splits sum.splits if_splits)

text \<open>
  The whole write: either it returns and the destination holds the bytes, or it raises; in both cases every directory
  on the way is a \<open>written_dir\<close>, and the temporary file is gone unless removing it failed.
\<close>

definition write_outcome :: "env \<Rightarrow> io \<Rightarrow> Store \<Rightarrow> string \<Rightarrow> string \<Rightarrow> string \<Rightarrow> unit result \<times> Store \<Rightarrow> bool" where
  "write_outcome env io st0 tmp dest enc p \<longleftrightarrow>
     (case p of
        (Inr _, t) \<Rightarrow> replaced env st0 tmp dest enc t
      | (Inl _, t) \<Rightarrow> failed_write env st0 tmp dest enc t \<and>
          (io_fault io \<noteq> Some Unlink_Fails \<longrightarrow> stat_file tmp t = None))"

lemma remove_known_temporary_writing:
  assumes "tmp \<noteq> dest" "failed_write env st0 tmp dest enc s"
  shows "\<exists>r t. remove_known_temporary env io tmp s = (r, t) \<and> failed_write env st0 tmp dest enc t \<and>
    (io_fault io \<noteq> Some Unlink_Fails \<longrightarrow> r = Inr () \<and> stat_file tmp t = None)"
proof (cases "stat_file tmp s")
  case None
  with assms(2) show ?thesis by (simp add: remove_known_temporary_def bind_s_run)
next
  case (Some e)
  have w: "writing env st0 tmp dest enc s" using assms(2) by (simp add: failed_write_def)
  with Some obtain c where e: "e = own_file env c" by (auto simp: writing_def written_dir_def stat_file_def)
  let ?d = "AList.delete tmp (store_files s)"
  let ?t = "s\<lparr>store_files := ?d, store_trace := store_trace s @ [?d]\<rparr>"
  have "written_dir env (store_files st0) tmp dest enc ?d"
    using w assms(1) by (intro written_dir_temporary(2)) (auto simp: writing_def)
  then have "writing env st0 tmp dest enc ?t" using w writing_put by blast
  moreover have "\<not> replaced env st0 tmp dest enc s" using Some by (simp add: replaced_def)
  then have "dest_unchanged st0 dest ?t"
    using assms by (simp add: failed_write_def dest_unchanged_def stat_file_def AList.delete_conv')
  ultimately have "failed_write env st0 tmp dest enc ?t" by (simp add: failed_write_def)
  then show ?thesis using Some e assms(2)
    by (cases "io_fault io = Some Unlink_Fails")
      (simp_all add: remove_known_temporary_def bind_s_run os_unlink_def own_file_def os_fails_def put_files_def
        AList.delete_conv')
qed

lemma unwritten_refl:
  "stat_file tmp st = None \<Longrightarrow> unwritten env st tmp dest enc st"
  by (auto simp: writing_def written_dir_def dest_unchanged_def stat_file_def)

lemma guarded_write:
  assumes "tmp \<noteq> dest" "stat_file tmp st = None"
  shows "write_outcome env io st tmp dest enc
    (catch (write_temporary env io tmp dest enc)
       (\<lambda>e. bind_s (remove_known_temporary env io tmp) (\<lambda>_. raise_s e)) st)"
proof -
  obtain r t where w: "write_temporary env io tmp dest enc st = (r, t)" by force
  have u: "unwritten env st tmp dest enc st" by (rule unwritten_refl) fact
  show ?thesis
  proof (cases r)
    case (Inr a)
    with w triple_InrD [OF write_temporary_triple [OF assms(1)], of env st enc st io "()" t] u show ?thesis
      by (auto simp: write_outcome_def catch_def)
  next
    case (Inl e)
    with w u have "failed_write env st tmp dest enc t"
      using triple_InlD [OF write_temporary_triple [OF assms(1)], of env st enc st io e t] by simp
    from remove_known_temporary_writing [OF assms(1) this, of io] w Inl show ?thesis
      by (auto simp: write_outcome_def catch_def bind_s_run split: sum.splits)
  qed
qed

text \<open>The checks before the write leave the store alone.\<close>

definition encodable :: "env \<Rightarrow> json \<Rightarrow> (json \<Rightarrow> 'a result) \<Rightarrow> nat \<Rightarrow> string \<Rightarrow> bool" where
  "encodable env value decoder maximum enc \<longleftrightarrow>
     encode_state (env_repr env) value = Inr enc \<and> length enc \<le> maximum \<and>
     (\<exists>d x. loads_bytes enc = Inr (JObj d) \<and> decode_versioned d decoder = Inr x)"

lemma atomic_json_write_cases:
  obtains (early) e where "atomic_json_write env io dest v decoder maximum kind st = (Inl e, st)"
      "(\<nexists>enc. encodable env v decoder maximum enc) \<or> (\<exists>f. stat_file dest st = Some f \<and> unsafe_file env dest f \<noteq> Inr ())"
    | (run) enc where "encodable env v decoder maximum enc"
      "\<forall>f. stat_file dest st = Some f \<longrightarrow> unsafe_file env dest f = Inr ()"
      "atomic_json_write env io dest v decoder maximum kind st =
        catch (write_temporary env io (temporary_name io) dest enc)
          (\<lambda>e. bind_s (remove_known_temporary env io (temporary_name io)) (\<lambda>_. raise_s e)) st"
proof (cases "stat_file dest st \<noteq> None \<and> unsafe_file env dest (the (stat_file dest st)) \<noteq> Inr ()")
  case True
  then obtain f e where "stat_file dest st = Some f" "unsafe_file env dest f = Inl e"
    by (cases "unsafe_file env dest (the (stat_file dest st))") auto
  with early [of e] show ?thesis by (auto simp: atomic_json_write_def verify_existing_destination_def bind_s_run)
next
  case False
  then have ver: "verify_existing_destination env dest st = (Inr (), st)"
    by (auto simp: verify_existing_destination_def bind_s_run split: option.splits)
  show ?thesis
  proof (cases "\<exists>enc. encodable env v decoder maximum enc")
    case True
    then obtain enc d x where "encodable env v decoder maximum enc" and
      "encode_state (env_repr env) v = Inr enc" "length enc \<le> maximum" "loads_bytes enc = Inr (JObj d)"
      "decode_versioned d decoder = Inr x" unfolding encodable_def by blast
    moreover have "\<forall>f. stat_file dest st = Some f \<longrightarrow> unsafe_file env dest f = Inr ()" using False by auto
    ultimately show ?thesis using ver by (intro run [of enc]) (simp_all add: atomic_json_write_def bind_s_run)
  next
    case False
    then have "\<exists>e. atomic_json_write env io dest v decoder maximum kind st = (Inl e, st)"
      using ver by (auto simp: atomic_json_write_def bind_s_run encodable_def raise_if_def split: sum.splits json.splits if_splits)
    with early False show ?thesis by blast
  qed
qed


lemma temporary_name_other [simp]:
  "temporary_name io \<noteq> recovery_file" "temporary_name io \<noteq> tombstone_file b" "temporary_name io \<noteq> lock_file"
  "temporary_name io \<noteq> checkpoint_name g"
  by (simp_all add: temporary_name_def recovery_file_def tombstone_file_def lock_file_def checkpoint_name_def CHECKPOINT_PREFIX_def)

lemma atomic_json_write_outcome:
  assumes "temporary_name io \<noteq> dest" "stat_file (temporary_name io) st = None"
    and "atomic_json_write env io dest v decoder maximum kind st = (r, t)"
  shows "(\<exists>e. r = Inl e \<and> t = st) \<or>
    (\<exists>enc. encodable env v decoder maximum enc \<and> write_outcome env io st (temporary_name io) dest enc (r, t))"
proof (cases rule: atomic_json_write_cases [where env = env and io = io and dest = dest and v = v and
      decoder = decoder and maximum = maximum and kind = kind and st = st])
  case (early e)
  with assms(3) have "r = Inl e" "t = st" by simp_all
  then show ?thesis by blast
next
  case (run enc)
  with assms(3) guarded_write [OF assms(1,2), of env io enc] show ?thesis by auto
qed

section \<open>Writing and pruning checkpoints\<close>

lemma bind_s_eq: "bind_s m f s = (r, u) \<longleftrightarrow>
    (\<exists>e. m s = (Inl e, u) \<and> r = Inl e) \<or> (\<exists>a t. m s = (Inr a, t) \<and> f a t = (r, u))"
  by (auto simp: bind_s_run split: prod.splits sum.splits)

definition loads_ok :: "env \<Rightarrow> Store \<Rightarrow> string \<Rightarrow> bool" where
  "loads_ok env st name \<longleftrightarrow> (\<exists>s. load_checkpoint env st name = Inr s)"

lemma load_checkpoint_cong:
  "stat_file name st = stat_file name st' \<Longrightarrow> load_checkpoint env st name = load_checkpoint env st' name"
  unfolding load_checkpoint_def using read_json_cong [of name st st'] by simp

lemma valid_names_Inr:
  "valid_names env st names = Inr ns \<Longrightarrow>
     ns = filter (loads_ok env st) names \<and>
     (\<forall>n \<in> set names. \<forall>e. load_checkpoint env st n = Inl e \<longrightarrow> invalid_state e)"
  by (induction names arbitrary: ns) (auto simp: loads_ok_def split: sum.splits if_splits)

definition without :: "string set \<Rightarrow> directory \<Rightarrow> directory" where
  "without ns d = filter (\<lambda>(n, e). n \<notin> ns) d"

lemma delete_without: "AList.delete n d = without {n} d"
  by (auto simp: without_def AList.delete_eq intro: filter_cong)

lemma without_without [simp]: "without a (without b d) = without (a \<union> b) d"
  by (auto simp: without_def intro: filter_cong)

lemma without_absent: "map_of d n = None \<Longrightarrow> without {n} d = d"
  unfolding without_def by (rule filter_True) (auto simp: map_of_eq_None_iff image_iff)

lemma without_empty [simp]: "without {} d = d"
  by (simp add: without_def)

lemma map_of_without: "map_of (without ns d) n = (if n \<in> ns then None else map_of d n)"
  by (induction d) (auto simp: without_def)

lemma map_fst_without: "map fst (without ns d) = filter (\<lambda>n. n \<notin> ns) (map fst d)"
  by (induction d) (auto simp: without_def)

lemma os_unlink_Inr:
  "os_unlink io n st = (Inr u, t) \<Longrightarrow>
     \<exists>tr. t = st\<lparr>store_files := without {n} (store_files st), store_trace := tr\<rparr>"
  by (auto simp: os_unlink_def bind_s_eq put_files_def delete_without split: option.splits if_splits)

lemma os_unlink_missing: "os_unlink io n st = (Inl e, t) \<Longrightarrow> is_FileNotFoundError e \<Longrightarrow> t = st \<and> stat_file n st = None"
  by (auto simp: os_unlink_def bind_s_eq put_files_def split: option.splits if_splits)

lemma unlink_each_Inr:
  "unlink_each io names b st = (Inr r, t) \<Longrightarrow>
     \<exists>tr. t = st\<lparr>store_files := without (set names) (store_files st), store_trace := tr\<rparr>"
proof (induction names arbitrary: b st)
  case Nil
  then show ?case by (auto intro: exI [of _ "store_trace st"])
next
  case (Cons n names)
  then obtain r' u where first: "catch (bind_s (os_unlink io n) (\<lambda>_. ret True))
        (\<lambda>e. if is_FileNotFoundError e then ret b else raise_s e) st = (Inr r', u)"
    and rest: "unlink_each io names r' u = (Inr r, t)"
    by (auto simp: bind_s_eq)
  have "\<exists>tr. u = st\<lparr>store_files := without {n} (store_files st), store_trace := tr\<rparr>"
  proof (cases "os_unlink io n st")
    case (Pair x v)
    show ?thesis
    proof (cases x)
      case (Inl e)
      with first Pair have "is_FileNotFoundError e" "u = v" by (auto simp: catch_def bind_s_run split: if_splits)
      with os_unlink_missing [of io n st e v] Pair Inl have "u = st" "stat_file n st = None" by auto
      then show ?thesis using without_absent [of "store_files st" n]
        by (intro exI [of _ "store_trace st"]) (simp add: stat_file_def)
    next
      case (Inr y)
      with first Pair os_unlink_Inr [of io n st y v] show ?thesis by (auto simp: catch_def bind_s_run)
    qed
  qed
  then obtain tr where tr: "u = st\<lparr>store_files := without {n} (store_files st), store_trace := tr\<rparr>" by blast
  have "set names \<union> {n} = set (n # names)" by auto
  with Cons.IH [OF rest] show ?case unfolding tr by (auto simp del: list.set)
qed

lemma checkpoint_names_without:
  "checkpoint_names (st\<lparr>store_files := without ns (store_files st), store_trace := tr\<rparr>) =
     filter (\<lambda>n. n \<notin> ns) (checkpoint_names st)"
proof -
  have "filter is_checkpoint_name (map fst (without ns (store_files st))) =
      filter (\<lambda>n. n \<notin> ns) (filter is_checkpoint_name (map fst (store_files st)))"
    unfolding map_fst_without by (simp add: conj_commute)
  then have "sort (filter is_checkpoint_name (map fst (without ns (store_files st)))) =
      filter (\<lambda>n. n \<notin> ns) (sort (filter is_checkpoint_name (map fst (store_files st))))"
    by (simp only: filter_sort)
  then show ?thesis by (simp add: checkpoint_names_def rev_filter)
qed

lemma set_checkpoint_names: "set (checkpoint_names st) = {n. is_checkpoint_name n \<and> stat_file n st \<noteq> None}"
  by (auto simp: checkpoint_names_def stat_file_def map_of_eq_None_iff image_iff)

lemma checkpoint_names_distinct: "distinct (map fst (store_files st)) \<Longrightarrow> distinct (checkpoint_names st)"
  by (simp add: checkpoint_names_def)

lemma prune_Inr:
  assumes "prune_checkpoints_unlocked env io st = (Inr u, t)"
  obtains tr where
    "t = st\<lparr>store_files := without (set (drop MAX_CHECKPOINTS (filter (loads_ok env st) (checkpoint_names st))))
       (store_files st), store_trace := tr\<rparr>"
    "\<forall>n \<in> set (checkpoint_names st). \<forall>e. load_checkpoint env st n = Inl e \<longrightarrow> invalid_state e"
proof -
  from assms obtain ns r v where n: "valid_names env st (checkpoint_names st) = Inr ns"
    and u: "unlink_each io (drop MAX_CHECKPOINTS ns) False st = (Inr r, v)"
    and w: "when_s r (fsync_dir io) v = (Inr u, t)"
    by (auto simp: prune_checkpoints_unlocked_def bind_s_eq)
  from w have "t = v" by (cases r) (auto simp: fsync_dir_def)
  with unlink_each_Inr [OF u] valid_names_Inr [OF n] that show ?thesis by auto
qed

lemma loop_collects:
  "(\<forall>n \<in> set names. \<forall>e. load_checkpoint env st n = Inl e \<longrightarrow> invalid_state e) \<Longrightarrow>
   valid \<noteq> [] \<Longrightarrow> \<exists>more t. load_loop env names valid st = (Inr (valid @ more), t)"
proof (induction names arbitrary: valid st)
  case (Cons n names)
  have step: "\<exists>more t. load_loop env names w (st\<lparr>store_diagnostics := x\<rparr>) = (Inr (w @ more), t)" if "w \<noteq> []" for w x
    using Cons.prems(1) that by (intro Cons.IH) (auto simp: load_checkpoint_def read_json_def stat_file_def)
  show ?case
  proof (cases "load_checkpoint env st n")
    case (Inl e)
    with Cons.prems have "invalid_state e" by auto
    with Inl step [OF Cons.prems(2)] Cons.prems(2) show ?thesis
      by (cases e) (auto simp: bind_s_run diagnose_def)
  next
    case (Inr item)
    have "\<exists>more t. load_loop env names (valid @ [item]) st = (Inr ((valid @ [item]) @ more), t)"
      using Cons.prems(1) by (intro Cons.IH) auto
    with Inr show ?thesis by (auto simp: bind_s_run)
  qed
qed simp


section \<open>Names of checkpoints\<close>

lemma digits_value_Cons: "digits_value (c # s) = (code c - 48) * 10 ^ length s + digits_value s"
proof -
  have f: "foldl (\<lambda>a c. 10 * a + (code c - 48)) k s = k * 10 ^ length s + digits_value s" for k :: nat and s
    unfolding digits_value_def
  proof (induction s arbitrary: k rule: rev_induct)
    case (snoc c s)
    from snoc [of k] snoc [of 0] show ?case by (simp add: algebra_simps)
  qed simp
  show ?thesis using f [of "code c - 48" s] by (simp add: digits_value_def)
qed

lemma digits_value_less: "list_all is_digit s \<Longrightarrow> digits_value s < 10 ^ length s"
proof (induction s)
  case Nil
  show ?case by (simp add: digits_value_def)
next
  case (Cons c s)
  then have "code c - 48 \<le> 9" "digits_value s < 10 ^ length s" by (auto simp: is_digit_def)
  then have "(code c - 48) * 10 ^ length s + digits_value s < 9 * 10 ^ length s + 10 ^ length s"
    by (intro add_le_less_mono mult_right_mono) auto
  then show ?case by (simp add: digits_value_Cons)
qed

lemma code_less_iff: "c < d \<longleftrightarrow> code c < code d"
  by (simp add: less_char_def code_def)

lemma code_inject: "code c = code d \<longleftrightarrow> c = d"
  by (simp add: code_def)

lemma digits_le_iff:
  "length a = length b \<Longrightarrow> list_all is_digit a \<Longrightarrow> list_all is_digit b \<Longrightarrow> a \<le> b \<longleftrightarrow> digits_value a \<le> digits_value b"
proof (induction a b rule: list_induct2)
  case (Cons c s d t)
  let ?x = "code c - 48" and ?y = "code d - 48" and ?p = "10 ^ length s :: nat"
  have b: "digits_value s < ?p" "digits_value t < ?p" using Cons digits_value_less [of s] digits_value_less [of t] by auto
  have d: "48 \<le> code c" "48 \<le> code d" using Cons.prems by (auto simp: is_digit_def)
  have lt: "u * ?p + m < v * ?p + n" if "u < v" "m < ?p" for u v m n :: nat
  proof -
    have "(u + 1) * ?p \<le> v * ?p" using that(1) by (intro mult_right_mono) auto
    then show ?thesis using that(2) by simp
  qed
  show ?case
  proof (rule linorder_cases [of "code c" "code d"])
    assume l: "code c < code d"
    then have "c < d" by (simp add: code_less_iff)
    moreover have "?x < ?y" using l d by auto
    ultimately show ?thesis using lt [of ?x ?y "digits_value s" "digits_value t"] b Cons.hyps
      by (simp add: digits_value_Cons)
  next
    assume "code c = code d"
    with Cons show ?thesis by (simp add: digits_value_Cons code_inject)
  next
    assume l: "code d < code c"
    then have "\<not> c < d" "c \<noteq> d" by (auto simp: code_less_iff)
    moreover have "?y < ?x" using l d by auto
    ultimately show ?thesis using lt [of ?y ?x "digits_value t" "digits_value s"] b Cons.hyps
      by (simp add: digits_value_Cons)
  qed
qed simp

lemma append_prefix_le: "p @ x \<le> p @ y \<longleftrightarrow> x \<le> (y :: string)"
  by (induction p) auto

lemma append_suffix_le: "length x = length y \<Longrightarrow> x @ s \<le> y @ s \<longleftrightarrow> x \<le> (y :: string)"
  by (induction x y rule: list_induct2) auto

lemma digits_value_zeros: "digits_value (replicate k CHR ''0'' @ s) = digits_value s"
  by (induction k) (simp_all add: digits_value_Cons code_def)

lemma zero_pad_digits: "list_all is_digit s \<Longrightarrow> list_all is_digit (zero_pad n s) \<and> digits_value (zero_pad n s) = digits_value s"
  by (auto simp: zero_pad_def digits_value_zeros list_all_iff is_digit_def code_def)

definition generation_text :: "int \<Rightarrow> string" where
  "generation_text g = zero_pad CHECKPOINT_DIGITS (int_text g)"

lemma generation_text:
  assumes "0 \<le> g"
  shows "list_all is_digit (generation_text g)" "digits_value (generation_text g) = nat g"
    "length (generation_text g) = CHECKPOINT_DIGITS \<longleftrightarrow> g < 10 ^ CHECKPOINT_DIGITS"
proof -
  have t: "int_text g = nat_text (nat g)" using assms by (simp add: int_text_def)
  show "list_all is_digit (generation_text g)" "digits_value (generation_text g) = nat g"
    using nat_text_digits [of "nat g"] zero_pad_digits [of "nat_text (nat g)" CHECKPOINT_DIGITS] t
    by (simp_all add: generation_text_def)
  have "length (generation_text g) = CHECKPOINT_DIGITS \<longleftrightarrow> length (nat_text (nat g)) \<le> CHECKPOINT_DIGITS"
    by (auto simp: generation_text_def zero_pad_def t)
  also have "\<dots> \<longleftrightarrow> nat g < 10 ^ CHECKPOINT_DIGITS" by (rule nat_text_length) (simp add: CHECKPOINT_DIGITS_def)
  also have "\<dots> \<longleftrightarrow> g < 10 ^ CHECKPOINT_DIGITS" using assms nat_less_iff [of g "10 ^ CHECKPOINT_DIGITS"] by simp
  finally show "length (generation_text g) = CHECKPOINT_DIGITS \<longleftrightarrow> g < 10 ^ CHECKPOINT_DIGITS" .
qed

lemma checkpoint_name_unfold: "checkpoint_name g = CHECKPOINT_PREFIX @ generation_text g @ CHECKPOINT_SUFFIX"
  by (simp add: checkpoint_name_def generation_text_def)

lemma is_checkpoint_name_iff:
  "is_checkpoint_name (CHECKPOINT_PREFIX @ x @ CHECKPOINT_SUFFIX) \<longleftrightarrow> length x = CHECKPOINT_DIGITS \<and> list_all is_digit x"
  by (auto simp: is_checkpoint_name_def startswith_iff endswith_iff Let_def)

lemma checkpoint_name_is: "0 \<le> g \<Longrightarrow> is_checkpoint_name (checkpoint_name g) \<longleftrightarrow> g < 10 ^ CHECKPOINT_DIGITS"
  using generation_text [of g] by (simp add: checkpoint_name_unfold is_checkpoint_name_iff)

lemma checkpoint_name_le:
  assumes "0 \<le> g" "g < 10 ^ CHECKPOINT_DIGITS" "0 \<le> h" "h < 10 ^ CHECKPOINT_DIGITS"
  shows "checkpoint_name g \<le> checkpoint_name h \<longleftrightarrow> g \<le> h"
proof -
  have "length (generation_text g) = length (generation_text h)" using generation_text(3) [of g] generation_text(3) [of h] assms by simp
  then show ?thesis
    using generation_text [of g] generation_text [of h] assms
    by (simp add: checkpoint_name_unfold append_prefix_le append_suffix_le digits_le_iff nat_le_eq_zle)
qed

section \<open>Theorems on checkpoints\<close>

definition own_readable :: "env \<Rightarrow> bool" where
  "own_readable env \<longleftrightarrow> (\<forall>c. env_may_read env (own_file env c))"

lemma encodable_reads_back:
  assumes "encodable env v decoder maximum enc" "stat_file name st = Some (own_file env enc)" "own_readable env"
  obtains d x where "read_json env name maximum kind st = Inr d" "loads_bytes enc = Inr (JObj d)"
    "decode_versioned d decoder = Inr x"
  using assms read_json_regular [OF assms(2), of maximum kind]
  by (auto simp: encodable_def own_readable_def)

lemma decode_versioned_Inr: "decode_versioned d decoder = Inr x \<Longrightarrow> decoder (JObj d) = Inr x"
  by (auto simp: decode_versioned_def split: option.splits json.splits if_splits)

definition fresh_token :: "io \<Rightarrow> Store \<Rightarrow> bool" where
  "fresh_token io st \<longleftrightarrow> stat_file (temporary_name io) st = None"

lemma write_unlocked_Inr:
  assumes "write_unlocked env io s st = (Inr p, t)" "fresh_token io st"
  obtains payload enc u tr where "snapshot_to_dict s = Inr payload"
    "encodable env payload snapshot_from_dict MAX_SNAPSHOT_BYTES enc"
    "replaced env st (temporary_name io) (checkpoint_name (generation s)) enc u"
    "t = u\<lparr>store_files := without (set (drop MAX_CHECKPOINTS (filter (loads_ok env u) (checkpoint_names u))))
       (store_files u), store_trace := tr\<rparr>"
    "\<forall>n \<in> set (checkpoint_names u). \<forall>e. load_checkpoint env u n = Inl e \<longrightarrow> invalid_state e"
proof -
  from assms(1) obtain payload u x where pay: "snapshot_to_dict s = Inr payload"
    and a: "atomic_json_write env io (checkpoint_name (generation s)) payload snapshot_from_dict MAX_SNAPSHOT_BYTES
      ''snapshot'' st = (Inr (), u)"
    and pr: "prune_checkpoints_unlocked env io u = (Inr x, t)"
    by (auto simp: write_unlocked_def bind_s_eq)
  from atomic_json_write_outcome [OF _ _ a] assms(2) obtain enc where
    "encodable env payload snapshot_from_dict MAX_SNAPSHOT_BYTES enc"
    "replaced env st (temporary_name io) (checkpoint_name (generation s)) enc u"
    by (auto simp: write_outcome_def fresh_token_def)
  with pay prune_Inr [OF pr] that show ?thesis by metis
qed

lemma writing_other:
  assumes "writing env st tmp dest enc u"
  shows "store_closed u = store_closed st" "transaction_depth u = transaction_depth st" "state_dir u = state_dir st"
    "store_diagnostics u = store_diagnostics st"
proof -
  have "u = st\<lparr>store_files := store_files u, store_trace := store_trace u\<rparr>" using assms by (simp add: writing_def)
  then show "store_closed u = store_closed st" "transaction_depth u = transaction_depth st" "state_dir u = state_dir st"
    "store_diagnostics u = store_diagnostics st"
    by (cases u; cases st; simp)+
qed

lemma replaced_other: "replaced env st tmp dest enc u \<Longrightarrow> store_closed u = store_closed st"
  by (auto simp: replaced_def dest: writing_other)

lemma replaced_stat:
  "replaced env st tmp dest enc u \<Longrightarrow> tmp \<noteq> dest \<Longrightarrow> stat_file n u =
     (if n = dest then Some (own_file env enc) else if n = tmp then None else stat_file n st)"
  by (auto simp: replaced_def writing_def written_dir_def stat_file_def)

lemma written_checkpoint_loads:
  assumes "wf_snapshot s" "snapshot_to_dict s = Inr payload"
    "encodable env payload snapshot_from_dict MAX_SNAPSHOT_BYTES enc"
    "stat_file name u = Some (own_file env enc)" "own_readable env" "float_printable (env_repr env) (captured_at s)"
  shows "load_checkpoint env u name = Inr s"
proof -
  obtain d x where d: "read_json env name MAX_SNAPSHOT_BYTES ''snapshot'' u = Inr d" "loads_bytes enc = Inr (JObj d)"
    "decode_versioned d snapshot_from_dict = Inr x"
    using encodable_reads_back [OF assms(3,4,5)] by blast
  have "encode_state (env_repr env) payload = Inr enc" using assms(3) by (simp add: encodable_def)
  from snapshot_bytes [OF assms(1,2) this assms(6)] d have "snapshot_from_dict (JObj d) = Inr s" by simp
  with d decode_versioned_Inr [OF d(3)] show ?thesis by (simp add: load_checkpoint_def)
qed

lemma rev_sort_max:
  assumes "x \<in> set xs" "\<forall>y \<in> set xs. y \<le> (x :: string)" "distinct xs"
  shows "\<exists>ys. rev (sort xs) = x # ys"
proof -
  let ?r = "rev (sort xs)"
  have s: "sorted (rev ?r)" by simp
  have "xs \<noteq> []" using assms(1) by auto
  then have "length ?r \<noteq> 0" by simp
  then obtain y ys where r: "?r = y # ys" by (cases ?r) (simp_all del: length_rev length_sort)
  then have "\<forall>z \<in> set ys. z \<le> y" using s by (simp add: sorted_append)
  moreover have "x \<in> set (y # ys)" using assms(1) r by (metis set_rev set_sort)
  moreover have "y \<in> set xs" using r by (metis list.set_intros(1) set_rev set_sort)
  ultimately have "x = y" using assms(2) by fastforce
  with r show ?thesis by simp
qed

lemma checkpoint_names_first:
  assumes "distinct (map fst (store_files u))" "stat_file x u \<noteq> None" "is_checkpoint_name x"
    "\<forall>y. is_checkpoint_name y \<longrightarrow> stat_file y u \<noteq> None \<longrightarrow> y \<le> x"
  shows "\<exists>ys. checkpoint_names u = x # ys"
  unfolding checkpoint_names_def
proof (rule rev_sort_max)
  show "x \<in> set (filter is_checkpoint_name (map fst (store_files u)))"
    "\<forall>y \<in> set (filter is_checkpoint_name (map fst (store_files u))). y \<le> x"
    using assms set_checkpoint_names [of u] by (auto simp: checkpoint_names_def)
  show "distinct (filter is_checkpoint_name (map fst (store_files u)))" using assms(1) by simp
qed

lemma replaced_distinct: "replaced env st tmp dest enc u \<Longrightarrow> distinct (map fst (store_files st)) \<Longrightarrow> distinct (map fst (store_files u))"
  by (simp add: replaced_def writing_def written_dir_def)

lemma load_without:
  "n \<notin> ns \<Longrightarrow> load_checkpoint env (u\<lparr>store_files := without ns (store_files u), store_trace := tr\<rparr>) n = load_checkpoint env u n"
  by (rule load_checkpoint_cong) (simp add: stat_file_def map_of_without)


text \<open>What runs inside a transaction does not see its depth.\<close>

abbreviation entered :: "Store \<Rightarrow> Store" where
  "entered st \<equiv> st\<lparr>transaction_depth := transaction_depth st + 1\<rparr>"

abbreviation left :: "Store \<Rightarrow> Store" where
  "left st \<equiv> st\<lparr>transaction_depth := transaction_depth st - 1\<rparr>"

lemma transaction_eq:
  "transaction m st = (r, t) \<longleftrightarrow>
     (if store_closed st then r = Inl (RuntimeError ''SnapshotStore is closed'') \<and> t = st
      else \<exists>u. m (entered st) = (r, u) \<and> t = left u)"
  by (auto simp: transaction_def split: prod.splits)

lemma depth_irrelevant [simp]:
  "load_checkpoint env (st\<lparr>transaction_depth := k\<rparr>) n = load_checkpoint env st n"
  "checkpoint_names (st\<lparr>transaction_depth := k\<rparr>) = checkpoint_names st"
  "read_json env n m kd (st\<lparr>transaction_depth := k\<rparr>) = read_json env n m kd st"
  "fresh_token io (st\<lparr>transaction_depth := k\<rparr>) = fresh_token io st"
  by (simp_all add: load_checkpoint_def read_json_def stat_file_def checkpoint_names_def fresh_token_def)

text \<open>After a write the new checkpoint is the first of the remaining ones, and the others are readable or skipped.\<close>

lemma write_unlocked_first:
  assumes "write_unlocked env io s st = (Inr p, t)" and "wf_snapshot s" "generation s < 10 ^ CHECKPOINT_DIGITS"
    and "\<forall>n. is_checkpoint_name n \<longrightarrow> stat_file n st \<noteq> None \<longrightarrow> n \<le> checkpoint_name (generation s)"
    and "distinct (map fst (store_files st))" "fresh_token io st" "own_readable env"
    and "float_printable (env_repr env) (captured_at s)"
  shows "\<exists>ys. checkpoint_names t = checkpoint_name (generation s) # ys \<and>
    load_checkpoint env t (checkpoint_name (generation s)) = Inr s \<and>
    (\<forall>n \<in> set ys. \<forall>e. load_checkpoint env t n = Inl e \<longrightarrow> invalid_state e) \<and>
    store_closed t = store_closed st"
proof -
  let ?n = "checkpoint_name (generation s)"
  obtain payload enc u tr where pay: "snapshot_to_dict s = Inr payload"
    and e: "encodable env payload snapshot_from_dict MAX_SNAPSHOT_BYTES enc"
    and u: "replaced env st (temporary_name io) ?n enc u"
    and t: "t = u\<lparr>store_files := without (set (drop MAX_CHECKPOINTS (filter (loads_ok env u) (checkpoint_names u))))
       (store_files u), store_trace := tr\<rparr>"
    and inv: "\<forall>n \<in> set (checkpoint_names u). \<forall>e. load_checkpoint env u n = Inl e \<longrightarrow> invalid_state e"
    by (rule write_unlocked_Inr [OF assms(1,6)])
  have g: "0 \<le> generation s" using assms(2) by (simp add: wf_snapshot_def)
  have stat: "stat_file ?n u = Some (own_file env enc)" using u by (simp add: replaced_def)
  have load: "load_checkpoint env u ?n = Inr s"
    by (rule written_checkpoint_loads [OF assms(2) pay e stat assms(7,8)])
  have d: "distinct (map fst (store_files u))" by (rule replaced_distinct [OF u assms(5)])
  have "\<forall>y. is_checkpoint_name y \<longrightarrow> stat_file y u \<noteq> None \<longrightarrow> y \<le> ?n"
    using replaced_stat [OF u] assms(4) by auto
  then obtain ys where names: "checkpoint_names u = ?n # ys"
    using checkpoint_names_first [OF d, of ?n] stat checkpoint_name_is [OF g] assms(3) by auto
  let ?drop = "set (drop MAX_CHECKPOINTS (filter (loads_ok env u) (checkpoint_names u)))"
  have "?n \<notin> set ys" using checkpoint_names_distinct [OF d] names by simp
  moreover have "loads_ok env u ?n" using load by (simp add: loads_ok_def)
  ultimately have keep: "?n \<notin> ?drop" unfolding names by (auto simp: MAX_CHECKPOINTS_def dest: in_set_dropD)
  have "checkpoint_names t = filter (\<lambda>n. n \<notin> ?drop) (?n # ys)" unfolding t checkpoint_names_without names ..
  moreover have "load_checkpoint env t n = load_checkpoint env u n" if "n \<notin> ?drop" for n
    unfolding t using that by (rule load_without)
  moreover have "store_closed t = store_closed st" using replaced_other [OF u] t by simp
  ultimately show ?thesis using keep load inv names by auto
qed

text \<open>After a successful write of a snapshot whose name is the greatest of the directory, loading the
  latest checkpoint gives that snapshot back, whatever else lies in the directory.\<close>

theorem write_then_load_latest:
  assumes "write_snapshot env io s st = (Inr p, t)" and "wf_snapshot s" "generation s < 10 ^ CHECKPOINT_DIGITS"
    and "\<forall>n. is_checkpoint_name n \<longrightarrow> stat_file n st \<noteq> None \<longrightarrow> n \<le> checkpoint_name (generation s)"
    and "distinct (map fst (store_files st))" "fresh_token io st" "own_readable env"
    and "float_printable (env_repr env) (captured_at s)"
  shows "fst (load_latest env t) = Inr (Some s)"
proof -
  obtain t1 where w: "write_unlocked env io s (entered st) = (Inr p, t1)" and t: "t = left t1" and "\<not> store_closed st"
    using assms(1) by (auto simp: write_snapshot_def transaction_eq split: if_splits)
  then obtain ys where first: "checkpoint_names t1 = checkpoint_name (generation s) # ys"
    "load_checkpoint env t1 (checkpoint_name (generation s)) = Inr s"
    "\<forall>n \<in> set ys. \<forall>e. load_checkpoint env t1 n = Inl e \<longrightarrow> invalid_state e" and "\<not> store_closed t1"
    using write_unlocked_first [OF w] assms by auto
  have "\<exists>more v. load_loop env ys [s] (entered t) = (Inr ([s] @ more), v)"
    using first by (intro loop_collects) (auto simp: t)
  then show ?thesis using first \<open>\<not> store_closed t1\<close> t
    by (auto simp: load_latest_def transaction_def load_valid_checkpoints_unlocked_def bind_s_run split: prod.splits)
qed


section \<open>Writes succeed when nothing fails\<close>

definition no_fault :: "io \<Rightarrow> bool" where
  "no_fault io \<longleftrightarrow> io_fault io = None \<and> 0 \<notin> set (io_sizes io)"

lemma write_loop_returns:
  "io_fault io = None \<Longrightarrow> 0 \<notin> set sizes \<Longrightarrow> \<exists>t. write_loop env io tmp sizes written view st = (Inr (), t)"
proof (induction sizes arbitrary: written view st)
  case Nil
  then show ?case by (subst write_loop.simps) (simp add: bind_s_run os_fails_def)
next
  case (Cons n ns)
  then show ?case by (subst write_loop.simps) (simp add: bind_s_run)
qed

lemma write_temporary_returns:
  assumes "no_fault io" "tmp \<noteq> dest" "stat_file tmp st = None"
    and "\<forall>f. stat_file dest st = Some f \<longrightarrow> f_kind f \<noteq> Directory"
  shows "\<exists>t. write_temporary env io tmp dest enc st = (Inr (), t)"
proof -
  let ?new = "own_file env []"
  have nf: "os_fails io f = ret ()" for f using assms(1) by (simp add: os_fails_def no_fault_def)
  define s1 where "s1 = snd (set_file tmp ?new st)"
  have tmp: "stat_file tmp s1 = Some ?new" by (simp add: s1_def stat_file_def update_conv')
  have u: "unwritten env st tmp dest enc s1 \<and> stat_file tmp s1 = Some ?new"
    using triple_InrD [OF set_temporary [OF assms(2), of env st enc "[]"] unwritten_refl [OF assms(3)], of "()" s1]
    by (auto simp: s1_def)
  obtain t where t: "write_loop env io tmp (io_sizes io) [] enc s1 = (Inr (), t)"
    using write_loop_returns [of io "io_sizes io" env tmp "[]" enc s1] assms(1) by (auto simp: no_fault_def)
  from triple_InrD [OF write_loop_triple [OF assms(2)] u t] have
    "stat_file dest t = stat_file dest st" "stat_file tmp t = Some (own_file env enc)"
    by (auto simp: dest_unchanged_def)
  then have "\<exists>v. os_replace io tmp dest t = (Inr (), v)"
    using assms(4) by (auto simp: os_replace_def bind_s_run nf put_files_def)
  moreover have "set_file tmp ?new st = (Inr (), s1)" by (simp add: s1_def)
  ultimately show ?thesis
    using assms(3) tmp t by (auto simp: write_temporary_def nf bind_s_run own_file_def fsync_dir_def simp del: set_file_run)
qed

lemma atomic_json_write_returns:
  assumes "no_fault io" "temporary_name io \<noteq> dest" "fresh_token io st" "encodable env v decoder maximum enc"
    and "\<forall>f. stat_file dest st = Some f \<longrightarrow> unsafe_file env dest f = Inr ()"
  shows "\<exists>t. atomic_json_write env io dest v decoder maximum kind st = (Inr (), t) \<and>
    replaced env st (temporary_name io) dest enc t"
proof -
  have "\<forall>f. stat_file dest st = Some f \<longrightarrow> f_kind f \<noteq> Directory" using assms(5) by (auto simp: unsafe_file_def)
  then obtain t where t: "write_temporary env io (temporary_name io) dest enc st = (Inr (), t)"
    using write_temporary_returns [OF assms(1,2), of st env enc] assms(3) by (auto simp: fresh_token_def)
  have "atomic_json_write env io dest v decoder maximum kind st = (Inr (), t)"
  proof (cases rule: atomic_json_write_cases [where env = env and io = io and dest = dest and v = v and
        decoder = decoder and maximum = maximum and kind = kind and st = st])
    case early
    with assms(4,5) show ?thesis by blast
  next
    case (run e)
    then have "e = enc" using assms(4) by (simp add: encodable_def)
    with run t show ?thesis by (simp add: catch_def)
  qed
  moreover have "replaced env st (temporary_name io) dest enc t"
    using triple_InrD [OF write_temporary_triple [OF assms(2)] _ t] unwritten_refl assms(3) by (auto simp: fresh_token_def)
  ultimately show ?thesis by blast
qed

lemma snapshot_version: "snapshot_from_dict (JObj d) = Inr s \<Longrightarrow> dict_get d ''schema_version'' = Some (JInt SCHEMA_VERSION)"
  by (auto simp: snapshot_from_dict_def read_schema_version_def decode_simps split: option.splits)

lemma recovery_version: "recovery_from_dict (JObj d) = Inr s \<Longrightarrow> dict_get d ''schema_version'' = Some (JInt SCHEMA_VERSION)"
  by (auto simp: recovery_from_dict_def read_schema_version_def decode_simps split: option.splits)

lemma decode_versioned_one:
  "dict_get d ''schema_version'' = Some (JInt SCHEMA_VERSION) \<Longrightarrow> decode_versioned d decoder = decoder (JObj d)"
  by (simp add: decode_versioned_def)

lemma encodable_snapshot:
  assumes "wf_snapshot s" "snapshot_to_dict s = Inr v" "encode_state (env_repr env) v = Inr enc"
    "length enc \<le> MAX_SNAPSHOT_BYTES" "float_printable (env_repr env) (captured_at s)"
  shows "encodable env v snapshot_from_dict MAX_SNAPSHOT_BYTES enc"
proof -
  from snapshot_bytes [OF assms(1,2,3,5)] obtain w where w: "loads_bytes enc = Inr w" "snapshot_from_dict w = Inr s" by auto
  then obtain d where "w = JObj d" by (auto simp: snapshot_from_dict_def decode_simps)
  with w assms snapshot_version [of d s] show ?thesis by (simp add: encodable_def decode_versioned_one)
qed

lemma encodable_recovery:
  assumes "wf_recovery s" "recovery_to_dict s = Inr v" "encode_state (env_repr env) v = Inr enc"
    "length enc \<le> MAX_RECOVERY_BYTES" "float_printable (env_repr env) (created_at s)"
  shows "encodable env v recovery_from_dict MAX_RECOVERY_BYTES enc"
proof -
  from recovery_bytes [OF assms(1,2,3,5)] obtain w where w: "loads_bytes enc = Inr w" "recovery_from_dict w = Inr s" by auto
  then obtain d where "w = JObj d" by (auto simp: recovery_from_dict_def decode_simps)
  with w assms recovery_version [of d s] show ?thesis by (simp add: encodable_def decode_versioned_one)
qed

section \<open>A concrete store\<close>

definition demo_env :: env where
  "demo_env = \<lparr>env_uid = 1000, env_may_read = (\<lambda>e. f_owner e = 1000), env_repr = (\<lambda>x. ''0.0'')\<rparr>"

definition demo_io :: io where
  "demo_io = \<lparr>io_token = ''00'', io_sizes = [7, 100], io_fault = None, io_time = Finite 0\<rparr>"

definition demo_store :: Store where
  "demo_store = \<lparr>state_dir = ''/s'', store_files = [], store_trace = [], store_diagnostics = [], store_closed = False,
     transaction_depth = 0\<rparr>"

definition demo_snapshot :: Snapshot where
  "demo_snapshot = sample_snapshot\<lparr>captured_at := Finite 0\<rparr>"

definition demo_recovery :: RecoveryRecord where
  "demo_recovery = sample_recovery\<lparr>created_at := Finite 0\<rparr>"

lemma demo_records: "wf_snapshot demo_snapshot" "wf_recovery demo_recovery"
  using sample_snapshot_wf sample_recovery_wf
  by (simp_all add: demo_snapshot_def demo_recovery_def wf_snapshot_def wf_recovery_def)

lemma demo_env_facts: "own_readable demo_env" "no_fault demo_io" "fresh_token demo_io demo_store"
  by (simp_all add: own_readable_def demo_env_def own_file_def no_fault_def demo_io_def fresh_token_def demo_store_def stat_file_def)

lemma demo_floats: "float_printable (env_repr demo_env) (Finite 0)"
proof -
  have "parse_number ''0.0'' = Some (JFloat (Finite 0), [])"
    by (simp add: parse_number_def number_int_def number_frac_def number_exp_def round_double_def Let_def
        digits_value_def is_digit_def code_def)
  then show ?thesis by (simp add: float_printable_def float_literal_def demo_env_def)
qed

definition snapshot_payload :: "Snapshot \<Rightarrow> json" where
  "snapshot_payload s = projr (snapshot_to_dict s)"

definition recovery_payload :: "RecoveryRecord \<Rightarrow> json" where
  "recovery_payload r = projr (recovery_to_dict r)"

definition demo_bytes :: "json \<Rightarrow> string" where
  "demo_bytes v = utf8_encode (dumps (env_repr demo_env) (sort_keys v))"

lemma payloads: "wf_snapshot s \<Longrightarrow> snapshot_to_dict s = Inr (snapshot_payload s)"
  "wf_recovery r \<Longrightarrow> recovery_to_dict r = Inr (recovery_payload r)"
  using snapshot_to_dict_wf [of s] recovery_to_dict_wf [of r] by (auto simp: snapshot_payload_def recovery_payload_def)

lemma demo_encodes:
  "encode_state (env_repr demo_env) (snapshot_payload demo_snapshot) = Inr (demo_bytes (snapshot_payload demo_snapshot))"
  "encode_state (env_repr demo_env) (recovery_payload demo_recovery) = Inr (demo_bytes (recovery_payload demo_recovery))"
proof -
  have "ints_printable (snapshot_payload demo_snapshot)" by code_simp
  then show "encode_state (env_repr demo_env) (snapshot_payload demo_snapshot) = Inr (demo_bytes (snapshot_payload demo_snapshot))"
    by (simp add: encode_state_def demo_bytes_def)
  have "ints_printable (recovery_payload demo_recovery)" by code_simp
  then show "encode_state (env_repr demo_env) (recovery_payload demo_recovery) = Inr (demo_bytes (recovery_payload demo_recovery))"
    by (simp add: encode_state_def demo_bytes_def)
qed

lemma demo_sizes: "length (demo_bytes (snapshot_payload demo_snapshot)) < 400"
  "length (demo_bytes (recovery_payload demo_recovery)) < 900"
  by code_simp+

lemma demo_encodable:
  "encodable demo_env (snapshot_payload demo_snapshot) snapshot_from_dict MAX_SNAPSHOT_BYTES
     (demo_bytes (snapshot_payload demo_snapshot))"
  "encodable demo_env (recovery_payload demo_recovery) recovery_from_dict MAX_RECOVERY_BYTES
     (demo_bytes (recovery_payload demo_recovery))"
proof -
  have "captured_at demo_snapshot = Finite 0" "created_at demo_recovery = Finite 0"
    by (simp_all add: demo_snapshot_def demo_recovery_def)
  moreover have "length (demo_bytes (snapshot_payload demo_snapshot)) \<le> MAX_SNAPSHOT_BYTES"
    "length (demo_bytes (recovery_payload demo_recovery)) \<le> MAX_RECOVERY_BYTES"
    using demo_sizes unfolding store_limits by linarith+
  ultimately show "encodable demo_env (snapshot_payload demo_snapshot) snapshot_from_dict MAX_SNAPSHOT_BYTES
     (demo_bytes (snapshot_payload demo_snapshot))"
  "encodable demo_env (recovery_payload demo_recovery) recovery_from_dict MAX_RECOVERY_BYTES
     (demo_bytes (recovery_payload demo_recovery))"
    using demo_floats
    by (auto intro!: encodable_snapshot encodable_recovery payloads demo_records demo_encodes)
qed

lemma entered_same [simp]: "transaction_depth (entered st) = transaction_depth st + 1"
  by simp

text \<open>On an empty directory the write returns, and it leaves exactly the new file.\<close>

lemma demo_write:
  obtains t where "write_snapshot demo_env demo_io demo_snapshot demo_store =
      (Inr (''/s/'' @ checkpoint_name 5), t)"
proof -
  let ?n = "checkpoint_name 5"
  have g: "generation demo_snapshot = 5" by (simp add: demo_snapshot_def sample_snapshot_def)
  have ns: "stat_file n (entered demo_store) = None" for n by (simp add: demo_store_def stat_file_def)
  obtain u where u: "atomic_json_write demo_env demo_io ?n (snapshot_payload demo_snapshot) snapshot_from_dict
      MAX_SNAPSHOT_BYTES ''snapshot'' (entered demo_store) = (Inr (), u)"
    "replaced demo_env (entered demo_store) (temporary_name demo_io) ?n (demo_bytes (snapshot_payload demo_snapshot)) u"
    using atomic_json_write_returns [OF demo_env_facts(2) _ _ demo_encodable(1), of ?n "entered demo_store" "''snapshot''"]
      demo_env_facts(3) ns by auto
  have d: "distinct (checkpoint_names u)"
    using replaced_distinct [OF u(2)] by (intro checkpoint_names_distinct) (simp add: demo_store_def)
  have names: "n = ?n" if "n \<in> set (checkpoint_names u)" for n
    using that replaced_stat [OF u(2), of n] by (auto simp: set_checkpoint_names demo_store_def stat_file_def split: if_splits)
  have len: "length (checkpoint_names u) \<le> 1"
    using d names by (metis card_mono distinct_card finite.emptyI finite_insert is_singletonI is_singleton_altdef singletonI subsetI One_nat_def)
  have load: "load_checkpoint demo_env u ?n = Inr demo_snapshot"
    using demo_floats by (intro written_checkpoint_loads [OF demo_records(1) payloads(1) demo_encodable(1)])
      (use u(2) demo_env_facts demo_records in \<open>auto simp: replaced_def demo_snapshot_def\<close>)
  have v: "valid_names demo_env u ns = Inr ns" if "\<forall>n \<in> set ns. n = ?n" for ns
    using that load by (induction ns) auto
  have "prune_checkpoints_unlocked demo_env demo_io u = (Inr (), u)"
    using v [of "checkpoint_names u"] names len by (simp add: prune_checkpoints_unlocked_def bind_s_run MAX_CHECKPOINTS_def)
  moreover have "state_dir u = ''/s''" using u(2) by (auto simp: replaced_def demo_store_def dest!: writing_other(3))
  ultimately show ?thesis using that u(1) payloads(1) [OF demo_records(1)] g
    by (simp add: write_snapshot_def transaction_def write_unlocked_def bind_s_run demo_store_def)
qed

theorem write_then_load_latest_witness:
  "\<exists>t. fst (load_latest demo_env t) = Inr (Some demo_snapshot)"
proof -
  obtain t where t: "write_snapshot demo_env demo_io demo_snapshot demo_store = (Inr (''/s/'' @ checkpoint_name 5), t)"
    by (rule demo_write)
  have "captured_at demo_snapshot = Finite 0" "generation demo_snapshot < 10 ^ CHECKPOINT_DIGITS"
    by (simp_all add: demo_snapshot_def sample_snapshot_def CHECKPOINT_DIGITS_def)
  with write_then_load_latest [OF t demo_records(1)] demo_env_facts demo_floats show ?thesis
    by (auto simp: demo_store_def stat_file_def)
qed


text \<open>C17: at every moment of an atomic write, so after any crash, every other file is as it was and the destination is
  as it was or holds the complete new bytes. When the write returns, the destination holds the new bytes with mode 0600;
  when it raises, the temporary file is gone unless unlinking failed.\<close>

theorem atomic_write_crash_safe:
  assumes "temporary_name io \<noteq> dest" "fresh_token io st"
    and "atomic_json_write env io dest v decoder maximum kind st = (r, t)"
  shows "(\<exists>ds. store_trace t = store_trace st @ ds \<and> (\<forall>d \<in> insert (store_files t) (set ds).
       (\<forall>n. n \<noteq> dest \<longrightarrow> n \<noteq> temporary_name io \<longrightarrow> map_of d n = stat_file n st) \<and>
       (map_of d dest = stat_file dest st \<or>
        (\<exists>enc. encodable env v decoder maximum enc \<and> map_of d dest = Some (own_file env enc))))) \<and>
    (r = Inr () \<longrightarrow> (\<exists>enc. encodable env v decoder maximum enc \<and> stat_file dest t = Some (own_file env enc))) \<and>
    (io_fault io \<noteq> Some Unlink_Fails \<longrightarrow> stat_file (temporary_name io) t = None)"
proof (cases "\<exists>e. r = Inl e \<and> t = st")
  case True
  then show ?thesis using assms(2) by (auto simp: fresh_token_def stat_file_def)
next
  case False
  with atomic_json_write_outcome [OF assms(1) _ assms(3)] assms(2) obtain enc where
    enc: "encodable env v decoder maximum enc" and o: "write_outcome env io st (temporary_name io) dest enc (r, t)"
    by (auto simp: fresh_token_def)
  have w: "writing env st (temporary_name io) dest enc t"
    using o by (auto simp: write_outcome_def replaced_def failed_write_def split: sum.splits)
  then obtain ds where ds: "store_trace t = store_trace st @ ds"
    "\<forall>d \<in> insert (store_files t) (set ds). written_dir env (store_files st) (temporary_name io) dest enc d"
    by (auto simp: writing_def)
  show ?thesis
  proof (intro conjI exI [of _ ds])
    show "\<forall>d \<in> insert (store_files t) (set ds).
       (\<forall>n. n \<noteq> dest \<longrightarrow> n \<noteq> temporary_name io \<longrightarrow> map_of d n = stat_file n st) \<and>
       (map_of d dest = stat_file dest st \<or>
        (\<exists>enc. encodable env v decoder maximum enc \<and> map_of d dest = Some (own_file env enc)))"
      using ds(2) enc unfolding written_dir_def stat_file_def by blast
    show "r = Inr () \<longrightarrow> (\<exists>enc. encodable env v decoder maximum enc \<and> stat_file dest t = Some (own_file env enc))"
      using o enc by (auto simp: write_outcome_def replaced_def)
    show "io_fault io \<noteq> Some Unlink_Fails \<longrightarrow> stat_file (temporary_name io) t = None"
      using o by (auto simp: write_outcome_def replaced_def split: sum.splits)
  qed (rule ds(1))
qed

theorem atomic_write_crash_safe_witness:
  "stat_file (temporary_name (demo_io\<lparr>io_fault := Some Fsync_Fails\<rparr>))
     (snd (atomic_json_write demo_env (demo_io\<lparr>io_fault := Some Fsync_Fails\<rparr>) recovery_file
       (recovery_payload demo_recovery) recovery_from_dict MAX_RECOVERY_BYTES ''recovery'' demo_store)) = None"
proof -
  have f: "fresh_token (demo_io\<lparr>io_fault := Some Fsync_Fails\<rparr>) demo_store"
    by (simp add: fresh_token_def demo_store_def stat_file_def)
  obtain r t where rt: "atomic_json_write demo_env (demo_io\<lparr>io_fault := Some Fsync_Fails\<rparr>) recovery_file
       (recovery_payload demo_recovery) recovery_from_dict MAX_RECOVERY_BYTES ''recovery'' demo_store = (r, t)" by force
  from atomic_write_crash_safe [OF _ f rt] show ?thesis unfolding rt by simp
qed

lemma filter_append_distinct: "distinct (a @ b) \<Longrightarrow> filter (\<lambda>n. n \<notin> set b) (a @ b) = a"
  by (auto simp: filter_id_conv filter_empty_conv)

lemma filter_without_drop:
  assumes "distinct xs"
  shows "filter (\<lambda>n. P n) (filter (\<lambda>n. n \<notin> set (drop k (filter P xs))) xs) = take k (filter P xs)"
proof -
  have "filter P (filter (\<lambda>n. n \<notin> set (drop k (filter P xs))) xs) = filter (\<lambda>n. n \<notin> set (drop k (filter P xs))) (filter P xs)"
    by (simp add: conj_commute)
  also have "\<dots> = take k (filter P xs)"
  proof -
    let ?f = "filter P xs"
    have "distinct (take k ?f @ drop k ?f)" using assms by simp
    from filter_append_distinct [OF this] show ?thesis by simp
  qed
  finally show ?thesis .
qed

lemma write_unlocked_prunes:
  assumes "write_unlocked env io s st = (Inr p, t)" "distinct (map fst (store_files st))" "fresh_token io st"
  obtains u where "\<forall>n. n \<noteq> checkpoint_name (generation s) \<longrightarrow> stat_file n u = stat_file n st"
    "stat_file (checkpoint_name (generation s)) u \<noteq> None"
    "filter (loads_ok env t) (checkpoint_names t) = take MAX_CHECKPOINTS (filter (loads_ok env u) (checkpoint_names u))"
    "\<forall>n. \<not> loads_ok env u n \<longrightarrow> stat_file n t = stat_file n u"
proof -
  let ?n = "checkpoint_name (generation s)"
  obtain payload enc u tr where u: "replaced env st (temporary_name io) ?n enc u"
    and t: "t = u\<lparr>store_files := without (set (drop MAX_CHECKPOINTS (filter (loads_ok env u) (checkpoint_names u))))
       (store_files u), store_trace := tr\<rparr>"
    by (rule write_unlocked_Inr [OF assms(1,3)])
  let ?drop = "set (drop MAX_CHECKPOINTS (filter (loads_ok env u) (checkpoint_names u)))"
  have "load_checkpoint env t n = load_checkpoint env u n" if "n \<notin> ?drop" for n
    unfolding t using that by (rule load_without)
  then have ok: "loads_ok env t n = loads_ok env u n" if "n \<notin> ?drop" for n using that by (simp add: loads_ok_def)
  have "checkpoint_names t = filter (\<lambda>n. n \<notin> ?drop) (checkpoint_names u)" unfolding t checkpoint_names_without ..
  then have "filter (loads_ok env t) (checkpoint_names t) = filter (loads_ok env u) (filter (\<lambda>n. n \<notin> ?drop) (checkpoint_names u))"
    using ok by (auto intro: filter_cong)
  also have "\<dots> = take MAX_CHECKPOINTS (filter (loads_ok env u) (checkpoint_names u))"
    by (rule filter_without_drop [OF checkpoint_names_distinct [OF replaced_distinct [OF u assms(2)]]])
  finally have kept: "filter (loads_ok env t) (checkpoint_names t) = \<dots>" .
  have "stat_file n t = stat_file n u" if "\<not> loads_ok env u n" for n
    using that t by (auto simp: stat_file_def map_of_without dest: in_set_dropD)
  with kept replaced_stat [OF u] u assms(3) that [of u] show ?thesis
    by (auto simp: replaced_def fresh_token_def)
qed

text \<open>A successful write leaves at most ten readable checkpoints: of those there were, with the new one, exactly the
  ten with the greatest names; unreadable files stay.\<close>

theorem prune_keeps_ten_newest:
  assumes "write_snapshot env io s st = (Inr p, t)" "distinct (map fst (store_files st))" "fresh_token io st"
  shows "length (filter (loads_ok env t) (checkpoint_names t)) \<le> 10 \<and>
    (\<exists>u. (\<forall>n. n \<noteq> checkpoint_name (generation s) \<longrightarrow> stat_file n u = stat_file n st) \<and>
       stat_file (checkpoint_name (generation s)) u \<noteq> None \<and>
       filter (loads_ok env t) (checkpoint_names t) = take 10 (filter (loads_ok env u) (checkpoint_names u)) \<and>
       (\<forall>n. \<not> loads_ok env u n \<longrightarrow> stat_file n t = stat_file n u))"
proof -
  obtain t1 where w: "write_unlocked env io s (entered st) = (Inr p, t1)" and t: "t = left t1"
    using assms(1) by (auto simp: write_snapshot_def transaction_eq split: if_splits)
  obtain u where u: "\<forall>n. n \<noteq> checkpoint_name (generation s) \<longrightarrow> stat_file n u = stat_file n (entered st)"
    "stat_file (checkpoint_name (generation s)) u \<noteq> None"
    "filter (loads_ok env t1) (checkpoint_names t1) = take MAX_CHECKPOINTS (filter (loads_ok env u) (checkpoint_names u))"
    "\<forall>n. \<not> loads_ok env u n \<longrightarrow> stat_file n t1 = stat_file n u"
    by (rule write_unlocked_prunes [OF w]) (use assms in auto)
  have "loads_ok env t = loads_ok env t1" by (rule ext) (simp add: loads_ok_def t)
  with u show ?thesis unfolding MAX_CHECKPOINTS_def by (auto simp: t)
qed

theorem prune_keeps_ten_newest_witness:
  "\<exists>t. length (filter (loads_ok demo_env t) (checkpoint_names t)) \<le> 10"
proof -
  obtain t where t: "write_snapshot demo_env demo_io demo_snapshot demo_store = (Inr (''/s/'' @ checkpoint_name 5), t)"
    by (rule demo_write)
  from prune_keeps_ten_newest [OF t] demo_env_facts show ?thesis by (auto simp: demo_store_def)
qed

end
