(* ===== verification/Workspace.thy ===== *)
theory Workspace
  imports Store
begin

text \<open>
  The recovery workspace as an abstract machine, and the files of \<^verbatim>\<open>store.py\<close> as its implementation: the record on
  file, and the identifiers in the two tombstones. \<open>represents\<close> relates a directory to the machine's state; every
  operation of the store that returns is a step of the machine, and every directory a crash can leave represents a
  state on the way.
\<close>

section \<open>The abstract machine\<close>

record workspace =
  ws_record :: "RecoveryRecord option"
  ws_completed :: "string option"
  ws_discarded :: "string option"

definition finished :: "workspace \<Rightarrow> string \<Rightarrow> bool" where
  "finished a w \<longleftrightarrow> ws_completed a = Some w \<or> ws_discarded a = Some w"

definition ws_load :: "workspace \<Rightarrow> RecoveryRecord option \<times> workspace" where
  "ws_load a =
     (case ws_record a of
        None \<Rightarrow> (None, a)
      | Some r \<Rightarrow> if finished a (workspace_id r) then (None, a\<lparr>ws_record := None\<rparr>) else (Some r, a))"

definition ws_write :: "RecoveryRecord \<Rightarrow> workspace \<Rightarrow> workspace" where
  "ws_write r a = (if ws_record a = None then a\<lparr>ws_record := Some r\<rparr> else a)"

definition ws_commit ::
  "string \<Rightarrow> RestoreAttempt \<Rightarrow> Outcome list \<Rightarrow> workspace \<Rightarrow> (RecoveryRecord \<times> workspace) result" where
  "ws_commit w attempt outs a =
     (case ws_load a of
        (None, _) \<Rightarrow> Inl (ValueError ''no unresolved recovery workspace'')
      | (Some r, b) \<Rightarrow> bind_r (committed_record r w attempt outs) (\<lambda>u. Inr (u, b\<lparr>ws_record := Some u\<rparr>)))"

definition mark_finished :: "bool \<Rightarrow> string \<Rightarrow> workspace \<Rightarrow> workspace" where
  "mark_finished discard w a =
     (if discard then a\<lparr>ws_discarded := Some w\<rparr> else a\<lparr>ws_completed := Some w\<rparr>)"

definition ws_finish :: "bool \<Rightarrow> string \<Rightarrow> workspace \<Rightarrow> workspace result" where
  "ws_finish discard w a =
     (case ws_load a of
        (None, _) \<Rightarrow> Inl (ValueError ''no unresolved recovery workspace'')
      | (Some r, b) \<Rightarrow>
          bind_r (raise_if (workspace_id r \<noteq> w) (ValueError ''recovery workspace does not match'')) (\<lambda>_.
          bind_r (raise_if (\<not> discard \<and> set (completed_item_ids r) \<noteq> item_id ` set (items r))
            (ValueError ''all recovery items must be terminally successful'')) (\<lambda>_.
          Inr ((mark_finished discard w b)\<lparr>ws_record := None\<rparr>))))"

section \<open>The directories that represent a state\<close>

definition record_on_file :: "env \<Rightarrow> Store \<Rightarrow> RecoveryRecord \<Rightarrow> bool" where
  "record_on_file env st r \<longleftrightarrow>
     (\<exists>d. read_recovery env st = Inr d \<and> decode_versioned d recovery_from_dict = Inr r)"

definition represents :: "env \<Rightarrow> Store \<Rightarrow> workspace \<Rightarrow> bool" where
  "represents env st a \<longleftrightarrow>
     (case ws_record a of None \<Rightarrow> stat_file recovery_file st = None | Some r \<Rightarrow> record_on_file env st r) \<and>
     (\<forall>w. tombstone_matches env w (tombstone_file False) st = Inr (ws_completed a = Some w)) \<and>
     (\<forall>w. tombstone_matches env w (tombstone_file True) st = Inr (ws_discarded a = Some w))"

lemma tombstone_matches_cong:
  assumes "stat_file n st = stat_file n st'"
  shows "tombstone_matches env w n st = tombstone_matches env w n st'"
  unfolding tombstone_matches_def read_json_cong [OF assms] ..

lemma represents_cong:
  assumes "stat_file recovery_file st = stat_file recovery_file st'"
    and "\<And>b. stat_file (tombstone_file b) st = stat_file (tombstone_file b) st'"
  shows "represents env st a = represents env st' a"
proof -
  have "read_recovery env st = read_recovery env st'"
    using assms(1) unfolding read_recovery_def by (rule read_json_cong)
  moreover have "tombstone_matches env w (tombstone_file b) st = tombstone_matches env w (tombstone_file b) st'" for w b
    using assms(2) by (rule tombstone_matches_cong)
  ultimately show ?thesis using assms(1) by (simp add: represents_def record_on_file_def split: option.split)
qed

lemma terminal_finished:
  "represents env st a \<Longrightarrow> has_terminal_tombstone env w st = Inr (finished a w)"
  by (auto simp: represents_def has_terminal_tombstone_def finished_def tombstone_file_def)

lemma file_names [simp]:
  "recovery_file \<noteq> tombstone_file b" "tombstone_file b \<noteq> recovery_file" "tombstone_file b = tombstone_file c \<longleftrightarrow> b = c"
  by (auto simp: recovery_file_def tombstone_file_def)

lemma represents_drop:
  assumes "represents env st a"
  shows "represents env (st\<lparr>store_files := without {recovery_file} (store_files st), store_trace := tr\<rparr>) (a\<lparr>ws_record := None\<rparr>)"
proof -
  let ?t = "st\<lparr>store_files := without {recovery_file} (store_files st), store_trace := tr\<rparr>"
  have "tombstone_matches env w (tombstone_file b) ?t = tombstone_matches env w (tombstone_file b) st" for w b
  proof -
    have "stat_file (tombstone_file b) ?t = stat_file (tombstone_file b) st"
      by (simp add: stat_file_def map_of_without)
    then show ?thesis by (rule tombstone_matches_cong)
  qed
  with assms show ?thesis by (simp add: represents_def stat_file_def map_of_without)
qed

lemma drop_recovery_Inr:
  "drop_recovery io st = (Inr u, t) \<Longrightarrow>
     \<exists>tr. t = st\<lparr>store_files := without {recovery_file} (store_files st), store_trace := tr\<rparr>"
  by (auto simp: drop_recovery_def fsync_dir_def bind_s_eq dest: os_unlink_Inr)

section \<open>Loading\<close>

lemma load_recovery_represents:
  assumes "represents env st a" "load_recovery_unlocked env io st = (Inr x, t)"
  shows "represents env t (snd (ws_load a)) \<and> x = fst (ws_load a) \<and> (x \<noteq> None \<longrightarrow> t = st) \<and>
    (\<exists>d tr. t = st\<lparr>store_files := d, store_trace := tr\<rparr> \<and> d \<in> {store_files st, without {recovery_file} (store_files st)})"
proof (cases "ws_record a")
  case None
  with assms(1) have "read_recovery env st = Inl (FileNotFoundError recovery_file)"
    by (simp add: represents_def read_recovery_def read_json_def)
  with assms None show ?thesis
    by (auto simp: load_recovery_unlocked_def bind_s_run ws_load_def intro!: exI [of _ "store_files st"] exI [of _ "store_trace st"])
next
  case (Some r)
  with assms(1) obtain d where d: "read_recovery env st = Inr d" "decode_versioned d recovery_from_dict = Inr r"
    by (auto simp: represents_def record_on_file_def)
  note ht = terminal_finished [OF assms(1)]
  show ?thesis
  proof (cases "finished a (workspace_id r)")
    case True
    with assms(2) d ht obtain u where u: "drop_recovery io st = (Inr u, t)" "x = None"
      by (auto simp: load_recovery_unlocked_def bind_s_run catch_def split: prod.splits sum.splits if_splits py_error.splits)
    then obtain tr where t: "t = st\<lparr>store_files := without {recovery_file} (store_files st), store_trace := tr\<rparr>"
      using drop_recovery_Inr by blast
    with represents_drop [OF assms(1)] u True Some show ?thesis by (auto simp: ws_load_def)
  next
    case False
    with assms(2) d ht have "x = Some r" "t = st"
      by (auto simp: load_recovery_unlocked_def bind_s_run catch_def)
    with assms(1) False Some show ?thesis
      by (auto simp: ws_load_def intro!: exI [of _ "store_files st"] exI [of _ "store_trace st"])
  qed
qed


section \<open>Writing the record\<close>

lemma written_bytes_read:
  assumes "encodable env v decoder maximum enc" "stat_file name t = Some (own_file env enc)" "own_readable env" "json_ok (env_repr env) v"
  obtains d x where "read_json env name maximum kind t = Inr d" "sort_keys v = JObj d" "decode_versioned d decoder = Inr x"
proof -
  have "loads_bytes enc = Inr (sort_keys v)"
    using assms(1,4) by (auto simp: encodable_def intro: loads_encode_state)
  moreover obtain d x where "read_json env name maximum kind t = Inr d" "loads_bytes enc = Inr (JObj d)"
    "decode_versioned d decoder = Inr x" using encodable_reads_back [OF assms(1-3)] by blast
  ultimately show ?thesis using that by simp
qed

lemma replaced_represents:
  assumes "represents env st a" "replaced env st (temporary_name io) recovery_file enc t" "record_on_file env t r"
  shows "represents env t (a\<lparr>ws_record := Some r\<rparr>)"
proof -
  have "tombstone_matches env w (tombstone_file b) t = tombstone_matches env w (tombstone_file b) st" for w b
    using replaced_stat [OF assms(2), of "tombstone_file b"] temporary_name_other(2) [of io b]
    by (intro tombstone_matches_cong) auto
  with assms(1,3) show ?thesis by (simp add: represents_def)
qed

lemma write_record_represents:
  assumes "represents env st a" "write_recovery_record env io r st = (Inr u, t)" "wf_recovery r"
    "float_printable (env_repr env) (created_at r)" "fresh_token io st" "own_readable env"
  shows "represents env t (a\<lparr>ws_record := Some r\<rparr>)"
proof -
  from assms(2) obtain v where v: "recovery_to_dict r = Inr v"
    and w: "atomic_json_write env io recovery_file v recovery_from_dict MAX_RECOVERY_BYTES ''recovery'' st = (Inr u, t)"
    by (auto simp: write_recovery_record_def bind_s_eq)
  from atomic_json_write_outcome [OF _ _ w] assms(5) obtain enc where
    e: "encodable env v recovery_from_dict MAX_RECOVERY_BYTES enc"
    and r: "replaced env st (temporary_name io) recovery_file enc t"
    by (auto simp: write_outcome_def fresh_token_def)
  have s: "stat_file recovery_file t = Some (own_file env enc)" using r by (simp add: replaced_def)
  have "ints_printable v" using e by (simp add: encodable_def encode_state_Inr)
  then have "json_ok (env_repr env) v" using json_ok_recovery v assms(4) by blast
  from written_bytes_read [OF e s assms(6) this] obtain d x where
    d: "read_json env recovery_file MAX_RECOVERY_BYTES ''recovery'' t = Inr d" "sort_keys v = JObj d"
    "decode_versioned d recovery_from_dict = Inr x" by blast
  have "recovery_from_dict (JObj d) = Inr r" using recovery_sorted [OF assms(3) v] d(2) by simp
  with decode_versioned_Inr [OF d(3)] d have "record_on_file env t r"
    by (simp add: record_on_file_def read_recovery_def)
  with replaced_represents [OF assms(1) r] show ?thesis by blast
qed

lemma write_if_absent_represents:
  assumes "represents env st a" "write_recovery_if_absent_unlocked env io r st = (Inr u, t)" "wf_recovery r"
    "float_printable (env_repr env) (created_at r)" "fresh_token io st" "own_readable env"
  shows "represents env t (ws_write r a)"
proof (cases "ws_record a")
  case None
  with assms(1) have "read_recovery env st = Inl (FileNotFoundError recovery_file)"
    by (simp add: represents_def read_recovery_def read_json_def)
  with assms(2) have "write_recovery_record env io r st = (Inr u, t)"
    by (simp add: write_recovery_if_absent_unlocked_def bind_s_run)
  with write_record_represents [OF assms(1) this assms(3-6)] None show ?thesis by (simp add: ws_write_def)
next
  case (Some r')
  with assms(1) obtain d where "read_recovery env st = Inr d" by (auto simp: represents_def record_on_file_def)
  with assms(1,2) Some show ?thesis by (simp add: write_recovery_if_absent_unlocked_def bind_s_run ws_write_def)
qed

section \<open>Committing outcomes\<close>

lemma committed_record_Inr:
  assumes "committed_record r w attempt outs = Inr u" "wf_recovery r" "\<forall>p \<in> set outs. wf_outcome p"
  shows "wf_recovery u \<and> w = workspace_id r \<and> (\<forall>a \<in> set (attempts r). attempt_id a \<noteq> attempt_id attempt) \<and>
    u = r\<lparr>attempts := attempts r @ [attempt\<lparr>outcomes := outs\<rparr>],
      completed_item_ids := add_completed (completed_item_ids r) outs\<rparr>"
proof -
  from assms(1) obtain c where c: "RestoreAttempt_check (attempt\<lparr>outcomes := outs\<rparr>) = Inr c"
    and u: "RecoveryRecord_check (r\<lparr>attempts := attempts r @ [c],
       completed_item_ids := add_completed (completed_item_ids r) outs\<rparr>) = Inr u"
    and g: "w = workspace_id r" "\<forall>a \<in> set (attempts r). attempt_id a \<noteq> attempt_id attempt"
    by (auto simp: committed_record_def)
  have "c = attempt\<lparr>outcomes := outs\<rparr> \<and> wf_attempt c"
    using c assms(3) by (subst (asm) RestoreAttempt_check_Inr) auto
  with u g assms(2) show ?thesis
    by (subst (asm) RecoveryRecord_check_Inr) (auto simp: wf_recovery_def)
qed

lemma record_on_file_wf: "record_on_file env st r \<Longrightarrow> wf_recovery r"
  by (auto simp: record_on_file_def dest!: decode_versioned_Inr recovery_dec_wf)

lemma ws_load_Some:
  "fst (ws_load a) = Some r \<Longrightarrow> ws_record a = Some r \<and> snd (ws_load a) = a \<and> \<not> finished a (workspace_id r)"
  by (auto simp: ws_load_def split: option.splits if_splits)

lemma represents_record: "represents env st a \<Longrightarrow> ws_record a = Some r \<Longrightarrow> record_on_file env st r"
  by (simp add: represents_def)

lemma commit_represents:
  assumes "represents env st a" "commit_outcomes_unlocked env io w attempt outs st = (Inr u, t)"
    "\<forall>p \<in> set outs. wf_outcome p" "fresh_token io st" "own_readable env"
    "\<forall>r. ws_record a = Some r \<longrightarrow> float_printable (env_repr env) (created_at r)"
  shows "\<exists>b. ws_commit w attempt outs a = Inr (u, b) \<and> represents env t b"
proof -
  from assms(2) obtain r s where l: "load_recovery_unlocked env io st = (Inr (Some r), s)"
    and c: "committed_record r w attempt outs = Inr u"
    and up: "update_recovery_unlocked env io u w (source_generation r) s = (Inr (), t)"
    by (auto simp: commit_outcomes_unlocked_def bind_s_eq split: option.splits)
  from load_recovery_represents [OF assms(1) l] have s: "s = st" "fst (ws_load a) = Some r" by simp_all
  then have a: "ws_record a = Some r" "snd (ws_load a) = a" using ws_load_Some by blast+
  have wf: "wf_recovery r" by (rule record_on_file_wf [OF represents_record [OF assms(1) a(1)]])
  note cr = committed_record_Inr [OF c wf assms(3)]
  from up s l have "write_recovery_record env io u st = (Inr (), t)"
    by (auto simp: update_recovery_unlocked_def bind_s_eq)
  moreover have "wf_recovery u" "created_at u = created_at r" using cr by auto
  ultimately have "represents env t (a\<lparr>ws_record := Some u\<rparr>)"
    using write_record_represents [OF assms(1)] assms(4-6) a(1) by fastforce
  moreover have "ws_commit w attempt outs a = Inr (u, a\<lparr>ws_record := Some u\<rparr>)"
    using s a c by (cases "ws_load a") (simp add: ws_commit_def)
  ultimately show ?thesis by blast
qed

section \<open>Finishing a workspace\<close>

lemma validate_tombstone_Inr: "validate_tombstone (JObj d) = Inr x \<Longrightarrow> x = d"
  by (auto simp: validate_tombstone_def)

lemma json_ok_tombstone: "float_printable fr (io_time io) \<Longrightarrow> json_ok fr (tombstone io w b)"
proof -
  have "length (nat_text 1) = 1" by (subst nat_text.simps) simp
  then show "float_printable fr (io_time io) \<Longrightarrow> ?thesis"
    by (simp add: tombstone_def float_printable_def SCHEMA_VERSION_def MAX_INT_DIGITS_def)
qed

lemma tombstone_written:
  assumes "represents env st a" and s: "stat_file (tombstone_file b) t = Some (own_file env enc)"
    and other: "\<And>n. n \<noteq> tombstone_file b \<Longrightarrow> temporary_name io \<noteq> n \<Longrightarrow> stat_file n t = stat_file n st"
    and
    "encodable env (tombstone io w b) validate_tombstone MAX_TOMBSTONE_BYTES enc"
    "own_readable env" "float_printable (env_repr env) (io_time io)"
  shows "represents env t (mark_finished b w a)"
proof -
  from written_bytes_read [OF assms(4) s assms(5) json_ok_tombstone [OF assms(6)]] obtain d x where
    d: "read_json env (tombstone_file b) MAX_TOMBSTONE_BYTES ''tombstone'' t = Inr d"
    "sort_keys (tombstone io w b) = JObj d" "decode_versioned d validate_tombstone = Inr x" by metis
  from decode_versioned_Inr [OF d(3)] have v: "validate_tombstone (JObj d) = Inr d"
    using validate_tombstone_Inr by blast
  have "map_of d ''workspace_id'' = Some (JStr w)" using d(2) by (auto simp: tombstone_def)
  then have new: "tombstone_matches env w' (tombstone_file b) t = Inr (Some w = Some w')" for w'
    using d(1) v by (auto simp: tombstone_matches_def dict_item_def)
  have "tombstone_matches env w' (tombstone_file (\<not> b)) t = tombstone_matches env w' (tombstone_file (\<not> b)) st" for w'
    using temporary_name_other(2) [of io "\<not> b"] other [of "tombstone_file (\<not> b)"]
    by (intro tombstone_matches_cong) (cases b; simp)
  moreover have rs: "stat_file recovery_file t = stat_file recovery_file st"
    using other [of recovery_file] temporary_name_other(1) [of io] by simp
  moreover have "read_recovery env t = read_recovery env st"
    unfolding read_recovery_def by (rule read_json_cong [OF rs])
  ultimately show ?thesis using assms(1) new
    by (cases b) (auto simp: represents_def mark_finished_def record_on_file_def split: option.splits)
qed

lemma finish_represents:
  assumes "represents env st a" "complete_or_discard_unlocked env io w b st = (Inr u, t)"
    "fresh_token io st" "own_readable env" "float_printable (env_repr env) (io_time io)"
  shows "\<exists>c. ws_finish b w a = Inr c \<and> represents env t c"
proof -
  from assms(2) obtain r s v where l: "load_recovery_unlocked env io st = (Inr (Some r), s)"
    and g: "workspace_id r = w" "b \<or> set (completed_item_ids r) = item_id ` set (items r)"
    and wr: "atomic_json_write env io (tombstone_file b) (tombstone io w b) validate_tombstone MAX_TOMBSTONE_BYTES
      ''tombstone'' s = (Inr (), v)"
    and dr: "drop_recovery io v = (Inr u, t)"
    by (auto simp: complete_or_discard_unlocked_def bind_s_eq split: option.splits)
  from load_recovery_represents [OF assms(1) l] have s: "s = st" "fst (ws_load a) = Some r" by simp_all
  from atomic_json_write_outcome [OF _ _ wr] assms(3) s obtain enc where
    e: "encodable env (tombstone io w b) validate_tombstone MAX_TOMBSTONE_BYTES enc"
    and rp: "replaced env st (temporary_name io) (tombstone_file b) enc v"
    by (auto simp: write_outcome_def fresh_token_def)
  have "represents env v (mark_finished b w a)"
  proof (rule tombstone_written [OF assms(1) _ _ e assms(4,5)])
    show "stat_file (tombstone_file b) v = Some (own_file env enc)" using rp by (simp add: replaced_def)
    show "stat_file n v = stat_file n st" if "n \<noteq> tombstone_file b" "temporary_name io \<noteq> n" for n
      using that replaced_stat [OF rp, of n] by auto
  qed
  from represents_drop [OF this] drop_recovery_Inr [OF dr] have
    "represents env t ((mark_finished b w a)\<lparr>ws_record := None\<rparr>)" by auto
  moreover have "ws_finish b w a = Inr ((mark_finished b w a)\<lparr>ws_record := None\<rparr>)"
    using s g ws_load_Some [OF s(2)] by (cases "ws_load a") (auto simp: ws_finish_def)
  ultimately show ?thesis by blast
qed

section \<open>The store refines the machine\<close>

datatype ws_op =
    Load_Recovery
  | Write_Recovery RecoveryRecord
  | Commit_Outcomes string RestoreAttempt "Outcome list"
  | Finish_Workspace bool string

definition ws_step :: "ws_op \<Rightarrow> workspace \<Rightarrow> (RecoveryRecord option \<times> workspace) result" where
  "ws_step op a =
     (case op of
        Load_Recovery \<Rightarrow> Inr (ws_load a)
      | Write_Recovery r \<Rightarrow> Inr (None, ws_write r a)
      | Commit_Outcomes w att outs \<Rightarrow> bind_r (ws_commit w att outs a) (\<lambda>(u, b). Inr (Some u, b))
      | Finish_Workspace b w \<Rightarrow> bind_r (ws_finish b w a) (\<lambda>c. Inr (None, c)))"

definition run_op :: "env \<Rightarrow> io \<Rightarrow> ws_op \<Rightarrow> (RecoveryRecord option) store_act" where
  "run_op env io op =
     (case op of
        Load_Recovery \<Rightarrow> load_recovery env io
      | Write_Recovery r \<Rightarrow> bind_s (write_recovery env io r) (\<lambda>_. ret None)
      | Commit_Outcomes w att outs \<Rightarrow> bind_s (commit_outcomes env io w att outs) (\<lambda>u. ret (Some u))
      | Finish_Workspace b w \<Rightarrow> bind_s (complete_or_discard env io w b) (\<lambda>_. ret None))"

text \<open>What an operation's arguments satisfy: records and outcomes come from their constructors, times can be printed.\<close>

definition op_ok :: "env \<Rightarrow> io \<Rightarrow> workspace \<Rightarrow> ws_op \<Rightarrow> bool" where
  "op_ok env io a op \<longleftrightarrow>
     (case op of
        Load_Recovery \<Rightarrow> True
      | Write_Recovery r \<Rightarrow> wf_recovery r \<and> float_printable (env_repr env) (created_at r)
      | Commit_Outcomes w att outs \<Rightarrow> (\<forall>p \<in> set outs. wf_outcome p) \<and>
          (\<forall>r. ws_record a = Some r \<longrightarrow> float_printable (env_repr env) (created_at r))
      | Finish_Workspace b w \<Rightarrow> float_printable (env_repr env) (io_time io))"

lemma represents_depth [simp]: "represents env (st\<lparr>transaction_depth := k\<rparr>) a = represents env st a"
  by (rule represents_cong) simp_all

lemma transaction_InrD: "transaction m st = (Inr x, t) \<Longrightarrow> \<exists>u. m (entered st) = (Inr x, u) \<and> t = left u"
  by (auto simp: transaction_eq split: if_splits)

lemma run_op_represents:
  assumes "represents env st a" "run_op env io op st = (Inr x, t)" "op_ok env io a op" "fresh_token io st" "own_readable env"
  shows "\<exists>b. ws_step op a = Inr (x, b) \<and> represents env t b"
proof (cases op)
  case Load_Recovery
  with assms(2) obtain u where "load_recovery_unlocked env io (entered st) = (Inr x, u)" "t = left u"
    by (auto simp: run_op_def load_recovery_def dest!: transaction_InrD)
  with load_recovery_represents [of env "entered st" a io x u] assms(1) Load_Recovery show ?thesis
    by (cases "ws_load a") (simp add: ws_step_def)
next
  case (Write_Recovery r)
  with assms(2) obtain u where "write_recovery_if_absent_unlocked env io r (entered st) = (Inr (), u)" "t = left u" "x = None"
    by (auto simp: run_op_def write_recovery_def bind_s_eq dest!: transaction_InrD)
  with write_if_absent_represents [of env "entered st" a io r "()" u] assms Write_Recovery show ?thesis
    by (simp add: ws_step_def op_ok_def)
next
  case (Commit_Outcomes w att outs)
  with assms(2) obtain u y where "commit_outcomes_unlocked env io w att outs (entered st) = (Inr y, u)" "t = left u" "x = Some y"
    by (auto simp: run_op_def commit_outcomes_def bind_s_eq dest!: transaction_InrD)
  with commit_represents [of env "entered st" a io w att outs y u] assms Commit_Outcomes show ?thesis
    by (auto simp: ws_step_def op_ok_def)
next
  case (Finish_Workspace b w)
  with assms(2) obtain u where "complete_or_discard_unlocked env io w b (entered st) = (Inr (), u)" "t = left u" "x = None"
    by (auto simp: run_op_def complete_or_discard_def bind_s_eq dest!: transaction_InrD)
  with finish_represents [of env "entered st" a io w b "()" u] assms Finish_Workspace show ?thesis
    by (auto simp: ws_step_def op_ok_def)
qed

text \<open>C3: the store refines the abstract workspace: whenever an operation of the store on a directory that represents
  a state returns, the machine takes the same operation with the same answer, and the new directory represents the new
  state.\<close>

theorem store_refines_workspace:
  assumes "represents env st a" "run_op env io op st = (Inr x, t)" "op_ok env io a op" "fresh_token io st" "own_readable env"
  shows "\<exists>b. ws_step op a = Inr (x, b) \<and> represents env t b"
  by (rule run_op_represents [OF assms])

definition empty_workspace :: workspace where
  "empty_workspace = \<lparr>ws_record = None, ws_completed = None, ws_discarded = None\<rparr>"

lemma demo_represents: "represents demo_env demo_store empty_workspace"
  by (simp add: represents_def empty_workspace_def demo_store_def stat_file_def tombstone_matches_def read_json_def)

lemma demo_write_recovery:
  obtains t where "run_op demo_env demo_io (Write_Recovery demo_recovery) demo_store = (Inr None, t)"
proof -
  have "stat_file n (entered demo_store) = None" for n by (simp add: demo_store_def stat_file_def)
  then have "read_recovery demo_env (entered demo_store) = Inl (FileNotFoundError recovery_file)"
    by (simp add: read_recovery_def read_json_def)
  moreover obtain t where "write_recovery_record demo_env demo_io demo_recovery (entered demo_store) = (Inr (), t)"
    using atomic_json_write_returns [OF demo_env_facts(2) _ _ demo_encodable(2), of recovery_file "entered demo_store" "''recovery''"]
      demo_env_facts(3) payloads(2) [OF demo_records(2)] \<open>\<And>n. stat_file n (entered demo_store) = None\<close>
    by (auto simp: write_recovery_record_def bind_s_run)
  ultimately show ?thesis using that
    by (simp add: run_op_def write_recovery_def bind_s_run transaction_def write_recovery_if_absent_unlocked_def demo_store_def)
qed

theorem store_refines_workspace_witness:
  "\<exists>t b. ws_step (Write_Recovery demo_recovery) empty_workspace = Inr (None, b) \<and> represents demo_env t b"
proof -
  obtain t where t: "run_op demo_env demo_io (Write_Recovery demo_recovery) demo_store = (Inr None, t)"
    by (rule demo_write_recovery)
  have "op_ok demo_env demo_io empty_workspace (Write_Recovery demo_recovery)"
    using demo_records(2) demo_floats by (simp add: op_ok_def demo_recovery_def)
  from store_refines_workspace [OF demo_represents t this] demo_env_facts show ?thesis by blast
qed

section \<open>Crashes while a workspace is being finished\<close>

definition at_directory :: "Store \<Rightarrow> directory \<Rightarrow> Store" where
  "at_directory st d = st\<lparr>store_files := d\<rparr>"

lemma stat_at [simp]: "stat_file n (at_directory st d) = map_of d n"
  by (simp add: at_directory_def stat_file_def)

lemma represents_at: "(\<And>n. map_of d n = stat_file n s) \<Longrightarrow> represents env (at_directory st d) a = represents env s a"
  by (rule represents_cong) simp_all

text \<open>\<open>safe_directory\<close>: the workspace \<open>r\<close> is still on file as it was, or a tombstone of it is in place.\<close>

definition safe_directory :: "env \<Rightarrow> Store \<Rightarrow> RecoveryRecord \<Rightarrow> directory \<Rightarrow> bool" where
  "safe_directory env st r d \<longleftrightarrow>
     (\<exists>c. represents env (at_directory st d) c \<and> (ws_record c = Some r \<or> finished c (workspace_id r)))"

lemma safe_unchanged:
  "represents env st a \<Longrightarrow> ws_record a = Some r \<Longrightarrow>
   (\<And>n. n \<in> {recovery_file, tombstone_file False, tombstone_file True} \<Longrightarrow> map_of d n = stat_file n st) \<Longrightarrow>
   safe_directory env st r d"
  unfolding safe_directory_def
  by (intro exI [of _ a] conjI, subst represents_cong [of _ st]) (auto simp: tombstone_file_def)

lemma written_safe:
  assumes "represents env st a" "ws_record a = Some r" "workspace_id r = w"
    "written_dir env (store_files st) (temporary_name io) (tombstone_file b) enc d"
    "encodable env (tombstone io w b) validate_tombstone MAX_TOMBSTONE_BYTES enc"
    "own_readable env" "float_printable (env_repr env) (io_time io)"
  shows "safe_directory env st r d"
proof (cases "map_of d (tombstone_file b) = stat_file (tombstone_file b) st")
  case True
  then have "map_of d n = stat_file n st" if "n \<noteq> temporary_name io" for n
    using assms(4) that by (cases "n = tombstone_file b") (auto simp: written_dir_def stat_file_def)
  then show ?thesis using temporary_name_other [of io] by (intro safe_unchanged [OF assms(1,2)]) (metis insertE singletonD)
next
  case False
  then have "map_of d (tombstone_file b) = Some (own_file env enc)" using assms(4) by (auto simp: written_dir_def stat_file_def)
  moreover have "map_of d n = stat_file n st" if "n \<noteq> tombstone_file b" "temporary_name io \<noteq> n" for n
    using assms(4) that by (auto simp: written_dir_def stat_file_def)
  ultimately have "represents env (at_directory st d) (mark_finished b w a)"
    by (intro tombstone_written [OF assms(1) _ _ assms(5-7)]) auto
  moreover have "finished (mark_finished b w a) (workspace_id r)"
    using assms(3) by (simp add: finished_def mark_finished_def)
  ultimately show ?thesis unfolding safe_directory_def by blast
qed

lemma dropped_safe:
  assumes "safe_directory env st r d" "\<exists>c. represents env (at_directory st d) c \<and> finished c (workspace_id r)"
  shows "safe_directory env st r (without {recovery_file} d)"
proof -
  from assms(2) obtain c where c: "represents env (at_directory st d) c" "finished c (workspace_id r)" by blast
  have "represents env (at_directory st (without {recovery_file} d)) (c\<lparr>ws_record := None\<rparr>)"
    using represents_drop [OF c(1)] by (subst represents_at) (auto simp: stat_file_def at_directory_def)
  moreover have "finished (c\<lparr>ws_record := None\<rparr>) (workspace_id r)" using c(2) by (simp add: finished_def)
  ultimately show ?thesis unfolding safe_directory_def by blast
qed


lemma drop_recovery_trace:
  "drop_recovery io v = (r, t) \<Longrightarrow>
     t = v \<or> t = v\<lparr>store_files := without {recovery_file} (store_files v),
       store_trace := store_trace v @ [without {recovery_file} (store_files v)]\<rparr>"
  by (auto simp: drop_recovery_def fsync_dir_def bind_s_eq os_unlink_def put_files_def delete_without os_fails_def
      split: option.splits if_splits)

definition safe_run :: "env \<Rightarrow> Store \<Rightarrow> RecoveryRecord \<Rightarrow> Store \<Rightarrow> bool" where
  "safe_run env st r t \<longleftrightarrow>
     (\<exists>ds. store_trace t = store_trace st @ ds \<and> (\<forall>d \<in> insert (store_files t) (set ds). safe_directory env st r d))"

lemma safe_runI:
  "store_trace t = store_trace st @ ds \<Longrightarrow> \<forall>d \<in> insert (store_files t) (set ds). safe_directory env st r d \<Longrightarrow> safe_run env st r t"
  unfolding safe_run_def by blast

lemma safe_run_refl: "represents env st a \<Longrightarrow> ws_record a = Some r \<Longrightarrow> safe_run env st r st"
  by (rule safe_runI [of _ _ "[]"]) (auto intro: safe_unchanged simp: stat_file_def)

lemma tombstone_then_drop_safe:
  assumes "represents env st a" "ws_record a = Some r" "workspace_id r = w" "fresh_token io st" "own_readable env"
    "float_printable (env_repr env) (io_time io)"
    and wr: "atomic_json_write env io (tombstone_file b) (tombstone io w b) validate_tombstone
      MAX_TOMBSTONE_BYTES ''tombstone'' st = (q, v)"
  shows "safe_run env st r v \<and> (q = Inr () \<longrightarrow> drop_recovery io v = (z, t) \<longrightarrow> safe_run env st r t)"
proof (cases "\<exists>e. q = Inl e \<and> v = st")
  case True
  with safe_run_refl [OF assms(1,2)] show ?thesis by auto
next
  case False
  with atomic_json_write_outcome [OF _ _ wr] assms(4) obtain enc where
    e: "encodable env (tombstone io w b) validate_tombstone MAX_TOMBSTONE_BYTES enc"
    and o: "write_outcome env io st (temporary_name io) (tombstone_file b) enc (q, v)"
    by (auto simp: fresh_token_def)
  then have "writing env st (temporary_name io) (tombstone_file b) enc v"
    by (auto simp: write_outcome_def failed_write_def replaced_def split: sum.splits)
  then obtain ds where ds: "store_trace v = store_trace st @ ds"
    and wd: "\<forall>d \<in> insert (store_files v) (set ds). written_dir env (store_files st) (temporary_name io) (tombstone_file b) enc d"
    by (auto simp: writing_def)
  have safe: "\<forall>d \<in> insert (store_files v) (set ds). safe_directory env st r d"
    using wd written_safe [OF assms(1-3) _ e assms(5,6)] by blast
  moreover have "safe_run env st r t" if "q = Inr ()" "drop_recovery io v = (z, t)"
  proof -
    have rp: "replaced env st (temporary_name io) (tombstone_file b) enc v" using o that by (simp add: write_outcome_def)
    have m: "map_of (store_files v) n = stat_file n v" for n by (simp add: stat_file_def)
    have "represents env (at_directory st (store_files v)) (mark_finished b w a)"
      using replaced_stat [OF rp] by (intro tombstone_written [OF assms(1) _ _ e assms(5,6)]) (auto simp: m)
    moreover have "finished (mark_finished b w a) (workspace_id r)"
      using assms(3) by (simp add: finished_def mark_finished_def)
    ultimately have "safe_directory env st r (without {recovery_file} (store_files v))"
      using safe by (intro dropped_safe) auto
    with drop_recovery_trace [OF that(2)] ds safe show ?thesis
      by (elim disjE; hypsubst; intro safe_runI [of _ _ ds] safe_runI [of _ _ "ds @ [without {recovery_file} (store_files v)]"]; simp)
  qed
  ultimately show ?thesis using ds by (blast intro: safe_runI)
qed

lemma finish_unlocked_safe:
  assumes "represents env st a" "ws_record a = Some r" "\<not> finished a (workspace_id r)"
    and "complete_or_discard_unlocked env io w b st = (res, t)"
    and "fresh_token io st" "own_readable env" "float_printable (env_repr env) (io_time io)"
  shows "safe_run env st r t"
proof -
  from assms(1,2) obtain x where x: "read_recovery env st = Inr x" "decode_versioned x recovery_from_dict = Inr r"
    by (auto simp: represents_def record_on_file_def)
  have load: "load_recovery_unlocked env io st = (Inr (Some r), st)"
    using x assms(3) terminal_finished [OF assms(1)] by (simp add: load_recovery_unlocked_def bind_s_run catch_def)
  show ?thesis
  proof (cases "workspace_id r = w \<and> (b \<or> set (completed_item_ids r) = item_id ` set (items r))")
    case False
    with assms(4) load have "t = st" by (cases "workspace_id r = w"; cases b) (simp_all add: complete_or_discard_unlocked_def bind_s_run)
    with safe_run_refl [OF assms(1,2)] show ?thesis by simp
  next
    case True
    obtain q v where wr: "atomic_json_write env io (tombstone_file b) (tombstone io w b) validate_tombstone
      MAX_TOMBSTONE_BYTES ''tombstone'' st = (q, v)" by force
    have "(\<exists>e. q = Inl e \<and> t = v) \<or> (q = Inr () \<and> (\<exists>z. drop_recovery io v = (z, t)))"
      using assms(4) load True wr by (cases q) (auto simp: complete_or_discard_unlocked_def bind_s_run)
    with tombstone_then_drop_safe [OF assms(1,2) _ assms(5-7) wr] True show ?thesis by blast
  qed
qed

text \<open>C4: finishing a workspace is crash safe: with any failing system call, and after a crash at any moment, the
  directory still holds the workspace unchanged or holds its tombstone, so the workspace is neither lost nor offered
  again after it was finished.\<close>

theorem finish_crash_safe:
  assumes "represents env st a" "ws_record a = Some r" "\<not> finished a (workspace_id r)"
    and "complete_or_discard env io w b st = (res, t)"
    and "fresh_token io st" "own_readable env" "float_printable (env_repr env) (io_time io)"
  shows "\<exists>ds. store_trace t = store_trace st @ ds \<and> (\<forall>d \<in> insert (store_files t) (set ds).
    \<exists>c. represents env (at_directory st d) c \<and> (ws_record c = Some r \<or> finished c (workspace_id r)))"
proof -
  have "safe_run env st r t"
  proof (cases "store_closed st")
    case True
    with assms(4) safe_run_refl [OF assms(1,2)] show ?thesis by (simp add: complete_or_discard_def transaction_eq)
  next
    case False
    with assms(4) obtain u where "complete_or_discard_unlocked env io w b (entered st) = (res, u)" "t = left u"
      by (auto simp: complete_or_discard_def transaction_eq)
    with finish_unlocked_safe [of env "entered st" a r io w b res u] assms have "safe_run env (entered st) r u" by simp
    moreover have "safe_directory env (entered st) r d = safe_directory env st r d" for d
      using represents_at [of d "at_directory st d" env "entered st"] by (simp add: safe_directory_def)
    ultimately show ?thesis using \<open>t = left u\<close> by (simp add: safe_run_def)
  qed
  then show ?thesis by (simp add: safe_run_def safe_directory_def)
qed

lemma recorded_store:
  assumes "encodable demo_env (recovery_payload r) recovery_from_dict MAX_RECOVERY_BYTES enc" "wf_recovery r" "created_at r = Finite 0"
  obtains t where "represents demo_env t (empty_workspace\<lparr>ws_record := Some r\<rparr>)" "fresh_token demo_io t" "\<not> store_closed t"
proof -
  let ?v = "recovery_payload r"
  have "\<forall>f. stat_file recovery_file demo_store = Some f \<longrightarrow> unsafe_file demo_env recovery_file f = Inr ()"
    by (simp add: demo_store_def stat_file_def)
  with atomic_json_write_returns [OF demo_env_facts(2) _ demo_env_facts(3) assms(1), of recovery_file "''recovery''"]
  obtain t where t: "atomic_json_write demo_env demo_io recovery_file ?v recovery_from_dict MAX_RECOVERY_BYTES ''recovery'' demo_store = (Inr (), t)"
    "replaced demo_env demo_store (temporary_name demo_io) recovery_file enc t" by auto
  have "write_recovery_record demo_env demo_io r demo_store = (Inr (), t)"
    using t payloads(2) [OF assms(2)] by (simp add: write_recovery_record_def)
  from write_record_represents [OF demo_represents this assms(2)] demo_floats demo_env_facts
  have "represents demo_env t (empty_workspace\<lparr>ws_record := Some r\<rparr>)" using assms(3) by simp
  moreover have "fresh_token demo_io t" using t(2) by (simp add: replaced_def fresh_token_def)
  moreover have "store_closed t = store_closed demo_store"
    by (rule replaced_other [OF t(2)])
  ultimately show ?thesis using that by (simp add: demo_store_def)
qed

lemma demo_recorded:
  obtains t where "represents demo_env t (empty_workspace\<lparr>ws_record := Some demo_recovery\<rparr>)" "fresh_token demo_io t"
    "\<not> store_closed t"
  by (rule recorded_store [OF demo_encodable(2) demo_records(2)]) (simp_all add: demo_recovery_def)

theorem finish_crash_safe_witness:
  "\<exists>t. \<exists>c. represents demo_env t c \<and> (ws_record c = Some demo_recovery \<or> finished c ''w'')"
proof -
  obtain s where s: "represents demo_env s (empty_workspace\<lparr>ws_record := Some demo_recovery\<rparr>)" "fresh_token demo_io s"
    using demo_recorded by blast
  obtain res t where "complete_or_discard demo_env demo_io ''w'' True s = (res, t)" by force
  from finish_crash_safe [OF s(1) _ _ this s(2)] demo_env_facts(1) demo_floats show ?thesis
    by (auto simp: empty_workspace_def finished_def demo_recovery_def sample_recovery_def demo_io_def)
qed

lemma set_add_completed:
  "set (add_completed cs outs) = set cs \<union> outcome_item_id ` {p \<in> set outs. terminal_outcome p}"
  unfolding add_completed_def by (induction outs arbitrary: cs) auto

text \<open>C25: committing the outcomes of an attempt appends exactly that attempt, under a new identifier, adds exactly the
  items with a successful or warned outcome to the completed ones, keeps everything else, and yields a record that
  satisfies every invariant.\<close>

theorem commit_extends_record:
  assumes "committed_record r w attempt outs = Inr u" "wf_recovery r" "\<forall>p \<in> set outs. wf_outcome p"
  shows "wf_recovery u \<and> workspace_id u = workspace_id r \<and> source_generation u = source_generation r \<and>
    items u = items r \<and> attempts u = attempts r @ [attempt\<lparr>outcomes := outs\<rparr>] \<and>
    (\<forall>a \<in> set (attempts r). attempt_id a \<noteq> attempt_id attempt) \<and>
    set (completed_item_ids u) = set (completed_item_ids r) \<union>
      {outcome_item_id p | p. p \<in> set outs \<and> outcome_kind p \<in> {SUCCESS, WARNING}}"
  using committed_record_Inr [OF assms] set_add_completed [of "completed_item_ids r" outs]
  by (auto simp: terminal_outcome_def)

theorem commit_extends_record_witness:
  "\<exists>u. committed_record demo_recovery ''w'' \<lparr>attempt_id = ''a2'', attempt_workspace_id = ''w'',
     selected_item_ids = [''s1''], approved_item_ids = [], outcomes = []\<rparr>
     [\<lparr>outcome_item_id = ''s1'', outcome_kind = WARNING, outcome_message = ''ok''\<rparr>] = Inr u \<and> wf_recovery u"
proof -
  let ?a = "\<lparr>attempt_id = ''a2'', attempt_workspace_id = ''w'', selected_item_ids = [''s1''], approved_item_ids = [], outcomes = []\<rparr>"
  let ?o = "[\<lparr>outcome_item_id = ''s1'', outcome_kind = WARNING, outcome_message = ''ok''\<rparr>]"
  have wo: "\<forall>p \<in> set ?o. wf_outcome p" by (simp add: wf_outcome_def limits)
  have "RestoreAttempt_check (?a\<lparr>outcomes := ?o\<rparr>) = Inr (?a\<lparr>outcomes := ?o\<rparr>)"
    by (simp add: RestoreAttempt_check_def require_bounded_string_def require_bounded_sequence_def require_unique_def limits)
  moreover have "RecoveryRecord_check (demo_recovery\<lparr>attempts := attempts demo_recovery @ [?a\<lparr>outcomes := ?o\<rparr>],
      completed_item_ids := add_completed (completed_item_ids demo_recovery) ?o\<rparr>) \<noteq> Inl e" for e
    by (simp add: RecoveryRecord_check_def demo_recovery_def sample_recovery_def add_completed_def terminal_outcome_def
        require_schema_one_def require_bounded_string_def require_bounded_sequence_def require_non_negative_integer_def
        require_finite_float_def require_unique_def attempt_matches_def terminal_item_ids_def limits raise_if_def)
  ultimately obtain u where "committed_record demo_recovery ''w'' ?a ?o = Inr u"
    by (cases "committed_record demo_recovery ''w'' ?a ?o")
      (auto simp: committed_record_def demo_recovery_def sample_recovery_def)
  with commit_extends_record [OF this demo_records(2) wo] show ?thesis by blast
qed

end
