(* ===== verification/Processes.thy ===== *)
theory Processes imports Model Uuid Json_Text begin

text \<open>
  Process liveness as \<^verbatim>\<open>processes.py\<close> decides it, and the paths of \<^verbatim>\<open>paths.py\<close>. A recorded process is the same
  process only if the boot identifier and the start time of its \<^verbatim>\<open>/proc/PID/stat\<close> agree; the file is parsed
  around the command name, which may hold any text. The process filesystem is a parameter: a record of what
  the operating system answers to the three opens and the read.
\<close>

section \<open>Text as Python splits and reads it\<close>

text \<open>\<^verbatim>\<open>str.split()\<close>: the maximal runs of characters that are not blanks.\<close>

function split_words :: "string \<Rightarrow> string list" where
  "split_words [] = []"
| "split_words (c # s) =
     (if is_space c then split_words s
      else (c # takeWhile (\<lambda>x. \<not> is_space x) s) # split_words (dropWhile (\<lambda>x. \<not> is_space x) s))"
  by pat_completeness auto
termination
  by (relation "measure length") (auto simp: less_Suc_eq_le length_dropWhile_le)

text \<open>\<^verbatim>\<open>str.rfind(c)\<close>, with \<open>None\<close> for the result -1.\<close>

definition rfind :: "char \<Rightarrow> string \<Rightarrow> nat option" where
  "rfind c s = map_option (\<lambda>i. length s - 1 - i) (index_of c (rev s))"

text \<open>
  \<^verbatim>\<open>int(s)\<close> in base 10: a sign, digits with single underscores between them, blanks around, at most 4300
  digits. The accumulator carries the number and how many digits were read.
\<close>

fun decimal_digits :: "nat \<Rightarrow> nat \<Rightarrow> bool \<Rightarrow> string \<Rightarrow> (nat \<times> nat) option" where
  "decimal_digits acc k after_digit [] = (if after_digit then Some (acc, k) else None)"
| "decimal_digits acc k after_digit (c # s) =
     (if c = CHR ''_'' then (if after_digit then decimal_digits acc k False s else None)
      else if is_digit c then decimal_digits (10 * acc + (code c - 48)) (Suc k) True s else None)"

definition py_int :: "string \<Rightarrow> int result" where
  "py_int s =
     (let t = int_strip s;
          negative = startswith t ''-'';
          u = (if negative \<or> startswith t ''+'' then drop 1 t else t) in
      case decimal_digits 0 0 False u of
        None \<Rightarrow> Inl (ValueError ''invalid literal for int() with base 10'')
      | Some (n, k) \<Rightarrow>
          if k > MAX_INT_DIGITS
          then Inl (ValueError ''Exceeds the limit (4300 digits) for integer string conversion'')
          else Inr (if negative then - int n else int n))"

section \<open>\<^verbatim>\<open>paths.py\<close>\<close>

text \<open>
  \<^verbatim>\<open>str(Path(s))\<close>: the components joined by slashes, two leading slashes kept and three or more collapsed to
  one; \<^verbatim>\<open>Path(a) / b\<close> starts over at an absolute \<open>b\<close>.
\<close>

definition path_root :: "string \<Rightarrow> string" where
  "path_root s =
     (if startswith s ''/'' then
        (if startswith s ''//'' \<and> \<not> startswith s ''///'' then ''//'' else ''/'') else [])"

definition path_str :: "string \<Rightarrow> string" where
  "path_str s =
     (let t = path_root s @ join ''/'' (path_parts s) in if t = [] then ''.'' else t)"

definition path_join :: "string \<Rightarrow> string \<Rightarrow> string" where
  "path_join a b = (if startswith b ''/'' then path_str b
      else if a = [] \<or> endswith a ''/'' then path_str (a @ b) else path_str (a @ ''/'' @ b))"

definition is_absolute :: "string \<Rightarrow> bool" where
  "is_absolute s \<longleftrightarrow> startswith s ''/''"

record XDGPaths =
  runtime_dir :: string
  state_dir :: string
  config_dir :: string

text \<open>The environment is a map; \<^verbatim>\<open>env.get(name, default)\<close> keeps a present empty value.\<close>

definition resolve_paths :: "(string \<rightharpoonup> string) \<Rightarrow> int \<Rightarrow> string \<Rightarrow> XDGPaths result" where
  "resolve_paths env uid home =
     (case env ''XDG_RUNTIME_DIR'' of
        None \<Rightarrow> Inl (ValueError ''XDG_RUNTIME_DIR is required for the per-user socket'')
      | Some runtime_root \<Rightarrow>
          if runtime_root = [] then Inl (ValueError ''XDG_RUNTIME_DIR is required for the per-user socket'')
          else
            let state_root = (case env ''XDG_STATE_HOME'' of
                  Some d \<Rightarrow> path_str d | None \<Rightarrow> path_join home ''.local/state'');
                config_root = (case env ''XDG_CONFIG_HOME'' of
                  Some d \<Rightarrow> path_str d | None \<Rightarrow> path_join home ''.config'') in
            Inr \<lparr>runtime_dir = path_join runtime_root ''termrecall'',
                 state_dir = path_join state_root ''termrecall'',
                 config_dir = path_join config_root ''termrecall''\<rparr>)"

text \<open>\<^verbatim>\<open>read_boot_id\<close> of a file, which is the bytes it holds or the error of reading it.\<close>

definition is_ascii :: "string \<Rightarrow> bool" where
  "is_ascii s \<longleftrightarrow> list_all (\<lambda>c. code c < 128) s"

definition read_boot_id :: "string result \<Rightarrow> string result" where
  "read_boot_id file =
     bind_r file (\<lambda>data.
     if \<not> is_ascii data then Inl (ValueError ''ordinal not in range(128)'')
     else case uuid_text (strip data) of
       Inl e \<Rightarrow> if is_ValueError e then Inl (ValueError ''invalid Linux boot ID'') else Inl e
     | Inr text \<Rightarrow> Inr text)"

section \<open>The start time of a process\<close>

datatype ProcessStatus = ALIVE | DEAD | UNKNOWN

record ProcessProbe =
  probe_status :: ProcessStatus
  probe_diagnostic :: "string option"

text \<open>
  What the system answers: an open succeeds, finds nothing (\<^verbatim>\<open>ENOENT\<close>) or fails otherwise; a read yields bytes or
  fails. A process directory is named by the text of the PID.
\<close>

datatype open_answer = Opened | Absent | Refused

record proc_fs =
  proc_root_open :: open_answer
  pid_dir_open :: "string \<Rightarrow> open_answer"
  stat_open :: "string \<Rightarrow> open_answer"
  stat_bytes :: "string \<Rightarrow> string option"

definition MAX_STAT_BYTES :: nat where "MAX_STAT_BYTES = 65536"

definition parse_process_stat :: "int \<Rightarrow> string \<Rightarrow> int result" where
  "parse_process_stat p data =
     (if \<not> is_ascii data then Inl (ProcessInspectionError ''process stat is not ASCII'')
      else case rfind CHR '')'' data of
        None \<Rightarrow> Inl (ProcessInspectionError ''process stat has no command terminator'')
      | Some close_paren \<Rightarrow>
      (let prefix = take close_paren data in
       case find_sub ''('' prefix of
        None \<Rightarrow> Inl (ProcessInspectionError ''process stat has no command opener'')
      | Some open_paren \<Rightarrow>
       case py_int (strip (take open_paren prefix)) of
        Inl e \<Rightarrow> if is_ValueError e then Inl (ProcessInspectionError ''process stat has an invalid PID'') else Inl e
      | Inr stat_pid \<Rightarrow>
       if stat_pid \<noteq> p then Inl (ProcessInspectionError ''process stat PID does not match'')
       else
       let suffix = split_words (drop (close_paren + 1) data) in
       if length suffix \<le> 19 then Inl (ProcessInspectionError ''process stat is truncated'')
       else case py_int (suffix ! 19) of
        Inl e \<Rightarrow> if is_ValueError e then Inl (ProcessInspectionError ''process stat has an invalid start time'') else Inl e
      | Inr start \<Rightarrow>
       if start < 0 then Inl (ProcessInspectionError ''process stat has a negative start time'')
       else Inr start))"

definition read_process_start_time :: "proc_fs \<Rightarrow> int \<Rightarrow> int result" where
  "read_process_start_time fs p =
     (if p \<le> 0 then Inl (ProcessInspectionError ''process PID must be a positive integer'')
      else if proc_root_open fs \<noteq> Opened then Inl (ProcessInspectionError ''unable to open process filesystem'')
      else case pid_dir_open fs (int_text p) of
        Absent \<Rightarrow> Inl (FileNotFoundError (int_text p))
      | Refused \<Rightarrow> Inl (ProcessInspectionError ''unable to open process directory'')
      | Opened \<Rightarrow>
      case stat_open fs (int_text p) of
        Absent \<Rightarrow> Inl (FileNotFoundError (int_text p))
      | Refused \<Rightarrow> Inl (ProcessInspectionError ''unable to open process stat'')
      | Opened \<Rightarrow>
      case stat_bytes fs (int_text p) of
        None \<Rightarrow> Inl (ProcessInspectionError ''unable to read process stat'')
      | Some contents \<Rightarrow>
      let data = take (MAX_STAT_BYTES + 1) contents in
      if length data > MAX_STAT_BYTES then Inl (ProcessInspectionError ''process stat is oversized'')
      else parse_process_stat p data)"

definition identity_status :: "proc_fs \<Rightarrow> ProcessIdentity \<Rightarrow> string \<Rightarrow> ProcessProbe result" where
  "identity_status fs i current_boot_id =
     (let who = ''process '' @ int_text (pid i) in
      if boot_id i \<noteq> current_boot_id then
        Inr \<lparr>probe_status = UNKNOWN, probe_diagnostic = Some (who @ '' status unknown: boot ID differs'')\<rparr>
      else case read_process_start_time fs (pid i) of
        Inl (FileNotFoundError _) \<Rightarrow>
          Inr \<lparr>probe_status = DEAD, probe_diagnostic = Some (who @ '' is dead: process path is absent'')\<rparr>
      | Inl (ProcessInspectionError _) \<Rightarrow>
          Inr \<lparr>probe_status = UNKNOWN,
               probe_diagnostic = Some (who @ '' status unknown: inspection was inconclusive'')\<rparr>
      | Inl e \<Rightarrow> Inl e
      | Inr start \<Rightarrow>
          if start \<noteq> start_time i then
            Inr \<lparr>probe_status = DEAD, probe_diagnostic = Some (who @ '' is dead: start time differs'')\<rparr>
          else Inr \<lparr>probe_status = ALIVE, probe_diagnostic = None\<rparr>)"

definition current_identity :: "proc_fs \<Rightarrow> string result \<Rightarrow> int \<Rightarrow> ProcessIdentity result" where
  "current_identity fs boot_file p =
     bind_r (read_boot_id boot_file) (\<lambda>b.
     bind_r (read_process_start_time fs p) (\<lambda>t. ProcessIdentity_init b p t))"

section \<open>Reading back a stat line\<close>

lemma index_of_append: "c \<notin> set a \<Longrightarrow> index_of c (a @ c # b) = Some (length a)"
  by (induction a) auto

lemma rfind_last: "c \<notin> set b \<Longrightarrow> rfind c (a @ c # b) = Some (length a)"
  by (simp add: rfind_def index_of_append)

lemma find_sub_char: "c \<notin> set a \<Longrightarrow> find_sub [c] (a @ c # b) = Some (length a)"
  by (induction a) (auto simp: startswith_def)

lemma decimal_digits_all:
  "list_all is_digit s \<Longrightarrow> s \<noteq> [] \<or> af \<Longrightarrow>
     decimal_digits acc k af s = Some (foldl (\<lambda>a c. 10 * a + (code c - 48)) acc s, k + length s)"
proof (induction s arbitrary: acc k af)
  case (Cons c s)
  then have "c \<noteq> CHR ''_''" by (auto simp: is_digit_def code_def)
  with Cons show ?case by simp
qed auto

lemma digit_not_space: "is_digit c \<Longrightarrow> \<not> is_space c \<and> c \<noteq> CHR ''-'' \<and> c \<noteq> CHR ''+'' \<and> c \<noteq> CHR ''('' \<and> code c < 128"
  by (auto simp: is_digit_def is_space_def code_def)

lemma strip_right_blank: "\<forall>c \<in> set s. \<not> is_space c \<Longrightarrow> s \<noteq> [] \<Longrightarrow> is_space b \<Longrightarrow> strip (s @ [b]) = s"
  by (cases s) (simp_all add: strip_def dropWhile_none)

lemma py_int_nat_text: "length (nat_text n) \<le> MAX_INT_DIGITS \<Longrightarrow> py_int (nat_text n) = Inr (int n)"
proof -
  assume "length (nat_text n) \<le> MAX_INT_DIGITS"
  moreover have d: "list_all is_digit (nat_text n)" "nat_text n \<noteq> []" "digits_value (nat_text n) = n"
    using nat_text_digits by auto
  then have c: "\<forall>c \<in> set (nat_text n). \<not> int_space c \<and> c \<noteq> CHR ''-'' \<and> c \<noteq> CHR ''+''"
    using digit_not_space by (auto simp: list_all_iff int_space_def)
  then have "int_strip (nat_text n) = nat_text n" by (simp add: int_strip_def dropWhile_none)
  moreover have "\<not> startswith (nat_text n) ''-''" "\<not> startswith (nat_text n) ''+''"
    using c d(2) by (cases "nat_text n"; simp add: startswith_def)+
  ultimately show ?thesis
    using decimal_digits_all [OF d(1)] d(2,3) by (simp add: py_int_def digits_value_def)
qed

definition word :: "string \<Rightarrow> bool" where
  "word w \<longleftrightarrow> w \<noteq> [] \<and> (\<forall>c \<in> set w. \<not> is_space c)"

lemma split_words_word: "word w \<Longrightarrow> is_space b \<Longrightarrow> split_words (w @ b # s) = w # split_words (b # s)"
  by (cases w) (auto simp: word_def takeWhile_append dropWhile_append)

lemma split_words_join:
  "\<forall>w \<in> set ws. word w \<Longrightarrow> is_space b \<Longrightarrow> split_words (join '' '' ws @ [b]) = ws"
proof (induction ws rule: induct_list012)
  case (2 w)
  then show ?case using split_words_word [of w b "[]"] by simp
next
  case (3 w v ws)
  moreover have "is_space CHR '' ''" by code_simp
  ultimately show ?case
    using split_words_word [of w "CHR '' ''" "join '' '' (v # ws) @ [b]"] by simp
qed simp

text \<open>What Linux writes: the PID, the command name in parentheses, then the fields from the state on.\<close>

definition stat_line :: "int \<Rightarrow> string \<Rightarrow> string list \<Rightarrow> string" where
  "stat_line p comm flds =
     int_text p @ '' ('' @ comm @ '') '' @ join '' '' flds @ [CHR 0x0A]"

definition stat_fields :: "string list \<Rightarrow> int \<Rightarrow> bool" where
  "stat_fields flds start \<longleftrightarrow>
     19 < length flds \<and> flds ! 19 = int_text start \<and> 0 \<le> start \<and> length (int_text start) \<le> MAX_INT_DIGITS \<and>
     (\<forall>w \<in> set flds. word w \<and> is_ascii w \<and> CHR '')'' \<notin> set w)"

lemma int_text_nonneg: "0 \<le> i \<Longrightarrow> int_text i = nat_text (nat i)"
  by (simp add: int_text_def)

lemma parse_stat_line:
  assumes "0 < p" "length (int_text p) \<le> MAX_INT_DIGITS" "is_ascii comm" "stat_fields flds start"
  shows "parse_process_stat p (stat_line p comm flds) = Inr start"
proof -
  let ?d = "nat_text (nat p)" and ?rest = "CHR '' '' # join '' '' flds @ [CHR 0x0A]"
  have digits: "\<forall>c \<in> set ?d. is_digit c" and ne: "?d \<noteq> []"
    using nat_text_digits [of "nat p"] by (auto simp: list_all_iff)
  have blanks: "is_space CHR '' ''" "is_space CHR 0x0A" by code_simp+
  have line: "stat_line p comm flds = (?d @ '' ('' @ comm) @ CHR '')'' # ?rest"
    using assms(1) by (simp add: stat_line_def int_text_nonneg)
  have rest: "c \<in> set ?rest \<Longrightarrow> code c < 128 \<and> c \<noteq> CHR '')''" for c
    using assms(4) set_join [of "'' ''" flds]
    by (auto simp: stat_fields_def is_ascii_def list_all_iff code_def)
  have "is_ascii (stat_line p comm flds)"
    using digits digit_not_space rest assms(3)
    by (force simp: line is_ascii_def list_all_iff code_def)
  moreover have "rfind CHR '')'' (stat_line p comm flds) = Some (length (?d @ '' ('' @ comm))"
    unfolding line by (rule rfind_last) (use rest in blast)
  moreover have "take (length (?d @ '' ('' @ comm)) (stat_line p comm flds) = ?d @ '' ('' @ comm"
    unfolding line by simp
  moreover have "find_sub ''('' (?d @ '' ('' @ comm) = Some (length ?d + 1)"
    using find_sub_char [of "CHR ''(''" "?d @ '' ''" comm] digits digit_not_space by auto
  moreover have "take (length ?d + 1) (?d @ '' ('' @ comm) = ?d @ '' ''" by simp
  moreover have "strip (?d @ '' '') = ?d"
    using strip_right_blank [OF _ ne blanks(1)] digits digit_not_space by blast
  moreover have "py_int ?d = Inr p"
    using py_int_nat_text [of "nat p"] assms(1,2) by (simp add: int_text_nonneg)
  moreover have "split_words (drop (length (?d @ '' ('' @ comm) + 1) (stat_line p comm flds)) = flds"
  proof -
    have "drop (length a + 1) (a @ c # r) = r" for a r :: string and c by simp
    from this [of "?d @ '' ('' @ comm" "CHR '')''" ?rest] show ?thesis
      using split_words_join [of flds "CHR 0x0A"] assms(4) blanks
      unfolding line by (simp only:) (simp add: stat_fields_def)
  qed
  moreover have "py_int (flds ! 19) = Inr start"
    using py_int_nat_text [of "nat start"] assms(4) by (auto simp: stat_fields_def int_text_nonneg)
  ultimately show ?thesis
    using assms(4) unfolding parse_process_stat_def by (simp add: Let_def stat_fields_def)
qed


section \<open>Liveness verdicts\<close>

lemma read_error_kind:
  "read_process_start_time fs p = Inl e \<Longrightarrow>
     (\<exists>m. e = FileNotFoundError m) \<or> (\<exists>m. e = ProcessInspectionError m)"
proof -
  have int_error: "py_int s = Inl x \<Longrightarrow> is_ValueError x" for s x
    by (auto simp: py_int_def Let_def split: option.splits prod.splits if_splits)
  have "parse_process_stat q d = Inl x \<Longrightarrow> \<exists>m. x = ProcessInspectionError m" for q d x
    using int_error
    by (auto simp: parse_process_stat_def Let_def split: if_splits option.splits sum.splits)
  then show "read_process_start_time fs p = Inl e \<Longrightarrow> ?thesis"
    by (auto simp: read_process_start_time_def Let_def split: if_splits open_answer.splits option.splits)
qed

text \<open>A process is reported dead or alive only on proof. The verdict is always given, without an
  exception; it is alive exactly if the boot identifiers agree and the recorded start time was read, and dead
  exactly if they agree and the process directory is absent or another start time was read. Every failure of
  the inspection gives unknown.\<close>
theorem identity_status_sound:
  "\<exists>q. identity_status fs i b = Inr q \<and>
     (probe_status q = ALIVE \<longleftrightarrow>
        boot_id i = b \<and> read_process_start_time fs (pid i) = Inr (start_time i)) \<and>
     (probe_status q = DEAD \<longleftrightarrow>
        boot_id i = b \<and> ((\<exists>m. read_process_start_time fs (pid i) = Inl (FileNotFoundError m)) \<or>
          (\<exists>t. t \<noteq> start_time i \<and> read_process_start_time fs (pid i) = Inr t)))"
proof (cases "read_process_start_time fs (pid i)")
  case (Inl e)
  then show ?thesis using read_error_kind [OF Inl] by (auto simp: identity_status_def Let_def)
qed (auto simp: identity_status_def Let_def)

lemma read_stat_line:
  assumes "0 < p" "length (int_text p) \<le> MAX_INT_DIGITS" "is_ascii comm" "stat_fields flds start"
    and "proc_root_open fs = Opened" "pid_dir_open fs (int_text p) = Opened" "stat_open fs (int_text p) = Opened"
    and "stat_bytes fs (int_text p) = Some (stat_line p comm flds)"
    and "length (stat_line p comm flds) \<le> MAX_STAT_BYTES"
  shows "read_process_start_time fs p = Inr start"
  using assms parse_stat_line [OF assms(1-4)] by (simp add: read_process_start_time_def)

lemma read_stat_not_ascii:
  assumes "0 < p" "\<not> is_ascii comm"
    and "proc_root_open fs = Opened" "pid_dir_open fs (int_text p) = Opened" "stat_open fs (int_text p) = Opened"
    and "stat_bytes fs (int_text p) = Some (stat_line p comm flds)"
    and "length (stat_line p comm flds) \<le> MAX_STAT_BYTES"
  shows "read_process_start_time fs p = Inl (ProcessInspectionError ''process stat is not ASCII'')"
proof -
  have "\<not> is_ascii (stat_line p comm flds)" using assms(2) by (simp add: stat_line_def is_ascii_def)
  then show ?thesis using assms by (simp add: read_process_start_time_def parse_process_stat_def)
qed

text \<open>C19: the identifier of a process that was taken over by another process does not pass for it, whatever
  the command name of the process holds: of the same boot, a process whose stat line is written as Linux writes it
  is alive if its start time is the recorded one and dead if it is not, also where the name has blanks, parentheses
  and digits that look like the fields of the line. Only where the name has a byte that is not ASCII the status is
  unknown, so then neither a process that runs nor one that took over the identifier is told.\<close>
theorem pid_reuse_detected:
  assumes "0 < pid i" "length (int_text (pid i)) \<le> MAX_INT_DIGITS" "stat_fields flds start"
    and "proc_root_open fs = Opened" "pid_dir_open fs (int_text (pid i)) = Opened"
    and "stat_open fs (int_text (pid i)) = Opened"
    and "stat_bytes fs (int_text (pid i)) = Some (stat_line (pid i) comm flds)"
    and "length (stat_line (pid i) comm flds) \<le> MAX_STAT_BYTES"
  shows "map_sum id probe_status (identity_status fs i b) =
    Inr (if boot_id i \<noteq> b \<or> \<not> is_ascii comm then UNKNOWN else if start = start_time i then ALIVE else DEAD)"
proof (cases "is_ascii comm")
  case True
  from read_stat_line [OF assms(1,2) True assms(3-8)] True show ?thesis by (simp add: identity_status_def)
next
  case False
  from read_stat_not_ascii [OF assms(1) False assms(4-8)] False show ?thesis by (simp add: identity_status_def Let_def)
qed

definition demo_fields :: "string list" where
  "demo_fields = ''S'' # replicate 18 ''0'' @ [''7'', ''1'', ''2'']"

definition demo_proc :: proc_fs where
  "demo_proc = \<lparr>proc_root_open = Opened, pid_dir_open = (\<lambda>_. Opened), stat_open = (\<lambda>_. Opened),
     stat_bytes = (\<lambda>_. Some (stat_line 42 ''a) (b 1'' demo_fields))\<rparr>"

theorem pid_reuse_detected_witness:
  "map_sum id probe_status (identity_status demo_proc \<lparr>boot_id = ''B'', pid = 42, start_time = 99\<rparr> ''B'') = Inr DEAD"
proof -
  have lengths: "length (int_text 42) = 2" "length (int_text 7) = 1"
    "length (stat_line 42 ''a) (b 1'' demo_fields) = 57"
    by code_simp+
  have "is_ascii ''a) (b 1''" by code_simp
  moreover have "stat_fields demo_fields 7"
  proof -
    have "list_all (\<lambda>w. word w \<and> is_ascii w \<and> CHR '')'' \<notin> set w) demo_fields" by code_simp
    moreover have "19 < length demo_fields" "demo_fields ! 19 = int_text 7" by code_simp+
    ultimately show ?thesis using lengths by (simp add: stat_fields_def list_all_iff MAX_INT_DIGITS_def)
  qed
  ultimately show ?thesis
    using pid_reuse_detected [of "\<lparr>boot_id = ''B'', pid = 42, start_time = 99\<rparr>" demo_fields 7
        demo_proc "''a) (b 1''" "''B''"] lengths by (simp add: demo_proc_def MAX_INT_DIGITS_def MAX_STAT_BYTES_def)
qed

end
