(* ===== verification/Adapters.thy ===== *)
theory Adapters
  imports Model Classifier Effect Processes
begin

text \<open>
  The terminal adapters of \<^verbatim>\<open>adapters/\<close>: how a list of items to restore becomes command lines for the installed
  terminal, and how their launch becomes one outcome per item. What the system answers is a parameter: the
  search path (\<open>which\<close>), the directories, the temporary file of kitty, and the launch of a program, which sees
  everything launched before. A plan and its execution change a \<open>world\<close>: the session files written and the
  command lines launched, in order.
\<close>

section \<open>\<^verbatim>\<open>base.py\<close>\<close>

definition COMMAND_WRAPPER :: string where
  "COMMAND_WRAPPER = ''exec \"$@\"; status=$?; exec bash -i''"

record AdapterCapabilities =
  tabs :: bool
  directories :: bool
  windows :: bool
  panes :: bool
  scrollback :: bool
  command_launch :: bool
  deterministic_grouping :: bool

record LaunchItem =
  li_item_id :: string
  li_cwd :: string
  li_approved_command :: "string option"

record LaunchAction =
  la_item_ids :: "string list"
  la_argv :: "string list"
  la_level :: RestorationLevel
  la_warnings :: "string list"

record host =
  which :: "string \<Rightarrow> string option"
  is_dir :: "string \<Rightarrow> bool"
  mkstemp :: "(string \<times> string) list \<Rightarrow> string result"
  write_session :: "string \<Rightarrow> string \<Rightarrow> unit result"
  runner :: "string list list \<Rightarrow> string list \<Rightarrow> int result"

record world =
  session_files :: "(string \<times> string) list"
  launched :: "string list list"

definition usable :: "host \<Rightarrow> LaunchItem \<Rightarrow> bool" where
  "usable h i \<longleftrightarrow> is_absolute (li_cwd i) \<and> is_dir h (li_cwd i)"

definition tab_argv_for :: "host \<Rightarrow> LaunchItem \<Rightarrow> string \<Rightarrow> string list \<Rightarrow> string list result" where
  "tab_argv_for h item wrapper wrapper_args =
     (if \<not> usable h item then Inr []
      else case li_approved_command item of
        None \<Rightarrow> Inr []
      | Some c \<Rightarrow> bind_r (shlex_split c) (\<lambda>tokens. Inr ([''bash'', ''-c'', wrapper] @ wrapper_args @ tokens)))"

section \<open>Planning one window with a tab per item\<close>

definition UNAVAILABLE_WARNING :: string where
  "UNAVAILABLE_WARNING = ''terminal executable unavailable''"

definition unavailable_action :: "string \<Rightarrow> LaunchAction" where
  "unavailable_action i = \<lparr>la_item_ids = [i], la_argv = [], la_level = UNAVAILABLE, la_warnings = [UNAVAILABLE_WARNING]\<rparr>"

text \<open>
  The tokens of an approved command follow \<open>sep\<close> and the wrapper. \<open>plan_tabs\<close> is the loop over the items that the
  grouping adapters share: the item identifiers, what the tabs contribute, the levels and the missing items.
\<close>

definition approved_tokens :: "string list \<Rightarrow> LaunchItem \<Rightarrow> string list result" where
  "approved_tokens sep item =
     (case li_approved_command item of
        None \<Rightarrow> Inr []
      | Some c \<Rightarrow> bind_r (shlex_split c) (\<lambda>tokens. Inr (sep @ [''bash'', ''-c'', COMMAND_WRAPPER, ''bash''] @ tokens)))"

definition item_level :: "LaunchItem \<Rightarrow> RestorationLevel" where
  "item_level item = (if li_approved_command item \<noteq> None then RECONSTRUCTED else PARTIAL)"

record tab_plan =
  tp_item_ids :: "string list"
  tp_argv :: "string list"
  tp_levels :: "RestorationLevel list"
  tp_missing :: "string list"

fun plan_tabs ::
  "(nat \<Rightarrow> LaunchItem \<Rightarrow> string list result) \<Rightarrow> host \<Rightarrow> nat \<Rightarrow> LaunchItem list \<Rightarrow> tab_plan result" where
  "plan_tabs tab h index [] = Inr \<lparr>tp_item_ids = [], tp_argv = [], tp_levels = [], tp_missing = []\<rparr>"
| "plan_tabs tab h index (item # todo) =
     (if \<not> usable h item then
        bind_r (plan_tabs tab h (Suc index) todo) (\<lambda>p. Inr (p\<lparr>tp_missing := li_item_id item # tp_missing p\<rparr>))
      else
        bind_r (tab index item) (\<lambda>argv.
        bind_r (plan_tabs tab h (Suc index) todo) (\<lambda>p.
        Inr (p\<lparr>tp_item_ids := li_item_id item # tp_item_ids p, tp_argv := argv @ tp_argv p,
               tp_levels := item_level item # tp_levels p\<rparr>))))"

definition highest_level :: "RestorationLevel list \<Rightarrow> RestorationLevel" where
  "highest_level levels =
     (if RECONSTRUCTED \<in> set levels then RECONSTRUCTED
      else if PARTIAL \<in> set levels then PARTIAL else UNAVAILABLE)"

definition none_usable :: "LaunchItem list \<Rightarrow> tab_plan \<Rightarrow> LaunchAction list" where
  "none_usable todo p =
     map unavailable_action (if tp_missing p \<noteq> [] then tp_missing p else map li_item_id todo)"

definition window_action :: "string list \<Rightarrow> tab_plan \<Rightarrow> LaunchAction" where
  "window_action argv p =
     \<lparr>la_item_ids = tp_item_ids p, la_argv = argv, la_level = highest_level (tp_levels p),
      la_warnings = map (\<lambda>i. i @ '': directory unavailable'') (tp_missing p)\<rparr>"

definition plan_window ::
  "string \<Rightarrow> (nat \<Rightarrow> LaunchItem \<Rightarrow> string list result) \<Rightarrow> host \<Rightarrow> LaunchItem list \<Rightarrow> LaunchAction list result" where
  "plan_window name tab h todo =
     (case which h name of
        None \<Rightarrow> Inr (map (\<lambda>i. unavailable_action (li_item_id i)) todo)
      | Some exe \<Rightarrow>
          bind_r (plan_tabs tab h 0 todo) (\<lambda>p.
          if tp_item_ids p = [] then Inr (none_usable todo p)
          else Inr [window_action (exe # tp_argv p) p]))"

definition gnome_tab :: "nat \<Rightarrow> LaunchItem \<Rightarrow> string list result" where
  "gnome_tab index item =
     bind_r (approved_tokens [''--''] item) (\<lambda>tokens.
     Inr ([if index = 0 then ''--window'' else ''--tab''] @ [''--working-directory'', li_cwd item] @ tokens))"

definition gnome_plan :: "host \<Rightarrow> LaunchItem list \<Rightarrow> LaunchAction list result" where
  "gnome_plan = plan_window ''gnome-terminal'' gnome_tab"

definition xfce4_tab :: "nat \<Rightarrow> LaunchItem \<Rightarrow> string list result" where
  "xfce4_tab index item =
     bind_r (approved_tokens [''--hold''] item) (\<lambda>tokens.
     Inr ([if index = 0 then ''--window'' else ''--tab''] @ [''--working-directory='' @ li_cwd item] @ tokens))"

definition xfce4_plan :: "host \<Rightarrow> LaunchItem list \<Rightarrow> LaunchAction list result" where
  "xfce4_plan = plan_window ''xfce4-terminal'' xfce4_tab"

definition konsole_tab :: "nat \<Rightarrow> LaunchItem \<Rightarrow> string list result" where
  "konsole_tab index item =
     bind_r (approved_tokens [''-e''] item) (\<lambda>tokens.
     Inr ((if index > 0 then [''--new-tab''] else []) @ [''--workdir'', li_cwd item] @ tokens))"

definition konsole_plan :: "host \<Rightarrow> LaunchItem list \<Rightarrow> LaunchAction list result" where
  "konsole_plan = plan_window ''konsole'' konsole_tab"

section \<open>Ghostty: one window per item\<close>

definition GHOSTTY_MULTIWINDOW_NOTE :: string where
  "GHOSTTY_MULTIWINDOW_NOTE = ''ghostty: opened in separate windows (no CLI multi-tab)''"

definition ghostty_action :: "host \<Rightarrow> string \<Rightarrow> nat \<Rightarrow> LaunchItem \<Rightarrow> LaunchAction result" where
  "ghostty_action h exe n item =
     (if \<not> usable h item then
        Inr \<lparr>la_item_ids = [li_item_id item], la_argv = [], la_level = UNAVAILABLE,
             la_warnings = [li_item_id item @ '': directory unavailable'']\<rparr>
      else
        bind_r (approved_tokens [''-e''] item) (\<lambda>tokens.
        Inr \<lparr>la_item_ids = [li_item_id item],
             la_argv = [exe, ''--working-directory='' @ li_cwd item] @ tokens,
             la_level = item_level item,
             la_warnings = (if n > 1 then [GHOSTTY_MULTIWINDOW_NOTE] else [])\<rparr>))"

definition ghostty_plan :: "host \<Rightarrow> LaunchItem list \<Rightarrow> LaunchAction list result" where
  "ghostty_plan h todo =
     (case which h ''ghostty'' of
        None \<Rightarrow> Inr (map (\<lambda>i. unavailable_action (li_item_id i)) todo)
      | Some exe \<Rightarrow> traverse (ghostty_action h exe (length todo)) todo)"

section \<open>Kitty: a session file\<close>

fun replace_char :: "char \<Rightarrow> string \<Rightarrow> string \<Rightarrow> string" where
  "replace_char c r [] = []"
| "replace_char c r (d # s) = (if d = c then r @ replace_char c r s else d # replace_char c r s)"

definition shell_escape :: "string \<Rightarrow> string" where
  "shell_escape token = [CHR 0x27] @ replace_char CHR 0x27 [CHR 0x27, CHR 0x5C, CHR 0x27, CHR 0x27] token @ [CHR 0x27]"

text \<open>The wrapper's \<^verbatim>\<open>repr\<close>: it holds double quotes and no single ones, so single quotes go around it.\<close>

definition COMMAND_WRAPPER_repr :: string where
  "COMMAND_WRAPPER_repr = [CHR 0x27] @ COMMAND_WRAPPER @ [CHR 0x27]"

definition kitty_launch :: "string list \<Rightarrow> string" where
  "kitty_launch tokens =
     ''launch bash -c '' @ COMMAND_WRAPPER_repr @ '' bash '' @ join '' '' (map shell_escape tokens)"

definition kitty_tab :: "nat \<Rightarrow> LaunchItem \<Rightarrow> string list result" where
  "kitty_tab index item =
     bind_r (case li_approved_command item of
               None \<Rightarrow> Inr []
             | Some c \<Rightarrow> bind_r (shlex_split c) (\<lambda>tokens. Inr [kitty_launch tokens])) (\<lambda>launch.
     Inr ([''new_tab'', ''cd '' @ li_cwd item] @ launch))"

definition kitty_plan :: "host \<Rightarrow> LaunchItem list \<Rightarrow> (world, LaunchAction list) act" where
  "kitty_plan h todo =
     (case which h ''kitty'' of
        None \<Rightarrow> ret (map (\<lambda>i. unavailable_action (li_item_id i)) todo)
      | Some exe \<Rightarrow>
          bind_s (lift_s (plan_tabs kitty_tab h 0 todo)) (\<lambda>p.
          if tp_item_ids p = [] then ret (none_usable todo p)
          else
            bind_s (gets session_files) (\<lambda>files.
            bind_s (lift_s (mkstemp h files)) (\<lambda>session_path.
            let contents = join [CHR 0x0A] (tp_argv p) @ [CHR 0x0A] in
            bind_s (lift_s (write_session h session_path contents)) (\<lambda>_.
            bind_s (modify (\<lambda>w. w\<lparr>session_files := session_files w @ [(session_path, contents)]\<rparr>)) (\<lambda>_.
            ret [window_action [exe, ''--session'', session_path] p]))))))"

section \<open>Launching\<close>

text \<open>Every adapter's \<^verbatim>\<open>_run\<close> starts one program; the world records the command line before the answer.\<close>

definition run_argv :: "host \<Rightarrow> string list \<Rightarrow> (world, int) act" where
  "run_argv h argv =
     bind_s (gets launched) (\<lambda>before.
     bind_s (modify (\<lambda>w. w\<lparr>launched := launched w @ [argv]\<rparr>)) (\<lambda>_.
     lift_s (runner h before argv)))"

definition outcomes_for :: "string list \<Rightarrow> OutcomeKind \<Rightarrow> string \<Rightarrow> Outcome list result" where
  "outcomes_for ids k message = traverse (\<lambda>i. Outcome_init i k (i @ '': '' @ message)) ids"

definition exit_message :: "int \<Rightarrow> string" where
  "exit_message returncode =
     (if returncode = 0 then ''terminal launch succeeded'' else ''terminal launch failed with status '' @ int_text returncode)"

definition execute_action :: "host \<Rightarrow> LaunchAction \<Rightarrow> (world, Outcome list) act" where
  "execute_action h action =
     (if la_argv action = [] then lift_s (outcomes_for (la_item_ids action) SKIP ''terminal unavailable'')
      else
        bind_s (catch (bind_s (run_argv h (la_argv action)) (\<lambda>returncode. ret (Inr returncode)))
          (\<lambda>e. if is_FileNotFoundError e \<or> e = TimeoutExpired then ret (Inl e) else raise_s e)) (\<lambda>answer.
        lift_s (case answer of
          Inl TimeoutExpired \<Rightarrow>
            outcomes_for (la_item_ids action) FAILURE ''terminal launch timed out; retryable''
        | Inl _ \<Rightarrow> outcomes_for (la_item_ids action) SKIP ''terminal unavailable''
        | Inr returncode \<Rightarrow>
            outcomes_for (la_item_ids action) (if returncode = 0 then SUCCESS else FAILURE) (exit_message returncode))))"

primrec execute_actions :: "host \<Rightarrow> LaunchAction list \<Rightarrow> (world, Outcome list) act" where
  "execute_actions h [] = ret []"
| "execute_actions h (action # actions) =
     bind_s (execute_action h action) (\<lambda>outs.
     bind_s (execute_actions h actions) (\<lambda>rest. ret (outs @ rest)))"

text \<open>The five classes repeat this method word for word; none of them uses the attempt's identifier.\<close>

definition gnome_execute :: "host \<Rightarrow> LaunchAction list \<Rightarrow> string \<Rightarrow> (world, Outcome list) act" where
  "gnome_execute h actions attempt = execute_actions h actions"

definition xfce4_execute :: "host \<Rightarrow> LaunchAction list \<Rightarrow> string \<Rightarrow> (world, Outcome list) act" where
  "xfce4_execute h actions attempt = execute_actions h actions"

definition konsole_execute :: "host \<Rightarrow> LaunchAction list \<Rightarrow> string \<Rightarrow> (world, Outcome list) act" where
  "konsole_execute h actions attempt = execute_actions h actions"

definition ghostty_execute :: "host \<Rightarrow> LaunchAction list \<Rightarrow> string \<Rightarrow> (world, Outcome list) act" where
  "ghostty_execute h actions attempt = execute_actions h actions"

definition kitty_execute :: "host \<Rightarrow> LaunchAction list \<Rightarrow> string \<Rightarrow> (world, Outcome list) act" where
  "kitty_execute h actions attempt = execute_actions h actions"

section \<open>\<^verbatim>\<open>registry.py\<close>\<close>

datatype Adapter = GnomeTerminal | Kitty | Ghostty | Xfce4Terminal | Konsole

fun adapter_capabilities :: "Adapter \<Rightarrow> AdapterCapabilities" where
  "adapter_capabilities GnomeTerminal =
     \<lparr>tabs = True, directories = True, windows = True, panes = False, scrollback = False,
      command_launch = True, deterministic_grouping = True\<rparr>"
| "adapter_capabilities Kitty =
     \<lparr>tabs = False, directories = True, windows = False, panes = False, scrollback = False,
      command_launch = True, deterministic_grouping = True\<rparr>"
| "adapter_capabilities Ghostty =
     \<lparr>tabs = False, directories = True, windows = False, panes = False, scrollback = False,
      command_launch = True, deterministic_grouping = False\<rparr>"
| "adapter_capabilities Xfce4Terminal =
     \<lparr>tabs = True, directories = True, windows = False, panes = False, scrollback = False,
      command_launch = True, deterministic_grouping = True\<rparr>"
| "adapter_capabilities Konsole =
     \<lparr>tabs = True, directories = True, windows = False, panes = False, scrollback = False,
      command_launch = True, deterministic_grouping = True\<rparr>"

definition ADAPTER_FACTORIES :: "(string \<times> Adapter) list" where
  "ADAPTER_FACTORIES =
     [(''gnome-terminal'', GnomeTerminal), (''kitty'', Kitty), (''ghostty'', Ghostty),
      (''xfce4-terminal'', Xfce4Terminal), (''konsole'', Konsole)]"

definition SUPPORTED_DESKTOPS :: "string list" where
  "SUPPORTED_DESKTOPS = [''X-Cinnamon'', ''Cinnamon'', ''GNOME'', ''ubuntu:GNOME'', ''XFCE'', ''KDE'']"

definition create_adapter :: "string \<Rightarrow> Adapter result" where
  "create_adapter adapter_name =
     (case map_of ADAPTER_FACTORIES adapter_name of
        None \<Rightarrow> Inl (ValueError ''unsupported adapter'') | Some a \<Rightarrow> Inr a)"

definition get_adapter_for_shell :: "string \<Rightarrow> Adapter result" where
  "get_adapter_for_shell adapter_name = create_adapter adapter_name"

fun adapter_executable :: "Adapter \<Rightarrow> string" where
  "adapter_executable GnomeTerminal = ''gnome-terminal''"
| "adapter_executable Kitty = ''kitty''"
| "adapter_executable Ghostty = ''ghostty''"
| "adapter_executable Xfce4Terminal = ''xfce4-terminal''"
| "adapter_executable Konsole = ''konsole''"

definition detect :: "host \<Rightarrow> Adapter \<Rightarrow> bool" where
  "detect h a \<longleftrightarrow> which h (adapter_executable a) \<noteq> None"

fun first_detected :: "host \<Rightarrow> string list \<Rightarrow> string option result" where
  "first_detected h [] = Inr None"
| "first_detected h (adapter_name # names) =
     bind_r (create_adapter adapter_name) (\<lambda>a.
     if detect h a then Inr (Some adapter_name) else first_detected h names)"

definition detect_adapter :: "host \<Rightarrow> string option result" where
  "detect_adapter h =
     first_detected h [''gnome-terminal'', ''kitty'', ''ghostty'', ''xfce4-terminal'', ''konsole'']"

fun adapter_plan :: "Adapter \<Rightarrow> host \<Rightarrow> LaunchItem list \<Rightarrow> (world, LaunchAction list) act" where
  "adapter_plan GnomeTerminal h todo = lift_s (gnome_plan h todo)"
| "adapter_plan Kitty h todo = kitty_plan h todo"
| "adapter_plan Ghostty h todo = lift_s (ghostty_plan h todo)"
| "adapter_plan Xfce4Terminal h todo = lift_s (xfce4_plan h todo)"
| "adapter_plan Konsole h todo = lift_s (konsole_plan h todo)"

fun adapter_execute :: "Adapter \<Rightarrow> host \<Rightarrow> LaunchAction list \<Rightarrow> string \<Rightarrow> (world, Outcome list) act" where
  "adapter_execute GnomeTerminal = gnome_execute"
| "adapter_execute Kitty = kitty_execute"
| "adapter_execute Ghostty = ghostty_execute"
| "adapter_execute Xfce4Terminal = xfce4_execute"
| "adapter_execute Konsole = konsole_execute"


section \<open>Kitty's quoting is read back by the shell's rules\<close>

lemma of_char_quote: "of_char c = (39 :: nat) \<longleftrightarrow> c = CHR 0x27"
proof -
  have "of_char CHR 0x27 = (39 :: nat)" by simp
  then show ?thesis by (metis of_char_eq_iff)
qed

lemma shlex_run_escaped:
  "shlex_run InSingle token q (replace_char CHR 0x27 [CHR 0x27, CHR 0x5C, CHR 0x27, CHR 0x27] t @ CHR 0x27 # rest) =
     shlex_run InWord (rev t @ token) True rest"
  by (induction t arbitrary: token q) (auto simp: code_def of_char_quote)

lemma shlex_run_shell_escape:
  "shlex_run Blank [] False (shell_escape t @ rest) = shlex_run InWord (rev t) True rest"
  using shlex_run_escaped [of "[]" False t rest] by (simp add: shell_escape_def code_def shlex_blank_def)

lemma shlex_run_escaped_words:
  "shlex_run Blank [] False (join '' '' (map shell_escape ts)) = Inr ts"
proof (induction ts rule: induct_list012)
  case (2 t)
  show ?case using shlex_run_shell_escape [of t "[]"] by (simp add: emit_def)
next
  case (3 t u ts)
  then show ?case
    using shlex_run_shell_escape [of t "'' '' @ join '' '' (map shell_escape (u # ts))"]
    by (simp add: emit_def prepend_def shlex_blank_def)
qed (simp add: emit_def)

lemma shlex_run_plain:
  "\<forall>c \<in> set s. \<not> shlex_blank c \<and> code c \<notin> {34, 39, 92} \<Longrightarrow>
     shlex_run InWord token q (s @ rest) = shlex_run InWord (rev s @ token) q rest"
  by (induction s arbitrary: token) auto

lemma shlex_run_word:
  assumes "w \<noteq> []" "\<forall>c \<in> set w. \<not> shlex_blank c \<and> code c \<notin> {34, 39, 92}"
  shows "shlex_run Blank [] False (w @ CHR '' '' # rest) = prepend [w] (shlex_run Blank [] False rest)"
  using assms shlex_run_plain [of "tl w" "[hd w]" False "CHR '' '' # rest"]
  by (cases w) (auto simp: shlex_blank_def emit_def)

lemma shlex_split_kitty_launch:
  "shlex_split (kitty_launch ts) = Inr ([''launch'', ''bash'', ''-c'', COMMAND_WRAPPER, ''bash''] @ ts)"
proof -
  have plain: "list_all (\<lambda>w. w \<noteq> [] \<and> list_all (\<lambda>c. \<not> shlex_blank c \<and> code c \<notin> {34, 39, 92}) w)
      [''launch'', ''bash'', ''-c'']" by code_simp
  have "list_all (\<lambda>c. c \<noteq> CHR 0x27) COMMAND_WRAPPER" by code_simp
  moreover have "list_all (\<lambda>c. c \<noteq> d) s \<Longrightarrow> replace_char d r s = s" for d r s by (induction s) auto
  ultimately have "replace_char CHR 0x27 r COMMAND_WRAPPER = COMMAND_WRAPPER" for r by blast
  then have w: "COMMAND_WRAPPER_repr = shell_escape COMMAND_WRAPPER"
    by (simp add: COMMAND_WRAPPER_repr_def shell_escape_def)
  let ?rest = "join '' '' (map shell_escape ts)"
  have "kitty_launch ts = ''launch'' @ CHR '' '' # ''bash'' @ CHR '' '' # ''-c'' @ CHR '' '' #
      shell_escape COMMAND_WRAPPER @ CHR '' '' # ''bash'' @ CHR '' '' # ?rest"
    by (simp add: kitty_launch_def w)
  moreover have "shlex_run Blank [] False (x @ CHR '' '' # r) = prepend [x] (shlex_run Blank [] False r)"
    if "x \<in> {''launch'', ''bash'', ''-c''}" for x r
    using that plain by (intro shlex_run_word) (auto simp: list_all_iff)
  moreover have "shlex_run Blank [] False (shell_escape COMMAND_WRAPPER @ CHR '' '' # r) =
      prepend [COMMAND_WRAPPER] (shlex_run Blank [] False r)" for r
    by (simp add: shlex_run_shell_escape shlex_blank_def emit_def)
  ultimately show ?thesis
    by (simp only: shlex_split_def shlex_run_escaped_words insert_iff simp_thms) (simp add: prepend_def)
qed

section \<open>What the planning loop collects\<close>

text \<open>The usable items with their positions in the whole list.\<close>

definition numbered :: "host \<Rightarrow> nat \<Rightarrow> LaunchItem list \<Rightarrow> (nat \<times> LaunchItem) list" where
  "numbered h k todo = filter (\<lambda>(j, i). usable h i) (enumerate k todo)"

lemma numbered_simps [simp]: "numbered h k [] = []"
  "numbered h k (i # todo) = (if usable h i then (k, i) # numbered h (Suc k) todo else numbered h (Suc k) todo)"
  by (simp_all add: numbered_def)

lemma map_numbered: "map snd (numbered h k todo) = filter (usable h) todo"
  by (induction todo arbitrary: k) auto

lemma plan_tabs_Inr:
  "plan_tabs tab h k todo = Inr p \<Longrightarrow>
     tp_item_ids p = map li_item_id (filter (usable h) todo) \<and>
     tp_missing p = map li_item_id (filter (\<lambda>i. \<not> usable h i) todo) \<and>
     tp_levels p = map item_level (filter (usable h) todo) \<and>
     (\<exists>blocks. tp_argv p = concat blocks \<and> list_all2 (\<lambda>(j, i) b. tab j i = Inr b) (numbered h k todo) blocks)"
proof (induction todo arbitrary: k p)
  case (Cons item todo)
  show ?case
  proof (cases "usable h item")
    case True
    with Cons.prems obtain argv q where argv: "tab k item = Inr argv" and q: "plan_tabs tab h (Suc k) todo = Inr q"
      and p: "p = q\<lparr>tp_item_ids := li_item_id item # tp_item_ids q, tp_argv := argv @ tp_argv q,
               tp_levels := item_level item # tp_levels q\<rparr>"
      by auto
    from Cons.IH [OF q] obtain blocks where "tp_argv q = concat blocks"
      "list_all2 (\<lambda>(j, i) b. tab j i = Inr b) (numbered h (Suc k) todo) blocks" by blast
    then have "tp_argv p = concat (argv # blocks) \<and>
        list_all2 (\<lambda>(j, i) b. tab j i = Inr b) (numbered h k (item # todo)) (argv # blocks)"
      using True argv p by simp
    moreover have "tp_item_ids p = map li_item_id (filter (usable h) (item # todo))"
      "tp_missing p = map li_item_id (filter (\<lambda>i. \<not> usable h i) (item # todo))"
      "tp_levels p = map item_level (filter (usable h) (item # todo))"
      using Cons.IH [OF q] True p by simp_all
    ultimately show ?thesis by blast
  qed (use Cons in \<open>auto dest!: Cons.IH\<close>)
qed auto


section \<open>The contract of an adapter\<close>

text \<open>
  What each terminal may be started with, word by word. The words of an approved command are those the shell's rules
  split it into; they stand behind the separator of the terminal and the wrapper that runs them. An item without an
  approved command brings no words.
\<close>

definition command_words :: "string list \<Rightarrow> LaunchItem \<Rightarrow> string list \<Rightarrow> bool" where
  "command_words sep i ws \<longleftrightarrow>
     (case li_approved_command i of
        None \<Rightarrow> ws = []
      | Some c \<Rightarrow> \<exists>ts. shlex_split c = Inr ts \<and> ws = sep @ [''bash'', ''-c'', COMMAND_WRAPPER, ''bash''] @ ts)"

text \<open>The block of one tab, for the item at a position of the list.\<close>

definition tab_block :: "Adapter \<Rightarrow> nat \<Rightarrow> LaunchItem \<Rightarrow> string list \<Rightarrow> bool" where
  "tab_block a j i b \<longleftrightarrow>
     (case a of
        GnomeTerminal \<Rightarrow> \<exists>ws. command_words [''--''] i ws \<and>
          b = [if j = 0 then ''--window'' else ''--tab'', ''--working-directory'', li_cwd i] @ ws
      | Xfce4Terminal \<Rightarrow> \<exists>ws. command_words [''--hold''] i ws \<and>
          b = [if j = 0 then ''--window'' else ''--tab'', ''--working-directory='' @ li_cwd i] @ ws
      | Konsole \<Rightarrow> \<exists>ws. command_words [''-e''] i ws \<and>
          b = (if j = 0 then [] else [''--new-tab'']) @ [''--workdir'', li_cwd i] @ ws
      | Ghostty \<Rightarrow> \<exists>ws. command_words [''-e''] i ws \<and> b = [''--working-directory='' @ li_cwd i] @ ws
      | Kitty \<Rightarrow> False)"

text \<open>
  The lines kitty reads for an item from a session file. No newline stands in a directory or a command that came over
  the wire, which refuses control characters; the adapter itself does not look for one.
\<close>

definition session_block :: "LaunchItem \<Rightarrow> string list \<Rightarrow> bool" where
  "session_block i b \<longleftrightarrow>
     (case li_approved_command i of
        None \<Rightarrow> b = [''new_tab'', ''cd '' @ li_cwd i]
      | Some c \<Rightarrow> \<exists>ts line. shlex_split c = Inr ts \<and> b = [''new_tab'', ''cd '' @ li_cwd i, line] \<and>
          shlex_split line = Inr ([''launch'', ''bash'', ''-c'', COMMAND_WRAPPER, ''bash''] @ ts))"

definition session_of :: "LaunchItem list \<Rightarrow> string \<Rightarrow> bool" where
  "session_of sel contents \<longleftrightarrow>
     (\<exists>blocks. contents = join [CHR 0x0A] (concat blocks) @ [CHR 0x0A] \<and> list_all2 session_block sel blocks)"

text \<open>
  The whole command line, word by word: the terminal, and then the blocks of all usable items in order; of one usable
  item (Ghostty, one window each); or the session file that holds the blocks of all usable items in order (Kitty).
\<close>

definition sound_argv :: "Adapter \<Rightarrow> host \<Rightarrow> LaunchItem list \<Rightarrow> (string \<times> string) list \<Rightarrow> string list \<Rightarrow> bool" where
  "sound_argv a h todo files argv \<longleftrightarrow>
     (\<exists>exe. which h (adapter_executable a) = Some exe \<and>
        (case a of
           Kitty \<Rightarrow> \<exists>path contents. argv = [exe, ''--session'', path] \<and> (path, contents) \<in> set files \<and>
             session_of (filter (usable h) todo) contents
         | Ghostty \<Rightarrow> \<exists>i \<in> set todo. usable h i \<and> (\<exists>b. tab_block Ghostty 0 i b \<and> argv = exe # b)
         | _ \<Rightarrow> \<exists>blocks. argv = exe # concat blocks \<and>
             list_all2 (\<lambda>(j, i) b. tab_block a j i b) (numbered h 0 todo) blocks))"

definition command_lines :: "LaunchAction list \<Rightarrow> string list list" where
  "command_lines acts = filter (\<lambda>argv. argv \<noteq> []) (map la_argv acts)"

definition action_ids :: "LaunchAction list \<Rightarrow> string list" where
  "action_ids acts = concat (map la_item_ids acts)"

locale terminal_adapter =
  fixes adapter :: Adapter
    and plan :: "host \<Rightarrow> LaunchItem list \<Rightarrow> (world, LaunchAction list) act"
    and execute :: "host \<Rightarrow> LaunchAction list \<Rightarrow> string \<Rightarrow> (world, Outcome list) act"
  assumes plan_launches: "launched (snd (plan h todo w)) = launched w"
    and plan_argv: "plan h todo w = (Inr acts, w') \<Longrightarrow> argv \<in> set (command_lines acts) \<Longrightarrow>
      sound_argv adapter h todo (session_files w') argv"
    and plan_ids: "plan h todo w = (Inr acts, w') \<Longrightarrow>
      action_ids acts \<in> {map li_item_id todo, map li_item_id (filter (usable h) todo)}"
    and execute_launches: "\<exists>n. launched (snd (execute h acts t w)) = launched w @ take n (command_lines acts)"
    and execute_files: "session_files (snd (execute h acts t w)) = session_files w"
    and execute_ids: "execute h acts t w = (Inr outs, w') \<Longrightarrow> map outcome_item_id outs = action_ids acts"
begin

lemma launches_sound:
  assumes "bind_s (plan h todo) (\<lambda>acts. execute h acts t) w = (r, w')"
  shows "\<exists>argvs. launched w' = launched w @ argvs \<and> (\<forall>argv \<in> set argvs. sound_argv adapter h todo (session_files w') argv)"
proof (cases "plan h todo w")
  case (Pair x v)
  show ?thesis
  proof (cases x)
    case (Inl e)
    then show ?thesis using assms Pair plan_launches [of h todo w] by (auto simp: bind_s_def)
  next
    case (Inr acts)
    then have w': "w' = snd (execute h acts t v)" using assms Pair by (simp add: bind_s_def)
    obtain n where "launched w' = launched v @ take n (command_lines acts)"
      using execute_launches [of h acts t v] w' by blast
    moreover have "launched v = launched w" using plan_launches [of h todo w] Pair by simp
    moreover have "sound_argv adapter h todo (session_files w') argv" if "argv \<in> set (take n (command_lines acts))" for argv
      using plan_argv [of h todo w acts v argv] Pair Inr in_set_takeD [OF that] execute_files [of h acts t v] w' by simp
    ultimately show ?thesis by auto
  qed
qed

lemma outcome_ids:
  "bind_s (plan h todo) (\<lambda>acts. execute h acts t) w = (Inr outs, w') \<Longrightarrow>
     map outcome_item_id outs \<in> {map li_item_id todo, map li_item_id (filter (usable h) todo)}"
  using plan_ids execute_ids by (fastforce simp: bind_s_Inr)

end

section \<open>Every adapter meets it\<close>

lemma outcomes_for_ids: "outcomes_for ids k m = Inr outs \<Longrightarrow> map outcome_item_id outs = ids"
proof (unfold outcomes_for_def, induction ids arbitrary: outs)
  case (Cons i ids)
  then obtain p ps where "Outcome_init i k (i @ '': '' @ m) = Inr p" "outs = p # ps"
    "traverse (\<lambda>i. Outcome_init i k (i @ '': '' @ m)) ids = Inr ps" by auto
  with Cons.IH [of ps] show ?case by (auto simp: Outcome_init_def)
qed simp

lemma run_argv_run: "run_argv h argv w = (runner h (launched w) argv, w\<lparr>launched := launched w @ [argv]\<rparr>)"
  by (simp add: run_argv_def bind_s_def)

lemma execute_action_run:
  "launched (snd (execute_action h action w)) = launched w @ command_lines [action] \<and>
   session_files (snd (execute_action h action w)) = session_files w \<and>
   (execute_action h action w = (Inr outs, w') \<longrightarrow> map outcome_item_id outs = la_item_ids action)"
  by (auto simp: execute_action_def run_argv_run bind_s_def catch_def command_lines_def
      split: sum.splits prod.splits if_splits py_error.splits dest: outcomes_for_ids)

lemma execute_actions_launches:
  "\<exists>n. launched (snd (execute_actions h acts w)) = launched w @ take n (command_lines acts)"
proof (induction acts arbitrary: w)
  case (Cons act acts)
  let ?l = "command_lines [act]"
  have one: "launched (snd (execute_action h act w)) = launched w @ ?l" using execute_action_run by blast
  have lines: "command_lines (act # acts) = ?l @ command_lines acts" by (simp add: command_lines_def)
  obtain x v where xv: "execute_action h act w = (x, v)" by (cases "execute_action h act w")
  show ?case
  proof (cases x)
    case (Inl e)
    then show ?thesis using xv one lines by (auto simp: bind_s_def intro!: exI [of _ "length ?l"])
  next
    case (Inr outs)
    obtain n where "launched (snd (execute_actions h acts v)) = launched v @ take n (command_lines acts)"
      using Cons.IH by blast
    then show ?thesis using xv one lines Inr
      by (auto simp: bind_s_def split: prod.splits sum.splits intro!: exI [of _ "length ?l + n"])
  qed
qed simp

lemma execute_actions_files: "session_files (snd (execute_actions h acts w)) = session_files w"
proof (induction acts arbitrary: w)
  case (Cons act acts)
  obtain x v where "execute_action h act w = (x, v)" by (cases "execute_action h act w")
  with Cons.IH [of v] execute_action_run [of h act w] show ?case
    by (auto simp: bind_s_def split: prod.splits sum.splits)
qed simp

lemma execute_actions_ids:
  "execute_actions h acts w = (Inr outs, w') \<Longrightarrow> map outcome_item_id outs = action_ids acts"
proof (induction acts arbitrary: w outs w')
  case (Cons act acts)
  then obtain o1 v o2 where "execute_action h act w = (Inr o1, v)" "execute_actions h acts v = (Inr o2, w')"
    "outs = o1 @ o2" by (auto simp: bind_s_Inr)
  with Cons.IH [of v o2 w'] execute_action_run [of h act w o1 v] show ?case by (simp add: action_ids_def)
qed (simp add: action_ids_def)


lemma approved_tokens_words: "approved_tokens sep i = Inr ts \<Longrightarrow> command_words sep i ts"
  by (auto simp: approved_tokens_def command_words_def split: option.splits)

lemma tab_is_block:
  "gnome_tab j i = Inr b \<Longrightarrow> tab_block GnomeTerminal j i b"
  "xfce4_tab j i = Inr b \<Longrightarrow> tab_block Xfce4Terminal j i b"
  "konsole_tab j i = Inr b \<Longrightarrow> tab_block Konsole j i b"
  by (auto simp: gnome_tab_def xfce4_tab_def konsole_tab_def tab_block_def dest: approved_tokens_words)

lemma action_ids_unavailable [simp]: "action_ids (map (\<lambda>i. unavailable_action (f i)) xs) = map f xs"
  "command_lines (map (\<lambda>i. unavailable_action (f i)) xs) = []"
  by (induction xs) (simp_all add: action_ids_def command_lines_def unavailable_action_def)

lemma none_usable_eq:
  assumes "plan_tabs tab h k todo = Inr p" "tp_item_ids p = []"
  shows "none_usable todo p = map (\<lambda>i. unavailable_action (li_item_id i)) todo"
proof -
  have "filter (usable h) todo = []" using plan_tabs_Inr [OF assms(1)] assms(2) by simp
  then have "filter (\<lambda>i. \<not> usable h i) todo = todo" by (simp add: filter_empty_conv)
  then show ?thesis using plan_tabs_Inr [OF assms(1)] by (auto simp: none_usable_def)
qed

lemma level_of_items: "filter (usable h) todo \<noteq> [] \<Longrightarrow>
    highest_level (map item_level (filter (usable h) todo)) =
      (if \<exists>i \<in> set todo. usable h i \<and> li_approved_command i \<noteq> None then RECONSTRUCTED else PARTIAL)"
  by (auto simp: highest_level_def item_level_def filter_empty_conv)

lemma plan_window_Inr:
  assumes "plan_window n tab h todo = Inr acts"
  shows "(case which h n of
      Some exe \<Rightarrow> (if filter (usable h) todo = [] then acts = map (\<lambda>i. unavailable_action (li_item_id i)) todo
        else \<exists>p. plan_tabs tab h 0 todo = Inr p \<and> acts = [window_action (exe # tp_argv p) p])
    | None \<Rightarrow> acts = map (\<lambda>i. unavailable_action (li_item_id i)) todo)"
proof (cases "which h n")
  case None
  then show ?thesis using assms by (simp add: plan_window_def)
next
  case (Some exe)
  then obtain p where p: "plan_tabs tab h 0 todo = Inr p"
    and acts: "acts = (if tp_item_ids p = [] then none_usable todo p else [window_action (exe # tp_argv p) p])"
    using assms by (auto simp: plan_window_def split: if_splits)
  have "tp_item_ids p = [] \<longleftrightarrow> filter (usable h) todo = []" using plan_tabs_Inr [OF p] by simp
  then show ?thesis using Some p acts none_usable_eq [OF p] by simp
qed

lemma plan_window_sound:
  assumes "plan_window (adapter_executable a) tab h todo = Inr acts" "a \<noteq> Kitty" "a \<noteq> Ghostty"
    and tab: "\<And>i j b. tab j i = Inr b \<Longrightarrow> tab_block a j i b"
  shows "(argv \<in> set (command_lines acts) \<longrightarrow> sound_argv a h todo files argv) \<and>
      action_ids acts \<in> {map li_item_id todo, map li_item_id (filter (usable h) todo)}"
proof (cases "acts = map (\<lambda>i. unavailable_action (li_item_id i)) todo")
  case False
  then obtain exe p where exe: "which h (adapter_executable a) = Some exe" and p: "plan_tabs tab h 0 todo = Inr p"
    and acts: "acts = [window_action (exe # tp_argv p) p]"
    using plan_window_Inr [OF assms(1)] by (auto split: option.splits if_splits)
  obtain blocks where b: "tp_argv p = concat blocks"
    "list_all2 (\<lambda>(j, i) b. tab j i = Inr b) (numbered h 0 todo) blocks"
    using plan_tabs_Inr [OF p] by blast
  from b(2) have "list_all2 (\<lambda>(j, i) b. tab_block a j i b) (numbered h 0 todo) blocks"
    by (rule list_all2_mono) (auto dest: tab)
  with b(1) exe assms(2,3) have "sound_argv a h todo files (exe # tp_argv p)"
    by (cases a) (auto simp: sound_argv_def)
  with acts plan_tabs_Inr [OF p] show ?thesis
    by (auto simp: command_lines_def action_ids_def window_action_def)
qed simp

lemma window_adapter:
  assumes "a \<noteq> Kitty" "a \<noteq> Ghostty" and tab: "\<And>i j b. tab j i = Inr b \<Longrightarrow> tab_block a j i b"
  shows "terminal_adapter a (\<lambda>h todo. lift_s (plan_window (adapter_executable a) tab h todo))
    (\<lambda>h actions attempt. execute_actions h actions)"
proof (unfold_locales, goal_cases)
  case (2 h todo w acts w' argv)
  then have "plan_window (adapter_executable a) tab h todo = Inr acts" by simp
  from plan_window_sound [OF this assms] 2 show ?case by blast
next
  case (3 h todo w acts w')
  then have "plan_window (adapter_executable a) tab h todo = Inr acts" by simp
  from plan_window_sound [OF this assms] show ?case by blast
qed (use execute_actions_launches execute_actions_files execute_actions_ids in simp_all)

interpretation gnome: terminal_adapter GnomeTerminal "\<lambda>h todo. lift_s (gnome_plan h todo)" gnome_execute
  using window_adapter [OF _ _ tab_is_block(1)]
  by (simp add: gnome_plan_def gnome_execute_def [abs_def])

interpretation xfce4: terminal_adapter Xfce4Terminal "\<lambda>h todo. lift_s (xfce4_plan h todo)" xfce4_execute
  using window_adapter [OF _ _ tab_is_block(2)]
  by (simp add: xfce4_plan_def xfce4_execute_def [abs_def])

interpretation konsole: terminal_adapter Konsole "\<lambda>h todo. lift_s (konsole_plan h todo)" konsole_execute
  using window_adapter [OF _ _ tab_is_block(3)]
  by (simp add: konsole_plan_def konsole_execute_def [abs_def])

lemma ghostty_action_Inr:
  assumes "ghostty_action h exe n i = Inr act"
  shows "la_item_ids act = [li_item_id i] \<and>
    (la_argv act \<noteq> [] \<longrightarrow> (\<exists>b. la_argv act = exe # b \<and> usable h i \<and> tab_block Ghostty 0 i b))"
proof (cases "usable h i")
  case True
  then obtain ts where ts: "approved_tokens [''-e''] i = Inr ts"
    and act: "la_item_ids act = [li_item_id i]" "la_argv act = exe # (''--working-directory='' @ li_cwd i) # ts"
    using assms by (auto simp: ghostty_action_def)
  from approved_tokens_words [OF ts] have "tab_block Ghostty 0 i ((''--working-directory='' @ li_cwd i) # ts)"
    by (simp add: tab_block_def)
  then show ?thesis using True act by blast
qed (use assms in \<open>auto simp: ghostty_action_def\<close>)

lemma ghostty_traverse_ids:
  "traverse (ghostty_action h exe n) todo = Inr acts \<Longrightarrow> action_ids acts = map li_item_id todo"
  by (induction todo arbitrary: acts) (auto simp: action_ids_def dest: ghostty_action_Inr)

interpretation ghostty: terminal_adapter Ghostty "\<lambda>h todo. lift_s (ghostty_plan h todo)" ghostty_execute
proof (unfold_locales, goal_cases)
  case (2 h todo w acts w' argv)
  then obtain exe act where exe: "which h ''ghostty'' = Some exe"
    and "traverse (ghostty_action h exe (length todo)) todo = Inr acts"
    and "act \<in> set acts" "la_argv act = argv" "argv \<noteq> []"
    by (auto simp: ghostty_plan_def command_lines_def unavailable_action_def split: option.splits)
  with traverse_InrD ghostty_action_Inr obtain i b where "i \<in> set todo" "argv = exe # b" "usable h i"
    "tab_block Ghostty 0 i b" by metis
  then show ?case using exe unfolding sound_argv_def by auto
next
  case (3 h todo w acts w')
  then show ?case by (auto simp: ghostty_plan_def ghostty_traverse_ids split: option.splits)
qed (use execute_actions_launches execute_actions_files execute_actions_ids in \<open>simp_all add: ghostty_execute_def\<close>)

lemma kitty_tab_block: "kitty_tab j i = Inr b \<Longrightarrow> session_block i b"
  by (auto simp: kitty_tab_def session_block_def shlex_split_kitty_launch split: option.splits)

lemma kitty_plan_cases:
  assumes "kitty_plan h todo w = (x, w')"
  shows "launched w' = launched w"
    and "x = Inr acts \<Longrightarrow> 
      (which h ''kitty'' = None \<or> filter (usable h) todo = []) \<and>
        acts = map (\<lambda>i. unavailable_action (li_item_id i)) todo \<or>
      (\<exists>exe p path contents. which h ''kitty'' = Some exe \<and> plan_tabs kitty_tab h 0 todo = Inr p \<and>
         filter (usable h) todo \<noteq> [] \<and> acts = [window_action [exe, ''--session'', path] p] \<and>
         contents = join [CHR 0x0A] (tp_argv p) @ [CHR 0x0A] \<and>
         session_files w' = session_files w @ [(path, contents)])"
proof -
  have "launched w' = launched w \<and> (x = Inr acts \<longrightarrow> 
      (which h ''kitty'' = None \<or> filter (usable h) todo = []) \<and>
        acts = map (\<lambda>i. unavailable_action (li_item_id i)) todo \<or>
      (\<exists>exe p path contents. which h ''kitty'' = Some exe \<and> plan_tabs kitty_tab h 0 todo = Inr p \<and>
         filter (usable h) todo \<noteq> [] \<and> acts = [window_action [exe, ''--session'', path] p] \<and>
         contents = join [CHR 0x0A] (tp_argv p) @ [CHR 0x0A] \<and>
         session_files w' = session_files w @ [(path, contents)]))"
  proof (cases "plan_tabs kitty_tab h 0 todo")
    case (Inl e)
    then show ?thesis using assms by (auto simp: kitty_plan_def bind_s_def split: option.splits)
  next
    case (Inr p)
    have "tp_item_ids p = [] \<longleftrightarrow> filter (usable h) todo = []" using plan_tabs_Inr [OF Inr] by simp
    then show ?thesis using assms Inr none_usable_eq [OF Inr]
      by (auto simp: kitty_plan_def bind_s_def Let_def split: option.splits sum.splits if_splits)
  qed
  then show "launched w' = launched w" and "x = Inr acts \<Longrightarrow> 
      (which h ''kitty'' = None \<or> filter (usable h) todo = []) \<and>
        acts = map (\<lambda>i. unavailable_action (li_item_id i)) todo \<or>
      (\<exists>exe p path contents. which h ''kitty'' = Some exe \<and> plan_tabs kitty_tab h 0 todo = Inr p \<and>
         filter (usable h) todo \<noteq> [] \<and> acts = [window_action [exe, ''--session'', path] p] \<and>
         contents = join [CHR 0x0A] (tp_argv p) @ [CHR 0x0A] \<and>
         session_files w' = session_files w @ [(path, contents)])"
    by blast+
qed

interpretation kitty: terminal_adapter Kitty kitty_plan kitty_execute
proof (unfold_locales, goal_cases)
  case (1 h todo w)
  show ?case using kitty_plan_cases(1) [of h todo w] by (cases "kitty_plan h todo w") simp
next
  case (2 h todo w acts w' argv)
  then have "acts \<noteq> map (\<lambda>i. unavailable_action (li_item_id i)) todo" by auto
  with kitty_plan_cases(2) [OF 2(1) refl] obtain exe p path contents where
    exe: "which h ''kitty'' = Some exe" and p: "plan_tabs kitty_tab h 0 todo = Inr p"
    and acts: "acts = [window_action [exe, ''--session'', path] p]"
    and c: "contents = join [CHR 0x0A] (tp_argv p) @ [CHR 0x0A]"
    and files: "session_files w' = session_files w @ [(path, contents)]" by blast
  obtain blocks where "tp_argv p = concat blocks" "list_all2 session_block (filter (usable h) todo) blocks"
  proof -
    obtain blocks where b: "tp_argv p = concat blocks"
      "list_all2 (\<lambda>(j, i) b. kitty_tab j i = Inr b) (numbered h 0 todo) blocks"
      using plan_tabs_Inr [OF p] by blast
    from b(2) have "list_all2 (\<lambda>x b. session_block (snd x) b) (numbered h 0 todo) blocks"
      by (rule list_all2_mono) (auto dest: kitty_tab_block)
    then have "list_all2 session_block (filter (usable h) todo) blocks"
      by (simp add: list_all2_map1 flip: map_numbered [of h 0])
    with b(1) that show thesis by blast
  qed
  then have "session_of (filter (usable h) todo) contents" using c by (auto simp: session_of_def)
  then show ?case using exe acts files 2(2) unfolding sound_argv_def
    by (intro exI [of _ exe]) (auto simp: command_lines_def window_action_def)
next
  case (3 h todo w acts w')
  have "action_ids [window_action argv p] = tp_item_ids p" for argv p
    by (simp add: action_ids_def window_action_def)
  with kitty_plan_cases(2) [OF 3 refl] show ?case by (auto dest: plan_tabs_Inr)
qed (use execute_actions_launches execute_actions_files execute_actions_ids in \<open>simp_all add: kitty_execute_def\<close>)

section \<open>What restoring launches\<close>

text \<open>A restore plans and executes, as the server does.\<close>

definition restore_items :: "Adapter \<Rightarrow> host \<Rightarrow> LaunchItem list \<Rightarrow> string \<Rightarrow> (world, Outcome list) act" where
  "restore_items a h todo attempt =
     bind_s (adapter_plan a h todo) (\<lambda>actions. adapter_execute a h actions attempt)"

text \<open>Whatever a restore launches, also when it fails half way, is the terminal's command line for the usable items,
  word by word: the options and the directory of each in order, and behind them, for an approved command only, the
  separator, the wrapper and the words of the command as the shell splits them; or, for kitty, names a session
  file with one block per usable item in order, whose launch line the shell's rules split into the wrapper and
  the very words of that item's approved command. Without an approved command nothing but a terminal in a
  directory is started.\<close>
theorem restore_launches_only_approved:
  assumes "restore_items a h todo attempt w = (r, w')"
  shows "\<exists>argvs. launched w' = launched w @ argvs \<and>
    (\<forall>argv \<in> set argvs. sound_argv a h todo (session_files w') argv)"
  using assms gnome.launches_sound kitty.launches_sound ghostty.launches_sound xfce4.launches_sound
    konsole.launches_sound
  by (cases a) (simp_all add: restore_items_def)

lemma action_ids_window [simp]: "action_ids [window_action argv p] = tp_item_ids p"
  by (simp add: action_ids_def window_action_def)

definition restored_ids :: "Adapter \<Rightarrow> host \<Rightarrow> LaunchItem list \<Rightarrow> string list" where
  "restored_ids a h todo =
     map li_item_id (if a \<noteq> Ghostty \<and> detect h a \<and> (\<exists>i \<in> set todo. usable h i)
                     then filter (usable h) todo else todo)"

lemma plan_window_ids:
  "plan_window (adapter_executable a) tab h todo = Inr acts \<Longrightarrow> a \<noteq> Ghostty \<Longrightarrow>
     action_ids acts = restored_ids a h todo"
  using plan_window_Inr [of "adapter_executable a" tab h todo acts]
  by (auto simp: restored_ids_def detect_def filter_empty_conv split: option.splits if_splits dest: plan_tabs_Inr)

lemma adapter_plan_ids:
  assumes "adapter_plan a h todo w = (Inr acts, w')"
  shows "action_ids acts = restored_ids a h todo"
proof (cases a)
  case Kitty
  with assms kitty_plan_cases(2) [of h todo w "Inr acts" w' acts] show ?thesis
    by (auto simp: restored_ids_def detect_def filter_empty_conv dest: plan_tabs_Inr)
next
  case Ghostty
  with assms show ?thesis
    by (auto simp: restored_ids_def ghostty_plan_def ghostty_traverse_ids split: option.splits)
qed (use assms plan_window_ids [of GnomeTerminal gnome_tab] plan_window_ids [of Xfce4Terminal xfce4_tab]
    plan_window_ids [of Konsole konsole_tab] in \<open>auto simp: gnome_plan_def xfce4_plan_def konsole_plan_def\<close>)

lemma adapter_execute_eq: "adapter_execute a h acts attempt = execute_actions h acts"
  by (cases a) (simp_all add: gnome_execute_def kitty_execute_def ghostty_execute_def xfce4_execute_def
      konsole_execute_def)

text \<open>A restore that returns has, in order, one outcome for every item; but where a grouping terminal is
  installed and the directory of some item is there, the items whose directory is missing have none (the plan
  only warns about them).\<close>
theorem restore_outcome_ids:
  assumes "restore_items a h todo attempt w = (Inr outs, w')"
  shows "map outcome_item_id outs =
    map li_item_id (if a \<noteq> Ghostty \<and> detect h a \<and> (\<exists>i \<in> set todo. usable h i)
                    then filter (usable h) todo else todo)"
proof -
  obtain acts v where "adapter_plan a h todo w = (Inr acts, v)" "execute_actions h acts v = (Inr outs, w')"
    using assms by (auto simp: restore_items_def bind_s_Inr adapter_execute_eq)
  with adapter_plan_ids execute_actions_ids show ?thesis by (metis restored_ids_def)
qed

definition demo_host :: host where
  "demo_host = \<lparr>which = (\<lambda>n. Some (''/usr/bin/'' @ n)), is_dir = (\<lambda>d. d \<noteq> ''/gone''),
     mkstemp = (\<lambda>_. Inr ''/tmp/s''), write_session = (\<lambda>_ _. Inr ()), runner = (\<lambda>_ _. Inr 0)\<rparr>"

definition demo_items :: "LaunchItem list" where
  "demo_items =
     [\<lparr>li_item_id = ''a'', li_cwd = ''/gone'', li_approved_command = None\<rparr>,
      \<lparr>li_item_id = ''b'', li_cwd = ''/home'', li_approved_command = Some ''ls -l''\<rparr>]"

definition demo_world :: world where
  "demo_world = \<lparr>session_files = [], launched = []\<rparr>"

lemma demo_restore:
  "restore_items Konsole demo_host demo_items ''t'' demo_world =
     (Inr [\<lparr>outcome_item_id = ''b'', outcome_kind = SUCCESS, outcome_message = ''b: terminal launch succeeded''\<rparr>],
      \<lparr>session_files = [], launched = [[''/usr/bin/konsole'', ''--new-tab'', ''--workdir'', ''/home'', ''-e'',
        ''bash'', ''-c'', COMMAND_WRAPPER, ''bash'', ''ls'', ''-l'']]\<rparr>)"
proof -
  have "shlex_split ''ls -l'' = Inr [''ls'', ''-l'']" by code_simp
  then show ?thesis
    by (simp add: restore_items_def konsole_plan_def plan_window_def demo_host_def demo_items_def demo_world_def
        usable_def is_absolute_def startswith_def konsole_tab_def approved_tokens_def window_action_def
        konsole_execute_def execute_action_def run_argv_run catch_def bind_s_def outcomes_for_def Outcome_init_def
        exit_message_def require_bounded_string_def MAX_ID_CHARS_def MAX_OUTCOME_MESSAGE_CHARS_def)
qed

theorem restore_outcome_ids_witness: "map li_item_id (filter (usable demo_host) demo_items) = [''b'']"
  using restore_outcome_ids [OF demo_restore]
  by (simp add: detect_def demo_host_def demo_items_def usable_def is_absolute_def startswith_def)

theorem restore_launches_only_approved_witness:
  "\<exists>argvs. [[''/usr/bin/konsole'', ''--new-tab'', ''--workdir'', ''/home'', ''-e'', ''bash'', ''-c'',
      COMMAND_WRAPPER, ''bash'', ''ls'', ''-l'']] = argvs \<and>
    list_all (sound_argv Konsole demo_host demo_items []) argvs"
  using restore_launches_only_approved [OF demo_restore] by (simp add: demo_world_def list_all_iff)

end
