(* ===== verification/Resume.thy ===== *)
theory Resume
  imports Text_Tools Effect
begin

text \<open>
  The session-resume engine of \<^verbatim>\<open>adapters/resume.py\<close>: conventions by which a tool resumes its last session, their
  detection in the text of the tool's \<^verbatim>\<open>--help\<close>, and the argument vector that resumes, built from safe tokens only.
  The search path and the run of \<^verbatim>\<open>--help\<close> are parameters; the cache of help texts is the state.
\<close>

section \<open>Safe tokens\<close>

definition token_start :: "char \<Rightarrow> bool" where
  "token_start c \<longleftrightarrow> is_letter c \<or> is_digit c"

definition token_char :: "char \<Rightarrow> bool" where
  "token_char c \<longleftrightarrow> is_letter c \<or> is_digit c \<or> c \<in> set ''_.+:=-''"

text \<open>\<^verbatim>\<open>^[A-Za-z0-9][A-Za-z0-9_.+:=-]*$\<close> under \<^verbatim>\<open>re.match\<close>: the dollar also matches before a final newline.\<close>

definition safe_resume_token_re :: "string \<Rightarrow> bool" where
  "safe_resume_token_re s =
     (case s of [] \<Rightarrow> False
      | c # t \<Rightarrow> token_start c \<and> dropWhile token_char t \<in> {[], [CHR 0x0A]})"

definition RESERVED_FLAG_LITERALS :: "string list" where
  "RESERVED_FLAG_LITERALS =
     [''resume'', ''--last'', ''--continue'', ''--resume'', ''--session'', ''--attach'', ''--all'', ''-c'', ''-r'']"

definition is_safe_token :: "string \<Rightarrow> bool" where
  "is_safe_token token =
     (if token = [] then False
      else if token \<in> set RESERVED_FLAG_LITERALS then True
      else if startswith token ''--'' \<and> safe_resume_token_re token then True
      else safe_resume_token_re token)"

section \<open>Contracts\<close>

text \<open>\<open>replace_sub p r s\<close> is \<^verbatim>\<open>s.replace(p, r)\<close> for a non-empty \<open>p\<close>.\<close>

function replace_sub :: "string \<Rightarrow> string \<Rightarrow> string \<Rightarrow> string" where
  "replace_sub p r [] = []"
| "replace_sub p r (c # s) =
     (if p \<noteq> [] \<and> startswith (c # s) p then r @ replace_sub p r (drop (length p) (c # s))
      else c # replace_sub p r s)"
  by pat_completeness auto
termination
  by (relation "measure (\<lambda>(p, r, s). length s)") (auto simp: Suc_le_eq)

record ResumeContract =
  rc_name :: string
  help_signature :: "string list"
  resume_argv :: "string list"
  with_session_id :: "string list option"

definition supports_session_id :: "ResumeContract \<Rightarrow> bool" where
  "supports_session_id c \<longleftrightarrow> with_session_id c \<noteq> None"

definition EXE :: string where "EXE = ''{exe}''"
definition SESSION_ID :: string where "SESSION_ID = ''{session_id}''"

definition has_placeholder :: "string list \<Rightarrow> bool" where
  "has_placeholder argv \<longleftrightarrow> contains (join '' '' argv) SESSION_ID"

text \<open>The message of the last error also lists the unsafe tokens in the source; that text is left out.\<close>

definition build :: "ResumeContract \<Rightarrow> string \<Rightarrow> string option \<Rightarrow> string list result" where
  "build c exe session =
     (let truthy = (case session of None \<Rightarrow> False | Some i \<Rightarrow> i \<noteq> []);
          template = (case with_session_id c of
            Some t \<Rightarrow> if truthy then t else resume_argv c | None \<Rightarrow> resume_argv c);
          argv = map (replace_sub EXE exe) template in
      bind_r
        (if has_placeholder argv then
           (case session of
              None \<Rightarrow>
                let plain = map (replace_sub EXE exe) (resume_argv c) in
                if has_placeholder plain
                then Inl (ValueError (rc_name c @ '' requires a session id but none was captured''))
                else Inr plain
            | Some i \<Rightarrow> Inr (map (replace_sub SESSION_ID i) argv))
         else Inr argv) (\<lambda>argv.
      bind_r (raise_if (filter (\<lambda>t. \<not> is_safe_token t) argv \<noteq> [])
        (ValueError (rc_name c @ '' resume argv has unsafe tokens''))) (\<lambda>_.
      Inr argv)))"

definition CONTRACTS :: "ResumeContract list" where
  "CONTRACTS =
     [\<lparr>rc_name = ''continue-flag'', help_signature = [''--continue''],
       resume_argv = [''{exe}'', ''--continue''],
       with_session_id = Some [''{exe}'', ''--session'', ''{session_id}'']\<rparr>,
      \<lparr>rc_name = ''resume-subcommand'', help_signature = [''resume''],
       resume_argv = [''{exe}'', ''resume'', ''--last''],
       with_session_id = Some [''{exe}'', ''resume'', ''{session_id}'']\<rparr>,
      \<lparr>rc_name = ''resume-flag'', help_signature = [''--resume''],
       resume_argv = [''{exe}'', ''--resume''],
       with_session_id = Some [''{exe}'', ''--resume'', ''{session_id}'']\<rparr>]"

definition EXECUTABLE_OVERRIDES :: "(string \<times> string) list" where
  "EXECUTABLE_OVERRIDES = []"

definition NON_RESUME_EXECUTABLES :: "string list" where
  "NON_RESUME_EXECUTABLES =
     [''bash'', ''sh'', ''dash'', ''zsh'', ''fish'', ''ksh'', ''vim'', ''vi'', ''nvim'', ''nano'', ''emacs'',
      ''less'', ''more'', ''cat'', ''tail'', ''head'', ''ssh'', ''mosh'', ''telnet'', ''sftp'', ''scp'',
      ''python'', ''python3'', ''ruby'', ''perl'', ''node'', ''php'', ''lua'']"

record ResumeMatch =
  rm_executable :: string
  rm_contract :: ResumeContract
  rm_source :: string

definition find_contract_by_name :: "string \<Rightarrow> ResumeContract option" where
  "find_contract_by_name n = find (\<lambda>c. rc_name c = n) CONTRACTS"

section \<open>Reading the help text\<close>

definition help_char :: "char \<Rightarrow> bool" where
  "help_char c \<longleftrightarrow> is_lower c \<or> is_digit c \<or> c = CHR ''_'' \<or> c = CHR ''-''"

text \<open>\<^verbatim>\<open>re.findall("[a-z0-9_-]+", text)\<close>: the maximal runs of the class.\<close>

function help_words :: "string \<Rightarrow> string list" where
  "help_words [] = []"
| "help_words (c # s) =
     (if help_char c then (c # takeWhile help_char s) # help_words (dropWhile help_char s)
      else help_words s)"
  by pat_completeness auto
termination
  by (relation "measure length") (auto simp: less_Suc_eq_le length_dropWhile_le)

text \<open>
  \<^verbatim>\<open>(?m)^\s{2,}([a-z][a-z0-9_-]*)\b\<close> at the start of a line: the blanks are a maximal run, as no blank starts the
  command; the command is the longest prefix of the run of its class that ends at a word boundary.
\<close>

definition word_boundary :: "string \<Rightarrow> nat \<Rightarrow> bool" where
  "word_boundary s n \<longleftrightarrow> (0 < n \<and> is_word (s ! (n - 1))) \<noteq> (n < length s \<and> is_word (s ! n))"

fun longest_bounded :: "string \<Rightarrow> nat \<Rightarrow> nat option" where
  "longest_bounded s 0 = None"
| "longest_bounded s (Suc n) = (if word_boundary s (Suc n) then Some (Suc n) else longest_bounded s n)"

definition match_listed :: "string \<Rightarrow> (string \<times> string) option" where
  "match_listed s =
     (let r = dropWhile is_space s in
      if length (takeWhile is_space s) < 2 \<or> r = [] \<or> \<not> is_lower (hd r) then None
      else map_option (\<lambda>n. (take n r, drop n r)) (longest_bounded r (length (takeWhile help_char r))))"

lemma match_listed_shorter: "match_listed s = Some (t, r) \<Longrightarrow> length r < length s"
proof -
  assume "match_listed s = Some (t, r)"
  then have "2 \<le> length (takeWhile is_space s)" "length r \<le> length (dropWhile is_space s)"
    by (auto simp: match_listed_def Let_def split: if_splits)
  moreover have "length (takeWhile is_space s) + length (dropWhile is_space s) = length s"
    by (metis length_append takeWhile_dropWhile_id)
  ultimately show ?thesis by linarith
qed

function listed_commands_from :: "bool \<Rightarrow> string \<Rightarrow> string list" where
  "listed_commands_from line_start [] = []"
| "listed_commands_from line_start (c # s) =
     (case (if line_start then match_listed (c # s) else None) of
        Some (t, r) \<Rightarrow> t # listed_commands_from False r
      | None \<Rightarrow> listed_commands_from (c = CHR 0x0A) s)"
  by pat_completeness auto
termination
  by (relation "measure (\<lambda>(b, s). length s)") (auto dest!: match_listed_shorter split: if_splits)

definition listed_commands :: "string \<Rightarrow> string list" where
  "listed_commands text = listed_commands_from True text"

definition SESSION_CONTEXT_WORDS :: "string list" where
  "SESSION_CONTEXT_WORDS =
     [''session'', ''sessions'', ''previous'', ''last'', ''conversation'', ''history'']"

fun signature_in :: "string list \<Rightarrow> string list \<Rightarrow> string list \<Rightarrow> bool" where
  "signature_in ws listed [] = True"
| "signature_in ws listed (sig # sigs) =
     (let sig_l = lower sig in
      if startswith sig_l ''--'' then
        (if sig_l \<notin> set ws then False
         else if set ws \<inter> set SESSION_CONTEXT_WORDS = {} then False
         else signature_in ws listed sigs)
      else if sig_l \<in> set listed then signature_in ws listed sigs
      else False)"

definition help_mentions :: "string \<Rightarrow> string list \<Rightarrow> bool" where
  "help_mentions text signature = signature_in (help_words text) (listed_commands text) signature"

section \<open>Probing a tool\<close>

text \<open>What the system answers: where a name is found, and what \<^verbatim>\<open>--help\<close> prints, if it runs and ends in time.\<close>

record tools =
  resolver :: "string \<Rightarrow> string option"
  run_help :: "string \<Rightarrow> (string \<times> string) option"

type_synonym probe_cache = "((string \<times> string) \<times> string) list"

definition help_text :: "tools \<Rightarrow> string \<Rightarrow> string" where
  "help_text sys path = (case run_help sys path of None \<Rightarrow> [] | Some (out, err) \<Rightarrow> lower (out @ [CHR 0x0A] @ err))"

definition probe_help_output :: "tools \<Rightarrow> string \<Rightarrow> (probe_cache, string) act" where
  "probe_help_output sys exe =
     (case resolver sys exe of
        None \<Rightarrow> ret []
      | Some path \<Rightarrow>
          bind_s (gets (\<lambda>cache. map_of cache (exe, path))) (\<lambda>cached.
          case cached of
            Some text \<Rightarrow> ret text
          | None \<Rightarrow>
              bind_s (modify (\<lambda>cache. ((exe, path), help_text sys path) # cache)) (\<lambda>_.
              ret (help_text sys path))))"

definition probed_contract :: "tools \<Rightarrow> string \<Rightarrow> string \<Rightarrow> ResumeMatch option" where
  "probed_contract sys exe text =
     (if text = [] then None
      else case find (\<lambda>c. help_mentions text (help_signature c) \<and> resolver sys exe \<noteq> None) CONTRACTS of
        None \<Rightarrow> None
      | Some c \<Rightarrow> Some \<lparr>rm_executable = exe, rm_contract = c, rm_source = ''probe''\<rparr>)"

definition find_resume_adapter :: "tools \<Rightarrow> string \<Rightarrow> bool \<Rightarrow> (probe_cache, ResumeMatch option) act" where
  "find_resume_adapter sys exe probe =
     (if exe = [] \<or> exe \<in> set NON_RESUME_EXECUTABLES then ret None
      else case Option.bind (map_of EXECUTABLE_OVERRIDES exe) find_contract_by_name of
        Some c \<Rightarrow> ret (Some \<lparr>rm_executable = exe, rm_contract = c, rm_source = ''registry''\<rparr>)
      | None \<Rightarrow>
          if probe then bind_s (probe_help_output sys exe) (\<lambda>text. ret (probed_contract sys exe text))
          else ret None)"

definition build_resume_argv :: "ResumeMatch \<Rightarrow> string option \<Rightarrow> string list result" where
  "build_resume_argv m session = build (rm_contract m) (rm_executable m) session"


section \<open>What reaches the command line\<close>

definition plain_token :: "string \<Rightarrow> bool" where
  "plain_token t \<longleftrightarrow> t \<noteq> [] \<and> token_start (hd t) \<and> (\<forall>c \<in> set t. token_char c)"

lemma token_start_char: "token_start c \<Longrightarrow> token_char c"
  by (auto simp: token_start_def token_char_def)

lemma safe_resume_token_re_iff:
  "safe_resume_token_re s \<longleftrightarrow> (\<exists>t. plain_token t \<and> (s = t \<or> s = t @ [CHR 0x0A]))"
proof (cases s)
  case (Cons c r)
  have newline: "\<not> token_char CHR 0x0A" by code_simp
  show ?thesis
  proof
    assume "safe_resume_token_re s"
    then have c: "token_start c" and d: "dropWhile token_char r = [] \<or> dropWhile token_char r = [CHR 0x0A]"
      using Cons by (auto simp: safe_resume_token_re_def)
    have "plain_token (c # takeWhile token_char r)"
      using c token_start_char by (auto simp: plain_token_def dest: set_takeWhileD)
    moreover have "s = (c # takeWhile token_char r) @ dropWhile token_char r" using Cons by simp
    ultimately show "\<exists>t. plain_token t \<and> (s = t \<or> s = t @ [CHR 0x0A])" using d by (metis append_Nil2)
  next
    assume "\<exists>t. plain_token t \<and> (s = t \<or> s = t @ [CHR 0x0A])"
    then obtain t where "plain_token t" and s: "s = t \<or> s = t @ [CHR 0x0A]" by blast
    then obtain u where "t = c # u" "token_start c" "\<forall>x \<in> set u. token_char x"
      using Cons by (cases t) (auto simp: plain_token_def)
    then show "safe_resume_token_re s"
      using s Cons newline by (auto simp: safe_resume_token_re_def dropWhile_append dropWhile_eq_Nil_conv)
  qed
qed (auto simp: safe_resume_token_re_def plain_token_def)

lemma is_safe_token_iff:
  "is_safe_token s \<longleftrightarrow> s \<in> set RESERVED_FLAG_LITERALS \<or> (\<exists>t. plain_token t \<and> (s = t \<or> s = t @ [CHR 0x0A]))"
  unfolding is_safe_token_def safe_resume_token_re_iff [symmetric]
  by (auto simp: RESERVED_FLAG_LITERALS_def safe_resume_token_re_def)

lemma build_safe: "build c exe session = Inr argv \<Longrightarrow> t \<in> set argv \<Longrightarrow> is_safe_token t"
  by (auto simp: build_def Let_def filter_empty_conv)

lemma build_length:
  "build c exe session = Inr argv \<Longrightarrow>
     length argv = length (resume_argv c) \<or> (\<exists>t i. with_session_id c = Some t \<and> session = Some i \<and> i \<noteq> [] \<and>
       length argv = length t)"
  by (auto simp: build_def Let_def split: if_splits option.splits)

text \<open>Whatever the name of the tool and the captured session identifier are, a resume command that is built
  holds only reserved flags and plain tokens: letters, digits and \<^verbatim>\<open>_.+:=-\<close>, starting with a letter or a digit,
  possibly with one final newline. So no word of it is empty, holds a blank or a shell metacharacter or a path
  separator, and an identifier that starts with a hyphen is refused unless it is one of the reserved flags.\<close>
theorem resume_argv_safe:
  assumes "build_resume_argv m session = Inr argv" and "t \<in> set argv"
  shows "t \<in> set RESERVED_FLAG_LITERALS \<or> (\<exists>p. plain_token p \<and> (t = p \<or> t = p @ [CHR 0x0A]))"
  using build_safe [of "rm_contract m" "rm_executable m" session argv t] assms
  by (simp add: build_resume_argv_def is_safe_token_iff)

theorem resume_argv_safe_witness:
  "is_safe_token ''codex'' \<and> (''codex'' \<in> set RESERVED_FLAG_LITERALS \<or>
     (\<exists>p. plain_token p \<and> (''codex'' = p \<or> ''codex'' = p @ [CHR 0x0A])))"
proof -
  have "build_resume_argv \<lparr>rm_executable = ''codex'', rm_contract = CONTRACTS ! 1, rm_source = ''probe''\<rparr>
      (Some ''s-1'') = Inr [''codex'', ''resume'', ''s-1'']" by code_simp
  from resume_argv_safe [OF this, of "''codex''"] show ?thesis by (simp add: is_safe_token_iff)
qed

section \<open>The cache of help texts\<close>

definition cache_ok :: "tools \<Rightarrow> probe_cache \<Rightarrow> bool" where
  "cache_ok sys cache \<longleftrightarrow> (\<forall>exe path text. map_of cache (exe, path) = Some text \<longrightarrow> text = help_text sys path)"

lemma probe_help_output_ok:
  "cache_ok sys cache \<Longrightarrow> \<exists>cache'. cache_ok sys cache' \<and>
     probe_help_output sys exe cache =
       (Inr (case resolver sys exe of None \<Rightarrow> [] | Some path \<Rightarrow> help_text sys path), cache')"
  by (auto simp: probe_help_output_def bind_s_def cache_ok_def split: option.splits)

text \<open>The specification of the search: without a cache, and as a choice among the conventions.\<close>

definition offers :: "tools \<Rightarrow> string \<Rightarrow> ResumeContract \<Rightarrow> bool" where
  "offers sys exe c \<longleftrightarrow> exe \<noteq> [] \<and> exe \<notin> set NON_RESUME_EXECUTABLES \<and>
     (\<exists>path. resolver sys exe = Some path \<and> help_text sys path \<noteq> [] \<and> help_mentions (help_text sys path) (help_signature c))"

text \<open>C26: The search with the cache gives what a search without one gives: as long as the tools do not change, any
  cache filled by earlier searches leaves the answer unchanged and stays correct. The answer is the first
  convention that the tool's own help offers, and none for shells, editors and interpreters, for a tool that is
  not installed, or if probing is off.\<close>
theorem find_resume_adapter_correct:
  assumes "cache_ok sys cache"
  shows "\<exists>cache'. cache_ok sys cache' \<and> find_resume_adapter sys exe probe cache =
    (Inr (if probe then map_option (\<lambda>c. \<lparr>rm_executable = exe, rm_contract = c, rm_source = ''probe''\<rparr>)
                          (find (offers sys exe) CONTRACTS)
          else None), cache')"
proof -
  have cong: "find P xs = find Q xs" if "\<And>x. P x = Q x" for P Q and xs :: "ResumeContract list"
    using that by (induction xs) auto
  have none: "find (\<lambda>_. False) xs = None" for xs :: "ResumeContract list" by (induction xs) auto
  show ?thesis
  proof (cases "exe = [] \<or> exe \<in> set NON_RESUME_EXECUTABLES")
    case True
    then have "offers sys exe = (\<lambda>_. False)" by (auto simp: offers_def)
    then show ?thesis using True assms none by (auto simp: find_resume_adapter_def)
  next
    case False
    obtain cache' where ok: "cache_ok sys cache'" and out: "probe_help_output sys exe cache =
        (Inr (case resolver sys exe of None \<Rightarrow> [] | Some path \<Rightarrow> help_text sys path), cache')"
      using probe_help_output_ok [OF assms] by blast
    have "probed_contract sys exe (case resolver sys exe of None \<Rightarrow> [] | Some path \<Rightarrow> help_text sys path) =
        map_option (\<lambda>c. \<lparr>rm_executable = exe, rm_contract = c, rm_source = ''probe''\<rparr>) (find (offers sys exe) CONTRACTS)"
    proof (cases "resolver sys exe")
      case None
      then have "offers sys exe = (\<lambda>_. False)" by (auto simp: offers_def)
      then show ?thesis using None none by (simp add: probed_contract_def)
    next
      case (Some path)
      show ?thesis
      proof (cases "help_text sys path = []")
        case True
        then have "offers sys exe = (\<lambda>_. False)" using Some by (auto simp: offers_def)
        then show ?thesis using Some True none by (simp add: probed_contract_def)
      next
        case nonempty: False
        have "find (offers sys exe) CONTRACTS =
            find (\<lambda>c. help_mentions (help_text sys path) (help_signature c) \<and> resolver sys exe \<noteq> None) CONTRACTS"
          by (rule cong) (use Some nonempty False in \<open>auto simp: offers_def\<close>)
        then show ?thesis using Some nonempty by (simp add: probed_contract_def split: option.splits)
      qed
    qed
    then show ?thesis using False ok out assms
      by (auto simp: find_resume_adapter_def EXECUTABLE_OVERRIDES_def bind_s_def)
  qed
qed

definition demo_tools :: tools where
  "demo_tools = \<lparr>resolver = (\<lambda>n. if n = ''codex'' then Some ''/bin/codex'' else None),
     run_help = (\<lambda>_. Some (''Usage'' @ [CHR 0x0A] @ ''  resume-all x'' @ [CHR 0x0A] @ ''  resume  Go on'', []))\<rparr>"

lemma demo_offers: "find (offers demo_tools ''codex'') CONTRACTS = Some (CONTRACTS ! 1)"
proof -
  let ?t = "help_text demo_tools ''/bin/codex''"
  have "?t \<noteq> []" "\<not> help_mentions ?t [''--continue'']" "help_mentions ?t [''resume'']" by code_simp+
  then show ?thesis
    by (simp add: CONTRACTS_def offers_def demo_tools_def [THEN arg_cong, of resolver] NON_RESUME_EXECUTABLES_def)
qed

theorem find_resume_adapter_correct_witness:
  "\<exists>cache. find_resume_adapter demo_tools ''codex'' True [] =
     (Inr (Some \<lparr>rm_executable = ''codex'', rm_contract = CONTRACTS ! 1, rm_source = ''probe''\<rparr>), cache)"
proof -
  have "cache_ok demo_tools []" by (simp add: cache_ok_def)
  from find_resume_adapter_correct [OF this, of "''codex''" True] demo_offers show ?thesis by auto
qed

text \<open>The final newline is really accepted: the dollar of the pattern matches before it.\<close>

lemma safe_token_accepts_newline: "is_safe_token (''codex'' @ [CHR 0x0A])"
  by code_simp

end
