(* ===== verification/Sessions.thy ===== *)
theory Sessions
  imports Persist Effect
begin

text \<open>
  The readers of the session stores of agent tools in \<^verbatim>\<open>sessions.py\<close>: the scan of a session file, the merging of
  the readers, and the sessions of a working directory. The home directory and the two databases are parameters, as the
  reader meets them: files with their lines (or the error of reading one), rows of the query. Nothing is written.
\<close>

section \<open>Session files\<close>

record SessionRecord =
  sr_tool :: string
  sr_session_id :: string
  sr_cwd :: string
  sr_title :: string
  sr_summary :: string
  sr_first_activity :: string
  sr_last_activity :: string
  sr_record_count :: nat
  sr_source_path :: string

text \<open>
  A file as \<^verbatim>\<open>open\<close> and \<^verbatim>\<open>readline\<close> give it: each line with its newline, or the error of opening or reading at that
  point.
\<close>

record session_file =
  sf_path :: string
  sf_name :: string
  sf_lines :: "string result list"

definition SUMMARY_SCAN_LIMIT :: nat where "SUMMARY_SCAN_LIMIT = 40"
definition SUMMARY_MAX_CHARS :: nat where "SUMMARY_MAX_CHARS = 160"

fun truthy :: "json \<Rightarrow> bool" where
  "truthy JNull = False"
| "truthy (JBool b) = b"
| "truthy (JInt n) = (n \<noteq> 0)"
| "truthy (JFloat x) = (x \<noteq> Finite 0)"
| "truthy (JStr s) = (s \<noteq> [])"
| "truthy (JArr vs) = (vs \<noteq> [])"
| "truthy (JObj d) = (d \<noteq> [])"

definition py_or :: "json \<Rightarrow> json \<Rightarrow> json" where
  "py_or a b = (if truthy a then a else b)"

definition get_or_none :: "dict \<Rightarrow> string \<Rightarrow> json" where
  "get_or_none d k = (case dict_get d k of None \<Rightarrow> JNull | Some v \<Rightarrow> v)"

fun as_dict :: "json \<Rightarrow> dict option" where
  "as_dict (JObj d) = Some d"
| "as_dict _ = None"

fun as_text :: "json \<Rightarrow> string option" where
  "as_text (JStr s) = Some s"
| "as_text _ = None"

definition item_text :: "json \<Rightarrow> string list" where
  "item_text item =
     (case as_dict item of
        None \<Rightarrow> []
      | Some d \<Rightarrow>
          (case as_text (py_or (get_or_none d ''text'') (get_or_none d ''input_text'')) of
             None \<Rightarrow> [] | Some t \<Rightarrow> [t]))"

fun extract_text :: "json \<Rightarrow> string" where
  "extract_text (JStr s) = s"
| "extract_text (JArr vs) = join '' '' (concat (map item_text vs))"
| "extract_text _ = []"

text \<open>
  On the code points modelled \<^verbatim>\<open>casefold\<close> differs from \<open>lower\<close> only at U+00B5 and U+00DF, which cannot produce the
  prefixes tested here.
\<close>

definition is_real_prompt :: "string \<Rightarrow> bool" where
  "is_real_prompt t =
     (if t = [] then False
      else
        let stripped = dropWhile is_space t in
        if startswith stripped ''<environment_context'' \<or> startswith stripped ''<'' then False
        else
          let low = lower (take 80 stripped) in
          if startswith low ''the following is the codex agent history'' then False
          else if startswith low ''the following is the'' then False
          else 3 \<le> length (strip stripped))"

text \<open>The text of a user turn in the shapes the tools use.\<close>

definition payload_of :: "dict \<Rightarrow> dict" where
  "payload_of r = (case as_dict (get_or_none r ''payload'') of Some d \<Rightarrow> d | None \<Rightarrow> r)"

definition role_of :: "dict \<Rightarrow> json" where
  "role_of r =
     (let msg = as_dict (get_or_none r ''message'');
          role = py_or (get_or_none (payload_of r) ''role'') (get_or_none r ''role'');
          role = (case msg of Some m \<Rightarrow> if role = JNull then get_or_none m ''role'' else role | None \<Rightarrow> role) in
      if role = JNull \<and> get_or_none r ''type'' = JStr ''user'' then JStr ''user'' else role)"

definition turn_text :: "dict \<Rightarrow> string" where
  "turn_text r =
     (let t = extract_text (get_or_none (payload_of r) ''content'') in
      case as_dict (get_or_none r ''message'') of
        Some m \<Rightarrow> if t = [] then extract_text (get_or_none m ''content'') else t
      | None \<Rightarrow> t)"

record scan =
  sc_session_id :: "string option"
  sc_cwd :: "string option"
  sc_summary :: string
  sc_first :: string
  sc_last :: string
  sc_count :: nat

definition empty_scan :: scan where
  "empty_scan = \<lparr>sc_session_id = None, sc_cwd = None, sc_summary = [], sc_first = [], sc_last = [], sc_count = 0\<rparr>"

definition scan_timestamp :: "dict \<Rightarrow> scan \<Rightarrow> scan" where
  "scan_timestamp r s =
     (case as_text (get_or_none r ''timestamp'') of
        None \<Rightarrow> s
      | Some ts \<Rightarrow> s\<lparr>sc_first := (if sc_first s = [] then ts else sc_first s), sc_last := ts\<rparr>)"

definition scan_summary :: "dict \<Rightarrow> scan \<Rightarrow> scan" where
  "scan_summary r s =
     (if sc_summary s \<noteq> [] then s
      else if role_of r = JStr ''user'' then
        (let t = turn_text r in if is_real_prompt t then s\<lparr>sc_summary := take SUMMARY_MAX_CHARS t\<rparr> else s)
      else s)"

text \<open>\<open>[0-9a-f]\<close> under \<^verbatim>\<open>re.I\<close>: a UUID in either case.\<close>

definition hex_any :: "char \<Rightarrow> bool" where
  "hex_any c \<longleftrightarrow> hex_value c \<noteq> None"

definition UUID_RE :: rx where
  "UUID_RE = rx_seq (rx_rep 8 (Cls hex_any) #
     concat (map (\<lambda>n. [rx_ch CHR ''-'', rx_rep n (Cls hex_any)]) [4, 4, 4, 12]))"

fun first_uuid :: "json list \<Rightarrow> string option" where
  "first_uuid [] = None"
| "first_uuid (v # vs) =
     (case as_text v of
        Some t \<Rightarrow> if fullmatch UUID_RE t then Some t else first_uuid vs
      | None \<Rightarrow> first_uuid vs)"

definition nested_id :: "dict \<Rightarrow> json" where
  "nested_id payload =
     (case as_dict (get_or_none payload ''payload'') of Some d \<Rightarrow> get_or_none d ''id'' | None \<Rightarrow> JNull)"

definition session_id_of :: "dict \<Rightarrow> string option" where
  "session_id_of payload =
     first_uuid (map (get_or_none payload) [''sessionId'', ''session_id'', ''id''] @ [nested_id payload])"

definition file_uri :: "string \<Rightarrow> string" where
  "file_uri v = (if startswith v ''file://'' then drop (length ''file://'') v else v)"

fun first_directory :: "json list \<Rightarrow> string option" where
  "first_directory [] = None"
| "first_directory (v # vs) =
     (case as_text v of
        Some t \<Rightarrow> if startswith (file_uri t) ''/'' then Some (file_uri t) else first_directory vs
      | None \<Rightarrow> first_directory vs)"

definition cwd_of :: "dict \<Rightarrow> string option" where
  "cwd_of payload = first_directory (map (get_or_none payload) [''cwd'', ''directory'', ''workdir'', ''project_path''])"

definition scan_identity :: "dict \<Rightarrow> scan \<Rightarrow> scan" where
  "scan_identity r s =
     (let p = payload_of r in
      s\<lparr>sc_session_id := (if sc_session_id s = None then session_id_of p else sc_session_id s),
        sc_cwd := (if sc_cwd s = None then cwd_of p else sc_cwd s)\<rparr>)"

text \<open>
  \<^verbatim>\<open>bytes.strip()\<close>, and the record of a line: \<open>None\<close> where the source continues with the next line. Bytes that are
  not text raise \<^verbatim>\<open>UnicodeDecodeError\<close>, which no handler of the scan catches.
\<close>

definition byte_space :: "char \<Rightarrow> bool" where
  "byte_space c \<longleftrightarrow> c = CHR '' '' \<or> (9 \<le> code c \<and> code c \<le> 13)"

definition strip_bytes :: "string \<Rightarrow> string" where
  "strip_bytes s = rev (dropWhile byte_space (rev (dropWhile byte_space s)))"

definition line_record :: "string \<Rightarrow> dict option result" where
  "line_record line =
     (let l = strip_bytes line in
      if l = [] then Inr None
      else case loads_bytes l of
        Inl (JSONDecodeError m) \<Rightarrow> Inr None
      | Inl e \<Rightarrow> Inl e
      | Inr v \<Rightarrow> Inr (as_dict v))"

text \<open>
  The loop both scans share: up to \<open>n\<close> lines, ended by the end of the file, by \<open>stop\<close>, or by an error of reading,
  which keeps what was found.
\<close>

fun scan_lines :: "(dict \<Rightarrow> scan \<Rightarrow> scan) \<Rightarrow> (scan \<Rightarrow> bool) \<Rightarrow> nat \<Rightarrow> string result list \<Rightarrow> scan \<Rightarrow> scan result" where
  "scan_lines f stop 0 ls s = Inr s"
| "scan_lines f stop (Suc n) [] s = Inr s"
| "scan_lines f stop (Suc n) (Inl e # ls) s = (if is_OSError e then Inr s else Inl e)"
| "scan_lines f stop (Suc n) (Inr line # ls) s =
     (let s = s\<lparr>sc_count := Suc (sc_count s)\<rparr> in
      bind_r (line_record line) (\<lambda>d.
      case d of
        None \<Rightarrow> scan_lines f stop n ls s
      | Some r \<Rightarrow> let s = f r s in if stop s then Inr s else scan_lines f stop n ls s))"

definition summarize_session_file :: "session_file \<Rightarrow> scan result" where
  "summarize_session_file file =
     scan_lines (\<lambda>r s. scan_summary r (scan_timestamp r s)) (\<lambda>s. False) SUMMARY_SCAN_LIMIT (sf_lines file) empty_scan"

definition scan_complete :: "scan \<Rightarrow> bool" where
  "scan_complete s \<longleftrightarrow> sc_session_id s \<notin> {None, Some []} \<and> sc_cwd s \<notin> {None, Some []} \<and> sc_summary s \<noteq> []"

definition scan_session_full :: "session_file \<Rightarrow> scan result" where
  "scan_session_full file =
     scan_lines (\<lambda>r s. scan_summary r (scan_identity r (scan_timestamp r s))) scan_complete
       SUMMARY_SCAN_LIMIT (sf_lines file) empty_scan"

definition make_file_record :: "string \<Rightarrow> string \<Rightarrow> session_file \<Rightarrow> string \<Rightarrow> string \<Rightarrow> SessionRecord result" where
  "make_file_record tool session file dir title =
     bind_r (summarize_session_file file) (\<lambda>s.
     Inr \<lparr>sr_tool = tool, sr_session_id = session, sr_cwd = dir, sr_title = title, sr_summary = sc_summary s,
          sr_first_activity = sc_first s, sr_last_activity = sc_last s, sr_record_count = sc_count s,
          sr_source_path = sf_path file\<rparr>)"


section \<open>The readers\<close>

text \<open>
  What they find under the home directory: directories with their entries (or the error of listing them), and the
  rows of the databases (\<open>None\<close> where the query failed, which the source ignores). A value of a row is null or
  has a truth value and a text.
\<close>

datatype sql_value = SNull | SValue bool string

fun sql_str :: "sql_value \<Rightarrow> string" where
  "sql_str SNull = ''None''"
| "sql_str (SValue b t) = t"

fun sql_or_empty :: "sql_value \<Rightarrow> string" where
  "sql_or_empty SNull = []"
| "sql_or_empty (SValue b t) = (if b then t else [])"

record sql_row =
  row_id :: sql_value
  row_directory :: sql_value
  row_title :: sql_value
  row_updated_at :: sql_value

record pi_dir =
  pi_name :: string
  pi_is_dir :: bool
  pi_files :: "session_file list result"

record dot_dir =
  dd_name :: string
  dd_is_dir :: bool
  dd_files :: "session_file list result"

record home_tree =
  home_path :: string
  codex_root :: "session_file list result option"
  pi_root :: "pi_dir list result option"
  opencode_rows :: "sql_row list option"
  opencode_path :: string
  hermes_rows :: "sql_row list option"
  hermes_path :: string
  home_entries :: "dot_dir list result"
  py_text :: "json \<Rightarrow> string"

text \<open>\<open>search_end r s\<close>: some part of \<open>s\<close> from a position to its end, or to a final newline, matches \<open>r\<close>.\<close>

definition rx_end :: rx where
  "rx_end = rx_opt (rx_ch CHR 0x0A)"

fun search_end :: "rx \<Rightarrow> string \<Rightarrow> bool" where
  "search_end r [] = fullmatch (Cat r rx_end) []"
| "search_end r (c # s) = (fullmatch (Cat r rx_end) (c # s) \<or> search_end r s)"

definition lower_hex :: "char \<Rightarrow> bool" where
  "lower_hex c \<longleftrightarrow> c \<in> set hex_alphabet"

definition lower_uuid :: rx where
  "lower_uuid = rx_seq (rx_rep 8 (Cls lower_hex) #
     concat (map (\<lambda>n. [rx_ch CHR ''-'', rx_rep n (Cls lower_hex)]) [4, 4, 4, 12]))"

definition digits_rx :: "nat \<Rightarrow> rx" where
  "digits_rx n = rx_rep n (Cls is_digit)"

definition CODEX_ROLLOUT_RE :: rx where
  "CODEX_ROLLOUT_RE = rx_seq
     [rx_str ''rollout-'', digits_rx 4, rx_str ''-'', digits_rx 2, rx_str ''-'', digits_rx 2, rx_str ''T'',
      digits_rx 2, rx_str ''-'', digits_rx 2, rx_str ''-'', digits_rx 2,
      rx_opt (rx_seq [rx_str ''-'', digits_rx 3, rx_opt (rx_str ''Z'')]), rx_opt (rx_str ''-''),
      lower_uuid, rx_str ''.jsonl'']"

definition PI_SESSION_RE :: rx where
  "PI_SESSION_RE = rx_seq
     [digits_rx 4, rx_str ''-'', digits_rx 2, rx_str ''-'', digits_rx 2, rx_str ''T'',
      rx_plus (Cls (\<lambda>c. is_digit c \<or> c = CHR ''-'')), rx_str ''Z_'', lower_uuid, rx_str ''.jsonl'']"

text \<open>Both patterns end in the identifier and the suffix, so the captured group is fixed by the end of the name.\<close>

definition file_session_id :: "rx \<Rightarrow> string \<Rightarrow> string option" where
  "file_session_id r n =
     (if \<not> search_end r n then None
      else
        let m = (if endswith n [CHR 0x0A] then butlast n else n) in
        Some (drop (length m - 42) (take (length m - 6) m)))"

text \<open>
  The first line of a codex file; \<^verbatim>\<open>str()\<close> of a value that is not a string is \<open>py_text\<close>. An empty file and an error
  skip the file.
\<close>

definition codex_record :: "home_tree \<Rightarrow> session_file \<Rightarrow> SessionRecord list result" where
  "codex_record h file =
     (case file_session_id CODEX_ROLLOUT_RE (sf_name file) of
        None \<Rightarrow> Inr []
      | Some file_id \<Rightarrow>
      case sf_lines file of
        [] \<Rightarrow> Inr []
      | Inl e # _ \<Rightarrow> if is_OSError e then Inr [] else Inl e
      | Inr line # _ \<Rightarrow>
      case loads_bytes line of
        Inl (JSONDecodeError m) \<Rightarrow> Inr []
      | Inl e \<Rightarrow> Inl e
      | Inr v \<Rightarrow>
      case as_dict v of
        None \<Rightarrow> Inr []
      | Some meta \<Rightarrow>
      if get_or_none meta ''type'' \<noteq> JStr ''session_meta'' then Inr []
      else case as_dict (get_or_none meta ''payload'') of
        None \<Rightarrow> Inr []
      | Some p \<Rightarrow>
          let session = py_text h (py_or (get_or_none p ''id'') (JStr file_id));
              dir = file_uri (py_text h (py_or (get_or_none p ''cwd'') (JStr [])));
              title = py_text h (py_or (get_or_none p ''thread_name'') (JStr [])) in
          bind_r (make_file_record ''codex'' session file dir title) (\<lambda>r. Inr [r]))"

definition collect :: "('a \<Rightarrow> 'b list result) \<Rightarrow> 'a list \<Rightarrow> 'b list result" where
  "collect f xs = bind_r (traverse f xs) (\<lambda>yss. Inr (concat yss))"

definition read_codex_sessions :: "home_tree \<Rightarrow> SessionRecord list result" where
  "read_codex_sessions h =
     (case codex_root h of
        None \<Rightarrow> Inr []
      | Some listing \<Rightarrow> bind_r listing (collect (codex_record h)))"

definition slug_to_path :: "string \<Rightarrow> string" where
  "slug_to_path slug =
     (let s = (if startswith slug ''--'' then drop 2 slug else slug);
          s = (if endswith s ''--'' then take (length s - 2) s else s) in
      if s = [] then ''/'' else ''/'' @ map (\<lambda>c. if c = CHR ''-'' then CHR ''/'' else c) s)"

definition scanned_record :: "string \<Rightarrow> string \<Rightarrow> string \<Rightarrow> scan \<Rightarrow> session_file \<Rightarrow> SessionRecord" where
  "scanned_record tool session dir s file =
     \<lparr>sr_tool = tool, sr_session_id = session, sr_cwd = dir, sr_title = [], sr_summary = sc_summary s,
      sr_first_activity = sc_first s, sr_last_activity = sc_last s, sr_record_count = sc_count s,
      sr_source_path = sf_path file\<rparr>"

definition pi_record :: "string \<Rightarrow> session_file \<Rightarrow> SessionRecord list result" where
  "pi_record dir_name file =
     (case file_session_id PI_SESSION_RE (sf_name file) of
        None \<Rightarrow> Inr []
      | Some file_id \<Rightarrow>
          bind_r (scan_session_full file) (\<lambda>s.
          let session = (case sc_session_id s of None \<Rightarrow> file_id | Some i \<Rightarrow> i);
              dir = (if sc_cwd s \<in> {None, Some []} then slug_to_path dir_name else the (sc_cwd s)) in
          Inr [scanned_record ''pi'' session dir s file]))"

definition read_pi_sessions :: "home_tree \<Rightarrow> SessionRecord list result" where
  "read_pi_sessions h =
     (case pi_root h of
        None \<Rightarrow> Inr []
      | Some listing \<Rightarrow>
          bind_r listing (collect (\<lambda>d.
          if \<not> pi_is_dir d then Inr [] else bind_r (pi_files d) (collect (pi_record (pi_name d))))))"

definition row_record :: "string \<Rightarrow> string \<Rightarrow> sql_value \<Rightarrow> sql_row \<Rightarrow> SessionRecord" where
  "row_record tool db session r =
     \<lparr>sr_tool = tool, sr_session_id = sql_str session, sr_cwd = sql_str (row_directory r),
      sr_title = sql_or_empty (row_title r), sr_summary = [], sr_first_activity = [],
      sr_last_activity = sql_or_empty (row_updated_at r), sr_record_count = 0, sr_source_path = db\<rparr>"

definition read_opencode_sessions :: "home_tree \<Rightarrow> SessionRecord list result" where
  "read_opencode_sessions h =
     Inr (case opencode_rows h of
       None \<Rightarrow> [] | Some rows \<Rightarrow> map (\<lambda>r. row_record ''opencode'' (opencode_path h) (row_id r) r) rows)"

text \<open>The source takes the directory as the identifier of a hermes session.\<close>

definition read_hermes_sessions :: "home_tree \<Rightarrow> SessionRecord list result" where
  "read_hermes_sessions h =
     Inr (case hermes_rows h of
       None \<Rightarrow> [] | Some rows \<Rightarrow> map (\<lambda>r. row_record ''hermes'' (hermes_path h) (row_directory r) r) rows)"

definition NON_AGENT_DOTDIRS :: "string list" where
  "NON_AGENT_DOTDIRS =
     [''.cache'', ''.config'', ''.local'', ''.gnupg'', ''.ssh'', ''.bashrc'',
      ''.mozilla'', ''.thunderbird'', ''.steam'', ''.wine'', ''.npm'', ''.cargo'',
      ''.rustup'', ''.nvm'', ''.pyenv'', ''.rbenv'', ''.gradle'', ''.android'', ''.java'',
      ''.docker'', ''.vscode'', ''.idea'', ''.git'', ''.pip'', ''.conda'', ''.virtualenvs'',
      ''.fontconfig'', ''.pki'', ''.local/share'', ''.local/state'']"

text \<open>The first match of the pattern in a text.\<close>

fun find_uuid :: "string \<Rightarrow> string option" where
  "find_uuid [] = None"
| "find_uuid (c # s) = (if rests UUID_RE (c # s) \<noteq> [] then Some (take 36 (c # s)) else find_uuid s)"

definition generic_record :: "string \<Rightarrow> session_file \<Rightarrow> SessionRecord list result" where
  "generic_record tool file =
     (if find_uuid (sf_path file) = None then Inr []
      else
        bind_r (scan_session_full file) (\<lambda>s.
        case (case sc_session_id s of None \<Rightarrow> find_uuid (sf_name file) | Some i \<Rightarrow> Some i) of
          None \<Rightarrow> Inr []
        | Some session \<Rightarrow>
            Inr [scanned_record tool session (case sc_cwd s of None \<Rightarrow> [] | Some d \<Rightarrow> d) s file]))"

definition generic_dir :: "dot_dir \<Rightarrow> SessionRecord list result" where
  "generic_dir d =
     (if \<not> dd_is_dir d \<or> \<not> startswith (dd_name d) ''.'' then Inr []
      else if dd_name d \<in> set NON_AGENT_DOTDIRS then Inr []
      else case dd_files d of
        Inl e \<Rightarrow> if is_OSError e then Inr [] else Inl e
      | Inr files \<Rightarrow> if length files > 2000 then Inr [] else collect (generic_record (drop 1 (dd_name d))) files)"

definition discover_generic_sessions :: "home_tree \<Rightarrow> SessionRecord list result" where
  "discover_generic_sessions h = bind_r (home_entries h) (collect generic_dir)"

section \<open>The merged list and the sessions of a directory\<close>

definition READERS :: "(string \<times> (home_tree \<Rightarrow> SessionRecord list result)) list" where
  "READERS =
     [(''codex'', read_codex_sessions), (''pi'', read_pi_sessions), (''opencode'', read_opencode_sessions),
      (''hermes'', read_hermes_sessions)]"

definition session_key :: "SessionRecord \<Rightarrow> string \<times> string" where
  "session_key r = (sr_tool r, sr_session_id r)"

text \<open>The loop that appends the records whose key was not seen.\<close>

fun merge_records :: "SessionRecord list \<Rightarrow> SessionRecord list \<Rightarrow> SessionRecord list" where
  "merge_records acc [] = acc"
| "merge_records acc (r # rs) =
     (if session_key r \<in> session_key ` set acc then merge_records acc rs else merge_records (acc @ [r]) rs)"

definition read_tool :: "home_tree \<Rightarrow> string \<Rightarrow> SessionRecord list result" where
  "read_tool h tool = (case map_of READERS tool of None \<Rightarrow> Inr [] | Some reader \<Rightarrow> reader h)"

definition list_sessions :: "home_tree \<Rightarrow> string option \<Rightarrow> SessionRecord list result" where
  "list_sessions h tool =
     (let tools = (case tool of Some t \<Rightarrow> if t \<noteq> [] then [t] else map fst READERS | None \<Rightarrow> map fst READERS) in
      bind_r (collect (read_tool h) tools) (\<lambda>known.
      if tool = None
      then bind_r (discover_generic_sessions h) (\<lambda>generic. Inr (merge_records (merge_records [] known) generic))
      else Inr (merge_records [] known)))"

text \<open>\<^verbatim>\<open>os.path.normpath\<close>.\<close>

fun norm_parts :: "bool \<Rightarrow> string list \<Rightarrow> string list \<Rightarrow> string list" where
  "norm_parts rooted acc [] = rev acc"
| "norm_parts rooted acc (w # ws) =
     (if w = [] \<or> w = ''.'' then norm_parts rooted acc ws
      else if w \<noteq> ''..'' then norm_parts rooted (w # acc) ws
      else case acc of
        [] \<Rightarrow> if rooted then norm_parts rooted acc ws else norm_parts rooted (w # acc) ws
      | v # vs \<Rightarrow> if v = ''..'' then norm_parts rooted (w # acc) ws else norm_parts rooted vs ws)"

definition normpath :: "string \<Rightarrow> string" where
  "normpath p =
     (let root = (if startswith p ''//'' \<and> \<not> startswith p ''///'' then ''//''
                  else if startswith p ''/'' then ''/'' else []);
          t = root @ join ''/'' (norm_parts (root \<noteq> []) [] (split_on CHR ''/'' p)) in
      if t = [] then ''.'' else t)"

text \<open>A stable sort, latest first.\<close>

definition latest_first :: "SessionRecord list \<Rightarrow> SessionRecord list" where
  "latest_first = latest_by sr_last_activity"

text \<open>
  The cache of the merged lists: its key is the home directory with its modification time (0 where it cannot be read).
\<close>

type_synonym session_cache = "((string \<times> rat) \<times> SessionRecord list) list"

definition list_sessions_cached :: "home_tree \<Rightarrow> rat option \<Rightarrow> (session_cache, SessionRecord list) act" where
  "list_sessions_cached h modified =
     (let cache_key = (home_path h, case modified of None \<Rightarrow> 0 | Some t \<Rightarrow> t) in
      bind_s (gets (\<lambda>cache. map_of cache cache_key)) (\<lambda>cached.
      case cached of
        Some records \<Rightarrow> ret records
      | None \<Rightarrow>
          bind_s (lift_s (list_sessions h None)) (\<lambda>records.
          bind_s (modify (\<lambda>cache. (cache_key, records) # cache)) (\<lambda>_. ret records))))"

definition matching_sessions :: "string \<Rightarrow> SessionRecord list \<Rightarrow> SessionRecord list" where
  "matching_sessions dir all_records =
     latest_first (filter (\<lambda>r. sr_cwd r \<noteq> [] \<and> normpath (sr_cwd r) = normpath dir) all_records)"

definition find_sessions_for_cwd ::
  "home_tree \<Rightarrow> rat option \<Rightarrow> string \<Rightarrow> string option \<Rightarrow> (session_cache, SessionRecord list) act" where
  "find_sessions_for_cwd h modified dir tool =
     bind_s (if tool = None then list_sessions_cached h modified else lift_s (list_sessions h tool)) (\<lambda>all_records.
     ret (matching_sessions dir all_records))"

definition find_active_session_id :: "(string \<rightharpoonup> string) \<Rightarrow> string \<Rightarrow> string option" where
  "find_active_session_id environ tool = (if tool = ''codex'' then environ ''CODEX_SESSION_ID'' else None)"


section \<open>What the lookup promises\<close>

lemma merge_records_spec:
  "distinct (map session_key acc) \<Longrightarrow>
     distinct (map session_key (merge_records acc rs)) \<and>
     session_key ` set (merge_records acc rs) = session_key ` set (acc @ rs) \<and>
     set (merge_records acc rs) \<subseteq> set (acc @ rs)"
proof (induction rs arbitrary: acc)
  case (Cons r rs)
  show ?case
  proof (cases "session_key r \<in> session_key ` set acc")
    case True
    then show ?thesis using Cons.IH [OF Cons.prems] by auto
  next
    case False
    then have "distinct (map session_key (acc @ [r]))" using Cons.prems by auto
    from Cons.IH [OF this] False show ?thesis by auto
  qed
qed simp

lemma list_sessions_keys: "list_sessions h tool = Inr rs \<Longrightarrow> distinct (map session_key rs)"
  using merge_records_spec [of "[]"] by (auto simp: list_sessions_def Let_def merge_records_spec split: if_splits)

lemma latest_first_spec:
  "mset (latest_first rs) = mset rs" "sorted_wrt (\<lambda>a b. sr_last_activity b \<le> sr_last_activity a) (latest_first rs)"
  by (simp_all add: latest_first_def latest_by_spec)

text \<open>A cache that holds what reading gave at that time stays so.\<close>

definition session_cache_ok :: "home_tree \<Rightarrow> rat option \<Rightarrow> session_cache \<Rightarrow> bool" where
  "session_cache_ok h modified cache \<longleftrightarrow>
     (\<forall>rs. map_of cache (home_path h, case modified of None \<Rightarrow> 0 | Some t \<Rightarrow> t) = Some rs \<longrightarrow>
        list_sessions h None = Inr rs)"

text \<open>The sessions found for a directory are exactly the listed ones that ran in it (by normalised path), each
  tool's session once, the most recently active first; a cache that holds the list of this home leaves the answer
  as without it.\<close>
theorem sessions_of_directory:
  assumes "session_cache_ok h modified cache"
    and "find_sessions_for_cwd h modified dir tool cache = (Inr rs, cache')"
  shows "\<exists>all_records. list_sessions h tool = Inr all_records \<and>
    set rs = {r \<in> set all_records. sr_cwd r \<noteq> [] \<and> normpath (sr_cwd r) = normpath dir} \<and>
    distinct (map session_key rs) \<and>
    sorted_wrt (\<lambda>a b. sr_last_activity b \<le> sr_last_activity a) rs \<and>
    session_cache_ok h modified cache'"
proof -
  let ?P = "\<lambda>r. sr_cwd r \<noteq> [] \<and> normpath (sr_cwd r) = normpath dir"
  obtain all_records where all_records: "list_sessions h tool = Inr all_records" and rs: "rs = matching_sessions dir all_records"
    and ok: "session_cache_ok h modified cache'"
  proof (cases tool)
    case None
    then show ?thesis using assms that
      by (cases "list_sessions h None")
        (auto simp: find_sessions_for_cwd_def list_sessions_cached_def bind_s_def session_cache_ok_def Let_def
          split: option.splits)
  next
    case (Some t)
    then show ?thesis using assms that
      by (auto simp: find_sessions_for_cwd_def bind_s_Inr)
  qed
  have m: "mset rs = mset (filter ?P all_records)" by (simp add: rs matching_sessions_def latest_first_spec)
  then have set_rs: "set rs = set (filter ?P all_records)" by (rule mset_eq_setD)
  have "distinct (map session_key (filter ?P all_records))"
    using list_sessions_keys [OF all_records] by (simp add: distinct_map_filter)
  moreover have "mset (map session_key rs) = mset (map session_key (filter ?P all_records))" by (simp add: m)
  ultimately have "distinct (map session_key rs)" using mset_eq_imp_distinct_iff by blast
  moreover have "sorted_wrt (\<lambda>a b. sr_last_activity b \<le> sr_last_activity a) rs"
    by (simp add: rs matching_sessions_def latest_first_spec)
  ultimately show ?thesis using all_records ok set_rs by auto
qed

text \<open>Between two writes into the home directory itself the cache answers with the sessions of the first lookup,
  whatever the tools have recorded in their own directories since.\<close>

lemma stale_sessions:
  "find_sessions_for_cwd h modified dir None cache = (Inr rs, cache') \<Longrightarrow> home_path h2 = home_path h \<Longrightarrow>
     find_sessions_for_cwd h2 modified dir None cache' = (Inr rs, cache')"
  by (cases "list_sessions h None")
    (auto simp: find_sessions_for_cwd_def list_sessions_cached_def bind_s_def Let_def split: option.splits)

text \<open>Every scan is bounded: what lies behind the fortieth line of a file cannot change its record.\<close>

lemma scan_lines_bounded: "scan_lines f stop n ls s = scan_lines f stop n (take n ls) s"
  by (induction f stop n ls s rule: scan_lines.induct)
    (auto simp: Let_def intro!: bind_r_cong split: option.splits)

definition demo_home :: home_tree where
  "demo_home = \<lparr>home_path = ''/home/u'', codex_root = None, pi_root = None,
     opencode_rows = Some [
       \<lparr>row_id = SValue True ''s1'', row_directory = SValue True ''/w/x/../y'', row_title = SNull,
        row_updated_at = SValue True ''2026-01''\<rparr>,
       \<lparr>row_id = SValue True ''s2'', row_directory = SValue True ''/w/y'', row_title = SNull,
        row_updated_at = SValue True ''2026-02''\<rparr>],
     opencode_path = ''o.db'', hermes_rows = None, hermes_path = [], home_entries = Inr [], py_text = (\<lambda>_. [])\<rparr>"

lemma demo_sessions:
  "\<exists>rs cache. find_sessions_for_cwd demo_home None ''/w/y'' None [] = (Inr rs, cache) \<and>
     map sr_session_id rs = [''s2'', ''s1'']"
proof -
  have "list_sessions demo_home None = Inr (map (\<lambda>r. row_record ''opencode'' ''o.db'' (row_id r) r) (the (opencode_rows demo_home)))"
    by code_simp
  moreover have "map sr_session_id (matching_sessions ''/w/y''
      (map (\<lambda>r. row_record ''opencode'' ''o.db'' (row_id r) r) (the (opencode_rows demo_home)))) = [''s2'', ''s1'']"
    by code_simp
  ultimately show ?thesis
    by (simp add: find_sessions_for_cwd_def list_sessions_cached_def bind_s_def Let_def)
qed

theorem sessions_of_directory_witness:
  "\<exists>rs cache. find_sessions_for_cwd demo_home None ''/w/y'' None [] = (Inr rs, cache) \<and>
     map sr_session_id rs = [''s2'', ''s1''] \<and> distinct (map session_key rs)"
proof -
  obtain rs cache where *: "find_sessions_for_cwd demo_home None ''/w/y'' None [] = (Inr rs, cache)"
    "map sr_session_id rs = [''s2'', ''s1'']" using demo_sessions by (elim exE conjE) (rule that)
  have "session_cache_ok demo_home None []" by (simp add: session_cache_ok_def)
  from sessions_of_directory [OF this *(1)] have "distinct (map session_key rs)" by auto
  with * show ?thesis by (intro exI conjI)
qed

end
