(* ===== verification/Recovery.thy ===== *)
theory Recovery
  imports Protocol Processes Adapters Resume Sessions
begin

text \<open>
  Recovery planning as in \<^verbatim>\<open>recovery.py\<close>: which shells of a snapshot can be recovered, the recovery record made of
  them, the directory an item is restored in, and the attempt with its launch actions. SHA-256 is a parameter,
  as are the file system, the tools and the terminals; the state are the two caches and the world of the adapters.
\<close>

section \<open>The machine and the state\<close>

record machine =
  terminals :: host
  agent_tools :: tools
  session_home :: home_tree
  home_modified :: "rat option"
  environ :: "string \<rightharpoonup> string"
  lstat_is_dir :: "string \<Rightarrow> bool option"
  access_rx :: "string \<Rightarrow> bool"
  sha256_hex :: "string \<Rightarrow> string"

record runtime =
  rt_probes :: probe_cache
  rt_sessions :: session_cache
  rt_world :: world

definition on_probes :: "(probe_cache, 'a) act \<Rightarrow> (runtime, 'a) act" where
  "on_probes = on_part rt_probes (\<lambda>c s. s\<lparr>rt_probes := c\<rparr>)"

definition on_sessions :: "(session_cache, 'a) act \<Rightarrow> (runtime, 'a) act" where
  "on_sessions = on_part rt_sessions (\<lambda>c s. s\<lparr>rt_sessions := c\<rparr>)"

definition on_world :: "(world, 'a) act \<Rightarrow> (runtime, 'a) act" where
  "on_world = on_part rt_world (\<lambda>w s. s\<lparr>rt_world := w\<rparr>)"

section \<open>Reasons and items\<close>

datatype RecoveryReason = PREVIOUS_BOOT | SAME_BOOT_DEAD | Reason_EXPLICIT_EXIT | STILL_ALIVE | PROCESS_UNKNOWN

fun RecoveryReason_value :: "RecoveryReason \<Rightarrow> string" where
  "RecoveryReason_value PREVIOUS_BOOT = ''previous_boot''"
| "RecoveryReason_value SAME_BOOT_DEAD = ''same_boot_dead''"
| "RecoveryReason_value Reason_EXPLICIT_EXIT = ''explicit_exit''"
| "RecoveryReason_value STILL_ALIVE = ''still_alive''"
| "RecoveryReason_value PROCESS_UNKNOWN = ''process_unknown''"

definition RecoveryReason_members :: "RecoveryReason list" where
  "RecoveryReason_members = [PREVIOUS_BOOT, SAME_BOOT_DEAD, Reason_EXPLICIT_EXIT, STILL_ALIVE, PROCESS_UNKNOWN]"

lemma RecoveryReason_all: "x \<in> set RecoveryReason_members"
  by (cases x) (simp_all add: RecoveryReason_members_def)

interpretation reason_enum: str_enum RecoveryReason_value RecoveryReason_members
  by (rule str_enumI [OF RecoveryReason_all]) (simp_all add: RecoveryReason_members_def)

definition safe_recovery_reason :: "RecoveryReason \<Rightarrow> SafeExternalText result" where
  "safe_recovery_reason r = catalog (RecoveryReason_value r)"

record RecoveryItem =
  ri_item_id :: string
  ri_shell :: ShellRecord
  ri_reason :: RecoveryReason
  ri_level :: RestorationLevel
  ri_directory :: string
  ri_directory_warning :: "string option"
  ri_replay_display :: "string option"
  ri_replay_eligible :: bool

record RecoveryWorkspace =
  rw_workspace_id :: string
  rw_items :: "RecoveryItem list"
  rw_diagnostics :: "string list"

section \<open>The directory of an item\<close>

definition usable_directory :: "machine \<Rightarrow> string \<Rightarrow> bool" where
  "usable_directory m p \<longleftrightarrow> lstat_is_dir m p = Some True \<and> access_rx m p"

definition parent :: "string \<Rightarrow> string" where
  "parent p =
     (let ws = path_parts p; t = path_root p @ join ''/'' (butlast ws) in
      if ws = [] then p else if t = [] then ''.'' else t)"

lemma split_on_nonempty [simp]: "split_on d s \<noteq> []"
  by (induction s) (auto split: list.splits)

lemma split_on_append: "d \<notin> set a \<Longrightarrow> split_on d (a @ d # s) = a # split_on d s"
  by (induction a) auto

lemma split_on_single: "d \<notin> set a \<Longrightarrow> split_on d a = [a]"
  by (induction a) auto

lemma split_on_join: "ws \<noteq> [] \<Longrightarrow> \<forall>w \<in> set ws. d \<notin> set w \<Longrightarrow> split_on d (join [d] ws) = ws"
  by (induction ws rule: induct_list012) (auto simp: split_on_single split_on_append)

lemma split_on_parts: "w \<in> set (split_on d s) \<Longrightarrow> d \<notin> set w"
  by (induction s arbitrary: w) (auto split: list.splits if_splits)

lemma path_parts_parts: "w \<in> set (path_parts s) \<Longrightarrow> CHR ''/'' \<notin> set w \<and> w \<noteq> [] \<and> w \<noteq> ''.''"
  by (auto simp: path_parts_def split_on_parts)

lemma path_parts_slash [simp]: "path_parts (CHR ''/'' # s) = path_parts s"
  by (simp add: path_parts_def)

lemma path_parts_root [simp]: "path_parts (path_root p @ s) = path_parts s"
  by (simp add: path_root_def)

lemma path_parts_join:
  "\<forall>w \<in> set ws. CHR ''/'' \<notin> set w \<and> w \<noteq> [] \<and> w \<noteq> ''.'' \<Longrightarrow> path_parts (join ''/'' ws) = ws"
proof (cases "ws = []")
  case False
  assume "\<forall>w \<in> set ws. CHR ''/'' \<notin> set w \<and> w \<noteq> [] \<and> w \<noteq> ''.''"
  with split_on_join [OF False] show ?thesis by (simp add: path_parts_def)
qed (simp add: path_parts_def)

lemma path_parts_parent: "path_parts (parent p) = butlast (path_parts p)"
proof -
  have "path_parts (join ''/'' (butlast (path_parts p))) = butlast (path_parts p)"
    by (rule path_parts_join) (auto dest!: in_set_butlastD path_parts_parts)
  moreover from this have "path_root p @ join ''/'' (butlast (path_parts p)) = [] \<Longrightarrow> butlast (path_parts p) = []"
    by (simp add: path_parts_def)
  ultimately show ?thesis by (auto simp: parent_def Let_def) (simp add: path_parts_def)
qed

text \<open>The walk up to the first usable directory; a path whose parent is itself ends it.\<close>

function usable_ancestor :: "machine \<Rightarrow> string \<Rightarrow> string option" where
  "usable_ancestor m candidate =
     (if usable_directory m candidate then Some candidate
      else if parent candidate = candidate then None
      else usable_ancestor m (parent candidate))"
  by pat_completeness auto
termination
proof (relation "measure (\<lambda>(m, p). length (path_parts p))", simp, clarsimp)
  fix m :: machine and p
  assume "parent p \<noteq> p"
  then have "path_parts p \<noteq> []" by (auto simp: parent_def)
  then show "length (path_parts (parent p)) < length (path_parts p)" by (simp add: path_parts_parent)
qed

declare usable_ancestor.simps [simp del]

definition resolve_directory :: "machine \<Rightarrow> string \<Rightarrow> string \<Rightarrow> (string \<times> string option) result" where
  "resolve_directory m recorded home =
     (case usable_ancestor m recorded of
        Some candidate \<Rightarrow>
          Inr (candidate, if candidate = recorded then None
                          else Some (recorded @ '' missing; using '' @ candidate))
      | None \<Rightarrow>
          if \<not> usable_directory m home then Inl (ValueError ''home directory is not usable'')
          else Inr (home, Some (recorded @ '' missing; using '' @ home)))"

section \<open>Reconciliation\<close>

text \<open>The values printed hold no floats.\<close>

definition canonical_json :: "json \<Rightarrow> string result" where
  "canonical_json v =
     (if ints_printable v then Inr (dumps_with ascii_escape (\<lambda>_. []) (sort_keys v))
      else Inl (ValueError ''Exceeds the limit (4300 digits) for integer string conversion''))"

definition candidate_json :: "ShellRecord \<times> RecoveryReason \<Rightarrow> json" where
  "candidate_json c = JObj
     [(''shell_id'', JStr (shell_id (fst c))), (''boot_id'', JStr (boot_id (identity (fst c)))),
      (''pid'', JInt (pid (identity (fst c)))), (''start_time'', JInt (start_time (identity (fst c)))),
      (''reason'', JStr (RecoveryReason_value (snd c)))]"

definition derive_workspace_id :: "machine \<Rightarrow> int \<Rightarrow> (ShellRecord \<times> RecoveryReason) list \<Rightarrow> string result" where
  "derive_workspace_id m g candidates =
     bind_r (canonical_json (JObj [(''generation'', JInt g), (''items'', JArr (map candidate_json candidates))])) (\<lambda>b.
     Inr (take 24 (sha256_hex m b)))"

fun sort_shells :: "(ProcessIdentity \<Rightarrow> ProcessProbe result) \<Rightarrow> string \<Rightarrow> ShellRecord list \<Rightarrow>
    ((ShellRecord \<times> RecoveryReason) list \<times> string list) result" where
  "sort_shells probe current_boot [] = Inr ([], [])"
| "sort_shells probe current_boot (s # ss) =
     (if termination_kind s = Some EXPLICIT_EXIT then sort_shells probe current_boot ss
      else if boot_id (identity s) \<noteq> current_boot then
        bind_r (sort_shells probe current_boot ss) (\<lambda>(cs, ds). Inr ((s, PREVIOUS_BOOT) # cs, ds))
      else
        bind_r (probe (identity s)) (\<lambda>answer.
        bind_r (sort_shells probe current_boot ss) (\<lambda>(cs, ds).
        case probe_status answer of
          DEAD \<Rightarrow> Inr ((s, SAME_BOOT_DEAD) # cs, ds)
        | UNKNOWN \<Rightarrow> Inr (cs, (''process status unknown for shell '' @ shell_id s @ ''; not recoverable'') # ds)
        | ALIVE \<Rightarrow> Inr (cs, ds))))"

definition supported :: "ShellRecord \<Rightarrow> bool" where
  "supported s \<longleftrightarrow> adapter s \<in> set SUPPORTED_ADAPTERS"

definition eligible :: "ShellRecord \<Rightarrow> bool" where
  "eligible s \<longleftrightarrow> supported s \<and>
     (case command s of None \<Rightarrow> False
      | Some c \<Rightarrow> active c \<and> disposition c = REPLAYABLE \<and> executable c \<noteq> None)"

definition shell_level :: "ShellRecord \<Rightarrow> RestorationLevel" where
  "shell_level s = (if \<not> supported s then UNAVAILABLE else if eligible s then RECONSTRUCTED else PARTIAL)"

definition recovery_item :: "machine \<Rightarrow> string \<Rightarrow> string \<Rightarrow> ShellRecord \<Rightarrow> RecoveryReason \<Rightarrow> RecoveryItem result" where
  "recovery_item m home i s r =
     bind_r (resolve_directory m (path_str (cwd s)) home) (\<lambda>(directory, warning).
     Inr \<lparr>ri_item_id = i, ri_shell = s, ri_reason = r, ri_level = shell_level s, ri_directory = directory,
          ri_directory_warning = warning, ri_replay_display = map_option display (command s),
          ri_replay_eligible = eligible s\<rparr>)"

definition reconcile ::
  "machine \<Rightarrow> Snapshot \<Rightarrow> string \<Rightarrow> (ProcessIdentity \<Rightarrow> ProcessProbe result) \<Rightarrow> string \<Rightarrow>
    RecoveryWorkspace option result" where
  "reconcile m snapshot current_boot probe home =
     bind_r (sort_shells probe current_boot (sort_key shell_id (shells snapshot))) (\<lambda>(candidates, diagnostics).
     if candidates = [] \<and> diagnostics = [] then Inr None
     else
       bind_r (derive_workspace_id m (generation snapshot) candidates) (\<lambda>workspace.
       bind_r (traverse (\<lambda>(s, r). recovery_item m home (shell_id s) s r) candidates) (\<lambda>its.
       Inr (Some \<lparr>rw_workspace_id = workspace, rw_items = its, rw_diagnostics = diagnostics\<rparr>))))"

definition record_from_workspace :: "RecoveryWorkspace \<Rightarrow> Snapshot \<Rightarrow> RecoveryRecord result" where
  "record_from_workspace w snapshot =
     bind_r (traverse (\<lambda>i. RecoveryItemRecord_init (ri_item_id i) (ri_shell i) (RecoveryReason_value (ri_reason i)))
       (rw_items w)) (\<lambda>its.
     RecoveryRecord_init SCHEMA_VERSION (rw_workspace_id w) (generation snapshot) (captured_at snapshot) its [] [])"

definition stored_reason :: "string \<Rightarrow> RecoveryReason" where
  "stored_reason s =
     (case enum_of RecoveryReason_value RecoveryReason_members s of
        Some r \<Rightarrow> r
      | None \<Rightarrow> if s = ''prior_boot'' then PREVIOUS_BOOT else PROCESS_UNKNOWN)"

definition workspace_from_record :: "machine \<Rightarrow> RecoveryRecord \<Rightarrow> string \<Rightarrow> RecoveryWorkspace result" where
  "workspace_from_record m record home =
     bind_r (traverse (\<lambda>stored. recovery_item m home (item_id stored) (item_shell stored) (stored_reason (item_reason stored)))
       (sort_key item_id (items record))) (\<lambda>its.
     Inr \<lparr>rw_workspace_id = workspace_id record, rw_items = its, rw_diagnostics = []\<rparr>)"


section \<open>Attempts\<close>

text \<open>\<^verbatim>\<open>getattr(adapter, "name", adapter.__class__.__name__)\<close>: the GNOME adapter has no name of its own.\<close>

fun adapter_name :: "Adapter \<Rightarrow> string" where
  "adapter_name GnomeTerminal = ''GnomeTerminalAdapter''"
| "adapter_name Kitty = ''kitty''"
| "adapter_name Ghostty = ''ghostty''"
| "adapter_name Xfce4Terminal = ''xfce4-terminal''"
| "adapter_name Konsole = ''konsole''"

definition strings_json :: "string list \<Rightarrow> json" where
  "strings_json ss = JArr (map JStr ss)"

definition derive_attempt_id ::
  "machine \<Rightarrow> string \<Rightarrow> string list \<Rightarrow> string list \<Rightarrow> Adapter \<Rightarrow> string option \<Rightarrow> string result" where
  "derive_attempt_id m workspace selected approved a source =
     bind_r (canonical_json (JObj
       ([(''workspace_id'', JStr workspace), (''selected_item_ids'', strings_json (sort selected)),
         (''approved_item_ids'', strings_json (sorted_set approved)), (''adapter'', JStr (adapter_name a))] @
        (case source of None \<Rightarrow> [] | Some i \<Rightarrow> [(''source_attempt_id'', JStr i)])))) (\<lambda>b.
     Inr (take 24 (sha256_hex m b)))"

text \<open>
  The exact session of a resumable tool: the environment's, or else the latest of the directory; the expected
  errors of reading the stores give none.
\<close>

definition latest_session :: "SessionRecord list \<Rightarrow> string option" where
  "latest_session matches = (case matches of [] \<Rightarrow> None | r # _ \<Rightarrow> Some (sr_session_id r))"

definition store_read_error :: "py_error \<Rightarrow> bool" where
  "store_read_error e \<longleftrightarrow> is_OSError e \<or> is_ValueError e \<or> (\<exists>k. e = KeyError k)"

definition resume_session :: "machine \<Rightarrow> string \<Rightarrow> string \<Rightarrow> (runtime, string option) act" where
  "resume_session m tool dir =
     catch
       (case find_active_session_id (environ m) tool of
          Some i \<Rightarrow> ret (Some i)
        | None \<Rightarrow>
            bind_s (on_sessions (find_sessions_for_cwd (session_home m) (home_modified m) dir None)) (\<lambda>matches.
            ret (latest_session matches)))
       (\<lambda>e. if store_read_error e then ret None else raise_s e)"

text \<open>The executable a captured command names, empty where it cannot be parsed.\<close>

definition captured_executable :: "CommandRecord \<Rightarrow> string" where
  "captured_executable c =
     (let captured = (case executable c of Some x \<Rightarrow> if x \<noteq> [] then x else display c | None \<Rightarrow> display c) in
      if captured = [] then []
      else case parse_one_simple_command captured None of Inl _ \<Rightarrow> [] | Inr p \<Rightarrow> p_executable p)"

text \<open>What an approved active command is replaced by: a command, nothing, or a missing executable.\<close>

datatype replay = NoReplay | MissingExecutable | Replay string

definition replay_plain :: "machine \<Rightarrow> CommandRecord \<Rightarrow> replay" where
  "replay_plain m c =
     (case executable c of
        None \<Rightarrow> NoReplay
      | Some x \<Rightarrow>
          if disposition c \<noteq> REPLAYABLE then NoReplay
          else case parse_one_simple_command x None of
            Inl _ \<Rightarrow> MissingExecutable
          | Inr p \<Rightarrow>
              if p_executable p = [] \<or> which (terminals m) (p_executable p) = None then MissingExecutable
              else Replay x)"

definition replay_resume :: "machine \<Rightarrow> string list \<Rightarrow> replay" where
  "replay_resume m argv =
     (case argv of
        [] \<Rightarrow> Replay (join '' '' argv)
      | x # _ \<Rightarrow> if x \<noteq> [] \<and> which (terminals m) x = None then MissingExecutable else Replay (join '' '' argv))"

definition replay_command :: "machine \<Rightarrow> string \<Rightarrow> CommandRecord \<Rightarrow> (runtime, replay) act" where
  "replay_command m dir c =
     bind_s (if captured_executable c = [] then ret None
             else on_probes (find_resume_adapter (agent_tools m) (captured_executable c) True)) (\<lambda>found.
     case found of
       Some match \<Rightarrow>
         bind_s (resume_session m (rm_executable match) dir) (\<lambda>session.
         bind_s (lift_s (build_resume_argv match session)) (\<lambda>argv.
         ret (replay_resume m argv)))
     | None \<Rightarrow> ret (replay_plain m c))"

record launch_plan =
  lp_launches :: "LaunchItem list"
  lp_missing :: "string list"
  lp_unsupported :: "string list"

definition item_by_id :: "RecoveryRecord \<Rightarrow> string \<Rightarrow> RecoveryItemRecord result" where
  "item_by_id record i =
     (case map_of (rev (map (\<lambda>x. (item_id x, x)) (items record))) i of
        None \<Rightarrow> Inl (KeyError i) | Some x \<Rightarrow> Inr x)"

definition item_replay :: "machine \<Rightarrow> string list \<Rightarrow> string \<Rightarrow> ShellRecord \<Rightarrow> (runtime, replay) act" where
  "item_replay m approved i s =
     (case command s of
        None \<Rightarrow> ret NoReplay
      | Some c \<Rightarrow> if i \<in> set approved \<and> active c then replay_command m (path_str (cwd s)) c else ret NoReplay)"

primrec plan_launches ::
  "machine \<Rightarrow> RecoveryRecord \<Rightarrow> string list \<Rightarrow> string \<Rightarrow> string list \<Rightarrow> (runtime, launch_plan) act" where
  "plan_launches m record approved home [] = ret \<lparr>lp_launches = [], lp_missing = [], lp_unsupported = []\<rparr>"
| "plan_launches m record approved home (i # is) =
     bind_s (lift_s (item_by_id record i)) (\<lambda>stored.
     let s = item_shell stored in
     if \<not> supported s then
       bind_s (plan_launches m record approved home is) (\<lambda>p. ret (p\<lparr>lp_unsupported := i # lp_unsupported p\<rparr>))
     else
       bind_s (item_replay m approved i s) (\<lambda>r.
       bind_s (lift_s (resolve_directory m (path_str (cwd s)) home)) (\<lambda>(directory, warning).
       let launch = \<lparr>li_item_id = i, li_cwd = directory,
             li_approved_command = (case r of Replay t \<Rightarrow> Some t | _ \<Rightarrow> None)\<rparr> in
       bind_s (plan_launches m record approved home is) (\<lambda>p.
       ret (p\<lparr>lp_launches := launch # lp_launches p,
              lp_missing := (if r = MissingExecutable then [i] else []) @ lp_missing p\<rparr>)))))"

definition unsupported_action :: "string \<Rightarrow> LaunchAction" where
  "unsupported_action i =
     \<lparr>la_item_ids = [i], la_argv = [], la_level = UNAVAILABLE, la_warnings = [''unsupported adapter'']\<rparr>"

definition warn_missing :: "string list \<Rightarrow> LaunchAction \<Rightarrow> LaunchAction" where
  "warn_missing missing a =
     (if set (la_item_ids a) \<inter> set missing \<noteq> {}
      then a\<lparr>la_warnings := la_warnings a @ [''executable unavailable'']\<rparr> else a)"

definition build_attempt ::
  "machine \<Rightarrow> RecoveryRecord \<Rightarrow> string list \<Rightarrow> string list \<Rightarrow> Adapter \<Rightarrow> string option \<Rightarrow> string \<Rightarrow>
    (runtime, RestoreAttempt \<times> LaunchAction list) act" where
  "build_attempt m record selected approved a source home =
     bind_s (plan_launches m record approved home selected) (\<lambda>p.
     bind_s (lift_s (derive_attempt_id m (workspace_id record) selected approved a source)) (\<lambda>i.
     bind_s (lift_s (RestoreAttempt_init i (workspace_id record) selected (sorted_set approved) [])) (\<lambda>attempt.
     bind_s (on_world (adapter_plan a (terminals m) (lp_launches p))) (\<lambda>actions.
     ret (attempt, map (warn_missing (lp_missing p))
       (actions @ map unsupported_action (filter (\<lambda>i. i \<in> set (lp_unsupported p)) selected)))))))"


section \<open>The directory is the nearest usable one\<close>

fun ancestors :: "nat \<Rightarrow> string \<Rightarrow> string" where
  "ancestors 0 p = p"
| "ancestors (Suc n) p = ancestors n (parent p)"

lemma usable_ancestor_Some:
  "usable_ancestor m p = Some d \<Longrightarrow>
     \<exists>n. d = ancestors n p \<and> usable_directory m d \<and> (\<forall>k < n. \<not> usable_directory m (ancestors k p))"
proof (induction m p rule: usable_ancestor.induct)
  case (1 m p)
  show ?case
  proof (cases "usable_directory m p")
    case True
    then show ?thesis using "1.prems" by (intro exI [of _ 0]) (simp add: usable_ancestor.simps)
  next
    case False
    then have "parent p \<noteq> p" and d: "usable_ancestor m (parent p) = Some d"
      using "1.prems" by (auto simp: usable_ancestor.simps [of m p] split: if_splits)
    with "1.IH" [OF False] obtain n where "d = ancestors n (parent p)" "usable_directory m d"
      "\<forall>k < n. \<not> usable_directory m (ancestors k (parent p))" by blast
    then show ?thesis using False by (intro exI [of _ "Suc n"]) (auto simp: less_Suc_eq_0_disj)
  qed
qed

lemma usable_ancestor_None: "usable_ancestor m p = None \<Longrightarrow> \<not> usable_directory m (ancestors k p)"
proof (induction m p arbitrary: k rule: usable_ancestor.induct)
  case (1 m p)
  then have "\<not> usable_directory m p" by (auto simp: usable_ancestor.simps [of m p])
  show ?case
  proof (cases "parent p = p")
    case True
    then have "ancestors k p = p" by (induction k) auto
    then show ?thesis using \<open>\<not> usable_directory m p\<close> by simp
  next
    case False
    then have "usable_ancestor m (parent p) = None"
      using "1.prems" \<open>\<not> usable_directory m p\<close> by (simp add: usable_ancestor.simps [of m p])
    with "1.IH" [OF \<open>\<not> usable_directory m p\<close> False] \<open>\<not> usable_directory m p\<close> show ?thesis by (cases k) auto
  qed
qed

lemma resolve_directory_cases:
  "resolve_directory m p home = Inr (d, w) \<Longrightarrow> usable_directory m d \<and>
     ((\<exists>n. d = ancestors n p \<and> (\<forall>k < n. \<not> usable_directory m (ancestors k p))) \<or>
      d = home \<and> (\<forall>k. \<not> usable_directory m (ancestors k p)))"
proof (cases "usable_ancestor m p")
  case None
  then show "resolve_directory m p home = Inr (d, w) \<Longrightarrow> ?thesis"
    using usable_ancestor_None [OF None] by (auto simp: resolve_directory_def split: if_splits)
next
  case (Some c)
  then show "resolve_directory m p home = Inr (d, w) \<Longrightarrow> ?thesis"
    using usable_ancestor_Some [OF Some] by (simp add: resolve_directory_def) blast
qed

section \<open>Which shells are recovered\<close>

text \<open>The verdict on a shell: its reason for recovery, if it has one.\<close>

definition recovery_reason ::
  "(ProcessIdentity \<Rightarrow> ProcessProbe result) \<Rightarrow> string \<Rightarrow> ShellRecord \<Rightarrow> RecoveryReason option" where
  "recovery_reason probe current_boot s =
     (if termination_kind s = Some EXPLICIT_EXIT then None
      else if boot_id (identity s) \<noteq> current_boot then Some PREVIOUS_BOOT
      else case probe (identity s) of
        Inl e \<Rightarrow> None
      | Inr answer \<Rightarrow> if probe_status answer = DEAD then Some SAME_BOOT_DEAD else None)"

definition candidates_of ::
  "(ProcessIdentity \<Rightarrow> ProcessProbe result) \<Rightarrow> string \<Rightarrow> ShellRecord list \<Rightarrow> (ShellRecord \<times> RecoveryReason) list" where
  "candidates_of probe current_boot ss =
     List.map_filter (\<lambda>s. map_option (Pair s) (recovery_reason probe current_boot s)) ss"

lemma ProcessStatus_other: "st \<noteq> ALIVE \<Longrightarrow> st \<noteq> DEAD \<Longrightarrow> st = UNKNOWN"
  by (cases st) auto

lemma sort_shells_candidates:
  "sort_shells probe current_boot ss = Inr (cs, ds) \<Longrightarrow> cs = candidates_of probe current_boot ss"
proof (induction ss arbitrary: cs ds)
  case (Cons s ss)
  show ?case
  proof (cases "termination_kind s = Some EXPLICIT_EXIT \<or> boot_id (identity s) \<noteq> current_boot")
    case True
    with Cons show ?thesis
      by (auto simp: candidates_of_def recovery_reason_def map_filter_simps split: if_splits)
  next
    case False
    then obtain a cs' ds' where "probe (identity s) = Inr a" "sort_shells probe current_boot ss = Inr (cs', ds')"
      and "(cs, ds) = (case probe_status a of DEAD \<Rightarrow> ((s, SAME_BOOT_DEAD) # cs', ds')
        | UNKNOWN \<Rightarrow> (cs', (''process status unknown for shell '' @ shell_id s @ ''; not recoverable'') # ds')
        | ALIVE \<Rightarrow> (cs', ds'))"
      using Cons.prems by (cases "probe (identity s)") (auto split: ProcessStatus.splits dest: ProcessStatus_other)
    with False Cons.IH [of cs' ds'] show ?thesis
      by (cases "probe_status a") (auto simp: candidates_of_def recovery_reason_def map_filter_simps)
  qed
qed (simp add: candidates_of_def map_filter_simps)

lemma set_map_filter: "set (List.map_filter f xs) = {y. \<exists>x \<in> set xs. f x = Some y}"
  by (induction xs) (auto simp: map_filter_simps split: option.splits)

lemma recovery_item_Inr:
  "recovery_item m home i s r = Inr x \<Longrightarrow>
     ri_item_id x = i \<and> ri_shell x = s \<and> ri_reason x = r \<and> usable_directory m (ri_directory x)"
  by (auto simp: recovery_item_def dest: resolve_directory_cases)

lemma recovery_items_Inr:
  "traverse (\<lambda>(s, r). recovery_item m home (shell_id s) s r) cs = Inr its \<Longrightarrow>
     map (\<lambda>x. (ri_shell x, ri_reason x)) its = cs \<and> (\<forall>x \<in> set its. ri_item_id x = shell_id (ri_shell x) \<and>
       usable_directory m (ri_directory x))"
  by (induction cs arbitrary: its) (auto dest: recovery_item_Inr)

lemma reconcile_items:
  assumes "reconcile m snapshot current_boot probe home = Inr (Some w)"
  shows "map (\<lambda>x. (ri_shell x, ri_reason x)) (rw_items w) =
      candidates_of probe current_boot (sort_key shell_id (shells snapshot))"
    and "\<forall>x \<in> set (rw_items w). ri_item_id x = shell_id (ri_shell x) \<and> usable_directory m (ri_directory x)"
  using assms recovery_items_Inr sort_shells_candidates
  by (fastforce simp: reconcile_def split: if_splits)+

text \<open>C18: Reconciliation recovers exactly the shells that are gone: each item is a shell of the snapshot that was
  not closed by its user and either ran in another boot or is a process the probe proved dead, with that reason, and
  every such shell has an item. A living process, and one whose state is unknown, is never recovered. Every
  item is given a directory that can be used.\<close>
theorem reconcile_recovers_exactly_the_dead:
  assumes "reconcile m snapshot current_boot probe home = Inr (Some w)"
  shows "{(ri_shell x, ri_reason x) | x. x \<in> set (rw_items w)} =
      {(s, r) | s r. s \<in> set (shells snapshot) \<and> termination_kind s \<noteq> Some EXPLICIT_EXIT \<and>
         (boot_id (identity s) \<noteq> current_boot \<and> r = PREVIOUS_BOOT \<or>
          boot_id (identity s) = current_boot \<and> r = SAME_BOOT_DEAD \<and>
            (\<exists>d. probe (identity s) = Inr \<lparr>probe_status = DEAD, probe_diagnostic = d\<rparr>))} \<and>
    (\<forall>x \<in> set (rw_items w). ri_item_id x = shell_id (ri_shell x) \<and> usable_directory m (ri_directory x))"
proof -
  have dead: "probe_status a = DEAD \<longleftrightarrow> (\<exists>d. a = \<lparr>probe_status = DEAD, probe_diagnostic = d\<rparr>)" for a
    by (cases a) auto
  have "{(ri_shell x, ri_reason x) | x. x \<in> set (rw_items w)} =
      set (map (\<lambda>x. (ri_shell x, ri_reason x)) (rw_items w))" by auto
  also have "\<dots> = {(s, r) | s r. s \<in> set (shells snapshot) \<and> recovery_reason probe current_boot s = Some r}"
    unfolding reconcile_items(1) [OF assms]
    by (auto simp: candidates_of_def set_map_filter)
  also have "\<dots> = {(s, r) | s r. s \<in> set (shells snapshot) \<and> termination_kind s \<noteq> Some EXPLICIT_EXIT \<and>
         (boot_id (identity s) \<noteq> current_boot \<and> r = PREVIOUS_BOOT \<or>
          boot_id (identity s) = current_boot \<and> r = SAME_BOOT_DEAD \<and>
            (\<exists>d. probe (identity s) = Inr \<lparr>probe_status = DEAD, probe_diagnostic = d\<rparr>))}"
    by (auto simp: recovery_reason_def dead split: sum.splits if_splits)
  finally show ?thesis using reconcile_items(2) [OF assms] by blast
qed


section \<open>Only approved commands are planned\<close>

text \<open>
  The command a restore may run in place of a recorded one: what the resume adapter of the recorded program builds for
  one of its sessions, of tokens that need no quoting; or the recorded replayable command itself, whose program is on
  the search path.
\<close>

definition runs_for :: "machine \<Rightarrow> CommandRecord \<Rightarrow> string \<Rightarrow> bool" where
  "runs_for m c t \<longleftrightarrow>
     (\<exists>cache cache' match session argv.
        find_resume_adapter (agent_tools m) (captured_executable c) True cache = (Inr (Some match), cache') \<and>
        build_resume_argv match session = Inr argv \<and> t = join '' '' argv \<and> (\<forall>x \<in> set argv. is_safe_token x)) \<or>
     (disposition c = REPLAYABLE \<and> executable c = Some t \<and>
        (\<exists>p. parse_one_simple_command t None = Inr p \<and> which (terminals m) (p_executable p) \<noteq> None))"

text \<open>A command may run for an item if the item was approved and its recorded command was active.\<close>

definition may_run :: "machine \<Rightarrow> RecoveryRecord \<Rightarrow> string list \<Rightarrow> string \<Rightarrow> string \<Rightarrow> bool" where
  "may_run m record approved i t \<longleftrightarrow> i \<in> set approved \<and>
     (\<exists>stored c. item_by_id record i = Inr stored \<and> command (item_shell stored) = Some c \<and> active c \<and>
        supported (item_shell stored) \<and> runs_for m c t)"

text \<open>The launch of an item: in the directory its recorded one resolves to, with such a command or with none.\<close>

definition launch_allowed :: "machine \<Rightarrow> string \<Rightarrow> RecoveryRecord \<Rightarrow> string list \<Rightarrow> LaunchItem \<Rightarrow> bool" where
  "launch_allowed m home record approved l \<longleftrightarrow>
     (\<exists>stored warning. item_by_id record (li_item_id l) = Inr stored \<and>
        resolve_directory m (path_str (cwd (item_shell stored))) home = Inr (li_cwd l, warning)) \<and>
     pred_option (may_run m record approved (li_item_id l)) (li_approved_command l)"

lemma on_caches_world:
  "on_probes n s = (r, s') \<Longrightarrow> rt_world s' = rt_world s"
  "on_sessions k s = (q, s') \<Longrightarrow> rt_world s' = rt_world s"
  by (auto simp: on_probes_def on_sessions_def on_part_run)

abbreviation keeps_world :: "(runtime, 'a) act \<Rightarrow> bool" where
  "keeps_world \<equiv> frames rt_world"

lemma keeps_world_caches [intro!]: "keeps_world (on_probes n)" "keeps_world (on_sessions k)"
  unfolding on_probes_def on_sessions_def by (rule frames_on_part, simp)+

lemma replay_command_keeps [intro!]: "keeps_world (replay_command m dir c)"
  unfolding replay_command_def resume_session_def by (auto split: option.splits)

lemma plan_launches_keeps: "keeps_world (plan_launches m record approved home is)"
proof (induction "is")
  case (Cons i "is")
  then show ?case
    by (auto simp: Let_def item_replay_def split: option.splits)
qed auto

lemma replay_command_sound:
  assumes "replay_command m dir c s = (Inr (Replay t), s')"
  shows "runs_for m c t"
proof -
  obtain found u where rest: "(case found of
       Some match \<Rightarrow>
         bind_s (resume_session m (rm_executable match) dir) (\<lambda>session.
         bind_s (lift_s (build_resume_argv match session)) (\<lambda>argv.
         ret (replay_resume m argv)))
     | None \<Rightarrow> ret (replay_plain m c)) u = (Inr (Replay t), s')"
    and f: "\<And>match. found = Some match \<Longrightarrow> \<exists>cache cache'.
       find_resume_adapter (agent_tools m) (captured_executable c) True cache = (Inr (Some match), cache')"
  proof (cases "captured_executable c = []")
    case True
    then show ?thesis using assms by (intro that [of None s]) (simp_all add: replay_command_def)
  next
    case False
    then show ?thesis
      using assms by (auto simp: replay_command_def bind_s_Inr on_probes_def on_part_run intro: that)
  qed
  show ?thesis
  proof (cases found)
    case None
    then have "replay_plain m c = Replay t" using rest by simp
    then show ?thesis by (auto simp: runs_for_def replay_plain_def split: option.splits sum.splits if_splits)
  next
    case (Some match)
    then obtain session argv where argv: "build_resume_argv match session = Inr argv" and "replay_resume m argv = Replay t"
      using rest by (auto simp: bind_s_Inr)
    then have "t = join '' '' argv" by (auto simp: replay_resume_def split: list.splits if_splits)
    moreover have "\<forall>x \<in> set argv. is_safe_token x" using build_safe argv by (auto simp: build_resume_argv_def)
    ultimately show ?thesis using f [OF Some] argv unfolding runs_for_def by blast
  qed
qed

definition adapter_known :: "RecoveryRecord \<Rightarrow> string \<Rightarrow> bool" where
  "adapter_known record i \<longleftrightarrow> (\<exists>x. item_by_id record i = Inr x \<and> supported (item_shell x))"

lemma plan_launches_allowed:
  "plan_launches m record approved home sel s = (Inr p, s') \<Longrightarrow>
     (\<forall>l \<in> set (lp_launches p). launch_allowed m home record approved l) \<and>
     lp_unsupported p = filter (\<lambda>i. \<not> adapter_known record i) sel \<and>
     map li_item_id (lp_launches p) = filter (adapter_known record) sel"
proof (induction sel arbitrary: p s)
  case (Cons i sel)
  obtain stored where stored: "item_by_id record i = Inr stored"
    using Cons.prems by (cases "item_by_id record i") auto
  let ?s = "item_shell stored"
  show ?case
  proof (cases "supported ?s")
    case False
    then obtain q u where q: "plan_launches m record approved home sel u = (Inr q, s')"
      and p: "p = q\<lparr>lp_unsupported := i # lp_unsupported q\<rparr>"
      using Cons.prems stored by (auto simp: bind_s_Inr)
    from Cons.IH [OF q] False stored p show ?thesis by (simp add: adapter_known_def)
  next
    case True
    then obtain r u v d w q where r: "item_replay m approved i ?s s = (Inr r, u)"
      and q: "plan_launches m record approved home sel v = (Inr q, s')"
      and p: "p = q\<lparr>lp_launches := \<lparr>li_item_id = i, li_cwd = d,
             li_approved_command = (case r of Replay t \<Rightarrow> Some t | _ \<Rightarrow> None)\<rparr> # lp_launches q,
           lp_missing := w\<rparr>"
      and res: "\<exists>warning. resolve_directory m (path_str (cwd ?s)) home = Inr (d, warning)"
      using Cons.prems stored by (auto simp: bind_s_Inr Let_def split: prod.splits)
    have "launch_allowed m home record approved \<lparr>li_item_id = i, li_cwd = d,
        li_approved_command = (case r of Replay t \<Rightarrow> Some t | _ \<Rightarrow> None)\<rparr>"
    proof (cases r)
      case (Replay t)
      then obtain c where c: "command ?s = Some c" "i \<in> set approved" "active c"
        and "replay_command m (path_str (cwd ?s)) c s = (Inr (Replay t), u)"
        using r by (auto simp: item_replay_def split: option.splits if_splits)
      with replay_command_sound [OF this(4)] True stored Replay show ?thesis
        using res by (auto simp: launch_allowed_def may_run_def)
    qed (use res stored in \<open>simp_all add: launch_allowed_def\<close>)
    then show ?thesis using Cons.IH [OF q] p True stored by (simp add: adapter_known_def)
  qed
qed simp


text \<open>C27: The walk up to a usable directory ends for every path and every file system, and finds the nearest one: the
  answer is the first usable among the path and its ancestors, without a warning if it is the path itself; if none
  is usable it is the home directory; and the only error is that the home directory cannot be used either.\<close>
theorem resolve_directory_nearest:
  "resolve_directory m p home =
     (if \<exists>n. usable_directory m (ancestors n p) then
        let d = ancestors (LEAST n. usable_directory m (ancestors n p)) p in
        Inr (d, if d = p then None else Some (p @ '' missing; using '' @ d))
      else if usable_directory m home then Inr (home, Some (p @ '' missing; using '' @ home))
      else Inl (ValueError ''home directory is not usable''))"
proof (cases "usable_ancestor m p")
  case None
  then show ?thesis using usable_ancestor_None [OF None] by (auto simp: resolve_directory_def)
next
  case (Some d)
  then obtain n where n: "d = ancestors n p" "usable_directory m d" "\<forall>k < n. \<not> usable_directory m (ancestors k p)"
    using usable_ancestor_Some by blast
  then have "(LEAST n. usable_directory m (ancestors n p)) = n"
    by (intro Least_equality) (auto simp: not_less [symmetric])
  moreover have "\<exists>n. usable_directory m (ancestors n p)" using n by blast
  ultimately show ?thesis using Some n(1) by (simp add: resolve_directory_def Let_def)
qed

section \<open>What an attempt consists of\<close>

lemma command_lines_warned: "command_lines (map (warn_missing w) acts) = command_lines acts"
  by (simp add: command_lines_def comp_def warn_missing_def if_distrib [of la_argv] cong: if_cong)

lemma command_lines_more [simp]:
  "command_lines (acts @ extra) = command_lines acts @ command_lines extra"
  "command_lines (map unsupported_action is) = []"
  by (simp_all add: command_lines_def unsupported_action_def comp_def)

lemma action_ids_warned: "action_ids (map (warn_missing w) acts) = action_ids acts"
  by (simp add: action_ids_def comp_def warn_missing_def if_distrib [of la_item_ids] cong: if_cong)

lemma action_ids_more [simp]:
  "action_ids (acts @ extra) = action_ids acts @ action_ids extra"
  "action_ids (map unsupported_action is) = is"
  by (simp add: action_ids_def, induction "is") (simp_all add: action_ids_def unsupported_action_def)

lemma adapter_plan_launches: "launched (snd (adapter_plan a h todo w)) = launched w"
  using gnome.plan_launches kitty.plan_launches ghostty.plan_launches xfce4.plan_launches konsole.plan_launches
  by (cases a) simp_all

lemma adapter_plan_argv:
  "adapter_plan a h todo w = (Inr acts, w') \<Longrightarrow> argv \<in> set (command_lines acts) \<Longrightarrow>
     sound_argv a h todo (session_files w') argv"
  using gnome.plan_argv kitty.plan_argv ghostty.plan_argv xfce4.plan_argv konsole.plan_argv
  by (cases a) simp_all

lemma build_attempt_Inr:
  assumes "build_attempt m record sel approved a source home s = (Inr (attempt, actions), s')"
  shows "\<exists>todo. (\<forall>l \<in> set todo. launch_allowed m home record approved l) \<and>
    map li_item_id todo = filter (adapter_known record) sel \<and>
    launched (rt_world s') = launched (rt_world s) \<and>
    (\<forall>argv \<in> set (command_lines actions). sound_argv a (terminals m) todo (session_files (rt_world s')) argv) \<and>
    action_ids actions = restored_ids a (terminals m) todo @ filter (\<lambda>i. \<not> adapter_known record i) sel"
    and "derive_attempt_id m (workspace_id record) sel approved a source = Inr (attempt_id attempt) \<and>
      RestoreAttempt_init (attempt_id attempt) (workspace_id record) sel (sorted_set approved) [] = Inr attempt"
proof -
  obtain p u i w acts where p: "plan_launches m record approved home sel s = (Inr p, u)"
    and i: "derive_attempt_id m (workspace_id record) sel approved a source = Inr i"
    and attempt: "RestoreAttempt_init i (workspace_id record) sel (sorted_set approved) [] = Inr attempt"
    and plan: "adapter_plan a (terminals m) (lp_launches p) (rt_world u) = (Inr acts, w)" and s': "s' = u\<lparr>rt_world := w\<rparr>"
    and actions: "actions = map (warn_missing (lp_missing p))
       (acts @ map unsupported_action (filter (\<lambda>i. i \<in> set (lp_unsupported p)) sel))"
    using assms by (auto simp: build_attempt_def bind_s_Inr on_world_def on_part_run)
  have world: "rt_world u = rt_world s" using plan_launches_keeps [of m "record" approved home sel] p
    by (metis frames_InrD)
  have known: "(\<forall>l \<in> set (lp_launches p). launch_allowed m home record approved l)"
    "lp_unsupported p = filter (\<lambda>i. \<not> adapter_known record i) sel"
    "map li_item_id (lp_launches p) = filter (adapter_known record) sel"
    using plan_launches_allowed [OF p] by auto
  have "filter (\<lambda>i. i \<in> set (lp_unsupported p)) sel = filter (\<lambda>i. \<not> adapter_known record i) sel"
    unfolding known(2) by (rule filter_cong) auto
  then have "action_ids actions = restored_ids a (terminals m) (lp_launches p) @ filter (\<lambda>i. \<not> adapter_known record i) sel"
    using adapter_plan_ids [OF plan] by (simp add: actions action_ids_warned del: map_append)
  moreover have "launched (rt_world s') = launched (rt_world s)"
    using adapter_plan_launches [of a "terminals m" "lp_launches p" "rt_world u"] plan world s' by simp
  moreover have "\<forall>argv \<in> set (command_lines actions). sound_argv a (terminals m) (lp_launches p) (session_files (rt_world s')) argv"
    using adapter_plan_argv [OF plan] by (simp add: actions command_lines_warned s' del: map_append)
  ultimately show "\<exists>todo. (\<forall>l \<in> set todo. launch_allowed m home record approved l) \<and>
    map li_item_id todo = filter (adapter_known record) sel \<and>
    launched (rt_world s') = launched (rt_world s) \<and>
    (\<forall>argv \<in> set (command_lines actions). sound_argv a (terminals m) todo (session_files (rt_world s')) argv) \<and>
    action_ids actions = restored_ids a (terminals m) todo @ filter (\<lambda>i. \<not> adapter_known record i) sel"
    using known by blast
  have "attempt_id attempt = i" using attempt by (auto simp: RestoreAttempt_init_def RestoreAttempt_check_def)
  then show "derive_attempt_id m (workspace_id record) sel approved a source = Inr (attempt_id attempt) \<and>
      RestoreAttempt_init (attempt_id attempt) (workspace_id record) sel (sorted_set approved) [] = Inr attempt"
    using i attempt by simp
qed

lemma keeps_on_world: "(\<And>w. P w \<Longrightarrow> P (snd (n w))) \<Longrightarrow> keeps (\<lambda>s. P (rt_world s)) (on_world n)"
  by (rule keepsI) (auto simp: on_world_def on_part_def split: prod.splits, metis snd_conv)

lemma build_attempt_launches:
  "launched (rt_world (snd (build_attempt m record sel approved a source home s))) = launched (rt_world s)"
proof -
  have "keeps (\<lambda>s. launched (rt_world s) = L) (build_attempt m record sel approved a source home)" for L
    unfolding build_attempt_def
    by (intro keeps_bind keeps_pure frames_keeps [OF plan_launches_keeps] keeps_on_world)
      (simp add: adapter_plan_launches)
  from keepsD [OF this] show ?thesis by auto
qed


section \<open>A concrete machine\<close>

definition demo_machine :: machine where
  "demo_machine = \<lparr>terminals = demo_host, agent_tools = \<lparr>resolver = (\<lambda>_. None), run_help = (\<lambda>_. None)\<rparr>,
     session_home = demo_home, home_modified = None, environ = (\<lambda>_. None),
     lstat_is_dir = (\<lambda>d. if d = ''/gone'' then None else Some True), access_rx = (\<lambda>_. True),
     sha256_hex = (\<lambda>b. replicate 64 CHR ''0'')\<rparr>"

lemma demo_usable: "d \<noteq> ''/gone'' \<Longrightarrow> usable_directory demo_machine d"
  by (simp add: usable_directory_def demo_machine_def)

lemma demo_reconcile:
  "\<exists>w. reconcile demo_machine sample_snapshot ''other'' (\<lambda>_. Inl (OSError [])) ''/home'' = Inr (Some w)"
proof -
  have "shells sample_snapshot = [sample_shell]" "boot_id (identity sample_shell) \<noteq> ''other''"
    "termination_kind sample_shell \<noteq> Some EXPLICIT_EXIT" "path_str (cwd sample_shell) \<noteq> ''/gone''"
    by code_simp+
  moreover have "\<exists>i. derive_workspace_id demo_machine (generation sample_snapshot) [(sample_shell, PREVIOUS_BOOT)] = Inr i"
    by (simp add: derive_workspace_id_def canonical_json_def candidate_json_def samples sort_dict_def sort_keys.simps
        MAX_INT_DIGITS_def nat_text.simps)
  ultimately show ?thesis using demo_usable [of "path_str (cwd sample_shell)"]
    by (auto simp: reconcile_def recovery_item_def resolve_directory_def usable_ancestor.simps)
qed

theorem reconcile_recovers_exactly_the_dead_witness:
  "\<exists>w. reconcile demo_machine sample_snapshot ''other'' (\<lambda>_. Inl (OSError [])) ''/home'' = Inr (Some w) \<and>
     {(ri_shell x, ri_reason x) | x. x \<in> set (rw_items w)} = {(sample_shell, PREVIOUS_BOOT)}"
proof -
  obtain w where w: "reconcile demo_machine sample_snapshot ''other'' (\<lambda>_. Inl (OSError [])) ''/home'' = Inr (Some w)"
    using demo_reconcile by blast
  have "set (shells sample_snapshot) = {sample_shell}" "boot_id (identity sample_shell) \<noteq> ''other''"
    "termination_kind sample_shell \<noteq> Some EXPLICIT_EXIT"
    by (simp_all add: sample_snapshot_def sample_shell_def sample_identity_def)
  with reconcile_recovers_exactly_the_dead [OF w]
  have "{(ri_shell x, ri_reason x) | x. x \<in> set (rw_items w)} = {(sample_shell, PREVIOUS_BOOT)}" by auto
  with w show ?thesis by blast
qed

end
