(* ===== verification/Wire.thy ===== *)
theory Wire
  imports Protocol Persist
begin

text \<open>
  The text layer of \<^verbatim>\<open>protocol.py\<close>: a message travels as one line of JSON in UTF-8 with a bound on its bytes. The
  codecs of the requests, the responses and the bridge's frames become codecs of lines; one locale carries the
  argument for the three.
\<close>

section \<open>One line of JSON\<close>

definition MAX_MESSAGE_BYTES :: nat where "MAX_MESSAGE_BYTES = 16384"
definition MAX_RESPONSE_BYTES :: nat where "MAX_RESPONSE_BYTES = 16384"
definition MAX_LOCAL_FRAME_BYTES :: nat where "MAX_LOCAL_FRAME_BYTES = 4096"

text \<open>
  Every error of \<^verbatim>\<open>json.loads\<close> becomes a \<^verbatim>\<open>ValueError\<close>. A text too deep for the interpreter's stack raises
  \<^verbatim>\<open>RecursionError\<close> there and the same \<^verbatim>\<open>ValueError\<close> follows; here it fails the depth check.
\<close>

definition decode_json_line :: "string \<Rightarrow> nat \<Rightarrow> string \<Rightarrow> dict result" where
  "decode_json_line raw limit context =
     bind_r (raise_if (length raw > limit) (ValueError (context @ '' message exceeds byte limit''))) (\<lambda>_.
     bind_r (raise_if (\<not> endswith raw [CHR 0x0A] \<or> count_list raw CHR 0x0A \<noteq> 1)
       (ValueError (context @ '' must end in exactly one newline''))) (\<lambda>_.
     bind_r (case utf8_decode (butlast raw) of
               None \<Rightarrow> Inl (ValueError (''invalid '' @ context @ '' JSON''))
             | Some t \<Rightarrow> (case loads True t of
                   Inl _ \<Rightarrow> Inl (ValueError (''invalid '' @ context @ '' JSON''))
                 | Inr v \<Rightarrow> Inr v)) (\<lambda>v.
     bind_r (require_json_depth v) (\<lambda>_.
     case v of JObj d \<Rightarrow> Inr d | _ \<Rightarrow> Inl (ValueError (context @ '' must be a JSON object''))))))"

text \<open>The payloads hold no floats, so \<^verbatim>\<open>allow_nan=False\<close> has nothing to refuse.\<close>

definition encode_json_line :: "dict \<Rightarrow> nat \<Rightarrow> string \<Rightarrow> string result" where
  "encode_json_line payload limit context =
     bind_r (raise_if (\<not> ints_printable (JObj payload)) (ValueError (''invalid '' @ context @ '' value''))) (\<lambda>_.
     let raw = utf8_encode (dumps (\<lambda>_. []) (JObj payload)) @ [CHR 0x0A] in
     bind_r (raise_if (length raw > limit) (ValueError (context @ '' message exceeds byte limit''))) (\<lambda>_.
     Inr raw))"

section \<open>The messages\<close>

definition decode_local_frame :: "string \<Rightarrow> LocalEvent result" where
  "decode_local_frame raw = bind_r (decode_json_line raw MAX_LOCAL_FRAME_BYTES ''local frame'') local_decoder"

definition encode_local_frame :: "LocalEvent \<Rightarrow> string result" where
  "encode_local_frame e =
     bind_r (encode_json_line (local_to_dict e) MAX_LOCAL_FRAME_BYTES ''local frame'') (\<lambda>raw.
     bind_r (decode_local_frame raw) (\<lambda>_. Inr raw))"

definition decode_request :: "string \<Rightarrow> ServiceRequest result" where
  "decode_request raw = bind_r (decode_json_line raw MAX_MESSAGE_BYTES ''request'') decode_request_payload"

definition encode_request :: "ServiceRequest \<Rightarrow> string result" where
  "encode_request r =
     bind_r (request_to_dict r) (\<lambda>p.
     bind_r (encode_json_line p MAX_MESSAGE_BYTES ''request'') (\<lambda>raw.
     bind_r (decode_request raw) (\<lambda>_. Inr raw)))"

definition decode_response :: "string \<Rightarrow> ServiceResponse result" where
  "decode_response raw = bind_r (decode_json_line raw MAX_RESPONSE_BYTES ''response'') decode_response_payload"

definition encode_response :: "ServiceResponse \<Rightarrow> string result" where
  "encode_response r =
     bind_r (response_to_dict r) (\<lambda>p.
     bind_r (safe_response_tree (case r of RegisterResponse _ _ \<Rightarrow> True | _ \<Rightarrow> False) (JObj p)) (\<lambda>_.
     bind_r (encode_json_line p MAX_RESPONSE_BYTES ''response'') (\<lambda>raw.
     bind_r (decode_response raw) (\<lambda>_. Inr raw))))"

definition FALLBACK_ERROR_BYTES :: string where
  "FALLBACK_ERROR_BYTES =
     (case encode_response (ErrorResponse INTERNAL_ERROR (ERROR_MESSAGES INTERNAL_ERROR)) of
        Inr raw \<Rightarrow> raw | Inl _ \<Rightarrow> [])"

section \<open>Payloads without floats, repeated keys or deep nesting\<close>

fun plain :: "nat \<Rightarrow> json \<Rightarrow> bool" where
  "plain 0 v = False"
| "plain (Suc n) (JArr vs) = (\<forall>v \<in> set vs. plain n v)"
| "plain (Suc n) (JObj kvs) = (distinct (map fst kvs) \<and> (\<forall>(k, v) \<in> set kvs. plain n v))"
| "plain (Suc n) (JFloat x) = False"
| "plain (Suc n) JNull = True"
| "plain (Suc n) (JBool b) = True"
| "plain (Suc n) (JInt i) = True"
| "plain (Suc n) (JStr t) = True"

lemma plain_depth: "plain n v \<Longrightarrow> json_depth v \<le> n"
proof (induction n v rule: plain.induct)
  case (2 n vs)
  then have "foldr max (map json_depth vs) 0 \<le> n" by (induction vs) auto
  then show ?case by simp
next
  case (3 n kvs)
  then have "\<forall>(k, v) \<in> set kvs. json_depth v \<le> n" by fastforce
  then have "foldr max (map (\<lambda>(k, v). json_depth v) kvs) 0 \<le> n" by (induction kvs) auto
  then show ?case by simp
qed auto

lemma plain_ok: "plain n v \<Longrightarrow> ints_printable v \<Longrightarrow> json_ok fr v"
proof (induction n v rule: plain.induct)
  case (3 n kvs)
  then show ?case by fastforce
qed auto

lemma newline_code: "CHR 0x0A = c \<longleftrightarrow> code c = 10"
  using code_eq_iff [of "CHR 0x0A" c] by (auto simp: code_def)

lemma newline_escape: "CHR 0x0A \<notin> set (escape_char c)" "CHR 0x0A \<notin> set (ascii_escape c)"
proof -
  have "CHR 0x0A \<noteq> hex_digit k" if "k < 16" for k
  proof -
    have "list_all (\<lambda>c. CHR 0x0A \<noteq> c) hex_alphabet" "length hex_alphabet = 16" by code_simp+
    then show ?thesis using that by (simp add: hex_digit_def list_all_length)
  qed
  then show "CHR 0x0A \<notin> set (escape_char c)" "CHR 0x0A \<notin> set (ascii_escape c)"
    using code_less [of c] by (auto simp: escape_char_def ascii_escape_def)
qed

lemma dumps_chars:
  assumes esc: "\<And>c x. x \<in> set (esc c) \<Longrightarrow> P x" and digit: "\<And>x. is_digit x \<Longrightarrow> P x"
    and marks: "\<forall>x \<in> set (CHR 0x22 # ''-,:[]{}nultrefas''). P x"
  shows "plain n v \<Longrightarrow> \<forall>x \<in> set (dumps_with esc fr v). P x"
proof (induction n v rule: plain.induct)
  case (2 n vs)
  then show ?case using marks set_join [of "'',''" "map (dumps_with esc fr) vs"] by fastforce
next
  case (3 n kvs)
  let ?ms = "map (\<lambda>(k, v). json_string_with esc k @ '':'' @ dumps_with esc fr v) kvs"
  have "\<forall>x \<in> set (json_string_with esc k). P x" for k using esc marks by (auto simp: json_string_with_def)
  with 3 marks have "\<forall>m \<in> set ?ms. \<forall>x \<in> set m. P x" by fastforce
  then show ?case using marks set_join [of "'',''" ?ms] by fastforce
next
  case (7 n i)
  have "\<forall>c \<in> set (nat_text k). P c" for k using nat_text_digits [of k] digit by (simp add: list_all_iff)
  then show ?case using marks by (auto simp: int_text_def)
qed (use esc marks in \<open>auto simp: json_string_with_def\<close>)

lemma newline_dumps:
  assumes "\<And>c. CHR 0x0A \<notin> set (esc c)" "plain n v"
  shows "CHR 0x0A \<notin> set (dumps_with esc fr v)"
proof -
  have "\<not> is_digit CHR 0x0A" by (simp add: is_digit_def code_def)
  then show ?thesis using assms dumps_chars [of esc "\<lambda>x. CHR 0x0A \<noteq> x" n v fr] by auto
qed

lemma ascii_dumps:
  assumes "plain n v"
  shows "\<forall>x \<in> set (dumps_with ascii_escape fr v). code x < 128"
proof (rule dumps_chars [OF _ _ _ assms])
  have h: "code (hex_digit k) < 128" if "k < 16" for k
  proof -
    have "list_all (\<lambda>c. code c < 128) hex_alphabet" "length hex_alphabet = 16" by code_simp+
    then show ?thesis using that by (simp add: hex_digit_def list_all_length)
  qed
  show "code x < 128" if "x \<in> set (ascii_escape c)" for c x
  proof -
    have "code c div 16 < 16" "code c mod 16 < 16" using code_less [of c] by auto
    from this [THEN h] that show ?thesis by (auto simp: ascii_escape_def escape_char_def code_def split: if_splits)
  qed
qed (auto simp: is_digit_def code_def)

lemma utf8_ascii: "\<forall>x \<in> set s. code x < 128 \<Longrightarrow> utf8_encode s = s"
  by (induction s) (auto simp: utf8_encode_def)

lemma newline_utf8: "CHR 0x0A \<in> set (utf8_encode s) \<longleftrightarrow> CHR 0x0A \<in> set s"
proof -
  have "CHR 0x0A \<in> set (if code c < 128 then [c] else [char_of (192 + code c div 64), char_of (128 + code c mod 64)])
      \<longleftrightarrow> CHR 0x0A = c" for c
  proof (cases "code c < 128")
    case False
    then have "code (char_of (192 + code c div 64) :: char) \<noteq> 10" "code (char_of (128 + code c mod 64) :: char) \<noteq> 10" "code c \<noteq> 10"
      using code_less [of c] by (simp_all add: code_char_of)
    then have "CHR 0x0A \<noteq> char_of (192 + code c div 64)" "CHR 0x0A \<noteq> char_of (128 + code c mod 64)" "CHR 0x0A \<noteq> c"
      unfolding newline_code by auto
    then show ?thesis by (simp only: if_not_P [OF False] list.set insert_iff empty_iff simp_thms)
  qed simp
  moreover have "x \<in> set (concat (map f s)) \<longleftrightarrow> x \<in> set s" if "\<And>c. x \<in> set (f c) \<longleftrightarrow> x = c"
    for x :: char and f using that by auto
  ultimately show ?thesis unfolding utf8_encode_def by blast
qed

section \<open>Lines\<close>

lemma decode_printed_line:
  assumes "escaping esc" "\<And>c. CHR 0x0A \<notin> set (esc c)" "plain MAX_JSON_NESTING (JObj p)" "ints_printable (JObj p)"
    "raw = utf8_encode (dumps_with esc (\<lambda>_. []) (JObj p)) @ [CHR 0x0A]" "length raw \<le> limit"
  shows "decode_json_line raw limit context = Inr p"
proof -
  let ?t = "dumps_with esc (\<lambda>_. []) (JObj p)"
  have "CHR 0x0A \<notin> set (utf8_encode ?t)"
    using newline_dumps [OF assms(2,3)] by (simp only: newline_utf8 not_False_eq_True)
  then have "count_list raw CHR 0x0A = 1" by (simp add: assms(5) count_list_0_iff del: dumps_with.simps)
  moreover have "loads True ?t = Inr (JObj p)" using escaping.loads_dumps [OF assms(1)] plain_ok [OF assms(3,4)] by blast
  moreover have "require_json_depth (JObj p) = Inr ()" using plain_depth [OF assms(3)] by (simp only: require_json_depth_iff)
  ultimately show ?thesis using assms(5,6)
    by (simp add: decode_json_line_def utf8_decode_encode endswith_iff del: dumps_with.simps)
qed

lemma decode_encoded_line:
  assumes "encode_json_line p limit context = Inr raw" "plain MAX_JSON_NESTING (JObj p)"
  shows "decode_json_line raw limit context = Inr p"
proof -
  have "raw = utf8_encode (dumps (\<lambda>_. []) (JObj p)) @ [CHR 0x0A]" "length raw \<le> limit" "ints_printable (JObj p)"
    using assms(1) by (auto simp: encode_json_line_def Let_def simp del: dumps_with.simps ints_printable.simps)
  with assms(2) show ?thesis
    by (intro decode_printed_line [OF plain_text.escaping_axioms newline_escape(1)])
qed

lemma decode_json_line_Inr:
  assumes "decode_json_line raw limit context = Inr d"
  shows "length raw \<le> limit \<and> (\<exists>t. raw = t @ [CHR 0x0A] \<and> CHR 0x0A \<notin> set t) \<and> json_depth (JObj d) \<le> MAX_JSON_NESTING"
proof -
  from assms obtain v where "length raw \<le> limit" "endswith raw [CHR 0x0A]" "count_list raw CHR 0x0A = 1"
    "require_json_depth v = Inr ()" "(case v of JObj d \<Rightarrow> Inr d | _ \<Rightarrow> Inl (ValueError (context @ '' must be a JSON object''))) = Inr d"
    by (auto simp: decode_json_line_def)
  moreover from this(5) have "v = JObj d" by (simp split: json.splits)
  moreover from calculation(2) obtain t where "raw = t @ [CHR 0x0A]" by (auto simp: endswith_iff)
  ultimately show ?thesis by (auto simp: require_json_depth_iff count_list_0_iff simp del: json_depth.simps)
qed

text \<open>A codec of payloads, whose payloads are plain, gives a codec of lines.\<close>

locale line_codec = message_codec enc dec wf wf' view
  for enc :: "'a \<Rightarrow> dict result" and dec :: "dict \<Rightarrow> 'b result" and wf :: "'a \<Rightarrow> bool" and wf' :: "'b \<Rightarrow> bool"
    and view :: "'a \<Rightarrow> 'b" +
  fixes limit :: nat and context_name :: string
  assumes enc_plain: "enc x = Inr p \<Longrightarrow> plain MAX_JSON_NESTING (JObj p)"
begin

definition write_line :: "'a \<Rightarrow> string result" where
  "write_line x = bind_r (enc x) (\<lambda>p. encode_json_line p limit context_name)"

definition read_line :: "string \<Rightarrow> 'b result" where
  "read_line raw = bind_r (decode_json_line raw limit context_name) dec"

lemma read_written: "wf x \<Longrightarrow> write_line x = Inr raw \<Longrightarrow> read_line raw = Inr (view x)"
  using dec_enc decode_encoded_line enc_plain by (fastforce simp: write_line_def read_line_def)

lemma checked_line: "wf x \<Longrightarrow> bind_r (write_line x) (\<lambda>raw. bind_r (read_line raw) (\<lambda>_. Inr raw)) = write_line x"
  using read_written by (cases "write_line x") auto

lemma read_line_wf: "read_line raw = Inr y \<Longrightarrow>
    wf' y \<and> length raw \<le> limit \<and> (\<exists>t. raw = t @ [CHR 0x0A] \<and> CHR 0x0A \<notin> set t)"
  using dec_wf decode_json_line_Inr by (fastforce simp: read_line_def)

end

text \<open>The payloads of the three kinds of messages are plain.\<close>

lemma plain_mono: "plain n v \<Longrightarrow> n \<le> m \<Longrightarrow> plain m v"
proof (induction n v arbitrary: m rule: plain.induct)
  case (2 n vs)
  then show ?case by (cases m) auto
next
  case (3 n kvs)
  then show ?case by (cases m) fastforce+
qed (auto simp: Suc_le_eq gr0_conv_Suc dest!: less_imp_Suc_add)

lemma plain_options [simp]:
  "plain (Suc n) (json_option text_json t)" "plain (Suc n) (json_option JStr s)"
  "plain (Suc n) (opt_str s)" "plain (Suc n) (opt_int i)" "plain (Suc n) (text_json u)"
  by (cases t; cases s; cases i; simp add: json_option_def opt_str_def opt_int_def text_json_def)+

lemma plain_local: "plain (Suc (Suc 0)) (JObj (local_to_dict e))"
  by (cases "le_type e") (simp_all add: local_to_dict_def)

lemma plain_identity: "plain (Suc (Suc n)) (identity_to_dict i)"
  by (simp add: identity_to_dict_def)

lemma plain_request: "request_to_dict r = Inr p \<Longrightarrow> plain (Suc (Suc (Suc 0))) (JObj p)"
proof (cases r)
  case (Event e)
  assume "request_to_dict r = Inr p"
  with Event show ?thesis by (cases "ev_operation e") (auto simp: event_fields_def plain_identity)
qed (auto simp: plain_identity split: option.splits)

lemma plain_item: "item_dict i = Inr v \<Longrightarrow> plain (Suc (Suc n)) v"
  by (auto simp: item_dict_def split: option.splits ReplayDisplay.splits)

lemma plain_response: "response_to_dict r = Inr p \<Longrightarrow> plain (Suc (Suc (Suc (Suc 0)))) (JObj p)"
proof (cases r)
  case (RestoreListResponse w its ds)
  assume "response_to_dict r = Inr p"
  with RestoreListResponse obtain vs xs ds' where "traverse item_dict xs = Inr vs"
    "p = ok_head ''restore_list'' @ [(''workspace_id'', json_option JStr w), (''items'', JArr vs),
       (''diagnostics'', JArr (map text_json ds'))]" by auto
  moreover from this(1) have "\<forall>v \<in> set vs. plain (Suc (Suc 0)) v" by (auto dest!: traverse_InrD plain_item)
  ultimately show ?thesis by (simp add: ok_head_def)
qed (auto simp: ok_head_def outcome_dict_def)

interpretation request_line: line_codec request_to_dict decode_request_payload wf_request wf_request "\<lambda>r. r"
  MAX_MESSAGE_BYTES "''request''"
  by unfold_locales (auto intro: plain_mono [OF plain_request] simp: MAX_JSON_NESTING_def)

interpretation response_line: line_codec response_to_dict decode_response_payload "wf_response redacted_display"
  "wf_response decoded_display" wire_view MAX_RESPONSE_BYTES "''response''"
  by unfold_locales (auto intro: plain_mono [OF plain_response] simp: MAX_JSON_NESTING_def)

interpretation frame_line: line_codec "\<lambda>e. Inr (local_to_dict e)" local_decoder wf_local wf_local "\<lambda>e. e"
  MAX_LOCAL_FRAME_BYTES "''local frame''"
  by unfold_locales (auto intro: plain_mono [OF plain_local] simp: MAX_JSON_NESTING_def)

section \<open>Sizes\<close>

lemma length_join: "length (join sep ws) = sum_list (map length ws) + (length ws - 1) * length sep"
  by (induction sep ws rule: join.induct) auto

lemma length_utf8: "length s \<le> length (utf8_encode s)"
proof -
  have "length s \<le> length (concat (map f s))" if "\<And>c. 1 \<le> length (f c)" for f :: "char \<Rightarrow> string"
    using that by (induction s) (auto simp: le_Suc_eq, metis Suc_leI add_mono le_add_same_cancel2 plus_1_eq_Suc zero_le that)
  then show ?thesis unfolding utf8_encode_def by simp
qed

lemma small_int_printable: "\<bar>n\<bar> \<le> MAX_INTEGER \<Longrightarrow> ints_printable (JInt n)"
proof -
  assume "\<bar>n\<bar> \<le> MAX_INTEGER"
  then have "nat \<bar>n\<bar> < 2 ^ 63" by (simp add: MAX_INTEGER_def nat_less_iff)
  then have "nat \<bar>n\<bar> < 10 ^ 19" by simp
  then have "length (nat_text (nat \<bar>n\<bar>)) \<le> 19" using nat_text_length [of 19 "nat \<bar>n\<bar>"] by simp
  then show ?thesis by (simp add: MAX_INT_DIGITS_def)
qed

lemma request_ints_printable: "wf_request r \<Longrightarrow> request_to_dict r = Inr p \<Longrightarrow> ints_printable (JObj p)"
proof -
  have one: "ints_printable (JInt 1)" "ints_printable (JInt 0)"
    by (rule small_int_printable, simp add: MAX_INTEGER_def)+
  have identity: "ints_printable (identity_to_dict i)" if "wire_identity i" for i
    using that small_int_printable [of "pid i"] small_int_printable [of "start_time i"]
    by (simp add: identity_to_dict_def wire_identity_def MAX_INTEGER_def)
  have options: "ints_printable (opt_str s)" for s by (cases s) (simp_all add: opt_str_def)
  have opt: "present_iff k extra (\<lambda>n. 1 \<le> n \<and> n \<le> MAX_INTEGER) x \<Longrightarrow> ints_printable (opt_int x)"
    "present_iff k extra (\<lambda>n. 0 \<le> n \<and> n \<le> 255) x \<Longrightarrow> ints_printable (opt_int x)" for k extra x
    using small_int_printable
    by (cases x; fastforce simp: present_iff_def opt_int_def MAX_INTEGER_def simp del: ints_printable.simps(1))+
  assume "wf_request r" "request_to_dict r = Inr p"
  then show ?thesis
  proof (cases r)
    case (Event e)
    with \<open>wf_request r\<close> have "ints_printable (opt_int (ev_command_sequence e))" "ints_printable (opt_int (ev_exit_status e))"
      "ints_printable (JInt (ev_sequence e))" "wire_identity (ev_identity e)"
      using small_int_printable [of "ev_sequence e"] opt
      by (auto simp: wf_event_def optional_fields_def simp del: ints_printable.simps(1))
    with Event \<open>request_to_dict r = Inr p\<close> one identity options show ?thesis
      by (cases "ev_operation e") (auto simp: event_fields_def simp del: ints_printable.simps(1))
  qed (auto simp: one identity simp del: ints_printable.simps(1) split: option.splits)
qed

section \<open>Properties of the lines\<close>

lemma decode_request_line: "decode_request raw = request_line.read_line raw"
  by (simp add: decode_request_def request_line.read_line_def)

text \<open>C20: a well-formed request sent as a line arrives as itself, and the only way to fail to send one is the bound on
  its bytes.\<close>
theorem request_line_roundtrip:
  assumes "wf_request r"
  shows "(\<forall>raw. encode_request r = Inr raw \<longrightarrow> decode_request raw = Inr r) \<and>
    (\<forall>e. encode_request r = Inl e \<longrightarrow> e = ValueError ''request message exceeds byte limit'')"
proof -
  obtain p where p: "request_to_dict r = Inr p" using request_enc_total [OF assms] ..
  have *: "decode_request raw = Inr r" if "encode_json_line p MAX_MESSAGE_BYTES ''request'' = Inr raw" for raw
    using request_line.read_written [OF assms, of raw] that p
    by (simp add: decode_request_line request_line.write_line_def)
  show ?thesis
  proof (cases "encode_json_line p MAX_MESSAGE_BYTES ''request''")
    case (Inl e)
    then show ?thesis using p request_ints_printable [OF assms p]
      by (auto simp: encode_request_def encode_json_line_def Let_def raise_if_def split: if_splits)
  next
    case (Inr raw)
    with p * show ?thesis by (auto simp: encode_request_def)
  qed
qed

lemma sample_line: "\<exists>raw. encode_request StatusRequest = Inr raw \<and> decode_request raw = Inr StatusRequest"
proof -
  have "ints_printable (JInt 1)" by (rule small_int_printable) (simp add: MAX_INTEGER_def)
  then have "\<exists>raw. encode_json_line [(''schema_version'', JInt 1), (''operation'', JStr ''status'')] MAX_MESSAGE_BYTES ''request'' = Inr raw"
    by (simp add: encode_json_line_def json_string_with_def escape_char_def utf8_encode_def code_def int_text_def
        nat_text.simps MAX_MESSAGE_BYTES_def Let_def del: ints_printable.simps(1))
  then obtain raw where "encode_json_line [(''schema_version'', JInt 1), (''operation'', JStr ''status'')] MAX_MESSAGE_BYTES ''request'' = Inr raw" ..
  moreover from this have "decode_request raw = Inr StatusRequest"
    using request_line.read_written [of StatusRequest raw]
    by (simp add: decode_request_line request_line.write_line_def)
  ultimately show ?thesis by (auto simp: encode_request_def)
qed

theorem request_line_roundtrip_witness:
  "\<exists>raw. encode_request StatusRequest = Inr raw \<and> decode_request raw = Inr StatusRequest"
  using sample_line request_line_roundtrip [of StatusRequest] by auto

text \<open>C21: whatever line the service accepts as a request is a typed request within all bounds, and the line has at most
  16384 bytes, ends in a newline and holds no other.\<close>
theorem decoded_request_typed:
  assumes "decode_request raw = Inr r"
  shows "wf_request r \<and> length raw \<le> 16384 \<and> (\<exists>t. raw = t @ [CHR 0x0A] \<and> CHR 0x0A \<notin> set t)"
  using request_line.read_line_wf [of raw r] assms unfolding decode_request_line MAX_MESSAGE_BYTES_def by blast

theorem decoded_request_typed_witness:
  "\<exists>raw. decode_request raw = Inr StatusRequest \<and> wf_request StatusRequest \<and> length raw \<le> 16384"
proof -
  obtain raw where "decode_request raw = Inr StatusRequest" using sample_line by blast
  with decoded_request_typed [OF this] show ?thesis by blast
qed

section \<open>Long lists do not fit\<close>

lemma length_json_string: "2 + length s \<le> length (json_string s)"
proof -
  have "length s \<le> length (concat (map escape_char s))" for s
  proof (induction s)
    case (Cons c s)
    have "1 \<le> length (escape_char c)" by (simp add: escape_char_def)
    with Cons show ?case by simp
  qed simp
  then show ?thesis by (simp add: json_string_with_def)
qed

lemma length_int_text: "1 \<le> length (int_text i)"
  using nat_text_digits by (auto simp: int_text_def Suc_le_eq)

lemma length_option_text: "2 \<le> length (dumps fr (json_option text_json t))"
  using length_json_string by (cases t) (auto simp: json_option_def text_json_def intro: le_trans [OF _ length_json_string])

lemma length_object: "(\<Sum>(k, v)\<leftarrow>kvs. length k + 4 + length (dumps fr v)) + 1 \<le> length (dumps fr (JObj kvs))"
proof -
  have *: "(\<Sum>(k, v)\<leftarrow>kvs. length k + 3 + length (dumps fr v)) \<le>
      sum_list (map length (map (\<lambda>(k, v). json_string k @ '':'' @ dumps fr v) kvs))"
  proof (induction kvs)
    case (Cons kv kvs)
    with length_json_string [of "fst kv"] show ?case by (auto simp: case_prod_unfold)
  qed simp
  have "(\<Sum>(k, v)\<leftarrow>kvs. length k + 4 + length (dumps fr v)) =
      (\<Sum>(k, v)\<leftarrow>kvs. length k + 3 + length (dumps fr v)) + length kvs"
    by (induction kvs) auto
  then show ?thesis using * by (simp add: length_join)
qed

lemma item_size:
  assumes "item_dict i = Inr v"
  shows "190 \<le> length (dumps fr v)"
proof -
  obtain rd where rd: "rd = JNull \<or> (\<exists>s. rd = JStr s)" and v: "v = JObj [(''item_id'', JStr (v_item_id i)), (''shell_id'', JStr (v_shell_id i)),
       (''reason'', text_json (v_reason i)), (''level'', JStr (RestorationLevel_value (v_level i))),
       (''directory'', JStr (v_directory i)),
       (''directory_warning'', json_option text_json (v_directory_warning i)),
       (''replay_display'', rd), (''replay_eligible'', JBool (v_replay_eligible i)),
       (''resume_command'', JStr (v_resume_command i)), (''resume_summary'', JStr (v_resume_summary i)),
       (''resume_session_count'', JInt (v_resume_session_count i))]"
    using assms by (auto simp: item_dict_def split: option.splits ReplayDisplay.splits)
  have s: "2 \<le> length (json_string t)" for t using length_json_string [of t] by simp
  have "2 \<le> length (dumps fr rd)" using rd s by auto
  moreover have "4 \<le> length (dumps fr (JBool b))" for b by simp
  ultimately show ?thesis
    using length_object [of fr "[(''item_id'', JStr (v_item_id i)), (''shell_id'', JStr (v_shell_id i)),
       (''reason'', text_json (v_reason i)), (''level'', JStr (RestorationLevel_value (v_level i))),
       (''directory'', JStr (v_directory i)),
       (''directory_warning'', json_option text_json (v_directory_warning i)),
       (''replay_display'', rd), (''replay_eligible'', JBool (v_replay_eligible i)),
       (''resume_command'', JStr (v_resume_command i)), (''resume_summary'', JStr (v_resume_summary i)),
       (''resume_session_count'', JInt (v_resume_session_count i))]"]
      s [of "v_item_id i"] s [of "v_shell_id i"] s [of "text_value (v_reason i)"] s [of "RestorationLevel_value (v_level i)"]
      s [of "v_directory i"] length_option_text [of fr "v_directory_warning i"] s [of "v_resume_command i"]
      s [of "v_resume_summary i"] length_int_text [of "v_resume_session_count i"]
    unfolding v by (simp add: text_json_def del: dumps_with.simps(10))
qed

lemma items_size: "traverse item_dict its = Inr vs \<Longrightarrow> 190 * length its \<le> sum_list (map (\<lambda>v. length (dumps fr v)) vs)"
proof (induction its arbitrary: vs)
  case (Cons i its)
  then obtain v ws where "item_dict i = Inr v" "traverse item_dict its = Inr ws" "vs = v # ws" by auto
  with Cons.IH [of ws] item_size [of i v fr] show ?case by simp
qed simp

text \<open>C28: a list of 87 or more recovery items never fits into a response line, although a workspace may hold 256 items
  and a response may list as many.\<close>
theorem long_listing_not_encodable:
  assumes "87 \<le> length its"
  shows "\<exists>e. encode_response (RestoreListResponse w its ds) = Inl e"
proof (cases "encode_response (RestoreListResponse w its ds)")
  case (Inr raw)
  then obtain p where p: "response_to_dict (RestoreListResponse w its ds) = Inr p"
    and l: "encode_json_line p MAX_RESPONSE_BYTES ''response'' = Inr raw"
    by (auto simp: encode_response_def)
  from p obtain vs ds' where vs: "traverse item_dict its = Inr vs"
    and p': "p = ok_head ''restore_list'' @ [(''workspace_id'', json_option JStr w), (''items'', JArr vs),
       (''diagnostics'', JArr (map text_json ds'))]"
    by (auto simp: bounded_typed_sequence_def split: if_splits)
  let ?d = "dumps (\<lambda>_. [])"
  have "sum_list (map (\<lambda>v. length (?d v)) vs) \<le> length (?d (JArr vs))"
    by (simp add: length_join comp_def)
  also have "\<dots> \<le> length (?d (JObj p))" using length_object [of "\<lambda>_. []" p] by (simp add: p' ok_head_def del: dumps_with.simps)
  also have "\<dots> < length raw"
    using l length_utf8 [of "?d (JObj p)"] by (auto simp: encode_json_line_def Let_def simp del: dumps_with.simps)
  also have "length raw \<le> 16384"
    using l by (auto simp: encode_json_line_def Let_def MAX_RESPONSE_BYTES_def simp del: dumps_with.simps)
  finally show ?thesis using items_size [OF vs, of "\<lambda>_. []"] assms by simp
qed blast

definition sample_view :: RecoveryItemView where
  "sample_view = \<lparr>v_item_id = ''i'', v_shell_id = replicate 16 CHR ''s'', v_reason = SafeText ''previous_boot'',
     v_level = PARTIAL, v_directory = ''/'', v_directory_warning = None, v_replay_display = None,
     v_replay_eligible = False, v_resume_command = [], v_resume_summary = [], v_resume_session_count = 0\<rparr>"

theorem long_listing_not_encodable_witness:
  "\<exists>e. encode_response (RestoreListResponse (Some ''w'') (replicate 87 sample_view) []) = Inl e"
  using long_listing_not_encodable [of "replicate 87 sample_view"] by simp

section \<open>Responses and frames\<close>

lemma encode_response_line:
  assumes "wf_response redacted_display r" "encode_response r = Inr raw"
  shows "decode_response raw = Inr (wire_view r)"
proof -
  obtain p where "response_to_dict r = Inr p" "encode_json_line p MAX_RESPONSE_BYTES ''response'' = Inr raw"
    using assms(2) by (auto simp: encode_response_def)
  then show ?thesis using response_line.read_written [OF assms(1), of raw]
    by (simp add: decode_response_def response_line.write_line_def response_line.read_line_def)
qed

lemma encode_response_typed: "encode_response r = Inr raw \<Longrightarrow>
    \<exists>v. decode_response raw = Inr v \<and> wf_response decoded_display v \<and> length raw \<le> MAX_RESPONSE_BYTES \<and>
      (\<exists>t. raw = t @ [CHR 0x0A] \<and> CHR 0x0A \<notin> set t)"
  using response_line.read_line_wf
  by (fastforce simp: encode_response_def decode_response_def response_line.read_line_def)

lemma encode_frame_line: "wf_local e \<Longrightarrow> encode_local_frame e = Inr raw \<Longrightarrow> decode_local_frame raw = Inr e"
  using frame_line.read_written [of e raw]
  by (auto simp: encode_local_frame_def decode_local_frame_def frame_line.write_line_def frame_line.read_line_def)

lemma decode_frame_wf: "decode_local_frame raw = Inr e \<Longrightarrow> wf_local e"
  using frame_line.read_line_wf [of raw e] by (simp add: decode_local_frame_def frame_line.read_line_def)

end
