(* ===== verification/Server.thy ===== *)
theory Server
  imports Engine Checkpoint Workspace Recovery Wire
begin

text \<open>
  The service of \<^verbatim>\<open>server.py\<close>: the handlers of the requests over the engine, the checkpoint manager, the store and the
  terminals, and the loop that answers the lines of a connection. A handler is an operation on the state of the
  server that may raise. Requests run one after the other: the handlers that change the engine or the manager hold
  the dispatch lock, and an operation on a workspace holds the lock of that workspace. The parts of a restore that
  run under the dispatch lock and the part that runs without it are separate definitions.
\<close>

section \<open>The service and its state\<close>

text \<open>
  What the service is started with, and what the system answers: randomness, clocks and file system calls are
  functions of a counter of calls. \<open>sv_elapse n m\<close> is the manager at the moment a flush stops waiting.
\<close>

record service =
  sv_uid :: int
  sv_adapter :: "Adapter option"
  sv_boot :: string
  sv_home :: string
  sv_machine :: machine
  sv_proc :: proc_fs
  sv_probe :: "(ProcessIdentity \<Rightarrow> ProcessProbe result) option"
  sv_env :: env
  sv_io :: "nat \<Rightarrow> io"
  sv_config :: CheckpointConfig
  sv_now :: "nat \<Rightarrow> rat"
  sv_token :: "nat \<Rightarrow> string"
  sv_elapse :: "nat \<Rightarrow> CheckpointManager \<Rightarrow> CheckpointManager"

record Server =
  srv_engine :: EngineState
  srv_checkpoints :: CheckpointManager
  srv_store :: Store
  srv_runtime :: runtime
  srv_calls :: nat

definition tick :: "(Server, nat) act" where
  "tick = (\<lambda>s. (Inr (srv_calls s), s\<lparr>srv_calls := Suc (srv_calls s)\<rparr>))"

definition on_store :: "service \<Rightarrow> (env \<Rightarrow> io \<Rightarrow> 'a store_act) \<Rightarrow> (Server, 'a) act" where
  "on_store sv f = bind_s tick (\<lambda>n. on_part srv_store (\<lambda>t s. s\<lparr>srv_store := t\<rparr>) (f (sv_env sv) (sv_io sv n)))"

definition on_runtime :: "(runtime, 'a) act \<Rightarrow> (Server, 'a) act" where
  "on_runtime = on_part srv_runtime (\<lambda>t s. s\<lparr>srv_runtime := t\<rparr>)"

definition process_probe :: "service \<Rightarrow> ProcessIdentity \<Rightarrow> ProcessProbe result" where
  "process_probe sv i = (case sv_probe sv of Some f \<Rightarrow> f i | None \<Rightarrow> identity_status (sv_proc sv) i (sv_boot sv))"

definition error_response :: "ErrorCode \<Rightarrow> ServiceResponse" where
  "error_response c = ErrorResponse c (ERROR_MESSAGES c)"

definition storage_error :: "py_error \<Rightarrow> bool" where
  "storage_error e \<longleftrightarrow> is_OSError e \<or> is_ValueError e"

section \<open>Registration and events\<close>

definition mark :: "service \<Rightarrow> int \<Rightarrow> (Server, unit) act" where
  "mark sv gen =
     bind_s tick (\<lambda>n.
     bind_s (gets srv_checkpoints) (\<lambda>m.
     bind_s (lift_s (mark_dirty (sv_config sv) (sv_now sv n) gen m)) (\<lambda>m'.
     modify (\<lambda>s. s\<lparr>srv_checkpoints := m'\<rparr>))))"

definition dispatch_register :: "service \<Rightarrow> int option \<Rightarrow> RegisterRequest \<Rightarrow> (Server, ServiceResponse) act" where
  "dispatch_register sv peer_pid req =
     bind_s tick (\<lambda>n.
     bind_s (gets srv_engine) (\<lambda>st.
     case register_shell st req (sv_token sv n) peer_pid of
       Inl e \<Rightarrow> if is_ValueError e then ret (error_response INVALID_REQUEST) else raise_s e
     | Inr (updated, capability) \<Rightarrow>
         bind_s (mark sv (dirty_generation updated)) (\<lambda>_.
         bind_s (modify (\<lambda>s. s\<lparr>srv_engine := updated\<rparr>)) (\<lambda>_.
         case map_of (registrations updated) (reg_shell_id req) of
           None \<Rightarrow> raise_s (KeyError (reg_shell_id req))
         | Some r \<Rightarrow> ret (RegisterResponse capability (rg_last_sequence r))))))"

fun error_text :: "py_error \<Rightarrow> string" where
  "error_text (ValueError t) = t"
| "error_text (UnsupportedSchemaVersion t) = t"
| "error_text (JSONDecodeError t) = t"
| "error_text _ = []"

definition event_error :: "py_error \<Rightarrow> ErrorCode" where
  "event_error e =
     (if contains (error_text e) ''sequence'' then SEQUENCE_REJECTED
      else if contains (error_text e) ''registration'' \<or> contains (error_text e) ''authority'' \<or>
        contains (error_text e) ''identity'' then UNAUTHORIZED
      else INVALID_REQUEST)"

definition dispatch_event :: "service \<Rightarrow> EventRequest \<Rightarrow> (Server, ServiceResponse) act" where
  "dispatch_event sv req =
     bind_s (gets srv_engine) (\<lambda>st.
     case apply_event st req of
       Inl e \<Rightarrow> if is_ValueError e then ret (error_response (event_error e)) else raise_s e
     | Inr updated \<Rightarrow>
         bind_s (mark sv (dirty_generation updated)) (\<lambda>_.
         bind_s (modify (\<lambda>s. s\<lparr>srv_engine := updated\<rparr>)) (\<lambda>_.
         ret (EventResponse (ev_sequence req)))))"

section \<open>Status and snapshot\<close>

definition recovery_count :: "RecoveryRecord option \<Rightarrow> int" where
  "recovery_count recovery =
     (case recovery of
        None \<Rightarrow> 0
      | Some r \<Rightarrow> max 0 (int (length (items r)) - int (length (completed_item_ids r))))"

definition dispatch_status :: "service \<Rightarrow> (Server, ServiceResponse) act" where
  "dispatch_status sv =
     bind_s (gets (\<lambda>s. status (srv_checkpoints s))) (\<lambda>st.
     bind_s (catch (bind_s (on_store sv load_recovery) (\<lambda>r. ret (recovery_count r))) (\<lambda>_. ret 0)) (\<lambda>waiting.
     bind_s (gets (\<lambda>s. store_diagnostics (srv_store s))) (\<lambda>ds.
     bind_s (lift_s (traverse sanitize ds)) (\<lambda>diagnostics.
     bind_s (lift_s (case cs_last_error st of
         None \<Rightarrow> Inr None | Some t \<Rightarrow> bind_r (sanitize t) (\<lambda>x. Inr (Some x)))) (\<lambda>last_error.
     bind_s (gets (\<lambda>s. int (length (registrations (srv_engine s))))) (\<lambda>registered.
     ret (StatusResponse \<lparr>registered_shells = registered, st_dirty_generation = cs_dirty_generation st,
       st_durable_generation = cs_durable_generation st, write_active = cs_write_active st,
       durability_degraded = (cs_last_error st \<noteq> None), st_last_error = last_error,
       recovery_item_count = waiting, st_diagnostics = diagnostics\<rparr>)))))))"

definition await_flush :: "service \<Rightarrow> (Server, CheckpointStatus) act" where
  "await_flush sv =
     bind_s (gets srv_checkpoints) (\<lambda>m.
     bind_s (lift_s (flush_begin m)) (\<lambda>(answer, m').
     bind_s (modify (\<lambda>s. s\<lparr>srv_checkpoints := m'\<rparr>)) (\<lambda>_.
     case answer of
       FlushDone st \<Rightarrow> ret st
     | FlushWait target \<Rightarrow>
         bind_s tick (\<lambda>n.
         bind_s (modify (\<lambda>s. s\<lparr>srv_checkpoints := sv_elapse sv n (srv_checkpoints s)\<rparr>)) (\<lambda>_.
         bind_s (gets srv_checkpoints) (\<lambda>later. lift_s (flush_end target later)))))))"

definition dispatch_snapshot :: "service \<Rightarrow> (Server, ServiceResponse) act" where
  "dispatch_snapshot sv =
     bind_s (gets (\<lambda>s. dirty_generation (srv_engine s))) (\<lambda>required_generation.
     bind_s (await_flush sv) (\<lambda>st.
     if cs_durable_generation st < required_generation then ret (error_response PERSISTENCE_FAILED)
     else ret (SnapshotResponse (cs_durable_generation st))))"

section \<open>Listing what can be restored\<close>

definition validate_workspace :: "RecoveryRecord option \<Rightarrow> string \<Rightarrow> ServiceResponse option" where
  "validate_workspace r w =
     (case r of
        None \<Rightarrow> Some (error_response WORKSPACE_MISMATCH)
      | Some x \<Rightarrow> if workspace_id x \<noteq> w then Some (error_response WORKSPACE_MISMATCH) else None)"

definition find_attempt :: "RecoveryRecord \<Rightarrow> string option \<Rightarrow> RestoreAttempt option" where
  "find_attempt r i = find (\<lambda>a. Some (attempt_id a) = i) (attempts r)"

definition retryable_ids :: "RecoveryRecord \<Rightarrow> RestoreAttempt \<Rightarrow> string list" where
  "retryable_ids r source =
     map outcome_item_id (filter (\<lambda>p. (outcome_kind p = SKIP \<or> outcome_kind p = FAILURE) \<and>
       outcome_item_id p \<notin> set (completed_item_ids r)) (outcomes source))"

definition unfinished_ids :: "RecoveryRecord \<Rightarrow> string list" where
  "unfinished_ids r = filter (\<lambda>i. i \<notin> set (completed_item_ids r)) (map item_id (items r))"

text \<open>The executable of an active command, empty where it has none or does not parse.\<close>

definition view_executable :: "CommandRecord option \<Rightarrow> string result" where
  "view_executable c =
     (case c of
        None \<Rightarrow> Inr []
      | Some r \<Rightarrow>
          if \<not> active r then Inr []
          else case executable r of
            None \<Rightarrow> Inr []
          | Some x \<Rightarrow>
              if x = [] then Inr []
              else case parse_one_simple_command x None of
                Inr p \<Rightarrow> Inr (p_executable p)
              | Inl e \<Rightarrow> if is_ValueError e then Inr [] else Inl e)"

record resume_view =
  rv_command :: string
  rv_summary :: string
  rv_count :: int

definition no_resume :: resume_view where
  "no_resume = \<lparr>rv_command = [], rv_summary = [], rv_count = 0\<rparr>"

definition view_session :: "machine \<Rightarrow> string \<Rightarrow> string \<Rightarrow> (runtime, string option \<times> string \<times> int) act" where
  "view_session m tool dir =
     catch
       (bind_s (on_sessions (find_sessions_for_cwd (session_home m) (home_modified m) dir None)) (\<lambda>matches.
        let session = (case find_active_session_id (environ m) tool of Some i \<Rightarrow> Some i | None \<Rightarrow> latest_session matches) in
        ret (case matches of
               [] \<Rightarrow> (session, [], 0)
             | r # _ \<Rightarrow> (session, sr_summary r, int (length matches)))))
       (\<lambda>e. if store_read_error e then ret (None, [], 0) else raise_s e)"

definition view_resume :: "machine \<Rightarrow> string \<Rightarrow> CommandRecord option \<Rightarrow> (runtime, resume_view) act" where
  "view_resume m dir c =
     bind_s (lift_s (view_executable c)) (\<lambda>tool.
     if tool = [] then ret no_resume
     else
       bind_s (on_probes (find_resume_adapter (agent_tools m) tool True)) (\<lambda>found.
       case found of
         None \<Rightarrow> ret no_resume
       | Some match \<Rightarrow>
           bind_s (view_session m tool dir) (\<lambda>(session, summary, count).
           bind_s (lift_s (case build_resume_argv match session of
               Inr argv \<Rightarrow> Inr (join '' '' argv)
             | Inl e \<Rightarrow> if is_ValueError e then Inr [] else Inl e)) (\<lambda>resume_command.
           ret \<lparr>rv_command = resume_command, rv_summary = summary, rv_count = count\<rparr>))))"

definition recovery_view :: "machine \<Rightarrow> RecoveryItem \<Rightarrow> (runtime, RecoveryItemView) act" where
  "recovery_view m i =
     bind_s (lift_s (case command (ri_shell i) of
         Some c \<Rightarrow> if ri_replay_eligible i then bind_r (from_command_record c) (\<lambda>d. Inr (Some d)) else Inr None
       | None \<Rightarrow> Inr None)) (\<lambda>shown.
     bind_s (view_resume m (ri_directory i) (command (ri_shell i))) (\<lambda>resume.
     bind_s (lift_s (safe_recovery_reason (ri_reason i))) (\<lambda>why.
     bind_s (lift_s (case ri_directory_warning i of
         None \<Rightarrow> Inr None | Some t \<Rightarrow> bind_r (sanitize t) (\<lambda>x. Inr (Some x)))) (\<lambda>warning.
     ret \<lparr>v_item_id = ri_item_id i, v_shell_id = shell_id (ri_shell i), v_reason = why, v_level = ri_level i,
          v_directory = ri_directory i, v_directory_warning = warning, v_replay_display = shown,
          v_replay_eligible = ri_replay_eligible i, v_resume_command = rv_command resume,
          v_resume_summary = rv_summary resume, v_resume_session_count = rv_count resume\<rparr>))))"

primrec view_all :: "machine \<Rightarrow> RecoveryItem list \<Rightarrow> (runtime, RecoveryItemView list) act" where
  "view_all m [] = ret []"
| "view_all m (i # is) =
     bind_s (recovery_view m i) (\<lambda>v. bind_s (view_all m is) (\<lambda>vs. ret (v # vs)))"

text \<open>The items a list shows: what is left of the workspace, or what an earlier attempt left to retry.\<close>

definition included_items :: "RecoveryRecord \<Rightarrow> string option \<Rightarrow> string option \<Rightarrow> ServiceResponse + string list" where
  "included_items r w a =
     (case w of
        None \<Rightarrow> Inr (unfinished_ids r)
      | Some w' \<Rightarrow>
          (case validate_workspace (Some r) w' of
             Some mismatch \<Rightarrow> Inl mismatch
           | None \<Rightarrow>
               (case find_attempt r a of
                  None \<Rightarrow> Inl (error_response ATTEMPT_MISMATCH)
                | Some source \<Rightarrow>
                    if retryable_ids r source = [] then Inl (error_response ATTEMPT_MISMATCH)
                    else Inr (retryable_ids r source))))"

definition list_record ::
  "service \<Rightarrow> RecoveryRecord \<Rightarrow> string list \<Rightarrow> string option \<Rightarrow> string option \<Rightarrow> (Server, ServiceResponse) act" where
  "list_record sv r diagnostics w a =
     (case included_items r w a of
        Inl answer \<Rightarrow> ret answer
      | Inr included \<Rightarrow>
          bind_s (lift_s (workspace_from_record (sv_machine sv) r (sv_home sv))) (\<lambda>workspace.
          bind_s (on_runtime (view_all (sv_machine sv) (filter (\<lambda>i. ri_item_id i \<in> set included) (rw_items workspace)))) (\<lambda>views.
          bind_s (lift_s (traverse sanitize diagnostics)) (\<lambda>ds.
          ret (RestoreListResponse (Some (workspace_id r)) views ds)))))"

text \<open>Without a record on file, the workspace is reconciled from the snapshot and written.\<close>

definition prepare_record :: "service \<Rightarrow> (Server, ServiceResponse + (RecoveryRecord option \<times> string list)) act" where
  "prepare_record sv =
     bind_s (gets (\<lambda>s. snapshot (srv_engine s))) (\<lambda>snap.
     bind_s (lift_s (reconcile (sv_machine sv) snap (sv_boot sv) (process_probe sv) (sv_home sv))) (\<lambda>found.
     case found of
       None \<Rightarrow> ret (Inl (RestoreListResponse None [] []))
     | Some workspace \<Rightarrow>
         if rw_items workspace \<noteq> [] then
           bind_s (lift_s (record_from_workspace workspace snap)) (\<lambda>candidate.
           bind_s (on_store sv (\<lambda>env io. write_recovery env io candidate)) (\<lambda>_.
           bind_s (on_store sv load_recovery) (\<lambda>r. ret (Inr (r, rw_diagnostics workspace)))))
         else
           bind_s (lift_s (traverse sanitize (rw_diagnostics workspace))) (\<lambda>ds.
           ret (Inl (RestoreListResponse None [] ds)))))"

definition restore_list :: "service \<Rightarrow> string option \<Rightarrow> string option \<Rightarrow> (Server, ServiceResponse) act" where
  "restore_list sv w a =
     catch
       (bind_s (on_store sv load_recovery) (\<lambda>loaded.
        bind_s (case loaded of None \<Rightarrow> prepare_record sv | Some r \<Rightarrow> ret (Inr (Some r, []))) (\<lambda>found.
        case found of
          Inl answer \<Rightarrow> ret answer
        | Inr (None, _) \<Rightarrow> ret (RestoreListResponse None [] [])
        | Inr (Some r, diagnostics) \<Rightarrow> list_record sv r diagnostics w a)))
       (\<lambda>e. if storage_error e then ret (error_response PERSISTENCE_FAILED) else raise_s e)"

section \<open>Executing a restore\<close>

text \<open>
  A restore or a retry begins under the dispatch lock: it is answered at once, or it runs an attempt for the chosen
  items with the approved ones among them.
\<close>

datatype phase = Answer ServiceResponse | RunAttempt RecoveryRecord "string list" "string list" "string option"

definition with_recovery :: "service \<Rightarrow> string \<Rightarrow> (RecoveryRecord \<Rightarrow> (Server, phase) act) \<Rightarrow> (Server, phase) act" where
  "with_recovery sv w k =
     bind_s (catch (bind_s (on_store sv load_recovery) (\<lambda>r. ret (Inr r)))
       (\<lambda>e. if storage_error e then ret (Inl (error_response PERSISTENCE_FAILED)) else raise_s e)) (\<lambda>loaded.
     case loaded of
       Inl answer \<Rightarrow> ret (Answer answer)
     | Inr r \<Rightarrow>
         (case validate_workspace r w of
            Some mismatch \<Rightarrow> ret (Answer mismatch)
          | None \<Rightarrow> (case r of None \<Rightarrow> raise_s (AssertionError []) | Some x \<Rightarrow> k x)))"

definition result_response :: "RecoveryRecord \<Rightarrow> string \<Rightarrow> Outcome list \<Rightarrow> ServiceResponse result" where
  "result_response r attempt outs =
     bind_r (traverse (\<lambda>p. bind_r (if outcome_message p = ''restored'' then catalog (outcome_message p) else sanitize (outcome_message p)) (\<lambda>t.
         Inr \<lparr>ov_item_id = outcome_item_id p, ov_kind = outcome_kind p, ov_message = t\<rparr>)) outs) (\<lambda>views.
     Inr (RestoreResultResponse (workspace_id r) attempt views (unfinished_ids r)))"

definition matching_attempt :: "service \<Rightarrow> RecoveryRecord \<Rightarrow> string list \<Rightarrow> string list \<Rightarrow> RestoreAttempt option result" where
  "matching_attempt sv r selected approved =
     (case sv_adapter sv of
        None \<Rightarrow> Inr None
      | Some a \<Rightarrow>
          bind_r (derive_attempt_id (sv_machine sv) (workspace_id r) selected approved a None) (\<lambda>expected.
          Inr (find (\<lambda>x. attempt_id x = expected \<and> sort (selected_item_ids x) = sort selected \<and>
            sort (approved_item_ids x) = sort approved) (rev (attempts r)))))"

definition finish_completed :: "service \<Rightarrow> RecoveryRecord \<Rightarrow> (Server, unit) act" where
  "finish_completed sv r =
     when_s (set (completed_item_ids r) = set (map item_id (items r)))
       (on_store sv (\<lambda>env io. complete_or_discard env io (workspace_id r) False))"

definition answer_completed :: "service \<Rightarrow> RecoveryRecord \<Rightarrow> string list \<Rightarrow> string list \<Rightarrow> (Server, ServiceResponse) act" where
  "answer_completed sv r selected approved =
     bind_s (lift_s (matching_attempt sv r selected approved)) (\<lambda>prior.
     case prior of
       None \<Rightarrow> ret (error_response UNKNOWN_ITEM)
     | Some x \<Rightarrow>
         bind_s (catch (bind_s (finish_completed sv r) (\<lambda>_. ret True))
           (\<lambda>e. if storage_error e then ret False else raise_s e)) (\<lambda>saved.
         if \<not> saved then ret (error_response PERSISTENCE_FAILED)
         else lift_s (result_response r (attempt_id x)
           (filter (\<lambda>p. outcome_item_id p \<in> set selected) (outcomes x)))))"

definition execute_begin :: "service \<Rightarrow> string \<Rightarrow> string list \<Rightarrow> string list \<Rightarrow> (Server, phase) act" where
  "execute_begin sv w selected approved =
     with_recovery sv w (\<lambda>r.
       if \<not> distinct selected \<or> \<not> set selected \<subseteq> set (map item_id (items r)) then ret (Answer (error_response UNKNOWN_ITEM))
       else if \<not> set approved \<subseteq> set selected then ret (Answer (error_response UNKNOWN_ITEM))
       else
         let effective = filter (\<lambda>i. i \<notin> set (completed_item_ids r)) selected;
             effective_approved = filter (\<lambda>i. i \<in> set effective) approved in
         if effective = [] then bind_s (answer_completed sv r selected approved) (\<lambda>x. ret (Answer x))
         else ret (RunAttempt r effective effective_approved None))"

definition retry_begin :: "service \<Rightarrow> string \<Rightarrow> string \<Rightarrow> string list \<Rightarrow> (Server, phase) act" where
  "retry_begin sv w a approved =
     with_recovery sv w (\<lambda>r.
       case find_attempt r (Some a) of
         None \<Rightarrow> ret (Answer (error_response ATTEMPT_MISMATCH))
       | Some source \<Rightarrow>
           let retryable = retryable_ids r source in
           if \<not> set approved \<subseteq> set retryable then ret (Answer (error_response UNKNOWN_ITEM))
           else if retryable = [] then ret (Answer (error_response ATTEMPT_MISMATCH))
           else ret (RunAttempt r retryable approved (Some a)))"

text \<open>The launch runs without the dispatch lock; the commit takes it again.\<close>

definition attempt_launch ::
  "service \<Rightarrow> Adapter \<Rightarrow> RecoveryRecord \<Rightarrow> string list \<Rightarrow> string list \<Rightarrow> string option \<Rightarrow>
    (Server, (RestoreAttempt \<times> Outcome list) option) act" where
  "attempt_launch sv a r selected approved source =
     bind_s (on_runtime (build_attempt (sv_machine sv) r selected approved a source (sv_home sv))) (\<lambda>(attempt, actions).
     bind_s (on_runtime (on_world (adapter_execute a (terminals (sv_machine sv)) actions (attempt_id attempt)))) (\<lambda>raw.
     if \<not> distinct (map outcome_item_id raw) \<or> set (map outcome_item_id raw) \<noteq> set selected then ret None
     else
       bind_s (lift_s (traverse (\<lambda>p. Outcome_init (outcome_item_id p) (outcome_kind p)
         (take MAX_OUTCOME_MESSAGE_CHARS (outcome_message p))) raw)) (\<lambda>outs.
       ret (Some (attempt, outs)))))"

definition attempt_commit :: "service \<Rightarrow> RecoveryRecord \<Rightarrow> RestoreAttempt \<Rightarrow> Outcome list \<Rightarrow> (Server, ServiceResponse) act" where
  "attempt_commit sv r attempt outs =
     bind_s (on_store sv (\<lambda>env io. commit_outcomes env io (workspace_id r) attempt outs)) (\<lambda>updated.
     bind_s (when_s (set (completed_item_ids updated) = set (map item_id (items updated)))
       (on_store sv (\<lambda>env io. complete_or_discard env io (workspace_id r) False))) (\<lambda>_.
     lift_s (result_response updated (attempt_id attempt) outs)))"

definition run_attempt ::
  "service \<Rightarrow> RecoveryRecord \<Rightarrow> string list \<Rightarrow> string list \<Rightarrow> string option \<Rightarrow> (Server, ServiceResponse) act" where
  "run_attempt sv r selected approved source =
     (case sv_adapter sv of
        None \<Rightarrow> ret (error_response ADAPTER_UNAVAILABLE)
      | Some a \<Rightarrow>
          if \<not> detect (terminals (sv_machine sv)) a then ret (error_response ADAPTER_UNAVAILABLE)
          else
            catch
              (bind_s (attempt_launch sv a r selected approved source) (\<lambda>launch.
               case launch of
                 None \<Rightarrow> ret (error_response INTERNAL_ERROR)
               | Some (attempt, outs) \<Rightarrow> attempt_commit sv r attempt outs))
              (\<lambda>e. ret (error_response (if storage_error e then PERSISTENCE_FAILED else INTERNAL_ERROR))))"

definition continue_phase :: "service \<Rightarrow> phase \<Rightarrow> (Server, ServiceResponse) act" where
  "continue_phase sv p =
     (case p of Answer x \<Rightarrow> ret x | RunAttempt r selected approved source \<Rightarrow> run_attempt sv r selected approved source)"

definition restore_execute :: "service \<Rightarrow> string \<Rightarrow> string list \<Rightarrow> string list \<Rightarrow> (Server, ServiceResponse) act" where
  "restore_execute sv w selected approved = bind_s (execute_begin sv w selected approved) (continue_phase sv)"

definition restore_retry :: "service \<Rightarrow> string \<Rightarrow> string \<Rightarrow> string list \<Rightarrow> (Server, ServiceResponse) act" where
  "restore_retry sv w a approved = bind_s (retry_begin sv w a approved) (continue_phase sv)"

text \<open>A discard is answered under the dispatch lock.\<close>

definition only_answer :: "phase \<Rightarrow> (Server, ServiceResponse) act" where
  "only_answer p = (case p of Answer x \<Rightarrow> ret x | RunAttempt _ _ _ _ \<Rightarrow> raise_s (AssertionError []))"

definition discard_workspace :: "service \<Rightarrow> string \<Rightarrow> (Server, ServiceResponse) act" where
  "discard_workspace sv w =
     bind_s (with_recovery sv w (\<lambda>r.
       bind_s (catch (bind_s (on_store sv (\<lambda>env io. complete_or_discard env io w True)) (\<lambda>_. ret True))
         (\<lambda>e. if storage_error e then ret False else raise_s e)) (\<lambda>saved.
       ret (Answer (if saved then DiscardResponse w else error_response PERSISTENCE_FAILED))))) only_answer"

section \<open>Requests and connections\<close>

fun dispatch_request :: "service \<Rightarrow> int option \<Rightarrow> ServiceRequest \<Rightarrow> (Server, ServiceResponse) act" where
  "dispatch_request sv peer_pid (Register req) = dispatch_register sv peer_pid req"
| "dispatch_request sv peer_pid (Event req) = dispatch_event sv req"
| "dispatch_request sv peer_pid StatusRequest = dispatch_status sv"
| "dispatch_request sv peer_pid SnapshotRequest = dispatch_snapshot sv"
| "dispatch_request sv peer_pid (RestoreListRequest w a) = restore_list sv w a"
| "dispatch_request sv peer_pid (RestoreExecuteRequest w selected approved) = restore_execute sv w selected approved"
| "dispatch_request sv peer_pid (RestoreRetryRequest w a approved) = restore_retry sv w a approved"
| "dispatch_request sv peer_pid (DiscardRequest w) = discard_workspace sv w"

text \<open>What is written for a response: its line, or the fixed line of an internal error.\<close>

definition write_response :: "ServiceResponse \<Rightarrow> string" where
  "write_response r =
     (case encode_response r of
        Inl _ \<Rightarrow> FALLBACK_ERROR_BYTES
      | Inr raw \<Rightarrow> if length raw > MAX_MESSAGE_BYTES then FALLBACK_ERROR_BYTES else raw)"

definition is_Register :: "ServiceRequest \<Rightarrow> bool" where
  "is_Register r \<longleftrightarrow> (case r of Register _ \<Rightarrow> True | _ \<Rightarrow> False)"

definition keeps_open :: "ServiceRequest \<Rightarrow> bool" where
  "keeps_open r \<longleftrightarrow> (case r of Register _ \<Rightarrow> True | Event _ \<Rightarrow> True | _ \<Rightarrow> False)"

definition authenticates :: "ServiceRequest \<Rightarrow> ServiceResponse \<Rightarrow> bool" where
  "authenticates req r \<longleftrightarrow> is_Register req \<and> (case r of RegisterResponse _ _ \<Rightarrow> True | _ \<Rightarrow> False)"

text \<open>
  What a connection delivers: lines, the empty one for its end, and silences longer than the read timeout. Only an
  authenticated stream may be silent.
\<close>

datatype incoming = Line string | Silence

fun serve_stream :: "service \<Rightarrow> int \<Rightarrow> bool \<Rightarrow> incoming list \<Rightarrow> Server \<Rightarrow> string list \<times> Server" where
  "serve_stream sv peer_pid authenticated [] s = ([], s)"
| "serve_stream sv peer_pid authenticated (Silence # ins) s =
     (if authenticated then serve_stream sv peer_pid authenticated ins s
      else ([write_response (error_response INVALID_REQUEST)], s))"
| "serve_stream sv peer_pid authenticated (Line raw # ins) s =
     (if raw = [] then ([], s)
      else case decode_request raw of
        Inl e \<Rightarrow> ([write_response (error_response (if is_ValueError e then INVALID_REQUEST else INTERNAL_ERROR))], s)
      | Inr req \<Rightarrow>
          (case dispatch_request sv (Some peer_pid) req s of
             (Inl e, t) \<Rightarrow> ([write_response (error_response INTERNAL_ERROR)], t)
           | (Inr r, t) \<Rightarrow>
               if \<not> keeps_open req then ([write_response r], t)
               else case serve_stream sv peer_pid (authenticated \<or> authenticates req r) ins t of
                 (out, u) \<Rightarrow> (write_response r # out, u)))"

text \<open>The peer's process and user, where the kernel gives them.\<close>

definition handle_connection :: "service \<Rightarrow> (int \<times> int) option \<Rightarrow> incoming list \<Rightarrow> Server \<Rightarrow> string list \<times> Server" where
  "handle_connection sv peer ins s =
     (case peer of
        None \<Rightarrow> ([write_response (error_response PEER_REJECTED)], s)
      | Some (peer_pid, uid) \<Rightarrow>
          if uid \<noteq> sv_uid sv then ([write_response (error_response PEER_REJECTED)], s)
          else serve_stream sv peer_pid False ins s)"

section \<open>What the handlers leave alone\<close>

lemma frames_tick: "(\<And>s n. f (s\<lparr>srv_calls := n\<rparr>) = f s) \<Longrightarrow> frames f tick"
  by (simp add: frames_def tick_def)

lemma frames_on_store:
  "(\<And>s n. f (s\<lparr>srv_calls := n\<rparr>) = f s) \<Longrightarrow> (\<And>s t. f (s\<lparr>srv_store := t\<rparr>) = f s) \<Longrightarrow> frames f (on_store sv g)"
  unfolding on_store_def by (intro frames_bind frames_tick frames_on_part)

lemma frames_on_runtime: "(\<And>s t. f (s\<lparr>srv_runtime := t\<rparr>) = f s) \<Longrightarrow> frames f (on_runtime g)"
  unfolding on_runtime_def by (intro frames_on_part)

lemmas frames_handlers = frames_pure frames_bind frames_catch frames_if frames_when_s frames_on_store frames_on_runtime
  frames_tick frames_modify

lemma frames_prod [intro!]: "(\<And>a b. frames f (k a b)) \<Longrightarrow> frames f (case x of (a, b) \<Rightarrow> k a b)"
  by (cases x) simp

lemma frames_option [intro!]: "frames f u \<Longrightarrow> (\<And>a. frames f (k a)) \<Longrightarrow> frames f (case x of None \<Rightarrow> u | Some a \<Rightarrow> k a)"
  by (cases x) simp_all

lemma frames_sum [intro!]: "(\<And>a. frames f (u a)) \<Longrightarrow> (\<And>a. frames f (k a)) \<Longrightarrow> frames f (case x of Inl a \<Rightarrow> u a | Inr a \<Rightarrow> k a)"
  by (cases x) simp_all

lemma frames_with_recovery:
  assumes "\<And>s n. f (s\<lparr>srv_calls := n\<rparr>) = f s" "\<And>s t. f (s\<lparr>srv_store := t\<rparr>) = f s" "\<And>r. frames f (k r)"
  shows "frames f (with_recovery sv w k)"
  unfolding with_recovery_def using assms by (auto intro!: frames_on_store)

lemma frames_answer_completed:
  assumes "\<And>s n. f (s\<lparr>srv_calls := n\<rparr>) = f s" "\<And>s t. f (s\<lparr>srv_store := t\<rparr>) = f s"
  shows "frames f (answer_completed sv r selected approved)"
  unfolding answer_completed_def finish_completed_def using assms by (auto intro!: frames_on_store)

lemma frames_begin:
  assumes "\<And>s n. f (s\<lparr>srv_calls := n\<rparr>) = f s" "\<And>s t. f (s\<lparr>srv_store := t\<rparr>) = f s"
  shows "frames f (execute_begin sv w selected approved)" "frames f (retry_begin sv w a approved)"
  unfolding execute_begin_def retry_begin_def
  using assms by (auto intro!: frames_with_recovery frames_answer_completed simp: Let_def)

lemma frames_commit:
  assumes "\<And>s n. f (s\<lparr>srv_calls := n\<rparr>) = f s" "\<And>s t. f (s\<lparr>srv_store := t\<rparr>) = f s"
  shows "frames f (attempt_commit sv r attempt outs)"
  unfolding attempt_commit_def using assms by (auto intro!: frames_on_store)

lemma frames_workspace_operations:
  assumes "\<And>s n. f (s\<lparr>srv_calls := n\<rparr>) = f s" "\<And>s t. f (s\<lparr>srv_store := t\<rparr>) = f s"
    "\<And>s t. f (s\<lparr>srv_runtime := t\<rparr>) = f s"
  shows "frames f (restore_list sv v b)" "frames f (restore_execute sv w selected approved)"
    "frames f (restore_retry sv w a approved)" "frames f (discard_workspace sv w)"
proof -
  have run: "frames f (run_attempt sv r sel app src)" for r sel app src
    unfolding run_attempt_def attempt_launch_def using assms
    by (auto intro!: frames_commit frames_on_runtime)
  then have "frames f (continue_phase sv p)" for p
    unfolding continue_phase_def by (cases p) auto
  then show "frames f (restore_execute sv w selected approved)" "frames f (restore_retry sv w a approved)"
    "frames f (discard_workspace sv w)"
    unfolding restore_execute_def restore_retry_def discard_workspace_def using assms
    by (auto intro!: frames_begin frames_with_recovery frames_on_store simp: only_answer_def split: phase.splits)
  show "frames f (restore_list sv v b)"
    unfolding restore_list_def prepare_record_def list_record_def using assms
    by (auto intro!: frames_on_store frames_on_runtime)
qed

lemma engine_unchanged:
  "\<not> keeps_open req \<Longrightarrow> frames srv_engine (dispatch_request sv peer req)"
  by (cases req) (auto simp: keeps_open_def dispatch_status_def dispatch_snapshot_def await_flush_def
      intro!: frames_workspace_operations frames_on_store frames_tick frames_modify split: flush_answer.splits)

section \<open>The engine behind the handlers\<close>

lemma mark_Inr: "mark sv g s = (Inr u, t) \<Longrightarrow> srv_engine t = srv_engine s \<and> srv_store t = srv_store s \<and> srv_runtime t = srv_runtime s"
  by (auto simp: mark_def tick_def bind_s_Inr)

lemma mark_Inl: "mark sv g s = (Inl e, t) \<Longrightarrow> srv_engine t = srv_engine s \<and> srv_store t = srv_store s \<and> srv_runtime t = srv_runtime s"
  by (auto simp: mark_def tick_def bind_s_Inl)

lemma dispatch_register_engine:
  assumes "dispatch_register sv peer req s = (x, t)"
  shows "srv_engine t = srv_engine s \<or>
    (\<exists>c. register_shell (srv_engine s) req (sv_token sv (srv_calls s)) peer = Inr (srv_engine t, c))"
proof (cases "register_shell (srv_engine s) req (sv_token sv (srv_calls s)) peer")
  case (Inl e)
  with assms show ?thesis by (auto simp: dispatch_register_def bind_s_run tick_def split: if_splits)
next
  case (Inr y)
  with assms show ?thesis
    by (cases y) (auto simp: dispatch_register_def bind_s_run tick_def
        dest!: mark_Inr mark_Inl split: prod.splits sum.splits option.splits)
qed

lemma dispatch_event_engine:
  assumes "dispatch_event sv req s = (x, t)"
  shows "srv_engine t = srv_engine s \<or> apply_event (srv_engine s) req = Inr (srv_engine t)"
  using assms by (auto simp: dispatch_event_def bind_s_run dest!: mark_Inr mark_Inl split: prod.splits sum.splits if_splits)

lemma register_shell_token: "register_shell st req fresh peer = Inr (st', c) \<Longrightarrow> c = fresh"
  by (auto simp: register_shell_def Let_def)

definition engine_step :: "EngineState \<Rightarrow> EngineState \<Rightarrow> bool" where
  "engine_step st st' \<longleftrightarrow> st' = st \<or> (engine_inv st \<longrightarrow> engine_inv st') \<and> advances st st'"

lemma engine_step_trans: "engine_step a b \<Longrightarrow> engine_step b c \<Longrightarrow> engine_step a c"
  unfolding engine_step_def using advances_trans by blast

lemma wf_register_identity: "wf_request (Register req) \<Longrightarrow> wf_identity (reg_identity req)"
  using wire_wf_identity by auto

lemma dispatch_request_engine:
  assumes "wf_request req" "dispatch_request sv peer req s = (x, t)"
  shows "engine_step (srv_engine s) (srv_engine t)"
proof (cases "keeps_open req")
  case False
  then show ?thesis using engine_unchanged assms(2) by (metis engine_step_def frames_InrD)
next
  case True
  then consider (reg) r where "req = Register r" | (ev) e where "req = Event e"
    by (cases req) (auto simp: keeps_open_def)
  then show ?thesis
  proof cases
    case reg
    with assms dispatch_register_engine [of sv peer r s x t] wf_register_identity [of r] show ?thesis
      by (auto simp: engine_step_def intro: register_shell_inv register_advances)
  next
    case ev
    with assms dispatch_event_engine [of sv e s x t] show ?thesis
      by (auto simp: engine_step_def intro: apply_event_inv event_advances)
  qed
qed

lemma decode_request_wf: "decode_request raw = Inr r \<Longrightarrow> wf_request r"
  using request_line.read_line_wf [of raw r] by (simp add: decode_request_line)

lemma serve_stream_engine: "engine_step (srv_engine s) (srv_engine (snd (serve_stream sv p auth ins s)))"
proof (induction sv p auth ins s rule: serve_stream.induct)
  case (3 sv p auth raw ins s)
  show ?case
  proof (cases "raw = [] \<or> (\<exists>e. decode_request raw = Inl e)")
    case True
    then show ?thesis by (auto simp: engine_step_def)
  next
    case False
    then obtain req where req: "decode_request raw = Inr req" "raw \<noteq> []" by (cases "decode_request raw") auto
    obtain x t where t: "dispatch_request sv (Some p) req s = (x, t)" by fastforce
    have step: "engine_step (srv_engine s) (srv_engine t)"
      by (rule dispatch_request_engine [OF decode_request_wf [OF req(1)] t])
    show ?thesis
    proof (cases x)
      case (Inl e)
      with req t step show ?thesis by simp
    next
      case (Inr r)
      with req t step "3.IH" [OF req(2,1) t [symmetric] Inr] show ?thesis
        by (auto intro: engine_step_trans split: prod.splits)
    qed
  qed
qed (auto simp: engine_step_def)

text \<open>One connection after the other.\<close>

definition serve_all :: "service \<Rightarrow> ((int \<times> int) option \<times> incoming list) list \<Rightarrow> Server \<Rightarrow> Server" where
  "serve_all sv cs s = foldl (\<lambda>t (peer, ins). snd (handle_connection sv peer ins t)) s cs"

lemma handle_connection_engine: "engine_step (srv_engine s) (srv_engine (snd (handle_connection sv peer ins s)))"
  using serve_stream_engine by (auto simp: handle_connection_def engine_step_def split: option.splits)

lemma serve_all_engine: "engine_step (srv_engine s) (srv_engine (serve_all sv cs s))"
proof (induction cs arbitrary: s)
  case (Cons c cs)
  show ?case
    using engine_step_trans [OF handle_connection_engine Cons.IH] by (simp add: serve_all_def case_prod_unfold)
qed (simp add: serve_all_def engine_step_def)

text \<open>
  The lines a connection of the user's own processes delivers, with the process that sent them; and a change of the
  engine by one of them: a registration it accepts, with a token it drew, or an event it accepts.
\<close>

definition heard :: "service \<Rightarrow> ((int \<times> int) option \<times> incoming list) list \<Rightarrow> (int \<times> string) set" where
  "heard sv cs = {(p, raw). \<exists>ins. (Some (p, sv_uid sv), ins) \<in> set cs \<and> Line raw \<in> set ins}"

definition engine_change :: "service \<Rightarrow> (int \<times> string) set \<Rightarrow> EngineState \<Rightarrow> EngineState \<Rightarrow> bool" where
  "engine_change sv H st st' \<longleftrightarrow>
     (\<exists>(p, raw) \<in> H.
        (\<exists>req n. decode_request raw = Inr (Register req) \<and>
           register_shell st req (sv_token sv n) (Some p) = Inr (st', sv_token sv n)) \<or>
        (\<exists>e. decode_request raw = Inr (Event e) \<and> apply_event st e = Inr st'))"

lemma engine_change_mono: "H \<subseteq> K \<Longrightarrow> (engine_change sv H)\<^sup>*\<^sup>* st st' \<Longrightarrow> (engine_change sv K)\<^sup>*\<^sup>* st st'"
  by (erule rtranclp_mono [THEN predicate2D, rotated]) (unfold engine_change_def, blast)

lemma dispatch_request_change:
  assumes "decode_request raw = Inr req" "dispatch_request sv (Some p) req s = (x, t)"
  shows "(engine_change sv {(p, raw)})\<^sup>*\<^sup>* (srv_engine s) (srv_engine t)"
proof -
  have "srv_engine t = srv_engine s \<or> engine_change sv {(p, raw)} (srv_engine s) (srv_engine t)"
  proof (cases req)
    case (Register r)
    with assms dispatch_register_engine [of sv "Some p" r s x t] show ?thesis
      by (auto simp: engine_change_def) (metis register_shell_token)
  next
    case (Event e)
    with assms dispatch_event_engine [of sv e s x t] show ?thesis by (auto simp: engine_change_def)
  qed (use assms(2) engine_unchanged [of req sv "Some p"] in \<open>auto simp: keeps_open_def dest: frames_InrD\<close>)
  then show ?thesis by auto
qed

lemma serve_stream_change:
  "(engine_change sv {(p, raw). p = peer \<and> Line raw \<in> set ins})\<^sup>*\<^sup>* (srv_engine s) (srv_engine (snd (serve_stream sv peer auth ins s)))"
proof (induction sv peer auth ins s rule: serve_stream.induct)
  case (2 sv peer auth ins s)
  then show ?case by auto
next
  case (3 sv peer auth raw ins s)
  let ?H = "{(p, r). p = peer \<and> Line r \<in> set (Line raw # ins)}"
  show ?case
  proof (cases "raw = [] \<or> (\<exists>e. decode_request raw = Inl e)")
    case True
    then show ?thesis by auto
  next
    case False
    then obtain req where req: "decode_request raw = Inr req" "raw \<noteq> []" by (cases "decode_request raw") auto
    obtain x t where t: "dispatch_request sv (Some peer) req s = (x, t)" by fastforce
    have one: "(engine_change sv ?H)\<^sup>*\<^sup>* (srv_engine s) (srv_engine t)"
      by (rule engine_change_mono [OF _ dispatch_request_change [OF req(1) t]]) auto
    show ?thesis
    proof (cases x)
      case (Inl e)
      with req t one show ?thesis by simp
    next
      case (Inr r)
      have "(engine_change sv ?H)\<^sup>*\<^sup>* (srv_engine t) (srv_engine (snd (serve_stream sv peer a ins t)))"
        if "keeps_open req" "a = (auth \<or> authenticates req r)" for a
        using "3.IH" [OF req(2,1) t [symmetric] Inr] that by (auto intro: engine_change_mono [rotated])
      with req t Inr one show ?thesis
        by (auto intro: rtranclp_trans split: prod.splits)
    qed
  qed
qed auto

lemma serve_all_change: "(engine_change sv (heard sv cs))\<^sup>*\<^sup>* (srv_engine s) (srv_engine (serve_all sv cs s))"
proof (induction cs arbitrary: s)
  case (Cons c cs)
  obtain peer ins where c: "c = (peer, ins)" by fastforce
  let ?t = "snd (handle_connection sv peer ins s)"
  have "(engine_change sv (heard sv (c # cs)))\<^sup>*\<^sup>* (srv_engine s) (srv_engine ?t)"
  proof (cases "\<exists>p. peer = Some (p, sv_uid sv)")
    case True
    then obtain p where "peer = Some (p, sv_uid sv)" ..
    with serve_stream_change [of sv p ins s False] show ?thesis
      by (auto simp: c handle_connection_def heard_def intro: engine_change_mono [rotated])
  qed (auto simp: handle_connection_def split: option.splits)
  moreover have "(engine_change sv (heard sv (c # cs)))\<^sup>*\<^sup>* (srv_engine ?t) (srv_engine (serve_all sv cs ?t))"
    by (rule engine_change_mono [OF _ Cons.IH]) (auto simp: heard_def)
  ultimately show ?case by (auto simp: serve_all_def c intro: rtranclp_trans)
qed (simp add: serve_all_def)

text \<open>C10: whatever bytes the connections deliver, in any number and order, they change the engine only by registrations
  and events it accepts, each in a line that a process of the user's delivered; the engine keeps its invariant - every
  registration has its shell record, capabilities are distinct - and no registration is lost and no watermark falls.\<close>
theorem connections_keep_engine:
  assumes "engine_inv (srv_engine s)"
  shows "(engine_change sv (heard sv cs))\<^sup>*\<^sup>* (srv_engine s) (srv_engine (serve_all sv cs s)) \<and>
    engine_inv (srv_engine (serve_all sv cs s)) \<and> advances (srv_engine s) (srv_engine (serve_all sv cs s))"
  using serve_all_engine [of s sv cs] serve_all_change [of sv cs s] assms by (auto simp: engine_step_def advances_refl)

section \<open>What an event is answered\<close>

lemma error_words [simp]:
  "event_error (ValueError ''shell registration not found'') = UNAUTHORIZED"
  "event_error (ValueError ''event authority rejected'') = UNAUTHORIZED"
  "event_error (ValueError ''event identity rejected'') = UNAUTHORIZED"
  "event_error (ValueError ''event sequence rejected'') = SEQUENCE_REJECTED"
  "event_error (ValueError ''shell registration terminated'') = UNAUTHORIZED"
  "event_error (ValueError ''command sequence rejected'') = SEQUENCE_REJECTED"
  by (code_simp)+

text \<open>Why \<^verbatim>\<open>apply_event\<close> refuses an event, in the order of its checks.\<close>

definition refusal :: "EngineState \<Rightarrow> EventRequest \<Rightarrow> ErrorCode option" where
  "refusal st req =
     (case (map_of (registrations st) (ev_shell_id req), shell_map (shells (snapshot st)) (ev_shell_id req)) of
        (Some r, Some s) \<Rightarrow>
          if rg_capability r \<noteq> ev_capability req \<or> rg_identity r \<noteq> ev_identity req then Some UNAUTHORIZED
          else if ev_sequence req \<le> rg_last_sequence r then Some SEQUENCE_REJECTED
          else if termination_kind s = Some EXPLICIT_EXIT then Some UNAUTHORIZED
          else if (ev_operation req = Op_COMMAND_STARTED \<and> the (ev_command_sequence req) \<le> rg_last_command_sequence r) \<or>
            (ev_operation req = Op_COMMAND_FINISHED \<and>
              map_option cmd_sequence (command s) \<noteq> ev_command_sequence req) then Some SEQUENCE_REJECTED
          else None
      | _ \<Rightarrow> Some UNAUTHORIZED)"

lemma refusal_None:
  assumes "engine_inv st" "wf_event req"
  shows "refusal st req = None \<longleftrightarrow> (\<exists>st'. apply_event st req = Inr st')"
proof -
  have "ev_operation req = Op_COMMAND_FINISHED \<longrightarrow> ev_command_sequence req \<noteq> None"
    using assms(2) by (auto simp: wf_event_def optional_fields_def present_iff_def split: option.splits)
  then show ?thesis
    unfolding event_accepted_iff [OF assms] by (auto simp: refusal_def not_le split: option.splits)
qed

lemma apply_event_refused:
  assumes "engine_inv st" "wf_event req" "refusal st req = Some c"
  shows "\<exists>m. apply_event st req = Inl (ValueError m) \<and> event_error (ValueError m) = c"
proof (cases "map_of (registrations st) (ev_shell_id req)")
  case None
  with assms(3) show ?thesis by (simp add: apply_event_def refusal_def)
next
  case (Some r)
  from inv_agrees [OF assms(1) this] obtain s where s: "shell_map (shells (snapshot st)) (ev_shell_id req) = Some s"
    and ag: "agrees r s" by blast
  from find_shell_total [OF s] obtain n where n: "find_shell (shells (snapshot st)) (ev_shell_id req) = Inr (n, s)" ..
  have cd: "compare_digest (rg_capability r) (ev_capability req) = Inr (rg_capability r = ev_capability req)"
    using ag assms(2) ascii_capability by (auto simp: compare_digest_def agrees_def wf_event_def)
  consider (authority) "rg_capability r \<noteq> ev_capability req"
    | (identity) "rg_capability r = ev_capability req" "rg_identity r \<noteq> ev_identity req"
    | (sequence) "rg_capability r = ev_capability req" "rg_identity r = ev_identity req" "ev_sequence req \<le> rg_last_sequence r"
    | (terminated) "rg_capability r = ev_capability req" "rg_identity r = ev_identity req"
        "\<not> ev_sequence req \<le> rg_last_sequence r" "termination_kind s = Some EXPLICIT_EXIT"
    | (started) "rg_capability r = ev_capability req" "rg_identity r = ev_identity req"
        "\<not> ev_sequence req \<le> rg_last_sequence r" "termination_kind s \<noteq> Some EXPLICIT_EXIT"
        "ev_operation req = Op_COMMAND_STARTED" "the (ev_command_sequence req) \<le> rg_last_command_sequence r"
    | (completed) "rg_capability r = ev_capability req" "rg_identity r = ev_identity req"
        "\<not> ev_sequence req \<le> rg_last_sequence r" "termination_kind s \<noteq> Some EXPLICIT_EXIT"
        "ev_operation req = Op_COMMAND_FINISHED" "map_option cmd_sequence (command s) \<noteq> ev_command_sequence req"
    using assms(3) Some s by (auto simp: refusal_def split: if_splits)
  then show ?thesis
  proof cases
    case started
    then obtain cs cmd where "ev_command_sequence req = Some cs" "ev_command req = Some cmd"
      using assms(2) by (auto simp: wf_event_def optional_fields_def present_iff_def split: option.splits)
    with started Some s cd n assms(3) show ?thesis by (simp add: apply_event_def refusal_def reduce_shell_def)
  next
    case completed
    then obtain cs where "ev_command_sequence req = Some cs"
      using assms(2) by (auto simp: wf_event_def optional_fields_def present_iff_def split: option.splits)
    with completed Some s cd n assms(3) show ?thesis
      by (auto simp: apply_event_def refusal_def reduce_shell_def split: option.splits)
  qed (use Some s cd n assms(3) in \<open>simp_all add: apply_event_def refusal_def\<close>)
qed

lemma dispatch_event_marked:
  assumes "engine_inv (srv_engine s)" "wf_event req" "refusal (srv_engine s) req = None"
  shows "\<exists>st m. dispatch_event sv req s = (Inr (EventResponse (ev_sequence req)),
      s\<lparr>srv_engine := st, srv_checkpoints := m, srv_calls := Suc (srv_calls s)\<rparr>) \<and>
    apply_event (srv_engine s) req = Inr st \<and>
    mark_dirty (sv_config sv) (sv_now sv (srv_calls s)) (dirty_generation st) (srv_checkpoints s) = Inr m \<and>
    dirty_generation st \<le> cp_dirty m"
proof -
  obtain st where st: "apply_event (srv_engine s) req = Inr st" using refusal_None [OF assms(1,2)] assms(3) by blast
  have "0 \<le> dirty_generation st"
    using apply_event_inv [OF assms(1) st] by (auto simp: engine_inv_def wf_snapshot_def)
  then have "\<exists>m. mark_dirty (sv_config sv) n (dirty_generation st) cp = Inr m \<and> dirty_generation st \<le> cp_dirty m" for n cp
    by (auto simp: mark_dirty_def Let_def)
  then obtain m where "mark_dirty (sv_config sv) (sv_now sv (srv_calls s)) (dirty_generation st) (srv_checkpoints s) = Inr m"
    "dirty_generation st \<le> cp_dirty m" by blast
  with st show ?thesis by (simp add: dispatch_event_def mark_def tick_def bind_s_run)
qed

lemma dispatch_event_answer:
  assumes "engine_inv (srv_engine s)" "wf_event req"
  shows "\<exists>t. dispatch_event sv req s =
      (Inr (case refusal (srv_engine s) req of Some c \<Rightarrow> error_response c | None \<Rightarrow> EventResponse (ev_sequence req)), t) \<and>
    (case refusal (srv_engine s) req of Some c \<Rightarrow> t = s | None \<Rightarrow> apply_event (srv_engine s) req = Inr (srv_engine t))"
proof (cases "refusal (srv_engine s) req")
  case (Some c)
  from apply_event_refused [OF assms Some] obtain m where "apply_event (srv_engine s) req = Inl (ValueError m)"
    "event_error (ValueError m) = c" by blast
  with Some show ?thesis by (simp add: dispatch_event_def bind_s_run)
next
  case None
  with dispatch_event_marked [OF assms None, of sv] show ?thesis by auto
qed

text \<open>C29: an event is answered with its own number if it is accepted; it is then recorded, and its generation is marked for
  the next checkpoint, now. Otherwise the answer names the first check that failed - who sent it, then its number, then
  whether the shell has exited, then the number of the command - and nothing changes.\<close>
theorem event_answer:
  assumes "engine_inv (srv_engine s)" "wf_event req"
  shows "\<exists>t. dispatch_event sv req s =
      (Inr (case refusal (srv_engine s) req of Some c \<Rightarrow> error_response c | None \<Rightarrow> EventResponse (ev_sequence req)), t) \<and>
    (case refusal (srv_engine s) req of
       Some c \<Rightarrow> t = s
     | None \<Rightarrow> \<exists>st m. apply_event (srv_engine s) req = Inr st \<and>
         mark_dirty (sv_config sv) (sv_now sv (srv_calls s)) (dirty_generation st) (srv_checkpoints s) = Inr m \<and>
         dirty_generation st \<le> cp_dirty m \<and>
         t = s\<lparr>srv_engine := st, srv_checkpoints := m, srv_calls := Suc (srv_calls s)\<rparr>)"
proof (cases "refusal (srv_engine s) req")
  case (Some c)
  with dispatch_event_answer [OF assms, of sv] show ?thesis by simp
next
  case None
  with dispatch_event_marked [OF assms None, of sv] show ?thesis by (simp, blast)
qed

section \<open>What a request can launch\<close>

abbreviation srv_launched :: "Server \<Rightarrow> string list list" where
  "srv_launched s \<equiv> launched (rt_world (srv_runtime s))"

definition on_file :: "service \<Rightarrow> Server \<Rightarrow> RecoveryRecord \<Rightarrow> bool" where
  "on_file sv s r \<longleftrightarrow> (\<exists>n u. load_recovery (sv_env sv) (sv_io sv n) (srv_store s) = (Inr (Some r), u))"

text \<open>
  The command line of the service's terminal that restores, in the order of the selection, the selected items of a
  workspace that are not completed and whose recorded terminal is supported, with no command but those the user approved.
\<close>

definition approved_line ::
  "service \<Rightarrow> RecoveryRecord \<Rightarrow> string list \<Rightarrow> string list \<Rightarrow> (string \<times> string) list \<Rightarrow> string list \<Rightarrow> bool" where
  "approved_line sv r selected approved files argv \<longleftrightarrow>
     (\<exists>a todo. sv_adapter sv = Some a \<and> sound_argv a (terminals (sv_machine sv)) todo files argv \<and>
        map li_item_id todo = filter (adapter_known r) (filter (\<lambda>i. i \<notin> set (completed_item_ids r)) selected) \<and>
        (\<forall>l \<in> set todo. launch_allowed (sv_machine sv) (sv_home sv) r approved l))"

lemma launch_allowed_mono: "launch_allowed m h r a l \<Longrightarrow> set a \<subseteq> set b \<Longrightarrow> launch_allowed m h r b l"
  by (cases "li_approved_command l") (auto simp: launch_allowed_def may_run_def)

lemma on_store_Inr: "on_store sv f s = (Inr x, t) \<Longrightarrow>
    \<exists>u. f (sv_env sv) (sv_io sv (srv_calls s)) (srv_store s) = (Inr x, u) \<and>
      t = s\<lparr>srv_calls := Suc (srv_calls s), srv_store := u\<rparr>"
  by (auto simp: on_store_def tick_def bind_s_Inr on_part_run)

lemma on_store_Inl: "on_store sv f s = (Inl e, t) \<Longrightarrow>
    \<exists>u. f (sv_env sv) (sv_io sv (srv_calls s)) (srv_store s) = (Inl e, u) \<and>
      t = s\<lparr>srv_calls := Suc (srv_calls s), srv_store := u\<rparr>"
  by (auto simp: on_store_def tick_def bind_s_Inl on_part_run)

lemma catch_Inr: "catch m h s = (Inr x, t) \<longleftrightarrow> m s = (Inr x, t) \<or> (\<exists>e u. m s = (Inl e, u) \<and> h e u = (Inr x, t))"
  by (auto simp: catch_def split: prod.splits sum.splits)

lemma catch_Inl: "catch m h s = (Inl e, t) \<longleftrightarrow> (\<exists>e' u. m s = (Inl e', u) \<and> h e' u = (Inl e, t))"
  by (auto simp: catch_def split: prod.splits sum.splits)

lemma validate_workspace_None: "validate_workspace r w = None \<longleftrightarrow> (\<exists>x. r = Some x \<and> workspace_id x = w)"
  by (auto simp: validate_workspace_def split: option.splits)

lemma with_recovery_Inr:
  assumes "with_recovery sv w k s = (Inr p, t)"
  shows "(\<exists>x. p = Answer x) \<or>
    (\<exists>r u. on_file sv s r \<and> workspace_id r = w \<and> k r u = (Inr p, t))"
proof -
  from assms obtain l v where l: "catch (bind_s (on_store sv load_recovery) (\<lambda>r. ret (Inr r)))
       (\<lambda>e. if storage_error e then ret (Inl (error_response PERSISTENCE_FAILED)) else raise_s e) s = (Inr l, v)"
    and k: "(case l of
       Inl answer \<Rightarrow> ret (Answer answer)
     | Inr r \<Rightarrow>
         (case validate_workspace r w of
            Some mismatch \<Rightarrow> ret (Answer mismatch)
          | None \<Rightarrow> (case r of None \<Rightarrow> raise_s (AssertionError []) | Some x \<Rightarrow> k x))) v = (Inr p, t)"
    by (auto simp: with_recovery_def bind_s_Inr)
  show ?thesis
  proof (cases "\<exists>x. l = Inr (Some x) \<and> workspace_id x = w")
    case True
    then obtain x where x: "l = Inr (Some x)" "workspace_id x = w" by blast
    then have "on_file sv s x" using l
      by (auto simp: on_file_def catch_Inr bind_s_Inr split: if_splits dest!: on_store_Inr)
    then show ?thesis using k x by (auto simp: validate_workspace_def)
  next
    case False
    then show ?thesis using k by (auto simp: validate_workspace_def split: sum.splits option.splits if_splits)
  qed
qed

lemma execute_begin_Run:
  assumes "execute_begin sv w selected approved s = (Inr (RunAttempt r sel app source), t)"
  shows "on_file sv s r \<and> workspace_id r = w \<and> sel = filter (\<lambda>i. i \<notin> set (completed_item_ids r)) selected \<and> set app \<subseteq> set approved"
  using with_recovery_Inr [OF assms [unfolded execute_begin_def]]
  by (auto simp: Let_def bind_s_Inr split: if_splits)

lemma retryable_not_completed: "set (retryable_ids r source) \<inter> set (completed_item_ids r) = {}"
  by (auto simp: retryable_ids_def)

lemma retry_begin_Run:
  assumes "retry_begin sv w a approved s = (Inr (RunAttempt r sel app source), t)"
  shows "on_file sv s r \<and> workspace_id r = w \<and> app = approved \<and>
    (\<exists>x. find_attempt r (Some a) = Some x \<and> sel = retryable_ids r x)"
  using with_recovery_Inr [OF assms [unfolded retry_begin_def]]
  by (auto simp: Let_def split: if_splits option.splits)

lemma attempt_launch_lines:
  assumes "attempt_launch sv a r sel app source s = (x, t)" "set sel \<inter> set (completed_item_ids r) = {}" "sv_adapter sv = Some a"
  shows "\<exists>new. srv_launched t = srv_launched s @ new \<and>
    (\<forall>argv \<in> set new. approved_line sv r sel app (session_files (rt_world (srv_runtime t))) argv)"
proof -
  let ?m = "sv_machine sv"
  obtain y u where b: "build_attempt ?m r sel app a source (sv_home sv) (srv_runtime s) = (y, u)" by fastforce
  have same: "launched (rt_world u) = srv_launched s"
    using build_attempt_launches [of ?m r sel app a source "sv_home sv" "srv_runtime s"] b by simp
  show ?thesis
  proof (cases y)
    case (Inl e)
    with assms(1) b same show ?thesis
      by (auto simp: attempt_launch_def bind_s_run on_runtime_def on_part_def)
  next
    case (Inr z)
    then obtain attempt acts where z: "build_attempt ?m r sel app a source (sv_home sv) (srv_runtime s) = (Inr (attempt, acts), u)"
      using b by (cases z) auto
    from build_attempt_Inr(1) [OF z] obtain todo where todo: "\<forall>l \<in> set todo. launch_allowed ?m (sv_home sv) r app l"
      "map li_item_id todo = filter (adapter_known r) sel"
      "\<forall>argv \<in> set (command_lines acts). sound_argv a (terminals ?m) todo (session_files (rt_world u)) argv" by blast
    obtain v q where e: "execute_actions (terminals ?m) acts (rt_world u) = (q, v)" by fastforce
    obtain n where n: "launched v = launched (rt_world u) @ take n (command_lines acts)"
      using execute_actions_launches [of "terminals ?m" acts "rt_world u"] e by auto
    have files: "session_files v = session_files (rt_world u)"
      using execute_actions_files [of "terminals ?m" acts "rt_world u"] e by simp
    have "rt_world (srv_runtime t) = v"
    proof (cases q)
      case (Inl e')
      with assms(1) z e show ?thesis
        by (simp add: attempt_launch_def bind_s_run on_runtime_def on_world_def on_part_def adapter_execute_eq) auto
    next
      case (Inr raw)
      with assms(1) z e show ?thesis
        by (simp add: attempt_launch_def bind_s_run on_runtime_def on_world_def on_part_def adapter_execute_eq
            split: if_splits sum.splits) auto
    qed
    moreover have "approved_line sv r sel app (session_files v) argv" if "argv \<in> set (take n (command_lines acts))" for argv
    proof -
      have "filter (\<lambda>i. i \<notin> set (completed_item_ids r)) sel = sel" using assms(2) by (auto simp: filter_id_conv)
      moreover have "sound_argv a (terminals ?m) todo (session_files v) argv"
        using todo(3) in_set_takeD [OF that] files by simp
      ultimately show ?thesis using todo(1,2) assms(3) unfolding approved_line_def by auto
    qed
    ultimately show ?thesis using n same by auto
  qed
qed

lemma frames_begin_runtime:
  "frames srv_runtime (execute_begin sv w selected approved)" "frames srv_runtime (retry_begin sv w a approved)"
  "frames srv_runtime (attempt_commit sv r attempt outs)" "frames srv_runtime (on_store sv f)"
  by (rule frames_begin frames_commit frames_on_store; simp)+

lemma run_attempt_runtime:
  assumes "sv_adapter sv = Some a" "detect (terminals (sv_machine sv)) a"
    "attempt_launch sv a r sel app source s = (y, u)" "run_attempt sv r sel app source s = (x, t)"
  shows "srv_runtime t = srv_runtime u"
  using assms frames_InrD [OF frames_begin_runtime(3)]
  by (auto simp: run_attempt_def catch_def bind_s_run split: sum.splits option.splits prod.splits)

lemma run_attempt_lines:
  assumes "run_attempt sv r sel app source s = (x, t)" "set sel \<inter> set (completed_item_ids r) = {}"
  shows "\<exists>new. srv_launched t = srv_launched s @ new \<and>
    (\<forall>argv \<in> set new. approved_line sv r sel app (session_files (rt_world (srv_runtime t))) argv)"
proof (cases "\<exists>a. sv_adapter sv = Some a \<and> detect (terminals (sv_machine sv)) a")
  case False
  with assms(1) show ?thesis by (auto simp: run_attempt_def split: option.splits if_splits)
next
  case True
  then obtain a where a: "sv_adapter sv = Some a" "detect (terminals (sv_machine sv)) a" by blast
  obtain y u where l: "attempt_launch sv a r sel app source s = (y, u)" by fastforce
  have "srv_runtime t = srv_runtime u" by (rule run_attempt_runtime [OF a l assms(1)])
  with attempt_launch_lines [OF l assms(2) a(1)] show ?thesis by simp
qed

lemma view_keeps_world: "keeps_world (view_all m is)"
proof (induction "is")
  case (Cons i "is")
  then show ?case
    by (auto simp: recovery_view_def view_resume_def view_session_def Let_def no_resume_def split: list.splits)
qed auto

lemma on_runtime_world: "keeps_world n \<Longrightarrow> frames (\<lambda>s. rt_world (srv_runtime s)) (on_runtime n)"
  by (auto simp: frames_def on_runtime_def on_part_def split: prod.splits) (metis snd_conv)

lemma no_launch:
  assumes "\<And>w a b. req \<noteq> RestoreExecuteRequest w a b" "\<And>w a b. req \<noteq> RestoreRetryRequest w a b"
  shows "frames (\<lambda>s. rt_world (srv_runtime s)) (dispatch_request sv peer req)"
proof (cases req)
  case (RestoreListRequest w a)
  then show ?thesis
    by (auto simp: restore_list_def prepare_record_def list_record_def
        intro!: frames_on_store on_runtime_world view_keeps_world)
next
  case (DiscardRequest w)
  then show ?thesis unfolding DiscardRequest dispatch_request.simps discard_workspace_def
    by (auto intro!: frames_with_recovery frames_on_store simp: only_answer_def split: phase.splits)
qed (use assms in \<open>auto simp: dispatch_register_def dispatch_event_def mark_def dispatch_status_def dispatch_snapshot_def await_flush_def
      intro!: frames_on_store frames_tick frames_modify split: flush_answer.splits\<close>)

text \<open>The items a request asks to restore, of the record on file, and what it approves.\<close>

definition requested :: "service \<Rightarrow> Server \<Rightarrow> ServiceRequest \<Rightarrow> RecoveryRecord \<Rightarrow> string list \<Rightarrow> string list \<Rightarrow> bool" where
  "requested sv s req r selected approved \<longleftrightarrow> on_file sv s r \<and>
     (req = RestoreExecuteRequest (workspace_id r) selected approved \<or>
      (\<exists>a source. req = RestoreRetryRequest (workspace_id r) a approved \<and> find_attempt r (Some a) = Some source \<and>
         selected = retryable_ids r source))"

definition begins :: "service \<Rightarrow> ServiceRequest \<Rightarrow> (Server, phase) act \<Rightarrow> bool" where
  "begins sv req b \<longleftrightarrow> frames srv_runtime b \<and>
     (\<forall>s r sel app source t. b s = (Inr (RunAttempt r sel app source), t) \<longrightarrow>
        set sel \<inter> set (completed_item_ids r) = {} \<and>
        (\<exists>selected approved. requested sv s req r selected approved \<and>
           sel = filter (\<lambda>i. i \<notin> set (completed_item_ids r)) selected \<and> set app \<subseteq> set approved))"

lemma begins_execute: "begins sv (RestoreExecuteRequest w a b) (execute_begin sv w a b)"
proof -
  have "set sel \<inter> set (completed_item_ids r) = {} \<and>
      (\<exists>selected approved. requested sv s (RestoreExecuteRequest w a b) r selected approved \<and>
         sel = filter (\<lambda>i. i \<notin> set (completed_item_ids r)) selected \<and> set app \<subseteq> set approved)"
    if "execute_begin sv w a b s = (Inr (RunAttempt r sel app source), t)" for s r sel app source t
    using execute_begin_Run [OF that] by (intro conjI exI [of _ a] exI [of _ b]) (auto simp: requested_def)
  then show ?thesis unfolding begins_def using frames_begin_runtime(1) by blast
qed

lemma begins_retry: "begins sv (RestoreRetryRequest w a b) (retry_begin sv w a b)"
proof -
  have "set sel \<inter> set (completed_item_ids r) = {} \<and>
      (\<exists>selected approved. requested sv s (RestoreRetryRequest w a b) r selected approved \<and>
         sel = filter (\<lambda>i. i \<notin> set (completed_item_ids r)) selected \<and> set app \<subseteq> set approved)"
    if "retry_begin sv w a b s = (Inr (RunAttempt r sel app source), t)" for s r sel app source t
  proof -
    from retry_begin_Run [OF that] obtain y where y: "on_file sv s r" "workspace_id r = w" "app = b"
      "find_attempt r (Some a) = Some y" "sel = retryable_ids r y" by blast
    then have "set sel \<inter> set (completed_item_ids r) = {}" using retryable_not_completed by simp
    moreover from this have "sel = filter (\<lambda>i. i \<notin> set (completed_item_ids r)) sel"
      by (metis (mono_tags, lifting) disjoint_iff filter_True)
    moreover have "requested sv s (RestoreRetryRequest w a b) r sel b" using y by (auto simp: requested_def)
    ultimately show ?thesis using y(3) by blast
  qed
  then show ?thesis unfolding begins_def using frames_begin_runtime(2) by blast
qed

lemma begun_launches:
  assumes b: "begins sv req b" and d: "bind_s b (continue_phase sv) s = (x, t)"
  shows "\<exists>new. srv_launched t = srv_launched s @ new \<and>
    (\<forall>argv \<in> set new. \<exists>r selected approved. requested sv s req r selected approved \<and>
       approved_line sv r selected approved (session_files (rt_world (srv_runtime t))) argv)"
proof -
  obtain y u where y: "b s = (y, u)" by fastforce
  have same: "srv_runtime u = srv_runtime s" using b framesD [of srv_runtime b s] y by (simp add: begins_def)
  show ?thesis
  proof (cases "\<exists>r sel app source. y = Inr (RunAttempt r sel app source)")
    case False
    then show ?thesis using d y same
      by (cases y) (auto simp: bind_s_run continue_phase_def split: phase.splits)
  next
    case True
    then obtain r sel app source where run: "y = Inr (RunAttempt r sel app source)" by blast
    from b y run obtain selected approved where r: "set sel \<inter> set (completed_item_ids r) = {}"
      "requested sv s req r selected approved" and sub: "sel = filter (\<lambda>i. i \<notin> set (completed_item_ids r)) selected" "set app \<subseteq> set approved"
      unfolding begins_def by blast
    from run d y have "run_attempt sv r sel app source u = (x, t)" by (simp add: bind_s_run continue_phase_def)
    from run_attempt_lines [OF this r(1)] obtain new where new: "srv_launched t = srv_launched u @ new"
      "\<forall>argv \<in> set new. approved_line sv r sel app (session_files (rt_world (srv_runtime t))) argv" by blast
    have "approved_line sv r selected approved files argv" if "approved_line sv r sel app files argv" for files argv
      using that launch_allowed_mono [OF _ sub(2)] unfolding approved_line_def sub(1) by (simp only: filter_filter conj_absorb) blast
    with new r(2) show ?thesis unfolding same by blast
  qed
qed

lemma dispatch_launches:
  assumes "dispatch_request sv peer req s = (x, t)"
  shows "\<exists>new. srv_launched t = srv_launched s @ new \<and>
    (\<forall>argv \<in> set new. \<exists>r selected approved. requested sv s req r selected approved \<and>
       approved_line sv r selected approved (session_files (rt_world (srv_runtime t))) argv)"
proof -
  consider (execute) w a b where "req = RestoreExecuteRequest w a b" | (retry) w a b where "req = RestoreRetryRequest w a b"
    | (other) "\<And>w a b. req \<noteq> RestoreExecuteRequest w a b" "\<And>w a b. req \<noteq> RestoreRetryRequest w a b" by blast
  then show ?thesis
  proof cases
    case execute
    show ?thesis unfolding execute
      by (rule begun_launches [OF begins_execute])
        (use assms execute in \<open>simp add: restore_execute_def\<close>)
  next
    case retry
    show ?thesis unfolding retry
      by (rule begun_launches [OF begins_retry])
        (use assms retry in \<open>simp add: restore_retry_def\<close>)
  next
    case other
    then show ?thesis using frames_InrD [OF no_launch [OF other] assms] by auto
  qed
qed

section \<open>Every answer is a well-formed line\<close>

lemma encode_response_fits:
  assumes "wf_response redacted_display r" "response_to_dict r = Inr p" "encode_json_line p MAX_RESPONSE_BYTES ''response'' = Inr raw"
  shows "encode_response r = Inr raw"
proof -
  have "decode_response raw = Inr (wire_view r)"
    using response_line.read_written [OF assms(1), of raw] assms(2,3)
    by (simp add: decode_response_def response_line.write_line_def response_line.read_line_def)
  then show ?thesis using assms(2,3) response_tree_safe [OF assms(2)] by (simp add: encode_response_def)
qed

lemma error_response_encodes: "\<exists>raw. encode_response (error_response c) = Inr raw"
proof -
  let ?p = "[(''schema_version'', JInt 1), (''ok'', JBool False), (''response'', JStr ''error''),
       (''error'', JObj [(''code'', JStr (ErrorCode_value c)), (''message'', JStr (ERROR_MESSAGES c))])]"
  have "ints_printable (JInt 1)" by (rule small_int_printable) (simp add: MAX_INTEGER_def)
  then have "\<exists>raw. encode_json_line ?p MAX_RESPONSE_BYTES ''response'' = Inr raw"
    by (cases c) (simp_all add: encode_json_line_def json_string_with_def escape_char_def utf8_encode_def code_def int_text_def
        nat_text.simps MAX_RESPONSE_BYTES_def Let_def del: ints_printable.simps(1))
  then obtain raw where "encode_json_line ?p MAX_RESPONSE_BYTES ''response'' = Inr raw" ..
  with encode_response_fits [of "error_response c" ?p raw] show ?thesis by (auto simp: error_response_def)
qed

lemma fallback_encodes: "encode_response (error_response INTERNAL_ERROR) = Inr FALLBACK_ERROR_BYTES"
  using error_response_encodes [of INTERNAL_ERROR] by (auto simp: FALLBACK_ERROR_BYTES_def error_response_def)

lemma write_response_typed:
  "\<exists>v t. decode_response (write_response r) = Inr v \<and> wf_response decoded_display v \<and>
     length (write_response r) \<le> MAX_RESPONSE_BYTES \<and> write_response r = t @ [CHR 0x0A] \<and> CHR 0x0A \<notin> set t"
proof -
  have "\<exists>q. encode_response q = Inr (write_response r)"
    using fallback_encodes by (cases "encode_response r") (auto simp: write_response_def)
  then show ?thesis using encode_response_typed by blast
qed

lemma write_error: "decode_response (write_response (error_response c)) = Inr (error_response c)"
proof -
  obtain raw where raw: "encode_response (error_response c) = Inr raw" using error_response_encodes ..
  then have "length raw \<le> MAX_MESSAGE_BYTES"
    using encode_response_typed [OF raw] by (auto simp: MAX_RESPONSE_BYTES_def MAX_MESSAGE_BYTES_def)
  then have "write_response (error_response c) = raw" using raw by (simp add: write_response_def)
  then show ?thesis using encode_response_line [OF _ raw] by (simp add: error_response_def)
qed

lemma serve_stream_typed: "raw \<in> set (fst (serve_stream sv p auth ins s)) \<Longrightarrow> \<exists>r. raw = write_response r"
proof (induction sv p auth ins s rule: serve_stream.induct)
  case (3 sv p auth line ins s)
  show ?case
  proof (cases "line = [] \<or> (\<exists>e. decode_request line = Inl e)")
    case True
    with "3.prems" show ?thesis by (cases "line = []") auto
  next
    case False
    then obtain req where req: "decode_request line = Inr req" "line \<noteq> []" by (cases "decode_request line") auto
    obtain x t where t: "dispatch_request sv (Some p) req s = (x, t)" by fastforce
    show ?thesis
    proof (cases x)
      case (Inl e)
      with req t "3.prems" show ?thesis by auto
    next
      case (Inr r)
      with req t "3.prems" "3.IH" [OF req(2,1) t [symmetric] Inr] show ?thesis
        by (auto split: prod.splits if_splits)
    qed
  qed
qed (auto split: if_splits)

lemma serve_stream_line: "serve_stream sv p auth ins s = (out, t) \<Longrightarrow> raw \<in> set out \<Longrightarrow> \<exists>r. raw = write_response r"
  using serve_stream_typed [of raw sv p auth ins s] by simp

text \<open>Whatever a connection delivers, every line the service writes is at most 16384 bytes long, ends in its only
  newline, and decodes to a well-formed response; a request that fails inside still gets the fixed line of an
  internal error. A peer with another user identifier gets one line, the rejection, and nothing changes.\<close>
theorem answers_typed:
  assumes "handle_connection sv peer ins s = (out, t)" "raw \<in> set out"
  shows "(\<exists>v u. decode_response raw = Inr v \<and> wf_response decoded_display v \<and>
       length raw \<le> 16384 \<and> raw = u @ [CHR 0x0A] \<and> CHR 0x0A \<notin> set u) \<and>
    ((\<exists>p. peer = Some (p, sv_uid sv)) \<or>
       out = [raw] \<and> t = s \<and> decode_response raw = Inr (error_response PEER_REJECTED))"
proof -
  have "\<exists>r. raw = write_response r"
  proof (cases "\<exists>p. peer = Some (p, sv_uid sv)")
    case True
    then obtain p where "serve_stream sv p False ins s = (out, t)" using assms(1) by (auto simp: handle_connection_def)
    from serve_stream_line [OF this assms(2)] show ?thesis .
  next
    case False
    then have "raw = write_response (error_response PEER_REJECTED)"
      using assms by (auto simp: handle_connection_def split: option.splits if_splits)
    then show ?thesis by blast
  qed
  with write_response_typed show ?thesis using assms write_error [of PEER_REJECTED]
    by (auto simp: handle_connection_def MAX_RESPONSE_BYTES_def split: option.splits if_splits)
qed

section \<open>What goes wrong\<close>

text \<open>Right after a restart with a stored snapshot of a positive generation, a request for a snapshot is answered with
  a persistence failure although everything is on disk, until the first change: the engine starts with the stored
  generation and the manager with zero.\<close>
theorem snapshot_fails_after_restart:
  assumes "0 < generation snap" "srv_engine s = initial_state snap" "srv_checkpoints s = CheckpointManager_init"
  shows "fst (dispatch_request sv peer SnapshotRequest s) = Inr (error_response PERSISTENCE_FAILED) \<and>
    srv_checkpoints (snd (dispatch_request sv peer SnapshotRequest s)) = srv_checkpoints s"
  using assms by (simp add: dispatch_snapshot_def await_flush_def bind_s_run flush_begin_def CheckpointManager_init_def
      status_def initial_state_def)

lemma empty_listing_unencodable:
  "write_response (RestoreListResponse (Some w) [] ds) = FALLBACK_ERROR_BYTES"
proof (cases "encode_response (RestoreListResponse (Some w) [] ds)")
  case (Inr raw)
  then obtain p where p: "response_to_dict (RestoreListResponse (Some w) [] ds) = Inr p"
    and l: "encode_json_line p MAX_RESPONSE_BYTES ''response'' = Inr raw" and d: "\<exists>v. decode_response raw = Inr v"
    by (auto simp: encode_response_def)
  have "decode_json_line raw MAX_RESPONSE_BYTES ''response'' = Inr p"
    by (rule decode_encoded_line [OF l response_line.enc_plain [OF p]])
  with d obtain v where v: "decode_response_payload p = Inr v" by (auto simp: decode_response_def)
  obtain ds' where "p = ok_head ''restore_list'' @ [(''workspace_id'', JStr w), (''items'', JArr []),
       (''diagnostics'', JArr (map text_json ds'))]"
    using p by (auto simp: json_option_def bounded_typed_sequence_def split: if_splits)
  then have False using v by (auto simp: ok_dispatches read_restore_list_response_def response_simps object_list_def)
  then show ?thesis ..
qed (simp add: write_response_def)

section \<open>What a result promises\<close>

text \<open>The directory represents a state of the workspace machine, and the system's answers let files be written.\<close>

definition good_storage :: "service \<Rightarrow> Store \<Rightarrow> workspace \<Rightarrow> bool" where
  "good_storage sv st a \<longleftrightarrow> represents (sv_env sv) st a \<and> own_readable (sv_env sv) \<and>
     (\<forall>n. fresh_token (sv_io sv n) st \<and> float_printable (env_repr (sv_env sv)) (io_time (sv_io sv n))) \<and>
     (\<forall>r. ws_record a = Some r \<longrightarrow> float_printable (env_repr (sv_env sv)) (created_at r))"

lemma load_result:
  assumes "represents env st a" "load_recovery env io st = (Inr (Some r), v)"
  shows "ws_record a = Some r \<and> v = st \<and> ws_load a = (Some r, a)"
proof -
  obtain u where u: "load_recovery_unlocked env io (entered st) = (Inr (Some r), u)" "v = left u"
    using transaction_InrD assms(2) by (metis load_recovery_def)
  from load_recovery_represents [of env "entered st" a io "Some r" u] assms(1) u
  have "Some r = fst (ws_load a)" "u = entered st" by simp_all
  then show ?thesis using ws_load_Some [of a r] u(2) by (cases "ws_load a") simp
qed

lemma commit_fresh:
  assumes "represents env st a" "commit_outcomes env io w attempt outs st = (Inr u, t)" "fresh_token io st" "fresh_token io' st"
  shows "fresh_token io' t"
proof -
  obtain v where v: "commit_outcomes_unlocked env io w attempt outs (entered st) = (Inr u, v)" "t = left v"
    using transaction_InrD assms(2) by (metis commit_outcomes_def)
  then obtain r s where l: "load_recovery_unlocked env io (entered st) = (Inr (Some r), s)"
    and up: "update_recovery_unlocked env io u w (source_generation r) s = (Inr (), v)"
    by (auto simp: commit_outcomes_unlocked_def bind_s_eq split: option.splits)
  have s: "s = entered st" using load_recovery_represents [of env "entered st" a io _ s] assms(1) l by simp
  from up s l have "write_recovery_record env io u (entered st) = (Inr (), v)"
    by (auto simp: update_recovery_unlocked_def bind_s_eq)
  then obtain p where "atomic_json_write env io recovery_file p recovery_from_dict MAX_RECOVERY_BYTES ''recovery'' (entered st) = (Inr (), v)"
    by (auto simp: write_recovery_record_def bind_s_eq)
  from atomic_json_write_outcome [OF _ _ this] assms(3) obtain enc where
    "replaced env (entered st) (temporary_name io) recovery_file enc v"
    by (auto simp: write_outcome_def fresh_token_def stat_file_def)
  from replaced_stat [OF this, of "temporary_name io'"] assms(4) v(2) show ?thesis
    by (simp add: fresh_token_def stat_file_def)
qed

lemma commit_result:
  assumes g: "good_storage sv st a" and c: "commit_outcomes (sv_env sv) (sv_io sv n) w attempt outs st = (Inr u, t)"
    and outs: "\<forall>p \<in> set outs. wf_outcome p"
  shows "good_storage sv t (a\<lparr>ws_record := Some u\<rparr>) \<and> workspace_id u = w \<and>
    (\<exists>r. ws_record a = Some r \<and> u = r\<lparr>attempts := attempts r @ [attempt\<lparr>outcomes := outs\<rparr>],
       completed_item_ids := add_completed (completed_item_ids r) outs\<rparr>)"
proof -
  have f: "fresh_token (sv_io sv n) st" "represents (sv_env sv) st a" using g by (simp_all add: good_storage_def)
  have "run_op (sv_env sv) (sv_io sv n) (Commit_Outcomes w attempt outs) st = (Inr (Some u), t)"
    using c by (simp add: run_op_def bind_s_run)
  from run_op_represents [OF f(2) this _ f(1)] g outs obtain b where
    b: "ws_step (Commit_Outcomes w attempt outs) a = Inr (Some u, b)" "represents (sv_env sv) t b"
    by (auto simp: good_storage_def op_ok_def)
  then obtain r where r: "fst (ws_load a) = Some r" "committed_record r w attempt outs = Inr u"
    "b = snd (ws_load a)\<lparr>ws_record := Some u\<rparr>"
    by (auto simp: ws_step_def ws_commit_def split: prod.splits option.splits)
  have a: "ws_record a = Some r" "snd (ws_load a) = a" using ws_load_Some [OF r(1)] by simp_all
  have "wf_recovery r" by (rule record_on_file_wf [OF represents_record [OF f(2) a(1)]])
  note u = committed_record_Inr [OF r(2) this outs]
  have "fresh_token (sv_io sv k) t" for k
    by (rule commit_fresh [OF f(2) c f(1)]) (use g in \<open>simp add: good_storage_def\<close>)
  then have "good_storage sv t (a\<lparr>ws_record := Some u\<rparr>)"
    using g b(2) r(3) a u by (auto simp: good_storage_def)
  then show ?thesis using u a(1) by auto
qed

lemma finish_result:
  assumes "good_storage sv st a" "complete_or_discard (sv_env sv) (sv_io sv n) w d st = (Inr (), t)"
  shows "represents (sv_env sv) t ((mark_finished d w a)\<lparr>ws_record := None\<rparr>)"
proof -
  have f: "fresh_token (sv_io sv n) st" "represents (sv_env sv) st a" using assms(1) by (simp_all add: good_storage_def)
  have "run_op (sv_env sv) (sv_io sv n) (Finish_Workspace d w) st = (Inr None, t)"
    using assms(2) by (simp add: run_op_def bind_s_run)
  from run_op_represents [OF f(2) this _ f(1)] assms(1) obtain b where
    b: "ws_step (Finish_Workspace d w) a = Inr (None, b)" "represents (sv_env sv) t b"
    by (auto simp: good_storage_def op_ok_def)
  then obtain r where "fst (ws_load a) = Some r" "b = (mark_finished d w (snd (ws_load a)))\<lparr>ws_record := None\<rparr>"
    by (auto simp: ws_step_def ws_finish_def split: prod.splits option.splits)
  with ws_load_Some [of a r] b(2) show ?thesis by simp
qed

definition reflects :: "service \<Rightarrow> Store \<Rightarrow> string \<Rightarrow> OutcomeView list \<Rightarrow> string list \<Rightarrow> bool" where
  "reflects sv st w views remaining \<longleftrightarrow>
     (\<exists>b. represents (sv_env sv) st b \<and>
        (case ws_record b of
           None \<Rightarrow> finished b w \<and> remaining = []
         | Some u \<Rightarrow> workspace_id u = w \<and> remaining = unfinished_ids u \<and>
             (\<forall>v \<in> set views. ov_kind v \<in> {SUCCESS, WARNING} \<longrightarrow> ov_item_id v \<in> set (completed_item_ids u))))"

lemma error_response_other [simp]: "error_response c \<noteq> RestoreResultResponse w i views remaining"
  by (simp add: error_response_def)

lemma result_response_Inr:
  assumes "result_response r i os = Inr resp"
  shows "\<exists>views. resp = RestoreResultResponse (workspace_id r) i views (unfinished_ids r) \<and>
    (\<forall>v \<in> set views. \<exists>p \<in> set os. ov_item_id v = outcome_item_id p \<and> ov_kind v = outcome_kind p)"
  using assms by (fastforce simp: result_response_def dest: traverse_InrD)

lemma unfinished_none: "set (completed_item_ids r) = set (map item_id (items r)) \<Longrightarrow> unfinished_ids r = []"
  by (auto simp: unfinished_ids_def filter_empty_conv)

lemma attempt_commit_reflects:
  assumes g: "good_storage sv (srv_store s) a" and outs: "\<forall>p \<in> set outs. wf_outcome p"
    and c: "attempt_commit sv r attempt outs s = (Inr (RestoreResultResponse w i views remaining), t)"
  shows "reflects sv (srv_store t) w views remaining"
proof -
  from c obtain u s1 s2 where s1: "on_store sv (\<lambda>env io. commit_outcomes env io (workspace_id r) attempt outs) s = (Inr u, s1)"
    and s2: "when_s (set (completed_item_ids u) = set (map item_id (items u)))
       (on_store sv (\<lambda>env io. complete_or_discard env io (workspace_id r) False)) s1 = (Inr (), s2)"
    and res: "result_response u (attempt_id attempt) outs = Inr (RestoreResultResponse w i views remaining)" "t = s2"
    by (auto simp: attempt_commit_def bind_s_Inr)
  from on_store_Inr [OF s1] obtain v where
    v: "commit_outcomes (sv_env sv) (sv_io sv (srv_calls s)) (workspace_id r) attempt outs (srv_store s) = (Inr u, v)" "srv_store s1 = v"
    by auto
  note cr = commit_result [OF g v(1) outs]
  then obtain r0 where r0: "u = r0\<lparr>attempts := attempts r0 @ [attempt\<lparr>outcomes := outs\<rparr>],
      completed_item_ids := add_completed (completed_item_ids r0) outs\<rparr>" by blast
  have u: "good_storage sv v (a\<lparr>ws_record := Some u\<rparr>)" "workspace_id u = workspace_id r"
    "completed_item_ids u = add_completed (completed_item_ids r0) outs" using cr r0 by simp_all
  from result_response_Inr [OF res(1)] have views: "w = workspace_id u" "remaining = unfinished_ids u"
    "\<forall>x \<in> set views. \<exists>p \<in> set outs. ov_item_id x = outcome_item_id p \<and> ov_kind x = outcome_kind p" by auto
  have completed: "\<forall>x \<in> set views. ov_kind x \<in> {SUCCESS, WARNING} \<longrightarrow> ov_item_id x \<in> set (completed_item_ids u)"
    using views(3) by (auto simp: u(3) set_add_completed terminal_outcome_def)
  show ?thesis
  proof (cases "set (completed_item_ids u) = set (map item_id (items u))")
    case False
    then have "s2 = s1" using s2 by simp
    then have "represents (sv_env sv) (srv_store t) (a\<lparr>ws_record := Some u\<rparr>)"
      using u(1) v(2) res(2) by (simp add: good_storage_def)
    with views completed show ?thesis unfolding reflects_def
      by (intro exI [of _ "a\<lparr>ws_record := Some u\<rparr>"]) simp
  next
    case True
    with s2 obtain x where "complete_or_discard (sv_env sv) (sv_io sv (srv_calls s1)) (workspace_id r) False v = (Inr (), x)"
      "srv_store s2 = x" using v(2) by (auto dest!: on_store_Inr)
    from finish_result [OF u(1) this(1)] this(2) res(2) have
      "represents (sv_env sv) (srv_store t) ((mark_finished False (workspace_id r) (a\<lparr>ws_record := Some u\<rparr>))\<lparr>ws_record := None\<rparr>)"
      by simp
    with views u(2) unfinished_none [OF True] show ?thesis unfolding reflects_def
      by (intro exI [of _ "(mark_finished False (workspace_id r) (a\<lparr>ws_record := Some u\<rparr>))\<lparr>ws_record := None\<rparr>"])
        (simp add: mark_finished_def finished_def)
  qed
qed

lemma run_attempt_reflects:
  assumes g: "good_storage sv (srv_store s) a"
    and c: "run_attempt sv r sel app source s = (Inr (RestoreResultResponse w i views remaining), t)"
  shows "reflects sv (srv_store t) w views remaining"
proof -
  from c obtain k where k: "sv_adapter sv = Some k" "detect (terminals (sv_machine sv)) k"
    by (auto simp: run_attempt_def split: option.splits if_splits)
  with c obtain l u where l: "attempt_launch sv k r sel app source s = (Inr l, u)"
    and m: "(case l of None \<Rightarrow> ret (error_response INTERNAL_ERROR) | Some (attempt, outs) \<Rightarrow> attempt_commit sv r attempt outs) u =
      (Inr (RestoreResultResponse w i views remaining), t)"
    by (auto simp: run_attempt_def catch_Inr bind_s_Inr)
  then obtain attempt outs where outs: "l = Some (attempt, outs)"
    "attempt_commit sv r attempt outs u = (Inr (RestoreResultResponse w i views remaining), t)"
    by (cases l) auto
  have "frames srv_store (attempt_launch sv k r sel app source)"
    unfolding attempt_launch_def by (auto intro!: frames_on_runtime)
  then have "srv_store u = srv_store s" using l framesD by (metis snd_conv)
  moreover have "\<forall>p \<in> set outs. wf_outcome p"
    using l outs(1) by (auto simp: attempt_launch_def bind_s_Inr split: if_splits dest!: traverse_InrD simp: Outcome_init_Inr wf_outcome_def)
  ultimately show ?thesis using attempt_commit_reflects [OF _ _ outs(2)] g by simp
qed

lemma answer_completed_reflects:
  assumes g: "good_storage sv (srv_store s) a" "ws_record a = Some r"
    and c: "answer_completed sv r selected approved s = (Inr (RestoreResultResponse w i views remaining), t)"
    and sel: "set selected \<subseteq> set (completed_item_ids r)"
  shows "reflects sv (srv_store t) w views remaining"
proof -
  from c obtain q where q: "matching_attempt sv r selected approved = Inr q"
    and c': "(case q of
       None \<Rightarrow> ret (error_response UNKNOWN_ITEM)
     | Some x \<Rightarrow>
         bind_s (catch (bind_s (finish_completed sv r) (\<lambda>_. ret True))
           (\<lambda>e. if storage_error e then ret False else raise_s e)) (\<lambda>saved.
         if \<not> saved then ret (error_response PERSISTENCE_FAILED)
         else lift_s (result_response r (attempt_id x)
           (filter (\<lambda>p. outcome_item_id p \<in> set selected) (outcomes x))))) s = (Inr (RestoreResultResponse w i views remaining), t)"
    by (auto simp: answer_completed_def bind_s_Inr)
  then obtain x where x: "q = Some x" by (cases q) auto
  have f: "finish_completed sv r s = (Inr (), t)"
    and res: "result_response r (attempt_id x) (filter (\<lambda>p. outcome_item_id p \<in> set selected) (outcomes x)) =
      Inr (RestoreResultResponse w i views remaining)"
    using c' x by (auto simp: bind_s_Inr catch_Inr split: if_splits)
  from result_response_Inr [OF res] have views: "w = workspace_id r" "remaining = unfinished_ids r"
    "\<forall>v \<in> set views. ov_item_id v \<in> set selected" by auto
  show ?thesis
  proof (cases "set (completed_item_ids r) = set (map item_id (items r))")
    case False
    then have "t = s" using f by (simp add: finish_completed_def)
    with g views sel show ?thesis unfolding reflects_def
      by (intro exI [of _ a]) (auto simp: good_storage_def)
  next
    case True
    with f obtain v where "complete_or_discard (sv_env sv) (sv_io sv (srv_calls s)) (workspace_id r) False (srv_store s) = (Inr (), v)"
      "srv_store t = v" by (auto simp: finish_completed_def dest!: on_store_Inr)
    from finish_result [OF g(1) this(1)] this(2) views unfinished_none [OF True] show ?thesis unfolding reflects_def
      by (intro exI [of _ "(mark_finished False (workspace_id r) a)\<lparr>ws_record := None\<rparr>"])
        (simp add: mark_finished_def finished_def)
  qed
qed

lemma with_recovery_loads:
  assumes "with_recovery sv w k s = (Inr p, t)"
  shows "(\<exists>c. p = Answer (error_response c)) \<or>
    (\<exists>r v. load_recovery (sv_env sv) (sv_io sv (srv_calls s)) (srv_store s) = (Inr (Some r), v) \<and> workspace_id r = w \<and>
       k r (s\<lparr>srv_calls := Suc (srv_calls s), srv_store := v\<rparr>) = (Inr p, t))"
proof -
  from assms obtain l v where l: "catch (bind_s (on_store sv load_recovery) (\<lambda>r. ret (Inr r)))
       (\<lambda>e. if storage_error e then ret (Inl (error_response PERSISTENCE_FAILED)) else raise_s e) s = (Inr l, v)"
    and k: "(case l of
       Inl answer \<Rightarrow> ret (Answer answer)
     | Inr r \<Rightarrow>
         (case validate_workspace r w of
            Some mismatch \<Rightarrow> ret (Answer mismatch)
          | None \<Rightarrow> (case r of None \<Rightarrow> raise_s (AssertionError []) | Some x \<Rightarrow> k x))) v = (Inr p, t)"
    by (auto simp: with_recovery_def bind_s_Inr)
  show ?thesis
  proof (cases "\<exists>x. l = Inr (Some x) \<and> workspace_id x = w")
    case True
    then obtain x where x: "l = Inr (Some x)" "workspace_id x = w" by blast
    then obtain u where "load_recovery (sv_env sv) (sv_io sv (srv_calls s)) (srv_store s) = (Inr (Some x), u)"
      "v = s\<lparr>srv_calls := Suc (srv_calls s), srv_store := u\<rparr>" using l
      by (auto simp: catch_Inr bind_s_Inr split: if_splits dest!: on_store_Inr)
    then show ?thesis using k x by (auto simp: validate_workspace_def)
  next
    case False
    then show ?thesis using k l by (auto simp: validate_workspace_def catch_Inr bind_s_Inr split: sum.splits option.splits if_splits)
  qed
qed

text \<open>C16: what the answer to a restore or a retry tells is what the directory holds: either the workspace is finished and
  nothing remains, or its record is on file, the items reported as remaining are exactly those not completed in
  it, and every item reported as restored is completed in it.\<close>
theorem result_reflects_storage:
  assumes "good_storage sv (srv_store s) a"
    and "dispatch_request sv peer req s = (Inr (RestoreResultResponse w i views remaining), t)"
    and "req = RestoreExecuteRequest w' selected approved \<or> req = RestoreRetryRequest w' i' approved"
  shows "reflects sv (srv_store t) w views remaining"
proof -
  have cont: ?thesis if "begun s = (Inr p, u)" "continue_phase sv p u = (Inr (RestoreResultResponse w i views remaining), t)"
    "begun = with_recovery sv w' k"
    "\<And>r v q u'. load_recovery (sv_env sv) (sv_io sv (srv_calls s)) (srv_store s) = (Inr (Some r), v) \<Longrightarrow>
       k r (s\<lparr>srv_calls := Suc (srv_calls s), srv_store := v\<rparr>) = (Inr q, u') \<Longrightarrow>
       (\<exists>r sel app source. q = RunAttempt r sel app source) \<and> srv_store u' = v \<or> (\<exists>c. q = Answer (error_response c)) \<or>
       (\<exists>x. q = Answer x \<and> answer_completed sv r selected approved (s\<lparr>srv_calls := Suc (srv_calls s), srv_store := v\<rparr>) = (Inr x, u') \<and>
          set selected \<subseteq> set (completed_item_ids r))"
    for begun :: "(Server, phase) act" and p u k
  proof -
    note pieces = that
    from that(1,3) have "with_recovery sv w' k s = (Inr p, u)" by simp
    from with_recovery_loads [OF this] consider c where "p = Answer (error_response c)"
      | r v where "load_recovery (sv_env sv) (sv_io sv (srv_calls s)) (srv_store s) = (Inr (Some r), v)"
         "k r (s\<lparr>srv_calls := Suc (srv_calls s), srv_store := v\<rparr>) = (Inr p, u)" by blast
    then show ?thesis
    proof cases
      case 1
      with pieces(2) show ?thesis by (simp add: continue_phase_def error_response_def)
    next
      case 2
      have a: "ws_record a = Some r" "v = srv_store s"
        using load_result [OF _ 2(1)] assms(1) by (auto simp: good_storage_def)
      consider (run) r' sel app source where "p = RunAttempt r' sel app source" "srv_store u = v"
        | (err) c where "p = Answer (error_response c)"
        | (ans) x where "p = Answer x" "answer_completed sv r selected approved (s\<lparr>srv_calls := Suc (srv_calls s), srv_store := v\<rparr>) = (Inr x, u)"
            "set selected \<subseteq> set (completed_item_ids r)"
        using pieces(4) [OF 2] by blast
      then show ?thesis
      proof cases
        case run
        with pieces(2) run_attempt_reflects [of sv u a r' sel app source w i views remaining t] assms(1) a(2) show ?thesis
          by (simp add: continue_phase_def)
      next
        case err
        with pieces(2) show ?thesis by (simp add: continue_phase_def error_response_def)
      next
        case ans
        with pieces(2) have "x = RestoreResultResponse w i views remaining" "t = u" by (simp_all add: continue_phase_def)
        with ans answer_completed_reflects [of sv "s\<lparr>srv_calls := Suc (srv_calls s), srv_store := v\<rparr>" a r selected approved]
          assms(1) a show ?thesis by simp
      qed
    qed
  qed
  show ?thesis
  proof (cases "req = RestoreExecuteRequest w' selected approved")
    case True
    with assms(2) obtain p u where b: "execute_begin sv w' selected approved s = (Inr p, u)"
      "continue_phase sv p u = (Inr (RestoreResultResponse w i views remaining), t)"
      by (auto simp: restore_execute_def bind_s_Inr)
    show ?thesis
      by (rule cont [where begun = "execute_begin sv w' selected approved", OF b execute_begin_def])
        (auto simp: Let_def bind_s_Inr filter_empty_conv split: if_splits)
  next
    case False
    with assms(2,3) obtain p u where b: "retry_begin sv w' i' approved s = (Inr p, u)"
      "continue_phase sv p u = (Inr (RestoreResultResponse w i views remaining), t)"
      by (auto simp: restore_retry_def bind_s_Inr)
    show ?thesis
      by (rule cont [where begun = "retry_begin sv w' i' approved", OF b retry_begin_def])
        (auto simp: Let_def split: if_splits option.splits)
  qed
qed

section \<open>A concrete service\<close>

definition demo_service :: service where
  "demo_service = \<lparr>sv_uid = 1000, sv_adapter = Some Konsole, sv_boot = ''x'', sv_home = ''/home'',
     sv_machine = demo_machine\<lparr>sha256_hex := (\<lambda>_. ''a1'')\<rparr>, sv_proc = demo_proc, sv_probe = None, sv_env = demo_env,
     sv_io = (\<lambda>_. demo_io), sv_config = default_config, sv_now = (\<lambda>_. 0), sv_token = (\<lambda>_. demo_capability),
     sv_elapse = (\<lambda>_ m. m)\<rparr>"

definition demo_server :: "EngineState \<Rightarrow> Store \<Rightarrow> Server" where
  "demo_server e st = \<lparr>srv_engine = e, srv_checkpoints = CheckpointManager_init, srv_store = st,
     srv_runtime = \<lparr>rt_probes = [], rt_sessions = [], rt_world = demo_world\<rparr>, srv_calls = 0\<rparr>"

lemma demo_engine: "engine_inv (demo_state demo_capability 1 0 ''/a'' None)"
proof -
  have "engine_inv (initial_state empty_snapshot)"
    by (rule initial_inv) (simp_all add: empty_snapshot_def wf_snapshot_def limits)
  then show ?thesis by (rule register_shell_inv [OF _ _ demo_registered]) (simp add: demo_register_def demo_wf)
qed

theorem connections_keep_engine_witness:
  "engine_inv (srv_engine (serve_all demo_service [(Some (1, 1000), [Line ''x'']), (None, [])]
     (demo_server (demo_state demo_capability 1 0 ''/a'' None) demo_store)))"
  using connections_keep_engine [of "demo_server (demo_state demo_capability 1 0 ''/a'' None) demo_store"] demo_engine
  by (simp add: demo_server_def)

lemma demo_cwd_event: "wf_event (demo_event Op_CWD_CHANGED 1 (Some ''/b''))"
  using canonical_sample demo_capability_ok
  by (simp add: demo_event_def wf_event_def valid_shell_id_def matches_id_def id_char_def demo_id_def
      demo_identity_def wire_identity_def optional_fields_def present_iff_def valid_path_def startswith_def
      MAX_PATH_CHARS_def MAX_INTEGER_def forbidden_char_def is_letter_def is_lower_def code_def)

theorem event_answer_witness:
  "fst (dispatch_event demo_service (demo_event Op_CWD_CHANGED 1 (Some ''/b''))
     (demo_server (demo_state demo_capability 1 0 ''/a'' None) demo_store)) = Inr (EventResponse 1)"
  using event_answer [of "demo_server (demo_state demo_capability 1 0 ''/a'' None) demo_store", OF _ demo_cwd_event, of demo_service]
    demo_engine
  by (auto simp: demo_server_def refusal_def demo_state_def demo_event_def demo_shell_def)

theorem answers_typed_witness:
  "\<exists>raw. fst (handle_connection demo_service (Some (1, 1001)) [Line ''x'']
       (demo_server (initial_state empty_snapshot) demo_store)) = [raw] \<and>
     decode_response raw = Inr (error_response PEER_REJECTED) \<and> length raw \<le> 16384"
proof -
  let ?s = "demo_server (initial_state empty_snapshot) demo_store"
  have h: "handle_connection demo_service (Some (1, 1001)) [Line ''x''] ?s =
      ([write_response (error_response PEER_REJECTED)], ?s)"
    by (simp add: handle_connection_def demo_service_def)
  from answers_typed [OF h] show ?thesis unfolding h by (auto simp: demo_service_def)
qed

theorem snapshot_fails_after_restart_witness:
  "fst (dispatch_request demo_service None SnapshotRequest (demo_server (initial_state sample_snapshot) demo_store)) =
     Inr (error_response PERSISTENCE_FAILED)"
  using snapshot_fails_after_restart [of sample_snapshot "demo_server (initial_state sample_snapshot) demo_store" demo_service None]
  by (simp add: demo_server_def sample_snapshot_def)

text \<open>A record with one item restored and one not.\<close>

definition demo_partial :: RecoveryRecord where
  "demo_partial = demo_recovery\<lparr>items := items demo_recovery @
     [\<lparr>item_id = ''s2'', item_shell = sample_shell\<lparr>shell_id := ''s2''\<rparr>, item_reason = ''previous_boot''\<rparr>]\<rparr>"

lemma demo_partial_wf: "wf_recovery demo_partial"
  by (simp add: demo_partial_def demo_recovery_def sample_recovery_def samples wf_recovery_def wf_item_def wf_attempt_def wf_outcome_def
      wf_shell_def wf_identity_def wf_command_def terminal_item_ids_def limits)

lemma demo_partial_encodable:
  "encodable demo_env (recovery_payload demo_partial) recovery_from_dict MAX_RECOVERY_BYTES
     (demo_bytes (recovery_payload demo_partial))"
proof -
  have "ints_printable (recovery_payload demo_partial)" by code_simp
  then have e: "encode_state (env_repr demo_env) (recovery_payload demo_partial) = Inr (demo_bytes (recovery_payload demo_partial))"
    by (simp add: encode_state_def demo_bytes_def)
  have "length (demo_bytes (recovery_payload demo_partial)) < 1500" by code_simp
  then have "length (demo_bytes (recovery_payload demo_partial)) \<le> MAX_RECOVERY_BYTES" unfolding store_limits by linarith
  moreover have "created_at demo_partial = Finite 0" by (simp add: demo_partial_def demo_recovery_def)
  ultimately show ?thesis using demo_floats payloads(2) [OF demo_partial_wf] demo_partial_wf e
    by (auto intro!: encodable_recovery)
qed

lemma load_recorded:
  assumes "represents env st (empty_workspace\<lparr>ws_record := Some r\<rparr>)" "\<not> store_closed st"
  shows "load_recovery env io st = (Inr (Some r), st)"
proof -
  from assms(1) obtain d where d: "read_recovery env st = Inr d" "decode_versioned d recovery_from_dict = Inr r"
    by (auto simp: represents_def record_on_file_def)
  have "tombstone_matches env w n (st\<lparr>transaction_depth := k\<rparr>) = tombstone_matches env w n st" for w n k
    by (simp add: tombstone_matches_def)
  then have depth: "has_terminal_tombstone env w (st\<lparr>transaction_depth := k\<rparr>) = has_terminal_tombstone env w st" for w k
    by (simp add: has_terminal_tombstone_def cong: if_cong)
  have "has_terminal_tombstone env (workspace_id r) st = Inr False"
    using assms(1) by (simp add: represents_def has_terminal_tombstone_def tombstone_file_def empty_workspace_def)
  then show ?thesis using assms(2) d
    by (simp add: load_recovery_def transaction_eq load_recovery_unlocked_def bind_s_run catch_def depth read_recovery_def)
qed

lemma demo_attempt: "derive_attempt_id (sv_machine demo_service) ''w'' [''s1''] [''s1''] Konsole None = Inr ''a1''"
  "derive_attempt_id (sv_machine demo_service) ''w'' [''s2''] [] Konsole None = Inr ''a1''"
  by (simp_all add: demo_service_def derive_attempt_id_def canonical_json_def strings_json_def sorted_set_def sort_dict_def
      sort_keys.simps)

lemma demo_partial_stored:
  obtains st where "good_storage demo_service st (empty_workspace\<lparr>ws_record := Some demo_partial\<rparr>)"
    "\<And>io. load_recovery demo_env io st = (Inr (Some demo_partial), st)"
proof -
  have c: "created_at demo_partial = Finite 0" by (simp add: demo_partial_def demo_recovery_def)
  obtain st where st: "represents demo_env st (empty_workspace\<lparr>ws_record := Some demo_partial\<rparr>)" "fresh_token demo_io st" "\<not> store_closed st"
    by (rule recorded_store [OF demo_partial_encodable demo_partial_wf c])
  then have "good_storage demo_service st (empty_workspace\<lparr>ws_record := Some demo_partial\<rparr>)"
    using demo_floats demo_env_facts(1) c by (simp add: good_storage_def demo_service_def) (simp add: demo_io_def)
  with st show ?thesis using load_recorded that by blast
qed

lemma demo_partial_simps: "workspace_id demo_partial = ''w''" "map item_id (items demo_partial) = [''s1'', ''s2'']"
  "completed_item_ids demo_partial = [''s1'']" "unfinished_ids demo_partial = [''s2'']"
  "attempts demo_partial = attempts sample_recovery" "item_id ` set (items demo_partial) = {''s1'', ''s2''}"
  by (simp_all add: demo_partial_def demo_recovery_def sample_recovery_def unfinished_ids_def)

lemma demo_loaded:
  assumes "\<And>io. load_recovery demo_env io st = (Inr (Some demo_partial), st)"
  shows "with_recovery demo_service ''w'' k (demo_server e st) = k demo_partial ((demo_server e st)\<lparr>srv_calls := 1\<rparr>)"
  using assms by (simp add: with_recovery_def on_store_def tick_def bind_s_run catch_def on_part_def demo_server_def
      demo_service_def validate_workspace_def demo_partial_simps)

lemma demo_answered:
  assumes "\<And>io. load_recovery demo_env io st = (Inr (Some demo_partial), st)"
  shows "\<exists>views t. dispatch_request demo_service None (RestoreExecuteRequest ''w'' [''s1''] [''s1'']) (demo_server e st) =
     (Inr (RestoreResultResponse ''w'' ''a1'' views [''s2'']), t)"
proof -
  have m: "matching_attempt demo_service demo_partial [''s1''] [''s1''] = Inr (Some (hd (attempts sample_recovery)))"
    using demo_attempt by (simp add: matching_attempt_def demo_partial_simps demo_service_def sample_recovery_def)
  obtain views where "result_response demo_partial ''a1''
      [\<lparr>outcome_item_id = ''s1'', outcome_kind = SUCCESS, outcome_message = ''ok''\<rparr>] =
    Inr (RestoreResultResponse ''w'' ''a1'' views [''s2''])"
    by (simp add: result_response_def demo_partial_simps sanitize_def catalog_def SAFE_EXTERNAL_TEXT_CATALOG_def)
  with m show ?thesis
    by (simp add: restore_execute_def execute_begin_def bind_s_run demo_loaded [OF assms] demo_partial_simps
        answer_completed_def finish_completed_def catch_def continue_phase_def Let_def sample_recovery_def)
qed

theorem result_reflects_storage_witness:
  "\<exists>st views t. dispatch_request demo_service None (RestoreExecuteRequest ''w'' [''s1''] [''s1'']) (demo_server (initial_state empty_snapshot) st) =
       (Inr (RestoreResultResponse ''w'' ''a1'' views [''s2'']), t) \<and>
     reflects demo_service (srv_store t) ''w'' views [''s2'']"
proof -
  let ?s = "demo_server (initial_state empty_snapshot)"
  obtain st where st: "good_storage demo_service st (empty_workspace\<lparr>ws_record := Some demo_partial\<rparr>)"
    "\<And>io. load_recovery demo_env io st = (Inr (Some demo_partial), st)"
    using demo_partial_stored by blast
  from demo_answered [OF st(2)] obtain views t where
    r: "dispatch_request demo_service None (RestoreExecuteRequest ''w'' [''s1''] [''s1'']) (?s st) =
       (Inr (RestoreResultResponse ''w'' ''a1'' views [''s2'']), t)" by blast
  have "good_storage demo_service (srv_store (?s st)) (empty_workspace\<lparr>ws_record := Some demo_partial\<rparr>)"
    using st(1) by (simp add: demo_server_def)
  from result_reflects_storage [OF this r] r show ?thesis by blast
qed

lemma demo_ran:
  assumes "\<And>io. load_recovery demo_env io st = (Inr (Some demo_partial), st)"
  shows "srv_launched (snd (dispatch_request demo_service None (RestoreExecuteRequest ''w'' [''s2''] []) (demo_server e st))) =
    [[''/usr/bin/konsole'', ''--workdir'', ''/a'']]"
proof -
  let ?m = "sv_machine demo_service" and ?s = "(demo_server e st)\<lparr>srv_calls := 1\<rparr>"
  have a: "RestoreAttempt_init ''a1'' ''w'' [''s2''] [] [] = Inr \<lparr>attempt_id = ''a1'', attempt_workspace_id = ''w'',
      selected_item_ids = [''s2''], approved_item_ids = [], outcomes = []\<rparr>"
    by (simp add: RestoreAttempt_init_def RestoreAttempt_check_def require_bounded_string_def require_bounded_sequence_def
        require_unique_def limits)
  have "path_str ''/a'' = ''/a''" by code_simp
  moreover have "usable_directory ?m ''/a''"
    using demo_usable [of "''/a''"] by (simp add: usable_directory_def demo_service_def)
  ultimately have p: "plan_launches ?m demo_partial [] ''/home'' [''s2''] (srv_runtime ?s) =
      (Inr \<lparr>lp_launches = [\<lparr>li_item_id = ''s2'', li_cwd = ''/a'', li_approved_command = None\<rparr>], lp_missing = [],
         lp_unsupported = []\<rparr>, srv_runtime ?s)"
    by (simp add: item_by_id_def demo_partial_def demo_recovery_def sample_recovery_def samples supported_def
        SUPPORTED_ADAPTERS_def item_replay_def bind_s_run resolve_directory_def usable_ancestor.simps)
  have m: "terminals ?m = demo_host" "sv_home demo_service = ''/home''" by (simp_all add: demo_service_def demo_machine_def)
  have plan: "konsole_plan demo_host [\<lparr>li_item_id = ''s2'', li_cwd = ''/a'', li_approved_command = None\<rparr>] =
      Inr [\<lparr>la_item_ids = [''s2''], la_argv = [''/usr/bin/konsole'', ''--workdir'', ''/a''],
        la_level = PARTIAL, la_warnings = []\<rparr>]"
    by (simp add: konsole_plan_def plan_window_def demo_host_def usable_def is_absolute_def
        startswith_def konsole_tab_def approved_tokens_def window_action_def
        item_level_def highest_level_def)
  have b: "build_attempt ?m demo_partial [''s2''] [] Konsole None ''/home'' (srv_runtime ?s) =
      (Inr (\<lparr>attempt_id = ''a1'', attempt_workspace_id = ''w'', selected_item_ids = [''s2''], approved_item_ids = [], outcomes = []\<rparr>,
         [\<lparr>la_item_ids = [''s2''], la_argv = [''/usr/bin/konsole'', ''--workdir'', ''/a''],
           la_level = PARTIAL, la_warnings = []\<rparr>]), srv_runtime ?s)"
    using p plan a demo_attempt by (simp add: build_attempt_def bind_s_run on_world_def on_part_def m demo_partial_simps
        sorted_set_def warn_missing_def del: plan_launches.simps)
  have l: "srv_launched (snd (attempt_launch demo_service Konsole demo_partial [''s2''] [] None ?s)) =
    [[''/usr/bin/konsole'', ''--workdir'', ''/a'']]"
    using b by (simp add: attempt_launch_def on_runtime_def on_part_def bind_s_run on_world_def m konsole_execute_def
        execute_action_def run_argv_run demo_host_def catch_def outcomes_for_def exit_message_def demo_server_def demo_world_def
        Outcome_init_def require_bounded_string_def limits)
  obtain y u where yu: "attempt_launch demo_service Konsole demo_partial [''s2''] [] None ?s = (y, u)" by fastforce
  have "detect (terminals ?m) Konsole" by (simp add: detect_def demo_service_def demo_machine_def demo_host_def)
  moreover have "sv_adapter demo_service = Some Konsole" by (simp add: demo_service_def)
  ultimately have "srv_runtime (snd (run_attempt demo_service demo_partial [''s2''] [] None ?s)) = srv_runtime u"
    using run_attempt_runtime [OF _ _ yu prod.collapse [symmetric]] by blast
  moreover have "dispatch_request demo_service None (RestoreExecuteRequest ''w'' [''s2''] []) (demo_server e st) =
      run_attempt demo_service demo_partial [''s2''] [] None ?s"
    by (simp add: restore_execute_def execute_begin_def bind_s_run demo_loaded [OF assms] demo_partial_simps continue_phase_def Let_def)
  ultimately show ?thesis using l yu by simp
qed

section \<open>What a client can make the service launch\<close>

text \<open>C1: whatever a request says, the command lines it starts, also when it fails half way, restore items of the
  workspace on file that the request selects (for a retry: those its earlier attempt skipped or failed at) and that are
  not completed, in a terminal the user has; a command runs in one only if the request approves that item, and then
  it is the recorded replayable command or a resume command of safe tokens. A request that is neither a restore
  nor a retry, or names another workspace, starts nothing.\<close>
theorem only_approved_lines:
  "\<exists>new. srv_launched (snd (dispatch_request sv peer req s)) = srv_launched s @ new \<and>
     list_all (\<lambda>argv. \<exists>r selected approved. requested sv s req r selected approved \<and>
       approved_line sv r selected approved (session_files (rt_world (srv_runtime (snd (dispatch_request sv peer req s))))) argv) new"
proof -
  obtain x t where d: "dispatch_request sv peer req s = (x, t)" by fastforce
  from dispatch_launches [OF d] show ?thesis unfolding d by (simp add: list_all_iff)
qed

theorem only_approved_lines_witness:
  "\<exists>s approved selected r. requested demo_service s (RestoreExecuteRequest ''w'' [''s2''] []) r selected approved \<and>
     approved_line demo_service r selected approved
       (session_files (rt_world (srv_runtime (snd (dispatch_request demo_service None (RestoreExecuteRequest ''w'' [''s2''] []) s)))))
       [''/usr/bin/konsole'', ''--workdir'', ''/a'']"
proof -
  obtain st where st: "\<And>io. load_recovery demo_env io st = (Inr (Some demo_partial), st)"
    using demo_partial_stored by blast
  let ?s = "demo_server (initial_state empty_snapshot) st"
  have "srv_launched ?s = []" by (simp add: demo_server_def demo_world_def)
  with only_approved_lines [of demo_service None "RestoreExecuteRequest ''w'' [''s2''] []" ?s] demo_ran [OF st, of "initial_state empty_snapshot"]
  show ?thesis by (simp add: list_all_iff) blast
qed

text \<open>C30: a record whose items are all completed and that is still on file - a crash between the commit and the tombstone
  leaves it so - blocks every later listing: the answer names the workspace with no item, which its own decoder
  refuses, so the service writes the line of an internal error.\<close>
theorem completed_record_blocks_listing:
  assumes "load_recovery (sv_env sv) (sv_io sv (srv_calls s)) (srv_store s) = (Inr (Some r), v)" "unfinished_ids r = []"
    "workspace_from_record (sv_machine sv) r (sv_home sv) = Inr w"
  shows "\<exists>answer t. dispatch_request sv peer (RestoreListRequest None None) s = (Inr answer, t) \<and>
    write_response answer = FALLBACK_ERROR_BYTES"
proof -
  have "filter (\<lambda>i. ri_item_id i \<in> set []) (rw_items w) = []" by simp
  then show ?thesis using assms empty_listing_unencodable [of "workspace_id r" "[]"]
    by (simp add: restore_list_def list_record_def included_items_def bind_s_run on_store_def on_runtime_def tick_def on_part_def
        catch_def)
qed

theorem completed_record_blocks_listing_witness:
  "\<exists>s answer t. dispatch_request demo_service None (RestoreListRequest None None) s = (Inr answer, t) \<and>
    write_response answer = FALLBACK_ERROR_BYTES"
proof -
  obtain st where st: "represents demo_env st (empty_workspace\<lparr>ws_record := Some demo_recovery\<rparr>)" "\<not> store_closed st"
    using demo_recorded by blast
  let ?s = "demo_server (initial_state empty_snapshot) st"
  have "load_recovery (sv_env demo_service) (sv_io demo_service (srv_calls ?s)) (srv_store ?s) = (Inr (Some demo_recovery), st)"
    using load_recorded [OF st] by (simp add: demo_service_def demo_server_def)
  moreover have "unfinished_ids demo_recovery = []"
    by (simp add: unfinished_ids_def demo_recovery_def sample_recovery_def)
  moreover have "path_str ''/a'' = ''/a''" by code_simp
  then have "\<exists>w. workspace_from_record (sv_machine demo_service) demo_recovery (sv_home demo_service) = Inr w"
    using demo_usable [of "''/a''"]
    by (simp add: workspace_from_record_def demo_service_def demo_recovery_def sample_recovery_def recovery_item_def
        resolve_directory_def usable_ancestor.simps usable_directory_def sample_shell_def)
  ultimately show ?thesis using completed_record_blocks_listing [of demo_service ?s demo_recovery st _ None] by blast
qed

end
