(* ===== verification/Bridge.thy ===== *)
theory Bridge
  imports Server
begin

text \<open>
  The bridge of \<^verbatim>\<open>bridge.py\<close>: it turns the frames a shell writes into requests on a connection to the service, numbers the
  events, registers again after a failure, and waits longer after each one. The socket and the clock are a network,
  operations on a state of their own; one network is the service of this development behind a connection that loses
  requests and replies.
\<close>

section \<open>JSON from bytes\<close>

text \<open>\<^verbatim>\<open>json.loads\<close> of bytes finds the encoding by the byte order mark or the zero bytes in front.\<close>

function units :: "nat \<Rightarrow> bool \<Rightarrow> string \<Rightarrow> string option" where
  "units k big s =
     (if s = [] then Some []
      else if k = 0 \<or> length s < k then None
      else
        let u = take k s; c = (if big then last u else hd u); rest = (if big then butlast u else tl u) in
        if list_all (\<lambda>x. code x = 0) rest then map_option (Cons c) (units k big (drop k s)) else None)"
  by pat_completeness auto
termination by (relation "measure (\<lambda>(k, big, s). length s)") auto

declare units.simps [simp del]

definition bytes_text :: "string \<Rightarrow> string option" where
  "bytes_text b =
     (if startswith b [CHR 0x00, CHR 0x00, CHR 0xFE, CHR 0xFF] then units 4 True (drop 4 b)
      else if startswith b [CHR 0xFF, CHR 0xFE, CHR 0x00, CHR 0x00] then units 4 False (drop 4 b)
      else if startswith b [CHR 0xFE, CHR 0xFF] then units 2 True (drop 2 b)
      else if startswith b [CHR 0xFF, CHR 0xFE] then units 2 False (drop 2 b)
      else if startswith b [CHR 0xEF, CHR 0xBB, CHR 0xBF] then utf8_decode (drop 3 b)
      else if 4 \<le> length b \<and> code (b ! 0) = 0 then units (if code (b ! 1) = 0 then 4 else 2) True b
      else if 4 \<le> length b \<and> code (b ! 1) = 0 then units (if code (b ! 2) = 0 \<and> code (b ! 3) = 0 then 4 else 2) False b
      else if length b = 2 \<and> code (b ! 0) = 0 then units 2 True b
      else if length b = 2 \<and> code (b ! 1) = 0 then units 2 False b
      else utf8_decode b)"

definition json_of_bytes :: "string \<Rightarrow> json result" where
  "json_of_bytes b =
     (case bytes_text b of None \<Rightarrow> Inl (ValueError ''invalid text'') | Some t \<Rightarrow> loads False t)"

text \<open>Python's equality of a JSON value and an integer.\<close>

fun equals_int :: "json \<Rightarrow> int \<Rightarrow> bool" where
  "equals_int (JInt n) k = (n = k)"
| "equals_int (JBool b) k = (of_bool b = k)"
| "equals_int (JFloat (Finite x)) k = (x = of_int k)"
| "equals_int v k = False"

definition field_is :: "dict \<Rightarrow> string \<Rightarrow> (json \<Rightarrow> bool) \<Rightarrow> bool" where
  "field_is d k P = (case map_of d k of None \<Rightarrow> False | Some v \<Rightarrow> P v)"

section \<open>The bridge and its network\<close>

record Bridge =
  br_shell_id :: string
  br_identity :: ProcessIdentity
  br_adapter :: string
  br_capability :: "string option"
  br_next_sequence :: int
  br_cwd :: "string option"
  br_connected :: bool
  br_receive_buffer :: string
  br_retry_index :: nat
  br_retry_at :: rat
  br_diagnostics :: "string list"

definition Bridge_init :: "string \<Rightarrow> ProcessIdentity \<Rightarrow> string \<Rightarrow> Bridge" where
  "Bridge_init sid i name =
     \<lparr>br_shell_id = sid, br_identity = i, br_adapter = name, br_capability = None, br_next_sequence = 1, br_cwd = None,
      br_connected = False, br_receive_buffer = [], br_retry_index = 0, br_retry_at = 0, br_diagnostics = []\<rparr>"

record 'n network =
  net_connect :: "('n, unit) act"
  net_send :: "string \<Rightarrow> ('n, unit) act"
  net_recv :: "nat \<Rightarrow> ('n, string) act"
  net_close :: "'n \<Rightarrow> 'n"
  net_clock :: "'n \<Rightarrow> rat \<times> 'n"

definition RETRY_DELAYS :: "rat list" where
  "RETRY_DELAYS = [5 / 100, 1 / 10, 1 / 4, 1 / 2, 1]"

definition DIAGNOSTIC :: string where
  "DIAGNOSTIC = ''termrecall bridge: service unavailable''"

definition on_net :: "('n, 'a) act \<Rightarrow> (Bridge \<times> 'n, 'a) act" where
  "on_net = on_part snd (\<lambda>n s. (fst s, n))"

definition of_bridge :: "(Bridge \<Rightarrow> 'a) \<Rightarrow> (Bridge \<times> 'n, 'a) act" where
  "of_bridge f = gets (\<lambda>s. f (fst s))"

definition set_bridge :: "(Bridge \<Rightarrow> Bridge) \<Rightarrow> (Bridge \<times> 'n, unit) act" where
  "set_bridge g = modify (\<lambda>s. (g (fst s), snd s))"

definition close_bridge :: "'n network \<Rightarrow> (Bridge \<times> 'n, unit) act" where
  "close_bridge w =
     bind_s (of_bridge br_connected) (\<lambda>c.
     bind_s (when_s c (modify (\<lambda>s. ((fst s)\<lparr>br_connected := False\<rparr>, net_close w (snd s))))) (\<lambda>_.
     set_bridge (\<lambda>b. b\<lparr>br_receive_buffer := [], br_capability := None\<rparr>)))"

definition fail_bridge :: "'n network \<Rightarrow> (Bridge \<times> 'n, unit) act" where
  "fail_bridge w =
     bind_s (close_bridge w) (\<lambda>_.
     bind_s (set_bridge (\<lambda>b. b\<lparr>br_diagnostics := br_diagnostics b @ [DIAGNOSTIC]\<rparr>)) (\<lambda>_.
     bind_s (of_bridge (\<lambda>b. RETRY_DELAYS ! min (br_retry_index b) (length RETRY_DELAYS - 1))) (\<lambda>delay.
     bind_s (set_bridge (\<lambda>b. b\<lparr>br_retry_index := min (br_retry_index b + 1) (length RETRY_DELAYS - 1)\<rparr>)) (\<lambda>_.
     bind_s (on_net (\<lambda>n. case net_clock w n of (t, m) \<Rightarrow> (Inr t, m))) (\<lambda>now.
     set_bridge (\<lambda>b. b\<lparr>br_retry_at := now + delay\<rparr>))))))"

section \<open>One exchange\<close>

definition connect_bridge :: "'n network \<Rightarrow> (Bridge \<times> 'n, unit) act" where
  "connect_bridge w =
     bind_s (of_bridge br_connected) (\<lambda>c.
     when_s (\<not> c) (bind_s (on_net (net_connect w)) (\<lambda>_. set_bridge (\<lambda>b. b\<lparr>br_connected := True\<rparr>))))"

text \<open>The loop that reads until the buffer holds a newline; it ends because every chunk that does not end it adds to a
  buffer with a bound.\<close>

function receive :: "'n network \<Rightarrow> string \<Rightarrow> 'n \<Rightarrow> unit result \<times> string \<times> 'n" where
  "receive w buffer n =
     (if CHR 0x0A \<in> set buffer then (Inr (), buffer, n)
      else case net_recv w (MAX_RESPONSE_BYTES + 1 - length buffer) n of
        (Inl e, m) \<Rightarrow> (Inl e, buffer, m)
      | (Inr chunk, m) \<Rightarrow>
          if chunk = [] then (Inl EOFError, buffer, m)
          else if length (buffer @ chunk) > MAX_RESPONSE_BYTES then (Inl (ValueError ''response too large''), buffer @ chunk, m)
          else receive w (buffer @ chunk) m)"
  by pat_completeness auto
termination by (relation "measure (\<lambda>(w, buffer, n). MAX_RESPONSE_BYTES - length buffer)") (auto simp flip: length_greater_0_conv)

declare receive.simps [simp del]

definition receive_line :: "'n network \<Rightarrow> (Bridge \<times> 'n, string) act" where
  "receive_line w =
     (\<lambda>s. case receive w (br_receive_buffer (fst s)) (snd s) of
        (Inl e, buffer, m) \<Rightarrow> (Inl e, ((fst s)\<lparr>br_receive_buffer := buffer\<rparr>, m))
      | (Inr _, buffer, m) \<Rightarrow>
          (Inr (takeWhile (\<lambda>c. c \<noteq> CHR 0x0A) buffer),
           ((fst s)\<lparr>br_receive_buffer := tl (dropWhile (\<lambda>c. c \<noteq> CHR 0x0A) buffer)\<rparr>, m)))"

text \<open>The values printed hold no floats; the text is ASCII, so its bytes are its characters.\<close>

definition request_bytes :: "dict \<Rightarrow> string result" where
  "request_bytes request =
     bind_r (raise_if (\<not> ints_printable (JObj request)) (ValueError ''Exceeds the limit (4300 digits) for integer string conversion'')) (\<lambda>_.
     let raw = dumps_with ascii_escape (\<lambda>_. []) (JObj request) @ [CHR 0x0A] in
     bind_r (raise_if (length raw > MAX_MESSAGE_BYTES) (ValueError ''request too large'')) (\<lambda>_.
     Inr raw))"

definition exchange :: "'n network \<Rightarrow> dict \<Rightarrow> (Bridge \<times> 'n, dict) act" where
  "exchange w request =
     bind_s (connect_bridge w) (\<lambda>_.
     bind_s (lift_s (request_bytes request)) (\<lambda>raw.
     bind_s (on_net (net_send w raw)) (\<lambda>_.
     bind_s (receive_line w) (\<lambda>line.
     lift_s (bind_r (json_of_bytes line) (\<lambda>payload.
       case payload of JObj d \<Rightarrow> Inr d | _ \<Rightarrow> Inl (ValueError ''response must be an object'')))))))"

section \<open>Registration and events\<close>

definition register_request :: "Bridge \<Rightarrow> string \<Rightarrow> dict" where
  "register_request b dir =
     [(''schema_version'', JInt 1), (''operation'', JStr ''register''), (''shell_id'', JStr (br_shell_id b)),
      (''identity'', identity_to_dict (br_identity b)), (''adapter'', JStr (br_adapter b)), (''cwd'', JStr dir),
      (''sequence'', JInt 0)]"

text \<open>A \<^verbatim>\<open>bool\<close> is an \<^verbatim>\<open>int\<close>.\<close>

definition resume_point :: "dict \<Rightarrow> int" where
  "resume_point d =
     (case map_of d ''resume_sequence'' of
        Some (JInt n) \<Rightarrow> if n < 0 then 0 else n
      | Some (JBool b) \<Rightarrow> of_bool b
      | _ \<Rightarrow> 0)"

text \<open>The capability and the number to resume from of a valid response to a registration.\<close>

definition registered_response :: "dict \<Rightarrow> (string \<times> int) result" where
  "registered_response d =
     bind_r (raise_if (set (dict_keys d) \<noteq> {''schema_version'', ''ok'', ''response'', ''capability'', ''resume_sequence''})
       (ValueError ''invalid register response'')) (\<lambda>_.
     case map_of d ''capability'' of
       Some (JStr capability) \<Rightarrow>
         if \<not> field_is d ''schema_version'' (\<lambda>v. equals_int v 1) \<or> \<not> field_is d ''ok'' (\<lambda>v. v = JBool True) \<or>
           \<not> field_is d ''response'' (\<lambda>v. v = JStr ''register'') \<or> \<not> (32 \<le> length capability \<and> length capability \<le> 128)
         then Inl (ValueError ''invalid register response'')
         else Inr (capability, resume_point d)
     | _ \<Rightarrow> Inl (ValueError ''invalid register response''))"

definition register_bridge :: "'n network \<Rightarrow> (Bridge \<times> 'n, unit) act" where
  "register_bridge w =
     bind_s (of_bridge (\<lambda>b. map_option (register_request b) (br_cwd b))) (\<lambda>request.
     case request of
       None \<Rightarrow> raise_s (ValueError ''registration requires cwd'')
     | Some r \<Rightarrow>
         bind_s (exchange w r) (\<lambda>response.
         bind_s (lift_s (registered_response response)) (\<lambda>(capability, resume).
         set_bridge (\<lambda>b. b\<lparr>br_capability := Some capability, br_next_sequence := resume + 1, br_retry_index := 0,
           br_retry_at := 0\<rparr>))))"

definition event_request :: "Bridge \<Rightarrow> string \<Rightarrow> LocalEvent \<Rightarrow> dict" where
  "event_request b capability e =
     [(''schema_version'', JInt 1), (''operation'', JStr (EventType_value (le_type e))),
      (''shell_id'', JStr (br_shell_id b)), (''capability'', JStr capability),
      (''identity'', identity_to_dict (br_identity b)), (''sequence'', JInt (br_next_sequence b))] @
     (if le_type e \<in> {Ev_PROMPT_READY, Ev_CWD_CHANGED} then [(''cwd'', opt_str (le_cwd e))]
      else if le_type e = Ev_COMMAND_STARTED then
        [(''command_sequence'', opt_int (le_command_sequence e)), (''command'', opt_str (le_command e))]
      else if le_type e = Ev_COMMAND_FINISHED then
        [(''command_sequence'', opt_int (le_command_sequence e)), (''exit_status'', opt_int (le_exit_status e))]
      else [])"

definition event_accepted :: "dict \<Rightarrow> int \<Rightarrow> bool" where
  "event_accepted d expected \<longleftrightarrow> set (dict_keys d) = {''schema_version'', ''ok'', ''response'', ''sequence''} \<and>
     field_is d ''schema_version'' (\<lambda>v. equals_int v 1) \<and> field_is d ''ok'' (\<lambda>v. equals_int v 1) \<and>
     field_is d ''response'' (\<lambda>v. v = JStr ''event'') \<and> field_is d ''sequence'' (\<lambda>v. equals_int v expected)"

definition send_event :: "'n network \<Rightarrow> LocalEvent \<Rightarrow> (Bridge \<times> 'n, unit) act" where
  "send_event w e =
     bind_s (of_bridge (\<lambda>b. br_capability b = None)) (\<lambda>unregistered.
     bind_s (when_s unregistered (register_bridge w)) (\<lambda>_.
     bind_s (of_bridge (\<lambda>b. map_option (\<lambda>c. event_request b c e) (br_capability b))) (\<lambda>request.
     case request of
       None \<Rightarrow> raise_s (AssertionError [])
     | Some r \<Rightarrow>
         bind_s (exchange w r) (\<lambda>response.
         bind_s (of_bridge br_next_sequence) (\<lambda>expected.
         if \<not> event_accepted response expected then raise_s (ValueError ''invalid event response'')
         else set_bridge (\<lambda>b. b\<lparr>br_next_sequence := br_next_sequence b + 1\<rparr>))))))"

definition bridge_error :: "py_error \<Rightarrow> bool" where
  "bridge_error e \<longleftrightarrow> is_OSError e \<or> is_ValueError e \<or> e = EOFError"

definition process_frame :: "'n network \<Rightarrow> string \<Rightarrow> (Bridge \<times> 'n, bool) act" where
  "process_frame w raw =
     (case decode_local_frame raw of
        Inl e \<Rightarrow> if is_ValueError e \<or> (\<exists>t. e = TypeError t) then ret False else raise_s e
      | Inr event \<Rightarrow>
          bind_s (of_bridge br_shell_id) (\<lambda>sid.
          if le_shell_id event \<noteq> sid then ret False
          else
            bind_s (when_s (le_cwd event \<noteq> None) (set_bridge (\<lambda>b. b\<lparr>br_cwd := le_cwd event\<rparr>))) (\<lambda>_.
            bind_s (of_bridge br_cwd) (\<lambda>dir.
            if dir = None then ret False
            else
              bind_s (on_net (\<lambda>n. case net_clock w n of (t, m) \<Rightarrow> (Inr t, m))) (\<lambda>now.
              bind_s (of_bridge br_retry_at) (\<lambda>retry_at.
              if now < retry_at then ret False
              else catch (bind_s (send_event w event) (\<lambda>_. ret True))
                (\<lambda>e. if bridge_error e then bind_s (fail_bridge w) (\<lambda>_. ret False) else raise_s e)))))))"

section \<open>The frames of a stream\<close>

text \<open>\<^verbatim>\<open>readline(n)\<close> of what is left of the stream: up to the newline, at most \<open>n\<close> bytes.\<close>

definition readline :: "nat \<Rightarrow> string \<Rightarrow> string \<times> string" where
  "readline n s =
     (let k = length (takeWhile (\<lambda>c. c \<noteq> CHR 0x0A) s); m = min n (if CHR 0x0A \<in> set s then Suc k else k) in
      (take m s, drop m s))"

lemma readline_shorter: "0 < n \<Longrightarrow> s \<noteq> [] \<Longrightarrow> readline n s = (raw, rest) \<Longrightarrow> raw \<noteq> [] \<and> length rest < length s"
  by (cases s) (auto simp: readline_def Let_def split: if_splits)

function discard_to_newline :: "string \<Rightarrow> bool \<times> string" where
  "discard_to_newline s =
     (let (chunk, rest) = readline (MAX_LOCAL_FRAME_BYTES + 1) s in
      if chunk = [] then (False, rest)
      else if endswith chunk [CHR 0x0A] then (True, rest)
      else discard_to_newline rest)"
  by pat_completeness auto
termination
  by (relation "measure length")
    (auto simp: readline_def Let_def MAX_LOCAL_FRAME_BYTES_def split: if_splits)

declare discard_to_newline.simps [simp del]

text \<open>The first line of a text, and what is left behind it.\<close>

definition first_line :: "string \<Rightarrow> string" where
  "first_line s = takeWhile (\<lambda>c. c \<noteq> CHR 0x0A) s @ [CHR 0x0A]"

definition after_line :: "string \<Rightarrow> string" where
  "after_line s = tl (dropWhile (\<lambda>c. c \<noteq> CHR 0x0A) s)"

lemma split_at_first: "c \<in> set s \<Longrightarrow> (takeWhile (\<lambda>x. x \<noteq> c) s @ [c]) @ tl (dropWhile (\<lambda>x. x \<noteq> c) s) = s"
  by (induction s) auto

lemma take_before_first: "n \<le> length (takeWhile (\<lambda>x. x \<noteq> c) s) \<Longrightarrow> c \<notin> set (take n s)"
proof (induction s arbitrary: n)
  case (Cons a s)
  then show ?case by (cases n) (auto split: if_splits)
qed simp

lemma takeWhile_absent: "c \<notin> set s \<Longrightarrow> takeWhile (\<lambda>x. x \<noteq> c) s = s"
  by (induction s) auto

lemma after_prefix: "c \<notin> set xs \<Longrightarrow> dropWhile (\<lambda>x. x \<noteq> c) (xs @ ys) = dropWhile (\<lambda>x. x \<noteq> c) ys"
  by (induction xs) auto

lemma line_split: "CHR 0x0A \<in> set s \<Longrightarrow> first_line s @ after_line s = s"
  unfolding first_line_def after_line_def by (rule split_at_first)

lemma length_first_line: "length (first_line s) = Suc (length (takeWhile (\<lambda>c. c \<noteq> CHR 0x0A) s))"
  by (simp add: first_line_def)

lemma readline_line:
  assumes "CHR 0x0A \<in> set s"
  shows "readline n s = (if length (first_line s) \<le> n then (first_line s, after_line s) else (take n s, drop n s))"
proof -
  have "take (length (first_line s)) (first_line s @ after_line s) = first_line s"
    "drop (length (first_line s)) (first_line s @ after_line s) = after_line s" by simp_all
  then have "take (length (first_line s)) s = first_line s" "drop (length (first_line s)) s = after_line s"
    unfolding line_split [OF assms] .
  then show ?thesis using assms by (simp add: readline_def Let_def min_def length_first_line not_le)
qed

lemma readline_last: "CHR 0x0A \<notin> set s \<Longrightarrow> readline n s = (take n s, drop n s)"
  by (simp add: readline_def Let_def min_def takeWhile_absent)

lemma short_prefix: "n < length (first_line s) \<Longrightarrow> CHR 0x0A \<notin> set (take n s)"
  unfolding length_first_line by (rule take_before_first) simp

lemma discard_line: "discard_to_newline s = (if CHR 0x0A \<in> set s then (True, after_line s) else (False, []))"
proof (induction s rule: discard_to_newline.induct)
  case (1 s)
  let ?n = "MAX_LOCAL_FRAME_BYTES + 1"
  have n: "0 < ?n" by simp
  show ?case
  proof (cases "CHR 0x0A \<in> set s \<and> length (first_line s) \<le> ?n")
    case True
    then have "readline ?n s = (first_line s, after_line s)" using readline_line by simp
    with True show ?thesis by (subst discard_to_newline.simps) (simp add: first_line_def endswith_iff)
  next
    case False
    then have r: "readline ?n s = (take ?n s, drop ?n s)" and no: "CHR 0x0A \<notin> set (take ?n s)"
      using readline_line [of s ?n] readline_last [of s ?n] short_prefix [of ?n s] by (auto dest: in_set_takeD)
    show ?thesis
    proof (cases "s = []")
      case True
      then show ?thesis by (subst discard_to_newline.simps) (simp add: readline_def)
    next
      case ne: False
      have e: "\<not> endswith (take ?n s) [CHR 0x0A]" using no by (auto simp: endswith_iff)
      have m: "CHR 0x0A \<in> set s \<longleftrightarrow> CHR 0x0A \<in> set (drop ?n s)"
        using no append_take_drop_id [of ?n s] by (metis UnE set_append in_set_dropD)
      have a: "after_line (drop ?n s) = after_line s"
        using after_prefix [OF no, of "drop ?n s"] by (simp add: after_line_def del: take_Suc_conv_app_nth)
      have "discard_to_newline s = discard_to_newline (drop ?n s)"
        using ne e r by (subst discard_to_newline.simps) (simp add: MAX_LOCAL_FRAME_BYTES_def)
      with 1 [OF HOL.refl r [symmetric]] ne e m a show ?thesis by (simp add: MAX_LOCAL_FRAME_BYTES_def)
    qed
  qed
qed

lemma after_line_shorter: "CHR 0x0A \<in> set s \<Longrightarrow> length (after_line s) < length s"
proof -
  assume "CHR 0x0A \<in> set s"
  then have "length s = length (first_line s) + length (after_line s)" by (metis length_append line_split)
  then show ?thesis by (simp add: length_first_line)
qed

lemma discard_shorter: "length (snd (discard_to_newline s)) \<le> length s"
  using after_line_shorter [of s] by (auto simp: discard_line)

function run_frames :: "'n network \<Rightarrow> string \<Rightarrow> (Bridge \<times> 'n, unit) act" where
  "run_frames w s =
     (let (raw, rest) = readline (MAX_LOCAL_FRAME_BYTES + 1) s in
      if raw = [] then ret ()
      else if length raw \<le> MAX_LOCAL_FRAME_BYTES \<and> endswith raw [CHR 0x0A] then
        bind_s (process_frame w raw) (\<lambda>_. run_frames w rest)
      else if endswith raw [CHR 0x0A] then run_frames w rest
      else
        let (found, rest') = discard_to_newline rest in
        if \<not> found then ret () else run_frames w rest')"
  by pat_completeness auto
termination
proof (relation "measure (\<lambda>(w, s). length s)")
  have rest: "length rest < length s"
    if "x = readline (MAX_LOCAL_FRAME_BYTES + 1) s" "(raw, rest) = x" "raw \<noteq> []" for s x raw rest
    using that readline_shorter [of "MAX_LOCAL_FRAME_BYTES + 1" s raw rest] by (cases "s = []") (simp_all add: readline_def)
  show "((w, rest), w, s) \<in> measure (\<lambda>(w, s). length s)"
    if "x = readline (MAX_LOCAL_FRAME_BYTES + 1) s" "(raw, rest) = x" "raw \<noteq> []" for w :: "'n network" and s x raw rest
    using rest [OF that] by simp
  then show "((w, rest), w, s) \<in> measure (\<lambda>(w, s). length s)"
    if "x = readline (MAX_LOCAL_FRAME_BYTES + 1) s" "(raw, rest) = x" "raw \<noteq> []" for w :: "'n network" and s x raw rest
    using that by blast
  show "((w, rest'), w, s) \<in> measure (\<lambda>(w, s). length s)"
    if "x = readline (MAX_LOCAL_FRAME_BYTES + 1) s" "(raw, rest) = x" "raw \<noteq> []" "y = discard_to_newline rest" "(found, rest') = y"
    for w :: "'n network" and s x raw rest y found rest'
    using rest [OF that(1-3)] discard_shorter [of rest] that(4,5) by (metis in_measure case_prod_conv le_less_trans snd_conv)
qed auto

declare run_frames.simps [simp del]

text \<open>\<^verbatim>\<open>finally: self.close()\<close>, which raises nothing.\<close>

definition run_bridge :: "'n network \<Rightarrow> string \<Rightarrow> (Bridge \<times> 'n, unit) act" where
  "run_bridge w s = (\<lambda>st. case run_frames w s st of (r, t) \<Rightarrow> (r, snd (close_bridge w t)))"

section \<open>Which frames are processed\<close>

function frame_lines :: "string \<Rightarrow> string list" where
  "frame_lines s = (if CHR 0x0A \<in> set s then first_line s # frame_lines (after_line s) else [])"
  by pat_completeness auto
termination by (relation "measure length") (auto simp: after_line_shorter)

declare frame_lines.simps [simp del]

definition process_all :: "'n network \<Rightarrow> string list \<Rightarrow> (Bridge \<times> 'n, unit) act" where
  "process_all w = for_each (\<lambda>raw. bind_s (process_frame w raw) (\<lambda>_. ret ()))"

lemma close_run:
  "close_bridge w s = (Inr (), (fst s)\<lparr>br_connected := False, br_receive_buffer := [], br_capability := None\<rparr>,
     if br_connected (fst s) then net_close w (snd s) else snd s)"
  by (cases "br_connected (fst s)") (simp_all add: close_bridge_def of_bridge_def set_bridge_def bind_s_run)

lemma bind_s_assoc: "bind_s (bind_s m f) g = bind_s m (\<lambda>a. bind_s (f a) g)"
  by (rule ext) (simp add: bind_s_run split: prod.splits sum.splits)

lemma run_frames_lines:
  "run_frames w s = process_all w (filter (\<lambda>l. length l \<le> MAX_LOCAL_FRAME_BYTES) (frame_lines s))"
proof (induction s rule: frame_lines.induct)
  case (1 s)
  let ?n = "MAX_LOCAL_FRAME_BYTES + 1"
  show ?case
  proof (cases "CHR 0x0A \<in> set s")
    case line: True
    then have s: "frame_lines s = first_line s # frame_lines (after_line s)" by (subst frame_lines.simps) simp
    show ?thesis
    proof (cases "length (first_line s) \<le> ?n")
      case True
      then have "readline ?n s = (first_line s, after_line s)" using readline_line [OF line] by simp
      moreover have "first_line s \<noteq> []" "endswith (first_line s) [CHR 0x0A]" by (simp_all add: first_line_def endswith_iff)
      ultimately show ?thesis using 1 [OF line]
        by (subst run_frames.simps) (simp add: s process_all_def bind_s_assoc)
    next
      case False
      then have r: "readline ?n s = (take ?n s, drop ?n s)" using readline_line [OF line] by simp
      have no: "CHR 0x0A \<notin> set (take ?n s)" using False short_prefix [of ?n s] by simp
      then have e: "\<not> endswith (take ?n s) [CHR 0x0A]" by (auto simp: endswith_iff)
      have "CHR 0x0A \<in> set (drop ?n s)"
        using line no append_take_drop_id [of ?n s] by (metis UnE set_append)
      moreover have "after_line (drop ?n s) = after_line s"
        using after_prefix [OF no, of "drop ?n s"] by (simp add: after_line_def)
      ultimately have "discard_to_newline (drop ?n s) = (True, after_line s)" by (simp add: discard_line)
      moreover have "take ?n s \<noteq> []" using line by (cases s) auto
      ultimately have "run_frames w s = run_frames w (after_line s)"
        using r e by (subst run_frames.simps) (simp add: MAX_LOCAL_FRAME_BYTES_def)
      with 1 [OF line] False show ?thesis by (simp add: s)
    qed
  next
    case False
    then have "readline ?n s = (take ?n s, drop ?n s)" by (rule readline_last)
    moreover have no: "CHR 0x0A \<notin> set (take ?n s)" using False by (auto dest: in_set_takeD)
    moreover have "\<not> endswith (take ?n s) [CHR 0x0A]" using no by (auto simp: endswith_iff)
    moreover have "discard_to_newline (drop ?n s) = (False, [])" using False by (auto simp: discard_line dest: in_set_dropD)
    moreover have "frame_lines s = []" using False by (subst frame_lines.simps) simp
    ultimately show ?thesis by (subst run_frames.simps) (simp add: process_all_def MAX_LOCAL_FRAME_BYTES_def)
  qed
qed

text \<open>C32: the bridge ends on every finite input, and processes exactly its complete lines of at most 4096 bytes, newline
  included, in order and each once: a longer line is skipped as a whole and never read as two, and an unfinished
  last line is dropped. However it ends, the connection is closed.\<close>
theorem bridge_processes_lines:
  "run_bridge w s st =
     (case process_all w (filter (\<lambda>l. length l \<le> 4096) (frame_lines s)) st of (r, t) \<Rightarrow> (r, snd (close_bridge w t))) \<and>
   \<not> br_connected (fst (snd (run_bridge w s st)))"
  by (auto simp: run_bridge_def run_frames_lines MAX_LOCAL_FRAME_BYTES_def close_run split: prod.splits)

end
