(* ===== verification/Link.thy ===== *)
theory Link
  imports Bridge
begin

text \<open>
  The bridge of a shell and the service, composed: a connection that may refuse to open, lose a request, lose a reply
  and split replies as it likes, and what the two sides can rely on whatever it does.
\<close>

section \<open>The connection\<close>

datatype fault = Fine | Lost_request | Lost_reply

text \<open>The service, the process the kernel reports as the peer, and what happens at every call.\<close>

record carrier =
  cr_service :: service
  cr_peer :: int
  cr_up :: "nat \<Rightarrow> bool"
  cr_fault :: "nat \<Rightarrow> fault"
  cr_chunk :: "nat \<Rightarrow> nat"
  cr_time :: "nat \<Rightarrow> rat"

record link =
  lk_server :: Server
  lk_pending :: string
  lk_calls :: nat

definition deliver :: "carrier \<Rightarrow> string \<Rightarrow> Server \<Rightarrow> string \<times> Server" where
  "deliver c raw s = (case serve_stream (cr_service c) (cr_peer c) False [Line raw] s of (out, t) \<Rightarrow> (concat out, t))"

definition called :: "link \<Rightarrow> link" where
  "called l = l\<lparr>lk_calls := Suc (lk_calls l)\<rparr>"

definition link_connect :: "carrier \<Rightarrow> (link, unit) act" where
  "link_connect c l =
     (if cr_up c (lk_calls l) then (Inr (), (called l)\<lparr>lk_pending := []\<rparr>) else (Inl (OSError ''refused''), called l))"

definition link_send :: "carrier \<Rightarrow> string \<Rightarrow> (link, unit) act" where
  "link_send c raw l =
     (case deliver c raw (lk_server l) of (out, t) \<Rightarrow>
        (case cr_fault c (lk_calls l) of
           Fine \<Rightarrow> (Inr (), (called l)\<lparr>lk_server := t, lk_pending := lk_pending l @ out\<rparr>)
         | Lost_request \<Rightarrow> (Inl (OSError ''broken pipe''), called l)
         | Lost_reply \<Rightarrow> (Inr (), (called l)\<lparr>lk_server := t\<rparr>)))"

text \<open>Nothing to read until the timeout is an error; otherwise at least one byte comes, at most what was asked for.\<close>

definition link_recv :: "carrier \<Rightarrow> nat \<Rightarrow> (link, string) act" where
  "link_recv c n l =
     (if lk_pending l = [] then (Inl (OSError ''timed out''), called l)
      else let k = min n (Suc (cr_chunk c (lk_calls l))) in
        (Inr (take k (lk_pending l)), (called l)\<lparr>lk_pending := drop k (lk_pending l)\<rparr>))"

definition link_network :: "carrier \<Rightarrow> link network" where
  "link_network c = \<lparr>net_connect = link_connect c, net_send = link_send c, net_recv = link_recv c,
     net_close = (\<lambda>l. l\<lparr>lk_pending := []\<rparr>), net_clock = (\<lambda>l. (cr_time c (lk_calls l), called l))\<rparr>"

lemma called_simps [simp]: "lk_server (called l) = lk_server l" "lk_pending (called l) = lk_pending l"
  "(called l)\<lparr>lk_server := lk_server l\<rparr> = called l"
  by (simp_all add: called_def)

lemma link_network_simps [simp]: "net_connect (link_network c) = link_connect c" "net_send (link_network c) = link_send c"
  "net_recv (link_network c) = link_recv c" "net_close (link_network c) = (\<lambda>l. l\<lparr>lk_pending := []\<rparr>)"
  "net_clock (link_network c) = (\<lambda>l. (cr_time c (lk_calls l), called l))"
  by (simp_all add: link_network_def)

section \<open>A reply is read whole, however it is split\<close>

lemma receive_reply:
  "buffer @ lk_pending l = t @ [CHR 0x0A] \<Longrightarrow> CHR 0x0A \<notin> set t \<Longrightarrow> length t < MAX_RESPONSE_BYTES \<Longrightarrow>
     \<exists>k. receive (link_network c) buffer l = (Inr (), t @ [CHR 0x0A], l\<lparr>lk_pending := [], lk_calls := k\<rparr>)"
proof (induction "link_network c" buffer l rule: receive.induct)
  case (1 buffer l)
  show ?case
  proof (cases "CHR 0x0A \<in> set buffer")
    case True
    then have "lk_pending l = []"
      using "1.prems"(1,2) by (cases "lk_pending l" rule: rev_cases) (auto simp flip: append_assoc)
    moreover from this have "buffer = t @ [CHR 0x0A]" using "1.prems"(1) by simp
    moreover have "receive (link_network c) buffer l = (Inr (), buffer, l)" using True by (subst receive.simps) simp
    ultimately show ?thesis by (intro exI [of _ "lk_calls l"]) simp
  next
    case False
    then have ne: "lk_pending l \<noteq> []" using "1.prems"(1) by (metis append_Nil2 in_set_conv_decomp)
    have "length buffer < length (t @ [CHR 0x0A])" using ne by (simp flip: "1.prems"(1))
    then have b: "length buffer \<le> MAX_RESPONSE_BYTES" using "1.prems"(3) by simp
    define k where "k = min (MAX_RESPONSE_BYTES + 1 - length buffer) (Suc (cr_chunk c (lk_calls l)))"
    let ?chunk = "take k (lk_pending l)" and ?l = "(called l)\<lparr>lk_pending := drop k (lk_pending l)\<rparr>"
    have recv: "net_recv (link_network c) (MAX_RESPONSE_BYTES + 1 - length buffer) l = (Inr ?chunk, ?l)"
      using ne by (simp add: link_recv_def k_def Let_def)
    have chunk: "?chunk \<noteq> []" using ne b by (simp add: k_def)
    have whole: "(buffer @ ?chunk) @ lk_pending ?l = t @ [CHR 0x0A]" using "1.prems"(1) by simp
    have "length buffer + length (lk_pending l) = Suc (length t)" using arg_cong [OF "1.prems"(1), of length] by simp
    then have small: "length (buffer @ ?chunk) \<le> MAX_RESPONSE_BYTES" using "1.prems"(3) by simp
    from "1.hyps" [OF False recv [symmetric] HOL.refl chunk _ whole "1.prems"(2,3)] small
    obtain j where "receive (link_network c) (buffer @ ?chunk) ?l = (Inr (), t @ [CHR 0x0A], ?l\<lparr>lk_pending := [], lk_calls := j\<rparr>)"
      by auto
    then have "receive (link_network c) buffer l = (Inr (), t @ [CHR 0x0A], ?l\<lparr>lk_pending := [], lk_calls := j\<rparr>)"
      using False recv chunk small by (subst receive.simps) simp
    then show ?thesis by (auto simp: called_def)
  qed
qed

lemma receive_nothing: "lk_pending l = [] \<Longrightarrow> receive (link_network c) [] l = (Inl (OSError ''timed out''), [], called l)"
  by (subst receive.simps) (simp add: link_recv_def)

section \<open>What the service replies\<close>

definition answer_line :: "ServiceResponse result \<Rightarrow> string" where
  "answer_line r = write_response (case r of Inl _ \<Rightarrow> error_response INTERNAL_ERROR | Inr x \<Rightarrow> x)"

lemma deliver_request:
  assumes "decode_request raw = Inr req" "raw \<noteq> []" "dispatch_request (cr_service c) (Some (cr_peer c)) req s = (r, t)"
  shows "deliver c raw s = (answer_line r, t)"
  using assms by (cases r) (auto simp: deliver_def answer_line_def split: if_splits)

lemma deliver_refused: "decode_request raw = Inl e \<Longrightarrow> raw \<noteq> [] \<Longrightarrow> \<exists>r. deliver c raw s = (write_response (error_response r), s)"
  by (auto simp: deliver_def)

text \<open>The dictionary the bridge reads from a written response is that of the response, or of an internal error.\<close>

definition reads_response :: "string \<Rightarrow> ServiceResponse \<Rightarrow> bool" where
  "reads_response t r \<longleftrightarrow> (\<exists>p. json_of_bytes t = Inr (JObj p) \<and> response_to_dict r = Inr p)"

lemma json_of_bytes_object: "json_of_bytes (CHR ''{'' # CHR 0x22 # t) =
    (case utf8_decode (CHR ''{'' # CHR 0x22 # t) of None \<Rightarrow> Inl (ValueError ''invalid text'') | Some u \<Rightarrow> loads False u)"
  by (simp add: json_of_bytes_def bytes_text_def code_def)

lemma json_of_printed:
  assumes "json_ok (\<lambda>_. []) (JObj p)" "p \<noteq> []"
  shows "json_of_bytes (utf8_encode (dumps (\<lambda>_. []) (JObj p))) = Inr (JObj p)"
proof -
  obtain k v q where "p = (k, v) # q" using assms(2) by (cases p) auto
  then obtain u where "dumps (\<lambda>_. []) (JObj p) = CHR ''{'' # CHR 0x22 # u"
    by (cases q) (simp_all add: json_string_with_def)
  then have "utf8_encode (dumps (\<lambda>_. []) (JObj p)) = CHR ''{'' # CHR 0x22 # utf8_encode u"
    by (simp add: utf8_encode_def code_def)
  from json_of_bytes_object [of "utf8_encode u"] this [symmetric] show ?thesis
    using loads_dumps [OF assms(1), of False] by (simp add: utf8_decode_encode del: dumps_with.simps)
qed

lemma encoded_reads:
  assumes "encode_response r = Inr raw"
  shows "\<exists>t. raw = t @ [CHR 0x0A] \<and> CHR 0x0A \<notin> set t \<and> length t < MAX_RESPONSE_BYTES \<and> reads_response t r"
proof -
  from assms obtain p where p: "response_to_dict r = Inr p" and l: "encode_json_line p MAX_RESPONSE_BYTES ''response'' = Inr raw"
    by (auto simp: encode_response_def)
  have pl: "plain MAX_JSON_NESTING (JObj p)" by (rule response_line.enc_plain [OF p])
  let ?t = "utf8_encode (dumps (\<lambda>_. []) (JObj p))"
  have raw: "raw = ?t @ [CHR 0x0A]" "length raw \<le> MAX_RESPONSE_BYTES" "ints_printable (JObj p)"
    using l by (auto simp: encode_json_line_def Let_def simp del: dumps_with.simps ints_printable.simps)
  have "p \<noteq> []" using p by (cases r) (auto simp: ok_head_def)
  then have "json_of_bytes ?t = Inr (JObj p)" using plain_ok [OF pl raw(3)] by (intro json_of_printed)
  moreover have "CHR 0x0A \<notin> set ?t" using newline_dumps [OF newline_escape(1) pl] by (simp only: newline_utf8 not_False_eq_True)
  ultimately show ?thesis using raw p by (intro exI [of _ ?t]) (auto simp: reads_response_def)
qed

lemma written_reads:
  "\<exists>t q. write_response r = t @ [CHR 0x0A] \<and> CHR 0x0A \<notin> set t \<and> length t < MAX_RESPONSE_BYTES \<and> reads_response t q \<and>
     (q = r \<or> q = error_response INTERNAL_ERROR) \<and> ((\<exists>raw. encode_response r = Inr raw \<and> length raw \<le> MAX_MESSAGE_BYTES) \<longrightarrow> q = r)"
proof (cases "\<exists>raw. encode_response r = Inr raw \<and> length raw \<le> MAX_MESSAGE_BYTES")
  case True
  then obtain raw where raw: "encode_response r = Inr raw" "length raw \<le> MAX_MESSAGE_BYTES" by blast
  then have "write_response r = raw" by (simp add: write_response_def)
  with encoded_reads [OF raw(1)] show ?thesis by blast
next
  case False
  then have "write_response r = FALLBACK_ERROR_BYTES"
    by (auto simp: write_response_def split: sum.splits)
  with encoded_reads [OF fallback_encodes] False show ?thesis by metis
qed

lemma registered_reads:
  assumes "reads_response t q" "json_of_bytes t = Inr (JObj d)" "registered_response d = Inr (cap, n)"
  shows "\<exists>m. q = RegisterResponse cap m \<and> n = max 0 m"
proof -
  have d: "response_to_dict q = Inr d" using assms(1,2) by (simp add: reads_response_def)
  have "map_of d ''response'' = Some (JStr ''register'')" "map_of d ''capability'' = Some (JStr cap)"
    "n = resume_point d"
    using assms(3) by (simp_all add: registered_response_def field_is_def split: option.splits json.splits if_splits)
  with d show ?thesis by (cases q) (auto simp: ok_head_def resume_point_def)
qed

lemma accepted_reads:
  assumes "reads_response t q" "json_of_bytes t = Inr (JObj d)" "event_accepted d k"
  shows "q = EventResponse k"
proof -
  have d: "response_to_dict q = Inr d" using assms(1,2) by (simp add: reads_response_def)
  have "map_of d ''response'' = Some (JStr ''event'')" "field_is d ''sequence'' (\<lambda>v. equals_int v k)"
    using assms(3) by (simp_all add: event_accepted_def field_is_def split: option.splits)
  with d show ?thesis by (cases q) (auto simp: ok_head_def field_is_def)
qed

section \<open>One exchange over the connection\<close>

lemma on_net_run: "on_net m s = (case m (snd s) of (r, n) \<Rightarrow> (r, (fst s, n)))"
  by (simp add: on_net_def on_part_def)

lemma bridge_runs [simp]: "of_bridge f s = (Inr (f (fst s)), s)" "set_bridge g s = (Inr (), (g (fst s), snd s))"
  by (simp_all add: of_bridge_def set_bridge_def)

lemma connect_link:
  assumes "lk_pending l = []"
  shows "\<exists>k con x. connect_bridge (link_network c) (b, l) = (x, (b\<lparr>br_connected := con\<rparr>, l\<lparr>lk_calls := k\<rparr>)) \<and>
    (\<forall>e. x = Inl e \<longrightarrow> bridge_error e)"
proof (cases "br_connected b")
  case True
  then show ?thesis
    by (intro exI [of _ "lk_calls l"] exI [of _ True] exI [of _ "Inr ()"]) (simp add: connect_bridge_def bind_s_run)
next
  case False
  show ?thesis
  proof (cases "cr_up c (lk_calls l)")
    case True
    with False assms show ?thesis
      by (intro exI [of _ "Suc (lk_calls l)"] exI [of _ True] exI [of _ "Inr ()"])
        (simp add: connect_bridge_def bind_s_run on_net_run link_connect_def called_def)
  next
    case down: False
    with False show ?thesis
      by (intro exI [of _ "Suc (lk_calls l)"] exI [of _ False] exI [of _ "Inl (OSError ''refused'')"])
        (simp add: connect_bridge_def bind_s_run on_net_run link_connect_def called_def bridge_error_def)
  qed
qed

text \<open>What the service makes of a line: \<open>q\<close> is the response the bridge reads unless it is lost.\<close>

definition replies :: "carrier \<Rightarrow> string \<Rightarrow> Server \<Rightarrow> ServiceResponse \<Rightarrow> Server \<Rightarrow> bool" where
  "replies c raw s q t \<longleftrightarrow>
     (case decode_request raw of
        Inl _ \<Rightarrow> t = s \<and> (\<exists>k. q = error_response k)
      | Inr req \<Rightarrow> \<exists>r. dispatch_request (cr_service c) (Some (cr_peer c)) req s = (r, t) \<and>
          (r = Inr q \<or> q = error_response INTERNAL_ERROR))"

lemma deliver_line:
  assumes "raw \<noteq> []"
  shows "\<exists>x t. deliver c raw s = (write_response x, t) \<and> (\<forall>q. q = x \<or> q = error_response INTERNAL_ERROR \<longrightarrow> replies c raw s q t)"
proof (cases "decode_request raw")
  case (Inl e)
  then show ?thesis using deliver_refused [OF _ assms, of e c s] by (fastforce simp: replies_def)
next
  case (Inr req)
  obtain r t where r: "dispatch_request (cr_service c) (Some (cr_peer c)) req s = (r, t)" by fastforce
  show ?thesis
    by (rule exI [of _ "case r of Inl _ \<Rightarrow> error_response INTERNAL_ERROR | Inr x \<Rightarrow> x"], rule exI [of _ t])
      (use deliver_request [OF Inr assms r] Inr r in \<open>auto simp: answer_line_def replies_def split: sum.splits\<close>)
qed

text \<open>What one exchange can come to: nothing reached the service; or the request did, and the answer was lost, or read.\<close>

definition exchanged :: "carrier \<Rightarrow> dict \<Rightarrow> Bridge \<Rightarrow> link \<Rightarrow> dict result \<Rightarrow> Bridge \<Rightarrow> link \<Rightarrow> bool" where
  "exchanged c d b l r b' l' \<longleftrightarrow>
     (\<exists>con. b' = b\<lparr>br_connected := con, br_receive_buffer := []\<rparr>) \<and> lk_pending l' = [] \<and>
     (lk_server l' = lk_server l \<and> (\<exists>e. r = Inl e \<and> bridge_error e) \<or>
      (\<exists>raw q. request_bytes d = Inr raw \<and> replies c raw (lk_server l) q (lk_server l') \<and>
         ((\<exists>e. r = Inl e \<and> bridge_error e) \<or>
          (\<exists>t p. reads_response t q \<and> json_of_bytes t = Inr (JObj p) \<and> r = Inr p))))"

lemma request_bytes_Inl: "request_bytes d = Inl e \<Longrightarrow> bridge_error e"
  by (auto simp: request_bytes_def Let_def bridge_error_def raise_if_def split: if_splits)

lemma line_of_reply: "CHR 0x0A \<notin> set t \<Longrightarrow> takeWhile (\<lambda>c. c \<noteq> CHR 0x0A) (t @ [CHR 0x0A]) = t \<and>
    dropWhile (\<lambda>c. c \<noteq> CHR 0x0A) (t @ [CHR 0x0A]) = [CHR 0x0A]"
  by (induction t) auto

lemma receive_line_reply:
  assumes "br_receive_buffer b = []" "lk_pending l = t @ [CHR 0x0A]" "CHR 0x0A \<notin> set t" "length t < MAX_RESPONSE_BYTES"
  shows "\<exists>k. receive_line (link_network c) (b, l) = (Inr t, (b\<lparr>br_receive_buffer := []\<rparr>, l\<lparr>lk_pending := [], lk_calls := k\<rparr>))"
proof -
  have "[] @ lk_pending l = t @ [CHR 0x0A]" using assms(2) by simp
  from receive_reply [OF this assms(3,4)] obtain k where
    "receive (link_network c) [] l = (Inr (), t @ [CHR 0x0A], l\<lparr>lk_pending := [], lk_calls := k\<rparr>)" by blast
  then show ?thesis using assms(1) line_of_reply [OF assms(3)] by (auto simp: receive_line_def)
qed

lemma exchange_link:
  assumes "br_receive_buffer b = []" "lk_pending l = []" "exchange (link_network c) d (b, l) = (r, (b', l'))"
  shows "exchanged c d b l r b' l'"
proof -
  let ?w = "link_network c"
  obtain k con x where con: "connect_bridge ?w (b, l) = (x, (b\<lparr>br_connected := con\<rparr>, l\<lparr>lk_calls := k\<rparr>))"
    and xe: "\<forall>e. x = Inl e \<longrightarrow> bridge_error e" using connect_link [OF assms(2)] by blast
  let ?b = "b\<lparr>br_connected := con\<rparr>" and ?l = "l\<lparr>lk_calls := k\<rparr>"
  have buffer: "?b = b\<lparr>br_connected := con, br_receive_buffer := []\<rparr>" using assms(1) by simp
  show ?thesis
  proof (cases "\<exists>e. x = Inl e \<or> request_bytes d = Inl e")
    case True
    then obtain e where "r = Inl e" "bridge_error e" "b' = ?b" "l' = ?l"
      using assms(3) con xe request_bytes_Inl by (cases x) (auto simp: exchange_def bind_s_run)
    then show ?thesis using buffer assms(2) unfolding exchanged_def by auto
  next
    case False
    then obtain raw where x: "x = Inr ()" and raw: "request_bytes d = Inr raw" by (cases x; cases "request_bytes d") auto
    then have "raw \<noteq> []" by (auto simp: request_bytes_def Let_def raise_if_def split: if_splits)
    then obtain y t where y: "deliver c raw (lk_server l) = (write_response y, t)"
      "\<And>q. q = y \<or> q = error_response INTERNAL_ERROR \<Longrightarrow> replies c raw (lk_server l) q t"
      using deliver_line [of raw c "lk_server l"] by blast
    have rest: "exchange ?w d (b, l) = bind_s (on_net (link_send c raw)) (\<lambda>_. bind_s (receive_line ?w) (\<lambda>line.
       lift_s (bind_r (json_of_bytes line) (\<lambda>payload.
         case payload of JObj d \<Rightarrow> Inr d | _ \<Rightarrow> Inl (ValueError ''response must be an object''))))) (?b, ?l)"
      using con x raw by (simp add: exchange_def bind_s_run)
    show ?thesis
    proof (cases "cr_fault c k")
      case Lost_request
      with assms(3) y(1) have "r = Inl (OSError ''broken pipe'')" "b' = ?b" "l' = called ?l"
        unfolding rest by (simp_all add: bind_s_run on_net_run link_send_def)
      then show ?thesis using buffer assms(2) unfolding exchanged_def by (auto simp: bridge_error_def)
    next
      case Lost_reply
      with assms(3) y(1) have "r = Inl (OSError ''timed out'')" "b' = ?b" "lk_pending l' = []" "lk_server l' = t"
        unfolding rest using assms(1,2) receive_nothing [of "(called ?l)\<lparr>lk_server := t\<rparr>" c]
        by (auto simp: bind_s_run on_net_run link_send_def receive_line_def)
      then show ?thesis using buffer raw y(2) [of y] unfolding exchanged_def by (auto simp: bridge_error_def)
    next
      case Fine
      from written_reads [of y] obtain u q where u: "write_response y = u @ [CHR 0x0A]" "CHR 0x0A \<notin> set u" "length u < MAX_RESPONSE_BYTES"
        and q: "reads_response u q" "q = y \<or> q = error_response INTERNAL_ERROR" by blast
      from q(1) obtain p where p: "json_of_bytes u = Inr (JObj p)" by (auto simp: reads_response_def)
      let ?m = "(called ?l)\<lparr>lk_server := t, lk_pending := u @ [CHR 0x0A]\<rparr>"
      have "lk_pending ?m = u @ [CHR 0x0A]" by simp
      from receive_line_reply [of ?b, OF _ this u(2,3), of c] assms(1) obtain j where
        "receive_line ?w (?b, ?m) = (Inr u, (?b\<lparr>br_receive_buffer := []\<rparr>, ?m\<lparr>lk_pending := [], lk_calls := j\<rparr>))" by auto
      with assms(3) Fine y(1) u(1) p assms(2) have "r = Inr p" "b' = b\<lparr>br_connected := con, br_receive_buffer := []\<rparr>"
          "lk_pending l' = []" "lk_server l' = t"
        unfolding rest by (auto simp: bind_s_run on_net_run link_send_def)
      then show ?thesis using raw y(2) [OF q(2)] q(1) p unfolding exchanged_def by blast
    qed
  qed
qed

section \<open>What the two sides agree on\<close>

definition registration_of :: "Bridge \<Rightarrow> string \<Rightarrow> RegisterRequest" where
  "registration_of b dir = \<lparr>reg_shell_id = br_shell_id b, reg_identity = br_identity b, reg_adapter = br_adapter b,
     reg_cwd = dir, reg_sequence = 0\<rparr>"

fun event_operation :: "EventType \<Rightarrow> Operation" where
  "event_operation Ev_COMMAND_STARTED = Op_COMMAND_STARTED"
| "event_operation Ev_COMMAND_FINISHED = Op_COMMAND_FINISHED"
| "event_operation Ev_PROMPT_READY = Op_PROMPT_READY"
| "event_operation Ev_CWD_CHANGED = Op_CWD_CHANGED"
| "event_operation Ev_EXPLICIT_EXIT = Op_EXPLICIT_EXIT"

definition event_of :: "Bridge \<Rightarrow> string \<Rightarrow> LocalEvent \<Rightarrow> EventRequest" where
  "event_of b capability e = \<lparr>ev_operation = event_operation (le_type e), ev_shell_id = br_shell_id b,
     ev_capability = capability, ev_identity = br_identity b, ev_sequence = br_next_sequence b, ev_cwd = le_cwd e,
     ev_command_sequence = le_command_sequence e, ev_command = le_command e, ev_exit_status = le_exit_status e\<rparr>"

lemma register_dict: "request_to_dict (Register (registration_of b dir)) = Inr (register_request b dir)"
  by (simp add: registration_of_def register_request_def)

lemma event_dict: "request_to_dict (Event (event_of b capability e)) = Inr (event_request b capability e)"
  by (cases "le_type e") (simp_all add: event_of_def event_request_def event_fields_def)

text \<open>The identity of the shell, and a working directory that came in a frame.\<close>

definition good_bridge :: "Bridge \<Rightarrow> bool" where
  "good_bridge b \<longleftrightarrow> valid_shell_id (br_shell_id b) \<and> wire_identity (br_identity b) \<and>
     br_adapter b \<in> set SUPPORTED_ADAPTERS \<and> pred_option valid_path (br_cwd b) \<and> br_receive_buffer b = []"

text \<open>
  While the bridge holds a capability, it is that of the shell's registration, for the same process, and the next
  number is the one behind the last the service accepted.
\<close>

definition in_step :: "Bridge \<Rightarrow> EngineState \<Rightarrow> bool" where
  "in_step b st \<longleftrightarrow>
     (case br_capability b of
        None \<Rightarrow> True
      | Some c \<Rightarrow> \<exists>r. map_of (registrations st) (br_shell_id b) = Some r \<and> rg_capability r = c \<and>
          rg_identity r = br_identity b \<and> rg_last_sequence r + 1 = br_next_sequence b)"

lemma sent_decodes:
  assumes "request_to_dict req = Inr d" "wf_request req" "request_bytes d = Inr raw"
  shows "decode_request raw = Inr req"
proof -
  have pl: "plain MAX_JSON_NESTING (JObj d)" by (rule request_line.enc_plain [OF assms(1)])
  let ?t = "dumps_with ascii_escape (\<lambda>_. []) (JObj d)"
  have raw: "raw = ?t @ [CHR 0x0A]" "length raw \<le> MAX_MESSAGE_BYTES" "ints_printable (JObj d)"
    using assms(3) by (auto simp: request_bytes_def Let_def raise_if_def simp del: dumps_with.simps ints_printable.simps
        split: if_splits)
  have "utf8_encode ?t = ?t" using ascii_dumps [OF pl] by (rule utf8_ascii)
  with raw have "decode_json_line raw MAX_MESSAGE_BYTES ''request'' = Inr d"
    by (intro decode_printed_line [OF ascii_text.escaping_axioms newline_escape(2) pl raw(3)]) simp_all
  then show ?thesis using request_codec.dec_enc [OF assms(2,1)] by (simp add: decode_request_def)
qed

lemma wf_registration: "good_bridge b \<Longrightarrow> br_cwd b = Some dir \<Longrightarrow> wf_request (Register (registration_of b dir))"
  by (simp add: good_bridge_def registration_of_def)

lemma wf_event_of:
  assumes "good_bridge b" "wf_local e" "matches_capability cap" "1 \<le> br_next_sequence b" "br_next_sequence b \<le> MAX_INTEGER"
  shows "wf_event (event_of b cap e)"
proof -
  have "event_extra (event_operation (le_type e)) = Some (local_extra (le_type e))" by (cases "le_type e") simp_all
  then show ?thesis using assms by (simp add: good_bridge_def event_of_def wf_event_def wf_local_def)
qed

text \<open>What the service makes of the two requests of a bridge.\<close>

lemma dispatch_register_cases:
  assumes "dispatch_register sv peer req s = (r, t)"
  shows "(srv_engine t = srv_engine s \<and> (\<forall>cap n. r \<noteq> Inr (RegisterResponse cap n))) \<or>
    (\<exists>fresh g. register_shell (srv_engine s) req fresh peer = Inr (srv_engine t, fresh) \<and>
       map_of (registrations (srv_engine t)) (reg_shell_id req) = Some g \<and> r = Inr (RegisterResponse fresh (rg_last_sequence g)))"
proof (cases "register_shell (srv_engine s) req (sv_token sv (srv_calls s)) peer")
  case (Inl e)
  with assms show ?thesis by (auto simp: dispatch_register_def bind_s_run tick_def error_response_def split: if_splits)
next
  case (Inr y)
  then obtain st where st: "register_shell (srv_engine s) req (sv_token sv (srv_calls s)) peer = Inr (st, sv_token sv (srv_calls s))"
    by (cases y) (auto simp: register_shell_def Let_def)
  then obtain g where "map_of (registrations st) (reg_shell_id req) = Some g"
    using register_shell_InrD [OF st] by (auto simp: map_of_alist_update)
  with assms st show ?thesis
    by (auto simp: dispatch_register_def bind_s_run tick_def dest!: mark_Inr mark_Inl split: prod.splits sum.splits)
qed

lemma dispatch_event_cases:
  assumes "dispatch_event sv req s = (r, t)"
  shows "(srv_engine t = srv_engine s \<and> (\<forall>n. r \<noteq> Inr (EventResponse n))) \<or>
    (apply_event (srv_engine s) req = Inr (srv_engine t) \<and> r = Inr (EventResponse (ev_sequence req)))"
  using assms by (auto simp: dispatch_event_def bind_s_run error_response_def dest!: mark_Inr mark_Inl
      split: prod.splits sum.splits if_splits)

abbreviation engine_of :: "link \<Rightarrow> EngineState" where
  "engine_of l \<equiv> srv_engine (lk_server l)"

text \<open>The service has not accepted so many events of the shell that the next number would not fit.\<close>

definition room :: "EngineState \<Rightarrow> string \<Rightarrow> bool" where
  "room st sid \<longleftrightarrow> (\<forall>r. map_of (registrations st) sid = Some r \<longrightarrow> rg_last_sequence r < MAX_INTEGER)"

lemma event_ready:
  assumes "good_bridge b" "br_capability b = Some cap" "in_step b st" "wf_local e" "engine_inv st" "room st (br_shell_id b)"
  shows "wf_event (event_of b cap e)"
    and "request_bytes (event_request b cap e) = Inr raw \<Longrightarrow> decode_request raw = Inr (Event (event_of b cap e))"
proof -
  from assms(2,3) obtain g where g: "map_of (registrations st) (br_shell_id b) = Some g" "rg_capability g = cap"
    "rg_last_sequence g + 1 = br_next_sequence b" by (auto simp: in_step_def)
  from inv_agrees [OF assms(5) g(1)] have "matches_capability cap" "0 \<le> rg_last_sequence g" using g(2) by (auto simp: agrees_def)
  moreover have "rg_last_sequence g < MAX_INTEGER" using assms(6) g(1) by (simp add: room_def)
  ultimately show wf: "wf_event (event_of b cap e)" using wf_event_of [OF assms(1,4)] g(3) by simp
  show "request_bytes (event_request b cap e) = Inr raw \<Longrightarrow> decode_request raw = Inr (Event (event_of b cap e))"
    using sent_decodes [OF event_dict] wf by simp
qed

lemma event_link:
  assumes b: "good_bridge b" "br_capability b = Some cap" "in_step b (engine_of l)" and e: "wf_local e"
    and l: "engine_inv (engine_of l)" "room (engine_of l) (br_shell_id b)" "lk_pending l = []"
    and x: "exchange (link_network c) (event_request b cap e) (b, l) = (r, (b', l'))"
  shows "(\<exists>con. b' = b\<lparr>br_connected := con\<rparr>) \<and> lk_pending l' = [] \<and>
    (engine_of l' = engine_of l \<or> apply_event (engine_of l) (event_of b cap e) = Inr (engine_of l')) \<and>
    (\<forall>err. r = Inl err \<longrightarrow> bridge_error err) \<and>
    (\<forall>p. r = Inr p \<longrightarrow> event_accepted p (br_next_sequence b) \<longrightarrow>
       apply_event (engine_of l) (event_of b cap e) = Inr (engine_of l'))"
proof -
  have buffer: "br_receive_buffer b = []" using b(1) by (simp add: good_bridge_def)
  then have same: "b\<lparr>br_connected := con, br_receive_buffer := []\<rparr> = b\<lparr>br_connected := con\<rparr>" for con by simp
  note d = event_ready(2) [OF b(1,2,3) e l(1,2)]
  have "exchanged c (event_request b cap e) b l r b' l'" by (rule exchange_link [OF buffer l(3) x])
  then obtain con where con: "b' = b\<lparr>br_connected := con\<rparr>" "lk_pending l' = []"
    and cases: "lk_server l' = lk_server l \<and> (\<exists>err. r = Inl err \<and> bridge_error err) \<or>
      (\<exists>raw q. request_bytes (event_request b cap e) = Inr raw \<and> replies c raw (lk_server l) q (lk_server l') \<and>
         ((\<exists>err. r = Inl err \<and> bridge_error err) \<or>
          (\<exists>t p. reads_response t q \<and> json_of_bytes t = Inr (JObj p) \<and> r = Inr p)))"
    unfolding exchanged_def same by blast
  show ?thesis
  proof (cases "lk_server l' = lk_server l \<and> (\<exists>err. r = Inl err \<and> bridge_error err)")
    case True
    then show ?thesis using con by auto
  next
    case False
    with cases obtain raw q where raw: "request_bytes (event_request b cap e) = Inr raw"
      and rep: "replies c raw (lk_server l) q (lk_server l')"
      and r: "(\<exists>err. r = Inl err \<and> bridge_error err) \<or> (\<exists>t p. reads_response t q \<and> json_of_bytes t = Inr (JObj p) \<and> r = Inr p)"
      by blast
    from rep obtain a where a: "dispatch_event (cr_service c) (event_of b cap e) (lk_server l) = (a, lk_server l')"
      "a = Inr q \<or> q = error_response INTERNAL_ERROR" unfolding replies_def d [OF raw] by auto
    note outcome = dispatch_event_cases [OF a(1)]
    have acc: "apply_event (engine_of l) (event_of b cap e) = Inr (engine_of l')"
      if "r = Inr p" "event_accepted p (br_next_sequence b)" for p
    proof -
      from r that obtain t where "reads_response t q" "json_of_bytes t = Inr (JObj p)" by auto
      from accepted_reads [OF this that(2)] have "q = EventResponse (br_next_sequence b)" .
      with a(2) outcome show ?thesis by (auto simp: error_response_def)
    qed
    with con r outcome show ?thesis by auto
  qed
qed

lemma accepted_watermark:
  assumes "apply_event st req = Inr st'"
  shows "\<exists>r. map_of (registrations st') (ev_shell_id req) = Some r \<and> rg_capability r = ev_capability req \<and>
    rg_identity r = ev_identity req \<and> rg_last_sequence r = ev_sequence req"
  using assms by (rule apply_event_InrD) (auto simp: after_event_def map_of_alist_update event_registration_def)

lemma registered_response_Inl:
  assumes "registered_response d = Inl e"
  shows "bridge_error e"
proof -
  have "e = ValueError ''invalid register response''"
    using assms unfolding registered_response_def
    by (cases "set (dict_keys d) \<noteq> {''schema_version'', ''ok'', ''response'', ''capability'', ''resume_sequence''}")
      (simp_all split: option.splits json.splits if_splits)
  then show ?thesis by (simp add: bridge_error_def)
qed

lemma register_link:
  assumes b: "good_bridge b" "br_capability b = None" "br_cwd b = Some dir"
    and l: "engine_inv (engine_of l)" "lk_pending l = []"
    and x: "register_bridge (link_network c) (b, l) = (r, (b', l'))"
  shows "lk_pending l' = [] \<and> good_bridge b' \<and> br_shell_id b' = br_shell_id b \<and> br_identity b' = br_identity b \<and>
    br_adapter b' = br_adapter b \<and>
    (engine_of l' = engine_of l \<or>
      (\<exists>fresh. register_shell (engine_of l) (registration_of b dir) fresh (Some (cr_peer c)) = Inr (engine_of l', fresh))) \<and>
    in_step b' (engine_of l') \<and>
    (case r of
       Inl e \<Rightarrow> bridge_error e \<and> br_capability b' = None
     | Inr _ \<Rightarrow> br_capability b' \<noteq> None \<and>
         (\<exists>fresh. register_shell (engine_of l) (registration_of b dir) fresh (Some (cr_peer c)) = Inr (engine_of l', fresh)))"
proof -
  have buffer: "br_receive_buffer b = []" using b(1) by (simp add: good_bridge_def)
  obtain a b1 l1 where ex: "exchange (link_network c) (register_request b dir) (b, l) = (a, (b1, l1))" by (metis prod.exhaust)
  have d: "decode_request raw = Inr (Register (registration_of b dir))" if "request_bytes (register_request b dir) = Inr raw" for raw
    using sent_decodes [OF register_dict wf_registration [OF b(1,3)] that] .
  have run: "register_bridge (link_network c) (b, l) =
      bind_s (lift_s a) (\<lambda>response. bind_s (lift_s (registered_response response)) (\<lambda>(capability, resume).
        set_bridge (\<lambda>b. b\<lparr>br_capability := Some capability, br_next_sequence := resume + 1, br_retry_index := 0,
           br_retry_at := 0\<rparr>))) (b1, l1)"
    using ex b(3) by (cases a) (simp_all add: register_bridge_def bind_s_run)
  have "exchanged c (register_request b dir) b l a b1 l1" by (rule exchange_link [OF buffer l(2) ex])
  then obtain con where con: "b1 = b\<lparr>br_connected := con, br_receive_buffer := []\<rparr>" "lk_pending l1 = []"
    and cases: "lk_server l1 = lk_server l \<and> (\<exists>err. a = Inl err \<and> bridge_error err) \<or>
      (\<exists>raw q. request_bytes (register_request b dir) = Inr raw \<and> replies c raw (lk_server l) q (lk_server l1) \<and>
         ((\<exists>err. a = Inl err \<and> bridge_error err) \<or>
          (\<exists>t p. reads_response t q \<and> json_of_bytes t = Inr (JObj p) \<and> a = Inr p)))"
    unfolding exchanged_def by blast
  have engine: "engine_of l1 = engine_of l \<or>
      (\<exists>fresh. register_shell (engine_of l) (registration_of b dir) fresh (Some (cr_peer c)) = Inr (engine_of l1, fresh))"
    using cases by (auto simp: replies_def d dest!: dispatch_register_cases)
  have good: "good_bridge (b1\<lparr>br_capability := k, br_next_sequence := n, br_retry_index := i, br_retry_at := q\<rparr>)" for k n i q
    using b(1) con(1) by (simp add: good_bridge_def)
  show ?thesis
  proof (cases "\<exists>p cap n. a = Inr p \<and> registered_response p = Inr (cap, n)")
    case True
    then obtain p cap n where p: "a = Inr p" "registered_response p = Inr (cap, n)" by blast
    with cases obtain raw q t where "request_bytes (register_request b dir) = Inr raw"
      "replies c raw (lk_server l) q (lk_server l1)" and t: "reads_response t q" "json_of_bytes t = Inr (JObj p)" by auto
    then obtain a' where a': "dispatch_register (cr_service c) (Some (cr_peer c)) (registration_of b dir) (lk_server l) = (a', lk_server l1)"
      "a' = Inr q \<or> q = error_response INTERNAL_ERROR" by (auto simp: replies_def d)
    from registered_reads [OF t p(2)] obtain m where m: "q = RegisterResponse cap m" "n = max 0 m" by blast
    with a' dispatch_register_cases [OF a'(1)] obtain g where
      g: "register_shell (engine_of l) (registration_of b dir) cap (Some (cr_peer c)) = Inr (engine_of l1, cap)"
      "map_of (registrations (engine_of l1)) (br_shell_id b) = Some g" "m = rg_last_sequence g"
      by (auto simp: error_response_def registration_of_def)
    have "0 \<le> rg_last_sequence g \<and> rg_capability g = cap \<and> rg_identity g = br_identity b"
      using register_shell_InrD [OF g(1)] g(2)
      by (auto simp: map_of_alist_update registration_of_def registered_def Registration_check_Inr split: option.splits)
    moreover from x run p have "r = Inr ()" "l' = l1"
      "b' = b1\<lparr>br_capability := Some cap, br_next_sequence := n + 1, br_retry_index := 0, br_retry_at := 0\<rparr>"
      by auto
    ultimately show ?thesis using good con engine g m(2) by (auto simp: in_step_def)
  next
    case False
    have "\<exists>err. r = Inl err \<and> bridge_error err"
    proof (cases a)
      case (Inl err)
      then show ?thesis using x run cases by auto
    next
      case (Inr p)
      then obtain err where "registered_response p = Inl err" using False by (cases "registered_response p") auto
      moreover from this have "bridge_error err" by (rule registered_response_Inl)
      ultimately show ?thesis using x run Inr by auto
    qed
    moreover have "b' = b1" "l' = l1" using x run calculation by (auto simp: bind_s_run split: sum.splits)
    ultimately show ?thesis using con b(1,2) engine by (auto simp: in_step_def good_bridge_def)
  qed
qed

section \<open>A frame\<close>

text \<open>
  What a frame can do to the engine: the shell may be registered again first, and then the event is recorded at most
  once, with the number behind the last one of the shell and its current capability, and certainly if the bridge counts
  it as sent.
\<close>

definition frame_effect :: "carrier \<Rightarrow> Bridge \<Rightarrow> LocalEvent \<Rightarrow> EngineState \<Rightarrow> EngineState \<Rightarrow> bool \<Rightarrow> bool" where
  "frame_effect c b e st st' sent \<longleftrightarrow>
     (\<exists>mid. (mid = st \<or> (\<exists>dir fresh. register_shell st (registration_of b dir) fresh (Some (cr_peer c)) = Inr (mid, fresh))) \<and>
        (st' = mid \<and> \<not> sent \<or>
         (\<exists>g. map_of (registrations mid) (br_shell_id b) = Some g \<and>
            apply_event mid ((event_of b (rg_capability g) e)\<lparr>ev_sequence := rg_last_sequence g + 1\<rparr>) = Inr st')))"

text \<open>
  How the bridge stands after a frame. If it counts the event as sent, it holds the capability and the next number is
  one up; otherwise it has given the capability up, and will ask for another one before it sends again, or it has
  sent nothing.
\<close>

definition frame_ends :: "Bridge \<Rightarrow> EngineState \<Rightarrow> Bridge \<Rightarrow> EngineState \<Rightarrow> bool \<Rightarrow> bool" where
  "frame_ends b st b' st' sent \<longleftrightarrow>
     (if sent then \<exists>g. map_of (registrations st') (br_shell_id b) = Some g \<and> br_capability b' = Some (rg_capability g) \<and>
        rg_identity g = br_identity b \<and> br_next_sequence b' = rg_last_sequence g + 1
      else br_capability b' = None \<or>
        st' = st \<and> br_capability b' = br_capability b \<and> br_next_sequence b' = br_next_sequence b)"

lemma room_registered:
  assumes "room st sid" "register_shell st req fresh peer = Inr (st', fresh)" "reg_shell_id req = sid"
  shows "room st' sid"
  using register_shell_InrD [OF assms(2)] assms(1,3)
  by (auto simp: room_def map_of_alist_update registered_def MAX_INTEGER_def split: option.splits)

lemma send_event_link:
  assumes b: "good_bridge b" "in_step b (engine_of l)" "br_cwd b \<noteq> None" and e: "wf_local e"
    and l: "engine_inv (engine_of l)" "room (engine_of l) (br_shell_id b)" "lk_pending l = []"
    and x: "send_event (link_network c) e (b, l) = (r, (b', l'))"
  shows "lk_pending l' = [] \<and> good_bridge b' \<and> frame_effect c b e (engine_of l) (engine_of l') (r = Inr ()) \<and>
    (r = Inr () \<longrightarrow> in_step b' (engine_of l') \<and> frame_ends b (engine_of l) b' (engine_of l') True) \<and> (\<forall>err. r = Inl err \<longrightarrow> bridge_error err)"
proof -
  let ?w = "link_network c"
  have event: ?thesis
    if k: "good_bridge k" "in_step k (engine_of m)" "br_capability k = Some cap"
      "br_shell_id k = br_shell_id b" "br_identity k = br_identity b"
      and m: "engine_inv (engine_of m)" "room (engine_of m) (br_shell_id k)" "lk_pending m = []"
      and mid: "engine_of m = engine_of l \<or>
        (\<exists>dir fresh. register_shell (engine_of l) (registration_of b dir) fresh (Some (cr_peer c)) = Inr (engine_of m, fresh))"
      and run: "bind_s (exchange ?w (event_request k cap e)) (\<lambda>response.
        bind_s (of_bridge br_next_sequence) (\<lambda>expected.
        if \<not> event_accepted response expected then raise_s (ValueError ''invalid event response'')
        else set_bridge (\<lambda>b. b\<lparr>br_next_sequence := br_next_sequence b + 1\<rparr>))) (k, m) = (r, (b', l'))"
    for k m cap
  proof -
    obtain a k1 m1 where ex: "exchange ?w (event_request k cap e) (k, m) = (a, (k1, m1))" by (metis prod.exhaust)
    note el = event_link [OF k(1,3,2) e m ex]
    then obtain con where con: "k1 = k\<lparr>br_connected := con\<rparr>" by blast
    from k(2,3) obtain g where g: "map_of (registrations (engine_of m)) (br_shell_id b) = Some g" "rg_capability g = cap"
      "rg_last_sequence g + 1 = br_next_sequence k" by (auto simp: in_step_def k(4))
    have same: "event_of k cap e = (event_of b (rg_capability g) e)\<lparr>ev_sequence := rg_last_sequence g + 1\<rparr>"
      using k(4,5) g(2,3) by (simp add: event_of_def)
    have eff: "frame_effect c b e (engine_of l) (engine_of m1) (r = Inr ())"
      if "r = Inr () \<Longrightarrow> apply_event (engine_of m) (event_of k cap e) = Inr (engine_of m1)"
      using that el mid g(1) unfolding frame_effect_def same by blast
    show ?thesis
    proof (cases "\<exists>p. a = Inr p \<and> event_accepted p (br_next_sequence k)")
      case True
      then obtain p where p: "a = Inr p" "event_accepted p (br_next_sequence k)" by blast
      with el have ap: "apply_event (engine_of m) (event_of k cap e) = Inr (engine_of m1)" by blast
      from p run ex con have r: "r = Inr ()" "b' = k1\<lparr>br_next_sequence := br_next_sequence k + 1\<rparr>" "l' = m1"
        by (auto simp: bind_s_run)
      have "in_step b' (engine_of l')" "frame_ends b (engine_of l) b' (engine_of l') True"
        using accepted_watermark [OF ap] k(3-5) r con by (auto simp: in_step_def frame_ends_def event_of_def)
      moreover have "good_bridge b'" using k(1) r con by (simp add: good_bridge_def)
      ultimately show ?thesis using el eff ap r by simp
    next
      case False
      then have "b' = k1" "l' = m1" "\<exists>err. r = Inl err \<and> bridge_error err"
        using run ex con el by (cases a; auto simp: bind_s_run bridge_error_def)+
      moreover from this have "good_bridge b'" using k(1) con by (simp add: good_bridge_def)
      ultimately show ?thesis using el eff by auto
    qed
  qed
  show ?thesis
  proof (cases "br_capability b")
    case (Some cap)
    show ?thesis
      by (rule event [OF b(1,2) Some HOL.refl HOL.refl l]) (use x Some in \<open>simp_all add: send_event_def bind_s_run\<close>)
  next
    case None
    obtain dir where dir: "br_cwd b = Some dir" using b(3) by blast
    obtain a b1 l1 where reg: "register_bridge ?w (b, l) = (a, (b1, l1))" by (metis prod.exhaust)
    note rl = register_link [OF b(1) None dir l(1,3) reg]
    then have mid: "engine_of l1 = engine_of l \<or>
        (\<exists>dir fresh. register_shell (engine_of l) (registration_of b dir) fresh (Some (cr_peer c)) = Inr (engine_of l1, fresh))" by blast
    show ?thesis
    proof (cases a)
      case (Inl err)
      with x None reg have "r = Inl err" "b' = b1" "l' = l1" by (simp_all add: send_event_def bind_s_run)
      moreover have "frame_effect c b e (engine_of l) (engine_of l1) False" using mid unfolding frame_effect_def by blast
      ultimately show ?thesis using rl Inl by simp
    next
      case (Inr u)
      then obtain cap where cap: "br_capability b1 = Some cap" using rl by auto
      have "wf_identity (br_identity b)" using b(1) wire_wf_identity by (auto simp: good_bridge_def)
      then have wf: "wf_identity (reg_identity (registration_of b dir))" by (simp add: registration_of_def)
      have inv: "engine_inv (engine_of l1)" "room (engine_of l1) (br_shell_id b1)"
      proof -
        have sid: "br_shell_id b1 = reg_shell_id (registration_of b dir)" using rl by (simp add: registration_of_def)
        then have old: "room (engine_of l) (reg_shell_id (registration_of b dir))" using l(2) by (simp add: registration_of_def)
        from rl consider "engine_of l1 = engine_of l"
          | fresh where "register_shell (engine_of l) (registration_of b dir) fresh (Some (cr_peer c)) = Inr (engine_of l1, fresh)" by blast
        then show "engine_inv (engine_of l1)" "room (engine_of l1) (br_shell_id b1)"
          using l(1) old register_shell_inv [OF l(1) wf] room_registered [OF old] unfolding sid by (cases; simp; blast)+
      qed
      show ?thesis
        by (rule event [OF _ _ cap _ _ inv _ mid]) (use x None reg Inr rl cap in \<open>simp_all add: send_event_def bind_s_run\<close>)
    qed
  qed
qed

lemma in_step_cwd: "in_step (b\<lparr>br_cwd := d\<rparr>) = in_step b"
  by (rule ext) (simp add: in_step_def split: option.split)

text \<open>A frame is dropped, or its event is sent, with the working directory it brings.\<close>

definition at_frame :: "Bridge \<Rightarrow> LocalEvent \<Rightarrow> Bridge" where
  "at_frame b e = (if le_cwd e \<noteq> None then b\<lparr>br_cwd := le_cwd e\<rparr> else b)"

lemma at_frame_simps [simp]: "br_shell_id (at_frame b e) = br_shell_id b" "br_identity (at_frame b e) = br_identity b"
  "br_capability (at_frame b e) = br_capability b" "in_step (at_frame b e) = in_step b"
  "br_next_sequence (at_frame b e) = br_next_sequence b"
  "frame_effect c (at_frame b e) = frame_effect c b" "frame_ends (at_frame b e) = frame_ends b"
  by (simp_all add: at_frame_def in_step_cwd frame_effect_def frame_ends_def registration_of_def event_of_def fun_eq_iff)

lemma good_at_frame: "good_bridge b \<Longrightarrow> wf_local e \<Longrightarrow> good_bridge (at_frame b e)"
  by (auto simp: at_frame_def good_bridge_def wf_local_def optional_fields_def present_iff_def split: option.splits)

lemma process_frame_cases:
  assumes "process_frame (link_network c) raw (b, l) = (r, (b', l'))" "decode_local_frame raw = Inr e"
  obtains (dropped) "r = Inr False" "b' = b \<or> b' = at_frame b e" "lk_server l' = lk_server l" "lk_pending l' = lk_pending l"
  | (sent) a b1 l1 where "br_cwd (at_frame b e) \<noteq> None" "send_event (link_network c) e (at_frame b e, called l) = (a, (b1, l1))"
      "(r, (b', l')) = (case a of Inr _ \<Rightarrow> (Inr True, (b1, l1))
        | Inl err \<Rightarrow> if bridge_error err then bind_s (fail_bridge (link_network c)) (\<lambda>_. ret False) (b1, l1) else (Inl err, (b1, l1)))"
proof (cases "le_shell_id e = br_shell_id b \<and> br_cwd (at_frame b e) \<noteq> None \<and> \<not> cr_time c (lk_calls l) < br_retry_at b")
  case False
  then show ?thesis using assms
    by (intro dropped) (auto simp: at_frame_def process_frame_def bind_s_run on_net_run split: if_splits)
next
  case True
  obtain a b1 l1 where se: "send_event (link_network c) e (at_frame b e, called l) = (a, (b1, l1))" by (metis prod.exhaust)
  have "process_frame (link_network c) raw (b, l) = (case a of Inr _ \<Rightarrow> (Inr True, (b1, l1))
      | Inl err \<Rightarrow> if bridge_error err then bind_s (fail_bridge (link_network c)) (\<lambda>_. ret False) (b1, l1) else (Inl err, (b1, l1)))"
    using True se assms(2)
    by (cases a) (auto simp: at_frame_def process_frame_def bind_s_run on_net_run catch_def split: if_splits)
  then show ?thesis using True assms(1) by (intro sent [OF _ se]) simp_all
qed

lemma fail_link:
  "\<exists>b' l'. fail_bridge (link_network c) (b, l) = (Inr (), (b', l')) \<and> lk_server l' = lk_server l \<and>
     (lk_pending l = [] \<longrightarrow> lk_pending l' = []) \<and> br_capability b' = None \<and> br_shell_id b' = br_shell_id b \<and>
     br_identity b' = br_identity b \<and> (good_bridge b \<longrightarrow> good_bridge b') \<and> in_step b' st"
  by (auto simp: fail_bridge_def close_run bind_s_run on_net_run good_bridge_def in_step_def)

lemma frame_in_step:
  assumes "good_bridge b" "in_step b (engine_of l)" "engine_inv (engine_of l)" "room (engine_of l) (br_shell_id b)"
    "lk_pending l = []" "process_frame (link_network c) raw (b, l) = (r, (b', l'))" "decode_local_frame raw = Inr e"
  shows "\<exists>sent. r = Inr sent \<and> frame_effect c b e (engine_of l) (engine_of l') sent \<and>
    frame_ends b (engine_of l) b' (engine_of l') sent \<and>
    good_bridge b' \<and> in_step b' (engine_of l') \<and> lk_pending l' = []"
  using assms(6,7)
proof (cases rule: process_frame_cases)
  case dropped
  have "frame_effect c b e (engine_of l) (engine_of l') False" using dropped(3) by (auto simp: frame_effect_def)
  moreover have "good_bridge b'" "in_step b' (engine_of l')"
    using dropped(2,3) assms(1,2) good_at_frame [OF assms(1) decode_frame_wf [OF assms(7)]] by (elim disjE; simp)+
  moreover have "frame_ends b (engine_of l) b' (engine_of l') False"
    using dropped(2,3) by (elim disjE; simp add: frame_ends_def)
  ultimately show ?thesis using dropped(1,4) assms(5) by (intro exI [of _ False]) simp
next
  case (sent a b1 l1)
  note e = decode_frame_wf [OF assms(7)]
  from send_event_link [OF good_at_frame [OF assms(1) e] _ sent(1) e _ _ _ sent(2)] assms(2-5)
  have s: "lk_pending l1 = []" "good_bridge b1" "frame_effect c b e (engine_of l) (engine_of l1) (a = Inr ())"
    "a = Inr () \<longrightarrow> in_step b1 (engine_of l1) \<and> frame_ends b (engine_of l) b1 (engine_of l1) True" "\<forall>err. a = Inl err \<longrightarrow> bridge_error err" by auto
  show ?thesis
  proof (cases a)
    case (Inr u)
    then show ?thesis using sent(3) s by auto
  next
    case (Inl err)
    from fail_link [of c b1 l1 "engine_of l1"] obtain b2 l2 where "fail_bridge (link_network c) (b1, l1) = (Inr (), (b2, l2))"
      "lk_server l2 = lk_server l1" "lk_pending l2 = []" "good_bridge b2" "in_step b2 (engine_of l1)" "br_capability b2 = None" using s(1,2) by blast
    then show ?thesis using Inl sent(3) s by (intro exI [of _ False]) (simp add: bind_s_run frame_ends_def)
  qed
qed

text \<open>C5: the bridge and the service stay in step, whatever the connection does to requests and replies. Each frame
  registers the shell at most once; its event is recorded at most once, always with the number behind the last accepted
  one, and it is recorded if the bridge counts it as sent. After an event it counts as sent the bridge holds the
  capability of its shell and its next number is one more than the last accepted. After anything that went wrong it has
  given the capability up: its counter may then be stale, but it sends no event before a new registration has told it
  where the service stands; and whenever it holds a capability, that is the current one and its next number follows the
  last accepted. Nothing but a frame that does not decode can make the bridge raise.\<close>
theorem bridge_in_step:
  assumes "good_bridge b" "in_step b (engine_of l)" "engine_inv (engine_of l)" "room (engine_of l) (br_shell_id b)"
    "lk_pending l = []" "process_frame (link_network c) raw (b, l) = (r, (b', l'))" "decode_local_frame raw = Inr e"
  shows "\<exists>sent. r = Inr sent \<and> frame_effect c b e (engine_of l) (engine_of l') sent \<and>
    frame_ends b (engine_of l) b' (engine_of l') sent \<and>
    good_bridge b' \<and> in_step b' (engine_of l') \<and> lk_pending l' = []"
  by (rule frame_in_step [OF assms])

section \<open>A bridge that is not the shell\<close>

lemma stranger_frame:
  assumes "pid (br_identity b) \<noteq> cr_peer c" "good_bridge b" "br_capability b = None" "engine_inv (engine_of l)" "lk_pending l = []"
    "process_frame (link_network c) raw (b, l) = (r, (b', l'))"
  shows "r \<noteq> Inr True \<and> engine_of l' = engine_of l \<and> lk_pending l' = [] \<and> good_bridge b' \<and> br_capability b' = None \<and>
    br_identity b' = br_identity b"
proof (cases "decode_local_frame raw")
  case (Inl err)
  then show ?thesis using assms by (auto simp: process_frame_def split: if_splits)
next
  case (Inr e)
  note e = decode_frame_wf [OF Inr]
  from assms(6) Inr show ?thesis
  proof (cases rule: process_frame_cases)
    case dropped
    then show ?thesis using assms(2,3,5) good_at_frame [OF assms(2) e] by (elim disjE; simp)
  next
    case (sent a b1 l1)
    obtain dir where dir: "br_cwd (at_frame b e) = Some dir" using sent(1) by blast
    obtain x b2 l2 where reg: "register_bridge (link_network c) (at_frame b e, called l) = (x, (b2, l2))" by (metis prod.exhaust)
    have "\<nexists>st fresh. register_shell (engine_of l) (registration_of (at_frame b e) dir) fresh (Some (cr_peer c)) = Inr (st, fresh)"
      using register_shell_InrD assms(1) by (fastforce simp: registration_of_def)
    with register_link [OF good_at_frame [OF assms(2) e] _ dir _ _ reg] assms(3-5)
    have n: "lk_pending l2 = []" "good_bridge b2" "br_identity b2 = br_identity b" "engine_of l2 = engine_of l"
      "\<exists>err. x = Inl err \<and> bridge_error err" by (auto split: sum.splits)
    then obtain err where "a = Inl err" "bridge_error err" "b1 = b2" "l1 = l2"
      using sent(2) reg assms(3) by (auto simp: send_event_def bind_s_run)
    moreover from fail_link [of c b2 l2 "engine_of l2"] obtain b3 l3 where "fail_bridge (link_network c) (b2, l2) = (Inr (), (b3, l3))"
      "lk_server l3 = lk_server l2" "lk_pending l3 = []" "good_bridge b3" "br_capability b3 = None" "br_identity b3 = br_identity b2"
      using n(1,2) by blast
    ultimately show ?thesis using sent(3) n by (simp add: bind_s_run)
  qed
qed

lemma stranger_run:
  assumes "pid (br_identity b) \<noteq> cr_peer c" "good_bridge b" "br_capability b = None" "engine_inv (engine_of l)" "lk_pending l = []"
    "process_all (link_network c) raws (b, l) = (r, (b', l'))"
  shows "engine_of l' = engine_of l \<and> br_capability b' = None"
  using assms
proof (induction raws arbitrary: b l)
  case Nil
  then show ?case by (simp add: process_all_def)
next
  case (Cons raw raws)
  obtain x b1 l1 where f: "process_frame (link_network c) raw (b, l) = (x, (b1, l1))" by (metis prod.exhaust)
  from stranger_frame [OF Cons.prems(1-5) f]
  have s: "engine_of l1 = engine_of l" "lk_pending l1 = []" "good_bridge b1" "br_capability b1 = None" "br_identity b1 = br_identity b"
    by auto
  show ?case
  proof (cases x)
    case (Inl err)
    then show ?thesis using Cons.prems(6) f s by (simp add: process_all_def bind_s_run)
  next
    case (Inr u)
    then have "process_all (link_network c) raws (b1, l1) = (r, (b', l'))"
      using Cons.prems(6) f by (simp add: process_all_def bind_s_run)
    from Cons.IH [OF _ s(3,4) _ s(2) this] s Cons.prems(1,4) show ?thesis by simp
  qed
qed

text \<open>C31: the service takes the identity of a registration only from the process itself, as the kernel names the peer. The shell
  starts the bridge as a process of its own (a coprocess) and passes it the shell's process identifier, so the peer is
  never the process the bridge claims to be: no such bridge is ever registered, and nothing a shell writes to it, in
  any order and over any connection, reaches the engine.\<close>
theorem separate_bridge_never_heard:
  assumes "pid (br_identity b) \<noteq> cr_peer c" "good_bridge b" "br_capability b = None" "engine_inv (engine_of l)" "lk_pending l = []"
    "run_bridge (link_network c) stream (b, l) = (r, (b', l'))"
  shows "engine_of l' = engine_of l"
proof -
  obtain x b1 l1 where p: "process_all (link_network c) (filter (\<lambda>l. length l \<le> MAX_LOCAL_FRAME_BYTES) (frame_lines stream)) (b, l) = (x, (b1, l1))"
    by (metis prod.exhaust)
  from stranger_run [OF assms(1-5) this] have "engine_of l1 = engine_of l" by blast
  moreover have "lk_server l' = lk_server l1"
    using assms(6) p by (auto simp: run_bridge_def run_frames_lines close_run)
  ultimately show ?thesis by simp
qed

section \<open>A connection that works\<close>

lemma length_utf8_le: "length (utf8_encode s) \<le> 2 * length s"
  by (induction s) (auto simp: utf8_encode_def)

lemma event_response_encodes:
  assumes "1 \<le> n" "n \<le> MAX_INTEGER"
  shows "\<exists>raw. encode_response (EventResponse n) = Inr raw \<and> length raw \<le> MAX_MESSAGE_BYTES"
proof -
  let ?p = "ok_head ''event'' @ [(''sequence'', JInt n)]"
  have "ints_printable (JInt n)" "ints_printable (JInt 1)"
    using assms by (auto intro!: small_int_printable simp: MAX_INTEGER_def simp del: ints_printable.simps)
  then have i: "ints_printable (JObj ?p)" by (simp add: ok_head_def)
  have "nat n < 2 ^ 63" using assms by (simp add: MAX_INTEGER_def nat_less_iff)
  then have "nat n < 10 ^ 19" by simp
  then have "length (nat_text (nat n)) \<le> 19" using nat_text_length [of 19 "nat n"] by simp
  then have "length (int_text n) \<le> 20" using assms by (simp add: int_text_def)
  moreover have "length (int_text 1) = 1" by (simp add: int_text_def nat_text.simps)
  ultimately have "length (dumps (\<lambda>_. []) (JObj ?p)) \<le> 100"
    by (simp add: ok_head_def json_string_with_def escape_char_def code_def)
  then have "length (utf8_encode (dumps (\<lambda>_. []) (JObj ?p)) @ [CHR 0x0A]) \<le> 201"
    using length_utf8_le [of "dumps (\<lambda>_. []) (JObj ?p)"] by (simp del: dumps_with.simps)
  then have "\<exists>raw. encode_json_line ?p MAX_RESPONSE_BYTES ''response'' = Inr raw \<and> length raw \<le> 201"
    using i by (auto simp: encode_json_line_def Let_def MAX_RESPONSE_BYTES_def raise_if_def simp del: dumps_with.simps ints_printable.simps)
  then obtain raw where raw: "encode_json_line ?p MAX_RESPONSE_BYTES ''response'' = Inr raw" "length raw \<le> 201" by blast
  have "wf_response redacted_display (EventResponse n)" using assms by simp
  from encode_response_fits [OF this _ raw(1)] raw(2) show ?thesis by (auto simp: MAX_MESSAGE_BYTES_def)
qed

definition works :: "carrier \<Rightarrow> bool" where
  "works c \<longleftrightarrow> (\<forall>n. cr_up c n \<and> cr_fault c n = Fine)"

lemma exchange_works:
  assumes "works c" "br_receive_buffer b = []" "lk_pending l = []" "request_bytes d = Inr raw" "decode_request raw = Inr req"
    "dispatch_request (cr_service c) (Some (cr_peer c)) req (lk_server l) = (Inr q, t)"
    "encode_response q = Inr out" "length out \<le> MAX_MESSAGE_BYTES"
  shows "\<exists>con l' p. exchange (link_network c) d (b, l) = (Inr p, (b\<lparr>br_connected := con\<rparr>, l')) \<and> lk_server l' = t \<and> response_to_dict q = Inr p"
proof -
  let ?w = "link_network c"
  obtain k con x where con: "connect_bridge ?w (b, l) = (x, (b\<lparr>br_connected := con\<rparr>, l\<lparr>lk_calls := k\<rparr>))"
    using connect_link [OF assms(3)] by blast
  moreover have "x = Inr ()" using con assms(1)
    by (cases "br_connected b") (auto simp: connect_bridge_def bind_s_run on_net_run link_connect_def works_def)
  moreover have ne: "raw \<noteq> []" using assms(4) by (auto simp: request_bytes_def Let_def raise_if_def split: if_splits)
  have w: "write_response q = out" using assms(7,8) by (simp add: write_response_def)
  from written_reads [of q] assms(7,8) obtain u where u: "write_response q = u @ [CHR 0x0A]" "CHR 0x0A \<notin> set u"
    "length u < MAX_RESPONSE_BYTES" "reads_response u q" by metis
  from u(4) obtain p where p: "json_of_bytes u = Inr (JObj p)" "response_to_dict q = Inr p" by (auto simp: reads_response_def)
  let ?m = "(called (l\<lparr>lk_calls := k\<rparr>))\<lparr>lk_server := t, lk_pending := u @ [CHR 0x0A]\<rparr>"
  have send: "link_send c raw (l\<lparr>lk_calls := k\<rparr>) = (Inr (), ?m)"
    using deliver_request [OF assms(5) ne, of c "lk_server l" "Inr q" t] assms(1,3,6) u(1)
    by (simp add: link_send_def works_def answer_line_def)
  have "lk_pending ?m = u @ [CHR 0x0A]" by simp
  from receive_line_reply [of "b\<lparr>br_connected := con\<rparr>", OF _ this u(2,3), of c] assms(2) obtain j where
    "receive_line ?w (b\<lparr>br_connected := con\<rparr>, ?m) = (Inr u, (b\<lparr>br_connected := con\<rparr>, ?m\<lparr>lk_pending := [], lk_calls := j\<rparr>))"
    by auto
  with send calculation p assms(4) show ?thesis
    by (auto simp: exchange_def bind_s_run on_net_run intro!: exI [of _ con])
qed

text \<open>C6: over a connection that works, nothing is lost: a frame of a registered shell, after the waiting time of an earlier
  failure, whose event the engine does not refuse and whose request fits in a message, is reported as sent, the
  service has recorded exactly that event, and the bridge keeps its capability and moves on to the next number.\<close>
theorem working_connection_delivers:
  assumes "works c" "good_bridge b" "in_step b (engine_of l)" "br_capability b = Some cap" "engine_inv (engine_of l)"
    "room (engine_of l) (br_shell_id b)" "lk_pending l = []" "decode_local_frame raw = Inr e" "le_shell_id e = br_shell_id b"
    "br_cwd b \<noteq> None" "br_retry_at b \<le> cr_time c (lk_calls l)" "request_bytes (event_request b cap e) = Inr line"
    "refusal (engine_of l) (event_of b cap e) = None"
  shows "\<exists>b' l'. process_frame (link_network c) raw (b, l) = (Inr True, (b', l')) \<and>
    apply_event (engine_of l) (event_of b cap e) = Inr (engine_of l') \<and>
    br_next_sequence b' = br_next_sequence b + 1 \<and> br_capability b' = Some cap \<and> in_step b' (engine_of l')"
proof -
  note e = decode_frame_wf [OF assms(8)]
  let ?k = "at_frame b e" and ?l = "called l"
  have k: "good_bridge ?k" "in_step ?k (engine_of ?l)" "br_capability ?k = Some cap" "br_shell_id ?k = br_shell_id b"
    "event_of ?k = event_of b" "event_request ?k = event_request b" "ev_sequence (event_of b cap e) = br_next_sequence ?k"
    using good_at_frame [OF assms(2) e] assms(3,4)
    by (simp_all add: at_frame_def event_of_def event_request_def fun_eq_iff in_step_cwd)
  note ready = event_ready [OF k(1,3,2) e, unfolded k(4)]
  have inv: "engine_inv (engine_of ?l)" "room (engine_of ?l) (br_shell_id b)" using assms(5,6) by simp_all
  have seq: "1 \<le> br_next_sequence ?k" "br_next_sequence ?k \<le> MAX_INTEGER"
    using ready(1) [OF inv] by (simp_all add: wf_event_def event_of_def)
  from dispatch_event_answer [of "lk_server ?l" "event_of ?k cap e" "cr_service c", OF inv(1) ready(1) [OF inv]] assms(13) obtain t where
    t: "dispatch_event (cr_service c) (event_of ?k cap e) (lk_server ?l) = (Inr (EventResponse (br_next_sequence ?k)), t)"
      "apply_event (engine_of l) (event_of b cap e) = Inr (srv_engine t)"
    unfolding k(5) by (auto simp: k(7))
  from event_response_encodes [OF seq] obtain out where out: "encode_response (EventResponse (br_next_sequence ?k)) = Inr out"
    "length out \<le> MAX_MESSAGE_BYTES" by blast
  have line: "request_bytes (event_request ?k cap e) = Inr line" using assms(12) by (simp add: k(6))
  have "br_receive_buffer ?k = []" "lk_pending ?l = []" using k(1) assms(7) by (simp_all add: good_bridge_def)
  from exchange_works [OF assms(1) this line ready(2) [OF inv line] _ out] t(1) obtain con l' p where
    ex: "exchange (link_network c) (event_request ?k cap e) (?k, ?l) = (Inr p, (?k\<lparr>br_connected := con\<rparr>, l'))"
    and p: "lk_server l' = t" "response_to_dict (EventResponse (br_next_sequence ?k)) = Inr p" by auto
  have "event_accepted p (br_next_sequence ?k)" using p(2) by (auto simp: event_accepted_def ok_head_def dict_keys_def field_is_def)
  with ex k(3) have "send_event (link_network c) e (?k, ?l) =
      (Inr (), ((?k\<lparr>br_connected := con\<rparr>)\<lparr>br_next_sequence := br_next_sequence ?k + 1\<rparr>, l'))"
    by (simp add: send_event_def bind_s_run)
  then have "process_frame (link_network c) raw (b, l) =
      (Inr True, ((?k\<lparr>br_connected := con\<rparr>)\<lparr>br_next_sequence := br_next_sequence ?k + 1\<rparr>, l'))"
    using assms(8-11) by (auto simp: at_frame_def process_frame_def bind_s_run on_net_run catch_def)
  moreover have "in_step ((?k\<lparr>br_connected := con\<rparr>)\<lparr>br_next_sequence := br_next_sequence ?k + 1\<rparr>) (engine_of l')"
    using accepted_watermark [OF t(2)] k(3,4) p(1) by (auto simp: in_step_def event_of_def)
  ultimately show ?thesis using t(2) p(1) k(3) by simp
qed

section \<open>A concrete bridge\<close>

definition demo_local :: LocalEvent where
  "demo_local = \<lparr>le_type = Ev_CWD_CHANGED, le_shell_id = demo_id, le_cwd = Some ''/b'', le_command_sequence = None,
     le_command = None, le_exit_status = None\<rparr>"

definition demo_frame :: string where
  "demo_frame = dumps (\<lambda>_. []) (JObj (local_to_dict demo_local)) @ [CHR 0x0A]"

definition demo_bridge :: "string option \<Rightarrow> Bridge" where
  "demo_bridge cap = (Bridge_init demo_id demo_identity ''kitty'')\<lparr>br_capability := cap, br_cwd := Some ''/a''\<rparr>"

definition demo_carrier :: "int \<Rightarrow> carrier" where
  "demo_carrier p = \<lparr>cr_service = demo_service, cr_peer = p, cr_up = (\<lambda>_. True), cr_fault = (\<lambda>_. Fine), cr_chunk = (\<lambda>_. 0),
     cr_time = (\<lambda>_. 0)\<rparr>"

definition demo_link :: link where
  "demo_link = \<lparr>lk_server = demo_server (demo_state demo_capability 1 0 ''/a'' None) demo_store, lk_pending = [], lk_calls = 0\<rparr>"

lemma demo_frame_decodes: "decode_local_frame demo_frame = Inr demo_local"
proof -
  have "wf_local demo_local"
    by (simp add: demo_local_def wf_local_def valid_shell_id_def matches_id_def id_char_def demo_id_def
      optional_fields_def present_iff_def valid_path_def startswith_def
      MAX_PATH_CHARS_def forbidden_char_def is_letter_def is_lower_def code_def)
  moreover have "encode_json_line (local_to_dict demo_local) MAX_LOCAL_FRAME_BYTES ''local frame'' = Inr demo_frame"
    by code_simp
  ultimately show ?thesis using frame_line.read_written [of demo_local demo_frame]
    by (simp add: decode_local_frame_def frame_line.write_line_def frame_line.read_line_def)
qed

lemma demo_good: "good_bridge (demo_bridge cap)" "in_step (demo_bridge (Some demo_capability)) (engine_of demo_link)"
  "engine_inv (engine_of demo_link)" "room (engine_of demo_link) sid" "lk_pending demo_link = []"
proof -
  show "good_bridge (demo_bridge cap)"
    using canonical_sample
    by (simp add: good_bridge_def demo_bridge_def Bridge_init_def valid_shell_id_def matches_id_def id_char_def demo_id_def
        demo_identity_def wire_identity_def valid_path_def startswith_def SUPPORTED_ADAPTERS_def
        MAX_PATH_CHARS_def forbidden_char_def is_letter_def is_lower_def code_def)
  show "in_step (demo_bridge (Some demo_capability)) (engine_of demo_link)"
    by (simp add: in_step_def demo_bridge_def Bridge_init_def demo_link_def demo_server_def demo_state_def)
  show "engine_inv (engine_of demo_link)" using demo_engine by (simp add: demo_link_def demo_server_def)
  show "room (engine_of demo_link) sid"
    by (simp add: room_def demo_link_def demo_server_def demo_state_def MAX_INTEGER_def)
qed (simp add: demo_link_def)

theorem bridge_in_step_witness:
  "\<exists>r b' l'. process_frame (link_network (demo_carrier 7)) demo_frame (demo_bridge (Some demo_capability), demo_link) = (r, (b', l')) \<and>
     in_step b' (engine_of l')"
proof -
  obtain r b' l' where p: "process_frame (link_network (demo_carrier 7)) demo_frame (demo_bridge (Some demo_capability), demo_link) = (r, (b', l'))"
    by (metis prod.exhaust)
  from bridge_in_step [OF demo_good p demo_frame_decodes] p show ?thesis by blast
qed

theorem separate_bridge_never_heard_witness:
  "engine_of (snd (snd (run_bridge (link_network (demo_carrier 8)) demo_frame (demo_bridge None, demo_link)))) = engine_of demo_link"
proof -
  obtain r b' l' where p: "run_bridge (link_network (demo_carrier 8)) demo_frame (demo_bridge None, demo_link) = (r, (b', l'))"
    by (metis prod.exhaust)
  have "pid (br_identity (demo_bridge None)) \<noteq> cr_peer (demo_carrier 8)" "br_capability (demo_bridge None) = None"
    by (simp_all add: demo_bridge_def Bridge_init_def demo_identity_def demo_carrier_def)
  from separate_bridge_never_heard [OF this(1) demo_good(1) this(2) demo_good(3,5) p] p show ?thesis by simp
qed

theorem working_connection_delivers_witness:
  "\<exists>b' l'. process_frame (link_network (demo_carrier 7)) demo_frame (demo_bridge (Some demo_capability), demo_link) = (Inr True, (b', l')) \<and>
     br_next_sequence b' = 2 \<and> in_step b' (engine_of l')"
proof -
  let ?b = "demo_bridge (Some demo_capability)"
  have "works (demo_carrier 7)" by (simp add: works_def demo_carrier_def)
  moreover have "br_capability ?b = Some demo_capability" "le_shell_id demo_local = br_shell_id ?b" "br_cwd ?b \<noteq> None"
    "br_retry_at ?b \<le> cr_time (demo_carrier 7) (lk_calls demo_link)"
    by (simp_all add: demo_bridge_def Bridge_init_def demo_local_def demo_carrier_def)
  moreover have "\<not> isl (request_bytes (event_request ?b demo_capability demo_local))" by code_simp
  then have "\<exists>line. request_bytes (event_request ?b demo_capability demo_local) = Inr line"
    by (cases "request_bytes (event_request ?b demo_capability demo_local)") simp_all
  moreover have "refusal (engine_of demo_link) (event_of ?b demo_capability demo_local) = None"
    by (simp add: refusal_def demo_link_def demo_server_def demo_state_def event_of_def demo_bridge_def Bridge_init_def
        demo_local_def demo_shell_def)
  ultimately show ?thesis
    using working_connection_delivers [OF _ demo_good(1,2) _ demo_good(3-5) demo_frame_decodes, of "demo_carrier 7" demo_capability]
    by (auto simp: demo_bridge_def Bridge_init_def)
qed

end
