(* ===== verification/Client.thy ===== *)
theory Client
  imports Link
begin

text \<open>
  The client of \<^verbatim>\<open>client.py\<close>, which the command line uses: one connection per request, one response, the end of the stream.
  \<^verbatim>\<open>ServiceUnavailable\<close> is a \<^verbatim>\<open>RuntimeError\<close>.
\<close>

section \<open>The client\<close>

definition ServiceClient_init :: "rat \<Rightarrow> rat result" where
  "ServiceClient_init timeout = (if timeout \<le> 0 then Inl (ValueError ''timeout must be positive'') else Inr timeout)"

function client_receive :: "'n network \<Rightarrow> string \<Rightarrow> ('n, string) act" where
  "client_receive w raw n =
     (if CHR 0x0A \<in> set raw \<or> length raw > MAX_RESPONSE_BYTES then (Inr raw, n)
      else case net_recv w (MAX_RESPONSE_BYTES + 1 - length raw) n of
        (Inl e, m) \<Rightarrow> (Inl e, m)
      | (Inr chunk, m) \<Rightarrow>
          if chunk = [] then (Inl (RuntimeError ''service response ended before newline''), m)
          else client_receive w (raw @ chunk) m)"
  by pat_completeness auto
termination
  by (relation "measure (\<lambda>(w, raw, n). MAX_RESPONSE_BYTES + 1 - length raw)") (auto simp flip: length_greater_0_conv)

declare client_receive.simps [simp del]

definition receive_response :: "'n network \<Rightarrow> ('n, string) act" where
  "receive_response w =
     bind_s (client_receive w []) (\<lambda>raw.
     if length raw > MAX_RESPONSE_BYTES then raise_s (RuntimeError ''service response is too large'')
     else if CHR 0x0A \<notin> set raw then raise_s (RuntimeError ''service response ended before newline'')
     else if length (takeWhile (\<lambda>c. c \<noteq> CHR 0x0A) raw) \<noteq> length raw - 1 then
       raise_s (RuntimeError ''service response contains extra bytes'')
     else
       bind_s (net_recv w 1) (\<lambda>extra.
       if extra \<noteq> [] then raise_s (RuntimeError ''service response contains extra bytes'') else ret raw))"

text \<open>A timeout is an \<^verbatim>\<open>OSError\<close> of its own; the two messages differ, the exception does not.\<close>

definition client_request :: "'n network \<Rightarrow> ServiceRequest \<Rightarrow> ('n, ServiceResponse) act" where
  "client_request w request =
     bind_s (lift_s (encode_request request)) (\<lambda>payload.
     bind_s (catch
       (bind_s (net_connect w) (\<lambda>_. bind_s (net_send w payload) (\<lambda>_. receive_response w)))
       (\<lambda>e. if is_OSError e then
             raise_s (RuntimeError (if e = OSError ''timed out'' then ''service request timed out'' else ''service is not available''))
           else raise_s e)) (\<lambda>raw.
     lift_s (case decode_response raw of
         Inr r \<Rightarrow> Inr r
       | Inl e \<Rightarrow> if is_ValueError e \<or> (\<exists>t. e = TypeError t) then Inl (RuntimeError ''service returned a malformed response'')
           else Inl e)))"

section \<open>The client and the service\<close>

text \<open>
  The service reads the whole of what is sent; then it has answered and closed the connection, or it waits for more. A
  read gets some bytes of the answer; or it gets none within the timeout, because the service is still at work - a
  restore, or the help texts of the tools, may take longer than the second the client waits - which raises.
\<close>

record socket =
  sk_server :: Server
  sk_pending :: string
  sk_closed :: bool
  sk_calls :: nat

definition serve_line :: "service \<Rightarrow> (int \<times> int) option \<Rightarrow> string \<Rightarrow> Server \<Rightarrow> string \<times> Server" where
  "serve_line sv peer raw s = (case handle_connection sv peer [Line raw] s of (out, t) \<Rightarrow> (concat out, t))"

definition socket_network :: "service \<Rightarrow> (int \<times> int) option \<Rightarrow> (nat \<Rightarrow> nat option) \<Rightarrow> socket network" where
  "socket_network sv peer chunk = \<lparr>
     net_connect = (\<lambda>n. (Inr (), n\<lparr>sk_pending := [], sk_closed := False\<rparr>)),
     net_send = (\<lambda>raw n. case serve_line sv peer raw (sk_server n) of (out, t) \<Rightarrow>
       (Inr (), n\<lparr>sk_server := t, sk_pending := out,
          sk_closed := (case decode_request raw of Inl _ \<Rightarrow> True | Inr req \<Rightarrow> \<not> keeps_open req)\<rparr>)),
     net_recv = (\<lambda>k n.
       case chunk (sk_calls n) of
         None \<Rightarrow> (Inl (OSError ''timed out''), n)
       | Some most \<Rightarrow>
           if sk_pending n = [] then (if sk_closed n then (Inr [], n) else (Inl (OSError ''timed out''), n))
           else let j = min k (Suc most) in
             (Inr (take j (sk_pending n)), n\<lparr>sk_pending := drop j (sk_pending n), sk_calls := Suc (sk_calls n)\<rparr>)),
     net_close = (\<lambda>n. n), net_clock = (\<lambda>n. (0, n))\<rparr>"

lemma client_receive_reply:
  "raw @ sk_pending n = t @ [CHR 0x0A] \<Longrightarrow> CHR 0x0A \<notin> set t \<Longrightarrow> length t < MAX_RESPONSE_BYTES \<Longrightarrow>
     (\<exists>k. client_receive (socket_network sv peer chunk) raw n = (Inr (t @ [CHR 0x0A]), n\<lparr>sk_pending := [], sk_calls := k\<rparr>)) \<or>
     (\<exists>m k. client_receive (socket_network sv peer chunk) raw n = (Inl (OSError ''timed out''), m) \<and>
        sk_server m = sk_server n \<and> chunk k = None)"
proof (induction "socket_network sv peer chunk" raw n rule: client_receive.induct)
  case (1 raw n)
  let ?w = "socket_network sv peer chunk"
  have len: "length raw + length (sk_pending n) = Suc (length t)" using arg_cong [OF "1.prems"(1), of length] by simp
  show ?case
  proof (cases "CHR 0x0A \<in> set raw")
    case True
    then have "sk_pending n = []"
      using "1.prems"(1,2) by (cases "sk_pending n" rule: rev_cases) (auto simp flip: append_assoc)
    moreover from this have "raw = t @ [CHR 0x0A]" using "1.prems"(1) by simp
    moreover have "client_receive ?w raw n = (Inr raw, n)" using True by (subst client_receive.simps) simp
    ultimately show ?thesis by (intro disjI1 exI [of _ "sk_calls n"]) simp
  next
    case False
    then have ne: "sk_pending n \<noteq> []" using "1.prems"(1) by (metis append_Nil2 in_set_conv_decomp)
    have small: "\<not> MAX_RESPONSE_BYTES < length raw" using len ne "1.prems"(3) by (cases "sk_pending n") simp_all
    show ?thesis
    proof (cases "chunk (sk_calls n)")
      case None
      then have "client_receive ?w raw n = (Inl (OSError ''timed out''), n)"
        using False small by (subst client_receive.simps) (simp add: socket_network_def)
      with None show ?thesis by auto
    next
      case (Some most)
      define k where "k = min (MAX_RESPONSE_BYTES + 1 - length raw) (Suc most)"
      let ?chunk = "take k (sk_pending n)" and ?n = "n\<lparr>sk_pending := drop k (sk_pending n), sk_calls := Suc (sk_calls n)\<rparr>"
      have recv: "net_recv ?w (MAX_RESPONSE_BYTES + 1 - length raw) n = (Inr ?chunk, ?n)"
        using ne Some by (simp add: socket_network_def k_def Let_def)
      have chunk: "?chunk \<noteq> []" using ne small by (simp add: k_def)
      have whole: "(raw @ ?chunk) @ sk_pending ?n = t @ [CHR 0x0A]" using "1.prems"(1) by simp
      have "client_receive ?w raw n = client_receive ?w (raw @ ?chunk) ?n"
        using False recv chunk small by (subst client_receive.simps) simp
      with "1.hyps" [OF _ recv [symmetric] HOL.refl chunk whole "1.prems"(2,3)] False small show ?thesis by auto
    qed
  qed
qed

lemma serve_line_answer:
  assumes "decode_request raw = Inr req" "raw \<noteq> []" "dispatch_request sv (Some p) req s = (r, t)" "peer = Some (p, sv_uid sv)"
  shows "serve_line sv peer raw s = (answer_line r, t)"
  using assms by (cases r) (auto simp: serve_line_def handle_connection_def answer_line_def split: if_splits)

lemma receive_response_reply:
  assumes "sk_pending n = t @ [CHR 0x0A]" "CHR 0x0A \<notin> set t" "length t < MAX_RESPONSE_BYTES" "sk_closed n"
  shows "(\<exists>m. receive_response (socket_network sv peer chunk) n = (Inr (t @ [CHR 0x0A]), m) \<and> sk_server m = sk_server n) \<or>
    (\<exists>m k. receive_response (socket_network sv peer chunk) n = (Inl (OSError ''timed out''), m) \<and>
       sk_server m = sk_server n \<and> chunk k = None)"
proof -
  let ?w = "socket_network sv peer chunk"
  have "[] @ sk_pending n = t @ [CHR 0x0A]" using assms(1) by simp
  from client_receive_reply [OF this assms(2,3), of sv peer chunk] show ?thesis
  proof (elim disjE exE conjE)
    fix k assume r: "client_receive ?w [] n = (Inr (t @ [CHR 0x0A]), n\<lparr>sk_pending := [], sk_calls := k\<rparr>)"
    show ?thesis
      using assms(3,4) r line_of_reply [OF assms(2)]
      by (cases "chunk k") (auto simp: receive_response_def bind_s_run socket_network_def)
  qed (auto simp: receive_response_def bind_s_run)
qed

text \<open>A request that reaches the service is carried out; the client returns what the answer decodes to, or a read runs into
  its timeout.\<close>

lemma client_answer:
  assumes "encode_request request = Inr payload" "decode_request payload = Inr request" "\<not> keeps_open request"
    "dispatch_request sv (Some p) request (sk_server n) = (r, t)"
  shows "\<exists>x m. client_request (socket_network sv (Some (p, sv_uid sv)) chunk) request n = (x, m) \<and> sk_server m = t \<and>
    ((\<exists>v. x = Inr v \<and> decode_response (answer_line r) = Inr v \<and> wf_response decoded_display v) \<or>
     (\<exists>k. chunk k = None \<and> x = Inl (RuntimeError ''service request timed out'')))"
proof -
  let ?w = "socket_network sv (Some (p, sv_uid sv)) chunk"
  have ne: "payload \<noteq> []" using assms(2) request_line.read_line_wf [of payload request] by (auto simp: decode_request_line)
  obtain v u where v: "decode_response (answer_line r) = Inr v" "wf_response decoded_display v"
    "length (answer_line r) \<le> MAX_RESPONSE_BYTES" "answer_line r = u @ [CHR 0x0A]" "CHR 0x0A \<notin> set u"
    unfolding answer_line_def using write_response_typed by metis
  let ?n = "n\<lparr>sk_server := t, sk_pending := u @ [CHR 0x0A], sk_closed := True\<rparr>"
  have send: "net_connect ?w n = (Inr (), n\<lparr>sk_pending := [], sk_closed := False\<rparr>)"
    "net_send ?w payload (n\<lparr>sk_pending := [], sk_closed := False\<rparr>) = (Inr (), ?n)"
    using serve_line_answer [OF assms(2) ne assms(4) HOL.refl] assms(2,3) v(4) by (simp_all add: socket_network_def)
  have "sk_pending ?n = u @ [CHR 0x0A]" "length u < MAX_RESPONSE_BYTES" "sk_closed ?n" using v(3,4) by simp_all
  from receive_response_reply [OF this(1) v(5) this(2,3), of sv "Some (p, sv_uid sv)" chunk] show ?thesis
  proof (elim disjE exE conjE)
    fix m assume "receive_response ?w ?n = (Inr (u @ [CHR 0x0A]), m)" "sk_server m = sk_server ?n"
    with send show ?thesis using assms(1) v(1,2,4) by (simp add: client_request_def bind_s_run catch_def)
  next
    fix m k assume "receive_response ?w ?n = (Inl (OSError ''timed out''), m)" "sk_server m = sk_server ?n" "chunk k = None"
    with send show ?thesis using assms(1) by (auto simp: client_request_def bind_s_run catch_def)
  qed
qed

text \<open>C33: a request that fits in a message and is answered with one line is always carried out, and the client returns the
  response the service wrote, which is well formed, whatever happens inside the service and however its bytes are
  split, unless a read runs into the client's timeout. Then it reports the timeout, although the service has
  carried the request out. It never reports the service as unavailable or its response as malformed.\<close>
theorem client_always_answered:
  assumes "wf_request request" "encode_request request = Inr payload" "\<not> keeps_open request"
    "dispatch_request sv (Some p) request (sk_server n) = (r, t)"
  shows "\<exists>x m. client_request (socket_network sv (Some (p, sv_uid sv)) chunk) request n = (x, m) \<and> sk_server m = t \<and>
    ((\<exists>v. x = Inr v \<and> decode_response (answer_line r) = Inr v \<and> wf_response decoded_display v) \<or>
     (\<exists>k. chunk k = None \<and> x = Inl (RuntimeError ''service request timed out'')))"
proof -
  have "decode_request payload = Inr request"
    using assms(1,2) request_line.read_written [of request payload]
    by (auto simp: encode_request_def decode_request_def request_line.write_line_def request_line.read_line_def
        encode_json_line_def Let_def raise_if_def split: if_splits)
  from client_answer [OF assms(2) this assms(3,4)] show ?thesis .
qed

theorem client_always_answered_witness:
  "\<exists>v m. client_request (socket_network demo_service (Some (1, 1000)) (\<lambda>_. Some 0)) StatusRequest
     \<lparr>sk_server = demo_server (initial_state empty_snapshot) demo_store, sk_pending = [], sk_closed = False, sk_calls = 0\<rparr> = (Inr v, m)"
proof -
  let ?n = "\<lparr>sk_server = demo_server (initial_state empty_snapshot) demo_store, sk_pending = [], sk_closed = False, sk_calls = 0\<rparr>"
  have "\<not> isl (encode_request StatusRequest)" by code_simp
  then obtain payload where "encode_request StatusRequest = Inr payload" by (cases "encode_request StatusRequest") auto
  moreover obtain r t where "dispatch_request demo_service (Some 1) StatusRequest (sk_server ?n) = (r, t)" by fastforce
  ultimately show ?thesis
    using client_always_answered [of StatusRequest payload demo_service 1 ?n r t "\<lambda>_. Some 0"]
    by (auto simp: keeps_open_def demo_service_def)
qed

end
