(* ===== verification/Backends.thy ===== *)
theory Backends
  imports Recovery
begin

text \<open>
  The two sources of what can be restored, of \<^verbatim>\<open>backends.py\<close>: the workspace the service recorded, and the
  session stores of the agent tools, which need no service. Both give the same kind of candidate.
\<close>

section \<open>Times\<close>

text \<open>
  How long ago a time stamp was. \<open>clock_parse\<close> is \<^verbatim>\<open>datetime.fromisoformat\<close> as seconds since an epoch
  (\<open>None\<close> where it, or the subtraction of a time without a zone, raises), \<open>now\<close> the present on that scale.
\<close>

definition relative_time :: "(string \<Rightarrow> rat option) \<Rightarrow> rat \<Rightarrow> string \<Rightarrow> string" where
  "relative_time clock_parse now ts =
     (if ts = [] then ''unknown''
      else case clock_parse (replace_sub ''Z'' ''+00:00'' ts) of
        None \<Rightarrow> ''unknown''
      | Some t \<Rightarrow>
          let secs = now - t in
          if secs < 0 then ''just now''
          else if secs < 60 then int_text \<lfloor>secs\<rfloor> @ ''s ago''
          else if secs < 3600 then int_text \<lfloor>secs / 60\<rfloor> @ ''m ago''
          else if secs < 86400 then int_text \<lfloor>secs / 3600\<rfloor> @ ''h ago''
          else int_text \<lfloor>secs / 86400\<rfloor> @ ''d ago'')"

section \<open>Candidates\<close>

datatype Backend = AUTO | CAPTURE | TIMESTAMP

record RestoreCandidate =
  rc_item_id :: string
  rc_tool :: string
  rc_session_id :: string
  rc_cwd :: string
  rc_summary :: string
  rc_first_activity :: string
  rc_last_activity :: string
  rc_resume_command :: string
  rc_source :: string

text \<open>Every exception gives no command.\<close>

definition resume_command_for :: "machine \<Rightarrow> string \<Rightarrow> string option \<Rightarrow> (runtime, string) act" where
  "resume_command_for m tool session =
     catch
       (bind_s (on_probes (find_resume_adapter (agent_tools m) tool True)) (\<lambda>found.
        case found of
          None \<Rightarrow> ret []
        | Some match \<Rightarrow> bind_s (lift_s (build_resume_argv match session)) (\<lambda>argv. ret (join '' '' argv))))
       (\<lambda>_. ret [])"

text \<open>\<^verbatim>\<open>by_group.setdefault(key, []).append(record)\<close> on a dictionary in the order of its keys.\<close>

fun add_to_group :: "'k \<Rightarrow> 'a \<Rightarrow> ('k \<times> 'a list) list \<Rightarrow> ('k \<times> 'a list) list" where
  "add_to_group k r [] = [(k, [r])]"
| "add_to_group k r ((j, rs) # gs) = (if j = k then (j, rs @ [r]) # gs else (j, rs) # add_to_group k r gs)"

definition by_group :: "SessionRecord list \<Rightarrow> ((string \<times> string) \<times> SessionRecord list) list" where
  "by_group rs =
     foldl (\<lambda>gs r. if sr_cwd r = [] then gs else add_to_group (sr_tool r, sr_cwd r) r gs) [] rs"

definition session_candidate :: "machine \<Rightarrow> string \<times> string \<Rightarrow> SessionRecord \<Rightarrow> (runtime, RestoreCandidate) act" where
  "session_candidate m key r =
     bind_s (resume_command_for m (fst key) (Some (sr_session_id r))) (\<lambda>resume_command.
     ret \<lparr>rc_item_id = fst key @ ''-'' @ take 12 (sr_session_id r), rc_tool = fst key, rc_session_id = sr_session_id r,
          rc_cwd = snd key, rc_summary = sr_summary r, rc_first_activity = sr_first_activity r,
          rc_last_activity = sr_last_activity r, rc_resume_command = resume_command, rc_source = ''timestamp''\<rparr>)"

primrec candidates_of_records :: "machine \<Rightarrow> ((string \<times> string) \<times> SessionRecord) list \<Rightarrow> (runtime, RestoreCandidate list) act" where
  "candidates_of_records m [] = ret []"
| "candidates_of_records m (kr # krs) =
     bind_s (session_candidate m (fst kr) (snd kr)) (\<lambda>c.
     bind_s (candidates_of_records m krs) (\<lambda>cs. ret (c # cs)))"

text \<open>The loop over the groups, each sorted latest first, and the final stable sort, latest first.\<close>

definition in_groups :: "SessionRecord list \<Rightarrow> ((string \<times> string) \<times> SessionRecord) list" where
  "in_groups rs = concat (map (\<lambda>(key, group). map (Pair key) (latest_first group)) (by_group rs))"

definition candidates_from_timestamp :: "machine \<Rightarrow> (runtime, RestoreCandidate list) act" where
  "candidates_from_timestamp m =
     bind_s (catch (bind_s (lift_s (list_sessions (session_home m) None)) (\<lambda>rs. ret (Some rs)))
       (\<lambda>e. if is_OSError e \<or> is_ValueError e then ret None else raise_s e)) (\<lambda>listed.
     case listed of
       None \<Rightarrow> ret []
     | Some rs \<Rightarrow> bind_s (candidates_of_records m (in_groups rs)) (\<lambda>cs. ret (latest_by rc_last_activity cs)))"

text \<open>
  A recorded item as a candidate; one that raises is left out. \<^verbatim>\<open>RecoveryItem\<close> has no attribute
  \<^verbatim>\<open>_resume_command\<close>, so the command is always empty.
\<close>

definition captured_tool :: "CommandRecord option \<Rightarrow> string result" where
  "captured_tool c =
     (case c of
        None \<Rightarrow> Inr []
      | Some r \<Rightarrow>
          (case executable r of
             None \<Rightarrow> Inr []
           | Some x \<Rightarrow>
               if x = [] then Inr [] else bind_r (parse_one_simple_command x None) (\<lambda>p. Inr (p_executable p))))"

definition captured_candidate :: "RecoveryItem \<Rightarrow> RestoreCandidate result" where
  "captured_candidate i =
     bind_r (captured_tool (command (ri_shell i))) (\<lambda>tool.
     Inr \<lparr>rc_item_id = ri_item_id i, rc_tool = tool, rc_session_id = [], rc_cwd = ri_directory i, rc_summary = [],
          rc_first_activity = [], rc_last_activity = [], rc_resume_command = [], rc_source = ''capture''\<rparr>)"

definition candidates_from_capture :: "RecoveryItem list option \<Rightarrow> RestoreCandidate list" where
  "candidates_from_capture workspace_items =
     (case workspace_items of
        None \<Rightarrow> []
      | Some is \<Rightarrow> concat (map (\<lambda>i. case captured_candidate i of Inl _ \<Rightarrow> [] | Inr c \<Rightarrow> [c]) is))"

definition resolve_candidates ::
  "machine \<Rightarrow> Backend \<Rightarrow> RecoveryItem list option \<Rightarrow> (runtime, RestoreCandidate list \<times> string) act" where
  "resolve_candidates m backend workspace_items =
     (let timestamp = bind_s (candidates_from_timestamp m) (\<lambda>cs. ret (cs, ''timestamp''));
          captured = candidates_from_capture workspace_items in
      if backend = TIMESTAMP then timestamp
      else if workspace_items \<noteq> None \<and> captured \<noteq> [] then ret (captured, ''capture'')
      else timestamp)"

section \<open>What the session stores offer\<close>

definition session_view :: "SessionRecord \<Rightarrow> string \<times> string \<times> string \<times> string \<times> string \<times> string" where
  "session_view r = (sr_tool r, sr_session_id r, sr_cwd r, sr_summary r, sr_first_activity r, sr_last_activity r)"

definition candidate_view :: "RestoreCandidate \<Rightarrow> string \<times> string \<times> string \<times> string \<times> string \<times> string" where
  "candidate_view c =
     (rc_tool c, rc_session_id c, rc_cwd c, rc_summary c, rc_first_activity c, rc_last_activity c)"

definition resumes :: "RestoreCandidate \<Rightarrow> bool" where
  "resumes c \<longleftrightarrow> (\<exists>match argv. rm_executable match = rc_tool c \<and>
     build_resume_argv match (Some (rc_session_id c)) = Inr argv \<and> rc_resume_command c = join '' '' argv)"

abbreviation ungroup :: "('k \<times> 'a list) list \<Rightarrow> ('k \<times> 'a) list" where
  "ungroup gs \<equiv> concat (map (\<lambda>(k, rs). map (Pair k) rs) gs)"

lemma add_to_group_mset: "mset (ungroup (add_to_group k r gs)) = add_mset (k, r) (mset (ungroup gs))"
  by (induction k r gs rule: add_to_group.induct) auto

lemma by_group_mset:
  "mset (ungroup (by_group rs)) = mset (map (\<lambda>r. ((sr_tool r, sr_cwd r), r)) (filter (\<lambda>r. sr_cwd r \<noteq> []) rs))"
  by (induction rs rule: rev_induct) (auto simp: by_group_def add_to_group_mset)

lemma in_groups_mset:
  "mset (in_groups rs) = mset (map (\<lambda>r. ((sr_tool r, sr_cwd r), r)) (filter (\<lambda>r. sr_cwd r \<noteq> []) rs))"
proof -
  have "mset (map (Pair k) (latest_first g)) = mset (map (Pair k) g)" for k :: "string \<times> string" and g
    by (simp add: latest_first_spec)
  then have "mset (concat (map (\<lambda>(k, g). map (Pair k) (latest_first g)) gs)) = mset (ungroup gs)"
    for gs :: "((string \<times> string) \<times> SessionRecord list) list"
    by (induction gs) auto
  then show ?thesis by (simp add: in_groups_def by_group_mset)
qed

lemma find_resume_adapter_executable:
  "find_resume_adapter sys exe probe s = (Inr (Some match), t) \<Longrightarrow> rm_executable match = exe"
  by (auto simp: find_resume_adapter_def probed_contract_def bind_s_Inr split: if_splits option.splits)

text \<open>Operations that always return, with a value of a certain kind.\<close>

abbreviation returns :: "('s, 'a) act \<Rightarrow> ('a \<Rightarrow> bool) \<Rightarrow> bool" where
  "returns m P \<equiv> triple (\<lambda>_. True) m (\<lambda>a _. P a) (\<lambda>_ _. False)"

lemma returnsE:
  assumes "returns m P"
  obtains a t where "m s = (Inr a, t)" "P a"
proof -
  obtain r t where rt: "m s = (r, t)" by fastforce
  show thesis
  proof (cases r)
    case (Inl e)
    then show thesis using triple_InlD [OF assms TrueI] rt by blast
  next
    case (Inr a)
    then show thesis using that triple_InrD [OF assms TrueI] rt by blast
  qed
qed

lemma returns_bind_ret: "returns m P \<Longrightarrow> (\<And>a. P a \<Longrightarrow> Q (g a)) \<Longrightarrow> returns (bind_s m (\<lambda>a. ret (g a))) Q"
  by (erule triple_bind [where R = "\<lambda>a _. P a"]) (simp add: triple_def)

lemma resume_command_for_returns:
  "returns (resume_command_for m tool session) (\<lambda>x. x = [] \<or> (\<exists>match argv. rm_executable match = tool \<and>
     build_resume_argv match session = Inr argv \<and> x = join '' '' argv))"
  by (auto simp: triple_def resume_command_for_def catch_def bind_s_run on_probes_def on_part_def
      dest: find_resume_adapter_executable split: prod.splits sum.splits option.splits)

definition offered :: "(string \<times> string) \<times> SessionRecord \<Rightarrow> RestoreCandidate \<Rightarrow> bool" where
  "offered kr c \<longleftrightarrow>
     candidate_view c = (fst (fst kr), sr_session_id (snd kr), snd (fst kr), sr_summary (snd kr),
       sr_first_activity (snd kr), sr_last_activity (snd kr)) \<and>
     (rc_resume_command c = [] \<or> resumes c)"

lemma session_candidate_returns: "returns (session_candidate m (fst kr) (snd kr)) (offered kr)"
  unfolding session_candidate_def
  by (rule returns_bind_ret [OF resume_command_for_returns]) (auto simp: offered_def candidate_view_def resumes_def)

lemma candidates_of_records_returns: "returns (candidates_of_records m krs) (list_all2 offered krs)"
proof (induction krs)
  case (Cons kr krs)
  have "triple (\<lambda>_. offered kr c) (bind_s (candidates_of_records m krs) (\<lambda>cs. ret (c # cs)))
      (\<lambda>cs _. list_all2 offered (kr # krs) cs) (\<lambda>_ _. False)" for c
  proof (cases "offered kr c")
    case True
    then show ?thesis
      using returns_bind_ret [OF Cons.IH, of "list_all2 offered (kr # krs)" "(#) c"] by simp
  qed (simp add: triple_def)
  then show ?case by (simp only: candidates_of_records.simps) (rule triple_bind [OF session_candidate_returns])
qed (simp add: triple_def)

text \<open>The session stores always give an answer. Every session they list that names a directory is a candidate, once
  and as it is listed, the most recently active first; a resume command is one that resumes exactly this session
  with this tool. If the stores cannot be read there is no candidate.\<close>
theorem timestamp_candidates:
  assumes "\<And>e. list_sessions (session_home m) None = Inl e \<Longrightarrow> is_OSError e \<or> is_ValueError e"
  shows "\<exists>cs t. candidates_from_timestamp m s = (Inr cs, t) \<and>
    (case list_sessions (session_home m) None of
       Inl _ \<Rightarrow> cs = []
     | Inr rs \<Rightarrow> mset (map candidate_view cs) = mset (map session_view (filter (\<lambda>r. sr_cwd r \<noteq> []) rs))) \<and>
    distinct (map (\<lambda>c. (rc_tool c, rc_session_id c)) cs) \<and>
    sorted_wrt (\<lambda>a b. rc_last_activity b \<le> rc_last_activity a) cs \<and>
    (\<forall>c \<in> set cs. rc_resume_command c \<noteq> [] \<longrightarrow> resumes c)"
proof (cases "list_sessions (session_home m) None")
  case (Inl e)
  then show ?thesis using assms by (simp add: candidates_from_timestamp_def catch_def bind_s_run)
next
  case (Inr rs)
  obtain cs t where cs: "candidates_of_records m (in_groups rs) s = (Inr cs, t)" and o: "list_all2 offered (in_groups rs) cs"
    using candidates_of_records_returns by (rule returnsE)
  let ?v = "\<lambda>kr. (fst (fst kr), sr_session_id (snd kr), snd (fst kr), sr_summary (snd kr),
    sr_first_activity (snd kr), sr_last_activity (snd kr))"
  have "map candidate_view cs = map ?v (in_groups rs)"
    using o by (induction) (auto simp: offered_def)
  then have "mset (map candidate_view cs) = image_mset ?v (mset (in_groups rs))" by simp
  also have "\<dots> = mset (map session_view (filter (\<lambda>r. sr_cwd r \<noteq> []) rs))"
    by (simp add: in_groups_mset multiset.map_comp comp_def session_view_def [abs_def])
  finally have m: "mset (map candidate_view cs) = mset (map session_view (filter (\<lambda>r. sr_cwd r \<noteq> []) rs))" .
  have "mset (map (\<lambda>c. (rc_tool c, rc_session_id c)) cs) = image_mset (\<lambda>x. (fst x, fst (snd x))) (mset (map candidate_view cs))"
    by (simp add: multiset.map_comp comp_def candidate_view_def)
  also have "\<dots> = mset (map session_key (filter (\<lambda>r. sr_cwd r \<noteq> []) rs))"
    unfolding m by (simp add: multiset.map_comp comp_def session_view_def session_key_def [abs_def])
  finally have "distinct (map (\<lambda>c. (rc_tool c, rc_session_id c)) cs) \<longleftrightarrow>
      distinct (map session_key (filter (\<lambda>r. sr_cwd r \<noteq> []) rs))" by (rule mset_eq_imp_distinct_iff)
  then have "distinct (map (\<lambda>c. (rc_tool c, rc_session_id c)) cs)"
    using list_sessions_keys [OF Inr] distinct_map_filter by blast
  moreover have "\<forall>c \<in> set cs. rc_resume_command c \<noteq> [] \<longrightarrow> resumes c"
    using o by (auto simp: list_all2_conv_all_nth in_set_conv_nth offered_def)
  moreover have "mset (map f (latest_by rc_last_activity cs)) = mset (map f cs)" for f :: "RestoreCandidate \<Rightarrow> 'b"
    by (simp add: latest_by_spec)
  moreover from this [of "\<lambda>c. (rc_tool c, rc_session_id c)"]
  have "distinct (map (\<lambda>c. (rc_tool c, rc_session_id c)) (latest_by rc_last_activity cs)) \<longleftrightarrow>
      distinct (map (\<lambda>c. (rc_tool c, rc_session_id c)) cs)"
    by (rule mset_eq_imp_distinct_iff)
  moreover have "set (latest_by rc_last_activity cs) = set cs" using latest_by_spec(1) by (rule mset_eq_setD)
  ultimately show ?thesis using Inr cs m
    by (simp add: candidates_from_timestamp_def catch_def bind_s_run latest_by_spec)
qed

theorem timestamp_candidates_witness:
  "\<exists>cs t. candidates_from_timestamp demo_machine \<lparr>rt_probes = [], rt_sessions = [], rt_world = demo_world\<rparr> = (Inr cs, t) \<and>
     length cs = 2 \<and> distinct (map (\<lambda>c. (rc_tool c, rc_session_id c)) cs)"
proof -
  have l: "list_sessions (session_home demo_machine) None =
      Inr (map (\<lambda>r. row_record ''opencode'' ''o.db'' (row_id r) r) (the (opencode_rows demo_home)))" by code_simp
  have n: "length (filter (\<lambda>r. sr_cwd r \<noteq> []) (map (\<lambda>r. row_record ''opencode'' ''o.db'' (row_id r) r) (the (opencode_rows demo_home)))) = 2"
    by code_simp
  obtain cs t where cs: "candidates_from_timestamp demo_machine \<lparr>rt_probes = [], rt_sessions = [], rt_world = demo_world\<rparr> = (Inr cs, t)"
    "distinct (map (\<lambda>c. (rc_tool c, rc_session_id c)) cs)"
    and m: "mset (map candidate_view cs) = mset (map session_view (filter (\<lambda>r. sr_cwd r \<noteq> [])
        (map (\<lambda>r. row_record ''opencode'' ''o.db'' (row_id r) r) (the (opencode_rows demo_home)))))"
    using timestamp_candidates [of demo_machine "\<lparr>rt_probes = [], rt_sessions = [], rt_world = demo_world\<rparr>"]
    unfolding l by auto
  from mset_eq_length [OF m] n have "length cs = 2" by (simp only: length_map)
  with cs show ?thesis by blast
qed

end
