(* ===== verification/Cli.thy ===== *)
theory Cli
  imports Backends Client
begin

text \<open>
  The commands of \<^verbatim>\<open>cli.py\<close> that talk to the service and to the user: \<^verbatim>\<open>status\<close>, \<^verbatim>\<open>snapshot\<close>, \<^verbatim>\<open>list\<close>,
  \<^verbatim>\<open>restore\<close>, \<^verbatim>\<open>sessions\<close> and \<^verbatim>\<open>discard\<close>. A command reads lines the user types and writes to two streams;
  the console keeps what was printed and what was read in one log, in order.
\<close>

section \<open>The console\<close>

datatype typed = Typed string | Interrupt

datatype entry = Out string | Err string | Read "string option"

record 'n console =
  cn_tty :: bool
  cn_input :: "typed list"
  cn_log :: "entry list"
  cn_runtime :: runtime
  cn_net :: 'n
  cn_calls :: nat

text \<open>What a command is started with: the machine, the clock at each call, and how time stamps are read.\<close>

record desk =
  dk_machine :: machine
  dk_clock :: "nat \<Rightarrow> rat"
  dk_parse :: "string \<Rightarrow> rat option"

definition EXIT_OK :: int where "EXIT_OK = 0"
definition EXIT_WARNING :: int where "EXIT_WARNING = 1"
definition EXIT_REFUSED :: int where "EXIT_REFUSED = 2"
definition EXIT_FAILURE :: int where "EXIT_FAILURE = 3"

definition put_entry :: "entry \<Rightarrow> ('n console, unit) act" where
  "put_entry e = modify (\<lambda>s. s\<lparr>cn_log := cn_log s @ [e]\<rparr>)"

definition say :: "string \<Rightarrow> ('n console, unit) act" where "say t = put_entry (Out (t @ [CHR 0x0A]))"
definition prompt :: "string \<Rightarrow> ('n console, unit) act" where "prompt t = put_entry (Out t)"
definition complain :: "string \<Rightarrow> ('n console, unit) act" where "complain t = put_entry (Err (t @ [CHR 0x0A]))"

definition on_runtime_of :: "(runtime, 'a) act \<Rightarrow> ('n console, 'a) act" where
  "on_runtime_of = on_part cn_runtime (\<lambda>t s. s\<lparr>cn_runtime := t\<rparr>)"

definition on_client :: "('n, 'a) act \<Rightarrow> ('n console, 'a) act" where
  "on_client = on_part cn_net (\<lambda>t s. s\<lparr>cn_net := t\<rparr>)"

definition clock_call :: "desk \<Rightarrow> ('n console, rat) act" where
  "clock_call d = (\<lambda>s. (Inr (dk_clock d (cn_calls s)), s\<lparr>cn_calls := Suc (cn_calls s)\<rparr>))"

definition ago :: "desk \<Rightarrow> string \<Rightarrow> ('n console, string) act" where
  "ago d ts = bind_s (clock_call d) (\<lambda>now. ret (relative_time (dk_parse d) now ts))"

definition rstrip_newline :: "string \<Rightarrow> string" where
  "rstrip_newline t = rev (dropWhile (\<lambda>c. c = CHR 0x0D \<or> c = CHR 0x0A) (rev t))"

text \<open>The end of the input, and every line after it, reads as the empty text.\<close>

definition read_answer :: "('n console, string option) act" where
  "read_answer = (\<lambda>s.
     case cn_input s of
       Interrupt # r \<Rightarrow> (Inl KeyboardInterrupt, s\<lparr>cn_input := r\<rparr>)
     | _ \<Rightarrow>
       let answer = (case cn_input s of Typed t # _ \<Rightarrow> if t = [] then None else Some (rstrip_newline t) | _ \<Rightarrow> None) in
       (Inr answer, s\<lparr>cn_input := tl (cn_input s), cn_log := cn_log s @ [Read answer]\<rparr>))"

text \<open>Formats: \<^verbatim>\<open>str.upper\<close> of ASCII text, \<^verbatim>\<open>:8s\<close>, \<^verbatim>\<open>enumerate(xs, 1)\<close>, and the dash U+2014 as its bytes.\<close>

definition upper :: "string \<Rightarrow> string" where
  "upper t = map (\<lambda>c. if CHR ''a'' \<le> c \<and> c \<le> CHR ''z'' then char_of (code c - 32) else c) t"

definition pad8 :: "string \<Rightarrow> string" where "pad8 t = t @ replicate (8 - length t) CHR '' ''"

definition numbered :: "'a list \<Rightarrow> (nat \<times> 'a) list" where "numbered xs = zip [1..<Suc (length xs)] xs"

definition DASH :: string where "DASH = [CHR 0xE2, CHR 0x80, CHR 0x94]"

definition yes_no :: "bool \<Rightarrow> string" where "yes_no b = (if b then ''yes'' else ''no'')"

section \<open>Requests to the service\<close>

definition print_error :: "ErrorCode \<Rightarrow> string \<Rightarrow> ('n console, int) act" where
  "print_error c message =
     bind_s (complain (if c = ADAPTER_UNAVAILABLE then ''only GNOME Terminal is supported'' else ''error: '' @ message))
       (\<lambda>_. ret EXIT_FAILURE)"

fun exception_text :: "py_error \<Rightarrow> string" where
  "exception_text (RuntimeError t) = t"
| "exception_text e = error_text e"

text \<open>The client raises \<^verbatim>\<open>ServiceUnavailable\<close>, a \<^verbatim>\<open>RuntimeError\<close>.\<close>

definition request :: "'n network \<Rightarrow> ServiceRequest \<Rightarrow> ('n console, ServiceResponse option) act" where
  "request w req =
     bind_s (catch (bind_s (on_client (client_request w req)) (\<lambda>r. ret (Some r)))
       (\<lambda>e. if is_ValueError e \<or> (\<exists>t. e = RuntimeError t)
            then bind_s (complain (''error: '' @ exception_text e)) (\<lambda>_. ret None) else raise_s e)) (\<lambda>response.
     case response of
       Some (ErrorResponse c message) \<Rightarrow> bind_s (print_error c message) (\<lambda>_. ret response)
     | _ \<Rightarrow> ret response)"

definition status_lines :: "StatusView \<Rightarrow> string list" where
  "status_lines v =
     [''service: reachable'',
      ''registered shells: '' @ int_text (registered_shells v),
      ''dirty/durable generation: '' @ int_text (st_dirty_generation v) @ ''/'' @ int_text (st_durable_generation v),
      ''write active: '' @ yes_no (write_active v),
      ''recovery items: '' @ int_text (recovery_item_count v)] @
     (case st_last_error v of None \<Rightarrow> [] | Some t \<Rightarrow> [''last write error: '' @ text_value t]) @
     map (\<lambda>t. ''diagnostic: '' @ text_value t) (st_diagnostics v)"

definition degraded :: "StatusView \<Rightarrow> bool" where
  "degraded v \<longleftrightarrow> durability_degraded v \<or> st_dirty_generation v > st_durable_generation v \<or> st_last_error v \<noteq> None \<or>
     st_diagnostics v \<noteq> []"

definition timestamp_status :: "desk \<Rightarrow> ('n console, unit) act" where
  "timestamp_status d =
     catch
       (bind_s (on_runtime_of (candidates_from_timestamp (dk_machine d))) (\<lambda>cands.
        case cands of
          [] \<Rightarrow> say ''timestamp backend: no sessions found in tool stores''
        | newest # _ \<Rightarrow>
            bind_s (say (''timestamp backend: '' @ nat_text (length cands) @ '' restorable session(s) (no server needed)'')) (\<lambda>_.
            bind_s (ago d (rc_last_activity newest)) (\<lambda>t.
            say (''  most recent: '' @ t @ '' ['' @ rc_tool newest @ ''] '' @ rc_cwd newest)))))
       (\<lambda>_. ret ())"

definition status_command :: "desk \<Rightarrow> 'n network \<Rightarrow> ('n console, int) act" where
  "status_command d w =
     bind_s (request w StatusRequest) (\<lambda>response.
     case response of
       Some (StatusResponse v) \<Rightarrow>
         bind_s (for_each say (status_lines v)) (\<lambda>_.
         bind_s (say (''durability: '' @ (if degraded v then ''degraded'' else ''healthy''))) (\<lambda>_.
         bind_s (timestamp_status d) (\<lambda>_.
         ret (if degraded v then EXIT_WARNING else EXIT_OK))))
     | _ \<Rightarrow> ret EXIT_FAILURE)"

definition snapshot_command :: "'n network \<Rightarrow> ('n console, int) act" where
  "snapshot_command w =
     bind_s (request w SnapshotRequest) (\<lambda>response.
     case response of
       Some (SnapshotResponse g) \<Rightarrow>
         bind_s (say (''snapshot saved at durable generation '' @ int_text g)) (\<lambda>_. ret EXIT_OK)
     | _ \<Rightarrow> ret EXIT_FAILURE)"

section \<open>Listing\<close>

fun display_text :: "ReplayDisplay \<Rightarrow> string" where
  "display_text (RedactedDisplay s) = s"
| "display_text (DecodedReplayDisplay s) = s"

definition first_word :: "string \<Rightarrow> string" where
  "first_word t = takeWhile (\<lambda>c. c \<noteq> CHR '' '') t"

text \<open>The command, the summary, the number of sessions, and the tool.\<close>

definition resume_display_for_item :: "RecoveryItemView \<Rightarrow> (string \<times> string \<times> int \<times> string) result" where
  "resume_display_for_item i =
     (if v_resume_command i \<noteq> [] then
        Inr (v_resume_command i, v_resume_summary i, v_resume_session_count i, first_word (v_resume_command i))
      else
        let command_text = (case v_replay_display i of None \<Rightarrow> [] | Some t \<Rightarrow> display_text t) in
        bind_r (if command_text = [] then Inr []
          else case parse_one_simple_command command_text None of
            Inr p \<Rightarrow> Inr (p_executable p)
          | Inl e \<Rightarrow> if is_ValueError e then Inr [] else Inl e) (\<lambda>tool.
        Inr (command_text, [], 0, tool)))"

definition item_lines :: "RecoveryItemView \<Rightarrow> string list" where
  "item_lines i =
     [''  '' @ v_item_id i @ '' (shell '' @ v_shell_id i @ '')'',
      ''    restoration level: '' @ upper (RestorationLevel_value (v_level i)),
      ''    reason: '' @ text_value (v_reason i),
      ''    directory: '' @ v_directory i] @
     (case v_directory_warning i of None \<Rightarrow> [] | Some t \<Rightarrow> [''    directory warning: '' @ text_value t]) @
     (case v_replay_display i of
        Some t \<Rightarrow>
          (if v_resume_command i \<noteq> [] \<and> v_resume_session_count i > 0 then
             [''    will resume: '' @ v_resume_command i] @
             (if v_resume_summary i \<noteq> [] then [''    session summary: '' @ v_resume_summary i] else []) @
             [''    sessions in this directory: '' @ int_text (v_resume_session_count i) @ '' (most recent selected)'']
           else if v_resume_command i \<noteq> [] then
             [''    will resume: '' @ v_resume_command i, ''    note: no matching session found; will start fresh'']
           else
             [''    active command: '' @ display_text t, ''    warning: this command would be restarted, not resumed''])
      | None \<Rightarrow>
          (if v_level i = PARTIAL then [''    warning: only the terminal and directory can be restored''] else []))"

text \<open>Listing answers with the workspace, if there is one, its items and the diagnostics.\<close>

definition list_response ::
  "'n network \<Rightarrow> bool \<Rightarrow> ServiceRequest \<Rightarrow> ('n console, (string option \<times> RecoveryItemView list \<times> SafeExternalText list) option) act" where
  "list_response w shown req =
     bind_s (request w req) (\<lambda>response.
     case response of
       Some (RestoreListResponse workspace found ds) \<Rightarrow>
         bind_s (case workspace of
             None \<Rightarrow> when_s shown (say ''no recovery workspace is available'')
           | Some k \<Rightarrow>
               when_s shown (for_each say ([''workspace: '' @ k] @ concat (map item_lines found) @
                 map (\<lambda>t. ''diagnostic: '' @ text_value t) ds))) (\<lambda>_.
         ret (Some (workspace, found, ds)))
     | _ \<Rightarrow> ret None)"

definition list_command :: "'n network \<Rightarrow> ('n console, int) act" where
  "list_command w =
     bind_s (list_response w True (RestoreListRequest None None)) (\<lambda>listed.
     case listed of
       None \<Rightarrow> ret EXIT_FAILURE
     | Some (workspace, found, ds) \<Rightarrow> ret (if workspace = None \<or> ds \<noteq> [] then EXIT_WARNING else EXIT_OK))"

section \<open>Choosing items\<close>

definition chosen_indices :: "nat \<Rightarrow> string \<Rightarrow> int list option" where
  "chosen_indices n answer =
     (case traverse (\<lambda>part. py_int (strip part)) (split_on CHR '','' answer) of
        Inl _ \<Rightarrow> None
      | Inr indices \<Rightarrow>
          if indices = [] \<or> \<not> distinct indices \<or> (\<exists>k \<in> set indices. k < 1 \<or> k > int n) then None else Some indices)"

definition select_items :: "RecoveryItemView list \<Rightarrow> ('n console, string list option) act" where
  "select_items found =
     bind_s (for_each (\<lambda>(k, i). say (nat_text k @ '': '' @ v_item_id i @ '' '' @ DASH @ '' '' @ v_directory i @ '' ['' @
       upper (RestorationLevel_value (v_level i)) @ '']'')) (numbered found)) (\<lambda>_.
     bind_s (prompt ''Select item numbers (comma-separated), or press Enter to cancel: '') (\<lambda>_.
     bind_s read_answer (\<lambda>answer.
     ret (case answer of
         None \<Rightarrow> None
       | Some t \<Rightarrow>
           if strip t = [] then None
           else map_option (map (\<lambda>k. v_item_id (found ! nat (k - 1)))) (chosen_indices (length found) t)))))"

definition needs_approval :: "RecoveryItemView \<Rightarrow> bool" where
  "needs_approval i \<longleftrightarrow> v_replay_eligible i \<and> v_replay_display i \<noteq> None"

definition requires_interactive_approval :: "RecoveryItemView list \<Rightarrow> string list \<Rightarrow> bool" where
  "requires_interactive_approval found selected \<longleftrightarrow>
     (\<exists>i \<in> set found. v_item_id i \<in> set selected \<and> needs_approval i)"

text \<open>Python's indexing of a list: an index below zero counts from the end.\<close>

definition py_index :: "'a list \<Rightarrow> int \<Rightarrow> 'a option" where
  "py_index xs k =
     (if 0 \<le> k \<and> k < int (length xs) then Some (xs ! nat k)
      else if k < 0 \<and> 0 \<le> k + int (length xs) then Some (xs ! nat (k + int (length xs)))
      else None)"

definition session_label :: "SessionRecord \<Rightarrow> string" where
  "session_label r =
     (if sr_summary r \<noteq> [] then sr_summary r else if sr_title r \<noteq> [] then sr_title r else sr_session_id r)"

definition show_session :: "desk \<Rightarrow> nat \<times> SessionRecord \<Rightarrow> ('n console, unit) act" where
  "show_session d x =
     (case x of (k, r) \<Rightarrow>
        bind_s (ago d (sr_last_activity r)) (\<lambda>t.
        let span = (if sr_first_activity r \<noteq> [] then take 10 (sr_first_activity r) @ ''..'' @ take 10 (sr_last_activity r) else t) in
        say (''    '' @ nat_text k @ '': '' @ take 60 (session_label r) @ ''  ['' @ sr_tool r @ '']  '' @ span)))"

definition picked :: "'a list \<Rightarrow> string option \<Rightarrow> 'a option" where
  "picked matches answer =
     (case answer of
        None \<Rightarrow> None
      | Some t \<Rightarrow>
          if strip t = ''0'' then None
          else if strip t = [] then Some (matches ! 0)
          else case py_int (strip t) of Inl _ \<Rightarrow> None | Inr k \<Rightarrow> py_index matches (k - 1))"

definition pick_session :: "desk \<Rightarrow> SessionRecord list \<Rightarrow> ('n console, SessionRecord option) act" where
  "pick_session d matches =
     (case matches of
        [] \<Rightarrow> ret None
      | [r] \<Rightarrow> ret (Some r)
      | _ \<Rightarrow>
          bind_s (say (''  '' @ nat_text (length matches) @ '' sessions found:'')) (\<lambda>_.
          bind_s (for_each (show_session d) (numbered matches)) (\<lambda>_.
          bind_s (prompt (''  Resume session number (1-'' @ nat_text (length matches) @ '', Enter=most-recent, 0=skip): '')) (\<lambda>_.
          bind_s read_answer (\<lambda>answer. ret (picked matches answer))))))"

section \<open>Approving commands\<close>

definition sessions_of_tool :: "desk \<Rightarrow> string \<Rightarrow> string \<Rightarrow> ('n console, SessionRecord list) act" where
  "sessions_of_tool d dir tool =
     bind_s (on_runtime_of (on_sessions (find_sessions_for_cwd (session_home (dk_machine d)) (home_modified (dk_machine d)) dir None)))
       (\<lambda>matches. ret (filter (\<lambda>r. sr_tool r = tool) matches))"

definition resume_argv_for :: "desk \<Rightarrow> string \<Rightarrow> string \<Rightarrow> ('n console, string) act" where
  "resume_argv_for d tool session =
     bind_s (on_runtime_of (on_probes (find_resume_adapter (agent_tools (dk_machine d)) tool True))) (\<lambda>found.
     case found of
       None \<Rightarrow> raise_s (AttributeError ''contract'')
     | Some match \<Rightarrow> bind_s (lift_s (build_resume_argv match (Some session))) (\<lambda>argv. ret (join '' '' argv)))"

text \<open>Several sessions of the tool in the directory are offered; the user may skip the item.\<close>

definition offer_session :: "desk \<Rightarrow> RecoveryItemView \<Rightarrow> string \<Rightarrow> int \<Rightarrow> string \<Rightarrow> ('n console, bool) act" where
  "offer_session d i summary session_count tool =
     bind_s (if session_count > 1 then sessions_of_tool d (v_directory i) tool else ret []) (\<lambda>matches.
     if length matches > 1 then
       bind_s (pick_session d matches) (\<lambda>chosen.
       case chosen of
         None \<Rightarrow> ret False
       | Some r \<Rightarrow>
           bind_s (resume_argv_for d tool (sr_session_id r)) (\<lambda>resume_command.
           bind_s (say (''  resuming: '' @ resume_command)) (\<lambda>_. ret True)))
     else bind_s (when_s (summary \<noteq> []) (say (''  session: '' @ summary))) (\<lambda>_. ret True))"

definition RESUME_PROMPT :: string where "RESUME_PROMPT = ''Resume this session? [Y/n] ''"

definition run_prompt :: "string \<Rightarrow> string" where
  "run_prompt i = ''Run this command in restored item '' @ i @ ''? [y/N] ''"

text \<open>\<^verbatim>\<open>casefold\<close> of a text of these code points is \<^verbatim>\<open>y\<close> or \<^verbatim>\<open>yes\<close> exactly if its lower case is.\<close>

definition consents :: "bool \<Rightarrow> string option \<Rightarrow> bool" where
  "consents default_yes answer =
     (case answer of
        None \<Rightarrow> False
      | Some t \<Rightarrow> lower (strip t) \<in> {''y'', ''yes''} \<or> default_yes \<and> strip t = [])"

definition approve_item :: "desk \<Rightarrow> RecoveryItemView \<Rightarrow> ('n console, bool) act" where
  "approve_item d i =
     bind_s (lift_s (resume_display_for_item i)) (\<lambda>(resume_command, summary, session_count, tool).
     if v_resume_command i \<noteq> [] then
       bind_s (say (''Restore item '' @ v_item_id i @ '':'')) (\<lambda>_.
       bind_s (say (''  command: '' @ resume_command)) (\<lambda>_.
       bind_s (offer_session d i summary session_count tool) (\<lambda>go_on.
       if \<not> go_on then ret False
       else bind_s (prompt RESUME_PROMPT) (\<lambda>_. bind_s read_answer (\<lambda>answer. ret (consents True answer))))))
     else
       bind_s (say (''Stored command for '' @ v_item_id i @ '': '' @
         (if resume_command \<noteq> [] then resume_command else case v_replay_display i of None \<Rightarrow> ''None'' | Some t \<Rightarrow> display_text t))) (\<lambda>_.
       bind_s (prompt (run_prompt (v_item_id i))) (\<lambda>_. bind_s read_answer (\<lambda>answer. ret (consents False answer)))))"

primrec approve_items :: "desk \<Rightarrow> RecoveryItemView list \<Rightarrow> ('n console, string list) act" where
  "approve_items d [] = ret []"
| "approve_items d (i # is) =
     bind_s (approve_item d i) (\<lambda>ok.
     bind_s (approve_items d is) (\<lambda>approved. ret (if ok then v_item_id i # approved else approved)))"

definition approvals :: "desk \<Rightarrow> RecoveryItemView list \<Rightarrow> string list \<Rightarrow> bool \<Rightarrow> ('n console, string list) act" where
  "approvals d found selected directory_only =
     (if directory_only then ret []
      else approve_items d (filter (\<lambda>i. v_item_id i \<in> set selected \<and> needs_approval i) found))"

definition show_result :: "string \<Rightarrow> OutcomeView list \<Rightarrow> string list \<Rightarrow> ('n console, int) act" where
  "show_result attempt outs remaining =
     bind_s (say (''restore attempt: '' @ attempt)) (\<lambda>_.
     bind_s (for_each (\<lambda>p. say (''  '' @ ov_item_id p @ '': '' @ OutcomeKind_value (ov_kind p) @ '' ('' @ text_value (ov_message p) @ '')'')) outs) (\<lambda>_.
     if remaining \<noteq> [] then
       bind_s (say (''remaining retryable items: '' @ join '', '' remaining)) (\<lambda>_. ret EXIT_WARNING)
     else bind_s (say ''restore state saved'') (\<lambda>_. ret EXIT_OK)))"

section \<open>Restoring without the service\<close>

definition candidate_lines :: "desk \<Rightarrow> (RestoreCandidate \<Rightarrow> string) \<Rightarrow> nat \<times> RestoreCandidate \<Rightarrow> ('n console, unit) act" where
  "candidate_lines d label x =
     (case x of (k, c) \<Rightarrow>
        bind_s (ago d (rc_last_activity c)) (\<lambda>t.
        bind_s (say (''  '' @ nat_text k @ '': '' @ pad8 t @ ''  ['' @ rc_tool c @ '']  '' @ rc_cwd c)) (\<lambda>_.
        bind_s (say (''     resume: '' @ (if rc_resume_command c \<noteq> [] then rc_resume_command c else ''(no resume command)''))) (\<lambda>_.
        when_s (rc_summary c \<noteq> []) (say (''     '' @ take 70 (label c)))))))"

definition heading :: "RestoreCandidate list \<Rightarrow> string" where
  "heading cands = nat_text (length cands) @ '' restorable session(s) (timestamp backend, no server):''"

text \<open>The numbers the user chooses: all of them, or those typed, or an exit code.\<close>

definition choose_numbers :: "bool \<Rightarrow> nat \<Rightarrow> ('n console, int + int list) act" where
  "choose_numbers everything n =
     (if everything then ret (Inr (map int [1..<Suc n]))
      else
        bind_s (gets cn_tty) (\<lambda>tty.
        if \<not> tty then
          bind_s (complain ''restore refused: session selection requires an interactive terminal'') (\<lambda>_. ret (Inl EXIT_REFUSED))
        else
          bind_s (prompt ''Select session numbers (comma-separated), or press Enter to cancel: '') (\<lambda>_.
          bind_s read_answer (\<lambda>answer.
          case answer of
            None \<Rightarrow> bind_s (complain ''restore cancelled'') (\<lambda>_. ret (Inl EXIT_REFUSED))
          | Some t \<Rightarrow>
              if strip t = [] then bind_s (complain ''restore cancelled'') (\<lambda>_. ret (Inl EXIT_REFUSED))
              else case traverse (\<lambda>part. py_int (strip part)) (split_on CHR '','' t) of
                Inl _ \<Rightarrow> bind_s (complain ''invalid selection'') (\<lambda>_. ret (Inl EXIT_FAILURE))
              | Inr chosen \<Rightarrow>
                  if \<exists>k \<in> set chosen. k < 1 \<or> k > int n then
                    bind_s (complain ''selection out of range'') (\<lambda>_. ret (Inl EXIT_FAILURE))
                  else ret (Inr chosen)))))"

text \<open>A candidate whose directory has several sessions of its tool may be replaced by another of them, or skipped.\<close>

definition choose_session :: "desk \<Rightarrow> RestoreCandidate \<Rightarrow> ('n console, RestoreCandidate list) act" where
  "choose_session d c =
     bind_s (sessions_of_tool d (rc_cwd c) (rc_tool c)) (\<lambda>matches.
     bind_s (pick_session d matches) (\<lambda>chosen.
     case chosen of
       None \<Rightarrow> ret []
     | Some r \<Rightarrow>
         if sr_session_id r = rc_session_id c then ret [c]
         else
           bind_s (on_runtime_of (on_probes (find_resume_adapter (agent_tools (dk_machine d)) (rc_tool c) True))) (\<lambda>found.
           case found of
             None \<Rightarrow> ret [c]
           | Some match \<Rightarrow>
               bind_s (lift_s (build_resume_argv match (Some (sr_session_id r)))) (\<lambda>argv.
               ret [c\<lparr>rc_session_id := sr_session_id r, rc_summary := sr_summary r, rc_first_activity := sr_first_activity r,
                 rc_last_activity := sr_last_activity r, rc_resume_command := join '' '' argv\<rparr>]))))"

primrec choose_sessions :: "desk \<Rightarrow> RestoreCandidate list \<Rightarrow> ('n console, RestoreCandidate list) act" where
  "choose_sessions d [] = ret []"
| "choose_sessions d (c # cs) =
     bind_s (choose_session d c) (\<lambda>x. bind_s (choose_sessions d cs) (\<lambda>y. ret (x @ y)))"

definition candidate_launch :: "RestoreCandidate \<Rightarrow> LaunchItem" where
  "candidate_launch c =
     \<lparr>li_item_id = rc_item_id c, li_cwd = path_str (rc_cwd c),
      li_approved_command = (if rc_resume_command c = [] then None else Some (rc_resume_command c))\<rparr>"

primrec launch_items :: "host \<Rightarrow> RestoreCandidate list \<Rightarrow> ('n console, LaunchItem list) act" where
  "launch_items h [] = ret []"
| "launch_items h (c # cs) =
     (if \<not> is_dir h (path_str (rc_cwd c)) then
        bind_s (complain (''warning: '' @ rc_cwd c @ '' no longer exists; skipping'')) (\<lambda>_. launch_items h cs)
      else bind_s (launch_items h cs) (\<lambda>ls. ret (candidate_launch c # ls)))"

definition launch_candidates :: "desk \<Rightarrow> RestoreCandidate list \<Rightarrow> ('n console, int) act" where
  "launch_candidates d chosen =
     (let h = terminals (dk_machine d) in
      bind_s (lift_s (detect_adapter h)) (\<lambda>detected.
      bind_s (lift_s (create_adapter (case detected of None \<Rightarrow> ''gnome-terminal'' | Some t \<Rightarrow> t))) (\<lambda>a.
      bind_s (launch_items h chosen) (\<lambda>todo.
      if todo = [] then
        bind_s (complain ''no restorable items (all cwds missing)'') (\<lambda>_. ret EXIT_WARNING)
      else
        bind_s (on_runtime_of (on_world (adapter_plan a h todo))) (\<lambda>actions.
        bind_s (say ([CHR 0x0A] @ ''restoring '' @ nat_text (length todo) @ '' session(s)...'')) (\<lambda>_.
        bind_s (clock_call d) (\<lambda>now.
        bind_s (on_runtime_of (on_world (adapter_execute a h actions (''timestamp-'' @ int_text \<lfloor>now\<rfloor>)))) (\<lambda>outs.
        bind_s (for_each (\<lambda>p. say (''  '' @ outcome_item_id p @ '': '' @ OutcomeKind_value (outcome_kind p) @ '' ('' @ outcome_message p @ '')'')) outs) (\<lambda>_.
        ret EXIT_OK)))))))))"

definition restore_from_timestamp :: "desk \<Rightarrow> bool \<Rightarrow> ('n console, int) act" where
  "restore_from_timestamp d everything =
     bind_s (on_runtime_of (candidates_from_timestamp (dk_machine d))) (\<lambda>cands.
     if cands = [] then
       bind_s (say ''no restorable sessions found in any tool store'') (\<lambda>_.
       bind_s (say ''(run codex / pi / hermes / claude at least once; their session files are what termrecall reads)'') (\<lambda>_.
       ret EXIT_WARNING))
     else
       bind_s (say (heading cands)) (\<lambda>_.
       bind_s (for_each (candidate_lines d rc_summary) (numbered cands)) (\<lambda>_.
       bind_s (choose_numbers everything (length cands)) (\<lambda>numbers.
       case numbers of
         Inl exit_code \<Rightarrow> ret exit_code
       | Inr chosen \<Rightarrow>
           bind_s (choose_sessions d (map (\<lambda>k. cands ! nat (k - 1)) chosen)) (\<lambda>selected.
           if selected = [] then
             bind_s (complain ''nothing selected to restore'') (\<lambda>_. ret EXIT_WARNING)
           else launch_candidates d selected)))))"

section \<open>Restoring through the service\<close>

record restore_args =
  ra_all :: bool
  ra_retry :: "string option"
  ra_directory_only :: bool
  ra_backend :: string

text \<open>What is left of a choice: an exit code, or the request to send.\<close>

definition refuse_approval :: "('n console, int + 'a) act" where
  "refuse_approval =
     bind_s (complain ''restore refused: command approval requires an interactive terminal'') (\<lambda>_. ret (Inl EXIT_REFUSED))"

definition approve_selected ::
  "desk \<Rightarrow> restore_args \<Rightarrow> RecoveryItemView list \<Rightarrow> string list \<Rightarrow> (string list \<Rightarrow> ServiceRequest) \<Rightarrow>
    ('n console, int + ServiceRequest) act" where
  "approve_selected d args found selected build_request =
     bind_s (gets cn_tty) (\<lambda>tty.
     if \<not> ra_directory_only args \<and> requires_interactive_approval found selected \<and> \<not> tty then refuse_approval
     else bind_s (approvals d found selected (ra_directory_only args)) (\<lambda>approved. ret (Inr (build_request approved))))"

definition choose_retry ::
  "desk \<Rightarrow> 'n network \<Rightarrow> restore_args \<Rightarrow> string \<Rightarrow> string \<Rightarrow> ('n console, int + ServiceRequest) act" where
  "choose_retry d w args workspace attempt =
     bind_s (list_response w False (RestoreListRequest (Some workspace) (Some attempt))) (\<lambda>listed.
     case listed of
       None \<Rightarrow> ret (Inl EXIT_FAILURE)
     | Some (workspace', found, _) \<Rightarrow>
         (case workspace' of
            None \<Rightarrow> raise_s (TypeError ''workspace'')
          | Some k \<Rightarrow> approve_selected d args found (map v_item_id found) (RestoreRetryRequest k attempt)))"

definition choose_restore ::
  "desk \<Rightarrow> restore_args \<Rightarrow> string \<Rightarrow> RecoveryItemView list \<Rightarrow> ('n console, int + ServiceRequest) act" where
  "choose_restore d args workspace found =
     bind_s (gets cn_tty) (\<lambda>tty.
     if ra_all args then
       approve_selected d args found (map v_item_id found) (RestoreExecuteRequest workspace (map v_item_id found))
     else if \<not> tty then
       bind_s (complain ''restore refused: item selection requires an interactive terminal'') (\<lambda>_. ret (Inl EXIT_REFUSED))
     else
       bind_s (select_items found) (\<lambda>answer.
       case answer of
         None \<Rightarrow>
           bind_s (complain ''restore cancelled; no command was approved'') (\<lambda>_. ret (Inl EXIT_REFUSED))
       | Some selected \<Rightarrow> approve_selected d args found selected (RestoreExecuteRequest workspace selected)))"

definition choose_request ::
  "desk \<Rightarrow> 'n network \<Rightarrow> restore_args \<Rightarrow> string \<Rightarrow> RecoveryItemView list \<Rightarrow> ('n console, int + ServiceRequest) act" where
  "choose_request d w args workspace found =
     catch
       (case ra_retry args of
          Some attempt \<Rightarrow>
            if attempt \<noteq> [] then choose_retry d w args workspace attempt else choose_restore d args workspace found
        | None \<Rightarrow> choose_restore d args workspace found)
       (\<lambda>e. if e = KeyboardInterrupt then
             bind_s (complain ''restore cancelled; no command was approved'') (\<lambda>_. ret (Inl EXIT_REFUSED))
           else raise_s e)"

definition send_restore :: "'n network \<Rightarrow> ServiceRequest \<Rightarrow> ('n console, int) act" where
  "send_restore w req =
     bind_s (request w req) (\<lambda>response.
     case response of
       Some (RestoreResultResponse workspace attempt outs remaining) \<Rightarrow> show_result attempt outs remaining
     | _ \<Rightarrow> ret EXIT_FAILURE)"

definition restore_command :: "desk \<Rightarrow> 'n network \<Rightarrow> restore_args \<Rightarrow> ('n console, int) act" where
  "restore_command d w args =
     (if ra_backend args = ''timestamp'' then restore_from_timestamp d (ra_all args)
      else
        bind_s (list_response w False (RestoreListRequest None None)) (\<lambda>listed.
        case listed of
          None \<Rightarrow> ret EXIT_FAILURE
        | Some (None, _, _) \<Rightarrow> restore_from_timestamp d (ra_all args)
        | Some (Some workspace, found, _) \<Rightarrow>
            bind_s (choose_request d w args workspace found) (\<lambda>choice.
            case choice of Inl exit_code \<Rightarrow> ret exit_code | Inr req \<Rightarrow> send_restore w req)))"

section \<open>Sessions and discarding\<close>

definition py_take :: "int \<Rightarrow> 'a list \<Rightarrow> 'a list" where
  "py_take n xs = (if 0 \<le> n then take (nat n) xs else take (nat (int (length xs) + n)) xs)"

definition sessions_command :: "desk \<Rightarrow> string option \<Rightarrow> string option \<Rightarrow> int \<Rightarrow> ('n console, int) act" where
  "sessions_command d tool dir limit =
     bind_s (on_runtime_of (candidates_from_timestamp (dk_machine d))) (\<lambda>listed.
     let of_tool = (case tool of Some t \<Rightarrow> if t \<noteq> [] then filter (\<lambda>c. rc_tool c = t) listed else listed | None \<Rightarrow> listed);
         of_dir = (case dir of
             Some p \<Rightarrow> if p \<noteq> [] then filter (\<lambda>c. normpath (rc_cwd c) = normpath p) of_tool else of_tool
           | None \<Rightarrow> of_tool);
         cands = py_take limit of_dir in
     if cands = [] then bind_s (say ''no restorable sessions found'') (\<lambda>_. ret EXIT_WARNING)
     else
       bind_s (say (heading cands)) (\<lambda>_.
       bind_s (for_each (candidate_lines d rc_summary) (numbered cands)) (\<lambda>_.
       bind_s (say ([CHR 0x0A] @ ''Use: termrecall restore --backend timestamp  to restore these'')) (\<lambda>_. ret EXIT_OK))))"

text \<open>Anything but the full sentence, also an interrupt, keeps the workspace.\<close>

definition confirmed :: "string \<Rightarrow> bool \<Rightarrow> ('n console, bool) act" where
  "confirmed workspace yes =
     (if yes then ret True
      else
        bind_s (prompt (''Type '' @ [CHR 0x27] @ ''discard '' @ workspace @ [CHR 0x27] @ '' to continue: '')) (\<lambda>_.
        bind_s (catch read_answer (\<lambda>e. if e = KeyboardInterrupt then ret None else raise_s e)) (\<lambda>answer.
        ret (answer = Some (''discard '' @ workspace)))))"

definition discard_command :: "'n network \<Rightarrow> string \<Rightarrow> bool \<Rightarrow> ('n console, int) act" where
  "discard_command w workspace yes =
     bind_s (list_response w False (RestoreListRequest None None)) (\<lambda>listed.
     case listed of
       None \<Rightarrow> ret EXIT_FAILURE
     | Some (known, found, _) \<Rightarrow>
         if known \<noteq> Some workspace then
           bind_s (complain ''refused: workspace does not match the current recovery workspace'') (\<lambda>_. ret EXIT_REFUSED)
         else
           bind_s (say (''This permanently deletes '' @ nat_text (length found) @ '' recovery items from workspace '' @ workspace @ ''.'')) (\<lambda>_.
           bind_s (confirmed workspace yes) (\<lambda>go_on.
           if \<not> go_on then
             bind_s (complain ''discard refused; recovery remains available'') (\<lambda>_. ret EXIT_REFUSED)
           else
             bind_s (request w (DiscardRequest workspace)) (\<lambda>response.
             case response of
               Some (DiscardResponse k) \<Rightarrow> bind_s (say (''discarded workspace '' @ k)) (\<lambda>_. ret EXIT_OK)
             | _ \<Rightarrow> ret EXIT_FAILURE))))"

text \<open>The commands that need the client, by their parsed arguments.\<close>

datatype command_line =
    Status | SnapshotNow | List | Restore restore_args | Sessions "string option" "string option" int | Discard string bool

fun run_command :: "desk \<Rightarrow> 'n network \<Rightarrow> command_line \<Rightarrow> ('n console, int) act" where
  "run_command d w Status = status_command d w"
| "run_command d w SnapshotNow = snapshot_command w"
| "run_command d w List = list_command w"
| "run_command d w (Restore args) = restore_command d w args"
| "run_command d w (Sessions tool dir limit) = sessions_command d tool dir limit"
| "run_command d w (Discard workspace yes) = discard_command w workspace yes"

end
