(* ===== verification/Manifest.thy ===== *)
theory Manifest
  imports Persist Processes Sessions
begin

text \<open>
  The value objects of the installer, of \<^verbatim>\<open>installer_contract.py\<close>: what it found before it changed a file, what it
  owns, and the manifest that records both, with its canonical bytes. SHA-256 is a parameter.
\<close>

section \<open>Objects\<close>

datatype DesiredState = ENABLE | DISABLE | PRESERVE

datatype SetupMode = INTERACTIVE | FULL | NO_AUTOSTART | COMMANDS_ONLY | UPGRADE

datatype ObjectKind = ABSENT | FILE | SYMLINK

fun ObjectKind_value :: "ObjectKind \<Rightarrow> string" where
  "ObjectKind_value ABSENT = ''absent''"
| "ObjectKind_value FILE = ''file''"
| "ObjectKind_value SYMLINK = ''symlink''"

definition ObjectKind_members :: "ObjectKind list" where
  "ObjectKind_members = [ABSENT, FILE, SYMLINK]"

interpretation kind_enum: str_enum ObjectKind_value ObjectKind_members
  by (rule str_enumI) (auto simp: ObjectKind_members_def intro: ObjectKind.exhaust)

record BeforeImage =
  bi_path :: string
  bi_kind :: ObjectKind
  bi_mode :: "int option"
  bi_target :: "string option"
  bi_content :: "string option"
  bi_sha256 :: "string option"

record OwnedObject =
  ow_path :: string
  ow_kind :: ObjectKind
  ow_mode :: int
  ow_sha256 :: "string option"
  ow_target :: "string option"

record MarkerIdentity =
  mk_path :: string
  mk_sha256 :: string
  mk_mode :: int

record ChooserOwnership =
  co_original :: BeforeImage
  co_post :: "BeforeImage option"
  co_changed :: bool

record InstallManifest =
  im_schema_version :: int
  im_installer_version :: string
  im_application_version :: string
  im_install_id :: string
  im_generation_id :: string
  im_roots :: dict
  im_marker :: MarkerIdentity
  im_owned :: "OwnedObject list"
  im_created_parents :: "string list"
  im_bash_enabled :: bool
  im_autostart_enabled :: bool
  im_chooser :: ChooserOwnership
  im_rollback_images :: "BeforeImage list"
  im_bash_backup :: "OwnedObject option"

record IntegrationSetupRequest =
  is_dry_run :: bool
  is_bash :: DesiredState
  is_autostart :: DesiredState
  is_chooser :: DesiredState

definition MANIFEST_SCHEMA :: int where "MANIFEST_SCHEMA = 2"
definition MAX_PAYLOAD_BYTES :: nat where "MAX_PAYLOAD_BYTES = 65536"
definition SHA256_LENGTH :: nat where "SHA256_LENGTH = 64"

section \<open>Paths\<close>

record LifecyclePaths =
  lp_home :: string
  xdg_data_home :: string
  xdg_config_home :: string
  xdg_state_home :: string
  data_root :: string
  config_root :: string
  state_root :: string
  bin_root :: string
  generations :: string
  current_link :: string
  manifest_path :: string
  lifecycle_lock :: string
  bash_integration :: string
  bashrc :: string
  autostart :: string
  chooser :: string
  command_links :: "string list"

definition absolute_root :: "string \<Rightarrow> string \<Rightarrow> string result" where
  "absolute_root t what =
     (let path = path_str t in
      if \<not> is_absolute path \<or> normpath path \<noteq> path
      then Inl (ValueError (what @ '' must be a canonical absolute path'')) else Inr path)"

definition env_or :: "(string \<rightharpoonup> string) \<Rightarrow> string \<Rightarrow> string \<Rightarrow> string" where
  "env_or env k other = (case env k of Some t \<Rightarrow> t | None \<Rightarrow> other)"

definition command_names :: "string list" where
  "command_names = [''termrecall'', ''termrecall-bridge'', ''termrecall-nonblock'']"

definition resolve_lifecycle_paths :: "(string \<rightharpoonup> string) \<Rightarrow> string \<Rightarrow> LifecyclePaths result" where
  "resolve_lifecycle_paths env given_home =
     bind_r (absolute_root given_home ''home'') (\<lambda>home.
     bind_r (absolute_root (env_or env ''XDG_DATA_HOME'' (path_join home ''.local/share'')) ''XDG_DATA_HOME'') (\<lambda>data_home.
     bind_r (absolute_root (env_or env ''XDG_CONFIG_HOME'' (path_join home ''.config'')) ''XDG_CONFIG_HOME'') (\<lambda>config_home.
     bind_r (absolute_root (env_or env ''XDG_STATE_HOME'' (path_join home ''.local/state'')) ''XDG_STATE_HOME'') (\<lambda>state_home.
     let data = path_join data_home ''termrecall''; config = path_join config_home ''termrecall'';
         bin = path_join home ''.local/bin'' in
     Inr \<lparr>lp_home = home, xdg_data_home = data_home, xdg_config_home = config_home, xdg_state_home = state_home,
       data_root = data, config_root = config, state_root = path_join state_home ''termrecall'', bin_root = bin,
       generations = path_join data ''generations'', current_link = path_join data ''current'',
       manifest_path = path_join config ''install-manifest.json'', lifecycle_lock = path_join config ''lifecycle.lock'',
       bash_integration = path_join config ''bash-integration.bash'', bashrc = path_join home ''.bashrc'',
       autostart = path_join config_home ''autostart/termrecall.desktop'', chooser = path_join config ''config.json'',
       command_links = map (path_join bin) command_names\<rparr>))))"

section \<open>Base 64\<close>

definition b64_alphabet :: string where
  "b64_alphabet = ''ABCDEFGHIJKLMNOPQRSTUVWXYZabcdefghijklmnopqrstuvwxyz0123456789+/''"

definition b64_char :: "nat \<Rightarrow> char" where "b64_char n = b64_alphabet ! n"

definition b64_code :: "char \<Rightarrow> nat option" where
  "b64_code c = map_option fst (find (\<lambda>(k, x). x = c) (enumerate 0 b64_alphabet))"

fun b64_encode :: "string \<Rightarrow> string" where
  "b64_encode [] = []"
| "b64_encode [a] = [b64_char (code a div 4), b64_char (code a mod 4 * 16), CHR ''='', CHR ''='']"
| "b64_encode [a, b] =
     [b64_char (code a div 4), b64_char (code a mod 4 * 16 + code b div 16), b64_char (code b mod 16 * 4), CHR ''='']"
| "b64_encode (a # b # c # s) =
     [b64_char (code a div 4), b64_char (code a mod 4 * 16 + code b div 16),
      b64_char (code b mod 16 * 4 + code c div 64), b64_char (code c mod 64)] @ b64_encode s"

text \<open>
  \<^verbatim>\<open>b64decode(text, validate=True)\<close>: the values of the characters up to the padding. A group of two or three needs
  exactly its padding, whole groups may be followed by any; the bits of a last group that fill no byte are ignored.
\<close>

fun b64_bytes :: "nat list \<Rightarrow> nat \<Rightarrow> string option" where
  "b64_bytes [] pad = Some []"
| "b64_bytes [x] pad = None"
| "b64_bytes [x, y] pad = (if pad = 2 then Some [char_of (x * 4 + y div 16)] else None)"
| "b64_bytes [x, y, z] pad =
     (if pad = 1 then Some [char_of (x * 4 + y div 16), char_of (y mod 16 * 16 + z div 4)] else None)"
| "b64_bytes (x # y # z # w # s) pad =
     map_option (\<lambda>t. [char_of (x * 4 + y div 16), char_of (y mod 16 * 16 + z div 4), char_of (z mod 4 * 64 + w)] @ t)
       (b64_bytes s pad)"

definition b64_decode :: "string \<Rightarrow> string option" where
  "b64_decode t =
     (let digits = takeWhile (\<lambda>c. b64_code c \<noteq> None) t; rest = dropWhile (\<lambda>c. b64_code c \<noteq> None) t in
      if (\<exists>c \<in> set rest. c \<noteq> CHR ''='') \<or> (digits = [] \<and> rest \<noteq> []) then None
      else b64_bytes (map (\<lambda>c. the (b64_code c)) digits) (length rest))"

section \<open>Writing\<close>

definition before_to_dict :: "BeforeImage \<Rightarrow> json" where
  "before_to_dict b = JObj
     [(''path'', JStr (bi_path b)), (''kind'', JStr (ObjectKind_value (bi_kind b))), (''mode'', json_option JInt (bi_mode b)),
      (''literal_target'', json_option JStr (bi_target b)), (''content'', json_option (\<lambda>c. JStr (b64_encode c)) (bi_content b)),
      (''content_sha256'', json_option JStr (bi_sha256 b))]"

definition owned_to_dict :: "OwnedObject \<Rightarrow> json" where
  "owned_to_dict x = JObj
     [(''path'', JStr (ow_path x)), (''kind'', JStr (ObjectKind_value (ow_kind x))), (''mode'', JInt (ow_mode x)),
      (''content_sha256'', json_option JStr (ow_sha256 x)), (''literal_target'', json_option JStr (ow_target x))]"

definition marker_to_dict :: "MarkerIdentity \<Rightarrow> json" where
  "marker_to_dict k = JObj
     [(''path'', JStr (mk_path k)), (''content_sha256'', JStr (mk_sha256 k)), (''mode'', JInt (mk_mode k))]"

definition chooser_to_dict :: "ChooserOwnership \<Rightarrow> json" where
  "chooser_to_dict c = JObj
     [(''original'', before_to_dict (co_original c)), (''post'', json_option before_to_dict (co_post c)),
      (''changed'', JBool (co_changed c))]"

definition manifest_to_dict :: "InstallManifest \<Rightarrow> json" where
  "manifest_to_dict m = JObj
     [(''schema_version'', JInt (im_schema_version m)), (''installer_version'', JStr (im_installer_version m)),
      (''application_version'', JStr (im_application_version m)), (''install_id'', JStr (im_install_id m)),
      (''generation_id'', JStr (im_generation_id m)), (''roots'', JObj (im_roots m)),
      (''marker'', marker_to_dict (im_marker m)), (''owned'', JArr (map owned_to_dict (im_owned m))),
      (''created_parents'', JArr (map JStr (im_created_parents m))), (''bash_enabled'', JBool (im_bash_enabled m)),
      (''autostart_enabled'', JBool (im_autostart_enabled m)), (''chooser'', chooser_to_dict (im_chooser m)),
      (''rollback_images'', JArr (map before_to_dict (im_rollback_images m))),
      (''bash_backup'', json_option owned_to_dict (im_bash_backup m))]"

definition canonical_line :: "(rat \<Rightarrow> string) \<Rightarrow> json \<Rightarrow> string result" where
  "canonical_line fr v = bind_r (encode_state fr v) (\<lambda>b. Inr (b @ [CHR 0x0A]))"

definition manifest_to_bytes :: "(rat \<Rightarrow> string) \<Rightarrow> InstallManifest \<Rightarrow> string result" where
  "manifest_to_bytes fr m =
     bind_r (raise_if (im_schema_version m \<noteq> MANIFEST_SCHEMA) (ValueError ''unsupported manifest schema'')) (\<lambda>_.
     bind_r (canonical_line fr (manifest_to_dict m)) (\<lambda>raw.
     if length raw > MAX_PAYLOAD_BYTES then Inl (ValueError ''manifest exceeds 65,536 bytes'') else Inr raw))"

section \<open>Reading\<close>

text \<open>A repeated key raises a \<^verbatim>\<open>ValueError\<close> too, with another text.\<close>

definition decode_json :: "(rat \<Rightarrow> string) \<Rightarrow> string \<Rightarrow> json result" where
  "decode_json fr raw =
     bind_r (raise_if (length raw > MAX_PAYLOAD_BYTES) (ValueError ''payload exceeds 65,536 bytes'')) (\<lambda>_.
     bind_r (case utf8_decode raw of
               None \<Rightarrow> Inl (ValueError ''invalid JSON'')
             | Some t \<Rightarrow> (case loads True t of Inl _ \<Rightarrow> Inl (ValueError ''invalid JSON'') | Inr v \<Rightarrow> Inr v)) (\<lambda>v.
     bind_r (canonical_line fr v) (\<lambda>line.
     if line \<noteq> raw then Inl (ValueError ''JSON is not canonical'') else Inr v)))"

definition exact_fields :: "dict \<Rightarrow> string list \<Rightarrow> string \<Rightarrow> unit result" where
  "exact_fields d ks what =
     raise_if (set (dict_keys d) \<noteq> set ks) (ValueError (''invalid '' @ what @ '' keys''))"

definition as_object :: "json \<Rightarrow> string \<Rightarrow> dict result" where
  "as_object v message = (case v of JObj d \<Rightarrow> Inr d | _ \<Rightarrow> Inl (ValueError message))"

definition man_string :: "json \<Rightarrow> string \<Rightarrow> string result" where
  "man_string v what =
     (case v of
        JStr t \<Rightarrow> if t = [] \<or> CHR 0x00 \<in> set t then Inl (ValueError (''invalid '' @ what)) else Inr t
      | _ \<Rightarrow> Inl (ValueError (''invalid '' @ what)))"

definition man_integer :: "json \<Rightarrow> string \<Rightarrow> int result" where
  "man_integer v what =
     (case v of
        JInt n \<Rightarrow> if 0 \<le> n \<and> n \<le> 4095 then Inr n else Inl (ValueError (''invalid '' @ what))
      | _ \<Rightarrow> Inl (ValueError (''invalid '' @ what)))"

definition man_boolean :: "json \<Rightarrow> string \<Rightarrow> bool result" where
  "man_boolean v what = (case v of JBool b \<Rightarrow> Inr b | _ \<Rightarrow> Inl (ValueError (''invalid '' @ what)))"

definition man_hash :: "json \<Rightarrow> string \<Rightarrow> string result" where
  "man_hash v what =
     bind_r (man_string v what) (\<lambda>t.
     if length t \<noteq> SHA256_LENGTH \<or> (\<exists>c \<in> set t. c \<notin> set ''0123456789abcdef'')
     then Inl (ValueError (''invalid '' @ what @ '' hash'')) else Inr t)"

definition man_path :: "json \<Rightarrow> string \<Rightarrow> string result" where
  "man_path v what =
     bind_r (man_string v what) (\<lambda>t.
     if \<not> is_absolute t \<or> normpath t \<noteq> t then Inl (ValueError (''invalid '' @ what @ '' path'')) else Inr t)"

definition man_sequence :: "json \<Rightarrow> string \<Rightarrow> json list result" where
  "man_sequence v what =
     (case v of
        JArr vs \<Rightarrow> if length vs > 128 then Inl (ValueError (''invalid '' @ what @ '' collection'')) else Inr vs
      | _ \<Rightarrow> Inl (ValueError (''invalid '' @ what @ '' collection'')))"

definition man_kind :: "json \<Rightarrow> string \<Rightarrow> ObjectKind result" where
  "man_kind v what =
     (case v of
        JStr t \<Rightarrow>
          (case enum_of ObjectKind_value ObjectKind_members t of
             None \<Rightarrow> Inl (ValueError (''invalid '' @ what @ '' kind'')) | Some k \<Rightarrow> Inr k)
      | _ \<Rightarrow> Inl (ValueError (''invalid '' @ what @ '' kind'')))"

definition man_content :: "json \<Rightarrow> string result" where
  "man_content v =
     (case bind_r (man_string v ''before image content base64'') (\<lambda>t.
        case b64_decode t of None \<Rightarrow> Inl (ValueError ''binascii'') | Some c \<Rightarrow> Inr c) of
        Inl _ \<Rightarrow> Inl (ValueError ''invalid before image content base64'') | Inr c \<Rightarrow> Inr c)"

definition BeforeImage_check :: "(string \<Rightarrow> string) \<Rightarrow> BeforeImage \<Rightarrow> BeforeImage result" where
  "BeforeImage_check sha b =
     (case bi_kind b of
        ABSENT \<Rightarrow>
          if bi_mode b \<noteq> None \<or> bi_target b \<noteq> None \<or> bi_content b \<noteq> None \<or> bi_sha256 b \<noteq> None
          then Inl (ValueError ''absent before image has metadata'') else Inr b
      | FILE \<Rightarrow>
          if bi_mode b = None \<or> bi_target b \<noteq> None \<or> bi_content b = None \<or> bi_sha256 b \<noteq> map_option sha (bi_content b)
          then Inl (ValueError ''invalid file before image content'') else Inr b
      | SYMLINK \<Rightarrow>
          if bi_mode b = None \<or> bi_target b = None \<or> bi_content b \<noteq> None \<or> bi_sha256 b \<noteq> None
          then Inl (ValueError ''invalid symlink before image'') else Inr b)"

definition decode_before :: "(string \<Rightarrow> string) \<Rightarrow> json \<Rightarrow> BeforeImage result" where
  "decode_before sha v =
     bind_r (as_object v ''invalid before image'') (\<lambda>d.
     bind_r (exact_fields d [''path'', ''kind'', ''mode'', ''literal_target'', ''content'', ''content_sha256''] ''before image'') (\<lambda>_.
     bind_r (field d ''kind'' (\<lambda>x. man_kind x ''before image'')) (\<lambda>kind.
     bind_r (field d ''path'' (\<lambda>x. man_path x ''before image'')) (\<lambda>path.
     bind_r (field d ''mode'' (nullable (\<lambda>x. man_integer x ''before image mode''))) (\<lambda>mode.
     bind_r (field d ''literal_target'' (nullable (\<lambda>x. man_string x ''before image target''))) (\<lambda>target.
     bind_r (field d ''content_sha256'' (nullable (\<lambda>x. man_hash x ''before image content''))) (\<lambda>digest.
     bind_r (field d ''content'' (nullable man_content)) (\<lambda>content.
     BeforeImage_check sha \<lparr>bi_path = path, bi_kind = kind, bi_mode = mode, bi_target = target, bi_content = content,
       bi_sha256 = digest\<rparr>))))))))"

definition OwnedObject_check :: "OwnedObject \<Rightarrow> OwnedObject result" where
  "OwnedObject_check x =
     (if ow_kind x = FILE \<and> (ow_sha256 x = None \<or> ow_target x \<noteq> None) then Inl (ValueError ''invalid owned file'')
      else if ow_kind x = SYMLINK \<and> (ow_target x = None \<or> ow_sha256 x \<noteq> None) then Inl (ValueError ''invalid owned symlink'')
      else Inr x)"

definition decode_owned :: "json \<Rightarrow> OwnedObject result" where
  "decode_owned v =
     bind_r (as_object v ''invalid owned object'') (\<lambda>d.
     bind_r (exact_fields d [''path'', ''kind'', ''mode'', ''content_sha256'', ''literal_target''] ''owned object'') (\<lambda>_.
     bind_r (field d ''kind'' (\<lambda>x. man_kind x ''owned object'')) (\<lambda>kind.
     bind_r (raise_if (kind = ABSENT) (ValueError ''owned object cannot be absent'')) (\<lambda>_.
     bind_r (field d ''path'' (\<lambda>x. man_path x ''owned object'')) (\<lambda>path.
     bind_r (field d ''mode'' (\<lambda>x. man_integer x ''owned object mode'')) (\<lambda>mode.
     bind_r (field d ''content_sha256'' (nullable (\<lambda>x. man_hash x ''owned content''))) (\<lambda>digest.
     bind_r (field d ''literal_target'' (nullable (\<lambda>x. man_string x ''owned target''))) (\<lambda>target.
     OwnedObject_check \<lparr>ow_path = path, ow_kind = kind, ow_mode = mode, ow_sha256 = digest, ow_target = target\<rparr>))))))))"

definition decode_marker :: "dict \<Rightarrow> MarkerIdentity result" where
  "decode_marker d =
     bind_r (exact_fields d [''path'', ''content_sha256'', ''mode''] ''marker'') (\<lambda>_.
     bind_r (field d ''path'' (\<lambda>x. man_path x ''marker'')) (\<lambda>path.
     bind_r (field d ''content_sha256'' (\<lambda>x. man_hash x ''marker'')) (\<lambda>digest.
     bind_r (field d ''mode'' (\<lambda>x. man_integer x ''marker mode'')) (\<lambda>mode.
     Inr \<lparr>mk_path = path, mk_sha256 = digest, mk_mode = mode\<rparr>))))"

definition decode_chooser :: "(string \<Rightarrow> string) \<Rightarrow> dict \<Rightarrow> ChooserOwnership result" where
  "decode_chooser sha d =
     bind_r (exact_fields d [''original'', ''post'', ''changed''] ''chooser'') (\<lambda>_.
     bind_r (field d ''original'' (decode_before sha)) (\<lambda>original.
     bind_r (field d ''post'' (nullable (decode_before sha))) (\<lambda>post.
     bind_r (field d ''changed'' (\<lambda>x. man_boolean x ''chooser changed'')) (\<lambda>changed.
     Inr \<lparr>co_original = original, co_post = post, co_changed = changed\<rparr>))))"

definition MANIFEST_KEYS :: "string list" where
  "MANIFEST_KEYS =
     [''schema_version'', ''installer_version'', ''application_version'', ''install_id'', ''generation_id'', ''roots'', ''marker'',
      ''owned'', ''created_parents'', ''bash_enabled'', ''autostart_enabled'', ''chooser'', ''rollback_images'', ''bash_backup'']"

definition expected_roots :: "LifecyclePaths \<Rightarrow> int \<Rightarrow> dict" where
  "expected_roots paths uid =
     [(''uid'', JInt uid), (''data'', JStr (data_root paths)), (''config'', JStr (config_root paths)),
      (''state'', JStr (state_root paths)), (''bin'', JStr (bin_root paths))]"

text \<open>Both have the same keys, so the dictionaries are equal if the values are; the type of the \<^verbatim>\<open>uid\<close> is compared too.\<close>

definition decode_roots :: "LifecyclePaths \<Rightarrow> int \<Rightarrow> dict \<Rightarrow> unit result" where
  "decode_roots paths uid roots =
     bind_r (exact_fields roots [''uid'', ''data'', ''config'', ''state'', ''bin''] ''roots'') (\<lambda>_.
     bind_r (raise_if (\<exists>(k, v) \<in> set (expected_roots paths uid). map_of roots k \<noteq> Some v)
       (ValueError ''manifest roots or uid do not match configured paths'')) (\<lambda>_.
     check_all (\<lambda>k. field roots k (\<lambda>x. bind_r (man_path x (''root '' @ k)) (\<lambda>_. Inr ())))
       [''data'', ''config'', ''state'', ''bin'']))"

definition owned_by_path :: "OwnedObject list \<Rightarrow> string \<Rightarrow> OwnedObject option" where
  "owned_by_path owned p = map_of (rev (map (\<lambda>x. (ow_path x, x)) owned)) p"

definition link_to :: "OwnedObject list \<Rightarrow> string \<Rightarrow> string \<Rightarrow> bool" where
  "link_to owned path target \<longleftrightarrow>
     (case owned_by_path owned path of None \<Rightarrow> False | Some x \<Rightarrow> ow_kind x = SYMLINK \<and> ow_target x = Some target)"

text \<open>The checks of the whole: the marker is that of the generation, and the links lead to it.\<close>

definition marker_check :: "LifecyclePaths \<Rightarrow> string \<Rightarrow> MarkerIdentity \<Rightarrow> unit result" where
  "marker_check paths generation_id k =
     raise_if (mk_path k \<noteq> path_join (path_join (generations paths) generation_id) ''.termrecall-generation.json'' \<or> mk_mode k \<noteq> 384)
       (ValueError ''invalid generation marker'')"

definition chooser_check :: "LifecyclePaths \<Rightarrow> ChooserOwnership \<Rightarrow> unit result" where
  "chooser_check paths c =
     bind_r (raise_if (bi_path (co_original c) \<noteq> chooser paths \<or>
         (case co_post c of None \<Rightarrow> False | Some p \<Rightarrow> bi_path p \<noteq> chooser paths))
       (ValueError ''invalid chooser path'')) (\<lambda>_.
     raise_if (co_changed c \<noteq> (co_post c \<noteq> None)) (ValueError ''invalid chooser ownership state''))"

definition manifest_check :: "LifecyclePaths \<Rightarrow> InstallManifest \<Rightarrow> InstallManifest result" where
  "manifest_check paths m =
     bind_r (raise_if (\<not> distinct (map ow_path (im_owned m)) \<or> \<not> distinct (map bi_path (im_rollback_images m)) \<or>
         \<not> distinct (im_created_parents m)) (ValueError ''duplicate owned, rollback, or parent path'')) (\<lambda>_.
     bind_r (raise_if (\<not> link_to (im_owned m) (current_link paths) (path_join (generations paths) (im_generation_id m)))
       (ValueError ''invalid current link ownership'')) (\<lambda>_.
     bind_r (check_all (\<lambda>l. raise_if (\<not> link_to (im_owned m) l (path_join (current_link paths) (''venv/bin/'' @ path_name l)))
       (ValueError ''invalid command link ownership'')) (command_links paths)) (\<lambda>_.
     Inr m)))"

definition manifest_from_bytes :: "(rat \<Rightarrow> string) \<Rightarrow> (string \<Rightarrow> string) \<Rightarrow> string \<Rightarrow> LifecyclePaths \<Rightarrow> int \<Rightarrow> InstallManifest result" where
  "manifest_from_bytes fr sha raw paths uid =
     bind_r (decode_json fr raw) (\<lambda>v.
     bind_r (as_object v ''manifest must be an object'') (\<lambda>d.
     bind_r (exact_fields d MANIFEST_KEYS ''manifest'') (\<lambda>_.
     bind_r (field d ''schema_version'' (\<lambda>x. raise_if (x \<noteq> JInt MANIFEST_SCHEMA) (ValueError ''unsupported manifest schema''))) (\<lambda>_.
     bind_r (field d ''roots'' (\<lambda>x. as_object x ''invalid roots'')) (\<lambda>roots.
     bind_r (decode_roots paths uid roots) (\<lambda>_.
     bind_r (field d ''installer_version'' (\<lambda>x. man_string x ''installer_version'')) (\<lambda>installer_version.
     bind_r (field d ''application_version'' (\<lambda>x. man_string x ''application_version'')) (\<lambda>application_version.
     bind_r (field d ''install_id'' (\<lambda>x. man_string x ''install_id'')) (\<lambda>install_id.
     bind_r (field d ''generation_id'' (\<lambda>x. man_string x ''generation_id'')) (\<lambda>generation_id.
     bind_r (raise_if (CHR ''/'' \<in> set generation_id \<or> generation_id \<in> {''.'', ''..''}) (ValueError ''invalid generation_id'')) (\<lambda>_.
     bind_r (field d ''marker'' (\<lambda>x. as_object x ''invalid manifest model'')) (\<lambda>marker_raw.
     bind_r (field d ''chooser'' (\<lambda>x. as_object x ''invalid manifest model'')) (\<lambda>chooser_raw.
     bind_r (decode_marker marker_raw) (\<lambda>marker.
     bind_r (marker_check paths generation_id marker) (\<lambda>_.
     bind_r (decode_chooser sha chooser_raw) (\<lambda>c.
     bind_r (chooser_check paths c) (\<lambda>_.
     bind_r (field d ''owned'' (\<lambda>x. bind_r (man_sequence x ''owned'') (traverse decode_owned))) (\<lambda>owned.
     bind_r (field d ''rollback_images'' (\<lambda>x. bind_r (man_sequence x ''rollback_images'') (traverse (decode_before sha)))) (\<lambda>rollback.
     bind_r (field d ''created_parents'' (\<lambda>x. bind_r (man_sequence x ''created_parents'') (traverse (\<lambda>y. man_path y ''created parent'')))) (\<lambda>parents.
     bind_r (field d ''bash_backup'' (nullable decode_owned)) (\<lambda>backup.
     bind_r (field d ''bash_enabled'' (\<lambda>x. man_boolean x ''bash_enabled'')) (\<lambda>bash_enabled.
     bind_r (field d ''autostart_enabled'' (\<lambda>x. man_boolean x ''autostart_enabled'')) (\<lambda>autostart_enabled.
     manifest_check paths \<lparr>im_schema_version = MANIFEST_SCHEMA, im_installer_version = installer_version,
       im_application_version = application_version, im_install_id = install_id, im_generation_id = generation_id,
       im_roots = roots, im_marker = marker, im_owned = owned, im_created_parents = parents, im_bash_enabled = bash_enabled,
       im_autostart_enabled = autostart_enabled, im_chooser = c, im_rollback_images = rollback,
       im_bash_backup = backup\<rparr>)))))))))))))))))))))))"

section \<open>Base 64 is undone\<close>

lemma b64_code_char: "n < 64 \<Longrightarrow> b64_code (b64_char n) = Some n"
proof -
  have "list_all (\<lambda>n. b64_code (b64_char n) = Some n) [0..<64]" by code_simp
  then show "n < 64 \<Longrightarrow> b64_code (b64_char n) = Some n" by (simp add: list_all_iff)
qed

lemma b64_pad: "b64_code CHR ''='' = None"
  by code_simp

definition b64_digits :: "string \<Rightarrow> nat list \<Rightarrow> nat \<Rightarrow> bool" where
  "b64_digits s ds k \<longleftrightarrow> b64_encode s = map b64_char ds @ replicate k CHR ''='' \<and> (\<forall>n \<in> set ds. n < 64) \<and>
     (ds = [] \<longrightarrow> k = 0) \<and> b64_bytes ds k = Some s"

lemma four_of: "n div 4 * 4 + (n mod 4 * 16 + m div 16) div 16 = n" if "m < 256" for n m :: nat
proof -
  have "(n mod 4 * 16 + m div 16) div 16 = n mod 4" using that by simp
  then show ?thesis by simp
qed

lemma sixteen_of: "(n mod 4 * 16 + m div 16) mod 16 * 16 + (m mod 16 * 4 + k div 64) div 4 = m" if "m < 256" "k < 256" for n m k :: nat
proof -
  have "(n mod 4 * 16 + m div 16) mod 16 = m div 16" "(m mod 16 * 4 + k div 64) div 4 = m mod 16" using that by simp_all
  then show ?thesis by simp
qed

lemma sixtyfour_of: "(m mod 16 * 4 + k div 64) mod 4 * 64 + k mod 64 = k" if "k < 256" for m k :: nat
proof -
  have "(m mod 16 * 4 + k div 64) mod 4 = k div 64" using that by simp
  then show ?thesis by simp
qed

lemma b64_digits_exist: "\<exists>ds k. b64_digits s ds k"
proof (induction s rule: b64_encode.induct)
  case 1
  have "b64_digits [] [] 0" by (simp add: b64_digits_def)
  then show ?case by blast
next
  case (2 a)
  have "b64_digits [a] [code a div 4, code a mod 4 * 16] 2"
    using four_of [of 0 "code a"] code_less [of a] by (auto simp: b64_digits_def numeral_2_eq_2)
  then show ?case by blast
next
  case (3 a b)
  have "b64_digits [a, b] [code a div 4, code a mod 4 * 16 + code b div 16, code b mod 16 * 4] 1"
    using four_of [of "code b" "code a"] sixteen_of [of "code b" 0 "code a"] code_less [of a] code_less [of b]
    by (auto simp: b64_digits_def)
  then show ?case by blast
next
  case (4 a b c s)
  then obtain ds k where s: "b64_digits s ds k" by blast
  have "b64_digits (a # b # c # s) ([code a div 4, code a mod 4 * 16 + code b div 16, code b mod 16 * 4 + code c div 64, code c mod 64] @ ds) k"
    using s four_of [of "code b" "code a"] sixteen_of [of "code b" "code c" "code a"] sixtyfour_of [of "code c" "code b"]
      code_less [of a] code_less [of b] code_less [of c]
    by (auto simp: b64_digits_def)
  then show ?case by blast
qed

lemma span_append:
  assumes "\<And>x. x \<in> set xs \<Longrightarrow> P x" "\<not> P e"
  shows "takeWhile P (xs @ replicate k e) = xs" "dropWhile P (xs @ replicate k e) = replicate k e"
  using assms by (induction xs) (cases k; simp)+

lemma b64_round: "b64_decode (b64_encode s) = Some s"
proof -
  obtain ds k where s: "b64_digits s ds k" using b64_digits_exist by blast
  let ?p = "\<lambda>c. b64_code c \<noteq> None"
  have "\<forall>n \<in> set ds. b64_code (b64_char n) = Some n" using s by (auto simp: b64_digits_def b64_code_char)
  then have digits: "\<And>c. c \<in> set (map b64_char ds) \<Longrightarrow> ?p c" "map (\<lambda>c. the (b64_code c)) (map b64_char ds) = ds"
    by (auto intro!: map_idI)
  have "b64_encode s = map b64_char ds @ replicate k CHR ''=''" using s by (simp add: b64_digits_def)
  then have parts: "takeWhile ?p (b64_encode s) = map b64_char ds" "dropWhile ?p (b64_encode s) = replicate k CHR ''=''"
    using span_append [of "map b64_char ds" ?p "CHR ''=''" k] digits(1) b64_pad by (metis (full_types))+
  show ?thesis
    unfolding b64_decode_def Let_def parts digits(2) using s by (auto simp: b64_digits_def)
qed

lemma b64_length: "4 * length s \<le> 3 * length (b64_encode s)"
  by (induction s rule: b64_encode.induct) auto

lemma b64_empty: "b64_encode s = [] \<longleftrightarrow> s = []"
  by (cases s rule: b64_encode.cases) auto

lemma b64_text: "CHR 0x00 \<notin> set (b64_encode s)"
proof -
  obtain ds k where s: "b64_digits s ds k" using b64_digits_exist by blast
  have "list_all (\<lambda>n. b64_char n \<noteq> CHR 0x00) [0..<64]" by code_simp
  then have "\<forall>n \<in> set ds. b64_char n \<noteq> CHR 0x00" using s by (simp add: list_all_iff b64_digits_def)
  then show ?thesis using s by (auto simp: b64_digits_def)
qed


section \<open>Canonical bytes\<close>

lemma sort_dict_again:
  assumes "\<And>k v. (k, v) \<in> set d \<Longrightarrow> sort_keys (sort_keys v) = sort_keys v"
  shows "sort_dict (sort_dict d) = sort_dict d"
proof -
  let ?g = "\<lambda>(k, v). (k, sort_keys v)"
  have "map ?g (sort_dict d) = sort_dict d"
    using assms by (intro map_idI) (auto simp: sort_dict_def)
  moreover have "sorted (map fst (sort_dict d))" by (simp add: sort_dict_def)
  ultimately show ?thesis
    using sort_key_id_if_sorted [of fst "sort_dict d"] by (simp add: sort_dict_def [of "sort_dict d"])
qed

lemma sort_keys_again: "sort_keys (sort_keys v) = sort_keys v"
proof (induction v)
  case (JObj d)
  then have "sort_dict (sort_dict d) = sort_dict d" by (intro sort_dict_again) fastforce
  then show ?case by (simp only: sort_keys_JObj)
qed (auto simp: comp_def)

lemma ints_printable_sorted: "ints_printable (sort_keys v) = ints_printable v"
proof (induction v)
  case (JObj d)
  have "set (sort_dict d) = (\<lambda>(k, v). (k, sort_keys v)) ` set d" by (simp add: sort_dict_def)
  with JObj show ?case by (fastforce simp: case_prod_unfold)
qed auto

text \<open>What was written canonically is read as it was, with its keys sorted.\<close>

lemma decode_canonical:
  assumes "canonical_line fr v = Inr raw" "json_ok fr v" "length raw \<le> MAX_PAYLOAD_BYTES"
  shows "decode_json fr raw = Inr (sort_keys v)"
proof -
  have v: "ints_printable v" "raw = utf8_encode (dumps fr (sort_keys v)) @ [CHR 0x0A]"
    using assms(1) by (auto simp: canonical_line_def encode_state_Inr)
  have "utf8_encode [CHR 0x0A] = [CHR 0x0A]" by code_simp
  then have "raw = utf8_encode (dumps fr (sort_keys v) @ [CHR 0x0A])" using v(2) by (simp add: utf8_encode_def)
  then have "utf8_decode raw = Some (dumps fr (sort_keys v) @ [CHR 0x0A])" by (simp add: utf8_decode_encode)
  moreover have "loads True (dumps fr (sort_keys v) @ [CHR 0x0A]) = Inr (sort_keys v)"
    by (rule plain_text.loads_dumps_newline) (rule json_ok_sort_keys [OF assms(2)])
  moreover have "canonical_line fr (sort_keys v) = Inr raw"
    using v by (simp add: canonical_line_def encode_state_def ints_printable_sorted sort_keys_again)
  ultimately show ?thesis using assms(3) by (simp add: decode_json_def)
qed


section \<open>What the readers accept\<close>

definition wf_text :: "string \<Rightarrow> bool" where "wf_text t \<longleftrightarrow> t \<noteq> [] \<and> CHR 0x00 \<notin> set t"

definition wf_canonical :: "string \<Rightarrow> bool" where
  "wf_canonical p \<longleftrightarrow> wf_text p \<and> is_absolute p \<and> normpath p = p"

definition wf_digest :: "string \<Rightarrow> bool" where
  "wf_digest h \<longleftrightarrow> length h = SHA256_LENGTH \<and> list_all (\<lambda>c. c \<in> set ''0123456789abcdef'') h"

definition wf_mode :: "int \<Rightarrow> bool" where "wf_mode n \<longleftrightarrow> 0 \<le> n \<and> n \<le> 4095"

lemma wf_digest_text: "wf_digest h \<Longrightarrow> wf_text h"
proof -
  assume h: "wf_digest h"
  have "CHR 0x00 \<notin> set ''0123456789abcdef''" by code_simp
  moreover have "list_all (\<lambda>c. c \<in> X) h \<Longrightarrow> x \<notin> X \<Longrightarrow> x \<notin> set h" for x X by (auto simp: list_all_iff)
  ultimately have "CHR 0x00 \<notin> set h" using h unfolding wf_digest_def by blast
  moreover have "h \<noteq> []" using h unfolding wf_digest_def SHA256_LENGTH_def by (cases h) simp_all
  ultimately show ?thesis by (simp add: wf_text_def)
qed

lemma man_Inr [decode_simps]:
  "man_string v what = Inr t \<longleftrightarrow> v = JStr t \<and> wf_text t"
  "man_integer v what = Inr n \<longleftrightarrow> v = JInt n \<and> wf_mode n"
  "man_boolean v what = Inr b \<longleftrightarrow> v = JBool b"
  "man_sequence v what = Inr vs \<longleftrightarrow> v = JArr vs \<and> length vs \<le> 128"
  "as_object v what = Inr d \<longleftrightarrow> v = JObj d"
  by (cases v; force simp: man_string_def man_integer_def man_boolean_def man_sequence_def as_object_def wf_text_def wf_mode_def)+

lemma man_path_Inr [decode_simps]: "man_path v what = Inr t \<longleftrightarrow> v = JStr t \<and> wf_canonical t"
  by (auto simp: man_path_def man_Inr wf_canonical_def)

lemma hex_check: "(if length t \<noteq> n \<or> (\<exists>c \<in> set t. c \<notin> X) then Inl e else Inr t) = Inr u \<longleftrightarrow>
    u = t \<and> (length t = n \<and> list_all (\<lambda>c. c \<in> X) t)"
  by (auto simp: list_all_iff)

lemma man_hash_Inr [decode_simps]: "man_hash v what = Inr t \<longleftrightarrow> v = JStr t \<and> wf_digest t"
  unfolding man_hash_def bind_r_eq_Inr man_Inr hex_check wf_digest_def [symmetric] using wf_digest_text by blast

lemma exact_fields_Inr [decode_simps]: "exact_fields d ks what = Inr u \<longleftrightarrow> set (dict_keys d) = set ks"
  by (auto simp: exact_fields_def)

lemma man_kind_value [simp]: "man_kind (JStr (ObjectKind_value k)) what = Inr k"
  by (simp add: man_kind_def kind_enum.enum_of_val)

lemma man_content_encoded: "c \<noteq> [] \<Longrightarrow> man_content (JStr (b64_encode c)) = Inr c"
  by (simp add: man_content_def man_string_def b64_empty b64_text b64_round)

lemma b64_bytes_nonempty: "b64_bytes ds k = Some [] \<Longrightarrow> ds = []"
  by (cases "(ds, k)" rule: b64_bytes.cases) (auto split: if_splits)

lemma if_None: "(if b then None else x) = Some y \<Longrightarrow> x = Some y"
  by (cases b) simp_all

lemma b64_decode_nonempty: "b64_decode t = Some [] \<Longrightarrow> t = []"
proof -
  assume t: "b64_decode t = Some []"
  then have "map (\<lambda>c. the (b64_code c)) (takeWhile (\<lambda>c. b64_code c \<noteq> None) t) = []"
    unfolding b64_decode_def Let_def by (rule b64_bytes_nonempty [OF if_None])
  then have "takeWhile (\<lambda>c. b64_code c \<noteq> None) t = []" by simp
  with t have "dropWhile (\<lambda>c. b64_code c \<noteq> None) t = []" by (auto simp: b64_decode_def Let_def split: if_splits)
  with \<open>takeWhile _ t = []\<close> show ?thesis by (metis append_Nil takeWhile_dropWhile_id)
qed


section \<open>The manifest comes back\<close>

text \<open>What belongs to each kind of object.\<close>

definition image_ok :: "(string \<Rightarrow> string) \<Rightarrow> BeforeImage \<Rightarrow> bool" where
  "image_ok sha b \<longleftrightarrow>
     (case bi_kind b of
        ABSENT \<Rightarrow> bi_mode b = None \<and> bi_target b = None \<and> bi_content b = None \<and> bi_sha256 b = None
      | FILE \<Rightarrow> bi_mode b \<noteq> None \<and> bi_target b = None \<and> bi_content b \<noteq> None \<and> bi_sha256 b = map_option sha (bi_content b)
      | SYMLINK \<Rightarrow> bi_mode b \<noteq> None \<and> bi_target b \<noteq> None \<and> bi_content b = None \<and> bi_sha256 b = None)"

definition owned_ok :: "OwnedObject \<Rightarrow> bool" where
  "owned_ok x \<longleftrightarrow> ow_kind x = FILE \<and> ow_sha256 x \<noteq> None \<and> ow_target x = None \<or>
     ow_kind x = SYMLINK \<and> ow_target x \<noteq> None \<and> ow_sha256 x = None"

definition wf_before :: "(string \<Rightarrow> string) \<Rightarrow> BeforeImage \<Rightarrow> bool" where
  "wf_before sha b \<longleftrightarrow> wf_canonical (bi_path b) \<and> pred_option wf_mode (bi_mode b) \<and> pred_option wf_text (bi_target b) \<and>
     pred_option wf_digest (bi_sha256 b) \<and> bi_content b \<noteq> Some [] \<and> image_ok sha b"

definition wf_owned :: "OwnedObject \<Rightarrow> bool" where
  "wf_owned x \<longleftrightarrow> wf_canonical (ow_path x) \<and> wf_mode (ow_mode x) \<and> pred_option wf_text (ow_target x) \<and>
     pred_option wf_digest (ow_sha256 x) \<and> owned_ok x"

lemma BeforeImage_check_Inr: "BeforeImage_check sha b = Inr r \<longleftrightarrow> r = b \<and> image_ok sha b"
  by (auto simp: BeforeImage_check_def image_ok_def split: ObjectKind.split)

lemma OwnedObject_check_Inr: "ow_kind x \<noteq> ABSENT \<Longrightarrow> OwnedObject_check x = Inr r \<longleftrightarrow> r = x \<and> owned_ok x"
  by (cases "ow_kind x") (auto simp: OwnedObject_check_def owned_ok_def)

lemma owned_ok_kind: "owned_ok x \<Longrightarrow> ow_kind x \<noteq> ABSENT"
  by (auto simp: owned_ok_def)

lemma nullable_readers:
  "pred_option wf_text t \<Longrightarrow> nullable (\<lambda>x. man_string x w) (json_option JStr t) = Inr t"
  "pred_option wf_digest h \<Longrightarrow> nullable (\<lambda>x. man_hash x w) (json_option JStr h) = Inr h"
  "pred_option wf_mode n \<Longrightarrow> nullable (\<lambda>x. man_integer x w) (json_option JInt n) = Inr n"
  "c \<noteq> Some [] \<Longrightarrow> nullable man_content (json_option (\<lambda>b. JStr (b64_encode b)) c) = Inr c"
proof -
  show "pred_option wf_text t \<Longrightarrow> nullable (\<lambda>x. man_string x w) (json_option JStr t) = Inr t"
    by (cases t) (simp_all add: nullable_def json_option_def man_Inr)
  show "pred_option wf_digest h \<Longrightarrow> nullable (\<lambda>x. man_hash x w) (json_option JStr h) = Inr h"
    by (cases h) (simp_all add: nullable_def json_option_def man_hash_Inr)
  show "pred_option wf_mode n \<Longrightarrow> nullable (\<lambda>x. man_integer x w) (json_option JInt n) = Inr n"
    by (cases n) (simp_all add: nullable_def json_option_def man_Inr)
  show "c \<noteq> Some [] \<Longrightarrow> nullable man_content (json_option (\<lambda>b. JStr (b64_encode b)) c) = Inr c"
    by (cases c) (simp_all add: nullable_def json_option_def man_content_encoded)
qed

lemma sort_option_leaf [simp]: "sort_keys (json_option JInt n) = json_option JInt n"
  by (cases n) (simp_all add: json_option_def)

lemma nullable_wf:
  "nullable (\<lambda>x. man_string x w) v = Inr t \<Longrightarrow> pred_option wf_text t"
  "nullable (\<lambda>x. man_hash x w) v = Inr h \<Longrightarrow> pred_option wf_digest h"
  "nullable (\<lambda>x. man_integer x w) v = Inr n \<Longrightarrow> pred_option wf_mode n"
  "nullable man_content v = Inr c \<Longrightarrow> c \<noteq> Some []"
proof -
  show "nullable (\<lambda>x. man_string x w) v = Inr t \<Longrightarrow> pred_option wf_text t"
    by (cases v) (auto simp: nullable_def man_Inr)
  show "nullable (\<lambda>x. man_hash x w) v = Inr h \<Longrightarrow> pred_option wf_digest h"
    by (cases v) (auto simp: nullable_def man_hash_Inr)
  show "nullable (\<lambda>x. man_integer x w) v = Inr n \<Longrightarrow> pred_option wf_mode n"
    by (cases v) (auto simp: nullable_def man_Inr)
  have "man_content v = Inr d \<Longrightarrow> d \<noteq> []" for d
    by (auto simp: man_content_def man_Inr wf_text_def split: sum.splits option.splits dest: b64_decode_nonempty)
  then show "nullable man_content v = Inr c \<Longrightarrow> c \<noteq> Some []"
    by (cases v) (auto simp: nullable_def)
qed


lemma permuted:
  "{c, s, k, l, m, p} = {p, k, m, l, c, s}" "{s, k, l, m, p} = {p, k, m, s, l}" "{c, m, p} = {p, c, m}" "{h, r, t} = {r, t, h}"
  by auto

interpretation before_codec: dict_codec "\<lambda>b. sort_keys (before_to_dict b)" "decode_before sha" "wf_before sha"
proof
  show "decode_before sha (sort_keys (before_to_dict b)) = Inr b" if "wf_before sha b" for b
    using that
    by (cases b) (simp add: decode_before_def before_to_dict_def decode_simps dict_keys_def nullable_readers wf_before_def
      BeforeImage_check_Inr, rule permuted)
  show "wf_before sha b" if "decode_before sha v = Inr b" for v b
    using that by (clarsimp simp: decode_before_def decode_simps BeforeImage_check_Inr wf_before_def nullable_wf)
qed (simp add: before_to_dict_def)

interpretation owned_codec: dict_codec "\<lambda>x. sort_keys (owned_to_dict x)" decode_owned wf_owned
proof
  show "decode_owned (sort_keys (owned_to_dict x)) = Inr x" if "wf_owned x" for x
    using that owned_ok_kind [of x]
    by (cases x) (simp add: decode_owned_def owned_to_dict_def decode_simps dict_keys_def nullable_readers wf_owned_def
      OwnedObject_check_Inr, rule permuted)
  show "wf_owned x" if "decode_owned v = Inr x" for v x
    using that by (clarsimp simp: decode_owned_def decode_simps OwnedObject_check_Inr wf_owned_def nullable_wf)
qed (simp add: owned_to_dict_def)

definition wf_marker :: "MarkerIdentity \<Rightarrow> bool" where
  "wf_marker k \<longleftrightarrow> wf_canonical (mk_path k) \<and> wf_digest (mk_sha256 k) \<and> wf_mode (mk_mode k)"

definition wf_chooser :: "(string \<Rightarrow> string) \<Rightarrow> ChooserOwnership \<Rightarrow> bool" where
  "wf_chooser sha c \<longleftrightarrow> wf_before sha (co_original c) \<and> pred_option (wf_before sha) (co_post c)"

lemma decode_marker_encoded:
  assumes "wf_marker k"
  shows "\<exists>d. sort_keys (marker_to_dict k) = JObj d \<and> decode_marker d = Inr k"
  using assms
  by (cases k) (simp add: marker_to_dict_def decode_marker_def decode_simps dict_keys_def wf_marker_def, rule permuted)

lemma decode_chooser_encoded:
  assumes "wf_chooser sha c"
  shows "\<exists>d. sort_keys (chooser_to_dict c) = JObj d \<and> decode_chooser sha d = Inr c"
  using assms
  by (cases c) (simp add: chooser_to_dict_def decode_chooser_def decode_simps dict_keys_def wf_chooser_def
    sort_keys_option before_codec.dec_enc before_codec.nullable_dec_enc, rule permuted)


definition wf_manifest :: "(string \<Rightarrow> string) \<Rightarrow> LifecyclePaths \<Rightarrow> int \<Rightarrow> InstallManifest \<Rightarrow> bool" where
  "wf_manifest sha paths uid m \<longleftrightarrow>
     list_all wf_text [im_installer_version m, im_application_version m, im_install_id m, im_generation_id m] \<and>
     CHR ''/'' \<notin> set (im_generation_id m) \<and> im_generation_id m \<notin> {''.'', ''..''} \<and>
     im_roots m = expected_roots paths uid \<and>
     list_all wf_canonical [data_root paths, config_root paths, state_root paths, bin_root paths] \<and>
     wf_marker (im_marker m) \<and> marker_check paths (im_generation_id m) (im_marker m) = Inr () \<and>
     wf_chooser sha (im_chooser m) \<and> chooser_check paths (im_chooser m) = Inr () \<and>
     list_all wf_owned (im_owned m) \<and> length (im_owned m) \<le> 128 \<and>
     list_all (wf_before sha) (im_rollback_images m) \<and> length (im_rollback_images m) \<le> 128 \<and>
     list_all wf_canonical (im_created_parents m) \<and> length (im_created_parents m) \<le> 128 \<and>
     pred_option wf_owned (im_bash_backup m) \<and> manifest_check paths m = Inr m"

lemma json_ok_options:
  "json_ok fr (json_option JInt n) = ints_printable (json_option JInt n)" "json_ok fr (json_option JStr t)"
  "json_ok fr (json_option (\<lambda>b. JStr (f b)) c)"
proof -
  show "json_ok fr (json_option JInt n) = ints_printable (json_option JInt n)" by (cases n) (simp_all add: json_option_def)
  show "json_ok fr (json_option JStr t)" by (cases t) (simp_all add: json_option_def)
  show "json_ok fr (json_option (\<lambda>b. JStr (f b)) c)" by (cases c) (simp_all add: json_option_def)
qed

lemma json_ok_before: "ints_printable (before_to_dict b) \<Longrightarrow> json_ok fr (before_to_dict b)"
  by (simp add: before_to_dict_def json_ok_options)

lemma json_ok_owned: "ints_printable (owned_to_dict x) \<Longrightarrow> json_ok fr (owned_to_dict x)"
  by (simp add: owned_to_dict_def json_ok_options)

lemma json_ok_option: "(\<And>x. ints_printable (f x) \<Longrightarrow> json_ok fr (f x)) \<Longrightarrow> ints_printable (json_option f y) \<Longrightarrow> json_ok fr (json_option f y)"
  by (cases y) (simp_all add: json_option_def)

lemma json_ok_manifest:
  "im_roots m = expected_roots paths uid \<Longrightarrow> ints_printable (manifest_to_dict m) \<Longrightarrow> json_ok fr (manifest_to_dict m)"
  by (simp add: manifest_to_dict_def expected_roots_def marker_to_dict_def chooser_to_dict_def json_ok_before json_ok_owned
      json_ok_option)

lemma roots_decode:
  assumes "list_all wf_canonical [data_root paths, config_root paths, state_root paths, bin_root paths]"
  shows "decode_roots paths uid (sort_dict (expected_roots paths uid)) = Inr ()"
  using assms
  by (simp add: decode_roots_def decode_simps expected_roots_def dict_keys_def check_all_eq_Inr man_path_Inr)

lemma traverse_sorted:
  "list_all wf_owned xs \<Longrightarrow> traverse decode_owned (map (\<lambda>x. sort_keys (owned_to_dict x)) xs) = Inr xs"
  "list_all (wf_before sha) bs \<Longrightarrow> traverse (decode_before sha) (map (\<lambda>b. sort_keys (before_to_dict b)) bs) = Inr bs"
  "list_all wf_canonical ps \<Longrightarrow> traverse (\<lambda>y. man_path y w) (map JStr ps) = Inr ps"
proof -
  show "list_all wf_owned xs \<Longrightarrow> traverse decode_owned (map (\<lambda>x. sort_keys (owned_to_dict x)) xs) = Inr xs"
    by (rule owned_codec.traverse_dec_enc) (simp add: list_all_iff)
  show "list_all (wf_before sha) bs \<Longrightarrow> traverse (decode_before sha) (map (\<lambda>b. sort_keys (before_to_dict b)) bs) = Inr bs"
    by (rule before_codec.traverse_dec_enc) (simp add: list_all_iff)
  show "list_all wf_canonical ps \<Longrightarrow> traverse (\<lambda>y. man_path y w) (map JStr ps) = Inr ps"
    by (induction ps) (simp_all add: man_path_Inr)
qed

lemma manifest_fields:
  obtains D where "manifest_to_dict m = JObj D" "set (dict_keys D) = set MANIFEST_KEYS" "distinct (map fst D)"
    "map_of D ''schema_version'' = Some (JInt (im_schema_version m))" "map_of D ''roots'' = Some (JObj (im_roots m))"
    "map_of D ''installer_version'' = Some (JStr (im_installer_version m))"
    "map_of D ''application_version'' = Some (JStr (im_application_version m))"
    "map_of D ''install_id'' = Some (JStr (im_install_id m))" "map_of D ''generation_id'' = Some (JStr (im_generation_id m))"
    "map_of D ''marker'' = Some (marker_to_dict (im_marker m))" "map_of D ''chooser'' = Some (chooser_to_dict (im_chooser m))"
    "map_of D ''owned'' = Some (JArr (map owned_to_dict (im_owned m)))"
    "map_of D ''rollback_images'' = Some (JArr (map before_to_dict (im_rollback_images m)))"
    "map_of D ''created_parents'' = Some (JArr (map JStr (im_created_parents m)))"
    "map_of D ''bash_backup'' = Some (json_option owned_to_dict (im_bash_backup m))"
    "map_of D ''bash_enabled'' = Some (JBool (im_bash_enabled m))"
    "map_of D ''autostart_enabled'' = Some (JBool (im_autostart_enabled m))"
proof -
  obtain D where D: "manifest_to_dict m = JObj D" by (simp add: manifest_to_dict_def)
  show thesis
    by (rule that [OF D]) (use D in \<open>simp_all add: manifest_to_dict_def dict_keys_def MANIFEST_KEYS_def\<close>, auto)
qed

lemma manifest_read_back:
  assumes m: "wf_manifest sha paths uid m" and raw: "manifest_to_bytes fr m = Inr raw"
  shows "manifest_from_bytes fr sha raw paths uid = Inr (m\<lparr>im_roots := sort_dict (im_roots m)\<rparr>)"
proof -
  have s: "im_schema_version m = MANIFEST_SCHEMA" "canonical_line fr (manifest_to_dict m) = Inr raw" "length raw \<le> MAX_PAYLOAD_BYTES"
    using raw by (auto simp: manifest_to_bytes_def split: if_splits)
  have roots: "im_roots m = expected_roots paths uid" using m by (simp add: wf_manifest_def)
  have "ints_printable (manifest_to_dict m)" using s(2) by (simp add: canonical_line_def encode_state_Inr)
  from decode_canonical [OF s(2) json_ok_manifest [OF roots this] s(3)]
  have d: "decode_json fr raw = Inr (sort_keys (manifest_to_dict m))" .
  obtain k where k: "sort_keys (marker_to_dict (im_marker m)) = JObj k" "decode_marker k = Inr (im_marker m)"
    using decode_marker_encoded [of "im_marker m"] m by (auto simp: wf_manifest_def)
  obtain c where c: "sort_keys (chooser_to_dict (im_chooser m)) = JObj c" "decode_chooser sha c = Inr (im_chooser m)"
    using decode_chooser_encoded [of sha "im_chooser m"] m by (auto simp: wf_manifest_def)
  have check: "manifest_check paths (m\<lparr>im_roots := r\<rparr>) = Inr (m\<lparr>im_roots := r\<rparr>)" for r
    using m by (auto simp: wf_manifest_def manifest_check_def)
  have saved: "nullable decode_owned (sort_keys (json_option owned_to_dict (im_bash_backup m))) = Inr (im_bash_backup m)"
    using m owned_codec.nullable_dec_enc [of "im_bash_backup m"] by (simp add: wf_manifest_def sort_keys_option)
  obtain D where D: "manifest_to_dict m = JObj D" "set (dict_keys D) = set MANIFEST_KEYS" "distinct (map fst D)"
    and f: "map_of D ''schema_version'' = Some (JInt (im_schema_version m))" "map_of D ''roots'' = Some (JObj (im_roots m))"
    "map_of D ''installer_version'' = Some (JStr (im_installer_version m))"
    "map_of D ''application_version'' = Some (JStr (im_application_version m))"
    "map_of D ''install_id'' = Some (JStr (im_install_id m))" "map_of D ''generation_id'' = Some (JStr (im_generation_id m))"
    "map_of D ''marker'' = Some (marker_to_dict (im_marker m))" "map_of D ''chooser'' = Some (chooser_to_dict (im_chooser m))"
    "map_of D ''owned'' = Some (JArr (map owned_to_dict (im_owned m)))"
    "map_of D ''rollback_images'' = Some (JArr (map before_to_dict (im_rollback_images m)))"
    "map_of D ''created_parents'' = Some (JArr (map JStr (im_created_parents m)))"
    "map_of D ''bash_backup'' = Some (json_option owned_to_dict (im_bash_backup m))"
    "map_of D ''bash_enabled'' = Some (JBool (im_bash_enabled m))"
    "map_of D ''autostart_enabled'' = Some (JBool (im_autostart_enabled m))"
    using manifest_fields by blast
  have keys: "set (dict_keys (sort_dict D)) = set MANIFEST_KEYS" using D(2) by simp
  have m': "list_all wf_canonical [data_root paths, config_root paths, state_root paths, bin_root paths]" using m by (simp add: wf_manifest_def)
  have same: "m\<lparr>im_roots := r\<rparr> = \<lparr>im_schema_version = MANIFEST_SCHEMA, im_installer_version = im_installer_version m,
      im_application_version = im_application_version m, im_install_id = im_install_id m, im_generation_id = im_generation_id m,
      im_roots = r, im_marker = im_marker m, im_owned = im_owned m, im_created_parents = im_created_parents m,
      im_bash_enabled = im_bash_enabled m, im_autostart_enabled = im_autostart_enabled m, im_chooser = im_chooser m,
      im_rollback_images = im_rollback_images m, im_bash_backup = im_bash_backup m\<rparr>" for r
    using s(1) by (cases m) simp
  show ?thesis
    using m s(1) roots check [of "sort_dict (im_roots m)", unfolded same]
    unfolding same
    by (simp add: manifest_from_bytes_def d D(1) decode_simps keys D(2,3) f k c saved roots_decode [OF m'] traverse_sorted comp_def
        wf_manifest_def del: sort_keys.simps(2))
qed


text \<open>An installation in a home directory, with an image of a setting that was there before.\<close>

definition demo_sha :: "string \<Rightarrow> string" where "demo_sha c = replicate 64 CHR ''a''"

definition demo_paths :: LifecyclePaths where "demo_paths = projr (resolve_lifecycle_paths (\<lambda>_. None) ''/h'')"

definition demo_link :: "string \<Rightarrow> string \<Rightarrow> OwnedObject" where
  "demo_link p t = \<lparr>ow_path = p, ow_kind = SYMLINK, ow_mode = 511, ow_sha256 = None, ow_target = Some t\<rparr>"

definition demo_manifest :: "string \<Rightarrow> InstallManifest" where
  "demo_manifest content =
     (let gen = path_join (generations demo_paths) ''g'' in
      \<lparr>im_schema_version = 2, im_installer_version = ''1.0'', im_application_version = ''0.1.0'', im_install_id = ''i'',
       im_generation_id = ''g'', im_roots = expected_roots demo_paths 1000,
       im_marker = \<lparr>mk_path = path_join gen ''.termrecall-generation.json'', mk_sha256 = demo_sha [], mk_mode = 384\<rparr>,
       im_owned = demo_link (current_link demo_paths) gen #
         map (\<lambda>l. demo_link l (path_join (current_link demo_paths) (''venv/bin/'' @ path_name l))) (command_links demo_paths),
       im_created_parents = [], im_bash_enabled = False, im_autostart_enabled = True,
       im_chooser =
         \<lparr>co_original = \<lparr>bi_path = chooser demo_paths, bi_kind = FILE, bi_mode = Some 420, bi_target = None, bi_content = Some content,
             bi_sha256 = Some (demo_sha content)\<rparr>,
          co_post = None, co_changed = False\<rparr>,
       im_rollback_images = [], im_bash_backup = None\<rparr>)"

lemma pred_option_eval [code]: "pred_option P None \<longleftrightarrow> True" "pred_option P (Some x) \<longleftrightarrow> P x"
  by simp_all

lemma demo_manifest_wf: "wf_manifest demo_sha demo_paths 1000 (demo_manifest ''x'')"
  by code_simp

lemma demo_length: "length (utf8_encode (dumps (\<lambda>_. ''0.0'') (sort_keys (manifest_to_dict (demo_manifest ''x''))))) < 4000"
  by code_simp

lemma demo_manifest_bytes: "\<exists>raw. manifest_to_bytes (\<lambda>_. ''0.0'') (demo_manifest ''x'') = Inr raw"
proof -
  have "ints_printable (manifest_to_dict (demo_manifest ''x''))" by code_simp
  moreover have "im_schema_version (demo_manifest ''x'') = MANIFEST_SCHEMA"
    by (simp add: demo_manifest_def MANIFEST_SCHEMA_def Let_def)
  moreover have "\<not> Suc (length (utf8_encode (dumps (\<lambda>_. ''0.0'') (sort_keys (manifest_to_dict (demo_manifest ''x'')))))) > MAX_PAYLOAD_BYTES"
    using demo_length by (simp add: MAX_PAYLOAD_BYTES_def)
  ultimately show ?thesis by (simp add: manifest_to_bytes_def canonical_line_def encode_state_def raise_if_def)
qed

text \<open>C23: a manifest that keeps the rules of the installer and fits the limit is read back from its canonical bytes as it was
  written (the dictionary of roots in the order of its keys).\<close>
theorem manifest_roundtrip:
  assumes "wf_manifest sha paths uid m" "manifest_to_bytes fr m = Inr raw"
  shows "manifest_from_bytes fr sha raw paths uid = Inr (m\<lparr>im_roots := sort_dict (im_roots m)\<rparr>)"
  using assms by (rule manifest_read_back)

theorem manifest_roundtrip_witness:
  "\<exists>raw. manifest_to_bytes (\<lambda>_. ''0.0'') (demo_manifest ''x'') = Inr raw \<and>
     manifest_from_bytes (\<lambda>_. ''0.0'') demo_sha raw demo_paths 1000 =
       Inr ((demo_manifest ''x'')\<lparr>im_roots := sort_dict (im_roots (demo_manifest ''x''))\<rparr>)"
  using demo_manifest_bytes manifest_roundtrip [OF demo_manifest_wf] by blast

end
