(* ===== verification/Consent.thy ===== *)
theory Consent
  imports Cli
begin

text \<open>
  The command line joined with the client and the service: what a user has to answer before a command is run again,
  and what happens when the service cannot be reached.
\<close>

section \<open>What a request changes in the service\<close>

lemma map_JStr: "map JStr xs = map JStr ys \<longleftrightarrow> xs = ys"
  by (rule inj_map_eq_map) (simp add: inj_def)

lemma sent_restore:
  assumes "encode_request r = Inr raw" "(\<exists>w a b. r = RestoreExecuteRequest w a b) \<or>
    (\<exists>w a b. r = RestoreRetryRequest w a b) \<or> (\<exists>w a. r = RestoreListRequest w a)"
  shows "decode_request raw = Inr r"
proof -
  obtain p y where p: "request_to_dict r = Inr p" and l: "encode_json_line p MAX_MESSAGE_BYTES ''request'' = Inr raw"
    and y: "decode_request raw = Inr y" using assms(1) by (auto simp: encode_request_def)
  have "decode_json_line raw MAX_MESSAGE_BYTES ''request'' = Inr p"
    using decode_encoded_line [OF l] request_line.enc_plain [OF p] by blast
  then have d: "decode_request_payload p = Inr y" and raw: "decode_request raw = decode_request_payload p"
    using y by (simp_all add: decode_request_def)
  have "wf_request r"
    using d p assms(2) by (auto simp: decode_execute_def decode_retry_def decode_restore_list_def payload_simps id_list_Inr read_id_list_Inr
        restore_list_keys map_JStr split: option.splits if_splits) blast
  then show ?thesis unfolding raw using p by (rule request_dec_enc)
qed

lemma recv_server: "sk_server (snd (net_recv (socket_network sv peer chunk) k n)) = sk_server n"
  by (simp add: socket_network_def Let_def split: option.split)

lemma client_receive_server:
  "sk_server (snd (client_receive (socket_network sv peer chunk) raw n)) = sk_server n"
proof (induction "socket_network sv peer chunk" raw n rule: client_receive.induct)
  case (1 raw n)
  obtain x m where r: "net_recv (socket_network sv peer chunk) (MAX_RESPONSE_BYTES + 1 - length raw) n = (x, m)" by fastforce
  with recv_server [of sv peer chunk "MAX_RESPONSE_BYTES + 1 - length raw" n] have "sk_server m = sk_server n" by simp
  with "1" [OF _ r [symmetric]] r show ?case
    by (subst client_receive.simps) (cases x, simp_all)
qed

lemma receive_response_server: "sk_server (snd (receive_response (socket_network sv peer chunk) n)) = sk_server n"
proof -
  obtain x m where r: "client_receive (socket_network sv peer chunk) [] n = (x, m)" by fastforce
  with client_receive_server [of sv peer chunk "[]" n] have "sk_server m = sk_server n" by simp
  moreover obtain y k where "net_recv (socket_network sv peer chunk) 1 m = (y, k)" by fastforce
  moreover from this recv_server [of sv peer chunk 1 m] have "sk_server k = sk_server m" by simp
  ultimately show ?thesis using r by (cases x; cases y) (simp_all add: receive_response_def bind_s_run)
qed

lemma client_request_server:
  fixes sv p chunk
  defines "w \<equiv> socket_network sv (Some (p, sv_uid sv)) chunk"
  assumes "\<And>raw. encode_request req = Inr raw \<Longrightarrow> decode_request raw = Inr req"
  shows "sk_server (snd (client_request w req n)) \<in> {sk_server n, snd (dispatch_request sv (Some p) req (sk_server n))}"
proof (cases "encode_request req")
  case (Inl e)
  then show ?thesis by (simp add: client_request_def bind_s_run)
next
  case (Inr raw)
  from assms(2) [OF Inr] have d: "decode_request raw = Inr req" .
  then have ne: "raw \<noteq> []" using request_line.read_line_wf [of raw req] by (auto simp: decode_request_line)
  obtain r t where rt: "dispatch_request sv (Some p) req (sk_server n) = (r, t)" by fastforce
  from serve_line_answer [OF d ne rt HOL.refl] have "serve_line sv (Some (p, sv_uid sv)) raw (sk_server n) = (answer_line r, t)" .
  then obtain m where m: "net_connect w n = (Inr (), n\<lparr>sk_pending := [], sk_closed := False\<rparr>)"
    "net_send w raw (n\<lparr>sk_pending := [], sk_closed := False\<rparr>) = (Inr (), m)" "sk_server m = t"
    by (simp add: w_def socket_network_def)
  obtain x k where k: "receive_response w m = (x, k)" by fastforce
  with receive_response_server [of sv "Some (p, sv_uid sv)" chunk m] m(3) have "sk_server k = t" by (simp add: w_def)
  then show ?thesis using Inr m k rt by (cases x) (simp_all add: client_request_def bind_s_run catch_def)
qed

lemma list_launches_nothing:
  "srv_launched (snd (dispatch_request sv peer (RestoreListRequest a b) s)) = srv_launched s"
proof -
  obtain x t where d: "dispatch_request sv peer (RestoreListRequest a b) s = (x, t)" by fastforce
  from dispatch_launches [OF d] show ?thesis unfolding d by (auto simp: requested_def)
qed


section \<open>What a listing says\<close>

text \<open>What survives of an item on its way to the client: all of this but the provenance of the display.\<close>

definition same_offer :: "RecoveryItemView \<Rightarrow> RecoveryItemView \<Rightarrow> bool" where
  "same_offer i j \<longleftrightarrow> v_item_id j = v_item_id i \<and> v_resume_command j = v_resume_command i \<and>
     v_replay_display j = map_option wire_display (v_replay_display i)"

lemma item_read_back:
  assumes "item_dict i = Inr v" "read_item v = Inr j"
  shows "same_offer i j"
proof -
  have display: "v_replay_display i = None \<or> (\<exists>s. v_replay_display i = Some (RedactedDisplay s))"
    using assms(1) by (auto simp: item_dict_def split: option.splits ReplayDisplay.splits)
  from assms display show ?thesis
    by (auto simp: item_dict_def same_offer_def read_item_def exact_Inr dict_keys_def field_Inr read_id_Inr
        read_string_Inr nullable_display_Inr)
qed

lemma readers_kind:
  "read_register_response d = Inr y \<Longrightarrow> \<exists>c n. y = RegisterResponse c n" "read_event_response d = Inr y \<Longrightarrow> \<exists>n. y = EventResponse n"
  "read_status_response d = Inr y \<Longrightarrow> \<exists>u. y = StatusResponse u" "read_snapshot_response d = Inr y \<Longrightarrow> \<exists>n. y = SnapshotResponse n"
  "read_restore_result_response d = Inr y \<Longrightarrow> \<exists>w a o' i. y = RestoreResultResponse w a o' i"
  "read_discard_response d = Inr y \<Longrightarrow> \<exists>w. y = DiscardResponse w"
  by (auto simp: read_register_response_def read_event_response_def read_status_response_def
    read_snapshot_response_def read_restore_result_response_def read_discard_response_def)

lemma decoded_listing_ok:
  assumes "decode_response_payload p = Inr (RestoreListResponse w vs ds)"
  shows "get p ''ok'' = JBool True"
proof -
  have "read_error_response p \<noteq> Inr (RestoreListResponse w vs ds)"
    by (auto simp: read_error_response_def)
  with assms show ?thesis
    by (cases "get p ''ok''") (auto simp: decode_response_payload_def read_boolean_def split: if_splits)
qed

lemma listing_read_back:
  assumes "response_to_dict r = Inr p" "decode_response_payload p = Inr (RestoreListResponse w vs ds)"
  shows "\<exists>its ds'. r = RestoreListResponse w its ds' \<and> list_all2 same_offer its vs"
proof (cases r)
  case (RestoreListResponse w' its ds')
  from assms(1) RestoreListResponse obtain xs where xs: "traverse item_dict its = Inr xs"
    and p: "p = ok_head ''restore_list'' @ [(''workspace_id'', json_option JStr w'), (''items'', JArr xs),
       (''diagnostics'', JArr (map text_json ds'))]"
    by (auto simp: bounded_typed_sequence_def split: if_splits)
  from assms(2) have "object_list (JArr xs) ''items'' read_item v_item_id = Inr vs \<and> w = w'"
    unfolding p ok_head_def append_Cons append_Nil
    by (cases w') (auto simp: ok_dispatches read_restore_list_response_def response_simps nullable_def json_option_def)
  then have "traverse read_item xs = Inr vs" "w = w'" by (auto simp: object_list_def split: if_splits)
  with xs have "list_all2 same_offer its vs"
    using item_read_back by (fastforce simp: traverse_eq_Inr list_all2_conv_all_nth)
  with RestoreListResponse \<open>w = w'\<close> show ?thesis by blast
next
  case (ErrorResponse k t)
  with assms(1) have "get p ''ok'' = JBool False" by (auto simp: get_def dict_get_def)
  with decoded_listing_ok [OF assms(2)] show ?thesis by simp
next
  case (StatusResponse u)
  with assms obtain q where "p = ok_head ''status'' @ q" by (auto simp: bounded_typed_sequence_def split: if_splits)
  with assms(2) show ?thesis by (auto simp: head_dispatches dest: readers_kind)
next
  case (RestoreResultResponse w a outs ids)
  with assms obtain q where "p = ok_head ''restore_result'' @ q" by (auto split: if_splits)
  with assms(2) show ?thesis by (auto simp: head_dispatches dest: readers_kind)
qed (use assms in \<open>auto simp: head_dispatches dest: readers_kind\<close>)

lemma listing_answered:
  assumes "decode_response (answer_line r) = Inr (RestoreListResponse w vs ds)"
  shows "\<exists>its ds'. r = Inr (RestoreListResponse w its ds') \<and> list_all2 same_offer its vs"
proof -
  define x where "x = (case r of Inl _ \<Rightarrow> error_response INTERNAL_ERROR | Inr y \<Rightarrow> y)"
  have "decode_response (write_response (error_response c)) \<noteq> Inr (RestoreListResponse w vs ds)" for c
    using write_error [of c] by (simp add: error_response_def)
  moreover have "write_response (error_response INTERNAL_ERROR) = FALLBACK_ERROR_BYTES"
    using fallback_encodes by (auto simp: write_response_def)
  moreover have "decode_response (write_response x) = Inr (RestoreListResponse w vs ds)" using assms by (simp add: answer_line_def x_def)
  ultimately have "write_response x \<noteq> FALLBACK_ERROR_BYTES" by metis
  then have "encode_response x = Inr (write_response x)" by (auto simp: write_response_def split: sum.splits if_splits)
  then obtain p where p: "response_to_dict x = Inr p"
    "encode_json_line p MAX_RESPONSE_BYTES ''response'' = Inr (write_response x)" by (auto simp: encode_response_def)
  have "decode_json_line (write_response x) MAX_RESPONSE_BYTES ''response'' = Inr p"
    using decode_encoded_line [OF p(2)] response_line.enc_plain [OF p(1)] by blast
  with assms have "decode_response_payload p = Inr (RestoreListResponse w vs ds)"
    by (simp add: decode_response_def answer_line_def x_def)
  from listing_read_back [OF p(1) this] show ?thesis by (cases r) (auto simp: x_def error_response_def)
qed

text \<open>The record a listing is made from: the one on file, or the one it has just prepared, written and read back.\<close>

definition listed_record :: "service \<Rightarrow> Server \<Rightarrow> RecoveryRecord \<Rightarrow> bool" where
  "listed_record sv s r \<longleftrightarrow> (\<exists>ds t.
     bind_s (on_store sv load_recovery) (\<lambda>loaded. case loaded of None \<Rightarrow> prepare_record sv | Some r \<Rightarrow> ret (Inr (Some r, []))) s =
       (Inr (Inr (Some r, ds)), t))"

text \<open>
  What a view of an item shows of its recorded command: its very text; and, if it has a resume command, what the resume
  adapter of that command's program built for a session.
\<close>

definition shows_command :: "machine \<Rightarrow> CommandRecord \<Rightarrow> RecoveryItemView \<Rightarrow> bool" where
  "shows_command m c v \<longleftrightarrow>
     (\<exists>t. executable c = Some t \<and> v_replay_display v = Some (DecodedReplayDisplay t)) \<and>
     (v_resume_command v = [] \<or>
      (\<exists>tool cache cache' match session argv. view_executable (Some c) = Inr tool \<and>
         find_resume_adapter (agent_tools m) tool True cache = (Inr (Some match), cache') \<and>
         build_resume_argv match session = Inr argv \<and> v_resume_command v = join '' '' argv))"

lemma display_is_command:
  assumes "from_command_record c = Inr d"
  shows "\<exists>t. d = RedactedDisplay t \<and> executable c = Some t"
proof -
  from assms obtain source k where k: "classify_command source (cmd_sequence c) = Inr k" "disposition (classified k) = REPLAYABLE"
    "executable (classified k) = executable c" "d = RedactedDisplay (display (classified k))"
    by (auto simp: from_command_record_def Let_def split: if_splits)
  from k(1,2) have "executable (classified k) = Some source" "display (classified k) = source"
    by (rule replayable_accepted, simp)+
  with k(3,4) show ?thesis by auto
qed

lemma resume_built:
  assumes "view_resume m dir c rt = (Inr v, rt')" "rv_command v \<noteq> []"
  shows "\<exists>tool cache cache' match session argv. view_executable c = Inr tool \<and>
    find_resume_adapter (agent_tools m) tool True cache = (Inr (Some match), cache') \<and>
    build_resume_argv match session = Inr argv \<and> rv_command v = join '' '' argv"
proof -
  obtain tool where tool: "view_executable c = Inr tool" using assms(1) by (cases "view_executable c") (auto simp: view_resume_def)
  with assms have "tool \<noteq> []" by (auto simp: view_resume_def no_resume_def)
  with assms(1) tool obtain found u where found: "on_probes (find_resume_adapter (agent_tools m) tool True) rt = (Inr found, u)"
    and rest: "(case found of
         None \<Rightarrow> ret no_resume
       | Some match \<Rightarrow>
           bind_s (view_session m tool dir) (\<lambda>(session, summary, count).
           bind_s (lift_s (case build_resume_argv match session of
               Inr argv \<Rightarrow> Inr (join '' '' argv)
             | Inl e \<Rightarrow> if is_ValueError e then Inr [] else Inl e)) (\<lambda>resume_command.
           ret \<lparr>rv_command = resume_command, rv_summary = summary, rv_count = count\<rparr>))) u = (Inr v, rt')"
    by (auto simp: view_resume_def bind_s_Inr)
  with assms(2) obtain match where match: "found = Some match" by (cases found) (auto simp: no_resume_def)
  with found obtain cache cache' where "find_resume_adapter (agent_tools m) tool True cache = (Inr (Some match), cache')"
    by (auto simp: on_probes_def on_part_run)
  moreover from rest match obtain session summary count y where "(case build_resume_argv match session of
               Inr argv \<Rightarrow> Inr (join '' '' argv) | Inl e \<Rightarrow> if is_ValueError e then Inr [] else Inl e) = Inr y"
    and "v = \<lparr>rv_command = y, rv_summary = summary, rv_count = count\<rparr>" by (auto simp: bind_s_Inr split: prod.splits)
  with assms(2) obtain argv where "build_resume_argv match session = Inr argv" "rv_command v = join '' '' argv"
    by (cases "build_resume_argv match session") (auto split: if_splits)
  ultimately show ?thesis using tool by blast
qed

lemma view_shows:
  assumes "recovery_view m i rt = (Inr v, rt')" "v_replay_display v = Some d" "same_offer v u"
  shows "\<exists>c. command (ri_shell i) = Some c \<and> ri_replay_eligible i \<and> shows_command m c u \<and> v_item_id u = ri_item_id i"
proof -
  from assms(1) obtain shown resume rt1 rt2 where
    shown: "(case command (ri_shell i) of
         Some c \<Rightarrow> if ri_replay_eligible i then bind_r (from_command_record c) (\<lambda>d. Inr (Some d)) else Inr None
       | None \<Rightarrow> Inr None) = Inr shown"
    and resume: "view_resume m (ri_directory i) (command (ri_shell i)) rt1 = (Inr resume, rt2)"
    and v: "v_replay_display v = shown" "v_resume_command v = rv_command resume" "v_item_id v = ri_item_id i"
    by (auto simp: recovery_view_def bind_s_Inr)
  from shown v(1) assms(2) obtain c where c: "command (ri_shell i) = Some c" "ri_replay_eligible i" "from_command_record c = Inr d"
    by (auto split: option.splits if_splits)
  from display_is_command [OF c(3)] obtain t where "d = RedactedDisplay t" "executable c = Some t" by blast
  moreover from assms(2,3) v have "v_replay_display u = Some (wire_display d)" "v_resume_command u = rv_command resume"
    "v_item_id u = ri_item_id i" by (simp_all add: same_offer_def)
  ultimately show ?thesis using c resume_built [OF resume] by (auto simp: shows_command_def)
qed

lemma view_all_member:
  "view_all m xs rt = (Inr vs, rt') \<Longrightarrow> v \<in> set vs \<Longrightarrow> \<exists>i \<in> set xs. \<exists>q q'. recovery_view m i q = (Inr v, q')"
  by (induction xs arbitrary: rt vs) (fastforce simp: bind_s_Inr)+

text \<open>An item of a listing is a recorded one, with its command.\<close>

definition offered :: "machine \<Rightarrow> RecoveryRecord \<Rightarrow> RecoveryItemView \<Rightarrow> CommandRecord \<Rightarrow> bool" where
  "offered m r v c \<longleftrightarrow> (\<exists>stored \<in> set (items r). item_id stored = v_item_id v \<and> command (item_shell stored) = Some c) \<and>
     active c \<and> disposition c = REPLAYABLE \<and> shows_command m c v"

lemma listed_offer:
  assumes "dispatch_request sv peer (RestoreListRequest a b) s = (Inr (RestoreListResponse w its ds), t)"
    "v \<in> set its" "v_replay_display v = Some d" "same_offer v u"
  shows "\<exists>r c. listed_record sv s r \<and> offered (sv_machine sv) r u c"
proof -
  let ?m = "sv_machine sv"
  let ?k = "\<lambda>loaded. case loaded of None \<Rightarrow> prepare_record sv | Some r \<Rightarrow> ret (Inr (Some r, []))"
  let ?stage = "bind_s (on_store sv load_recovery) ?k"
  have "restore_list sv a b s = (Inr (RestoreListResponse w its ds), t)" using assms(1) by simp
  then obtain found s1 where found: "?stage s = (Inr found, s1)"
    and rest: "(case found of
          Inl answer \<Rightarrow> ret answer
        | Inr (None, _) \<Rightarrow> ret (RestoreListResponse None [] [])
        | Inr (Some r, diagnostics) \<Rightarrow> list_record sv r diagnostics a b) s1 = (Inr (RestoreListResponse w its ds), t)"
    unfolding restore_list_def by (auto simp: catch_Inr bind_s_Inr error_response_def split: if_splits)
  have "its = []" if "found = Inl x" for x
    using found that rest by (auto simp: bind_s_Inr prepare_record_def split: option.splits if_splits)
  with assms(2) rest obtain r diagnostics where r: "found = Inr (Some r, diagnostics)"
    "list_record sv r diagnostics a b s1 = (Inr (RestoreListResponse w its ds), t)"
    by (auto split: sum.splits prod.splits option.splits)
  from r(2) assms(2) obtain included workspace rt rt' where ws: "workspace_from_record ?m r (sv_home sv) = Inr workspace"
    and views: "view_all ?m (filter (\<lambda>i. ri_item_id i \<in> set included) (rw_items workspace)) rt = (Inr its, rt')"
    by (auto simp: list_record_def bind_s_Inr on_runtime_def on_part_run included_items_def validate_workspace_def error_response_def
        split: sum.splits option.splits if_splits)
  from view_all_member [OF views assms(2)] obtain i q q' where i: "i \<in> set (rw_items workspace)"
    "recovery_view ?m i q = (Inr v, q')" by auto
  from ws obtain xs where xs: "traverse (\<lambda>stored. recovery_item ?m (sv_home sv) (item_id stored) (item_shell stored)
      (stored_reason (item_reason stored))) (sort_key item_id (items r)) = Inr xs" "rw_items workspace = xs"
    by (auto simp: workspace_from_record_def)
  with i(1) traverse_InrD [OF xs(1)] obtain stored where stored: "stored \<in> set (items r)"
    "recovery_item ?m (sv_home sv) (item_id stored) (item_shell stored) (stored_reason (item_reason stored)) = Inr i" by auto
  then have same: "ri_item_id i = item_id stored" "ri_shell i = item_shell stored" "ri_replay_eligible i = eligible (item_shell stored)"
    by (auto simp: recovery_item_def split: prod.splits)
  from view_shows [OF i(2) assms(3,4)] same obtain c where c: "command (item_shell stored) = Some c" "eligible (item_shell stored)"
    "shows_command ?m c u" "v_item_id u = item_id stored" by auto
  then have "offered ?m r u c" using stored(1) by (auto simp: offered_def eligible_def)
  moreover have "listed_record sv s r" using found r(1) by (auto simp: listed_record_def)
  ultimately show ?thesis by blast
qed

section \<open>What a command prints and reads\<close>

text \<open>An operation that adds to the log; what it adds is related to what it returns.\<close>

definition logs :: "('n console, 'a) act \<Rightarrow> ('a \<Rightarrow> entry list \<Rightarrow> bool) \<Rightarrow> bool" where
  "logs m P \<longleftrightarrow> (\<forall>s a t. m s = (Inr a, t) \<longrightarrow> (\<exists>new. cn_log t = cn_log s @ new \<and> P a new))"

lemma logsD: "logs m P \<Longrightarrow> m s = (Inr a, t) \<Longrightarrow> \<exists>new. cn_log t = cn_log s @ new \<and> P a new"
  by (simp add: logs_def)

lemma logs_bind:
  assumes "logs m P" "\<And>a l. P a l \<Longrightarrow> logs (f a) (\<lambda>b new. Q b (l @ new))"
  shows "logs (bind_s m f) Q"
  unfolding logs_def
proof (intro allI impI)
  fix s b u assume "bind_s m f s = (Inr b, u)"
  then obtain a t where a: "m s = (Inr a, t)" "f a t = (Inr b, u)" by (auto simp: bind_s_Inr)
  from logsD [OF assms(1) a(1)] obtain l where l: "cn_log t = cn_log s @ l" "P a l" by blast
  from logsD [OF assms(2) [OF l(2)] a(2)] l(1) show "\<exists>new. cn_log u = cn_log s @ new \<and> Q b new" by auto
qed

lemma logs_weaken: "logs m P \<Longrightarrow> (\<And>a l. P a l \<Longrightarrow> Q a l) \<Longrightarrow> logs m Q"
  by (fastforce simp: logs_def)

lemma logs_ret: "Q a [] \<Longrightarrow> logs (ret a) Q"
  by (simp add: logs_def)

lemma logs_raise: "logs (raise_s e) Q" "logs (lift_s (Inl e)) Q"
  by (simp_all add: logs_def)

lemma logs_lift: "(\<And>a. r = Inr a \<Longrightarrow> Q a []) \<Longrightarrow> logs (lift_s r) Q"
  by (simp add: logs_def)

lemma logs_gets: "(\<And>s. Q (f s) []) \<Longrightarrow> logs (gets f) Q"
  by (simp add: logs_def)

lemma logs_if: "(b \<Longrightarrow> logs m Q) \<Longrightarrow> (\<not> b \<Longrightarrow> logs n Q) \<Longrightarrow> logs (if b then m else n) Q"
  by simp

lemma logs_print:
  "Q () [Out (t @ [CHR 0x0A])] \<Longrightarrow> logs (say t) Q" "Q () [Out t] \<Longrightarrow> logs (prompt t) Q"
  "Q () [Err (t @ [CHR 0x0A])] \<Longrightarrow> logs (complain t) Q"
  by (simp_all add: logs_def say_def prompt_def complain_def put_entry_def)

lemma logs_runtime: "(\<And>a. Q a []) \<Longrightarrow> logs (on_runtime_of m) Q"
  by (auto simp: logs_def on_runtime_of_def on_part_run)

lemma logs_client: "(\<And>a. Q a []) \<Longrightarrow> logs (on_client m) Q"
  by (auto simp: logs_def on_client_def on_part_run)

lemma logs_clock: "(\<And>a. Q a []) \<Longrightarrow> logs (clock_call d) Q"
  by (auto simp: logs_def clock_call_def)

lemma logs_read: "(\<And>a. Q a [Read a]) \<Longrightarrow> logs read_answer Q"
  by (auto simp: logs_def read_answer_def Let_def split: list.splits typed.splits if_splits)

lemma logs_for_each:
  "(\<And>x. logs (f x) (\<lambda>_ _. True)) \<Longrightarrow> logs (for_each f xs) (\<lambda>_ _. True)"
  by (induction xs) (auto intro: logs_bind logs_ret)

lemma logs_when: "logs m (\<lambda>_ _. True) \<Longrightarrow> logs (when_s b m) (\<lambda>_ _. True)"
  by (cases b) (auto intro: logs_ret)

lemma logs_ago: "logs (ago d t) (\<lambda>_ _. True)"
  unfolding ago_def by (rule logs_bind [OF logs_clock]) (auto intro: logs_ret)

lemma logs_show_session: "logs (show_session d x) (\<lambda>_ _. True)"
  by (cases x) (auto simp: show_session_def Let_def intro!: logs_bind [OF logs_ago] logs_print)

lemma logs_pick_session: "logs (pick_session d matches) (\<lambda>_ _. True)"
proof -
  have "logs (bind_s (say a) (\<lambda>_. bind_s (for_each (show_session d) b) (\<lambda>_. bind_s (prompt c)
      (\<lambda>_. bind_s read_answer (\<lambda>answer. ret (picked matches answer)))))) (\<lambda>_ _. True)" for a b c
    by (intro logs_bind [where P = "\<lambda>_ _. True"] logs_print logs_for_each logs_show_session logs_read logs_ret TrueI)
  then show ?thesis by (auto simp: pick_session_def intro!: logs_ret split: list.splits)
qed

lemma logs_offer_session: "logs (offer_session d v summary n tool) (\<lambda>_ _. True)"
proof -
  have "logs (sessions_of_tool d dir tool) (\<lambda>_ _. True)" for dir
    unfolding sessions_of_tool_def by (intro logs_bind [where P = "\<lambda>_ _. True"] logs_runtime logs_ret TrueI)
  moreover have "logs (resume_argv_for d tool i) (\<lambda>_ _. True)" for i
    unfolding resume_argv_for_def
    by (rule logs_bind [where P = "\<lambda>_ _. True"], rule logs_runtime, simp)
      (auto split: option.splits intro!: logs_raise logs_bind [where P = "\<lambda>_ _. True"] logs_lift logs_ret)
  ultimately show ?thesis
    unfolding offer_session_def
    by (intro logs_bind [where P = "\<lambda>_ _. True"] logs_if logs_ret TrueI logs_when logs_print)
      (auto split: option.splits intro!: logs_ret logs_bind [where P = "\<lambda>_ _. True"] logs_print logs_pick_session)
qed

section \<open>Consent\<close>

definition shown_command :: "RecoveryItemView \<Rightarrow> string" where
  "shown_command v = (case v_replay_display v of None \<Rightarrow> [] | Some t \<Rightarrow> display_text t)"

text \<open>
  The exchange in which the user agrees to an item: the item and its command are printed, then a question, and the
  answer that follows is yes; the empty line agrees to a resume only.
\<close>

definition resume_dialogue :: "RecoveryItemView \<Rightarrow> entry list \<Rightarrow> bool" where
  "resume_dialogue v seg \<longleftrightarrow>
     (\<exists>mid answer. seg = [Out (''Restore item '' @ v_item_id v @ '':'' @ [CHR 0x0A]), Out (''  command: '' @ v_resume_command v @ [CHR 0x0A])] @
        mid @ [Out RESUME_PROMPT, Read answer] \<and> consents True answer)"

definition replay_dialogue :: "RecoveryItemView \<Rightarrow> entry list \<Rightarrow> bool" where
  "replay_dialogue v seg \<longleftrightarrow>
     (\<exists>answer. seg = [Out (''Stored command for '' @ v_item_id v @ '': '' @ shown_command v @ [CHR 0x0A]),
        Out (run_prompt (v_item_id v)), Read answer] \<and> consents False answer)"

definition dialogue :: "RecoveryItemView \<Rightarrow> entry list \<Rightarrow> bool" where
  "dialogue v seg \<longleftrightarrow> (if v_resume_command v \<noteq> [] then resume_dialogue v seg else replay_dialogue v seg)"

lemma logs_then:
  assumes "\<And>s. m s = (Inr a, s\<lparr>cn_log := cn_log s @ [e]\<rparr>)" "logs (f a) (\<lambda>b new. Q b (e # new))"
  shows "logs (bind_s m f) Q"
  by (rule logs_bind [where P = "\<lambda>x l. x = a \<and> l = [e]"]) (use assms in \<open>auto simp: logs_def\<close>)

lemma say_runs: "say t s = (Inr (), s\<lparr>cn_log := cn_log s @ [Out (t @ [CHR 0x0A])]\<rparr>)"
  "prompt t s = (Inr (), s\<lparr>cn_log := cn_log s @ [Out t]\<rparr>)"
  by (simp_all add: say_def prompt_def put_entry_def)

lemma logs_answer:
  assumes "\<And>answer. Q (f answer) [Read answer]"
  shows "logs (bind_s read_answer (\<lambda>answer. ret (f answer))) Q"
  by (rule logs_bind [where P = "\<lambda>a l. l = [Read a]"], rule logs_read, rule HOL.refl, rule logs_ret) (use assms in simp)

lemma logs_replay:
  "logs (bind_s (say line) (\<lambda>_. bind_s (prompt q) (\<lambda>_. bind_s read_answer (\<lambda>answer. ret (consents False answer)))))
    (\<lambda>ok seg. ok \<longrightarrow> (\<exists>answer. seg = [Out (line @ [CHR 0x0A]), Out q, Read answer] \<and> consents False answer))"
  by (rule logs_then [OF say_runs(1)], rule logs_then [OF say_runs(2)], rule logs_answer) blast

lemma logs_resume:
  "logs (bind_s (say a) (\<lambda>_. bind_s (say b) (\<lambda>_. bind_s (offer_session d v summary n tool) (\<lambda>go_on.
      if \<not> go_on then ret False
      else bind_s (prompt RESUME_PROMPT) (\<lambda>_. bind_s read_answer (\<lambda>answer. ret (consents True answer)))))))
    (\<lambda>ok seg. ok \<longrightarrow> (\<exists>mid answer. seg = [Out (a @ [CHR 0x0A]), Out (b @ [CHR 0x0A])] @ mid @ [Out RESUME_PROMPT, Read answer] \<and>
      consents True answer))"
proof (rule logs_then [OF say_runs(1)], rule logs_then [OF say_runs(1)], rule logs_bind [OF logs_offer_session])
  fix go_on l
  show "logs (if \<not> go_on then ret False else bind_s (prompt RESUME_PROMPT) (\<lambda>_. bind_s read_answer (\<lambda>answer. ret (consents True answer))))
    (\<lambda>ok new. ok \<longrightarrow> (\<exists>mid answer. Out (a @ [CHR 0x0A]) # Out (b @ [CHR 0x0A]) # l @ new =
      [Out (a @ [CHR 0x0A]), Out (b @ [CHR 0x0A])] @ mid @ [Out RESUME_PROMPT, Read answer] \<and> consents True answer))"
    by (rule logs_if, rule logs_ret, blast, rule logs_then [OF say_runs(2)], rule logs_answer) simp
qed

lemma shown_replay:
  assumes "resume_display_for_item v = Inr (resume_command, summary, n, tool)" "v_resume_command v = []" "v_replay_display v = Some t"
  shows "(if resume_command \<noteq> [] then resume_command else case v_replay_display v of None \<Rightarrow> ''None'' | Some t \<Rightarrow> display_text t) =
    shown_command v"
  using assms by (auto simp: resume_display_for_item_def shown_command_def Let_def bind_r_def split: sum.splits if_splits)

lemma resume_display_resume:
  "v_resume_command v \<noteq> [] \<Longrightarrow> resume_display_for_item v = Inr (resume_command, summary, n, tool) \<Longrightarrow> resume_command = v_resume_command v"
  by (simp add: resume_display_for_item_def)

lemma approve_item_dialogue:
  assumes "needs_approval v"
  shows "logs (approve_item d v) (\<lambda>ok seg. ok \<longrightarrow> dialogue v seg)"
proof -
  obtain t where t: "v_replay_display v = Some t" using assms by (auto simp: needs_approval_def)
  show ?thesis
    unfolding approve_item_def
  proof (rule logs_bind [where P = "\<lambda>x l. resume_display_for_item v = Inr x \<and> l = []"], rule logs_lift)
    show "resume_display_for_item v = Inr x \<and> [] = []" if "resume_display_for_item v = Inr x" for x using that by simp
    fix x and l :: "entry list" assume x: "resume_display_for_item v = Inr x \<and> l = []"
    obtain resume_command summary n tool where y: "x = (resume_command, summary, n, tool)" by (cases x)
    show "logs (case x of (resume_command, summary, session_count, tool) \<Rightarrow>
        if v_resume_command v \<noteq> [] then
          bind_s (say (''Restore item '' @ v_item_id v @ '':'')) (\<lambda>_.
          bind_s (say (''  command: '' @ resume_command)) (\<lambda>_.
          bind_s (offer_session d v summary session_count tool) (\<lambda>go_on.
          if \<not> go_on then ret False
          else bind_s (prompt RESUME_PROMPT) (\<lambda>_. bind_s read_answer (\<lambda>answer. ret (consents True answer))))))
        else
          bind_s (say (''Stored command for '' @ v_item_id v @ '': '' @
            (if resume_command \<noteq> [] then resume_command else case v_replay_display v of None \<Rightarrow> ''None'' | Some t \<Rightarrow> display_text t))) (\<lambda>_.
          bind_s (prompt (run_prompt (v_item_id v))) (\<lambda>_. bind_s read_answer (\<lambda>answer. ret (consents False answer)))))
        (\<lambda>ok new. ok \<longrightarrow> dialogue v (l @ new))"
    proof (cases "v_resume_command v = []")
      case True
      have "logs (bind_s (say (''Stored command for '' @ v_item_id v @ '': '' @ shown_command v)) (\<lambda>_.
          bind_s (prompt (run_prompt (v_item_id v))) (\<lambda>_. bind_s read_answer (\<lambda>answer. ret (consents False answer)))))
          (\<lambda>ok seg. ok \<longrightarrow> replay_dialogue v seg)"
        by (rule logs_weaken [OF logs_replay], unfold replay_dialogue_def append_assoc, assumption)
      then show ?thesis
        using True x shown_replay [of v resume_command summary n tool t] t unfolding y dialogue_def by (simp only: prod.case simp_thms if_False append_Nil)
    next
      case False
      have "logs (bind_s (say (''Restore item '' @ v_item_id v @ '':'')) (\<lambda>_. bind_s (say (''  command: '' @ v_resume_command v)) (\<lambda>_.
          bind_s (offer_session d v summary n tool) (\<lambda>go_on. if \<not> go_on then ret False
          else bind_s (prompt RESUME_PROMPT) (\<lambda>_. bind_s read_answer (\<lambda>answer. ret (consents True answer)))))))
          (\<lambda>ok seg. ok \<longrightarrow> resume_dialogue v seg)"
        by (rule logs_weaken [OF logs_resume], unfold resume_dialogue_def append_assoc, assumption)
      then show ?thesis
        using False x resume_display_resume [of v resume_command summary n tool] unfolding y dialogue_def
        by (simp only: prod.case simp_thms if_True append_Nil)
    qed
  qed
qed

definition agreed :: "RecoveryItemView list \<Rightarrow> string list \<Rightarrow> entry list \<Rightarrow> bool" where
  "agreed vs approved new \<longleftrightarrow>
     (\<forall>i \<in> set approved. \<exists>v \<in> set vs. v_item_id v = i \<and> (\<exists>a b c. new = a @ b @ c \<and> dialogue v b))"

lemma agreed_later: "agreed vs approved new \<Longrightarrow> agreed (v # vs) approved (l @ new)"
  unfolding agreed_def by (metis append_assoc list.set_intros(2))

lemma agreed_now: "dialogue v l \<Longrightarrow> agreed vs approved new \<Longrightarrow> agreed (v # vs) (v_item_id v # approved) (l @ new)"
  using agreed_later [of vs approved new v l] unfolding agreed_def
  by (metis append_Nil list.set_intros(1) set_ConsD)

lemma approve_items_dialogue:
  "\<forall>v \<in> set vs. needs_approval v \<Longrightarrow> logs (approve_items d vs) (agreed vs)"
proof (induction vs)
  case Nil
  show ?case unfolding approve_items.simps by (rule logs_ret) (simp add: agreed_def)
next
  case (Cons v vs)
  then have v: "needs_approval v" and vs: "\<forall>v \<in> set vs. needs_approval v" by simp_all
  note IH = Cons.IH [OF vs]
  show ?case
    unfolding approve_items.simps
    by (rule logs_bind [OF approve_item_dialogue [OF v]], rule logs_bind [OF IH], rule logs_ret)
      (auto intro: agreed_later agreed_now)
qed

section \<open>Everything before the restore is sent\<close>

text \<open>The service after requests to list.\<close>

fun after_listings :: "service \<Rightarrow> int \<Rightarrow> (string option \<times> string option) list \<Rightarrow> Server \<Rightarrow> Server" where
  "after_listings sv p [] s = s"
| "after_listings sv p ((a, b) # qs) s = after_listings sv p qs (snd (dispatch_request sv (Some p) (RestoreListRequest a b) s))"

lemma after_listings_append: "after_listings sv p (qs @ rs) s = after_listings sv p rs (after_listings sv p qs s)"
  by (induction sv p qs s rule: after_listings.induct) simp_all

lemma after_listings_launches: "srv_launched (after_listings sv p qs s) = srv_launched s"
  by (induction sv p qs s rule: after_listings.induct) (simp_all add: list_launches_nothing del: dispatch_request.simps)

text \<open>What was printed is still there, and the service has only listed.\<close>

definition only_listed :: "service \<Rightarrow> int \<Rightarrow> socket console \<Rightarrow> socket console \<Rightarrow> bool" where
  "only_listed sv p s t \<longleftrightarrow> (\<exists>seen qs. cn_log t = cn_log s @ seen \<and>
     sk_server (cn_net t) = after_listings sv p qs (sk_server (cn_net s)))"

lemma only_listed_same: "cn_net t = cn_net s \<Longrightarrow> cn_log t = cn_log s @ l \<Longrightarrow> only_listed sv p s t"
  unfolding only_listed_def by (metis after_listings.simps(1))

lemma only_listed_trans: "only_listed sv p s t \<Longrightarrow> only_listed sv p t u \<Longrightarrow> only_listed sv p s u"
  unfolding only_listed_def by (metis after_listings_append append_assoc)

lemma keeps_listed: "(\<And>s. only_listed sv p s (snd (m s))) \<Longrightarrow> keeps (only_listed sv p s0) m"
  by (rule keepsI) (blast intro: only_listed_trans)

lemma keeps_console [intro!]:
  "keeps (only_listed sv p s) (say a)" "keeps (only_listed sv p s) (prompt a)" "keeps (only_listed sv p s) (complain a)"
  "keeps (only_listed sv p s) (on_runtime_of m)" "keeps (only_listed sv p s) (clock_call d)"
proof -
  show "keeps (only_listed sv p s) (say a)"
    by (rule keeps_listed, rule only_listed_same [where l = "[Out (a @ [CHR 0x0A])]"]) (simp_all add: say_runs)
  show "keeps (only_listed sv p s) (prompt a)"
    by (rule keeps_listed, rule only_listed_same [where l = "[Out a]"]) (simp_all add: say_runs)
  show "keeps (only_listed sv p s) (complain a)"
    by (rule keeps_listed, rule only_listed_same [where l = "[Err (a @ [CHR 0x0A])]"]) (simp_all add: complain_def put_entry_def)
  show "keeps (only_listed sv p s) (on_runtime_of m)"
    by (rule keeps_listed, rule only_listed_same [where l = "[]"]) (simp_all add: on_runtime_of_def on_part_def split: prod.split)
  show "keeps (only_listed sv p s) (clock_call d)"
    by (rule keeps_listed, rule only_listed_same [where l = "[]"]) (simp_all add: clock_call_def)
qed

lemma keeps_read [intro!]: "keeps (only_listed sv p s0) read_answer"
proof (rule keeps_listed)
  fix s :: "socket console"
  have "cn_net (snd (read_answer s)) = cn_net s" "\<exists>l. cn_log (snd (read_answer s)) = cn_log s @ l"
    by (auto simp: read_answer_def Let_def split: list.splits typed.splits)
  then show "only_listed sv p s (snd (read_answer s))" by (blast intro: only_listed_same)
qed

lemma keeps_for_each [intro]: "(\<And>x. keeps I (f x)) \<Longrightarrow> keeps I (for_each f xs)"
  by (rule triple_for_each)

lemma keeps_request:
  assumes "\<And>raw. encode_request (RestoreListRequest a b) = Inr raw \<Longrightarrow> decode_request raw = Inr (RestoreListRequest a b)"
  shows "keeps (only_listed sv p s0) (on_client (client_request (socket_network sv (Some (p, sv_uid sv)) chunk) (RestoreListRequest a b)))"
proof (rule keeps_listed)
  fix s :: "socket console"
  let ?m = "client_request (socket_network sv (Some (p, sv_uid sv)) chunk) (RestoreListRequest a b)"
  obtain x t where m: "?m (cn_net s) = (x, t)" by fastforce
  with client_request_server [of "RestoreListRequest a b" sv p chunk "cn_net s"] assms
  have "sk_server t = sk_server (cn_net s) \<or> sk_server t = snd (dispatch_request sv (Some p) (RestoreListRequest a b) (sk_server (cn_net s)))"
    by (simp del: dispatch_request.simps)
  then have "\<exists>qs. sk_server t = after_listings sv p qs (sk_server (cn_net s))"
    by (metis after_listings.simps)
  then show "only_listed sv p s (snd (on_client ?m s))"
    using m by (simp add: only_listed_def on_client_def on_part_def)
qed


lemma keeps_list_response [intro!]:
  "keeps (only_listed sv p s0) (list_response (socket_network sv (Some (p, sv_uid sv)) chunk) shown (RestoreListRequest a b))"
proof -
  have "decode_request raw = Inr (RestoreListRequest a b)" if "encode_request (RestoreListRequest a b) = Inr raw" for raw
    by (rule sent_restore [OF that]) blast
  from keeps_request [OF this]
  have "keeps (only_listed sv p s0) (request (socket_network sv (Some (p, sv_uid sv)) chunk) (RestoreListRequest a b))"
    unfolding request_def print_error_def
    by (auto split: option.splits ServiceResponse.splits intro!: keeps_bind keeps_catch)
  then show ?thesis
    unfolding list_response_def by (auto split: option.splits ServiceResponse.splits intro!: keeps_bind keeps_when_s)
qed

lemma keeps_Pair [intro!]: "keeps I (Pair x)"
  by (auto intro: keepsI)

lemma keeps_show_session [intro!]: "keeps (only_listed sv p s0) (show_session d x)"
  by (auto simp: show_session_def ago_def Let_def intro!: keeps_bind split: prod.splits)

lemma keeps_pick [intro!]: "keeps (only_listed sv p s0) (pick_session d matches)"
  by (auto simp: pick_session_def intro!: keeps_bind split: list.splits)

lemma keeps_sessions [intro!]: "keeps (only_listed sv p s0) (sessions_of_tool d dir tool)"
  "keeps (only_listed sv p s0) (resume_argv_for d tool i)"
  by (auto simp: sessions_of_tool_def resume_argv_for_def intro!: keeps_bind split: option.splits)

lemma keeps_approve [intro!]: "keeps (only_listed sv p s0) (approve_item d v)"
  unfolding approve_item_def offer_session_def
  by (auto intro!: keeps_bind keeps_if keeps_when_s split: option.splits prod.splits)

lemma keeps_approvals [intro!]: "keeps (only_listed sv p s0) (approvals d found selected only)"
proof -
  have "keeps (only_listed sv p s0) (approve_items d vs)" for vs
    by (induction vs) (auto intro!: keeps_bind)
  then show ?thesis by (auto simp: approvals_def)
qed

lemma keeps_select [intro!]: "keeps (only_listed sv p s0) (select_items found)"
  unfolding select_items_def by (auto intro!: keeps_bind split: prod.splits)

lemma keeps_approve_selected [intro!]: "keeps (only_listed sv p s0) (approve_selected d args found selected mk)"
  unfolding approve_selected_def refuse_approval_def by (auto intro!: keeps_bind keeps_if)

lemma keeps_choose [intro!]:
  "keeps (only_listed sv p s0) (choose_restore d args k found)"
  "keeps (only_listed sv p s0) (choose_retry d (socket_network sv (Some (p, sv_uid sv)) chunk) args k attempt)"
  unfolding choose_restore_def choose_retry_def
  by (auto intro!: keeps_bind keeps_if split: option.splits)

lemma keeps_choose_request [intro!]:
  "keeps (only_listed sv p s0) (choose_request d (socket_network sv (Some (p, sv_uid sv)) chunk) args k found)"
  unfolding choose_request_def by (auto intro!: keeps_bind keeps_catch keeps_if split: option.splits)

lemma keeps_launch [intro!]: "keeps (only_listed sv p s0) (launch_candidates d chosen)"
proof -
  have "keeps (only_listed sv p s0) (launch_items h chosen)" for h
    by (induction chosen) (auto intro!: keeps_bind keeps_if)
  then show ?thesis
    unfolding launch_candidates_def Let_def by (auto intro!: keeps_bind keeps_if)
qed

lemma keeps_timestamp [intro!]: "keeps (only_listed sv p s0) (restore_from_timestamp d everything)"
proof -
  have "keeps (only_listed sv p s0) (choose_session d c)" for c
    unfolding choose_session_def by (auto intro!: keeps_bind keeps_if split: option.splits)
  then have "keeps (only_listed sv p s0) (choose_sessions d cs)" for cs by (induction cs) (auto intro!: keeps_bind)
  moreover have "keeps (only_listed sv p s0) (candidate_lines d label x)" for label x
    unfolding candidate_lines_def ago_def by (auto intro!: keeps_bind keeps_when_s split: prod.splits)
  moreover have "keeps (only_listed sv p s0) (choose_numbers everything n)" for n
    unfolding choose_numbers_def by (auto intro!: keeps_bind keeps_if split: option.splits sum.splits)
  ultimately show ?thesis
    unfolding restore_from_timestamp_def by (auto intro!: keeps_bind keeps_if split: sum.splits)
qed


section \<open>The restore itself\<close>

text \<open>
  What is sent approves only items the user has agreed to in what was seen, each shown as a view that is legitimate: an
  item of a listing the service has made in this session, with its recorded command.
\<close>

definition shown_view :: "service \<Rightarrow> int \<Rightarrow> Server \<Rightarrow> RecoveryItemView \<Rightarrow> bool" where
  "shown_view sv p s v \<longleftrightarrow>
     (\<exists>qs r c. listed_record sv (after_listings sv p qs s) r \<and> offered (sv_machine sv) r v c)"

definition agreed_item :: "(RecoveryItemView \<Rightarrow> bool) \<Rightarrow> entry list \<Rightarrow> string \<Rightarrow> bool" where
  "agreed_item V seen i \<longleftrightarrow> (\<exists>v a seg b. V v \<and> v_item_id v = i \<and> seen = a @ seg @ b \<and> dialogue v seg)"

definition consenting :: "(RecoveryItemView \<Rightarrow> bool) \<Rightarrow> restore_args \<Rightarrow> entry list \<Rightarrow> string list \<Rightarrow> bool" where
  "consenting V args seen approved \<longleftrightarrow> list_all (\<lambda>i. \<not> ra_directory_only args \<and> agreed_item V seen i) approved"

fun approved_by :: "ServiceRequest \<Rightarrow> string list option" where
  "approved_by (RestoreExecuteRequest w selected approved) = Some approved"
| "approved_by (RestoreRetryRequest w attempt approved) = Some approved"
| "approved_by _ = None"

definition chosen_with_consent ::
  "(RecoveryItemView \<Rightarrow> bool) \<Rightarrow> restore_args \<Rightarrow> int + ServiceRequest \<Rightarrow> entry list \<Rightarrow> bool" where
  "chosen_with_consent V args c seen \<longleftrightarrow>
     (case c of Inl _ \<Rightarrow> True | Inr req \<Rightarrow> \<exists>approved. approved_by req = Some approved \<and> consenting V args seen approved)"

lemma agreed_item_more: "agreed_item V seen i \<Longrightarrow> agreed_item V (a @ seen @ b) i"
  unfolding agreed_item_def by (metis append_assoc)

lemma consenting_more: "consenting V args seen approved \<Longrightarrow> consenting V args (a @ seen @ b) approved"
  by (auto simp: consenting_def list_all_iff intro: agreed_item_more)

lemma chosen_later: "chosen_with_consent V args c seen \<Longrightarrow> chosen_with_consent V args c (a @ seen)"
  using consenting_more [where b = "[]"] by (auto simp: chosen_with_consent_def split: sum.splits)

abbreviation all_legitimate :: "(RecoveryItemView \<Rightarrow> bool) \<Rightarrow> RecoveryItemView list \<Rightarrow> bool" where
  "all_legitimate V found \<equiv> \<forall>v \<in> set found. needs_approval v \<longrightarrow> V v"

lemma logs_approvals:
  assumes "all_legitimate V found"
  shows "logs (approvals d found selected (ra_directory_only args)) (\<lambda>approved seen. consenting V args seen approved)"
proof (cases "ra_directory_only args")
  case True
  then show ?thesis unfolding approvals_def by (simp only: if_True) (rule logs_ret, simp add: consenting_def)
next
  case False
  let ?vs = "filter (\<lambda>i. v_item_id i \<in> set selected \<and> needs_approval i) found"
  have agree: "consenting V args seen approved" if "agreed ?vs approved seen" for approved seen
    using that False assms unfolding consenting_def agreed_def agreed_item_def list_all_iff by fastforce
  show ?thesis
    unfolding approvals_def if_not_P [OF False] by (rule logs_weaken [OF approve_items_dialogue], simp, erule agree)
qed

lemma logs_approve_selected:
  assumes "\<And>approved. approved_by (mk approved) = Some approved" "all_legitimate V found"
  shows "logs (approve_selected d args found selected mk) (chosen_with_consent V args)"
  unfolding approve_selected_def refuse_approval_def
  by (rule logs_bind [where P = "\<lambda>_ l. l = []"], rule logs_gets, rule HOL.refl, rule logs_if,
      rule logs_bind [where P = "\<lambda>_ _. True"], rule logs_print(3), rule TrueI, rule logs_ret, simp add: chosen_with_consent_def,
      rule logs_bind [OF logs_approvals [OF assms(2)]], rule logs_ret) (simp add: chosen_with_consent_def assms(1))

lemma logs_stop: "logs (bind_s (complain a) (\<lambda>_. ret (Inl c))) (\<lambda>x seen. chosen_with_consent V args x (l @ seen))"
  by (rule logs_bind [where P = "\<lambda>_ _. True"], rule logs_print(3), rule TrueI, rule logs_ret) (simp add: chosen_with_consent_def)

lemma logs_choose_restore:
  assumes "all_legitimate V found"
  shows "logs (choose_restore d args k found) (chosen_with_consent V args)"
proof -
  have select: "logs (select_items found) (\<lambda>_ _. True)"
    unfolding select_items_def
    by (intro logs_bind [where P = "\<lambda>_ _. True"] logs_for_each logs_read logs_ret logs_print TrueI) (auto split: prod.split intro: logs_print)
  have selected: "logs (approve_selected d args found sel (RestoreExecuteRequest k sel)) (\<lambda>x seen. chosen_with_consent V args x (l @ seen))" for sel l
    by (rule logs_weaken [OF logs_approve_selected [OF _ assms]]) (simp_all add: chosen_later)
  show ?thesis
    unfolding choose_restore_def
    by (rule logs_bind [where P = "\<lambda>_ l. l = []"], rule logs_gets, rule HOL.refl, rule logs_if, rule selected,
        rule logs_if, rule logs_stop, rule logs_bind [OF select])
      (auto split: option.split simp flip: append_assoc intro: logs_stop selected)
qed

text \<open>The same for an operation that runs after some listings: it only lists, too, and what it returns may depend on them.\<close>

definition amid :: "service \<Rightarrow> int \<Rightarrow> socket console \<Rightarrow> (socket console, 'a) act \<Rightarrow> ('a \<Rightarrow> entry list \<Rightarrow> bool) \<Rightarrow> bool" where
  "amid sv p s0 m P \<longleftrightarrow> (\<forall>s a t. only_listed sv p s0 s \<longrightarrow> m s = (Inr a, t) \<longrightarrow>
     only_listed sv p s0 t \<and> (\<exists>new. cn_log t = cn_log s @ new \<and> P a new))"

lemma amidD: "amid sv p s0 m P \<Longrightarrow> only_listed sv p s0 s \<Longrightarrow> m s = (Inr a, t) \<Longrightarrow>
    only_listed sv p s0 t \<and> (\<exists>new. cn_log t = cn_log s @ new \<and> P a new)"
  by (simp add: amid_def)

lemma amid_logs: "logs m P \<Longrightarrow> keeps (only_listed sv p s0) m \<Longrightarrow> amid sv p s0 m P"
  unfolding amid_def by (metis keepsD logsD snd_conv)

lemma amid_bind:
  assumes "amid sv p s0 m P" "\<And>a l. P a l \<Longrightarrow> amid sv p s0 (f a) (\<lambda>b new. Q b (l @ new))"
  shows "amid sv p s0 (bind_s m f) Q"
  unfolding amid_def
proof (intro allI impI)
  fix s b u assume s: "only_listed sv p s0 s" "bind_s m f s = (Inr b, u)"
  then obtain a t where a: "m s = (Inr a, t)" "f a t = (Inr b, u)" by (auto simp: bind_s_Inr)
  from amidD [OF assms(1) s(1) a(1)] obtain l where l: "only_listed sv p s0 t" "cn_log t = cn_log s @ l" "P a l" by blast
  from amidD [OF assms(2) [OF l(3)] l(1) a(2)] l(2)
  show "only_listed sv p s0 u \<and> (\<exists>new. cn_log u = cn_log s @ new \<and> Q b new)" by auto
qed

lemma amid_catch:
  assumes "amid sv p s0 m P" "keeps (only_listed sv p s0) m" "\<And>s. keeps (only_listed sv p s) m"
    "\<And>e. amid sv p s0 (h e) (\<lambda>a seen. \<forall>l. P a (l @ seen))"
  shows "amid sv p s0 (catch m h) P"
  unfolding amid_def
proof (intro allI impI)
  fix s a t assume s: "only_listed sv p s0 s" "catch m h s = (Inr a, t)"
  then consider "m s = (Inr a, t)" | e u where "m s = (Inl e, u)" "h e u = (Inr a, t)" by (auto simp: catch_Inr)
  then show "only_listed sv p s0 t \<and> (\<exists>new. cn_log t = cn_log s @ new \<and> P a new)"
  proof cases
    case 1
    with amidD [OF assms(1) s(1)] show ?thesis by blast
  next
    case 2
    have "only_listed sv p s s" by (rule only_listed_same [where l = "[]"]) simp_all
    from keepsD [OF assms(3) this] 2(1) obtain l where l: "cn_log u = cn_log s @ l" by (auto simp: only_listed_def)
    from keepsD [OF assms(2) s(1)] 2(1) have "only_listed sv p s0 u" by (metis snd_conv)
    from amidD [OF assms(4) this 2(2)] l show ?thesis by auto
  qed
qed

lemma request_value:
  assumes "request w req s = (Inr (Some x), t)"
  shows "\<exists>n. client_request w req (cn_net s) = (Inr x, n)"
  using assms
  by (cases "client_request w req (cn_net s)"; cases "fst (client_request w req (cn_net s))")
    (auto simp: request_def bind_s_run catch_def on_client_def on_part_def print_error_def complain_def put_entry_def
      split: ServiceResponse.splits if_splits)

lemma list_response_value:
  assumes "list_response w shown q s = (Inr (Some (k, found, ds)), t)"
  shows "\<exists>u. request w q s = (Inr (Some (RestoreListResponse k found ds)), u)"
proof -
  obtain x u where x: "request w q s = (Inr x, u)"
    using assms by (cases "request w q s"; cases "fst (request w q s)") (auto simp: list_response_def bind_s_run)
  show ?thesis
  proof (cases x)
    case None
    with assms x show ?thesis by (simp add: list_response_def bind_s_run)
  next
    case (Some y)
    with assms x show ?thesis by (cases y) (auto simp: list_response_def bind_s_run split: sum.splits prod.splits)
  qed
qed

lemma amid_list_response:
  "amid sv p s0 (list_response (socket_network sv (Some (p, sv_uid sv)) chunk) shown (RestoreListRequest a b))
     (\<lambda>listed _. \<forall>k found ds. listed = Some (k, found, ds) \<longrightarrow> all_legitimate (shown_view sv p (sk_server (cn_net s0))) found)"
  unfolding amid_def
proof (intro allI impI, intro conjI)
  let ?w = "socket_network sv (Some (p, sv_uid sv)) chunk" and ?q = "RestoreListRequest a b"
  fix s x t assume s: "only_listed sv p s0 s" "list_response ?w shown ?q s = (Inr x, t)"
  from keepsD [OF keeps_list_response s(1), of chunk shown a b] s(2) show "only_listed sv p s0 t" by (metis snd_conv)
  have "only_listed sv p s s" by (rule only_listed_same [where l = "[]"]) simp_all
  from keepsD [OF keeps_list_response this, of chunk shown a b] s(2) obtain new where new: "cn_log t = cn_log s @ new"
    by (auto simp: only_listed_def)
  from s(1) obtain qs where qs: "sk_server (cn_net s) = after_listings sv p qs (sk_server (cn_net s0))" by (auto simp: only_listed_def)
  have "shown_view sv p (sk_server (cn_net s0)) v" if "x = Some (k, found, ds)" "v \<in> set found" "needs_approval v" for k found ds v
  proof -
    from list_response_value [OF s(2) [unfolded that(1)]] obtain u where
      "request ?w ?q s = (Inr (Some (RestoreListResponse k found ds)), u)" by blast
    from request_value [OF this] obtain n where n: "client_request ?w ?q (cn_net s) = (Inr (RestoreListResponse k found ds), n)" by blast
    then obtain payload where payload: "encode_request ?q = Inr payload"
      by (cases "encode_request ?q") (auto simp: client_request_def bind_s_run)
    have d: "decode_request payload = Inr ?q" by (rule sent_restore [OF payload]) blast
    obtain r t where rt: "dispatch_request sv (Some p) ?q (sk_server (cn_net s)) = (r, t)" by fastforce
    from client_answer [OF payload d _ rt, of chunk] n have "decode_response (answer_line r) = Inr (RestoreListResponse k found ds)"
      by (auto simp: keeps_open_def)
    from listing_answered [OF this] obtain its ds' where its: "r = Inr (RestoreListResponse k its ds')" "list_all2 same_offer its found"
      by blast
    from its(2) that(2) obtain y where y: "y \<in> set its" "same_offer y v" by (metis list_all2_conv_all_nth in_set_conv_nth)
    from that(3) y(2) obtain e where "v_replay_display y = Some e"
      by (cases "v_replay_display y") (auto simp: needs_approval_def same_offer_def)
    from listed_offer [OF rt [unfolded its(1)] y(1) this y(2)] show ?thesis unfolding shown_view_def qs by blast
  qed
  with new show "\<exists>new. cn_log t = cn_log s @ new \<and> (\<forall>k found ds. x = Some (k, found, ds) \<longrightarrow>
      all_legitimate (shown_view sv p (sk_server (cn_net s0))) found)" by blast
qed

lemma amid_choose_retry:
  "amid sv p s0 (choose_retry d (socket_network sv (Some (p, sv_uid sv)) chunk) args k attempt)
     (chosen_with_consent (shown_view sv p (sk_server (cn_net s0))) args)"
proof -
  let ?V = "shown_view sv p (sk_server (cn_net s0))"
  have selected: "amid sv p s0 (approve_selected d args found sel (RestoreRetryRequest j attempt))
      (\<lambda>x seen. chosen_with_consent ?V args x (l @ seen))" if "all_legitimate ?V found" for found sel j l
    by (rule amid_logs [OF logs_weaken [OF logs_approve_selected [OF _ that]]]) (simp_all add: chosen_later keeps_approve_selected)
  have failed: "amid sv p s0 (ret (Inl c)) (\<lambda>x seen. chosen_with_consent ?V args x (l @ seen))" for c l
    by (rule amid_logs [OF logs_ret]) (simp_all add: chosen_with_consent_def)
  have raised: "amid sv p s0 (raise_s e) Q" for e and Q :: "int + ServiceRequest \<Rightarrow> entry list \<Rightarrow> bool"
    by (rule amid_logs [OF logs_raise(1)]) simp
  show ?thesis
    unfolding choose_retry_def
    by (rule amid_bind [OF amid_list_response]) (auto split: option.split prod.split intro: raised selected failed)
qed

lemma amid_choose_request:
  assumes "all_legitimate (shown_view sv p (sk_server (cn_net s0))) found"
  shows "amid sv p s0 (choose_request d (socket_network sv (Some (p, sv_uid sv)) chunk) args k found)
     (chosen_with_consent (shown_view sv p (sk_server (cn_net s0))) args)"
  unfolding choose_request_def
proof (rule amid_catch)
  let ?V = "shown_view sv p (sk_server (cn_net s0))"
  let ?m = "case ra_retry args of
      Some attempt \<Rightarrow> if attempt \<noteq> [] then choose_retry d (socket_network sv (Some (p, sv_uid sv)) chunk) args k attempt
        else choose_restore d args k found
    | None \<Rightarrow> choose_restore d args k found"
  have fresh: "amid sv p s0 (choose_restore d args k found) (chosen_with_consent ?V args)"
    by (rule amid_logs [OF logs_choose_restore [OF assms]]) (rule keeps_choose)
  show "amid sv p s0 ?m (chosen_with_consent ?V args)"
    by (auto split: option.split intro: fresh amid_choose_retry)
  show "keeps (only_listed sv p s0) ?m" "keeps (only_listed sv p s) ?m" for s
    by (auto split: option.split)
  show "amid sv p s0 (if e = KeyboardInterrupt then bind_s (complain ''restore cancelled; no command was approved'') (\<lambda>_. ret (Inl EXIT_REFUSED))
      else raise_s e) (\<lambda>c seen. \<forall>l. chosen_with_consent ?V args c (l @ seen))" for e
    by (rule amid_logs, rule logs_if, rule logs_bind [where P = "\<lambda>_ _. True"], rule logs_print(3), rule TrueI, rule logs_ret)
      (simp add: chosen_with_consent_def, rule logs_raise, auto)
qed

lemma request_run:
  "\<exists>l. cn_log (snd (request w req s)) = cn_log s @ l \<and> cn_net (snd (request w req s)) = snd (client_request w req (cn_net s))"
  by (cases "client_request w req (cn_net s)"; cases "fst (client_request w req (cn_net s))")
    (auto simp: request_def bind_s_run catch_def on_client_def on_part_def print_error_def complain_def put_entry_def
      split: ServiceResponse.split)

definition printed :: "'n console \<Rightarrow> 'n console \<Rightarrow> bool" where
  "printed s t \<longleftrightarrow> cn_net t = cn_net s \<and> (\<exists>l. cn_log t = cn_log s @ l)"

lemma keeps_printed [intro!]: "keeps (printed s) (say a)"
  by (rule keepsI) (auto simp: printed_def say_runs)

lemma send_restore_run:
  "\<exists>l. cn_log (snd (send_restore w req s)) = cn_log s @ l \<and> cn_net (snd (send_restore w req s)) = snd (client_request w req (cn_net s))"
proof -
  obtain x t where r: "request w req s = (x, t)" by fastforce
  have shown: "keeps (printed u) (show_result a b c)" for u a b c
    unfolding show_result_def by (auto intro!: keeps_bind keeps_if keeps_for_each)
  have "printed t (snd (send_restore w req s))"
  proof (cases x)
    case (Inl e)
    with r show ?thesis by (simp add: send_restore_def bind_s_run printed_def)
  next
    case (Inr response)
    have "keeps (printed t) (case response of
        Some (RestoreResultResponse workspace attempt outs remaining) \<Rightarrow> show_result attempt outs remaining | _ \<Rightarrow> ret EXIT_FAILURE)"
      by (auto split: option.split ServiceResponse.split intro!: shown)
    from keepsD [OF this, of t] r Inr show ?thesis by (simp add: send_restore_def bind_s_run) (simp add: printed_def)
  qed
  with request_run [of w req s] r show ?thesis unfolding printed_def by (metis append_assoc snd_conv)
qed


lemma sent_with_consent:
  assumes "approved_by req = Some approved" "encode_request req = Inr raw"
  shows "decode_request raw = Inr req"
  by (rule sent_restore [OF assms(2)], insert assms(1), cases req) simp_all

text \<open>
  From one state to another nothing was taken back that was printed, and every terminal that was started restores selected
  items of the record on file, with a command only for items the user agreed to in between.
\<close>

definition started_with_consent :: "service \<Rightarrow> int \<Rightarrow> restore_args \<Rightarrow> socket console \<Rightarrow> socket console \<Rightarrow> bool" where
  "started_with_consent sv p args s t \<longleftrightarrow>
     (\<exists>new seen. srv_launched (sk_server (cn_net t)) = srv_launched (sk_server (cn_net s)) @ new \<and>
       cn_log t = cn_log s @ seen \<and>
       list_all (\<lambda>argv. \<exists>qs req r selected approved.
         requested sv (after_listings sv p qs (sk_server (cn_net s))) req r selected approved \<and>
         approved_line sv r selected approved (session_files (rt_world (srv_runtime (sk_server (cn_net t))))) argv \<and>
         consenting (shown_view sv p (sk_server (cn_net s))) args seen approved) new)"

lemma only_listed_started:
  assumes "only_listed sv p s t"
  shows "started_with_consent sv p args s t"
proof -
  from assms obtain seen qs where t: "cn_log t = cn_log s @ seen"
    "sk_server (cn_net t) = after_listings sv p qs (sk_server (cn_net s))" by (auto simp: only_listed_def)
  then show ?thesis
    unfolding started_with_consent_def by (intro exI [of _ "[]"] exI [of _ seen]) (simp add: after_listings_launches)
qed

lemma send_restore_started:
  assumes "only_listed sv p s s2" "cn_log s2 = cn_log s @ seen" "approved_by req = Some approved"
    "consenting (shown_view sv p (sk_server (cn_net s))) args seen approved"
  shows "started_with_consent sv p args s (snd (send_restore (socket_network sv (Some (p, sv_uid sv)) chunk) req s2))"
proof -
  let ?w = "socket_network sv (Some (p, sv_uid sv)) chunk" and ?V = "shown_view sv p (sk_server (cn_net s))"
  from assms(1) obtain qs where qs: "sk_server (cn_net s2) = after_listings sv p qs (sk_server (cn_net s))" by (auto simp: only_listed_def)
  let ?t = "snd (send_restore ?w req s2)"
  from send_restore_run [of ?w req s2] obtain l where
    t: "cn_log ?t = cn_log s2 @ l" "cn_net ?t = snd (client_request ?w req (cn_net s2))" by auto
  have logged: "cn_log ?t = cn_log s @ seen @ l" "consenting ?V args (seen @ l) approved"
    using t(1) assms(2) consenting_more [OF assms(4), of "[]"] by simp_all
  from client_request_server [of req sv p chunk "cn_net s2"] sent_with_consent [OF assms(3)] t(2)
  consider "sk_server (cn_net ?t) = sk_server (cn_net s2)"
    | "sk_server (cn_net ?t) = snd (dispatch_request sv (Some p) req (sk_server (cn_net s2)))" by auto
  then show ?thesis
  proof cases
    case 1
    with qs have "only_listed sv p s ?t" using logged(1) by (auto simp: only_listed_def)
    then show ?thesis by (rule only_listed_started)
  next
    case 2
    obtain x u where u: "dispatch_request sv (Some p) req (sk_server (cn_net s2)) = (x, u)" by fastforce
    from dispatch_launches [OF u] obtain new where new: "srv_launched u = srv_launched (sk_server (cn_net s2)) @ new"
      "\<forall>argv \<in> set new. \<exists>r selected approved. requested sv (sk_server (cn_net s2)) req r selected approved \<and>
         approved_line sv r selected approved (session_files (rt_world (srv_runtime u))) argv" by blast
    have "approved = approved'" if "requested sv v req r selected approved'" for v r selected approved'
      using that assms(3) by (auto simp: requested_def)
    with new 2 u logged qs show ?thesis
      unfolding started_with_consent_def
      by (intro exI [of _ new] exI [of _ "seen @ l"])
        (simp add: after_listings_launches list_all_iff del: dispatch_request.simps, blast)
  qed
qed

lemma restore_command_cases:
  assumes "list_response w False (RestoreListRequest None None) s = (listed, s1)"
  obtains "ra_backend args = ''timestamp''" "restore_command d w args s = restore_from_timestamp d (ra_all args) s"
  | "restore_command d w args s = restore_from_timestamp d (ra_all args) s1"
  | "snd (restore_command d w args s) = s1"
  | k found ds where "listed = Inr (Some (Some k, found, ds))"
      "restore_command d w args s = bind_s (choose_request d w args k found) (\<lambda>choice.
         case choice of Inl exit_code \<Rightarrow> ret exit_code | Inr req \<Rightarrow> send_restore w req) s1"
proof (cases "ra_backend args = ''timestamp''")
  case True
  then show thesis by (intro that(1)) (simp_all add: restore_command_def)
next
  case False
  note run = restore_command_def [of d w args, unfolded if_not_P [OF False]] assms
  consider e where "listed = Inl e" | "listed = Inr None" | found ds where "listed = Inr (Some (None, found, ds))"
    | k found ds where "listed = Inr (Some (Some k, found, ds))"
    by (metis old.prod.exhaust old.sum.exhaust option.exhaust)
  then show thesis
    by cases (use run in \<open>auto simp: bind_s_run intro: that\<close>)
qed

text \<open>C2: whatever the service lists, whatever the user types and also when a step fails: every terminal the service starts because
  of the command \<^verbatim>\<open>restore\<close> restores selected items of the record on file, and every item whose command it may run was an
  item of a listing the service has made in this session from its record, and was shown with the recorded text of its
  command - or, where the service offers a resume, with the resume command it built for the program of that command -
  followed by a question the user answered with yes (for a resume, also with the empty line); with
  \<^verbatim>\<open>--directory-only\<close> no item is approved. What was printed is never taken back. Not claimed is that a resume runs with
  the session that was shown: the command is built anew when it runs, and a session the user picks is not sent.\<close>
theorem restore_needs_consent:
  "started_with_consent sv p args s (snd (restore_command d (socket_network sv (Some (p, sv_uid sv)) chunk) args s))"
proof -
  let ?w = "socket_network sv (Some (p, sv_uid sv)) chunk" and ?V = "shown_view sv p (sk_server (cn_net s))"
  have same: "only_listed sv p s s" by (rule only_listed_same [where l = "[]"]) simp_all
  obtain listed s1 where m1: "list_response ?w False (RestoreListRequest None None) s = (listed, s1)" by fastforce
  with keepsD [OF keeps_list_response same] have l1: "only_listed sv p s s1" by (metis snd_conv)
  from m1 show ?thesis
  proof (cases rule: restore_command_cases [where d = d and args = args])
    case (4 k found ds)
    from amidD [OF amid_list_response same m1 [unfolded 4(1)]] have legitimate: "all_legitimate ?V found" by blast
    obtain c s2 where m2: "choose_request d ?w args k found s1 = (c, s2)" by fastforce
    with keepsD [OF keeps_choose_request l1] have l2: "only_listed sv p s s2" by (metis snd_conv)
    show ?thesis
    proof (cases "\<exists>req. c = Inr (Inr req)")
      case False
      with 4(2) m2 have "snd (restore_command d ?w args s) = s2" by (auto simp: bind_s_run split: sum.splits)
      with l2 show ?thesis by (simp add: only_listed_started)
    next
      case True
      then obtain req where c: "c = Inr (Inr req)" by blast
      from amidD [OF amid_choose_request [OF legitimate] l1 m2 [unfolded c]] obtain seen approved where
        seen: "cn_log s2 = cn_log s1 @ seen" "approved_by req = Some approved" "consenting ?V args seen approved"
        by (auto simp: chosen_with_consent_def)
      from l1 obtain before where before: "cn_log s1 = cn_log s @ before" by (auto simp: only_listed_def)
      have "cn_log s2 = cn_log s @ before @ seen" "consenting ?V args (before @ seen) approved"
        using seen before consenting_more [OF seen(3), of before "[]"] by simp_all
      from send_restore_started [OF l2 this(1) seen(2) this(2)] 4(2) m2 c show ?thesis by (simp add: bind_s_run)
    qed
  qed (use keepsD [OF keeps_timestamp same] keepsD [OF keeps_timestamp l1] l1 in \<open>auto intro: only_listed_started\<close>)
qed

section \<open>Without the service\<close>

lemma encodes_listing: "\<exists>raw. encode_request (RestoreListRequest None None) = Inr raw"
proof -
  have "\<not> isl (encode_request (RestoreListRequest None None))" by code_simp
  then show ?thesis by (cases "encode_request (RestoreListRequest None None)") auto
qed

lemma client_unreachable:
  assumes "net_connect w n = (Inl (OSError t), m)" "encode_request req = Inr raw" "t \<noteq> ''timed out''"
  shows "client_request w req n = (Inl (RuntimeError ''service is not available''), m)"
  using assms by (simp add: client_request_def bind_s_run catch_def)

text \<open>If the service cannot be reached, \<^verbatim>\<open>restore\<close> with the backend \<^verbatim>\<open>auto\<close> or \<^verbatim>\<open>capture\<close> prints one line and fails; the session
  stores are not read, nothing is asked and nothing is started. There is no fallback to the time stamps.\<close>
theorem unreachable_service_fails:
  assumes "net_connect w (cn_net s) = (Inl (OSError t), m)" "t \<noteq> ''timed out''" "ra_backend args \<noteq> ''timestamp''"
  shows "restore_command d w args s =
    (Inr EXIT_FAILURE, s\<lparr>cn_net := m, cn_log := cn_log s @ [Err (''error: service is not available'' @ [CHR 0x0A])]\<rparr>)"
proof -
  obtain raw where "encode_request (RestoreListRequest None None) = Inr raw" using encodes_listing by blast
  from client_unreachable [OF assms(1) this assms(2)] assms(3) show ?thesis
    by (simp add: restore_command_def list_response_def request_def bind_s_run catch_def on_client_def on_part_def
        complain_def put_entry_def)
qed

theorem unreachable_service_fails_witness:
  "restore_command \<lparr>dk_machine = sv_machine demo_service, dk_clock = (\<lambda>_. 0), dk_parse = (\<lambda>_. None)\<rparr>
     \<lparr>net_connect = (\<lambda>n. (Inl (OSError ''refused''), n)), net_send = (\<lambda>_ n. (Inr (), n)), net_recv = (\<lambda>_ n. (Inr [], n)),
       net_close = (\<lambda>n. n), net_clock = (\<lambda>n. (0, n))\<rparr>
     \<lparr>ra_all = True, ra_retry = None, ra_directory_only = False, ra_backend = ''auto''\<rparr>
     \<lparr>cn_tty = True, cn_input = [], cn_log = [], cn_runtime = srv_runtime (demo_server (initial_state empty_snapshot) demo_store),
       cn_net = (), cn_calls = 0\<rparr> =
   (Inr EXIT_FAILURE,
     \<lparr>cn_tty = True, cn_input = [], cn_log = [Err (''error: service is not available'' @ [CHR 0x0A])],
       cn_runtime = srv_runtime (demo_server (initial_state empty_snapshot) demo_store), cn_net = (), cn_calls = 0\<rparr>)"
  by (subst unreachable_service_fails [where t = "''refused''" and m = "()"]) simp_all

end
