(* ===== verification/Disk.thy ===== *)
theory Disk
  imports Manifest Recovery
begin

text \<open>
  The operations of \<^verbatim>\<open>lifecycle_fs.py\<close> on a single file: what is found before a change, the atomic replacement of a
  file or a link, the removal of a leaf, the restoration of what was found, and the lock. A disk is a map of absolute
  paths to nodes; the directories of a path are opened one by one, without following links. What other processes do in
  the meantime is not modelled. Every call may fail: \<open>fault n\<close> says how the call number \<open>n\<close> ends.
\<close>

section \<open>The disk\<close>

text \<open>Folders and files have an owner and permission bits, a file its number of hard links and its content.\<close>

datatype node =
    Folder int int
  | Regular int int nat string
  | Link int string
  | Special

record disk =
  nodes :: "string \<rightharpoonup> node"
  dk_calls :: nat

text \<open>A call succeeds as far as the disk allows, or raises \<open>e\<close> before or after its effect.\<close>

datatype fault = Works | Breaks bool py_error

text \<open>The user, the number of bytes that are read at most, SHA-256, and the faults of the calls.\<close>

record drive =
  dr_uid :: int
  dr_sha :: "string \<Rightarrow> string"
  dr_fault :: "nat \<Rightarrow> fault"

definition MAX_READ_BYTES :: nat where "MAX_READ_BYTES = 1048576"

definition node_at :: "string \<Rightarrow> (disk, node option) act" where
  "node_at p = gets (\<lambda>s. nodes s p)"

definition put_node :: "string \<Rightarrow> node option \<Rightarrow> (disk, unit) act" where
  "put_node p x = modify (\<lambda>s. s\<lparr>nodes := (nodes s)(p := x)\<rparr>)"

text \<open>A call that changes the disk.\<close>

definition effect :: "drive \<Rightarrow> (disk, unit) act \<Rightarrow> (disk, unit) act" where
  "effect d m =
     bind_s (gets dk_calls) (\<lambda>n.
     bind_s (modify (\<lambda>s. s\<lparr>dk_calls := Suc n\<rparr>)) (\<lambda>_.
     case dr_fault d n of
       Works \<Rightarrow> m
     | Breaks False e \<Rightarrow> raise_s e
     | Breaks True e \<Rightarrow> bind_s m (\<lambda>_. raise_s e)))"

section \<open>Directories\<close>

definition validate_canonical_abs :: "string \<Rightarrow> (disk, unit) act" where
  "validate_canonical_abs p =
     (if \<not> is_absolute p \<or> normpath p \<noteq> p then raise_s (UnsafeLifecyclePath ''path must be a canonical absolute path'')
      else ret ())"

text \<open>The directories from the root to a path.\<close>

definition chain_of :: "string \<Rightarrow> string list" where
  "chain_of p = ''/'' # map (\<lambda>k. ''/'' @ join ''/'' (take k (path_parts p))) [1..<Suc (length (path_parts p))]"

primrec open_each :: "string list \<Rightarrow> (disk, unit) act" where
  "open_each [] = ret ()"
| "open_each (q # qs) =
     bind_s (node_at q) (\<lambda>x.
     case x of
       None \<Rightarrow> raise_s (FileNotFoundError q)
     | Some (Folder u m) \<Rightarrow> open_each qs
     | Some _ \<Rightarrow> raise_s (UnsafeLifecyclePath (''unsafe path component '' @ q)))"

definition open_dir_chain :: "string \<Rightarrow> (disk, unit) act" where
  "open_dir_chain p = bind_s (validate_canonical_abs p) (\<lambda>_. open_each (chain_of p))"

text \<open>The bits 022 of a mode.\<close>

definition others_write :: "int \<Rightarrow> bool" where
  "others_write m \<longleftrightarrow> odd (m div 16) \<or> odd (m div 2)"

definition validate_parent :: "drive \<Rightarrow> string \<Rightarrow> (disk, unit) act" where
  "validate_parent d p =
     bind_s (node_at p) (\<lambda>x.
     case x of
       Some (Folder u m) \<Rightarrow>
         if u \<noteq> dr_uid d then raise_s (UnsafeLifecyclePath ''parent is owned by a foreign user'')
         else if others_write m then raise_s (UnsafeLifecyclePath ''parent is group or other writable'')
         else ret ()
     | _ \<Rightarrow> raise_s (UnsafeLifecyclePath ''parent is not a directory''))"

section \<open>Capturing\<close>

definition absent_image :: "string \<Rightarrow> BeforeImage" where
  "absent_image p = \<lparr>bi_path = p, bi_kind = ABSENT, bi_mode = None, bi_target = None, bi_content = None, bi_sha256 = None\<rparr>"

text \<open>The permission bits of a link are always 0777.\<close>

definition capture_node :: "drive \<Rightarrow> string \<Rightarrow> node option \<Rightarrow> BeforeImage result" where
  "capture_node d p x =
     (case x of
        None \<Rightarrow> Inr (absent_image p)
      | Some (Link u t) \<Rightarrow>
          Inr \<lparr>bi_path = p, bi_kind = SYMLINK, bi_mode = Some 511, bi_target = Some t, bi_content = None, bi_sha256 = None\<rparr>
      | Some (Regular u m n c) \<Rightarrow>
          if length c > MAX_READ_BYTES then Inl (UnsafeLifecyclePath (''object exceeds capture bound at '' @ p))
          else Inr \<lparr>bi_path = p, bi_kind = FILE, bi_mode = Some m, bi_target = None, bi_content = Some c,
                 bi_sha256 = Some (dr_sha d c)\<rparr>
      | Some _ \<Rightarrow> Inl (UnsafeLifecyclePath (''unsafe object type at '' @ p)))"

definition capture_before :: "drive \<Rightarrow> string \<Rightarrow> (disk, BeforeImage) act" where
  "capture_before d p =
     bind_s (validate_canonical_abs p) (\<lambda>_.
     bind_s (catch (bind_s (open_dir_chain (parent p)) (\<lambda>_. ret True))
       (\<lambda>e. if is_FileNotFoundError e then ret False else raise_s e)) (\<lambda>opened.
     if \<not> opened then ret (absent_image p)
     else bind_s (effect d (ret ())) (\<lambda>_. bind_s (node_at p) (\<lambda>x. lift_s (capture_node d p x)))))"

section \<open>Changing\<close>

text \<open>A rename onto a directory fails.\<close>

definition replace_leaf :: "drive \<Rightarrow> string \<Rightarrow> string \<Rightarrow> node \<Rightarrow> (disk, unit) act" where
  "replace_leaf d p what new =
     effect d (bind_s (node_at p) (\<lambda>x.
       case x of Some (Folder u m) \<Rightarrow> raise_s (UnsafeLifecyclePath what) | _ \<Rightarrow> put_node p (Some new)))"

definition atomic_write :: "drive \<Rightarrow> string \<Rightarrow> string \<Rightarrow> int \<Rightarrow> (disk, unit) act" where
  "atomic_write d p content mode =
     bind_s (validate_canonical_abs p) (\<lambda>_.
     bind_s (open_dir_chain (parent p)) (\<lambda>_.
     bind_s (validate_parent d (parent p)) (\<lambda>_.
     replace_leaf d p ''atomic replace failed'' (Regular (dr_uid d) (mode mod 4096) 1 content))))"

definition atomic_symlink :: "drive \<Rightarrow> string \<Rightarrow> string \<Rightarrow> (disk, unit) act" where
  "atomic_symlink d p target =
     bind_s (validate_canonical_abs p) (\<lambda>_.
     bind_s (open_dir_chain (parent p)) (\<lambda>_.
     bind_s (validate_parent d (parent p)) (\<lambda>_.
     if target = [] then raise_s (UnsafeLifecyclePath ''temp symlink creation failed'')
     else replace_leaf d p ''atomic link replace failed'' (Link (dr_uid d) target))))"

definition unlink_leaf :: "drive \<Rightarrow> string \<Rightarrow> (disk, unit) act" where
  "unlink_leaf d p =
     bind_s (validate_parent d (parent p)) (\<lambda>_.
     bind_s (node_at p) (\<lambda>x.
     case x of
       None \<Rightarrow> ret ()
     | Some (Folder u m) \<Rightarrow> raise_s (UnsafeLifecyclePath ''cannot remove a directory as a leaf'')
     | Some (Link u t) \<Rightarrow>
         if u \<noteq> dr_uid d then raise_s (UnsafeLifecyclePath (''unsafe leaf symlink '' @ path_name p))
         else effect d (put_node p None)
     | Some (Regular u m n c) \<Rightarrow>
         if u \<noteq> dr_uid d \<or> n \<noteq> 1 then raise_s (UnsafeLifecyclePath ''unsafe leaf file to remove'')
         else effect d (put_node p None)
     | Some Special \<Rightarrow> raise_s (UnsafeLifecyclePath ''unsafe leaf object type'')))"

definition unlink_leaf_if_present :: "drive \<Rightarrow> string \<Rightarrow> (disk, unit) act" where
  "unlink_leaf_if_present d p =
     bind_s (validate_canonical_abs p) (\<lambda>_.
     bind_s (catch (bind_s (open_dir_chain (parent p)) (\<lambda>_. ret True))
       (\<lambda>e. if is_FileNotFoundError e then ret False else raise_s e)) (\<lambda>opened.
     if opened then unlink_leaf d p else ret ()))"

text \<open>\<^verbatim>\<open>mode or 0o600\<close>, \<^verbatim>\<open>content or b""\<close>.\<close>

definition or_mode :: "int option \<Rightarrow> int" where
  "or_mode m = (case m of None \<Rightarrow> 384 | Some n \<Rightarrow> if n = 0 then 384 else n)"

definition or_empty :: "string option \<Rightarrow> string" where
  "or_empty c = (case c of None \<Rightarrow> [] | Some t \<Rightarrow> t)"

definition restore_before :: "drive \<Rightarrow> BeforeImage \<Rightarrow> (disk, unit) act" where
  "restore_before d b =
     bind_s (validate_canonical_abs (bi_path b)) (\<lambda>_.
     case bi_kind b of
       ABSENT \<Rightarrow> unlink_leaf_if_present d (bi_path b)
     | FILE \<Rightarrow> atomic_write d (bi_path b) (or_empty (bi_content b)) (or_mode (bi_mode b))
     | SYMLINK \<Rightarrow> atomic_symlink d (bi_path b) (or_empty (bi_target b)))"

section \<open>The lock\<close>

definition validate_lock_dir :: "drive \<Rightarrow> string \<Rightarrow> (disk, unit) act" where
  "validate_lock_dir d p =
     bind_s (node_at p) (\<lambda>x.
     case x of
       Some (Folder u m) \<Rightarrow>
         if m \<noteq> 448 then raise_s (UnsafeLifecyclePath ''lock directory has the wrong mode'')
         else if u \<noteq> dr_uid d then raise_s (UnsafeLifecyclePath ''lock directory is foreign-owned'')
         else ret ()
     | _ \<Rightarrow> raise_s (UnsafeLifecyclePath ''unsafe lock directory''))"

text \<open>The directory and the lock are created if they were planned to be; a lock is not opened through a link.\<close>

definition open_lock :: "drive \<Rightarrow> string \<Rightarrow> string \<Rightarrow> bool \<Rightarrow> bool \<Rightarrow> (disk, unit) act" where
  "open_lock d dir lock may_create_directory may_create_lock =
     bind_s (validate_canonical_abs dir) (\<lambda>_.
     bind_s (validate_canonical_abs lock) (\<lambda>_.
     if parent lock \<noteq> dir then raise_s (UnsafeLifecyclePath ''lock must live directly inside the planned directory'')
     else
       bind_s (open_dir_chain (parent dir)) (\<lambda>_.
       bind_s (when_s may_create_directory
         (effect d (bind_s (node_at dir) (\<lambda>x.
            if x \<noteq> None then raise_s (UnsafeLifecyclePath ''planned directory unexpectedly exists'')
            else put_node dir (Some (Folder (dr_uid d) 448)))))) (\<lambda>_.
       bind_s (validate_lock_dir d dir) (\<lambda>_.
       if may_create_lock then
         effect d (bind_s (node_at lock) (\<lambda>x.
           if x \<noteq> None then raise_s (UnsafeLifecyclePath ''planned lock unexpectedly exists'')
           else put_node lock (Some (Regular (dr_uid d) 384 1 []))))
       else
         bind_s (node_at lock) (\<lambda>x.
         case x of
           Some (Regular u m n c) \<Rightarrow> ret ()
         | Some Special \<Rightarrow> raise_s (UnsafeLifecyclePath ''lock is not a regular file'')
         | _ \<Rightarrow> raise_s (UnsafeLifecyclePath ''unsafe lock open'')))))))"

end
