(* ===== verification/Integrations.thy ===== *)
theory Integrations
  imports Disk Resume
begin

text \<open>
  The plans of \<^verbatim>\<open>lifecycle_integrations.py\<close>: the block in the user's \<^verbatim>\<open>.bashrc\<close>, the desktop entry that starts
  TermRecall at login, and the setting of the chooser, each as a before image and an after image.
\<close>

section \<open>Texts\<close>

definition NL :: char where "NL = CHR 0x0A"

definition V1_BEGIN :: string where "V1_BEGIN = ''# >>> termrecall v1 >>>''"
definition V1_END :: string where "V1_END = ''# <<< termrecall v1 <<<''"
definition LEGACY_BEGIN :: string where "LEGACY_BEGIN = ''# BEGIN termrecall''"
definition LEGACY_END :: string where "LEGACY_END = ''# END termrecall''"

definition QUOTE :: char where "QUOTE = CHR 0x27"

definition shell_single_quote :: "string \<Rightarrow> string" where
  "shell_single_quote p = [QUOTE] @ replace_sub [QUOTE] [QUOTE, CHR 0x22, QUOTE, CHR 0x22, QUOTE] p @ [QUOTE]"

definition source_line :: "string \<Rightarrow> string" where
  "source_line p = ''[ -f '' @ shell_single_quote p @ '' ] && . '' @ shell_single_quote p"

definition legacy_source_line :: "string \<Rightarrow> string" where
  "legacy_source_line p = ''source '' @ shell_single_quote p"

definition v1_block :: "string \<Rightarrow> string" where
  "v1_block p = V1_BEGIN @ [NL] @ source_line p @ [NL] @ V1_END @ [NL]"

definition legacy_block :: "string \<Rightarrow> string" where
  "legacy_block p = LEGACY_BEGIN @ [NL] @ legacy_source_line p @ [NL] @ LEGACY_END @ [NL]"

definition render_desktop :: "string \<Rightarrow> string" where
  "render_desktop x = join [NL]
     [''[Desktop Entry]'', ''Type=Application'', ''Name=TermRecall'', ''Exec='' @ x @ '' login-coordinator'',
      ''OnlyShowIn=X-Cinnamon;Cinnamon;'', ''X-GNOME-Autostart-enabled=true'', ''Terminal=false'', ''NoDisplay=true'', []]"

definition render_chooser :: "bool \<Rightarrow> string" where
  "render_chooser enabled =
     [CHR 0x7B, CHR 0x22] @ ''schema_version'' @ [CHR 0x22] @ '':1,'' @ [CHR 0x22] @ ''login_chooser_enabled'' @ [CHR 0x22] @ '':'' @
     (if enabled then ''true'' else ''false'') @ [CHR 0x7D, NL]"

section \<open>The block in \<^verbatim>\<open>.bashrc\<close>\<close>

text \<open>\<open>count_sub p s\<close> is \<^verbatim>\<open>s.count(p)\<close> for a non-empty \<open>p\<close>: the occurrences do not overlap.\<close>

function count_sub :: "'a list \<Rightarrow> 'a list \<Rightarrow> nat" where
  "count_sub p [] = 0"
| "count_sub p (c # s) =
     (if startswith (c # s) p then Suc (count_sub p (drop (length p - 1) s)) else count_sub p s)"
  by pat_completeness auto
termination by (relation "measure (length \<circ> snd)") auto

definition marker_count :: "string \<Rightarrow> string \<Rightarrow> nat" where
  "marker_count raw marker = count_sub (marker @ [NL]) raw"

text \<open>The text with a block taken out, and another put there.\<close>

definition replace_at :: "string \<Rightarrow> nat \<Rightarrow> string \<Rightarrow> string \<Rightarrow> string" where
  "replace_at raw k old new = take k raw @ new @ drop (k + length old) raw"

definition transform_bashrc :: "string \<Rightarrow> string \<Rightarrow> DesiredState \<Rightarrow> string result" where
  "transform_bashrc raw integration state =
     (let v1 = v1_block integration; legacy = legacy_block integration;
          v1_begin_n = marker_count raw V1_BEGIN; v1_end_n = marker_count raw V1_END;
          leg_begin_n = marker_count raw LEGACY_BEGIN; leg_end_n = marker_count raw LEGACY_END;
          v1_markers = v1_begin_n + v1_end_n; leg_markers = leg_begin_n + leg_end_n in
      if state = PRESERVE then Inr raw
      else if v1_markers \<noteq> 0 \<and> leg_markers \<noteq> 0 then
        Inl (ValueError ''.bashrc contains both V1 and legacy termrecall markers'')
      else if state = ENABLE then
        (if v1_markers \<noteq> 0 then
           (if v1_begin_n \<noteq> 1 \<or> v1_end_n \<noteq> 1 \<or> \<not> contains raw v1
            then Inl (ValueError ''.bashrc V1 markers are malformed or handwritten'') else Inr raw)
         else if leg_markers \<noteq> 0 then
           (if leg_begin_n \<noteq> 1 \<or> leg_end_n \<noteq> 1 then Inl (ValueError ''.bashrc legacy markers are malformed or handwritten'')
            else case find_sub legacy raw of
              None \<Rightarrow> Inl (ValueError ''.bashrc legacy markers are malformed or handwritten'')
            | Some k \<Rightarrow> Inr (replace_at raw k legacy v1))
         else if raw = [] then Inr v1
         else Inr (raw @ [NL] @ v1))
      else if v1_markers \<noteq> 0 then
        (if v1_begin_n \<noteq> 1 \<or> v1_end_n \<noteq> 1 then Inl (ValueError ''.bashrc V1 markers are malformed or handwritten'')
         else case find_sub v1 raw of
           None \<Rightarrow> Inl (ValueError ''.bashrc V1 markers are malformed or handwritten'')
         | Some k \<Rightarrow>
             if k > 0 \<and> raw ! (k - 1) = NL then Inr (take (k - 1) raw @ drop (k + length v1) raw)
             else Inr (replace_at raw k v1 []))
      else if leg_markers \<noteq> 0 then
        Inl (ValueError ''.bashrc legacy markers present without a V1 block to remove'')
      else Inr raw)"

section \<open>Plans\<close>

record PlannedMutation =
  pm_path :: string
  pm_before :: BeforeImage
  pm_after :: BeforeImage

record IntegrationPlan =
  ip_bash :: "PlannedMutation list"
  ip_autostart :: "PlannedMutation list"
  ip_chooser :: "PlannedMutation list"
  ip_chooser_ownership :: ChooserOwnership
  ip_bash_backup :: "OwnedObject option"

definition file_after :: "drive \<Rightarrow> string \<Rightarrow> BeforeImage \<Rightarrow> string \<Rightarrow> BeforeImage" where
  "file_after d p before content =
     \<lparr>bi_path = p, bi_kind = FILE, bi_mode = (if bi_kind before = FILE then bi_mode before else Some 384), bi_target = None,
      bi_content = Some content, bi_sha256 = Some (dr_sha d content)\<rparr>"

definition bash_backup :: "drive \<Rightarrow> LifecyclePaths \<Rightarrow> InstallManifest option \<Rightarrow> BeforeImage \<Rightarrow> OwnedObject option" where
  "bash_backup d paths prior before =
     (case (case prior of None \<Rightarrow> None | Some m \<Rightarrow> im_bash_backup m) of
        Some x \<Rightarrow> Some x
      | None \<Rightarrow>
          let original = (if bi_kind before = ABSENT then [] else or_empty (bi_content before)) in
          Some \<lparr>ow_path = path_join (config_root paths) ''bashrc.backup'', ow_kind = FILE, ow_mode = 384,
            ow_sha256 = Some (dr_sha d original), ow_target = None\<rparr>)"

definition plan_bash ::
  "drive \<Rightarrow> DesiredState \<Rightarrow> LifecyclePaths \<Rightarrow> InstallManifest option \<Rightarrow> (disk, PlannedMutation list \<times> OwnedObject option) act" where
  "plan_bash d state paths prior =
     (if state = PRESERVE then ret ([], case prior of None \<Rightarrow> None | Some m \<Rightarrow> im_bash_backup m)
      else
        bind_s (capture_before d (bashrc paths)) (\<lambda>before.
        bind_s (lift_s (transform_bashrc (or_empty (bi_content before)) (bash_integration paths) state)) (\<lambda>transformed.
        ret ([\<lparr>pm_path = bashrc paths, pm_before = before, pm_after = file_after d (bashrc paths) before transformed\<rparr>],
             bash_backup d paths prior before))))"

definition owned_for :: "InstallManifest option \<Rightarrow> string \<Rightarrow> OwnedObject option" where
  "owned_for prior p = (case prior of None \<Rightarrow> None | Some m \<Rightarrow> find (\<lambda>x. ow_path x = p) (im_owned m))"

text \<open>The file on disk is the one the manifest owns.\<close>

definition is_owned :: "InstallManifest option \<Rightarrow> string \<Rightarrow> BeforeImage \<Rightarrow> bool" where
  "is_owned prior p before \<longleftrightarrow>
     (case owned_for prior p of
        None \<Rightarrow> False
      | Some x \<Rightarrow> ow_kind x = FILE \<and> ow_mode x = (case bi_mode before of None \<Rightarrow> 0 | Some n \<Rightarrow> n) \<and>
          ow_sha256 x = bi_sha256 before)"

definition plan_autostart ::
  "drive \<Rightarrow> DesiredState \<Rightarrow> LifecyclePaths \<Rightarrow> InstallManifest option \<Rightarrow> (disk, PlannedMutation list) act" where
  "plan_autostart d state paths prior =
     (let p = autostart paths;
          expected = render_desktop (path_join (current_link paths) ''venv/bin/termrecall'') in
      bind_s (capture_before d p) (\<lambda>before.
      if state = PRESERVE then ret []
      else if state = ENABLE then
        (if bi_kind before \<noteq> ABSENT \<and> \<not> is_owned prior p before then
           raise_s (ValueError ''autostart entry exists but is not owned by the manifest'')
         else ret [\<lparr>pm_path = p, pm_before = before, pm_after = file_after d p before expected\<rparr>])
      else if bi_kind before = ABSENT then ret []
      else if \<not> is_owned prior p before then
        raise_s (ValueError ''autostart disable requires exact manifest hash and mode'')
      else ret [\<lparr>pm_path = p, pm_before = before, pm_after = absent_image p\<rparr>]))"

definition chooser_after :: "drive \<Rightarrow> LifecyclePaths \<Rightarrow> bool \<Rightarrow> BeforeImage" where
  "chooser_after d paths enabled =
     \<lparr>bi_path = chooser paths, bi_kind = FILE, bi_mode = Some 384, bi_target = None, bi_content = Some (render_chooser enabled),
      bi_sha256 = Some (dr_sha d (render_chooser enabled))\<rparr>"

definition plan_chooser ::
  "drive \<Rightarrow> DesiredState \<Rightarrow> LifecyclePaths \<Rightarrow> InstallManifest option \<Rightarrow> (disk, PlannedMutation list \<times> ChooserOwnership) act" where
  "plan_chooser d state paths prior =
     bind_s (capture_before d (chooser paths)) (\<lambda>before.
     if state = PRESERVE then
       ret ([], case prior of
           Some m \<Rightarrow> im_chooser m
         | None \<Rightarrow> \<lparr>co_original = absent_image (chooser paths), co_post = None, co_changed = False\<rparr>)
     else
       let after = chooser_after d paths (state = ENABLE);
           changed = (case prior of None \<Rightarrow> None | Some m \<Rightarrow> if co_changed (im_chooser m) then Some (im_chooser m) else None) in
       bind_s (case changed of
           None \<Rightarrow> ret before
         | Some c \<Rightarrow>
             let expected = (case co_post c of Some p \<Rightarrow> p | None \<Rightarrow> co_original c) in
             if bi_kind before \<noteq> bi_kind expected \<or> bi_sha256 before \<noteq> bi_sha256 expected then
               raise_s (ValueError ''chooser was modified externally since the last installer change'')
             else ret (co_original c)) (\<lambda>original.
       ret ([\<lparr>pm_path = chooser paths, pm_before = before, pm_after = after\<rparr>],
            \<lparr>co_original = original, co_post = Some after, co_changed = True\<rparr>)))"

definition plan_integrations_core ::
  "drive \<Rightarrow> DesiredState \<Rightarrow> DesiredState \<Rightarrow> DesiredState \<Rightarrow> LifecyclePaths \<Rightarrow> InstallManifest option \<Rightarrow> (disk, IntegrationPlan) act" where
  "plan_integrations_core d bash_state autostart_state chooser_state paths prior =
     bind_s (plan_bash d bash_state paths prior) (\<lambda>(bash, backup).
     bind_s (plan_autostart d autostart_state paths prior) (\<lambda>entry.
     bind_s (plan_chooser d chooser_state paths prior) (\<lambda>(setting, ownership).
     ret \<lparr>ip_bash = bash, ip_autostart = entry, ip_chooser = setting, ip_chooser_ownership = ownership,
       ip_bash_backup = backup\<rparr>)))"

definition plan_installed_integrations ::
  "drive \<Rightarrow> IntegrationSetupRequest \<Rightarrow> LifecyclePaths \<Rightarrow> InstallManifest \<Rightarrow> (disk, IntegrationPlan) act" where
  "plan_installed_integrations d req paths prior =
     plan_integrations_core d (is_bash req) (is_autostart req) (is_chooser req) paths (Some prior)"

text \<open>What \<^verbatim>\<open>install.sh\<close> asks for: the states must fit the mode.\<close>

record SetupRequest =
  su_mode :: SetupMode
  su_dry_run :: bool
  su_bash :: DesiredState
  su_autostart :: DesiredState
  su_chooser :: DesiredState

definition validate_setup_request :: "SetupRequest \<Rightarrow> unit result" where
  "validate_setup_request req =
     raise_if (\<not> (su_mode req \<in> {INTERACTIVE, FULL} \<or> su_mode req = NO_AUTOSTART \<and> su_autostart req \<noteq> ENABLE \<or>
         su_mode req \<in> {COMMANDS_ONLY, UPGRADE} \<and> [su_bash req, su_autostart req, su_chooser req] = replicate 3 PRESERVE))
       (ValueError ''integration states conflict with setup mode'')"

definition plan_integrations :: "drive \<Rightarrow> SetupRequest \<Rightarrow> LifecyclePaths \<Rightarrow> InstallManifest option \<Rightarrow> (disk, IntegrationPlan) act" where
  "plan_integrations d req paths prior =
     bind_s (lift_s (validate_setup_request req)) (\<lambda>_.
     plan_integrations_core d (su_bash req) (su_autostart req) (su_chooser req) paths prior)"

section \<open>Counting markers\<close>

text \<open>A marker line is found once for every line that ends with the marker.\<close>

lemma endswith_iff_suffix: "endswith s p \<longleftrightarrow> (\<exists>r. s = r @ p)"
  by (auto simp: endswith_iff)

lemma line_eq:
  assumes "NL \<notin> set a" "NL \<notin> set b" "a @ NL # r = b @ NL # z"
  shows "a = b"
proof -
  have "takeWhile (\<lambda>c. c \<noteq> NL) (u @ NL # v) = u" if "NL \<notin> set u" for u v
    using that by (subst takeWhile_append2) auto
  with assms show ?thesis by metis
qed

lemma startswith_line:
  assumes "NL \<notin> set m" "NL \<notin> set l"
  shows "startswith (l @ NL # r) (m @ [NL]) \<longleftrightarrow> l = m"
proof
  assume "startswith (l @ NL # r) (m @ [NL])"
  then obtain z where "l @ NL # r = m @ NL # z" by (auto simp: startswith_iff)
  then show "l = m" by (rule line_eq [OF assms(2,1)])
next
  assume "l = m"
  then have "l @ NL # r = (m @ [NL]) @ r" by simp
  then show "startswith (l @ NL # r) (m @ [NL])" unfolding startswith_iff by blast
qed

lemma count_line:
  assumes "NL \<notin> set m" "m \<noteq> []"
  shows "NL \<notin> set l \<Longrightarrow> count_sub (m @ [NL]) (l @ NL # r) = (if endswith l m then 1 else 0) + count_sub (m @ [NL]) r"
proof (induction l)
  case Nil
  then show ?case using startswith_line [of m "[]" r] assms by (auto simp: endswith_iff_suffix)
next
  case (Cons c l)
  show ?case
  proof (cases "c # l = m")
    case True
    have d: "drop (length (m @ [NL]) - 1) (l @ NL # r) = r" by (simp flip: True)
    have s: "startswith (c # (l @ NL # r)) (m @ [NL])" using startswith_line [OF assms(1) Cons.prems, of r] True unfolding append_Cons by blast
    have "endswith (c # l) m" using True by (auto simp: endswith_iff_suffix)
    moreover have "count_sub (m @ [NL]) (c # (l @ NL # r)) = Suc (count_sub (m @ [NL]) r)"
      by (simp only: count_sub.simps(2) s if_True d)
    ultimately show ?thesis by simp
  next
    case False
    have "endswith (c # l) m \<longleftrightarrow> endswith l m"
      using False by (auto simp: endswith_iff_suffix Cons_eq_append_conv)
    with False Cons startswith_line [OF assms(1) Cons.prems, of r] show ?thesis by simp
  qed
qed

lemma count_no_line:
  assumes "m \<noteq> []" shows "NL \<notin> set l \<Longrightarrow> count_sub (m @ [NL]) l = 0"
proof (induction l)
  case (Cons c l)
  have "\<not> startswith (c # l) (m @ [NL])"
  proof
    assume "startswith (c # l) (m @ [NL])"
    then obtain r where "c # l = m @ NL # r" by (auto simp: startswith_iff)
    then have "NL \<in> set (c # l)" by simp
    with Cons.prems show False by simp
  qed
  with Cons show ?case by simp
qed simp

lemma lines_induct [case_names last line]:
  assumes "\<And>l. NL \<notin> set l \<Longrightarrow> P l" "\<And>l s. NL \<notin> set l \<Longrightarrow> P s \<Longrightarrow> P (l @ NL # s)"
  shows "P s"
proof (induction "length s" arbitrary: s rule: less_induct)
  case less
  show ?case
  proof (cases "NL \<in> set s")
    case True
    then obtain l r where "s = l @ NL # r" "NL \<notin> set l" by (meson split_list_first)
    with less [of r] assms(2) show ?thesis by simp
  qed (rule assms(1))
qed

lemma count_append:
  assumes "NL \<notin> set m" "m \<noteq> []"
  shows "count_sub (m @ [NL]) (a @ NL # b) = count_sub (m @ [NL]) (a @ [NL]) + count_sub (m @ [NL]) b"
proof (induction a rule: lines_induct)
  case (last l)
  then show ?case using count_line [OF assms last] count_no_line [OF assms(2), of "[]"] by simp
next
  case (line l s)
  then show ?case using count_line [OF assms line(1)] by simp
qed

lemma count_last:
  assumes "NL \<notin> set m" "m \<noteq> []"
  shows "count_sub (m @ [NL]) (x @ m @ [NL]) \<ge> 1"
proof (induction x rule: lines_induct)
  case (last l)
  have "endswith (l @ m) m" by (auto simp: endswith_iff_suffix)
  then show ?case using count_line [OF assms, of "l @ m" "[]"] last assms(1) by simp
next
  case (line l s)
  then show ?case using count_line [OF assms line(1), of "s @ m @ [NL]"] by simp
qed

text \<open>A marker that is counted once stands at one place.\<close>

lemma once:
  assumes m: "NL \<notin> set m" "m \<noteq> []" and eq: "x @ m @ NL # y = x' @ m @ NL # y'" and n: "count_sub (m @ [NL]) (x @ m @ NL # y) \<le> 1"
  shows "x = x'"
proof -
  have less: False if shorter: "length u < length v" and same: "u @ m @ NL # w = v @ m @ NL # w'"
    and one: "count_sub (m @ [NL]) (u @ m @ NL # w) \<le> 1" for u v w w'
  proof -
    have c: "count_sub (m @ [NL]) (u @ m @ NL # w) = count_sub (m @ [NL]) (u @ m @ [NL]) + count_sub (m @ [NL]) w"
      using count_append [OF m, of "u @ m" w] by simp
    from shorter same obtain k where k: "v = u @ k" by (auto simp: append_eq_append_conv2)
    with same have eq: "m @ (NL # w) = k @ (m @ NL # w')" by simp
    have ne: "k \<noteq> []" using shorter k by simp
    obtain q where "w = q @ m @ NL # w'"
    proof -
      from eq consider us where "m = k @ us" "us @ NL # w = m @ NL # w'" | us where "m @ us = k" "NL # w = us @ m @ NL # w'"
        unfolding append_eq_append_conv2 by blast
      then show thesis
      proof cases
        case 1
        then have "NL \<notin> set us" using m(1) by simp
        from line_eq [OF this m(1) 1(2)] 1(1) ne show thesis by simp
      next
        case 2
        show thesis
        proof (cases us)
          case Nil
          with 2(2) m show thesis by (cases m) simp_all
        next
          case (Cons x q)
          with 2(2) that show thesis by simp
        qed
      qed
    qed
    then have "count_sub (m @ [NL]) w \<ge> 1"
      using count_append [OF m, of "q @ m" w'] count_last [OF m, of q] by simp
    with c one count_last [OF m, of u] show False by simp
  qed
  have n': "count_sub (m @ [NL]) (x' @ m @ NL # y') \<le> 1" using n unfolding eq .
  have "\<not> length x < length x'" "\<not> length x' < length x" using less [OF _ eq n] less [OF _ eq [symmetric] n'] by blast+
  with eq show ?thesis by simp
qed


section \<open>The markers of the blocks\<close>

definition markers :: "string list" where
  "markers = [V1_BEGIN, V1_END, LEGACY_BEGIN, LEGACY_END]"

lemma marker_texts: "m \<in> set markers \<Longrightarrow> NL \<notin> set m" "m \<in> set markers \<Longrightarrow> m \<noteq> []"
  "m \<in> set markers \<Longrightarrow> last m \<noteq> QUOTE"
  by (auto simp: markers_def V1_BEGIN_def V1_END_def LEGACY_BEGIN_def LEGACY_END_def NL_def QUOTE_def)

lemma in_markers [simp]:
  "V1_BEGIN \<in> set markers" "V1_END \<in> set markers" "LEGACY_BEGIN \<in> set markers" "LEGACY_END \<in> set markers"
  by (simp_all add: markers_def)

lemma set_replace_sub: "set (replace_sub p r s) \<subseteq> set r \<union> set s"
proof (induction p r s rule: replace_sub.induct)
  case (2 p r c s)
  moreover have "set (drop (length p) (c # s)) \<subseteq> set (c # s)" by (rule set_drop_subset)
  ultimately show ?case by (auto simp del: drop_Cons')
qed simp

lemma quoted_line:
  assumes "NL \<notin> set p"
  shows "NL \<notin> set (source_line p)" "NL \<notin> set (legacy_source_line p)"
  using assms set_replace_sub [of "[QUOTE]" "[QUOTE, CHR 0x22, QUOTE, CHR 0x22, QUOTE]" p]
  by (auto simp: source_line_def legacy_source_line_def shell_single_quote_def NL_def QUOTE_def)

lemma quoted_line_last: "m \<in> set markers \<Longrightarrow> \<not> endswith (source_line p) m" "m \<in> set markers \<Longrightarrow> \<not> endswith (legacy_source_line p) m"
proof -
  assume m: "m \<in> set markers"
  have "last m = last (r @ m)" for r using marker_texts(2) [OF m] by simp
  moreover have "last (source_line p) = QUOTE" "last (legacy_source_line p) = QUOTE"
    by (simp_all add: source_line_def legacy_source_line_def shell_single_quote_def)
  ultimately show "\<not> endswith (source_line p) m" "\<not> endswith (legacy_source_line p) m"
    using marker_texts(3) [OF m] by (metis endswith_iff_suffix)+
qed

lemma marker_ends:
  "endswith V1_BEGIN V1_BEGIN" "endswith V1_END V1_END" "endswith LEGACY_BEGIN LEGACY_BEGIN" "endswith LEGACY_END LEGACY_END"
  "\<not> endswith V1_BEGIN V1_END" "\<not> endswith V1_BEGIN LEGACY_BEGIN" "\<not> endswith V1_BEGIN LEGACY_END"
  "\<not> endswith V1_END V1_BEGIN" "\<not> endswith V1_END LEGACY_BEGIN" "\<not> endswith V1_END LEGACY_END"
  "\<not> endswith LEGACY_BEGIN V1_BEGIN" "\<not> endswith LEGACY_BEGIN V1_END" "\<not> endswith LEGACY_BEGIN LEGACY_END"
  "\<not> endswith LEGACY_END V1_BEGIN" "\<not> endswith LEGACY_END V1_END" "\<not> endswith LEGACY_END LEGACY_BEGIN"
  by code_simp+

lemma marker_count_line:
  "m \<in> set markers \<Longrightarrow> NL \<notin> set l \<Longrightarrow> marker_count (l @ NL # r) m = (if endswith l m then 1 else 0) + marker_count r m"
  unfolding marker_count_def by (rule count_line) (simp_all add: marker_texts)

lemma marker_count_append:
  "m \<in> set markers \<Longrightarrow> marker_count (a @ NL # b) m = marker_count (a @ [NL]) m + marker_count b m"
  unfolding marker_count_def by (rule count_append) (simp_all add: marker_texts)

lemma marker_count_Nil [simp]: "marker_count [] m = 0"
  by (simp add: marker_count_def)

lemma v1_counts:
  assumes "NL \<notin> set p"
  shows "marker_count (v1_block p) V1_BEGIN = 1" "marker_count (v1_block p) V1_END = 1"
    "marker_count (v1_block p) LEGACY_BEGIN = 0" "marker_count (v1_block p) LEGACY_END = 0"
  by (simp_all add: v1_block_def marker_count_line marker_ends marker_texts quoted_line [OF assms] quoted_line_last)

lemma legacy_counts:
  assumes "NL \<notin> set p"
  shows "marker_count (legacy_block p) V1_BEGIN = 0" "marker_count (legacy_block p) V1_END = 0"
    "marker_count (legacy_block p) LEGACY_BEGIN = 1" "marker_count (legacy_block p) LEGACY_END = 1"
  by (simp_all add: legacy_block_def marker_count_line marker_ends marker_texts quoted_line [OF assms] quoted_line_last)

text \<open>The blocks end with a newline, so counting goes on after them.\<close>

lemma block_end: "\<exists>w. v1_block p = w @ [NL]" "\<exists>w. legacy_block p = w @ [NL]"
  unfolding v1_block_def legacy_block_def by (metis append_assoc)+

lemma after_block:
  assumes "m \<in> set markers"
  shows "marker_count (v1_block p @ r) m = marker_count (v1_block p) m + marker_count r m"
    "marker_count (legacy_block p @ r) m = marker_count (legacy_block p) m + marker_count r m"
proof -
  have "marker_count (b @ r) m = marker_count b m + marker_count r m" if "b = w @ [NL]" for b w
    using marker_count_append [OF assms, of w r] that by simp
  then show "marker_count (v1_block p @ r) m = marker_count (v1_block p) m + marker_count r m"
    "marker_count (legacy_block p @ r) m = marker_count (legacy_block p) m + marker_count r m"
    using block_end [of p] by blast+
qed

text \<open>A block whose first marker is counted once is found where it is.\<close>

lemma find_block:
  assumes "block = m @ [NL] @ t" "m \<in> set markers" "marker_count (x @ block @ y) m \<le> 1"
  shows "find_sub block (x @ block @ y) = Some (length x)"
proof -
  have "contains (x @ block @ y) block" by (auto simp: contains_iff)
  then obtain k where k: "find_sub block (x @ block @ y) = Some k" by (auto simp: contains_def)
  define raw where "raw = x @ block @ y"
  from find_sub_Some [OF k] obtain y' where k': "k \<le> length raw" "raw = take k raw @ block @ y'"
    unfolding raw_def by blast
  define x' where "x' = take k raw"
  have "raw = x' @ block @ y'" unfolding x'_def by (rule k'(2))
  also have "x' @ block @ y' = x' @ m @ NL # (t @ y')" by (simp add: assms(1))
  finally have "raw = x' @ m @ NL # (t @ y')" .
  moreover have "raw = x @ m @ NL # (t @ y)" by (simp add: raw_def assms(1))
  ultimately have "x @ m @ NL # (t @ y) = x' @ m @ NL # (t @ y')" by simp
  moreover have "count_sub (m @ [NL]) (x @ m @ NL # (t @ y)) \<le> 1"
    using assms(3) unfolding assms(1) marker_count_def by simp
  ultimately have "x = x'"
    by (rule once [OF marker_texts(1) [OF assms(2)] marker_texts(2) [OF assms(2)]])
  with k k'(1) show ?thesis by (simp add: x'_def)
qed


section \<open>Enabling and disabling\<close>

text \<open>Text without marker lines, also when its last line is completed.\<close>

definition unmarked :: "string \<Rightarrow> bool" where
  "unmarked raw \<longleftrightarrow> list_all (\<lambda>m. marker_count (raw @ [NL]) m = 0) markers"

lemma unmarkedD: "unmarked raw \<Longrightarrow> m \<in> set markers \<Longrightarrow> marker_count (raw @ [NL]) m = 0"
  by (auto simp: unmarked_def list_all_iff)

lemma unmarked_before: "unmarked raw \<Longrightarrow> m \<in> set markers \<Longrightarrow> marker_count (raw @ NL # r) m = marker_count r m"
  using marker_count_append [of m raw r] by (simp add: unmarkedD)

lemma unmarked_counts:
  assumes "unmarked raw" "m \<in> set markers"
  shows "marker_count raw m = 0"
proof (cases "NL \<in> set raw")
  case True
  then obtain a l where raw: "raw = a @ NL # l" "NL \<notin> set l" by (meson split_list_last)
  have "marker_count l m = 0"
    unfolding marker_count_def by (rule count_no_line [OF marker_texts(2) [OF assms(2)] raw(2)])
  moreover have "marker_count (a @ [NL]) m = 0"
    using unmarkedD [OF assms] marker_count_append [OF assms(2), of a "l @ [NL]"] unfolding raw(1) by simp
  ultimately show ?thesis using marker_count_append [OF assms(2), of a l] unfolding raw(1) by simp
next
  case False
  then show ?thesis unfolding marker_count_def by (rule count_no_line [OF marker_texts(2) [OF assms(2)]])
qed

lemma block_starts: "v1_block p = V1_BEGIN @ [NL] @ (source_line p @ [NL] @ V1_END @ [NL])"
  "legacy_block p = LEGACY_BEGIN @ [NL] @ (legacy_source_line p @ [NL] @ LEGACY_END @ [NL])"
  by (simp_all add: v1_block_def legacy_block_def)

lemma block_nonempty [simp]: "v1_block p \<noteq> []" "legacy_block p \<noteq> []"
  by (simp_all add: v1_block_def legacy_block_def)

text \<open>What \<^verbatim>\<open>DISABLE\<close> and \<^verbatim>\<open>ENABLE\<close> do with one block of version 1 in a text that has no other marker.\<close>

lemma transform_v1:
  assumes p: "NL \<notin> set p" and c: "\<And>m. m \<in> set markers \<Longrightarrow> marker_count (x @ v1_block p @ y) m = marker_count (v1_block p) m"
  shows "transform_bashrc (x @ v1_block p @ y) p ENABLE = Inr (x @ v1_block p @ y)"
    "transform_bashrc (x @ v1_block p @ y) p DISABLE =
       Inr ((if x \<noteq> [] \<and> last x = NL then butlast x else x) @ y)"
proof -
  define raw where "raw = x @ v1_block p @ y"
  have n: "marker_count raw V1_BEGIN = 1" "marker_count raw V1_END = 1" "marker_count raw LEGACY_BEGIN = 0"
    "marker_count raw LEGACY_END = 0"
    using c v1_counts [OF p] by (simp_all add: raw_def)
  have f: "find_sub (v1_block p) raw = Some (length x)"
    unfolding raw_def by (rule find_block [OF block_starts(1)]) (use n(1) in \<open>simp_all add: raw_def\<close>)
  have "transform_bashrc raw p ENABLE = Inr raw"
    by (simp add: transform_bashrc_def n f contains_def)
  then show "transform_bashrc (x @ v1_block p @ y) p ENABLE = Inr (x @ v1_block p @ y)" by (simp add: raw_def)
  have at: "raw ! (length x - 1) = last x" "take (length x - 1) raw = butlast x" if "x \<noteq> []"
    using that by (simp_all add: raw_def nth_append last_conv_nth butlast_conv_take)
  have "take (length x) raw = x" "drop (length x + length (v1_block p)) raw = y" by (simp_all add: raw_def)
  with at have "transform_bashrc raw p DISABLE = Inr ((if x \<noteq> [] \<and> last x = NL then butlast x else x) @ y)"
    by (cases "x = []") (simp_all add: transform_bashrc_def n f Let_def replace_at_def)
  then show "transform_bashrc (x @ v1_block p @ y) p DISABLE = Inr ((if x \<noteq> [] \<and> last x = NL then butlast x else x) @ y)"
    by (simp add: raw_def)
qed

text \<open>C24: enabling the integration of a \<^verbatim>\<open>.bashrc\<close> without markers, enabling it again and disabling it gives back the very bytes
  the user had, whether or not the last line was complete, for every path without a newline - also one with quotes.\<close>
theorem bash_block_roundtrip:
  assumes "unmarked raw" "NL \<notin> set p"
  shows "\<exists>enabled. transform_bashrc raw p ENABLE = Inr enabled \<and> transform_bashrc enabled p ENABLE = Inr enabled \<and>
    transform_bashrc enabled p DISABLE = Inr raw"
proof (cases "raw = []")
  case True
  have "transform_bashrc [] p ENABLE = Inr (v1_block p)" by (simp add: transform_bashrc_def)
  with transform_v1 [OF assms(2), of "[]" "[]"] show ?thesis using True by simp
next
  case False
  have "transform_bashrc raw p ENABLE = Inr (raw @ [NL] @ v1_block p)"
    using False by (simp add: transform_bashrc_def unmarked_counts [OF assms(1)])
  moreover have "marker_count ((raw @ [NL]) @ v1_block p @ []) m = marker_count (v1_block p) m" if "m \<in> set markers" for m
    using that by (simp add: unmarked_before [OF assms(1)])
  from transform_v1 [OF assms(2) this] have "transform_bashrc (raw @ [NL] @ v1_block p) p ENABLE = Inr (raw @ [NL] @ v1_block p)"
    "transform_bashrc (raw @ [NL] @ v1_block p) p DISABLE = Inr raw" by simp_all
  ultimately show ?thesis by blast
qed

text \<open>C34: after the migration of a legacy block, disabling removes a newline that the user wrote: the line before the block and
  the line after it become one.\<close>
theorem migrated_block_joins_lines:
  assumes "unmarked before" "unmarked after" "NL \<notin> set p"
  shows "\<exists>enabled. transform_bashrc (before @ [NL] @ legacy_block p @ after) p ENABLE = Inr enabled \<and>
    transform_bashrc enabled p DISABLE = Inr (before @ after)"
proof -
  define raw where "raw = (before @ [NL]) @ legacy_block p @ after"
  have n: "marker_count raw m = marker_count (legacy_block p) m" if "m \<in> set markers" for m
    unfolding raw_def using that
    by (simp add: unmarked_before [OF assms(1)] after_block unmarked_counts [OF assms(2)])
  have f: "find_sub (legacy_block p) raw = Some (length (before @ [NL]))"
    unfolding raw_def
    by (rule find_block [OF block_starts(2)]) (use n [of LEGACY_BEGIN] legacy_counts [OF assms(3)] in \<open>simp_all add: raw_def\<close>)
  have "replace_at raw (length (before @ [NL])) (legacy_block p) (v1_block p) = (before @ [NL]) @ v1_block p @ after"
    by (simp add: replace_at_def raw_def)
  then have "transform_bashrc raw p ENABLE = Inr ((before @ [NL]) @ v1_block p @ after)"
    using f by (simp add: transform_bashrc_def n legacy_counts [OF assms(3)] Let_def)
  moreover have "marker_count ((before @ [NL]) @ v1_block p @ after) m = marker_count (v1_block p) m" if "m \<in> set markers" for m
    using that by (simp add: unmarked_before [OF assms(1)] after_block unmarked_counts [OF assms(2)])
  from transform_v1(2) [OF assms(3) this]
  have "transform_bashrc ((before @ [NL]) @ v1_block p @ after) p DISABLE = Inr (before @ after)" by simp
  ultimately show ?thesis unfolding raw_def by simp
qed


theorem bash_block_roundtrip_witness:
  "\<exists>enabled. transform_bashrc (''alias a=b'' @ [NL]) [CHR ''/'', QUOTE, CHR ''x''] ENABLE = Inr enabled \<and>
     transform_bashrc enabled [CHR ''/'', QUOTE, CHR ''x''] ENABLE = Inr enabled \<and>
     transform_bashrc enabled [CHR ''/'', QUOTE, CHR ''x''] DISABLE = Inr (''alias a=b'' @ [NL])"
proof (rule bash_block_roundtrip)
  show "unmarked (''alias a=b'' @ [NL])" by code_simp
  show "NL \<notin> set [CHR ''/'', QUOTE, CHR ''x'']" by code_simp
qed

theorem migrated_block_joins_lines_witness:
  "\<exists>enabled. transform_bashrc (''alias a=b'' @ [NL] @ legacy_block ''/x'' @ ''alias c=d'') ''/x'' ENABLE = Inr enabled \<and>
     transform_bashrc enabled ''/x'' DISABLE = Inr (''alias a=b'' @ ''alias c=d'')"
proof (rule migrated_block_joins_lines)
  show "unmarked ''alias a=b''" "unmarked ''alias c=d''" by code_simp+
  show "NL \<notin> set ''/x''" by code_simp
qed

end
