(* ===== verification/Lifecycle.thy ===== *)
theory Lifecycle
  imports Integrations
begin

text \<open>
  The transactions of \<^verbatim>\<open>lifecycle.py\<close> over the disk: the setup of the integrations of an installation, with its rollback,
  and the manifests that setups and removals write. A \<^verbatim>\<open>FailureInjector\<close> is the set of points at which it raises.
\<close>

section \<open>Results and failures\<close>

datatype LifecycleExit = OK | INTERNAL | USAGE | PREREQUISITE | REFUSED | ROLLED_BACK | ROLLBACK_INCOMPLETE | WARNING

datatype FailurePoint =
    AFTER_STAGE_DIR | AFTER_VENV | AFTER_WHEEL | AFTER_SELF_CHECK | AFTER_GENERATION_RENAME | AFTER_BASH | AFTER_AUTOSTART
  | AFTER_CHOOSER | AFTER_COMMAND_LINK | AFTER_CURRENT_LINK | AFTER_QUARANTINE | AFTER_MANIFEST | DURING_ROLLBACK
  | DURING_POSTCOMMIT_CLEANUP

definition injector :: "FailurePoint set \<Rightarrow> FailurePoint \<Rightarrow> (disk, unit) act" where
  "injector points p = (if p \<in> points then raise_s (InjectedFailure ''point'') else ret ())"

text \<open>\<^verbatim>\<open>except Exception\<close> lets a \<^verbatim>\<open>KeyboardInterrupt\<close> through.\<close>

definition is_Exception :: "py_error \<Rightarrow> bool" where "is_Exception e \<longleftrightarrow> e \<noteq> KeyboardInterrupt"

section \<open>Reading and changing\<close>

text \<open>\<^verbatim>\<open>Path.exists\<close> and \<^verbatim>\<open>read_bytes\<close> follow at most 40 links. A path through a linked directory has no node.\<close>

fun follow :: "(string \<Rightarrow> node option) \<Rightarrow> nat \<Rightarrow> string \<Rightarrow> node option" where
  "follow ns 0 p = None"
| "follow ns (Suc k) p =
     (case ns p of
        Some (Link u t) \<Rightarrow> follow ns k (normpath (path_join (parent p) t))
      | x \<Rightarrow> x)"

definition followed :: "string \<Rightarrow> (disk, node option) act" where
  "followed p = gets (\<lambda>s. follow (nodes s) 41 p)"

definition path_exists :: "string \<Rightarrow> (disk, bool) act" where
  "path_exists p = bind_s (followed p) (\<lambda>x. ret (x \<noteq> None))"

definition read_bytes :: "drive \<Rightarrow> string \<Rightarrow> (disk, string) act" where
  "read_bytes d p =
     bind_s (effect d (ret ())) (\<lambda>_.
     bind_s (followed p) (\<lambda>x.
     case x of
       None \<Rightarrow> raise_s (FileNotFoundError p)
     | Some (Regular u m n c) \<Rightarrow> ret c
     | Some _ \<Rightarrow> raise_s (OSError p)))"

definition safe_remove :: "drive \<Rightarrow> string \<Rightarrow> (disk, unit) act" where
  "safe_remove d p =
     bind_s (node_at p) (\<lambda>x.
     case x of
       None \<Rightarrow> ret ()
     | Some (Folder u m) \<Rightarrow> raise_s (UnsafeLifecyclePath (''refused to remove non-leaf '' @ p))
     | Some _ \<Rightarrow> effect d (put_node p None))"

text \<open>The missing directories above a path, the outermost first; the root is never made.\<close>

definition missing_parents :: "string \<Rightarrow> (disk, string list) act" where
  "missing_parents p = gets (\<lambda>s. rev (takeWhile (\<lambda>q. nodes s q = None) (rev (tl (chain_of (parent p))))))"

text \<open>A directory that was just made is the user's with mode 0700, so the check after it passes.\<close>

definition make_directory :: "drive \<Rightarrow> string \<Rightarrow> (disk, unit) act" where
  "make_directory d q =
     effect d (bind_s (node_at (parent q)) (\<lambda>x.
       case x of
         Some (Folder u m) \<Rightarrow> put_node q (Some (Folder (dr_uid d) 448))
       | _ \<Rightarrow> raise_s (OSError q)))"

definition ensure_parent :: "drive \<Rightarrow> string \<Rightarrow> (disk, unit) act" where
  "ensure_parent d p = bind_s (missing_parents p) (for_each (make_directory d))"

definition apply_mutation :: "drive \<Rightarrow> PlannedMutation \<Rightarrow> (disk, unit) act" where
  "apply_mutation d m =
     (case bi_kind (pm_after m) of
        FILE \<Rightarrow>
          bind_s (ensure_parent d (pm_path m)) (\<lambda>_.
          atomic_write d (pm_path m) (or_empty (bi_content (pm_after m))) (or_mode (bi_mode (pm_after m))))
      | ABSENT \<Rightarrow> safe_remove d (pm_path m)
      | SYMLINK \<Rightarrow>
          bind_s (ensure_parent d (pm_path m)) (\<lambda>_. atomic_symlink d (pm_path m) (or_empty (bi_target (pm_after m)))))"

section \<open>Manifests\<close>

definition rewrite_integration_manifest ::
  "InstallManifest \<Rightarrow> IntegrationPlan \<Rightarrow> IntegrationSetupRequest \<Rightarrow> InstallManifest" where
  "rewrite_integration_manifest prior plan req = prior\<lparr>
     im_bash_enabled := (if is_bash req = PRESERVE then im_bash_enabled prior else is_bash req = ENABLE),
     im_autostart_enabled := (if is_autostart req = PRESERVE then im_autostart_enabled prior else is_autostart req = ENABLE),
     im_chooser := (if co_changed (ip_chooser_ownership plan) then ip_chooser_ownership plan else im_chooser prior),
     im_bash_backup := (case ip_bash_backup plan of Some b \<Rightarrow> Some b | None \<Rightarrow> im_bash_backup prior)\<rparr>"

text \<open>The manifest of an installation: what it owns is what this setup wrote.\<close>

definition installed_object :: "PlannedMutation \<Rightarrow> OwnedObject" where
  "installed_object m =
     \<lparr>ow_path = pm_path m, ow_kind = FILE, ow_mode = or_mode (bi_mode (pm_after m)), ow_sha256 = bi_sha256 (pm_after m), ow_target = None\<rparr>"

definition link_object :: "string \<Rightarrow> string \<Rightarrow> OwnedObject" where
  "link_object p target = \<lparr>ow_path = p, ow_kind = SYMLINK, ow_mode = 511, ow_sha256 = None, ow_target = Some target\<rparr>"

definition bash_object :: "drive \<Rightarrow> SetupRequest \<Rightarrow> LifecyclePaths \<Rightarrow> (disk, OwnedObject list) act" where
  "bash_object d req paths =
     bind_s (path_exists (bash_integration paths)) (\<lambda>there.
     if su_bash req = ENABLE \<and> there then
       bind_s (read_bytes d (bash_integration paths)) (\<lambda>content.
       ret [\<lparr>ow_path = bash_integration paths, ow_kind = FILE, ow_mode = 384, ow_sha256 = Some (dr_sha d content), ow_target = None\<rparr>])
     else ret [])"

definition build_install_manifest ::
  "drive \<Rightarrow> LifecyclePaths \<Rightarrow> SetupRequest \<Rightarrow> string \<Rightarrow> string \<Rightarrow> IntegrationPlan \<Rightarrow> BeforeImage list \<Rightarrow> BeforeImage \<Rightarrow> BeforeImage \<Rightarrow>
     (disk, InstallManifest) act" where
  "build_install_manifest d paths req generation_id install_id plan before_links before_current before_manifest =
     (let gen = path_join (generations paths) generation_id;
          marker_path = path_join gen ''.termrecall-generation.json'' in
      bind_s (read_bytes d marker_path) (\<lambda>raw_marker.
      bind_s (bash_object d req paths) (\<lambda>bash_owned.
      ret \<lparr>im_schema_version = 2, im_installer_version = ''1.0'', im_application_version = ''0.1.0'', im_install_id = install_id,
        im_generation_id = generation_id, im_roots = expected_roots paths (dr_uid d),
        im_marker = \<lparr>mk_path = marker_path, mk_sha256 = dr_sha d raw_marker, mk_mode = 384\<rparr>,
        im_owned = [link_object (current_link paths) gen] @
          map (\<lambda>l. link_object l (path_join (current_link paths) (''venv/bin/'' @ path_name l))) (command_links paths) @
          map installed_object (filter (\<lambda>m. bi_kind (pm_after m) = FILE) (ip_autostart plan @ ip_chooser plan)) @ bash_owned,
        im_created_parents = [], im_bash_enabled = (ip_bash plan \<noteq> [] \<and> su_bash req \<noteq> DISABLE),
        im_autostart_enabled = (su_autostart req = ENABLE), im_chooser = ip_chooser_ownership plan,
        im_rollback_images = [before_current] @ before_links @ [before_manifest], im_bash_backup = ip_bash_backup plan\<rparr>)))"

section \<open>Setting up the integrations\<close>

definition read_prior_manifest :: "drive \<Rightarrow> (rat \<Rightarrow> string) \<Rightarrow> LifecyclePaths \<Rightarrow> (disk, InstallManifest) act" where
  "read_prior_manifest d fr paths =
     bind_s (path_exists (manifest_path paths)) (\<lambda>there.
     if \<not> there then raise_s (LifecycleError 4 ''no installed manifest'')
     else
       bind_s (read_bytes d (manifest_path paths)) (\<lambda>raw.
       lift_s (manifest_from_bytes fr (dr_sha d) raw paths (dr_uid d))))"

text \<open>The mutations one by one: those that were applied, and the exception that ended it.\<close>

primrec apply_each ::
  "drive \<Rightarrow> PlannedMutation list \<Rightarrow> PlannedMutation list \<Rightarrow> (disk, PlannedMutation list \<times> py_error option) act" where
  "apply_each d [] applied = ret (applied, None)"
| "apply_each d (m # ms) applied =
     bind_s (catch (bind_s (apply_mutation d m) (\<lambda>_. ret None)) (\<lambda>e. ret (Some e))) (\<lambda>raised.
     case raised of None \<Rightarrow> apply_each d ms (applied @ [m]) | Some e \<Rightarrow> ret (applied, Some e))"

definition commit_manifest ::
  "drive \<Rightarrow> (rat \<Rightarrow> string) \<Rightarrow> FailurePoint set \<Rightarrow> LifecyclePaths \<Rightarrow> InstallManifest \<Rightarrow> (disk, unit) act" where
  "commit_manifest d fr points paths m =
     bind_s (injector points AFTER_BASH) (\<lambda>_.
     bind_s (lift_s (manifest_to_bytes fr m)) (\<lambda>raw.
     atomic_write d (manifest_path paths) raw 384))"

definition restore_all :: "drive \<Rightarrow> PlannedMutation list \<Rightarrow> (disk, unit) act" where
  "restore_all d applied = for_each (\<lambda>m. restore_before d (pm_before m)) (rev applied)"

text \<open>\<^verbatim>\<open>except Exception: pass\<close> around each restoration.\<close>

definition restore_each :: "drive \<Rightarrow> PlannedMutation list \<Rightarrow> (disk, unit) act" where
  "restore_each d applied =
     for_each (\<lambda>m. catch (restore_before d (pm_before m)) (\<lambda>e. if is_Exception e then ret () else raise_s e)) (rev applied)"

definition roll_back :: "drive \<Rightarrow> PlannedMutation list \<Rightarrow> py_error \<Rightarrow> (disk, LifecycleExit) act" where
  "roll_back d applied e =
     (case e of
        InjectedFailure t \<Rightarrow> bind_s (restore_all d applied) (\<lambda>_. ret ROLLED_BACK)
      | _ \<Rightarrow> if is_Exception e then bind_s (restore_each d applied) (\<lambda>_. ret ROLLED_BACK) else raise_s e)"

definition integration_transaction ::
  "drive \<Rightarrow> (rat \<Rightarrow> string) \<Rightarrow> FailurePoint set \<Rightarrow> LifecyclePaths \<Rightarrow> PlannedMutation list \<Rightarrow> InstallManifest \<Rightarrow> (disk, LifecycleExit) act" where
  "integration_transaction d fr points paths mutations new_manifest =
     bind_s (apply_each d mutations []) (\<lambda>(applied, raised).
     bind_s (case raised of
         Some e \<Rightarrow> ret (Some e)
       | None \<Rightarrow> catch (bind_s (commit_manifest d fr points paths new_manifest) (\<lambda>_. ret None)) (\<lambda>e. ret (Some e))) (\<lambda>raised.
     case raised of None \<Rightarrow> ret OK | Some e \<Rightarrow> roll_back d applied e))"

definition lock_for_setup :: "drive \<Rightarrow> LifecyclePaths \<Rightarrow> (disk, bool) act" where
  "lock_for_setup d paths =
     bind_s (path_exists (config_root paths)) (\<lambda>dir.
     bind_s (path_exists (lifecycle_lock paths)) (\<lambda>lock.
     catch (bind_s (open_lock d (config_root paths) (lifecycle_lock paths) (\<not> dir) (\<not> lock)) (\<lambda>_. ret True))
       (\<lambda>e. if is_OSError e \<or> (\<exists>t. e = UnsafeLifecyclePath t) then ret False else raise_s e)))"

definition execute_integration_setup ::
  "drive \<Rightarrow> (rat \<Rightarrow> string) \<Rightarrow> FailurePoint set \<Rightarrow> IntegrationSetupRequest \<Rightarrow> LifecyclePaths \<Rightarrow> (disk, LifecycleExit) act" where
  "execute_integration_setup d fr points req paths =
     bind_s (catch
       (bind_s (read_prior_manifest d fr paths) (\<lambda>prior.
        bind_s (plan_installed_integrations d req paths prior) (\<lambda>plan. ret (Some (prior, plan)))))
       (\<lambda>e. if is_ValueError e \<or> (\<exists>k t. e = LifecycleError k t) then ret None else raise_s e)) (\<lambda>planned.
     case planned of
       None \<Rightarrow> ret REFUSED
     | Some (prior, plan) \<Rightarrow>
         if is_dry_run req then ret OK
         else
           bind_s (lock_for_setup d paths) (\<lambda>locked.
           let mutations = ip_bash plan @ ip_autostart plan @ ip_chooser plan in
           if \<not> locked then ret REFUSED
           else if mutations = [] then ret OK
           else integration_transaction d fr points paths mutations (rewrite_integration_manifest prior plan req)))"

definition set_autostart :: "drive \<Rightarrow> (rat \<Rightarrow> string) \<Rightarrow> bool \<Rightarrow> LifecyclePaths \<Rightarrow> (disk, LifecycleExit) act" where
  "set_autostart d fr enabled paths =
     execute_integration_setup d fr {}
       \<lparr>is_dry_run = False, is_bash = PRESERVE, is_autostart = (if enabled then ENABLE else DISABLE), is_chooser = PRESERVE\<rparr> paths"

definition set_chooser :: "drive \<Rightarrow> (rat \<Rightarrow> string) \<Rightarrow> bool \<Rightarrow> LifecyclePaths \<Rightarrow> (disk, LifecycleExit) act" where
  "set_chooser d fr enabled paths =
     execute_integration_setup d fr {}
       \<lparr>is_dry_run = False, is_bash = PRESERVE, is_autostart = PRESERVE, is_chooser = (if enabled then ENABLE else DISABLE)\<rparr> paths"

section \<open>Removing an integration\<close>

record UninstallRequest =
  un_remove_application :: bool
  un_remove_bash :: bool
  un_remove_autostart :: bool
  un_restore_chooser :: bool
  un_purge_state :: bool
  un_assume_yes :: bool

definition disable_bash_block :: "drive \<Rightarrow> LifecyclePaths \<Rightarrow> (disk, unit) act" where
  "disable_bash_block d paths =
     bind_s (capture_before d (bashrc paths)) (\<lambda>before.
     bind_s (lift_s (transform_bashrc (or_empty (bi_content before)) (bash_integration paths) DISABLE)) (\<lambda>transformed.
     atomic_write d (bashrc paths) transformed
       (if bi_kind before = FILE then (case bi_mode before of None \<Rightarrow> 384 | Some m \<Rightarrow> m) else 384)))"

definition restore_chooser :: "drive \<Rightarrow> InstallManifest \<Rightarrow> (disk, unit) act" where
  "restore_chooser d prior = restore_before d (co_original (im_chooser prior))"

definition partial_manifest :: "LifecyclePaths \<Rightarrow> InstallManifest \<Rightarrow> UninstallRequest \<Rightarrow> InstallManifest" where
  "partial_manifest paths prior req = prior\<lparr>
     im_bash_enabled := (if un_remove_bash req then False else im_bash_enabled prior),
     im_autostart_enabled := (if un_remove_autostart req then False else im_autostart_enabled prior),
     im_chooser := (if un_restore_chooser req then \<lparr>co_original = co_original (im_chooser prior), co_post = None, co_changed = False\<rparr>
       else im_chooser prior),
     im_owned := filter (\<lambda>x. \<not> (un_remove_autostart req \<and> ow_path x = autostart paths)) (im_owned prior),
     im_bash_backup := (if un_remove_bash req then None else im_bash_backup prior)\<rparr>"

definition rewrite_manifest_partial ::
  "drive \<Rightarrow> (rat \<Rightarrow> string) \<Rightarrow> LifecyclePaths \<Rightarrow> InstallManifest \<Rightarrow> UninstallRequest \<Rightarrow> (disk, unit) act" where
  "rewrite_manifest_partial d fr paths prior req =
     bind_s (lift_s (manifest_to_bytes fr (partial_manifest paths prior req))) (\<lambda>raw.
     atomic_write d (manifest_path paths) raw 384)"

end
