(* ===== verification/Transaction.thy ===== *)
theory Transaction
  imports Lifecycle
begin

text \<open>
  The setup of the integrations as a transaction: how a single call on the disk ends, how a list of mutations is applied
  and restored, and that with at most one failure the setup is all or nothing. Then what does not hold: a failure after
  the effect of a call, an autostart entry that no manifest owns, and a \<^verbatim>\<open>.bashrc\<close> that is a link.
\<close>

section \<open>Single calls\<close>

definition folder_at :: "(string \<Rightarrow> node option) \<Rightarrow> string \<Rightarrow> bool" where
  "folder_at ns p \<longleftrightarrow> (case ns p of Some (Folder u m) \<Rightarrow> True | _ \<Rightarrow> False)"

text \<open>A place where the user can replace a file: the directories are there, and the last one is the user's own.\<close>

definition open_path :: "drive \<Rightarrow> (string \<Rightarrow> node option) \<Rightarrow> string \<Rightarrow> bool" where
  "open_path d ns p \<longleftrightarrow> is_absolute p \<and> normpath p = p \<and> is_absolute (parent p) \<and> normpath (parent p) = parent p \<and>
     list_all (folder_at ns) (chain_of (parent p)) \<and>
     (case ns (parent p) of Some (Folder u m) \<Rightarrow> u = dr_uid d \<and> \<not> others_write m | _ \<Rightarrow> False)"

definition same_folders :: "(string \<Rightarrow> node option) \<Rightarrow> (string \<Rightarrow> node option) \<Rightarrow> bool" where
  "same_folders ns ms \<longleftrightarrow> (\<forall>q. folder_at ns q \<longrightarrow> ms q = ns q)"

lemma open_path_same: "open_path d ns p \<Longrightarrow> same_folders ns ms \<Longrightarrow> open_path d ms p"
proof -
  assume o: "open_path d ns p" and same: "same_folders ns ms"
  have same_at: "ms q = ns q" if "folder_at ns q" for q using same that by (simp add: same_folders_def)
  have at: "folder_at ms q" if "folder_at ns q" for q using that same_at [OF that] by (simp add: folder_at_def)
  have "folder_at ns (parent p)" using o by (auto simp: open_path_def folder_at_def split: option.splits node.splits)
  note same_at [OF this]
  with o at show ?thesis by (simp add: open_path_def list_all_iff)
qed

lemma open_each_runs: "list_all (folder_at (nodes s)) qs \<Longrightarrow> open_each qs s = (Inr (), s)"
  by (induction qs) (auto simp: folder_at_def node_at_def bind_s_run split: option.splits node.splits)

lemma open_runs:
  assumes "open_path d (nodes s) p"
  shows "validate_canonical_abs p s = (Inr (), s)" "open_dir_chain (parent p) s = (Inr (), s)"
    "validate_parent d (parent p) s = (Inr (), s)"
  using assms
  by (auto simp: open_path_def validate_canonical_abs_def open_dir_chain_def bind_s_run open_each_runs validate_parent_def node_at_def
      split: option.splits node.splits)

lemma effect_run:
  "effect d m s = (case dr_fault d (dk_calls s) of
     Works \<Rightarrow> m (s\<lparr>dk_calls := Suc (dk_calls s)\<rparr>)
   | Breaks False e \<Rightarrow> (Inl e, s\<lparr>dk_calls := Suc (dk_calls s)\<rparr>)
   | Breaks True e \<Rightarrow> bind_s m (\<lambda>_. raise_s e) (s\<lparr>dk_calls := Suc (dk_calls s)\<rparr>))"
  by (simp add: effect_def bind_s_run split: fault.split bool.split)

text \<open>How a replacement of the node at \<open>p\<close> ends.\<close>

definition put_ends :: "drive \<Rightarrow> string \<Rightarrow> node option \<Rightarrow> disk \<Rightarrow> unit result \<times> disk" where
  "put_ends d p x s =
     (let t = s\<lparr>dk_calls := Suc (dk_calls s)\<rparr>; u = t\<lparr>nodes := (nodes s)(p := x)\<rparr> in
      case dr_fault d (dk_calls s) of Works \<Rightarrow> (Inr (), u) | Breaks False e \<Rightarrow> (Inl e, t) | Breaks True e \<Rightarrow> (Inl e, u))"

lemma replace_leaf_run:
  "\<not> folder_at (nodes s) p \<Longrightarrow> replace_leaf d p what new s = put_ends d p (Some new) s"
  by (auto simp: replace_leaf_def effect_run put_ends_def node_at_def put_node_def bind_s_run folder_at_def Let_def
      split: fault.split bool.split option.split node.split)

lemma write_run:
  assumes "open_path d (nodes s) p" "\<not> folder_at (nodes s) p"
  shows "atomic_write d p c m s = put_ends d p (Some (Regular (dr_uid d) (m mod 4096) 1 c)) s"
    "t \<noteq> [] \<Longrightarrow> atomic_symlink d p t s = put_ends d p (Some (Link (dr_uid d) t)) s"
  by (simp_all add: atomic_write_def atomic_symlink_def bind_s_run open_runs [OF assms(1)] replace_leaf_run [OF assms(2)])

text \<open>What the program itself puts at a path.\<close>

fun made :: "drive \<Rightarrow> node option \<Rightarrow> bool" where
  "made d (Some (Regular u m n c)) \<longleftrightarrow> u = dr_uid d \<and> n = 1"
| "made d (Some (Link u t)) \<longleftrightarrow> u = dr_uid d"
| "made d None \<longleftrightarrow> True"
| "made d _ \<longleftrightarrow> False"

lemma unlink_run:
  assumes "open_path d (nodes s) p" "made d (nodes s p)" "nodes s p \<noteq> None"
  shows "unlink_leaf_if_present d p s = put_ends d p None s"
  using assms(2,3)
  by (cases "(d, nodes s p)" rule: made.cases)
    (simp_all add: unlink_leaf_if_present_def unlink_leaf_def bind_s_run catch_def open_runs [OF assms(1)] node_at_def effect_run
      put_ends_def put_node_def Let_def split: fault.split bool.split)

lemma unlink_absent:
  assumes "open_path d (nodes s) p" "nodes s p = None"
  shows "unlink_leaf_if_present d p s = (Inr (), s)"
  using assms(2) by (simp add: unlink_leaf_if_present_def unlink_leaf_def bind_s_run catch_def open_runs [OF assms(1)] node_at_def)

lemma missing_none: "list_all (folder_at (nodes s)) (chain_of (parent p)) \<Longrightarrow> ensure_parent d p s = (Inr (), s)"
proof -
  assume l: "list_all (folder_at (nodes s)) (chain_of (parent p))"
  have "takeWhile (\<lambda>q. nodes s q = None) qs = []" if "list_all (folder_at (nodes s)) qs" for qs
    using that by (cases qs) (auto simp: folder_at_def split: option.splits node.splits)
  moreover have "list_all (folder_at (nodes s)) (rev (tl (chain_of (parent p))))"
    using l by (cases "chain_of (parent p)") (simp_all add: list_all_iff)
  ultimately show ?thesis by (simp add: ensure_parent_def missing_parents_def bind_s_run)
qed

text \<open>The node a mutation leaves.\<close>

definition node_of :: "drive \<Rightarrow> BeforeImage \<Rightarrow> node option" where
  "node_of d b =
     (case bi_kind b of
        ABSENT \<Rightarrow> None
      | FILE \<Rightarrow> Some (Regular (dr_uid d) (or_mode (bi_mode b) mod 4096) 1 (or_empty (bi_content b)))
      | SYMLINK \<Rightarrow> Some (Link (dr_uid d) (or_empty (bi_target b))))"

lemma made_node_of: "made d (node_of d b)" "\<not> folder_at (ns(p := node_of d b)) p"
  by (auto simp: node_of_def folder_at_def split: ObjectKind.split)

definition usable_image :: "BeforeImage \<Rightarrow> bool" where
  "usable_image b \<longleftrightarrow> bi_kind b \<noteq> SYMLINK \<or> or_empty (bi_target b) \<noteq> []"

lemma apply_mutation_run:
  assumes "open_path d (nodes s) (pm_path m)" "\<not> folder_at (nodes s) (pm_path m)" "usable_image (pm_after m)"
  shows "apply_mutation d m s = put_ends d (pm_path m) (node_of d (pm_after m)) s \<or>
    nodes s (pm_path m) = None \<and> node_of d (pm_after m) = None \<and> apply_mutation d m s = (Inr (), s)"
proof (cases "bi_kind (pm_after m)")
  case ABSENT
  with assms(2) show ?thesis
    by (auto simp: apply_mutation_def safe_remove_def bind_s_run node_at_def effect_run put_ends_def put_node_def node_of_def folder_at_def
        Let_def split: fault.split bool.split option.split node.split)
next
  case FILE
  with assms show ?thesis
    by (simp add: apply_mutation_def bind_s_run missing_none write_run node_of_def open_path_def [of d "nodes s"])
next
  case SYMLINK
  with assms show ?thesis
    by (simp add: apply_mutation_def bind_s_run missing_none write_run node_of_def usable_image_def open_path_def [of d "nodes s"])
qed

section \<open>A transaction with at most one failure\<close>

text \<open>Nothing fails from the call \<open>n\<close> on.\<close>

definition quiet :: "drive \<Rightarrow> nat \<Rightarrow> bool" where
  "quiet d n \<longleftrightarrow> (\<forall>k \<ge> n. dr_fault d k = Works)"

definition single_failure :: "drive \<Rightarrow> bool" where
  "single_failure d \<longleftrightarrow>
     (\<forall>n. dr_fault d n = Works \<or> (\<exists>e. dr_fault d n = Breaks False e \<and> is_Exception e \<and> quiet d (Suc n)))"

definition puts :: "(PlannedMutation \<Rightarrow> node option) \<Rightarrow> PlannedMutation list \<Rightarrow> (string \<Rightarrow> node option) \<Rightarrow> string \<Rightarrow> node option" where
  "puts g ms ns = fold (\<lambda>m ns. ns(pm_path m := g m)) ms ns"

lemma puts_simps [simp]: "puts g [] ns = ns" "puts g (m # ms) ns = puts g ms (ns(pm_path m := g m))"
  "puts g (ms @ ks) ns = puts g ks (puts g ms ns)"
  by (simp_all add: puts_def)

lemma puts_other: "p \<notin> pm_path ` set ms \<Longrightarrow> puts g ms ns p = ns p"
  by (induction ms arbitrary: ns) auto

lemma puts_at: "distinct (map pm_path ms) \<Longrightarrow> m \<in> set ms \<Longrightarrow> puts g ms ns (pm_path m) = g m"
  by (induction ms arbitrary: ns) (auto simp: puts_other)

lemma put_keeps_folders: "\<not> folder_at ns p \<Longrightarrow> same_folders ns (ns(p := x))"
  by (auto simp: same_folders_def)

text \<open>A call that replaces a node ends without a failure, or with the only one.\<close>

lemma put_ends_cases:
  assumes "single_failure d"
  obtains t where "put_ends d p x s = (Inr (), t)" "nodes t = (nodes s)(p := x)" "dk_calls t = Suc (dk_calls s)"
  | t e where "put_ends d p x s = (Inl e, t)" "nodes t = nodes s" "is_Exception e" "quiet d (dk_calls t)"
proof (cases "dr_fault d (dk_calls s)")
  case Works
  then show thesis
    by (intro that(1) [of "s\<lparr>dk_calls := Suc (dk_calls s), nodes := (nodes s)(p := x)\<rparr>"]) (simp_all add: put_ends_def Let_def)
next
  case (Breaks after e)
  with assms have "\<not> after" "is_Exception e" "quiet d (Suc (dk_calls s))" unfolding single_failure_def by (metis fault.distinct(1) fault.inject)+
  with Breaks show thesis by (intro that(2) [of e "s\<lparr>dk_calls := Suc (dk_calls s)\<rparr>"]) (simp_all add: put_ends_def Let_def)
qed

lemma put_ends_quiet:
  assumes "quiet d (dk_calls s)"
  obtains t where "put_ends d p x s = (Inr (), t)" "nodes t = (nodes s)(p := x)" "quiet d (dk_calls t)"
  using assms
  by (intro that [of "s\<lparr>dk_calls := Suc (dk_calls s), nodes := (nodes s)(p := x)\<rparr>"]) (simp_all add: put_ends_def quiet_def Let_def)

text \<open>A file or a link that a restoration brings back as it was.\<close>

fun kept :: "node option \<Rightarrow> bool" where
  "kept None \<longleftrightarrow> True"
| "kept (Some (Regular u m n c)) \<longleftrightarrow> 0 < m \<and> m < 4096"
| "kept (Some (Link u t)) \<longleftrightarrow> t \<noteq> []"
| "kept _ \<longleftrightarrow> False"

definition ready :: "drive \<Rightarrow> (string \<Rightarrow> node option) \<Rightarrow> PlannedMutation \<Rightarrow> bool" where
  "ready d ns m \<longleftrightarrow> open_path d ns (pm_path m) \<and> kept (ns (pm_path m)) \<and> usable_image (pm_after m) \<and>
     capture_node d (pm_path m) (ns (pm_path m)) = Inr (pm_before m)"

lemma kept_no_folder: "kept (ns p) \<Longrightarrow> \<not> folder_at ns p"
  by (cases "ns p" rule: kept.cases) (auto simp: folder_at_def)

lemma kept_image:
  assumes "kept x" "capture_node d p x = Inr b"
  shows "usable_image b" "bi_path b = p" "capture_node d p (node_of d b) = Inr b"
  using assms
  by (cases x rule: kept.cases;
      auto simp: capture_node_def usable_image_def node_of_def absent_image_def or_empty_def or_mode_def split: if_splits)+

lemma apply_each_run:
  assumes single: "single_failure d" and distinct: "distinct (map pm_path ms)"
    and ready: "\<forall>m \<in> set ms. open_path d (nodes s) (pm_path m) \<and> \<not> folder_at (nodes s) (pm_path m) \<and> usable_image (pm_after m)"
  shows "\<exists>fin rest raised t. ms = fin @ rest \<and> apply_each d ms applied s = (Inr (applied @ fin, raised), t) \<and>
    nodes t = puts (\<lambda>m. node_of d (pm_after m)) fin (nodes s) \<and>
    (case raised of None \<Rightarrow> rest = [] | Some e \<Rightarrow> is_Exception e \<and> quiet d (dk_calls t))"
  using distinct ready
proof (induction ms arbitrary: s applied)
  case Nil
  have "apply_each d [] applied s = (Inr (applied @ [], None), s)" by simp
  then show ?case by (intro exI [of _ "[]"]) auto
next
  case (Cons m ms)
  let ?x = "node_of d (pm_after m)"
  have m: "open_path d (nodes s) (pm_path m)" "\<not> folder_at (nodes s) (pm_path m)" "usable_image (pm_after m)" using Cons.prems by auto
  have go: ?case if ran: "apply_mutation d m s = (Inr (), t)" and t: "nodes t = (nodes s)(pm_path m := ?x)" for t
  proof -
    have folders: "same_folders (nodes s) (nodes t)" unfolding t by (rule put_keeps_folders [OF m(2)])
    have "nodes t (pm_path k) = nodes s (pm_path k)" if "k \<in> set ms" for k
    proof -
      have "pm_path k \<in> pm_path ` set ms" using that by (rule imageI)
      then have "pm_path k \<noteq> pm_path m" using Cons.prems(1) by (metis distinct.simps(2) list.set_map list.simps(9))
      then show ?thesis by (simp add: t)
    qed
    then have at: "\<forall>k \<in> set ms. open_path d (nodes t) (pm_path k) \<and> \<not> folder_at (nodes t) (pm_path k) \<and> usable_image (pm_after k)"
      using Cons.prems(2) open_path_same [OF _ folders] by (simp add: folder_at_def)
    have "distinct (map pm_path ms)" using Cons.prems(1) by simp
    from Cons.IH [OF this at, of "applied @ [m]"] obtain fin rest raised u where
      ih: "ms = fin @ rest" "apply_each d ms (applied @ [m]) t = (Inr ((applied @ [m]) @ fin, raised), u)"
        "nodes u = puts (\<lambda>m. node_of d (pm_after m)) fin (nodes t)"
        "case raised of None \<Rightarrow> rest = [] | Some e \<Rightarrow> is_Exception e \<and> quiet d (dk_calls u)"
      by (elim exE conjE) (rule that)
    have "apply_each d (m # ms) applied s = (Inr (applied @ (m # fin), raised), u)"
      using ran ih(2) by (simp add: bind_s_run catch_def)
    then show ?thesis using ih(1,3,4) t by (intro exI [of _ "m # fin"] exI [of _ rest] exI [of _ raised] exI [of _ u]) simp
  qed
  have stop: ?case if "apply_mutation d m s = (Inl e, t)" "nodes t = nodes s" "is_Exception e" "quiet d (dk_calls t)" for e t
    using that by (intro exI [of _ "[]"] exI [of _ "m # ms"] exI [of _ "Some e"] exI [of _ t]) (simp add: bind_s_run catch_def)
  from apply_mutation_run [OF m] show ?case
  proof
    assume a: "apply_mutation d m s = put_ends d (pm_path m) ?x s"
    show ?case by (rule put_ends_cases [OF single, of "pm_path m" ?x s]) (use a go stop in auto)
  next
    assume "nodes s (pm_path m) = None \<and> ?x = None \<and> apply_mutation d m s = (Inr (), s)"
    then show ?case using go [of s] by (auto simp: fun_upd_idem)
  qed
qed

section \<open>Restoring\<close>

lemma restore_run:
  assumes at: "open_path d (nodes s) (bi_path b)" "made d (nodes s (bi_path b))" and b: "usable_image b" and q: "quiet d (dk_calls s)"
  shows "\<exists>t. restore_before d b s = (Inr (), t) \<and> nodes t = (nodes s)(bi_path b := node_of d b) \<and> quiet d (dk_calls t)"
proof -
  have leaf: "\<not> folder_at (nodes s) (bi_path b)"
    using at(2) by (cases "(d, nodes s (bi_path b))" rule: made.cases) (auto simp: folder_at_def)
  have "restore_before d b s = put_ends d (bi_path b) (node_of d b) s \<or>
      nodes s (bi_path b) = None \<and> node_of d b = None \<and> restore_before d b s = (Inr (), s)"
  proof (cases "bi_kind b")
    case ABSENT
    then show ?thesis using unlink_run [OF at] unlink_absent [OF at(1)]
      by (cases "nodes s (bi_path b)") (auto simp: restore_before_def bind_s_run open_runs [OF at(1)] node_of_def)
  next
    case FILE
    then show ?thesis by (simp add: restore_before_def bind_s_run open_runs [OF at(1)] write_run [OF at(1) leaf] node_of_def)
  next
    case SYMLINK
    with b show ?thesis
      by (simp add: restore_before_def bind_s_run open_runs [OF at(1)] write_run [OF at(1) leaf] node_of_def usable_image_def)
  qed
  then show ?thesis
  proof
    assume r: "restore_before d b s = put_ends d (bi_path b) (node_of d b) s"
    show ?thesis by (rule put_ends_quiet [OF q, of "bi_path b" "node_of d b"]) (use r in auto)
  next
    assume "nodes s (bi_path b) = None \<and> node_of d b = None \<and> restore_before d b s = (Inr (), s)"
    with q show ?thesis by (auto simp: fun_upd_idem)
  qed
qed

text \<open>\<open>f\<close> is either of the two restorations.\<close>

lemma restore_list_run:
  assumes f: "\<And>m s t. restore_before d (pm_before m) s = (Inr (), t) \<Longrightarrow> f m s = (Inr (), t)"
    and ms: "\<forall>m \<in> set ms. open_path d (nodes s) (pm_path m) \<and> made d (nodes s (pm_path m)) \<and> usable_image (pm_before m) \<and>
      bi_path (pm_before m) = pm_path m"
    and q: "quiet d (dk_calls s)"
  shows "\<exists>t. for_each f ms s = (Inr (), t) \<and> nodes t = puts (\<lambda>m. node_of d (pm_before m)) ms (nodes s)"
  using ms q
proof (induction ms arbitrary: s)
  case Nil
  then show ?case by simp
next
  case (Cons m ms)
  have p: "bi_path (pm_before m) = pm_path m" and made: "made d (nodes s (pm_path m))" using Cons.prems by auto
  obtain t where t: "restore_before d (pm_before m) s = (Inr (), t)" "nodes t = (nodes s)(pm_path m := node_of d (pm_before m))"
    "quiet d (dk_calls t)"
    using restore_run [of d s "pm_before m"] Cons.prems by (auto simp: p)
  have leaf: "\<not> folder_at (nodes s) (pm_path m)"
    using made by (cases "(d, nodes s (pm_path m))" rule: made.cases) (auto simp: folder_at_def)
  have folders: "same_folders (nodes s) (nodes t)" unfolding t(2) by (rule put_keeps_folders [OF leaf])
  have "\<forall>k \<in> set ms. open_path d (nodes t) (pm_path k) \<and> made d (nodes t (pm_path k)) \<and> usable_image (pm_before k) \<and>
      bi_path (pm_before k) = pm_path k"
    using Cons.prems(1) open_path_same [OF _ folders] made_node_of(1) by (auto simp: t(2))
  from Cons.IH [OF this t(3)] obtain u where
    u: "for_each f ms t = (Inr (), u)" "nodes u = puts (\<lambda>m. node_of d (pm_before m)) ms (nodes t)" by blast
  have "for_each f (m # ms) s = (Inr (), u)" using f [OF t(1)] u(1) by (simp add: bind_s_run)
  then show ?case using u(2) t(2) by (intro exI [of _ u]) simp
qed

text \<open>Applied and then restored, every path is found as it was.\<close>

lemma undone_capture:
  assumes ready: "\<forall>m \<in> set ms. ready d ns m" and ms: "ms = fin @ rest" "distinct (map pm_path ms)"
  shows "capture_node d p (puts (\<lambda>m. node_of d (pm_before m)) (rev fin) (puts g fin ns) p) = capture_node d p (ns p)"
proof (cases "p \<in> pm_path ` set fin")
  case True
  then obtain m where m: "m \<in> set fin" "p = pm_path m" by blast
  have "distinct (map pm_path (rev fin))" using ms by (simp add: rev_map [symmetric])
  from puts_at [OF this, of m] m
  have "puts (\<lambda>m. node_of d (pm_before m)) (rev fin) (puts g fin ns) p = node_of d (pm_before m)" by simp
  moreover have "ready d ns m" using ready m(1) ms(1) by simp
  then have "kept (ns p)" "capture_node d p (ns p) = Inr (pm_before m)" by (simp_all add: ready_def m(2))
  ultimately show ?thesis using kept_image(3) by simp
next
  case False
  then show ?thesis by (simp add: puts_other)
qed

lemma manifest_to_bytes_error: "manifest_to_bytes fr m = Inl e \<Longrightarrow> is_Exception e"
  by (auto simp: manifest_to_bytes_def canonical_line_def encode_state_def raise_if_def is_Exception_def bind_r_def
      split: if_splits sum.splits)

text \<open>Either a call fails, or what is there to commit does.\<close>

definition one_failure :: "drive \<Rightarrow> (rat \<Rightarrow> string) \<Rightarrow> FailurePoint set \<Rightarrow> InstallManifest \<Rightarrow> bool" where
  "one_failure d fr points m \<longleftrightarrow> single_failure d \<and> (AFTER_BASH \<in> points \<or> isl (manifest_to_bytes fr m) \<longrightarrow> quiet d 0)"

lemma quiet_later: "quiet d 0 \<Longrightarrow> quiet d n"
  by (simp add: quiet_def)

lemma commit_run:
  assumes one: "one_failure d fr points m" and p: "open_path d (nodes s) (manifest_path paths)" "\<not> folder_at (nodes s) (manifest_path paths)"
  shows "(\<exists>raw t. commit_manifest d fr points paths m s = (Inr (), t) \<and> manifest_to_bytes fr m = Inr raw \<and>
      nodes t = (nodes s)(manifest_path paths := Some (Regular (dr_uid d) 384 1 raw))) \<or>
    (\<exists>e t. commit_manifest d fr points paths m s = (Inl e, t) \<and> is_Exception e \<and> nodes t = nodes s \<and> quiet d (dk_calls t))"
proof (cases "AFTER_BASH \<in> points")
  case True
  with one have "quiet d (dk_calls s)" by (simp add: one_failure_def quiet_later)
  with True show ?thesis by (simp add: commit_manifest_def injector_def bind_s_run is_Exception_def)
next
  case no_point: False
  show ?thesis
  proof (cases "manifest_to_bytes fr m")
    case (Inl e)
    with one have "quiet d (dk_calls s)" by (simp add: one_failure_def quiet_later)
    with Inl no_point show ?thesis by (simp add: commit_manifest_def injector_def bind_s_run manifest_to_bytes_error)
  next
    case (Inr raw)
    let ?x = "Some (Regular (dr_uid d) 384 1 raw)"
    have c: "commit_manifest d fr points paths m s = put_ends d (manifest_path paths) ?x s"
      using Inr no_point by (simp add: commit_manifest_def injector_def bind_s_run write_run [OF p])
    have single: "single_failure d" using one by (simp add: one_failure_def)
    show ?thesis by (rule put_ends_cases [OF single, of "manifest_path paths" ?x s]) (use c Inr in auto)
  qed
qed

lemma puts_keep_folders: "\<forall>m \<in> set ms. ready d ns m \<Longrightarrow> same_folders ns (puts g ms ns)"
proof -
  assume ms: "\<forall>m \<in> set ms. ready d ns m"
  have "folder_at ns q \<Longrightarrow> q \<notin> pm_path ` set ms" for q using ms kept_no_folder by (force simp: ready_def)
  then show ?thesis by (simp add: same_folders_def puts_other)
qed

lemma rolls_back:
  assumes ms: "\<forall>m \<in> set ms. ready d ns m" "distinct (map pm_path ms)" "ms = fin @ rest"
    and s: "nodes s = puts (\<lambda>m. node_of d (pm_after m)) fin ns" "quiet d (dk_calls s)"
    and f: "\<And>m s t. restore_before d (pm_before m) s = (Inr (), t) \<Longrightarrow> f m s = (Inr (), t)"
  shows "\<exists>t. for_each f (rev fin) s = (Inr (), t) \<and> (\<forall>p. capture_node d p (nodes t p) = capture_node d p (ns p))"
proof -
  have folders: "same_folders ns (puts g fin ns)" for g using ms(1,3) by (intro puts_keep_folders [of fin d]) simp
  have "open_path d (nodes s) (pm_path m) \<and> made d (nodes s (pm_path m)) \<and> usable_image (pm_before m) \<and> bi_path (pm_before m) = pm_path m"
    if "m \<in> set (rev fin)" for m
  proof -
    have m: "ready d ns m" "m \<in> set fin" using that ms(1,3) by auto
    have "distinct (map pm_path fin)" using ms(2,3) by simp
    from puts_at [OF this m(2)] have "nodes s (pm_path m) = node_of d (pm_after m)" by (simp add: s(1))
    then show ?thesis
      using m(1) open_path_same [OF _ folders] kept_image(1,2) made_node_of(1) by (fastforce simp: ready_def s(1))
  qed
  then have "\<forall>m \<in> set (rev fin). open_path d (nodes s) (pm_path m) \<and> made d (nodes s (pm_path m)) \<and> usable_image (pm_before m) \<and>
      bi_path (pm_before m) = pm_path m" by blast
  from restore_list_run [where f = f, OF f this s(2)]
  obtain t where t: "for_each f (rev fin) s = (Inr (), t)" "nodes t = puts (\<lambda>m. node_of d (pm_before m)) (rev fin) (nodes s)" by blast
  show ?thesis
    using t(1) undone_capture [OF ms(1,3,2)] by (intro exI [of _ t]) (simp add: t(2) s(1))
qed

lemma roll_back_run:
  assumes ms: "\<forall>m \<in> set ms. ready d ns m" "distinct (map pm_path ms)" "ms = fin @ rest"
    and s: "nodes s = puts (\<lambda>m. node_of d (pm_after m)) fin ns" "quiet d (dk_calls s)" and e: "is_Exception e"
  shows "\<exists>t. roll_back d fin e s = (Inr ROLLED_BACK, t) \<and> (\<forall>p. capture_node d p (nodes t p) = capture_node d p (ns p))"
proof -
  have "\<exists>t. restore_all d fin s = (Inr (), t) \<and> (\<forall>p. capture_node d p (nodes t p) = capture_node d p (ns p))"
    unfolding restore_all_def by (rule rolls_back [OF ms s]) simp
  moreover have "\<exists>t. restore_each d fin s = (Inr (), t) \<and> (\<forall>p. capture_node d p (nodes t p) = capture_node d p (ns p))"
    unfolding restore_each_def by (rule rolls_back [OF ms s]) (simp add: catch_def)
  moreover have "roll_back d fin e \<in> {bind_s (restore_all d fin) (\<lambda>_. ret ROLLED_BACK), bind_s (restore_each d fin) (\<lambda>_. ret ROLLED_BACK)}"
    using e by (cases e) (simp_all add: roll_back_def)
  ultimately show ?thesis by (auto simp: bind_s_run)
qed

text \<open>C7: with at most one failure, one that happens before the call that fails has had an effect, a setup of the integrations is
  all or nothing. It ends with every planned file in place and the new manifest written, or it reports a rollback and every
  path of the disk is found with the content, mode and link target it had. The directories of the planned files exist
  already (those that a mutation has to make are not taken away by a rollback), and what the plan captured is what is there:
  a regular file, a link or nothing. A call here is a whole write of one file with its rename; \<open>late_failure_not_rolled_back\<close> shows
  what a failure after the effect, such as that of the last fsync of such a write, leads to.\<close>
theorem integration_setup_all_or_nothing:
  assumes one: "one_failure d fr points m"
    and ms: "\<forall>x \<in> set ms. ready d (nodes s) x" "distinct (manifest_path paths # map pm_path ms)"
    and p: "open_path d (nodes s) (manifest_path paths)" "kept (nodes s (manifest_path paths))"
  shows "\<exists>r t. integration_transaction d fr points paths ms m s = (Inr r, t) \<and>
    (r = OK \<and> (\<forall>x \<in> set ms. nodes t (pm_path x) = node_of d (pm_after x)) \<and>
       (\<exists>raw. manifest_to_bytes fr m = Inr raw \<and> nodes t (manifest_path paths) = Some (Regular (dr_uid d) 384 1 raw)) \<or>
     r = ROLLED_BACK \<and> (\<forall>q. capture_node d q (nodes t q) = capture_node d q (nodes s q)))"
proof -
  let ?g = "\<lambda>m. node_of d (pm_after m)"
  have single: "single_failure d" and dist: "distinct (map pm_path ms)" using one ms(2) by (simp_all add: one_failure_def)
  have "\<forall>x \<in> set ms. open_path d (nodes s) (pm_path x) \<and> \<not> folder_at (nodes s) (pm_path x) \<and> usable_image (pm_after x)"
    using ms(1) kept_no_folder by (simp add: ready_def)
  from apply_each_run [OF single dist this, of "[]"] obtain fin rest raised u where
    u: "ms = fin @ rest" "apply_each d ms [] s = (Inr (fin, raised), u)" "nodes u = puts ?g fin (nodes s)"
      "case raised of None \<Rightarrow> rest = [] | Some e \<Rightarrow> is_Exception e \<and> quiet d (dk_calls u)"
    by auto
  have undo: "\<exists>t. roll_back d fin e v = (Inr ROLLED_BACK, t) \<and> (\<forall>q. capture_node d q (nodes t q) = capture_node d q (nodes s q))"
    if e: "is_Exception e" and v: "nodes v = nodes u" "quiet d (dk_calls v)" for e v
    using v u(3) by (intro roll_back_run [OF ms(1) dist u(1) _ v(2) e]) simp
  show ?thesis
  proof (cases raised)
    case (Some e)
    then have "is_Exception e" "quiet d (dk_calls u)" using u(4) by simp_all
    from undo [OF this(1) HOL.refl this(2)] show ?thesis using u(2) Some by (auto simp: integration_transaction_def bind_s_run)
  next
    case None
    with u(1,4) have fin: "fin = ms" by simp
    have away: "manifest_path paths \<notin> pm_path ` set ms" using ms(2) by simp
    have folders: "same_folders (nodes s) (nodes u)" unfolding u(3) fin by (rule puts_keep_folders [OF ms(1)])
    have leaf: "\<not> folder_at (nodes u) (manifest_path paths)"
      using kept_no_folder [of "nodes s" "manifest_path paths"] p(2) away by (simp add: folder_at_def u(3) fin puts_other)
    from commit_run [OF one open_path_same [OF p(1) folders] leaf] show ?thesis
    proof (elim disjE exE conjE)
      fix raw t assume c: "commit_manifest d fr points paths m u = (Inr (), t)" "manifest_to_bytes fr m = Inr raw"
        "nodes t = (nodes u)(manifest_path paths := Some (Regular (dr_uid d) 384 1 raw))"
      have "integration_transaction d fr points paths ms m s = (Inr OK, t)"
        using c(1) u(2) None by (simp add: integration_transaction_def bind_s_run catch_def)
      moreover have "nodes t (pm_path x) = ?g x" if "x \<in> set ms" for x
      proof -
        have "pm_path x \<noteq> manifest_path paths" using away imageI [OF that, of pm_path] by metis
        then show ?thesis using puts_at [OF dist that, of ?g "nodes s"] by (simp add: c(3) u(3) fin)
      qed
      ultimately show ?thesis using c(2,3) by auto
    next
      fix e t assume c: "commit_manifest d fr points paths m u = (Inl e, t)" "is_Exception e" "nodes t = nodes u" "quiet d (dk_calls t)"
      have "integration_transaction d fr points paths ms m s = roll_back d fin e t"
        using c(1) u(2) None by (simp add: integration_transaction_def bind_s_run catch_def)
      with undo [OF c(2,3,4)] show ?thesis by auto
    qed
  qed
qed

section \<open>Where a rollback is not one\<close>

text \<open>C35: a call that fails after its effect, as when the directory cannot be synchronised after the rename, ends a setup that reports
  a rollback and leaves the new file: a mutation is only restored when it returned.\<close>
theorem late_failure_not_rolled_back:
  assumes x: "ready d (nodes s) x" "node_of d (pm_after x) \<noteq> None" and e: "dr_fault d (dk_calls s) = Breaks True e" "is_Exception e"
  shows "\<exists>t. integration_transaction d fr points paths [x] m s = (Inr ROLLED_BACK, t) \<and> nodes t (pm_path x) = node_of d (pm_after x)"
proof -
  have at: "open_path d (nodes s) (pm_path x)" "\<not> folder_at (nodes s) (pm_path x)" "usable_image (pm_after x)"
    using x(1) kept_no_folder by (simp_all add: ready_def)
  have "apply_mutation d x s = put_ends d (pm_path x) (node_of d (pm_after x)) s" using apply_mutation_run [OF at] x(2) by auto
  then have "apply_mutation d x s = (Inl e, s\<lparr>dk_calls := Suc (dk_calls s), nodes := (nodes s)(pm_path x := node_of d (pm_after x))\<rparr>)"
    using e(1) by (simp add: put_ends_def Let_def)
  then have "integration_transaction d fr points paths [x] m s =
      roll_back d [] e (s\<lparr>dk_calls := Suc (dk_calls s), nodes := (nodes s)(pm_path x := node_of d (pm_after x))\<rparr>)"
    by (simp add: integration_transaction_def bind_s_run catch_def)
  moreover have "roll_back d [] e v = (Inr ROLLED_BACK, v)" for v
    using e(2) by (cases e) (simp_all add: roll_back_def restore_all_def restore_each_def bind_s_run)
  ultimately show ?thesis by simp
qed

section \<open>What an installation owns\<close>

lemma rewrite_keeps_owned: "owned_for (Some (rewrite_integration_manifest prior plan req)) p = owned_for (Some prior) p"
  by (simp add: owned_for_def rewrite_integration_manifest_def)

lemma foreign_entry_refused:
  assumes "owned_for prior (autostart paths) = None" "capture_before d (autostart paths) s = (Inr b, t)" "bi_kind b \<noteq> ABSENT"
    "state \<noteq> PRESERVE"
  shows "\<exists>e. plan_autostart d state paths prior s = (Inl (ValueError e), t)"
  using assms by (cases state) (simp_all add: plan_autostart_def bind_s_run Let_def is_owned_def)

text \<open>C36: a setup does not add the autostart entry to what the manifest owns. If the installation did not own it before, the
  entry that a setup enabled cannot be disabled, nor enabled again: both are refused.\<close>
theorem enabled_autostart_stays:
  assumes "read_prior_manifest d fr paths s = (Inr (rewrite_integration_manifest prior plan req), t)"
    and "owned_for (Some prior) (autostart paths) = None"
    and "capture_before d (autostart paths) t = (Inr b, u)" "bi_kind b \<noteq> ABSENT"
  shows "set_autostart d fr enabled paths s = (Inr REFUSED, u)"
proof -
  have "owned_for (Some (rewrite_integration_manifest prior plan req)) (autostart paths) = None"
    using assms(2) by (simp add: rewrite_keeps_owned)
  moreover have "(if enabled then ENABLE else DISABLE) \<noteq> PRESERVE" by simp
  ultimately obtain e where "plan_autostart d (if enabled then ENABLE else DISABLE) paths (Some (rewrite_integration_manifest prior plan req)) t =
      (Inl (ValueError e), u)" using foreign_entry_refused [OF _ assms(3,4)] by blast
  then show ?thesis
    using assms(1)
    by (simp add: set_autostart_def execute_integration_setup_def bind_s_run catch_def plan_installed_integrations_def
        plan_integrations_core_def plan_bash_def)
qed

text \<open>When \<^verbatim>\<open>.bashrc\<close> is a link, enabling the integration plans a file with nothing but the block in its place, and a
  backup of an empty text: what the link led to is in neither.\<close>
theorem linked_bashrc_is_replaced:
  assumes "open_path d (nodes s) (bashrc paths)" "nodes s (bashrc paths) = Some (Link u target)" "dr_fault d (dk_calls s) = Works"
  shows "\<exists>x b t. plan_bash d ENABLE paths None s = (Inr ([x], Some b), t) \<and> pm_path x = bashrc paths \<and>
    node_of d (pm_after x) = Some (Regular (dr_uid d) 384 1 (v1_block (bash_integration paths))) \<and> ow_sha256 b = Some (dr_sha d [])"
proof -
  let ?t = "s\<lparr>dk_calls := Suc (dk_calls s)\<rparr>"
  have "\<exists>b. capture_before d (bashrc paths) s = (Inr b, ?t) \<and> bi_kind b = SYMLINK \<and> bi_content b = None"
    using assms(2,3) by (simp add: capture_before_def bind_s_run catch_def open_runs [OF assms(1)] effect_run node_at_def capture_node_def)
  moreover have "transform_bashrc [] p ENABLE = Inr (v1_block p)" for p
    by (simp add: transform_bashrc_def marker_count_def Let_def)
  ultimately show ?thesis
    by (auto simp: plan_bash_def bind_s_run or_empty_def file_after_def bash_backup_def Let_def node_of_def or_mode_def)
qed

section \<open>A home directory\<close>

definition demo_drive :: "(nat \<Rightarrow> fault) \<Rightarrow> drive" where
  "demo_drive f = \<lparr>dr_uid = 1000, dr_sha = demo_sha, dr_fault = f\<rparr>"

lemma demo_fields: "dr_uid (demo_drive f) = 1000" "dr_sha (demo_drive f) = demo_sha" "dr_fault (demo_drive f) = f"
  by (simp_all add: demo_drive_def)

text \<open>All that is not one of three files is a directory of the user.\<close>

definition demo_disk :: "string \<Rightarrow> node \<Rightarrow> disk" where
  "demo_disk raw rc =
     \<lparr>nodes = (\<lambda>p. if p = ''/h/.config/termrecall/install-manifest.json'' then Some (Regular 1000 384 1 raw)
        else if p = ''/h/.bashrc'' then Some rc
        else if p = ''/h/.config/autostart/termrecall.desktop'' then Some (Regular 1000 384 1 ''E'')
        else Some (Folder 1000 448)),
      dk_calls = 0\<rparr>"

lemma demo_places:
  "manifest_path demo_paths = ''/h/.config/termrecall/install-manifest.json''" "bashrc demo_paths = ''/h/.bashrc''"
  "autostart demo_paths = ''/h/.config/autostart/termrecall.desktop''"
  by code_simp+

lemma demo_open:
  assumes "p \<in> {''/h/.config/termrecall/install-manifest.json'', ''/h/.bashrc'', ''/h/.config/autostart/termrecall.desktop''}"
  shows "open_path (demo_drive f) (nodes (demo_disk raw rc)) p"
proof -
  have paths: "list_all (\<lambda>p. is_absolute p \<and> normpath p = p \<and> is_absolute (parent p) \<and> normpath (parent p) = parent p)
      [''/h/.config/termrecall/install-manifest.json'', ''/h/.bashrc'', ''/h/.config/autostart/termrecall.desktop'']" by code_simp
  have "map (\<lambda>p. chain_of (parent p))
      [''/h/.config/termrecall/install-manifest.json'', ''/h/.bashrc'', ''/h/.config/autostart/termrecall.desktop''] =
    [[''/'', ''/h'', ''/h/.config'', ''/h/.config/termrecall''], [''/'', ''/h''],
     [''/'', ''/h'', ''/h/.config'', ''/h/.config/autostart'']]" by code_simp
  moreover have "map parent [''/h/.config/termrecall/install-manifest.json'', ''/h/.bashrc'', ''/h/.config/autostart/termrecall.desktop''] =
    [''/h/.config/termrecall'', ''/h'', ''/h/.config/autostart'']" by code_simp
  moreover have "\<not> others_write 448" by code_simp
  ultimately show ?thesis
    using assms paths by (auto simp: open_path_def demo_drive_def demo_disk_def folder_at_def)
qed

lemma demo_nodes:
  "nodes (demo_disk raw rc) ''/h/.config/termrecall/install-manifest.json'' = Some (Regular 1000 384 1 raw)"
  "nodes (demo_disk raw rc) ''/h/.bashrc'' = Some rc"
  "nodes (demo_disk raw rc) ''/h/.config/autostart/termrecall.desktop'' = Some (Regular 1000 384 1 ''E'')"
  "dk_calls (demo_disk raw rc) = 0"
  by (simp_all add: demo_disk_def)

text \<open>A line is added to \<^verbatim>\<open>.bashrc\<close>.\<close>

definition demo_image :: "string \<Rightarrow> BeforeImage" where
  "demo_image c = \<lparr>bi_path = ''/h/.bashrc'', bi_kind = FILE, bi_mode = Some 420, bi_target = None, bi_content = Some c,
     bi_sha256 = Some (demo_sha c)\<rparr>"

definition demo_change :: PlannedMutation where
  "demo_change = \<lparr>pm_path = ''/h/.bashrc'', pm_before = demo_image ''a'', pm_after = demo_image ''ab''\<rparr>"

lemma demo_ready: "ready (demo_drive f) (nodes (demo_disk raw (Regular 1000 420 1 ''a''))) demo_change"
  by (simp add: ready_def demo_open demo_nodes demo_change_def demo_image_def capture_node_def usable_image_def MAX_READ_BYTES_def)
    (simp add: demo_drive_def)

lemma demo_after: "node_of (demo_drive f) (pm_after demo_change) = Some (Regular 1000 420 1 ''ab'')"
  by (simp add: demo_change_def demo_image_def node_of_def demo_drive_def or_mode_def or_empty_def)

text \<open>The second call fails: the line was added, and the manifest is not written.\<close>

theorem integration_setup_all_or_nothing_witness:
  "\<exists>r t. integration_transaction (demo_drive ((\<lambda>_. Works)(1 := Breaks False (OSError ''no space'')))) (\<lambda>_. ''0.0'') {} demo_paths
       [demo_change] (demo_manifest ''x'') (demo_disk [] (Regular 1000 420 1 ''a'')) = (Inr r, t) \<and>
     (r = OK \<and> nodes t ''/h/.bashrc'' = Some (Regular 1000 420 1 ''ab'') \<or>
      r = ROLLED_BACK \<and>
        capture_node (demo_drive (\<lambda>_. Works)) ''/h/.bashrc'' (nodes t ''/h/.bashrc'') = Inr (demo_image ''a''))"
proof -
  let ?d = "demo_drive ((\<lambda>_. Works)(1 := Breaks False (OSError ''no space'')))"
  obtain raw where "manifest_to_bytes (\<lambda>_. ''0.0'') (demo_manifest ''x'') = Inr raw" using demo_manifest_bytes by blast
  then have one: "one_failure ?d (\<lambda>_. ''0.0'') {} (demo_manifest ''x'')"
    by (simp add: one_failure_def single_failure_def demo_drive_def is_Exception_def quiet_def)
  have same: "capture_node ?d = capture_node (demo_drive (\<lambda>_. Works))" by (intro ext) (simp only: capture_node_def demo_fields)
  let ?s = "demo_disk [] (Regular 1000 420 1 ''a'')"
  have at: "pm_path demo_change = ''/h/.bashrc''" by (simp add: demo_change_def)
  have found: "capture_node (demo_drive (\<lambda>_. Works)) ''/h/.bashrc'' (nodes ?s ''/h/.bashrc'') = Inr (demo_image ''a'')"
    by (simp add: capture_node_def demo_image_def demo_fields demo_nodes MAX_READ_BYTES_def)
  have ms: "\<forall>x \<in> set [demo_change]. ready ?d (nodes ?s) x" using demo_ready by simp
  have "distinct (manifest_path demo_paths # map pm_path [demo_change])" "open_path ?d (nodes ?s) (manifest_path demo_paths)"
    "kept (nodes ?s (manifest_path demo_paths))"
    by (simp_all add: at demo_places demo_nodes demo_open)
  from integration_setup_all_or_nothing [OF one ms this]
  obtain r t where t: "integration_transaction ?d (\<lambda>_. ''0.0'') {} demo_paths [demo_change] (demo_manifest ''x'') ?s = (Inr r, t)"
    "r = OK \<and> nodes t ''/h/.bashrc'' = Some (Regular 1000 420 1 ''ab'') \<or>
     r = ROLLED_BACK \<and> (\<forall>q. capture_node ?d q (nodes t q) = capture_node ?d q (nodes ?s q))"
    by (auto simp: at demo_after)
  from t(2) have "r = OK \<and> nodes t ''/h/.bashrc'' = Some (Regular 1000 420 1 ''ab'') \<or>
     r = ROLLED_BACK \<and> capture_node (demo_drive (\<lambda>_. Works)) ''/h/.bashrc'' (nodes t ''/h/.bashrc'') = Inr (demo_image ''a'')"
    unfolding same found [symmetric] by blast
  with t(1) show ?thesis by blast
qed

theorem late_failure_not_rolled_back_witness:
  "\<exists>t. integration_transaction (demo_drive ((\<lambda>_. Works)(0 := Breaks True (OSError ''fsync'')))) (\<lambda>_. ''0.0'') {} demo_paths
       [demo_change] (demo_manifest ''x'') (demo_disk [] (Regular 1000 420 1 ''a'')) = (Inr ROLLED_BACK, t) \<and>
     nodes t ''/h/.bashrc'' = Some (Regular 1000 420 1 ''ab'')"
proof -
  let ?d = "demo_drive ((\<lambda>_. Works)(0 := Breaks True (OSError ''fsync'')))"
  have "dr_fault ?d (dk_calls (demo_disk [] (Regular 1000 420 1 ''a''))) = Breaks True (OSError ''fsync'')" "is_Exception (OSError ''fsync'')"
    by (simp_all add: demo_drive_def demo_nodes is_Exception_def)
  moreover have "pm_path demo_change = ''/h/.bashrc''" by (simp add: demo_change_def)
  ultimately show ?thesis
    using late_failure_not_rolled_back [OF demo_ready, of _ "[]" _ "(\<lambda>_. ''0.0'')" "{}" demo_paths "demo_manifest ''x''"]
    by (simp add: demo_after)
qed

lemma follow_leaf: "ns p = Some (Regular u m n c) \<Longrightarrow> follow ns 41 p = Some (Regular u m n c)"
  by (simp add: numeral_eq_Suc)

lemma demo_read:
  assumes "manifest_to_bytes (\<lambda>_. ''0.0'') (demo_manifest ''x'') = Inr raw"
  shows "read_prior_manifest (demo_drive (\<lambda>_. Works)) (\<lambda>_. ''0.0'') demo_paths (demo_disk raw rc) =
    (Inr ((demo_manifest ''x'')\<lparr>im_roots := sort_dict (im_roots (demo_manifest ''x''))\<rparr>), (demo_disk raw rc)\<lparr>dk_calls := Suc 0\<rparr>)"
proof -
  have "follow (nodes (demo_disk raw rc)) 41 (manifest_path demo_paths) = Some (Regular 1000 384 1 raw)"
    by (rule follow_leaf) (simp add: demo_places demo_nodes)
  moreover have "dr_fault (demo_drive (\<lambda>_. Works)) n = Works" "dr_sha (demo_drive (\<lambda>_. Works)) = demo_sha"
    "dr_uid (demo_drive (\<lambda>_. Works)) = 1000" for n by (simp_all add: demo_drive_def)
  ultimately show ?thesis
    using manifest_read_back [OF demo_manifest_wf assms]
    by (simp add: read_prior_manifest_def path_exists_def followed_def read_bytes_def bind_s_run effect_run demo_nodes)
qed

theorem enabled_autostart_stays_witness:
  "\<exists>raw t. manifest_to_bytes (\<lambda>_. ''0.0'') (demo_manifest ''x'') = Inr raw \<and>
     set_autostart (demo_drive (\<lambda>_. Works)) (\<lambda>_. ''0.0'') False demo_paths (demo_disk raw Special) = (Inr REFUSED, t)"
proof -
  obtain raw where raw: "manifest_to_bytes (\<lambda>_. ''0.0'') (demo_manifest ''x'') = Inr raw" using demo_manifest_bytes by blast
  let ?m = "(demo_manifest ''x'')\<lparr>im_roots := sort_dict (im_roots (demo_manifest ''x''))\<rparr>"
  let ?prior = "?m\<lparr>im_autostart_enabled := False\<rparr>"
  let ?plan = "\<lparr>ip_bash = [], ip_autostart = [], ip_chooser = [], ip_chooser_ownership = im_chooser ?m, ip_bash_backup = None\<rparr>"
  let ?req = "\<lparr>is_dry_run = False, is_bash = PRESERVE, is_autostart = ENABLE, is_chooser = PRESERVE\<rparr>"
  have "rewrite_integration_manifest ?prior ?plan ?req = ?m"
    by (simp add: rewrite_integration_manifest_def demo_manifest_def Let_def)
  then have "read_prior_manifest (demo_drive (\<lambda>_. Works)) (\<lambda>_. ''0.0'') demo_paths (demo_disk raw Special) =
      (Inr (rewrite_integration_manifest ?prior ?plan ?req), (demo_disk raw Special)\<lparr>dk_calls := Suc 0\<rparr>)"
    using demo_read [OF raw] by simp
  moreover have "owned_for (Some (demo_manifest ''x'')) (autostart demo_paths) = None" by code_simp
  then have "owned_for (Some ?prior) (autostart demo_paths) = None" by (simp add: owned_for_def)
  moreover have "open_path (demo_drive (\<lambda>_. Works)) (nodes ((demo_disk raw Special)\<lparr>dk_calls := Suc 0\<rparr>)) (autostart demo_paths)"
    by (simp add: demo_places demo_open)
  note o = open_runs [OF this]
  have "\<exists>b u. capture_before (demo_drive (\<lambda>_. Works)) (autostart demo_paths) ((demo_disk raw Special)\<lparr>dk_calls := Suc 0\<rparr>) = (Inr b, u) \<and>
      bi_kind b \<noteq> ABSENT"
    by (simp add: capture_before_def bind_s_run catch_def o [unfolded demo_places] effect_run node_at_def demo_places demo_nodes demo_fields
        capture_node_def MAX_READ_BYTES_def)
  ultimately show ?thesis using raw enabled_autostart_stays by blast
qed

theorem linked_bashrc_is_replaced_witness:
  "\<exists>x b t. plan_bash (demo_drive (\<lambda>_. Works)) ENABLE demo_paths None (demo_disk [] (Link 1000 ''dotfiles/bashrc'')) = (Inr ([x], Some b), t) \<and>
     node_of (demo_drive (\<lambda>_. Works)) (pm_after x) = Some (Regular 1000 384 1 (v1_block (bash_integration demo_paths)))"
proof -
  have "open_path (demo_drive (\<lambda>_. Works)) (nodes (demo_disk [] (Link 1000 ''dotfiles/bashrc''))) (bashrc demo_paths)"
    "nodes (demo_disk [] (Link 1000 ''dotfiles/bashrc'')) (bashrc demo_paths) = Some (Link 1000 ''dotfiles/bashrc'')"
    "dr_fault (demo_drive (\<lambda>_. Works)) (dk_calls (demo_disk [] (Link 1000 ''dotfiles/bashrc''))) = Works"
    "dr_uid (demo_drive (\<lambda>_. Works)) = 1000"
    by (simp_all add: demo_places demo_open demo_nodes) (simp_all add: demo_drive_def)
  then show ?thesis using linked_bashrc_is_replaced by metis
qed

end
