(* ===== verification/Chooser.thy ===== *)
theory Chooser
  imports Transaction
begin

text \<open>
  The setting of the login chooser: \<^verbatim>\<open>cli.py\<close> reads and writes it, the diagnosis of \<^verbatim>\<open>doctor.py\<close> explains it. What is written
  is read back, and the two readers agree, except in a directory that is not private.
\<close>

section \<open>The file\<close>

definition CONFIG_NAME :: string where "CONFIG_NAME = ''config.json''"

definition MAX_CHOOSER_CONFIG_BYTES :: nat where "MAX_CHOOSER_CONFIG_BYTES = 4096"

text \<open>\<^verbatim>\<open>v == 1\<close>: so are \<^verbatim>\<open>True\<close> and \<^verbatim>\<open>1.0\<close>.\<close>

fun equals_one :: "json \<Rightarrow> bool" where
  "equals_one (JInt n) \<longleftrightarrow> n = 1"
| "equals_one (JBool b) \<longleftrightarrow> b"
| "equals_one (JFloat (Finite x)) \<longleftrightarrow> x = 1"
| "equals_one _ \<longleftrightarrow> False"

definition chooser_payload :: "json \<Rightarrow> bool option" where
  "chooser_payload v =
     (case v of
        JObj kvs \<Rightarrow>
          if set (dict_keys kvs) = {''schema_version'', ''login_chooser_enabled''} then
            (case (dict_get kvs ''schema_version'', dict_get kvs ''login_chooser_enabled'') of
               (Some x, Some (JBool b)) \<Rightarrow> if equals_one x then Some b else None
             | _ \<Rightarrow> None)
          else None
      | _ \<Rightarrow> None)"

text \<open>The setting a file holds, or the class of the exception that reading it raises.\<close>

definition chooser_setting :: "string \<Rightarrow> string + bool" where
  "chooser_setting raw =
     (case utf8_decode raw of
        None \<Rightarrow> Inl ''UnicodeDecodeError''
      | Some t \<Rightarrow>
          (case loads False t of
             Inl e \<Rightarrow> Inl ''JSONDecodeError''
           | Inr v \<Rightarrow> (case chooser_payload v of None \<Rightarrow> Inl ''ValueError'' | Some b \<Rightarrow> Inr b)))"

definition setting_bytes :: "bool \<Rightarrow> string" where
  "setting_bytes enabled =
     utf8_encode (dumps_with ascii_escape (\<lambda>_. [])
       (JObj [(''schema_version'', JInt 1), (''login_chooser_enabled'', JBool enabled)])) @ [CHR 0x0A]"

section \<open>The directory\<close>

text \<open>A component of the path is a directory, or is made when the setting is written.\<close>

definition enter :: "drive \<Rightarrow> bool \<Rightarrow> string \<Rightarrow> (disk, unit) act" where
  "enter d create q =
     bind_s (node_at q) (\<lambda>x.
     case x of
       None \<Rightarrow> if create then effect d (put_node q (Some (Folder (dr_uid d) 448))) else raise_s (FileNotFoundError q)
     | Some (Folder u m) \<Rightarrow> ret ()
     | Some _ \<Rightarrow> raise_s (OSError q))"

definition open_config_directory :: "drive \<Rightarrow> string \<Rightarrow> bool \<Rightarrow> (disk, unit) act" where
  "open_config_directory d p create =
     (if path_name p \<in> {[], ''.'', ''..''} then raise_s (OSError ''unsafe chooser configuration directory'')
      else
        bind_s (effect d (ret ())) (\<lambda>_.
        bind_s (for_each (enter d create) (chain_of p)) (\<lambda>_.
        bind_s (node_at p) (\<lambda>x.
        case x of
          Some (Folder u m) \<Rightarrow>
            if u \<noteq> dr_uid d \<or> m \<noteq> 448 then raise_s (OSError ''unsafe chooser configuration directory'') else ret ()
        | _ \<Rightarrow> raise_s (OSError ''unsafe chooser configuration directory'')))))"

section \<open>Reading and writing\<close>

definition login_chooser_enabled :: "drive \<Rightarrow> string \<Rightarrow> (disk, bool) act" where
  "login_chooser_enabled d p =
     catch
       (bind_s (open_config_directory d p False) (\<lambda>_.
        bind_s (effect d (ret ())) (\<lambda>_.
        bind_s (node_at (path_join p CONFIG_NAME)) (\<lambda>x.
        case x of
          None \<Rightarrow> raise_s (FileNotFoundError CONFIG_NAME)
        | Some (Regular u m n c) \<Rightarrow>
            let raw = take (MAX_CHOOSER_CONFIG_BYTES + 1) c in
            ret (u = dr_uid d \<and> m = 384 \<and> length raw \<le> MAX_CHOOSER_CONFIG_BYTES \<and> chooser_setting raw = Inr True)
        | Some (Link u t) \<Rightarrow> raise_s (OSError CONFIG_NAME)
        | Some _ \<Rightarrow> ret False))))
       (\<lambda>e. if is_FileNotFoundError e then ret True else if is_OSError e then ret False else raise_s e)"

definition write_chooser_setting :: "drive \<Rightarrow> string \<Rightarrow> bool \<Rightarrow> (disk, unit) act" where
  "write_chooser_setting d p enabled =
     bind_s (open_config_directory d p True) (\<lambda>_.
     bind_s (effect d (ret ())) (\<lambda>_.
     effect d (bind_s (node_at (path_join p CONFIG_NAME)) (\<lambda>x.
       case x of
         Some (Folder u m) \<Rightarrow> raise_s (OSError CONFIG_NAME)
       | _ \<Rightarrow> put_node (path_join p CONFIG_NAME) (Some (Regular (dr_uid d) 384 1 (setting_bytes enabled)))))))"

section \<open>The diagnosis\<close>

record Diagnostic =
  dg_name :: string
  dg_status :: string
  dg_message :: string
  dg_remedy :: "string option"

definition diagnostic :: "string \<Rightarrow> string \<Rightarrow> string \<Rightarrow> string option \<Rightarrow> Diagnostic" where
  "diagnostic name st message remedy = \<lparr>dg_name = name, dg_status = st, dg_message = message, dg_remedy = remedy\<rparr>"

fun type_name :: "py_error \<Rightarrow> string" where
  "type_name (ValueError t) = ''ValueError''"
| "type_name (FileNotFoundError t) = ''FileNotFoundError''"
| "type_name (OSError t) = ''OSError''"
| "type_name e = ''Exception''"

definition config_warning :: "string \<Rightarrow> Diagnostic" where
  "config_warning name = diagnostic ''chooser config'' ''warning''
     (''invalid or unsafe chooser config disables login chooser: '' @ name) (Some ''run termrecall chooser enable or disable'')"

definition chooser_config_check :: "drive \<Rightarrow> string \<Rightarrow> (disk, Diagnostic) act" where
  "chooser_config_check d p =
     (let file = path_join p CONFIG_NAME in
      catch
        (bind_s (effect d (ret ())) (\<lambda>_.
         bind_s (node_at p) (\<lambda>x.
         bind_s (node_at file) (\<lambda>y.
         case (x, y) of
           (None, _) \<Rightarrow> raise_s (FileNotFoundError p)
         | (_, None) \<Rightarrow> raise_s (FileNotFoundError file)
         | (Some (Folder u m), Some (Regular v k n c)) \<Rightarrow>
             if u \<noteq> dr_uid d \<or> m \<noteq> 448 \<or> v \<noteq> dr_uid d \<or> k \<noteq> 384 then raise_s (ValueError ''unsafe owner, mode, type, or symlink'')
             else
               bind_s (effect d (ret ())) (\<lambda>_.
               case chooser_setting c of
                 Inl name \<Rightarrow> ret (config_warning name)
               | Inr b \<Rightarrow> ret (diagnostic ''chooser config'' ''ok''
                   (''login chooser is explicitly '' @ (if b then ''enabled'' else ''disabled'')) None))
         | _ \<Rightarrow> raise_s (ValueError ''unsafe owner, mode, type, or symlink'')))))
        (\<lambda>e. if is_FileNotFoundError e then
               bind_s (node_at file) (\<lambda>y.
               case y of
                 Some (Link u t) \<Rightarrow> ret (diagnostic ''chooser config'' ''warning''
                   ''unsafe chooser config symlink disables login chooser'' (Some ''replace it with termrecall chooser enable''))
               | _ \<Rightarrow> ret (diagnostic ''chooser config'' ''ok'' ''login chooser is enabled by default'' None))
             else if is_OSError e \<or> is_ValueError e then ret (config_warning (type_name e))
             else raise_s e))"

definition says_enabled :: "Diagnostic \<Rightarrow> bool" where
  "says_enabled g \<longleftrightarrow> dg_message g \<in> {''login chooser is enabled by default'', ''login chooser is explicitly enabled''}"

section \<open>What is written is read\<close>

lemma setting_bytes_eq: "setting_bytes enabled = render_chooser enabled"
  by (cases enabled; simp only:; code_simp)

lemma setting_read: "chooser_setting (setting_bytes b) = Inr b" "length (setting_bytes b) \<le> MAX_CHOOSER_CONFIG_BYTES"
  by (cases b; simp only:; code_simp)+

lemma enter_folders: "list_all (folder_at (nodes s)) qs \<Longrightarrow> for_each (enter d create) qs s = (Inr (), s)"
  by (induction qs) (auto simp: enter_def folder_at_def node_at_def bind_s_run split: option.splits node.splits)

lemma entered:
  assumes "enter d create q s = (Inr (), t)"
  shows "folder_at (nodes t) q" "same_folders (nodes s) (nodes t)"
  using assms
  by (auto simp: enter_def node_at_def put_node_def bind_s_run effect_run folder_at_def same_folders_def
      split: option.splits node.splits if_splits fault.splits bool.splits)

lemma entered_all:
  assumes "for_each (enter d create) qs s = (Inr (), t)"
  shows "list_all (folder_at (nodes t)) qs" "same_folders (nodes s) (nodes t)"
  using assms
proof (induction qs arbitrary: s)
  case (Cons q qs)
  {
    case 1
    then obtain u where u: "enter d create q s = (Inr (), u)" "for_each (enter d create) qs u = (Inr (), t)"
      by (auto simp: bind_s_run split: prod.splits sum.splits)
    have "folder_at (nodes t) q"
      using entered(1) [OF u(1)] Cons.IH(2) [OF u(2)] by (simp add: same_folders_def folder_at_def)
    then show ?case using Cons.IH(1) [OF u(2)] by simp
  next
    case 2
    then obtain u where u: "enter d create q s = (Inr (), u)" "for_each (enter d create) qs u = (Inr (), t)"
      by (auto simp: bind_s_run split: prod.splits sum.splits)
    then show ?case
      using entered(2) [OF u(1)] Cons.IH(2) [OF u(2)] by (simp add: same_folders_def folder_at_def)
  }
qed (simp_all add: same_folders_def)

section \<open>The two readers\<close>

text \<open>A private directory is reached over directories only.\<close>

definition private_dir :: "drive \<Rightarrow> (string \<Rightarrow> node option) \<Rightarrow> string \<Rightarrow> bool" where
  "private_dir d ns p \<longleftrightarrow> path_name p \<notin> {[], ''.'', ''..''} \<and> list_all (folder_at ns) (chain_of p) \<and> ns p = Some (Folder (dr_uid d) 448)"

lemma open_private:
  assumes "private_dir d (nodes s) p" "quiet d (dk_calls s)"
  shows "open_config_directory d p create s = (Inr (), s\<lparr>dk_calls := Suc (dk_calls s)\<rparr>)"
  using assms by (simp add: open_config_directory_def private_dir_def bind_s_run effect_run quiet_def enter_folders node_at_def)

lemma opened_private:
  assumes "open_config_directory d p create s = (Inr (), t)"
  shows "private_dir d (nodes t) p"
proof -
  obtain u where u: "for_each (enter d create) (chain_of p) u = (Inr (), t)" "path_name p \<notin> {[], ''.'', ''..''}"
    "nodes t p = Some (Folder (dr_uid d) 448)"
    using assms
    by (auto simp: open_config_directory_def bind_s_run effect_run node_at_def
        split: if_splits prod.splits sum.splits fault.splits bool.splits option.splits node.splits)
  then show ?thesis using entered_all(1) by (simp add: private_dir_def)
qed

text \<open>What each reader makes of the two nodes.\<close>

definition login_view :: "drive \<Rightarrow> node option \<Rightarrow> bool" where
  "login_view d y =
     (case y of
        None \<Rightarrow> True
      | Some (Regular u m n c) \<Rightarrow>
          u = dr_uid d \<and> m = 384 \<and> length c \<le> MAX_CHOOSER_CONFIG_BYTES \<and> chooser_setting c = Inr True
      | Some _ \<Rightarrow> False)"

lemma login_run:
  assumes p: "private_dir d (nodes s) p" and q: "quiet d (dk_calls s)"
  shows "\<exists>t. login_chooser_enabled d p s = (Inr (login_view d (nodes s (path_join p CONFIG_NAME))), t) \<and> nodes t = nodes s"
proof -
  have w: "dr_fault d (Suc (dk_calls s)) = Works" using q by (simp add: quiet_def)
  have short: "length (take (MAX_CHOOSER_CONFIG_BYTES + 1) c) \<le> MAX_CHOOSER_CONFIG_BYTES \<and>
      chooser_setting (take (MAX_CHOOSER_CONFIG_BYTES + 1) c) = r \<longleftrightarrow>
      length c \<le> MAX_CHOOSER_CONFIG_BYTES \<and> chooser_setting c = r" for c r
    by (auto simp: min_def)
  show ?thesis
    unfolding login_chooser_enabled_def Let_def short
    using w by (auto simp: bind_s_run catch_def open_private [OF p q] effect_run node_at_def login_view_def split: option.split node.split)
qed

lemma doctor_run:
  assumes p: "nodes s p = Some (Folder (dr_uid d) 448)" and q: "quiet d (dk_calls s)"
  shows "\<exists>g t. chooser_config_check d p s = (Inr g, t) \<and> nodes t = nodes s \<and>
    (says_enabled g \<longleftrightarrow>
      (case nodes s (path_join p CONFIG_NAME) of
         None \<Rightarrow> True
       | Some (Regular u m n c) \<Rightarrow> u = dr_uid d \<and> m = 384 \<and> chooser_setting c = Inr True
       | Some _ \<Rightarrow> False)) \<and>
    (\<forall>u n c b. nodes s (path_join p CONFIG_NAME) = Some (Regular u 384 n c) \<and> u = dr_uid d \<and> chooser_setting c = Inr b \<longrightarrow>
      g = diagnostic ''chooser config'' ''ok'' (''login chooser is explicitly '' @ (if b then ''enabled'' else ''disabled'')) None)"
proof -
  have w: "dr_fault d (dk_calls s) = Works" "dr_fault d (Suc (dk_calls s)) = Works" using q by (simp_all add: quiet_def)
  show ?thesis
    unfolding chooser_config_check_def Let_def
    using p w
    by (auto simp: bind_s_run catch_def effect_run node_at_def says_enabled_def diagnostic_def config_warning_def
        split: option.split node.split sum.split)
qed

text \<open>C37: the setting that \<^verbatim>\<open>termrecall chooser\<close> writes is the one the login reads and the diagnosis names.\<close>
theorem chooser_setting_readback:
  assumes "write_chooser_setting d p enabled s = (Inr (), t)" "quiet d (dk_calls t)"
  shows "\<exists>u v. login_chooser_enabled d p t = (Inr enabled, u) \<and>
    chooser_config_check d p t =
      (Inr (diagnostic ''chooser config'' ''ok'' (''login chooser is explicitly '' @ (if enabled then ''enabled'' else ''disabled'')) None), v)"
proof -
  let ?x = "Some (Regular (dr_uid d) 384 1 (setting_bytes enabled))"
  obtain u where u: "open_config_directory d p True s = (Inr (), u)" "\<not> folder_at (nodes u) (path_join p CONFIG_NAME)"
    "nodes t = (nodes u)(path_join p CONFIG_NAME := ?x)"
    using assms(1)
    by (auto simp: write_chooser_setting_def bind_s_run effect_run node_at_def put_node_def folder_at_def
        split: prod.splits sum.splits fault.splits bool.splits option.splits node.splits)
  have same: "same_folders (nodes u) (nodes t)" unfolding u(3) by (rule put_keeps_folders [OF u(2)])
  have "private_dir d (nodes u) p" by (rule opened_private [OF u(1)])
  moreover have "folder_at (nodes u) p" using calculation by (simp add: private_dir_def folder_at_def)
  ultimately have p: "private_dir d (nodes t) p"
    using same by (auto simp: private_dir_def same_folders_def list_all_iff folder_at_def)
  have x: "nodes t (path_join p CONFIG_NAME) = ?x" by (simp add: u(3))
  have "login_view d ?x = enabled" by (simp add: login_view_def setting_read)
  then show ?thesis
    using login_run [OF p assms(2)] doctor_run [of t p d] p assms(2) x setting_read(1) by (auto simp: private_dir_def)
qed

text \<open>C38: in a private directory, for a file that is not too large, the diagnosis and the login agree whether the chooser is enabled.\<close>
theorem doctor_agrees_with_login:
  assumes "private_dir d (nodes s) p" "quiet d (dk_calls s)"
    and "\<And>u m n c. nodes s (path_join p CONFIG_NAME) = Some (Regular u m n c) \<Longrightarrow> length c \<le> MAX_CHOOSER_CONFIG_BYTES"
  shows "\<exists>g t x u. chooser_config_check d p s = (Inr g, t) \<and> login_chooser_enabled d p s = (Inr x, u) \<and> (says_enabled g \<longleftrightarrow> x)"
proof -
  have "nodes s p = Some (Folder (dr_uid d) 448)" using assms(1) by (simp add: private_dir_def)
  from doctor_run [OF this assms(2)] login_run [OF assms(1,2)] assms(3) show ?thesis
    by (fastforce simp: login_view_def split: option.splits node.splits)
qed

text \<open>C39: a directory that others may read and that holds no setting: the login does not show the chooser, the diagnosis says it is
  enabled by default.\<close>
theorem doctor_misses_unsafe_directory:
  assumes "path_name p \<notin> {[], ''.'', ''..''}" "list_all (folder_at (nodes s)) (chain_of p)" "quiet d (dk_calls s)"
    and "nodes s p = Some (Folder u m)" "m \<noteq> 448" "nodes s (path_join p CONFIG_NAME) = None"
  shows "\<exists>t v. login_chooser_enabled d p s = (Inr False, t) \<and>
    chooser_config_check d p s = (Inr (diagnostic ''chooser config'' ''ok'' ''login chooser is enabled by default'' None), v)"
proof -
  have w: "dr_fault d (dk_calls s) = Works" using assms(3) by (simp add: quiet_def)
  have "\<exists>t. login_chooser_enabled d p s = (Inr False, t)"
    using assms w
    by (simp add: login_chooser_enabled_def open_config_directory_def bind_s_run catch_def effect_run enter_folders node_at_def)
  moreover have "\<exists>v. chooser_config_check d p s = (Inr (diagnostic ''chooser config'' ''ok'' ''login chooser is enabled by default'' None), v)"
    using assms(4,6) w by (simp add: chooser_config_check_def bind_s_run catch_def effect_run node_at_def Let_def)
  ultimately show ?thesis by blast
qed

section \<open>A configuration\<close>

text \<open>The directory has the mode \<open>m\<close>, and \<open>x\<close> is the file in it.\<close>

definition config_disk :: "int \<Rightarrow> node option \<Rightarrow> disk" where
  "config_disk m x =
     \<lparr>nodes = (\<lambda>q. if q = ''/h/termrecall/config.json'' then x else if q = ''/h/termrecall'' then Some (Folder 1000 m)
        else Some (Folder 1000 493)),
      dk_calls = 0\<rparr>"

lemma config_places:
  "path_join ''/h/termrecall'' CONFIG_NAME = ''/h/termrecall/config.json''" "chain_of ''/h/termrecall'' = [''/'', ''/h'', ''/h/termrecall'']"
  "path_name ''/h/termrecall'' \<notin> {[], ''.'', ''..''}"
  by code_simp+

lemma config_nodes:
  "nodes (config_disk m x) ''/h/termrecall/config.json'' = x" "nodes (config_disk m x) ''/h/termrecall'' = Some (Folder 1000 m)"
  "list_all (folder_at (nodes (config_disk m x))) (chain_of ''/h/termrecall'')" "dk_calls (config_disk m x) = 0"
  unfolding config_places by (simp_all add: config_disk_def folder_at_def)

lemma config_private: "private_dir (demo_drive f) (nodes (config_disk 448 x)) ''/h/termrecall''"
  unfolding private_dir_def using config_places(3) config_nodes(3) by (simp add: config_nodes demo_fields)

lemma always_quiet: "quiet (demo_drive (\<lambda>_. Works)) n"
  by (simp add: quiet_def demo_fields)

theorem chooser_setting_readback_witness:
  "\<exists>t u. write_chooser_setting (demo_drive (\<lambda>_. Works)) ''/h/termrecall'' False (config_disk 448 None) = (Inr (), t) \<and>
     login_chooser_enabled (demo_drive (\<lambda>_. Works)) ''/h/termrecall'' t = (Inr False, u)"
proof -
  have "\<exists>t. write_chooser_setting (demo_drive (\<lambda>_. Works)) ''/h/termrecall'' False (config_disk 448 None) = (Inr (), t)"
    by (simp add: write_chooser_setting_def bind_s_run open_private [OF config_private always_quiet] effect_run demo_fields node_at_def
        put_node_def config_places config_nodes)
  then show ?thesis using chooser_setting_readback [OF _ always_quiet] by blast
qed

theorem doctor_agrees_with_login_witness:
  "\<exists>g t x u. chooser_config_check (demo_drive (\<lambda>_. Works)) ''/h/termrecall'' (config_disk 448 (Some (Regular 1000 420 1 []))) = (Inr g, t) \<and>
     login_chooser_enabled (demo_drive (\<lambda>_. Works)) ''/h/termrecall'' (config_disk 448 (Some (Regular 1000 420 1 []))) = (Inr x, u) \<and>
     (says_enabled g \<longleftrightarrow> x)"
  by (rule doctor_agrees_with_login [OF config_private always_quiet]) (simp add: config_places config_nodes)

theorem doctor_misses_unsafe_directory_witness:
  "\<exists>t v. login_chooser_enabled (demo_drive (\<lambda>_. Works)) ''/h/termrecall'' (config_disk 493 None) = (Inr False, t) \<and>
     chooser_config_check (demo_drive (\<lambda>_. Works)) ''/h/termrecall'' (config_disk 493 None) =
       (Inr (diagnostic ''chooser config'' ''ok'' ''login chooser is enabled by default'' None), v)"
  by (rule doctor_misses_unsafe_directory [where u = 1000 and m = 493, OF config_places(3) config_nodes(3) always_quiet])
    (simp_all add: config_places config_nodes)

end
