(* ===== verification/Doctor.thy ===== *)
theory Doctor
  imports Cli Chooser
begin

text \<open>
  The diagnoses of \<^verbatim>\<open>doctor.py\<close>: the files of the package, the directories, the socket, the stored state, the session and its
  terminal, the setting of the chooser, the service, and the installation with its integrations. The disk is the one of
  the installer; what else is looked at is in \<open>surroundings\<close>.
\<close>

section \<open>What is looked at\<close>

text \<open>
  The package; which files the user may read and run; the environment; the answers of the service to the two requests
  for its status; the entry of the socket (a socket or not, its owner and mode) and the identity of a stale one; the
  checkpoints of the state directory, the newest first; the file of the boot identifier; the search path.
\<close>

record surroundings =
  sr_package :: string
  sr_readable :: "string \<Rightarrow> bool"
  sr_runnable :: "string \<Rightarrow> bool"
  sr_env :: "string \<rightharpoonup> string"
  sr_reached :: "ServiceResponse result"
  sr_status :: "ServiceResponse result"
  sr_socket :: "(bool \<times> int \<times> int) result"
  sr_stale :: "(int \<times> int) option"
  sr_checkpoints :: "string list"
  sr_boot :: "string result"
  sr_host :: host

definition file_check :: "surroundings \<Rightarrow> string \<Rightarrow> string \<Rightarrow> bool \<Rightarrow> (disk, Diagnostic) act" where
  "file_check w name p helper =
     bind_s (followed p) (\<lambda>x.
     ret (case x of
        None \<Rightarrow> diagnostic name ''error'' (''package file is missing: '' @ p) (Some ''reinstall the termrecall package'')
      | Some y \<Rightarrow>
          if (case y of node.Regular u m n c \<Rightarrow> \<not> sr_readable w p | _ \<Rightarrow> True) then
            diagnostic name ''error'' (''package file is not a readable regular file: '' @ p) (Some ''reinstall the termrecall package'')
          else if helper \<and> \<not> sr_runnable w p then
            diagnostic name ''error'' (''package helper is not executable: '' @ p) (Some ''reinstall the termrecall package'')
          else diagnostic name ''ok'' (''available at '' @ p) None))"

definition directory_check :: "drive \<Rightarrow> string \<Rightarrow> string \<Rightarrow> (disk, Diagnostic) act" where
  "directory_check d name p =
     bind_s (node_at p) (\<lambda>x.
     ret (case x of
        None \<Rightarrow> diagnostic name ''warning'' (''directory does not exist yet: '' @ p) (Some ''start TermRecall once to create it safely'')
      | Some (node.Folder u m) \<Rightarrow>
          if u \<noteq> dr_uid d \<or> m \<noteq> 448 then
            diagnostic name ''error'' (''unsafe owner or mode for '' @ p @ ''; expected current UID and 0700'')
              (Some ''verify ownership and set mode 0700'')
          else diagnostic name ''ok'' ''private current-user directory mode 0700'' None
      | Some _ \<Rightarrow> diagnostic name ''error'' (''path is not a directory: '' @ p)
          (Some ''move the entry aside and recreate a private directory'')))"

definition socket_check :: "drive \<Rightarrow> surroundings \<Rightarrow> string \<Rightarrow> Diagnostic result" where
  "socket_check d w runtime =
     (let p = path_join runtime ''service.sock'' in
      case sr_socket w of
        Inl e \<Rightarrow>
          if is_FileNotFoundError e then
            Inr (diagnostic ''socket'' ''warning'' (''service socket is absent: '' @ p) (Some ''start TermRecall from the supported login integration''))
          else if is_OSError e then
            Inr (diagnostic ''socket'' ''error'' (''service socket cannot be inspected: '' @ p) (Some ''inspect the runtime directory''))
          else Inl e
      | Inr (sock, u, m) \<Rightarrow>
          if \<not> sock \<or> u \<noteq> dr_uid d \<or> m \<noteq> 384 then
            Inr (diagnostic ''socket'' ''error''
              (''unsafe service socket type, owner, or mode: '' @ p @ ''; expected current UID socket mode 0600'')
              (Some ''do not remove it automatically; inspect the verified path manually''))
          else
            case sr_reached w of
              Inr r \<Rightarrow> Inr (diagnostic ''socket'' ''ok'' (''service is reachable at '' @ p) None)
            | Inl (RuntimeError t) \<Rightarrow>
                (case sr_stale w of
                   Some (dev, ino) \<Rightarrow>
                     Inr (diagnostic ''socket'' ''warning''
                       (''verified stale socket candidate: '' @ p @ '' inode '' @ int_text dev @ '':'' @ int_text ino)
                       (Some ''termrecall doctor --cleanup-stale-socket''))
                 | None \<Rightarrow>
                     Inr (diagnostic ''socket'' ''error'' (''socket is unreachable but could not be verified stale: '' @ p)
                       (Some ''stop the owning service or inspect the singleton lock; no automatic deletion was performed'')))
            | Inl e \<Rightarrow> Inl e)"

section \<open>The stored state\<close>

text \<open>\<^verbatim>\<open>type(exc).__name__\<close>: the error of a text that is not UTF-8 has a class of its own.\<close>

definition error_name :: "py_error \<Rightarrow> string" where
  "error_name e =
     (case e of
        ValueError t \<Rightarrow> if t = ''invalid utf-8'' then ''UnicodeDecodeError'' else ''ValueError''
      | JSONDecodeError t \<Rightarrow> ''JSONDecodeError''
      | UnsupportedSchemaVersion t \<Rightarrow> ''UnsupportedSchemaVersion''
      | TypeError t \<Rightarrow> ''TypeError''
      | _ \<Rightarrow> type_name e)"

text \<open>A record that is on file: an object, and what it decodes to.\<close>

definition check_record :: "drive \<Rightarrow> surroundings \<Rightarrow> string \<Rightarrow> string \<Rightarrow> string \<Rightarrow> (json \<Rightarrow> 'a result) \<Rightarrow> (disk, unit) act" where
  "check_record d w p what origin decode =
     bind_s (node_at p) (\<lambda>x.
     case x of
       None \<Rightarrow> raise_s (FileNotFoundError p)
     | Some (node.Regular u m n c) \<Rightarrow>
         if u \<noteq> dr_uid d \<or> \<not> sr_readable w p then raise_s (ValueError (what @ '' is not a readable current-user regular file''))
         else
           bind_s (effect d (ret ())) (\<lambda>_.
           bind_s (lift_s (loads_bytes c)) (\<lambda>v.
           case v of
             JObj kvs \<Rightarrow> bind_s (lift_s (decode v)) (\<lambda>_. ret ())
           | _ \<Rightarrow> raise_s (ValueError (origin @ '' root is not an object''))))
     | Some _ \<Rightarrow> raise_s (ValueError (what @ '' is not a readable current-user regular file'')))"

definition state_check :: "drive \<Rightarrow> surroundings \<Rightarrow> string \<Rightarrow> (disk, Diagnostic) act" where
  "state_check d w p =
     bind_s (directory_check d ''state store'' p) (\<lambda>dir.
     if dg_status dir \<noteq> ''ok'' then ret dir
     else
       catch
         (bind_s (case sr_checkpoints w of [] \<Rightarrow> ret () | name # _ \<Rightarrow> check_record d w name ''latest checkpoint'' ''checkpoint'' snapshot_from_dict) (\<lambda>_.
          bind_s (path_exists (path_join p ''recovery.json'')) (\<lambda>there.
          bind_s (when_s there (check_record d w (path_join p ''recovery.json'') ''recovery record'' ''recovery'' recovery_from_dict)) (\<lambda>_.
          ret (diagnostic ''state store'' ''ok'' ''state directory and latest checkpoint schema are readable'' None)))))
         (\<lambda>e. if is_OSError e \<or> is_ValueError e \<or> (\<exists>t. e = TypeError t) then
               ret (diagnostic ''state store'' ''error'' (''checkpoint readability/schema check failed: '' @ error_name e)
                 (Some ''preserve the file and inspect it; doctor will not modify invalid checkpoints''))
             else raise_s e))"

definition durability_check :: "surroundings \<Rightarrow> Diagnostic result" where
  "durability_check w =
     (case sr_status w of
        Inl (RuntimeError t) \<Rightarrow>
          Inr (diagnostic ''durability'' ''warning'' ''durability status is unavailable while the service is unreachable''
            (Some ''start or diagnose the service''))
      | Inl e \<Rightarrow> Inl e
      | Inr (StatusResponse v) \<Rightarrow>
          if durability_degraded v \<or> st_dirty_generation v > st_durable_generation v \<or> st_last_error v \<noteq> None then
            Inr (diagnostic ''durability'' ''warning''
              (''durability degraded at dirty/durable generation '' @ int_text (st_dirty_generation v) @ ''/'' @ int_text (st_durable_generation v))
              (Some ''run termrecall snapshot after resolving the reported write error''))
          else Inr (diagnostic ''durability'' ''ok'' (''durable generation '' @ int_text (st_durable_generation v)) None)
      | Inr _ \<Rightarrow>
          Inr (diagnostic ''durability'' ''error'' ''service did not return durability status'' (Some ''inspect service diagnostics'')))"

section \<open>The installation\<close>

definition V1_BASH_MARKER :: string where "V1_BASH_MARKER = ''>>> termrecall v1 >>>''"

definition readlink :: "string \<Rightarrow> (disk, string option) act" where
  "readlink p = bind_s (node_at p) (\<lambda>x. ret (case x of Some (node.Link u t) \<Rightarrow> Some t | _ \<Rightarrow> None))"

definition current_diagnostic :: "string \<Rightarrow> string option \<Rightarrow> Diagnostic" where
  "current_diagnostic gen target =
     (case target of
        None \<Rightarrow> diagnostic ''current link'' ''error'' ''the active current generation symlink is missing''
          (Some ''rerun ./install.sh or termrecall uninstall before reinstalling'')
      | Some t \<Rightarrow>
          if t \<noteq> gen then
            diagnostic ''current link'' ''error'' ''the current link target does not match the manifest generation''
              (Some ''rerun ./install.sh to realign the active generation'')
          else diagnostic ''current link'' ''ok'' ''current link target matches the manifest generation'' None)"

definition link_diagnostic :: "LifecyclePaths \<Rightarrow> string \<Rightarrow> (disk, Diagnostic) act" where
  "link_diagnostic paths l =
     bind_s (readlink l) (\<lambda>target.
     let label = ''command link '' @ path_name l in
     ret (case target of
        None \<Rightarrow> diagnostic label ''error'' (''command link is missing: '' @ l) (Some ''rerun ./install.sh to recreate command links'')
      | Some t \<Rightarrow>
          if t \<noteq> path_join (current_link paths) (''venv/bin/'' @ path_name l) then
            diagnostic label ''error'' (''command link target is not the active executable: '' @ l)
              (Some ''rerun ./install.sh to repair command links'')
          else diagnostic label ''ok'' ''command link resolves to the active executable'' None))"

definition bash_diagnostic :: "drive \<Rightarrow> LifecyclePaths \<Rightarrow> InstallManifest \<Rightarrow> (disk, Diagnostic) act" where
  "bash_diagnostic d paths m =
     bind_s (path_exists (bashrc paths)) (\<lambda>there.
     bind_s (if there then catch (read_bytes d (bashrc paths)) (\<lambda>e. if is_OSError e then ret [] else raise_s e) else ret []) (\<lambda>raw.
     ret (if contains raw V1_BASH_MARKER then
            diagnostic ''bash integration'' (if im_bash_enabled m then ''ok'' else ''warning'')
              (''managed V1 Bash block is present'' @ (if im_bash_enabled m then [] else '' but disabled in the manifest''))
              (Some ''run termrecall setup --bash enable to re-enable'')
          else diagnostic ''bash integration'' ''warning'' ''managed V1 Bash block is absent''
            (Some ''run termrecall setup --bash enable if Bash capture is desired''))))"

definition autostart_diagnostic :: "InstallManifest \<Rightarrow> bool \<Rightarrow> Diagnostic" where
  "autostart_diagnostic m there =
     (if there then
        diagnostic ''autostart entry'' (if im_autostart_enabled m then ''ok'' else ''warning'')
          (''autostart desktop entry is present'' @ (if im_autostart_enabled m then [] else '' but disabled in the manifest''))
          (Some ''run termrecall autostart enable to re-enable'')
      else diagnostic ''autostart entry'' ''warning'' ''autostart desktop entry is absent''
        (Some ''run termrecall autostart enable if login coordinator startup is desired''))"

definition state_diagnostic :: "drive \<Rightarrow> string \<Rightarrow> (disk, Diagnostic) act" where
  "state_diagnostic d p =
     bind_s (node_at p) (\<lambda>x.
     ret (case x of
        None \<Rightarrow> diagnostic ''state safety'' ''warning'' ''state root does not exist yet'' (Some ''start the service once to create it safely'')
      | Some y \<Rightarrow>
          if y \<noteq> node.Folder (dr_uid d) 448 then
            diagnostic ''state safety'' ''error'' ''state root is not a private current-user 0700 directory''
              (Some ''inspect the state root ownership and mode'')
          else diagnostic ''state safety'' ''ok'' ''state root is a private 0700 directory'' None))"

definition path_diagnostic :: "surroundings \<Rightarrow> string \<Rightarrow> Diagnostic" where
  "path_diagnostic w bin =
     (if bin \<in> set (split_on CHR '':'' (case sr_env w ''PATH'' of None \<Rightarrow> ''/bin:/usr/bin'' | Some t \<Rightarrow> t)) then
        diagnostic ''PATH visibility'' ''ok'' (bin @ '' is on PATH'') None
      else diagnostic ''PATH visibility'' ''warning'' (bin @ '' is not on PATH'')
        (Some ''add it to your shell profile so the installed commands resolve''))"

primrec collect :: "('a \<Rightarrow> ('s, 'b) act) \<Rightarrow> 'a list \<Rightarrow> ('s, 'b list) act" where
  "collect f [] = ret []"
| "collect f (x # xs) = bind_s (f x) (\<lambda>y. bind_s (collect f xs) (\<lambda>ys. ret (y # ys)))"

definition installed_diagnostics :: "drive \<Rightarrow> surroundings \<Rightarrow> LifecyclePaths \<Rightarrow> InstallManifest \<Rightarrow> (disk, Diagnostic list) act" where
  "installed_diagnostics d w paths m =
     bind_s (readlink (current_link paths)) (\<lambda>target.
     bind_s (collect (link_diagnostic paths) (command_links paths)) (\<lambda>links.
     bind_s (bash_diagnostic d paths m) (\<lambda>bash.
     bind_s (path_exists (autostart paths)) (\<lambda>entry.
     bind_s (path_exists (chooser paths)) (\<lambda>there.
     bind_s (state_diagnostic d (state_root paths)) (\<lambda>state.
     ret ([diagnostic ''install manifest'' ''ok'' (''schema-2 manifest for generation '' @ im_generation_id m) None,
           current_diagnostic (path_join (generations paths) (im_generation_id m)) target] @ links @
          [bash, autostart_diagnostic m entry,
           diagnostic ''chooser ownership'' ''ok''
             (''chooser ownership is '' @
              (if co_changed (im_chooser m) then ''managed'' else if there then ''original'' else ''absent'')) None,
           state, path_diagnostic w (bin_root paths)])))))))"

definition lifecycle_diagnostics :: "drive \<Rightarrow> (rat \<Rightarrow> string) \<Rightarrow> surroundings \<Rightarrow> LifecyclePaths \<Rightarrow> (disk, Diagnostic list) act" where
  "lifecycle_diagnostics d fr w paths =
     bind_s (path_exists (manifest_path paths)) (\<lambda>there.
     if \<not> there then
       ret [diagnostic ''install manifest'' ''warning'' ''no installed TermRecall application manifest was found''
         (Some ''run ./install.sh to install or upgrade per-user'')]
     else
       bind_s (catch
         (bind_s (read_bytes d (manifest_path paths)) (\<lambda>raw.
          bind_s (lift_s (manifest_from_bytes fr (dr_sha d) raw paths (dr_uid d))) (\<lambda>m. ret (Inr m))))
         (\<lambda>e. if is_OSError e \<or> is_ValueError e then ret (Inl (error_name e)) else raise_s e)) (\<lambda>read.
       case read of
         Inl name \<Rightarrow>
           ret [diagnostic ''install manifest'' ''error'' (''manifest is unreadable or not schema-2 canonical: '' @ name)
             (Some ''rerun ./install.sh to repair the installation'')]
       | Inr m \<Rightarrow> installed_diagnostics d w paths m))"

section \<open>All of it\<close>

definition boot_diagnostic :: "surroundings \<Rightarrow> Diagnostic result" where
  "boot_diagnostic w =
     (case read_boot_id (sr_boot w) of
        Inl e \<Rightarrow>
          if is_OSError e \<or> is_ValueError e then
            Inr (diagnostic ''boot ID'' ''error'' ''current Linux boot ID is unreadable or invalid'' (Some ''verify /proc/sys/kernel/random/boot_id''))
          else Inl e
      | Inr t \<Rightarrow> Inr (diagnostic ''boot ID'' ''ok'' (''current boot ID is readable ('' @ t @ '')'') None))"

definition session_diagnostics :: "surroundings \<Rightarrow> Diagnostic list" where
  "session_diagnostics w =
     (let desktop = (case sr_env w ''XDG_CURRENT_DESKTOP'' of None \<Rightarrow> [] | Some t \<Rightarrow> t);
          screen = (case sr_env w ''GNOME_TERMINAL_SCREEN'' of None \<Rightarrow> False | Some t \<Rightarrow> t \<noteq> []) in
      [if filter (\<lambda>n. n \<in> set SUPPORTED_DESKTOPS) (split_on CHR '':'' desktop) \<noteq> [] then
         diagnostic ''desktop session'' ''ok'' (''XDG_CURRENT_DESKTOP='' @ desktop) None
       else diagnostic ''desktop session'' ''warning'' ''supported desktop was not detected'' (Some ''run in a Cinnamon, GNOME, XFCE, or KDE session''),
       diagnostic ''GNOME Terminal shell context'' ''ok''
         (''GNOME_TERMINAL_SCREEN is '' @ (if screen then ''present'' else ''absent'') @ '' (informational only)'') None])"

definition unsupported_names :: "AdapterCapabilities \<Rightarrow> string list" where
  "unsupported_names c =
     map fst (filter (\<lambda>x. \<not> snd x)
       [(''windows'', windows c), (''panes'', panes c), (''scrollback'', scrollback c), (''deterministic_grouping'', deterministic_grouping c)])"

definition adapter_diagnostics :: "surroundings \<Rightarrow> Adapter \<Rightarrow> Diagnostic list result" where
  "adapter_diagnostics w a =
     bind_r (detect_adapter (sr_host w)) (\<lambda>detected.
     let unsupported = unsupported_names (adapter_capabilities a) in
     Inr [case detected of
            Some n \<Rightarrow>
              if detect (sr_host w) a then diagnostic ''terminal adapter'' ''ok'' (n @ '' adapter detected'') None
              else diagnostic ''terminal adapter'' ''error'' ''no supported terminal adapter was detected''
                (Some ''install one of: ghostty, gnome-terminal, kitty, konsole, xfce4-terminal'')
          | None \<Rightarrow> diagnostic ''terminal adapter'' ''error'' ''no supported terminal adapter was detected''
              (Some ''install one of: ghostty, gnome-terminal, kitty, konsole, xfce4-terminal''),
          if unsupported \<noteq> [] then
            diagnostic ''adapter capabilities'' ''warning'' (''unsupported restoration capabilities: '' @ join '', '' unsupported)
              (Some ''expect partial or reconstructed restoration; process memory is never resumed'')
          else diagnostic ''adapter capabilities'' ''ok'' ''all advertised adapter capabilities are available'' None])"

text \<open>\<open>home\<close> is \<^verbatim>\<open>Path.home()\<close>.\<close>

definition install_diagnostics :: "drive \<Rightarrow> (rat \<Rightarrow> string) \<Rightarrow> surroundings \<Rightarrow> string \<Rightarrow> (disk, Diagnostic list) act" where
  "install_diagnostics d fr w home =
     catch
       (bind_s (lift_s (resolve_lifecycle_paths (sr_env w) (case sr_env w ''HOME'' of None \<Rightarrow> home | Some t \<Rightarrow> t))) (lifecycle_diagnostics d fr w))
       (\<lambda>e. if is_OSError e \<or> is_ValueError e then
             ret [diagnostic ''install manifest'' ''warning'' ''installed lifecycle paths could not be resolved from the environment''
               (Some ''set HOME and XDG roots or run ./install.sh'')]
           else raise_s e)"

definition run_doctor :: "drive \<Rightarrow> (rat \<Rightarrow> string) \<Rightarrow> surroundings \<Rightarrow> string \<Rightarrow> XDGPaths \<Rightarrow> Adapter \<Rightarrow> (disk, Diagnostic list) act" where
  "run_doctor d fr w home x a =
     bind_s (file_check w ''bash hook'' (path_join (sr_package w) ''data/bash/termrecall.bash'') False) (\<lambda>hook.
     bind_s (file_check w ''native helper'' (path_join (sr_package w) ''libexec/termrecall-nonblock'') True) (\<lambda>helper.
     bind_s (directory_check d ''runtime directory'' (runtime_dir x)) (\<lambda>runtime.
     bind_s (lift_s (socket_check d w (runtime_dir x))) (\<lambda>sock.
     bind_s (state_check d w (XDGPaths.state_dir x)) (\<lambda>state.
     bind_s (lift_s (boot_diagnostic w)) (\<lambda>boot.
     bind_s (lift_s (adapter_diagnostics w a)) (\<lambda>adapter.
     bind_s (file_check w ''login chooser'' (path_join (sr_package w) ''data/xdg/termrecall.desktop'') False) (\<lambda>entry.
     bind_s (chooser_config_check d (config_dir x)) (\<lambda>setting.
     bind_s (lift_s (durability_check w)) (\<lambda>durability.
     bind_s (install_diagnostics d fr w home) (\<lambda>installed.
     ret ([hook, helper, runtime, sock, state, boot] @ session_diagnostics w @ adapter @ [entry, setting, durability] @ installed))))))))))))"

definition doctor_lines :: "Diagnostic \<Rightarrow> string list" where
  "doctor_lines g =
     [[CHR 0x5B] @ upper (dg_status g) @ ''] '' @ dg_name g @ '': '' @ dg_message g] @
     (case dg_remedy g of None \<Rightarrow> [] | Some r \<Rightarrow> if r = [] then [] else [''  remedy: '' @ r])"

definition doctor_exit :: "Diagnostic list \<Rightarrow> int" where
  "doctor_exit gs =
     (if \<exists>g \<in> set gs. dg_status g = ''error'' then EXIT_FAILURE
      else if \<exists>g \<in> set gs. dg_status g = ''warning'' then EXIT_WARNING else EXIT_OK)"

text \<open>What \<^verbatim>\<open>termrecall doctor\<close> prints, and its exit code.\<close>

definition doctor_command :: "drive \<Rightarrow> (rat \<Rightarrow> string) \<Rightarrow> surroundings \<Rightarrow> string \<Rightarrow> XDGPaths \<Rightarrow> (disk, string list \<times> int) act" where
  "doctor_command d fr w home x =
     bind_s (lift_s (bind_r (detect_adapter (sr_host w)) (\<lambda>n.
       create_adapter (case n of None \<Rightarrow> ''gnome-terminal'' | Some t \<Rightarrow> if t = [] then ''gnome-terminal'' else t)))) (\<lambda>a.
     bind_s (run_doctor d fr w home x a) (\<lambda>gs. ret (concat (map doctor_lines gs), doctor_exit gs)))"

section \<open>Nothing is changed\<close>

definition reads_only :: "(disk, 'a) act \<Rightarrow> bool" where
  "reads_only m \<longleftrightarrow> (\<forall>s. nodes (snd (m s)) = nodes s)"

lemma reads_only_bind: "reads_only m \<Longrightarrow> (\<And>a. reads_only (f a)) \<Longrightarrow> reads_only (bind_s m f)"
  by (auto simp: reads_only_def bind_s_run split: prod.split sum.split) (metis snd_conv)+

lemma reads_only_catch: "reads_only m \<Longrightarrow> (\<And>e. reads_only (h e)) \<Longrightarrow> reads_only (catch m h)"
  by (auto simp: reads_only_def catch_def split: prod.split sum.split) (metis snd_conv)+

lemma reads_only_basic: "reads_only (ret a)" "reads_only (raise_s e)" "reads_only (lift_s r)" "reads_only (gets g)"
  by (simp_all add: reads_only_def)

lemma reads_only_disk: "reads_only (node_at p)" "reads_only (followed p)" "reads_only (path_exists p)" "reads_only (readlink p)"
  unfolding node_at_def followed_def path_exists_def readlink_def by (intro reads_only_basic reads_only_bind)+

lemma reads_only_effect: "reads_only (effect d (ret ()))"
  by (simp add: reads_only_def effect_run bind_s_run split: fault.split bool.split)

lemma reads_only_read: "reads_only (read_bytes d p)"
  unfolding read_bytes_def
  by (intro reads_only_bind reads_only_effect reads_only_disk) (auto simp: reads_only_basic split: option.split node.split)

lemma reads_only_collect: "(\<And>x. reads_only (f x)) \<Longrightarrow> reads_only (collect f xs)"
  by (induction xs) (auto intro!: reads_only_bind reads_only_basic)

lemmas reads_only_rules = reads_only_bind reads_only_catch reads_only_basic reads_only_disk reads_only_effect reads_only_read reads_only_collect

lemma reads_only_checks:
  "reads_only (file_check w name p helper)" "reads_only (directory_check d name p)" "reads_only (link_diagnostic paths l)"
  "reads_only (bash_diagnostic d paths m)" "reads_only (state_diagnostic d p)"
  unfolding file_check_def directory_check_def link_diagnostic_def bash_diagnostic_def state_diagnostic_def Let_def
  by (intro reads_only_rules | simp add: reads_only_rules split: if_split)+

lemma reads_only_record: "reads_only (check_record d w p what origin decode)"
  unfolding check_record_def
  by (intro reads_only_rules | simp add: reads_only_rules split: option.split node.split json.split if_split)+

lemma reads_only_state: "reads_only (state_check d w p)"
  unfolding state_check_def when_s_def
  by (intro reads_only_rules reads_only_checks | simp add: reads_only_rules reads_only_checks reads_only_record split: list.split if_split)+

lemma reads_only_setting: "reads_only (chooser_config_check d p)"
  unfolding chooser_config_check_def Let_def
  by (intro reads_only_rules | simp add: reads_only_rules split: option.split node.split sum.split if_split)+

lemma reads_only_installed: "reads_only (installed_diagnostics d w paths m)"
  unfolding installed_diagnostics_def
  by (intro reads_only_rules reads_only_checks)

lemma reads_only_lifecycle: "reads_only (lifecycle_diagnostics d fr w paths)"
  unfolding lifecycle_diagnostics_def
  by (intro reads_only_rules | simp add: reads_only_rules reads_only_installed split: sum.split if_split)+

lemma reads_only_install: "reads_only (install_diagnostics d fr w home)"
  unfolding install_diagnostics_def
  by (intro reads_only_rules reads_only_lifecycle | simp add: reads_only_rules split: if_split)+

lemma reads_only_doctor: "reads_only (run_doctor d fr w home x a)"
  unfolding run_doctor_def
  by (intro reads_only_rules reads_only_checks reads_only_state reads_only_setting reads_only_install)

text \<open>The diagnosis changes nothing on the disk, whatever it finds and also when a call fails.\<close>
theorem doctor_changes_nothing:
  "nodes (snd (doctor_command d fr w home x s)) = nodes s"
proof -
  have "reads_only (doctor_command d fr w home x)"
    unfolding doctor_command_def by (intro reads_only_rules reads_only_doctor)
  then show ?thesis by (simp add: reads_only_def)
qed

section \<open>What it says\<close>

lemma never_all_capabilities: "unsupported_names (adapter_capabilities a) \<noteq> []"
  by (cases a) (simp_all add: unsupported_names_def)

lemma doctor_warns:
  assumes "run_doctor d fr w home x a s = (Inr gs, t)"
  shows "\<exists>g \<in> set gs. dg_status g = ''warning''"
proof -
  have "\<exists>ds. adapter_diagnostics w a = Inr ds \<and> (\<forall>g. g \<in> set ds \<longrightarrow> g \<in> set gs)"
    using assms unfolding run_doctor_def by (auto simp: bind_s_Inr)
  then obtain ds where ds: "adapter_diagnostics w a = Inr ds" "set ds \<subseteq> set gs" by blast
  then have "\<exists>g \<in> set ds. dg_status g = ''warning''"
    using never_all_capabilities [of a] by (auto simp: adapter_diagnostics_def diagnostic_def Let_def)
  with ds(2) show ?thesis by blast
qed

text \<open>C40: the diagnosis never ends with the exit code of success: no terminal can restore panes, so there is always a warning.\<close>
theorem doctor_never_succeeds:
  "fst (doctor_command d fr w home x s) \<noteq> Inr (ls, EXIT_OK)"
proof
  assume "fst (doctor_command d fr w home x s) = Inr (ls, EXIT_OK)"
  then obtain t where "doctor_command d fr w home x s = (Inr (ls, EXIT_OK), t)" by (metis prod.collapse)
  then obtain a gs u v where "run_doctor d fr w home x a u = (Inr gs, v)" "doctor_exit gs = EXIT_OK"
    unfolding doctor_command_def by (auto simp: bind_s_Inr)
  then show False using doctor_warns by (fastforce simp: doctor_exit_def EXIT_OK_def EXIT_WARNING_def EXIT_FAILURE_def split: if_splits)
qed

text \<open>\<^verbatim>\<open>status\<close> calls a service degraded also for the diagnostics it reports; the diagnosis does not look at them.\<close>

lemma durability_ok_iff:
  assumes "sr_status w = Inr (StatusResponse v)" "durability_check w = Inr g"
  shows "dg_status g = ''ok'' \<longleftrightarrow> \<not> degraded (v\<lparr>st_diagnostics := []\<rparr>)"
  using assms by (auto simp: durability_check_def degraded_def diagnostic_def split: if_splits)

end
