(* ===== verification/Spec2Isabelle.thy ===== *)
theory Spec2Isabelle
  imports Engine Checkpoint Workspace Processes Adapters Resume Recovery Client Backends Cli Manifest Consent Doctor
begin

text \<open>
  TermRecall keeps a record of the shells a user has open, so that their terminals can be opened again after a crash
  or a reboot. This development models the program under \<^verbatim>\<open>src/src/termrecall\<close> and proves what makes it correct.

  \<^bold>\<open>The program.\<close> A hook in the user's shell writes one line per event (a prompt, a change of directory, the
  start and the end of a command, the exit) to a \<^emph>\<open>bridge\<close>. The bridge registers the shell with the
  \<^emph>\<open>service\<close> over a local socket and sends the events on, numbered. The service keeps them in its \<^emph>\<open>engine\<close>, a
  table of registrations and a snapshot of all shells; a \<^emph>\<open>checkpoint manager\<close> decides when the snapshot is
  written, and a \<^emph>\<open>store\<close> writes it atomically into the state directory. When the user asks for a restore, the
  service compares the snapshot with the running processes, turns the shells that died into a \<^emph>\<open>workspace\<close> of
  recovery items, and an \<^emph>\<open>adapter\<close> for the user's terminal opens a tab per item; commands are run again only where
  the \<^emph>\<open>classifier\<close> found them harmless and the user approved them, or as a \<^emph>\<open>resume\<close> of a session of an agent tool.
  The \<^emph>\<open>command line\<close> is a \<^emph>\<open>client\<close> of the service, with a second source of candidates, the session files of
  the tools. An \<^emph>\<open>installer\<close> edits the user's start-up files and keeps a manifest of what it owns.

  \<^bold>\<open>Conventions.\<close> A class or dataclass is a \<^verbatim>\<open>record\<close>, an enumeration or union a \<^verbatim>\<open>datatype\<close>, and the check of a
  constructor an operation with the suffix \<open>_check\<close> or \<open>_init\<close>. Exceptions are values: \<open>py_error\<close> has one constructor
  per class, \<open>'a result\<close> is \<open>py_error + 'a\<close>, and \<open>('s, 'a) act\<close> is an operation on a state that may raise and keeps
  its effects when it does. A \<^verbatim>\<open>str\<close> is a list of code points and a \<^verbatim>\<open>bytes\<close> a list of bytes; both are \<open>string\<close>,
  so texts are limited to the code points up to U+00FF. Python's integers are \<open>int\<close>, finite floats \<open>rat\<close>. Names follow
  the source; a name that is taken has a suffix or the name of its component.

  \<^bold>\<open>The theories.\<close>
  \<^item> \<open>Prelude\<close>, \<open>Effect\<close>: exceptions, results, the state monad with its triples and frame rules, lists and
    enumerations (the locale \<open>str_enum\<close>, interpreted for every enumeration of the program).
  \<^item> \<open>Json\<close>, \<open>Json_Text\<close>, \<open>Text_Tools\<close>, \<open>Uuid\<close>: the standard library the program relies on: JSON values, the
    printer and the parser of JSON text (the locale \<open>escaping\<close>, for plain and for ASCII output), regular expressions,
    \<^verbatim>\<open>shlex\<close>, paths and identifiers. The parser has fuel, the length of the text; a lemma shows it is enough.
  \<^item> \<open>Model\<close> (\<^verbatim>\<open>model.py\<close>): shells, commands, snapshots, recovery records, and their dictionaries. Decoding
    accepts only records that satisfy every invariant; encoding and decoding are inverse.
  \<^item> \<open>Classifier\<close> (\<^verbatim>\<open>classifier.py\<close>): which commands may be run again. What a replayable command can look like,
    and that credentials are never stored.
  \<^item> \<open>Protocol\<close>, \<open>Wire\<close> (\<^verbatim>\<open>protocol.py\<close>): the messages as JSON values (the locale \<open>message_codec\<close>) and as lines of
    bytes (the locale \<open>line_codec\<close>), for requests, responses and the frames of the shell. Round trips, types and
    bounds of everything that is read.
  \<^item> \<open>Engine\<close> (\<^verbatim>\<open>state.py\<close>): registrations and events. \<open>engine_step\<close> runs them in any order; invariants, no replay
    of an event, and what an event may change.
  \<^item> \<open>Checkpoint\<close> (\<^verbatim>\<open>checkpoint.py\<close>): the manager as a step relation \<open>cp_step\<close> of the parts that run under its
    lock. What is called durable is the target of the last finished write and on disk, a change is written, a flush is
    honest.
  \<^item> \<open>Persist\<close>, \<open>Store\<close>, \<open>Workspace\<close> (\<^verbatim>\<open>store.py\<close>): the files of the state directory with a failure at any call and
    a crash between any two. Atomic writes, checkpoints, and the recovery record, which refines an abstract machine with
    one workspace and its tombstone.
  \<^item> \<open>Processes\<close> (\<^verbatim>\<open>processes.py\<close>, \<^verbatim>\<open>paths.py\<close>): whether a recorded process still runs, also when its identifier was
    used again.
  \<^item> \<open>Adapters\<close> (\<^verbatim>\<open>adapters/\<close>): what each of the five terminals is started with, word by word (\<open>sound_argv\<close>, the
    contract \<open>terminal_adapter\<close> of an adapter). \<open>Resume\<close> (\<^verbatim>\<open>adapters/resume.py\<close>):
    how a tool resumes a session, found in the output of its help. \<open>Sessions\<close> (\<^verbatim>\<open>sessions.py\<close>): the sessions the tools
    have stored.
  \<^item> \<open>Recovery\<close> (\<^verbatim>\<open>recovery.py\<close>): which shells are recovered, with which directory, and the plan of an attempt.
  \<^item> \<open>Server\<close> (\<^verbatim>\<open>server.py\<close>): the handlers over all the above and the loop of a connection. A handler runs as one step:
    the handlers that touch the engine hold one lock, the operations of a workspace its own; \<open>attempt_launch\<close> and
    \<open>attempt_commit\<close> are separate, because the first runs without the lock.
  \<^item> \<open>Bridge\<close>, \<open>Client\<close> (\<^verbatim>\<open>bridge.py\<close>, \<^verbatim>\<open>client.py\<close>): the two ends of the socket, over a network that may fail at
    each call. \<open>Link\<close> joins the bridge with the service over connections that lose requests or replies.
  \<^item> \<open>Backends\<close>, \<open>Cli\<close>, \<open>Consent\<close> (\<^verbatim>\<open>backends.py\<close>, \<^verbatim>\<open>cli.py\<close>): the commands that talk to the service and to the
    user, with a log of all that was printed and typed; \<open>Consent\<close> joins them with the client and the service:
    what a user was shown and answered before a command runs.
  \<^item> \<open>Manifest\<close> (\<^verbatim>\<open>installer_contract.py\<close>): what the installer found and owns, and the canonical bytes of its manifest, which
    are read back as they were written.
  \<^item> \<open>Disk\<close> (\<^verbatim>\<open>lifecycle_fs.py\<close>): the operations on a single file and the lock, over a map of absolute paths to nodes with
    owners and modes; any call may fail, before or after its effect.
  \<^item> \<open>Integrations\<close> (\<^verbatim>\<open>lifecycle_integrations.py\<close>): the edits of \<^verbatim>\<open>.bashrc\<close>, the desktop entry and the setting of the
    chooser, and their plans. The block in \<^verbatim>\<open>.bashrc\<close> is removed without a trace, except when it was migrated.
  \<^item> \<open>Lifecycle\<close>, \<open>Transaction\<close> (\<^verbatim>\<open>lifecycle.py\<close>): the setup of the integrations of an installation. With at most one
    failure it is all or nothing; and three ways in which it falls short.
  \<^item> \<open>Chooser\<close>, \<open>Doctor\<close> (\<^verbatim>\<open>cli.py\<close>, \<^verbatim>\<open>doctor.py\<close>): the setting of the login chooser, written, read and explained, and the
    diagnoses of an installation. When the diagnosis agrees with the login, and that it never reports success.

  \<^bold>\<open>What is a parameter.\<close> The clock, randomness, SHA-256, the process file system, the directories and session files
  of the tools, the search path, the output of help texts, the launch of programs, and the answer of every call of the
  file system and of the network. Nothing is assumed of them but what the statements say.

  \<^bold>\<open>Not modelled.\<close> Start and stop of the service on sockets and lock files, signals and tasks
  (\<^verbatim>\<open>server.py\<close> \<^verbatim>\<open>start\<close>, \<^verbatim>\<open>close\<close>; the login coordinator of \<^verbatim>\<open>cli.py\<close>); the parsing of command lines by
  \<^verbatim>\<open>argparse\<close>; the descent to the state directory in \<^verbatim>\<open>store.py\<close>; the proof that a socket is stale in \<^verbatim>\<open>doctor.py\<close>; and of the installer
  the installation and removal of a generation with its virtual environment (\<^verbatim>\<open>installer.py\<close>, \<^verbatim>\<open>installer_probe.py\<close>,
  \<^verbatim>\<open>execute_setup\<close> and \<^verbatim>\<open>execute_uninstall\<close> of \<^verbatim>\<open>lifecycle.py\<close>, the deletion of trees and the quarantine of
  \<^verbatim>\<open>lifecycle_fs.py\<close>): these are sequences of calls of the operating system whose correctness lies in inodes and races
  that a map of paths to nodes does not have. Code points above U+00FF and the cost of operations are outside the model.

  \<^bold>\<open>What is simplified.\<close> An attempt launches and commits in one step (\<open>run_attempt\<close>), although the program lets other requests
  in between, after the launch. The launches that are counted are the terminals; the calls of \<^verbatim>\<open>tool --help\<close>
  (\<^verbatim>\<open>adapters/resume.py\<close>) are a parameter that gives a text. \<open>CpSystem\<close> adds to the manager what the proofs need to know of the
  disk and of the writes that finished. A call of the store fails in one way, with an \<open>OSError\<close>, and a crash leaves what a
  prefix of the calls has done: the model does not reorder writes, so no theorem depends on an fsync. A whole \<^verbatim>\<open>atomic_write\<close> of
  \<^verbatim>\<open>lifecycle_fs.py\<close> is one call of \<open>Disk\<close>, which may fail before or after its effect. In \<open>Link\<close> each line of the bridge is served
  as the first of a connection; that the service closes a connection after an invalid line does not appear there.
  In \<open>Client\<close> any read may run into the client's timeout.
\<close>

end
